(* ===== verification/Prelude.thy ===== *)
theory Prelude
  imports Complex_Main "HOL-Library.Word" "HOL-Library.Sublist" "HOL-Library.Multiset"
begin

section \<open>Prelude: the part of the Rust standard library the gateway uses\<close>

text \<open>
  Every component of the development imports this theory.  It holds

  \<^item> the machine-integer types and the arithmetic whose overflow behaviour matters (wrapping
    \<open>+\<close> of the release profile, \<open>saturating_add\<close>, \<open>saturating_sub\<close>);
  \<^item> the two clocks: an \<^verbatim>\<open>Instant\<close> and a \<^verbatim>\<open>Duration\<close> are nanosecond counts, and adding a
    duration to an instant fails where the 64-bit second counter of the platform overflows (the
    code then panics);
  \<^item> \<^verbatim>\<open>str\<close> operations on byte strings: \<^verbatim>\<open>to_lowercase\<close>, \<^verbatim>\<open>find\<close>, \<^verbatim>\<open>contains\<close>, \<^verbatim>\<open>split\<close>,
    \<^verbatim>\<open>splitn\<close>, \<^verbatim>\<open>split_once\<close>, \<^verbatim>\<open>strip_prefix\<close>, \<^verbatim>\<open>trim\<close>, \<^verbatim>\<open>parse\<close>, \<^verbatim>\<open>from_str_radix\<close>;
  \<^item> the interface of enums with a string form (\<open>wire_enum\<close>, \<open>canonical_enum\<close>).

  Strings are byte strings; case folding and whitespace are those of ASCII, which is what header
  names, error codes and route tokens are made of.
\<close>


subsection \<open>Machine integers\<close>

type_synonym u8 = "8 word"
type_synonym u16 = "16 word"
type_synonym u32 = "32 word"
type_synonym u64 = "64 word"

definition saturating_sub :: "'a::len word \<Rightarrow> 'a word \<Rightarrow> 'a word" where
  "saturating_sub a b = (if a < b then 0 else a - b)"

definition saturating_add :: "'a::len word \<Rightarrow> 'a word \<Rightarrow> 'a word" where
  "saturating_add a b = (if a > - 1 - b then - 1 else a + b)"

lemma unat_saturating_sub [simp]: "unat (saturating_sub a b) = unat a - unat b"
  by (auto simp: saturating_sub_def unat_sub word_less_nat_alt word_le_nat_alt not_less)

lemma unat_max_word: "unat (- 1 :: 'a::len word) = 2 ^ LENGTH('a) - 1"
  by (simp add: unsigned_minus_1_eq_mask mask_eq_exp_minus_1)

lemma saturating_add_exact:
  fixes a b :: "'a::len word"
  assumes "unat a + unat b < 2 ^ LENGTH('a)"
  shows "saturating_add a b = a + b" and "unat (saturating_add a b) = unat a + unat b"
proof -
  have le: "b \<le> - 1" by simp
  have "unat (- 1 - b) = 2 ^ LENGTH('a) - 1 - unat b"
    by (simp add: unat_sub [OF le] unat_max_word)
  then have "\<not> a > - 1 - b"
    using assms by (simp add: word_less_nat_alt)
  then show eq: "saturating_add a b = a + b"
    by (simp add: saturating_add_def)
  show "unat (saturating_add a b) = unat a + unat b"
    using assms by (simp add: eq unat_word_ariths)
qed

lemma unat_plus_exact:
  fixes a b :: "'a::len word"
  assumes "unat a + unat b < 2 ^ LENGTH('a)"
  shows "unat (a + b) = unat a + unat b"
  using assms by (simp add: unat_word_ariths)

subsection \<open>Panics, instants and durations\<close>

text \<open>
  The release profile of the workspace aborts the process on a panic
  (\<^verbatim>\<open>panic = "abort"\<close>), so a panic is an outcome of its own.
\<close>

datatype panic = Overflow_Adding_Duration | Overflow_Scaling_Duration
  | Cannot_Sample_Empty_Range | Assertion_Failed | Cannot_Access_Key
  | Index_Out_Of_Bounds | Capacity_Overflow

type_synonym 'a rust = "panic + 'a"

fun bind_rust :: "('e + 'a) \<Rightarrow> ('a \<Rightarrow> 'e + 'b) \<Rightarrow> 'e + 'b" where
  "bind_rust (Inl e) f = Inl e"
| "bind_rust (Inr x) f = f x"

lemma bind_rust_eq_Inr [simp]:
  "bind_rust m f = Inr y \<longleftrightarrow> (\<exists>x. m = Inr x \<and> f x = Inr y)"
  by (cases m) auto

lemma bind_rust_Inr_right [simp]: "bind_rust m Inr = m"
  by (cases m) auto

type_synonym instant = nat
type_synonym duration = nat

definition nanos_per_sec :: nat where
  "nanos_per_sec = 1000000000"

definition nanos_per_milli :: nat where
  "nanos_per_milli = 1000000"

definition from_secs :: "nat \<Rightarrow> duration" where
  "from_secs s = s * nanos_per_sec"

definition from_millis :: "nat \<Rightarrow> duration" where
  "from_millis ms = ms * nanos_per_milli"

definition as_millis :: "duration \<Rightarrow> nat" where
  "as_millis d = d div nanos_per_milli"

definition as_secs :: "duration \<Rightarrow> nat" where
  "as_secs d = d div nanos_per_sec"

text \<open>
  \<^verbatim>\<open>Instant + Duration\<close>: the second counter is a signed 64-bit integer, and overflowing it
  panics.  \<^verbatim>\<open>Instant::duration_since\<close> saturates at zero, as subtraction on \<^typ>\<open>nat\<close> does.
\<close>

definition instant_add :: "instant \<Rightarrow> duration \<Rightarrow> instant rust" where
  "instant_add t d =
     (if (t + d) div nanos_per_sec < 2 ^ 63 then Inr (t + d) else Inl Overflow_Adding_Duration)"

definition duration_since :: "instant \<Rightarrow> instant \<Rightarrow> duration" where
  "duration_since now t = now - t"

lemma instant_add_Inr: "instant_add t d = Inr u \<Longrightarrow> u = t + d"
  by (auto simp: instant_add_def split: if_splits)

lemma instant_add_fits:
  "t < 2 ^ 62 * nanos_per_sec \<Longrightarrow> d \<le> 2 ^ 62 * nanos_per_sec \<Longrightarrow> instant_add t d = Inr (t + d)"
  by (simp add: instant_add_def nanos_per_sec_def div_less_iff_less_mult less_mult_imp_div_less)

lemma as_millis_from_secs [simp]: "as_millis (from_secs s) = s * 1000"
  by (simp add: as_millis_def from_secs_def nanos_per_milli_def nanos_per_sec_def)

lemma as_millis_from_millis [simp]: "as_millis (from_millis ms) = ms"
  by (simp add: as_millis_def from_millis_def nanos_per_milli_def)

subsection \<open>Options and stable sorting\<close>

definition unwrap_or :: "'a option \<Rightarrow> 'a \<Rightarrow> 'a" where
  "unwrap_or x d = (case x of Some v \<Rightarrow> v | None \<Rightarrow> d)"

lemma unwrap_or_simps [simp]: "unwrap_or (Some v) d = v" "unwrap_or None d = d"
  by (simp_all add: unwrap_or_def)

text \<open>A stable sort by a key with two values is a partition.\<close>

lemma insort_key_after:
  "\<forall>x\<in>set xs. P x \<Longrightarrow> \<forall>y\<in>set ys. \<not> P y \<Longrightarrow> \<not> P a \<Longrightarrow>
   insort_key (\<lambda>x. if P x then 0 else 1 :: nat) a (xs @ ys) = xs @ a # ys"
proof (induction xs)
  case Nil
  then show ?case by (cases ys) auto
qed simp

lemma sort_key_two_classes:
  "sort_key (\<lambda>x. if P x then 0 else 1 :: nat) xs = filter P xs @ filter (\<lambda>x. \<not> P x) xs"
proof (induction xs)
  case (Cons a xs)
  show ?case
  proof (cases "P a")
    case True
    then show ?thesis using Cons.IH by (simp add: insort_is_Cons)
  next
    case False
    then show ?thesis using Cons.IH by (simp add: insort_key_after)
  qed
qed simp

subsection \<open>Byte strings\<close>

definition byte :: "char \<Rightarrow> nat" where
  "byte c = of_char c"

definition is_ascii_upper :: "char \<Rightarrow> bool" where
  "is_ascii_upper c \<longleftrightarrow> 65 \<le> byte c \<and> byte c \<le> 90"

definition lower_char :: "char \<Rightarrow> char" where
  "lower_char c = (if is_ascii_upper c then char_of (byte c + 32) else c)"

definition to_lowercase :: "string \<Rightarrow> string" where
  "to_lowercase s = map lower_char s"

definition is_ascii_digit :: "char \<Rightarrow> bool" where
  "is_ascii_digit c \<longleftrightarrow> 48 \<le> byte c \<and> byte c \<le> 57"

text \<open>\<^verbatim>\<open>char::is_whitespace\<close>, which \<^verbatim>\<open>trim\<close> uses, has the vertical tab; \<^verbatim>\<open>u8::is_ascii_whitespace\<close> has not.\<close>

definition is_whitespace :: "char \<Rightarrow> bool" where
  "is_whitespace c \<longleftrightarrow> byte c = 32 \<or> (9 \<le> byte c \<and> byte c \<le> 13)"

definition is_ascii_whitespace :: "char \<Rightarrow> bool" where
  "is_ascii_whitespace c \<longleftrightarrow> is_whitespace c \<and> byte c \<noteq> 11"

lemma byte_less: "byte c < 256"
  by (simp add: byte_def)

lemma byte_char_of [simp]: "n < 256 \<Longrightarrow> byte (char_of n) = n"
  by (simp add: byte_def)

lemma byte_inj: "byte c = byte d \<Longrightarrow> c = d"
  by (simp add: byte_def)

lemma lower_char_idem [simp]: "lower_char (lower_char c) = lower_char c"
  by (auto simp: lower_char_def is_ascii_upper_def)

lemma to_lowercase_idem [simp]: "to_lowercase (to_lowercase s) = to_lowercase s"
  by (simp add: to_lowercase_def)

lemma length_to_lowercase [simp]: "length (to_lowercase s) = length s"
  by (simp add: to_lowercase_def)

lemma to_lowercase_append [simp]: "to_lowercase (s @ t) = to_lowercase s @ to_lowercase t"
  by (simp add: to_lowercase_def)

lemma to_lowercase_Nil [simp]: "to_lowercase s = [] \<longleftrightarrow> s = []"
  by (simp add: to_lowercase_def)

text \<open>\<^verbatim>\<open>str::find\<close>: the byte index of the first occurrence.\<close>

fun str_find :: "string \<Rightarrow> string \<Rightarrow> nat option" where
  "str_find needle hay =
     (if prefix needle hay then Some 0
      else (case hay of [] \<Rightarrow> None | _ # t \<Rightarrow> map_option Suc (str_find needle t)))"

declare str_find.simps [simp del]

definition contains :: "string \<Rightarrow> string \<Rightarrow> bool" where
  "contains hay needle \<longleftrightarrow> str_find needle hay \<noteq> None"

lemma str_find_Some:
  "str_find needle hay = Some i \<Longrightarrow>
     i + length needle \<le> length hay \<and> take (length needle) (drop i hay) = needle"
proof (induction hay arbitrary: i)
  case Nil
  then show ?case by (auto simp: str_find.simps split: if_splits)
next
  case (Cons c t)
  show ?case
  proof (cases "prefix needle (c # t)")
    case True
    with Cons.prems have "i = 0" by (simp add: str_find.simps)
    with True show ?thesis
      by (metis add_0 append_eq_conv_conj drop0 prefix_def prefix_length_le)
  next
    case False
    with Cons.prems obtain j where "str_find needle t = Some j" and "i = Suc j"
      by (auto simp: str_find.simps [of needle "c # t"])
    with Cons.IH show ?thesis by simp
  qed
qed

lemma str_find_None: "str_find needle hay = None \<longleftrightarrow> (\<nexists>a b. hay = a @ needle @ b)"
proof (induction hay)
  case Nil
  show ?case by (auto simp: str_find.simps)
next
  case (Cons c t)
  show ?case
  proof (cases "prefix needle (c # t)")
    case True
    then show ?thesis
      by (auto simp: str_find.simps prefix_def intro: exI [of _ "[]"])
  next
    case False
    then have "(\<exists>a b. c # t = a @ needle @ b) \<longleftrightarrow> (\<exists>a b. t = a @ needle @ b)"
      by (metis append_Cons append_Nil append_eq_Cons_conv prefixI)
    with False Cons.IH show ?thesis by (simp add: str_find.simps [of needle "c # t"])
  qed
qed

lemma str_find_drop:
  assumes "str_find needle hay = Some i"
  shows "hay = take i hay @ needle @ drop (i + length needle) hay"
proof -
  from str_find_Some [OF assms]
  have "drop i hay = needle @ drop (length needle) (drop i hay)"
    by (metis append_take_drop_id)
  then show ?thesis by (metis add.commute append_take_drop_id drop_drop)
qed

lemma contains_iff: "contains hay needle \<longleftrightarrow> (\<exists>a b. hay = a @ needle @ b)"
  using str_find_None [of needle hay] by (auto simp: contains_def)

text \<open>\<^verbatim>\<open>str::split\<close> on one character, \<^verbatim>\<open>splitn\<close>, \<^verbatim>\<open>split_once\<close>, \<^verbatim>\<open>strip_prefix\<close>, \<^verbatim>\<open>trim\<close>.\<close>

fun split_on :: "char \<Rightarrow> string \<Rightarrow> string list" where
  "split_on sep [] = [[]]"
| "split_on sep (c # cs) =
     (if c = sep then [] # split_on sep cs
      else (case split_on sep cs of [] \<Rightarrow> [[c]] | p # ps \<Rightarrow> (c # p) # ps))"

fun split_once :: "char \<Rightarrow> string \<Rightarrow> (string \<times> string) option" where
  "split_once sep [] = None"
| "split_once sep (c # cs) =
     (if c = sep then Some ([], cs)
      else map_option (\<lambda>(a, b). (c # a, b)) (split_once sep cs))"

fun splitn :: "nat \<Rightarrow> char \<Rightarrow> string \<Rightarrow> string list" where
  "splitn 0 sep s = []"
| "splitn (Suc 0) sep s = [s]"
| "splitn (Suc (Suc n)) sep s =
     (case split_once sep s of None \<Rightarrow> [s] | Some (a, b) \<Rightarrow> a # splitn (Suc n) sep b)"

definition strip_prefix :: "string \<Rightarrow> string \<Rightarrow> string option" where
  "strip_prefix p s = (if prefix p s then Some (drop (length p) s) else None)"

definition trim :: "string \<Rightarrow> string" where
  "trim s = rev (dropWhile is_whitespace (rev (dropWhile is_whitespace s)))"

definition replace_char :: "char \<Rightarrow> string \<Rightarrow> string \<Rightarrow> string" where
  "replace_char c r s = concat (map (\<lambda>d. if d = c then r else [d]) s)"

lemma split_on_neq_Nil [simp]: "split_on sep s \<noteq> []"
  by (induction s) (auto split: list.splits)

lemma split_once_append [simp]: "sep \<notin> set a \<Longrightarrow> split_once sep (a @ sep # b) = Some (a, b)"
  by (induction a) auto

lemma split_once_None [simp]: "split_once sep s = None \<longleftrightarrow> sep \<notin> set s"
  by (induction s) auto

lemma split_once_Some:
  assumes "split_once sep s = Some (a, b)"
  shows "s = a @ sep # b \<and> sep \<notin> set a"
  using assms by (induction s arbitrary: a) (auto split: if_splits)

subsection \<open>Numbers in strings\<close>

definition hex_char :: "nat \<Rightarrow> char" where
  "hex_char n = char_of (if n < 10 then n + 48 else n + 87)"

definition hex_val :: "char \<Rightarrow> nat option" where
  "hex_val c =
     (if 48 \<le> byte c \<and> byte c \<le> 57 then Some (byte c - 48)
      else if 97 \<le> byte c \<and> byte c \<le> 102 then Some (byte c - 87)
      else if 65 \<le> byte c \<and> byte c \<le> 70 then Some (byte c - 55)
      else None)"

text \<open>
  \<^verbatim>\<open>from_str_radix\<close> for an unsigned type with the given exclusive bound: an empty string, a lone
  sign and a digit outside the radix are errors, one leading \<open>+\<close> is accepted, a value that does
  not fit is an error.
\<close>

fun digits_val :: "nat \<Rightarrow> nat \<Rightarrow> string \<Rightarrow> nat option" where
  "digits_val radix acc [] = Some acc"
| "digits_val radix acc (c # cs) =
     (case hex_val c of None \<Rightarrow> None
      | Some d \<Rightarrow> if d < radix then digits_val radix (acc * radix + d) cs else None)"

definition from_str_radix :: "nat \<Rightarrow> nat \<Rightarrow> string \<Rightarrow> nat option" where
  "from_str_radix bound radix s =
     (let ds = (case s of c # cs \<Rightarrow> if c = CHR ''+'' then cs else s | [] \<Rightarrow> []) in
      if ds = [] then None
      else (case digits_val radix 0 ds of None \<Rightarrow> None
            | Some n \<Rightarrow> if n < bound then Some n else None))"

definition parse_u64 :: "string \<Rightarrow> nat option" where
  "parse_u64 = from_str_radix (2 ^ 64) 10"

definition parse_u32 :: "string \<Rightarrow> nat option" where
  "parse_u32 = from_str_radix (2 ^ 32) 10"

text \<open>\<^verbatim>\<open>to_string\<close> of an unsigned integer.\<close>

fun nat_str :: "nat \<Rightarrow> string" where
  "nat_str n = (if n < 10 then [hex_char n] else nat_str (n div 10) @ [hex_char (n mod 10)])"

declare nat_str.simps [simp del]

lemma byte_hex_char: "n < 16 \<Longrightarrow> byte (hex_char n) = (if n < 10 then n + 48 else n + 87)"
  by (simp add: hex_char_def)

lemma hex_val_hex_char [simp]: "n < 16 \<Longrightarrow> hex_val (hex_char n) = Some n"
  by (simp add: hex_val_def byte_hex_char)

lemma digits_val_append:
  "digits_val r acc (s @ t) = (case digits_val r acc s of None \<Rightarrow> None | Some a \<Rightarrow> digits_val r a t)"
  by (induction s arbitrary: acc) (auto split: option.splits)

lemma digits_val_nat_str: "digits_val 10 0 (nat_str n) = Some n"
proof (induction n rule: nat_str.induct)
  case (1 n)
  then show ?case by (subst nat_str.simps) (auto simp: digits_val_append)
qed

lemma hex_char_neq_plus [simp]: "n < 16 \<Longrightarrow> hex_char n \<noteq> CHR ''+''"
proof
  assume "n < 16" and "hex_char n = CHR ''+''"
  then have "byte (hex_char n) = byte (CHR ''+'')" by simp
  moreover have "byte (CHR ''+'') = 43" by (simp add: byte_def)
  ultimately show False using \<open>n < 16\<close> by (simp add: byte_hex_char split: if_splits)
qed

lemma nat_str_neq_Nil [simp]: "nat_str n \<noteq> []"
  by (subst nat_str.simps) simp

lemma hd_nat_str: "hd (nat_str n) \<noteq> CHR ''+''"
proof (induction n rule: nat_str.induct)
  case (1 n)
  then show ?case by (subst nat_str.simps) (auto simp: hd_append)
qed

lemma parse_nat_str: "n < bound \<Longrightarrow> from_str_radix bound 10 (nat_str n) = Some n"
proof -
  assume n: "n < bound"
  obtain c cs where eq: "nat_str n = c # cs" by (cases "nat_str n") auto
  with hd_nat_str [of n] have "c \<noteq> CHR ''+''" by simp
  then show ?thesis
    using digits_val_nat_str [of n] n unfolding eq from_str_radix_def Let_def by simp
qed

subsection \<open>Enums with a string form\<close>

text \<open>
  Several enums of the gateway have an \<^verbatim>\<open>as_str\<close> that is written to the database or the wire and a
  \<^verbatim>\<open>parse\<close> that reads it back.  \<open>wire_enum\<close> is the contract of every such pair, \<open>canonical_enum\<close>
  that of a pair without legacy spellings.
\<close>

locale wire_enum =
  fixes as_str :: "'a \<Rightarrow> string"
    and parse :: "string \<Rightarrow> 'a option"
  assumes parse_as_str [simp]: "parse (as_str x) = Some x"
begin

lemma as_str_eq_iff: "as_str x = as_str y \<longleftrightarrow> x = y"
  by (metis option.inject parse_as_str)

lemma reparse: "parse s = Some x \<Longrightarrow> parse (as_str x) = parse s"
  by simp

end

locale canonical_enum = wire_enum +
  assumes parse_canonical: "parse s = Some x \<Longrightarrow> as_str x = s"
begin

lemma parse_iff: "parse s = Some x \<longleftrightarrow> s = as_str x"
  using parse_canonical by auto

end

end
