(* ===== verification/Json.thy ===== *)
theory Json
  imports Prelude "HOL-Library.List_Lexorder" "HOL-Library.Char_ord"
begin

section \<open>JSON values\<close>

text \<open>
  The model of \<^verbatim>\<open>serde_json::Value\<close>: an object is the list of its entries in the iteration order
  of the map, which is the order of the keys (the map is a B-tree map).  \<open>obj_insert\<close> is the map's
  insertion, \<open>get\<close>, \<open>as_str\<close>, \<open>as_array\<close> and \<open>as_object\<close> the accessors the sources call, and
  \<open>wf_json\<close> says that every object of a value has strictly increasing keys.
\<close>

datatype json_number = PosInt nat | NegInt int | Float rat

datatype json = JNull | JBool bool | JNumber json_number | JString string
  | JArray "json list" | JObject "(string \<times> json) list"

type_synonym json_object = "(string \<times> json) list"

fun obj_insert :: "string \<Rightarrow> json \<Rightarrow> json_object \<Rightarrow> json_object" where
  "obj_insert k v [] = [(k, v)]"
| "obj_insert k v ((k', v') # kvs) =
     (if k = k' then (k, v) # kvs
      else if k < k' then (k, v) # (k', v') # kvs
      else (k', v') # obj_insert k v kvs)"

definition object_of :: "(string \<times> json) list \<Rightarrow> json" where
  "object_of kvs = JObject (fold (\<lambda>(k, v). obj_insert k v) kvs [])"

fun as_object :: "json \<Rightarrow> json_object option" where
  "as_object (JObject kvs) = Some kvs"
| "as_object _ = None"

fun as_array :: "json \<Rightarrow> json list option" where
  "as_array (JArray xs) = Some xs"
| "as_array _ = None"

fun as_str :: "json \<Rightarrow> string option" where
  "as_str (JString s) = Some s"
| "as_str _ = None"

fun is_boolean :: "json \<Rightarrow> bool" where
  "is_boolean (JBool _) = True"
| "is_boolean _ = False"

definition get :: "json \<Rightarrow> string \<Rightarrow> json option" where
  "get v k = (case as_object v of None \<Rightarrow> None | Some kvs \<Rightarrow> map_of kvs k)"

text \<open>
  \<^verbatim>\<open>value[key]\<close> and \<^verbatim>\<open>value[i]\<close>, which are null where there is nothing; the typed accessors; and
  \<^verbatim>\<open>value[key] = v\<close> on an object or null (the sources assign to nothing else, apart from one
  place that has a definition of its own).
\<close>

definition idx :: "json \<Rightarrow> string \<Rightarrow> json" where
  "idx v k = unwrap_or (get v k) JNull"

fun idx_at :: "json \<Rightarrow> nat \<Rightarrow> json" where
  "idx_at (JArray xs) i = (if i < length xs then xs ! i else JNull)"
| "idx_at _ i = JNull"

fun as_bool :: "json \<Rightarrow> bool option" where
  "as_bool (JBool b) = Some b"
| "as_bool _ = None"

fun as_u64 :: "json \<Rightarrow> nat option" where
  "as_u64 (JNumber (PosInt n)) = Some n"
| "as_u64 _ = None"

fun as_i64 :: "json \<Rightarrow> int option" where
  "as_i64 (JNumber (PosInt n)) = (if n < 2 ^ 63 then Some (int n) else None)"
| "as_i64 (JNumber (NegInt i)) = Some i"
| "as_i64 _ = None"

fun as_f64 :: "json \<Rightarrow> rat option" where
  "as_f64 (JNumber (PosInt n)) = Some (of_nat n)"
| "as_f64 (JNumber (NegInt i)) = Some (of_int i)"
| "as_f64 (JNumber (Float r)) = Some r"
| "as_f64 _ = None"

abbreviation is_object :: "json \<Rightarrow> bool" where
  "is_object v \<equiv> as_object v \<noteq> None"

abbreviation is_u64 :: "json \<Rightarrow> bool" where
  "is_u64 v \<equiv> as_u64 v \<noteq> None"

fun put :: "string \<Rightarrow> json \<Rightarrow> json \<Rightarrow> json" where
  "put k v (JObject kvs) = JObject (obj_insert k v kvs)"
| "put k v _ = JObject [(k, v)]"

definition put_opt :: "string \<Rightarrow> json option \<Rightarrow> json \<Rightarrow> json" where
  "put_opt k x v = (case x of None \<Rightarrow> v | Some y \<Rightarrow> put k y v)"

abbreviation jnat :: "nat \<Rightarrow> json" where
  "jnat n \<equiv> JNumber (PosInt n)"

definition jopt :: "('a \<Rightarrow> json) \<Rightarrow> 'a option \<Rightarrow> json" where
  "jopt f x = (case x of None \<Rightarrow> JNull | Some v \<Rightarrow> f v)"

text \<open>A change of one field in place, through \<^verbatim>\<open>get_mut\<close>.\<close>

fun adjust :: "string \<Rightarrow> (json \<Rightarrow> json) \<Rightarrow> json \<Rightarrow> json" where
  "adjust k f (JObject kvs) = JObject (map (\<lambda>(k', v). (k', if k' = k then f v else v)) kvs)"
| "adjust k f v = v"

abbreviation keys_of :: "json_object \<Rightarrow> string list" where
  "keys_of kvs \<equiv> map fst kvs"

fun wf_json :: "json \<Rightarrow> bool" where
  "wf_json (JArray xs) = list_all wf_json xs"
| "wf_json (JObject kvs) = (sorted_wrt (<) (keys_of kvs) \<and> list_all (\<lambda>kv. wf_json (snd kv)) kvs)"
| "wf_json _ = True"

lemma get_JObject [simp]: "get (JObject kvs) k = map_of kvs k"
  by (simp add: get_def)

lemma get_simps [simp]: "get JNull k = None" "get (JBool b) k = None" "get (JNumber n) k = None"
  "get (JString s) k = None" "get (JArray xs) k = None"
  by (simp_all add: get_def)

lemma map_of_obj_insert: "map_of (obj_insert k v kvs) = (map_of kvs)(k \<mapsto> v)"
  by (induction kvs rule: obj_insert.induct) (auto simp: fun_eq_iff)

lemma keys_obj_insert: "set (keys_of (obj_insert k v kvs)) = insert k (set (keys_of kvs))"
  by (induction kvs rule: obj_insert.induct) auto

lemma sorted_obj_insert: "sorted_wrt (<) (keys_of kvs) \<Longrightarrow>
    sorted_wrt (<) (keys_of (obj_insert k v kvs))"
proof (induction k v kvs rule: obj_insert.induct)
  case (2 k v k' v' kvs)
  then show ?case using keys_obj_insert [of k v kvs] by auto
qed simp

lemma snd_obj_insert: "snd ` set (obj_insert k v kvs) \<subseteq> insert v (snd ` set kvs)"
  by (induction kvs rule: obj_insert.induct) auto

lemma wf_obj_insert:
  assumes "wf_json v" and "wf_json (JObject kvs)"
  shows "wf_json (JObject (obj_insert k v kvs))"
proof -
  have "wf_json w" if "w \<in> snd ` set (obj_insert k v kvs)" for w
  proof -
    from that snd_obj_insert [of k v kvs] have "w = v \<or> w \<in> snd ` set kvs" by blast
    with assms show ?thesis by (auto simp: list_all_iff)
  qed
  then show ?thesis using assms by (simp add: sorted_obj_insert list_all_iff)
qed

lemma size_map_of: "map_of kvs k = Some v \<Longrightarrow> size v < size (JObject kvs)"
  by (induction kvs) (auto split: if_splits)

lemma size_get [termination_simp]: "get j k = Some v \<Longrightarrow> size v < size j"
  by (cases j) (auto simp: get_def dest: size_map_of)

lemma size_in_JObject [termination_simp]: "(k, v) \<in> set kvs \<Longrightarrow> size v < size (JObject kvs)"
  by (induction kvs) auto

lemma size_in_JArray [termination_simp]: "v \<in> set xs \<Longrightarrow> size v < size (JArray xs)"
  by (induction xs) auto

lemma get_object_of: "get (object_of kvs) k = map_of (rev kvs) k"
proof -
  have "map_of (fold (\<lambda>(k, v). obj_insert k v) kvs acc) = map_of acc ++ map_of (rev kvs)" for acc
    by (induction kvs arbitrary: acc)
      (auto simp: map_of_obj_insert map_add_def fun_eq_iff split: option.split)
  from this [of "[]"] show ?thesis by (simp add: object_of_def)
qed

lemma wf_object_of: "list_all (\<lambda>kv. wf_json (snd kv)) kvs \<Longrightarrow> wf_json (object_of kvs)"
proof -
  have "wf_json (JObject acc) \<Longrightarrow> list_all (\<lambda>kv. wf_json (snd kv)) kvs \<Longrightarrow>
      wf_json (JObject (fold (\<lambda>(k, v). obj_insert k v) kvs acc))" for acc
  proof (induction kvs arbitrary: acc)
    case (Cons kv kvs)
    obtain k v where kv: "kv = (k, v)" by (cases kv)
    from Cons.prems have "wf_json (JObject (obj_insert k v acc))" "list_all (\<lambda>kv. wf_json (snd kv)) kvs"
      by (simp_all add: kv wf_obj_insert del: wf_json.simps)
    from Cons.IH [OF this] show ?case by (simp add: kv)
  qed simp
  from this [of "[]"] show "list_all (\<lambda>kv. wf_json (snd kv)) kvs \<Longrightarrow> wf_json (object_of kvs)"
    by (simp add: object_of_def)
qed

lemma idx_simps [simp]: "idx JNull k = JNull" "idx (JBool b) k = JNull" "idx (JNumber n) k = JNull"
  "idx (JString s) k = JNull" "idx (JArray xs) k = JNull"
  by (simp_all add: idx_def)

lemma idx_object_of [simp]: "idx (object_of kvs) k = unwrap_or (map_of (rev kvs) k) JNull"
  by (simp add: idx_def get_object_of)

lemma get_put [simp]: "get (put k v j) k' = (if k' = k then Some v else get j k')"
  by (cases j) (simp_all add: map_of_obj_insert)

lemma idx_put [simp]: "idx (put k v j) k' = (if k' = k then v else idx j k')"
  by (simp add: idx_def)

lemma get_put_opt [simp]: "get (put_opt k x j) k' = (if k' = k \<and> x \<noteq> None then x else get j k')"
  by (cases x) (simp_all add: put_opt_def)

lemma idx_put_opt [simp]: "idx (put_opt k x j) k' = (if k' = k \<and> x \<noteq> None then the x else idx j k')"
  by (cases x) (simp_all add: put_opt_def)

lemma wf_put [simp]: "wf_json v \<Longrightarrow> wf_json j \<Longrightarrow> wf_json (put k v j)"
  by (cases j) (simp_all add: wf_obj_insert del: wf_json.simps(2), simp_all)

lemma as_object_object_of [simp]: "as_object (object_of kvs) \<noteq> None"
  by (simp add: object_of_def)

lemma as_object_put [simp]: "as_object (put k v j) \<noteq> None"
  by (cases j) simp_all

lemma not_object [simp]: "as_str (object_of kvs) = None" "as_array (object_of kvs) = None"
  "as_str (put k v j) = None" "as_array (put k v j) = None"
  by (simp_all add: object_of_def, (cases j; simp)+)

lemma jopt_simps [simp]: "jopt f None = JNull" "jopt f (Some x) = f x"
  by (simp_all add: jopt_def)

lemma get_adjust: "get (adjust k f v) k' = map_option (if k' = k then f else (\<lambda>x. x)) (get v k')"
proof -
  have "map_of (map (\<lambda>(k'', x). (k'', if k'' = k then f x else x)) kvs) k' =
      map_option (if k' = k then f else (\<lambda>x. x)) (map_of kvs k')" for kvs
    by (induction kvs) auto
  then show ?thesis by (cases v) (auto simp: get_def)
qed

end
