(* ===== verification/Protocol.thy ===== *)
theory Protocol
  imports Json
begin

section \<open>Protocol identities, capabilities and the core error type\<close>

text \<open>
  The model of \<^verbatim>\<open>crates/core/src/protocol/mod.rs\<close>: the protocol suites with their labels and
  default endpoints, the three-segment endpoint identity, the capability record that drives
  routing and lossy-conversion checks, and the error type with its display form.  The capability
  tables of the six codecs (\<^verbatim>\<open>crates/protocols/src\<close>) follow at the end.  The codec traits
  themselves carry no code and are not modelled.
\<close>

subsection \<open>Suites and endpoints\<close>

datatype ProtocolSuite = OpenAiCompatible | OpenAiResponses | AnthropicMessages | GoogleGemini

fun suite_label :: "ProtocolSuite \<Rightarrow> string" where
  "suite_label OpenAiCompatible = ''openai-compatible''"
| "suite_label OpenAiResponses = ''openai-responses''"
| "suite_label AnthropicMessages = ''anthropic-messages''"
| "suite_label GoogleGemini = ''google-gemini''"

fun suite_debug :: "ProtocolSuite \<Rightarrow> string" where
  "suite_debug OpenAiCompatible = ''OpenAiCompatible''"
| "suite_debug OpenAiResponses = ''OpenAiResponses''"
| "suite_debug AnthropicMessages = ''AnthropicMessages''"
| "suite_debug GoogleGemini = ''GoogleGemini''"

fun default_endpoint_id :: "ProtocolSuite \<Rightarrow> string \<times> string" where
  "default_endpoint_id OpenAiCompatible = (''chat-completions'', ''v1'')"
| "default_endpoint_id OpenAiResponses = (''responses'', ''v1'')"
| "default_endpoint_id AnthropicMessages = (''messages'', ''2023-06-01'')"
| "default_endpoint_id GoogleGemini = (''generateContent'', ''v1beta'')"

record ProtocolEndpoint =
  pe_suite :: ProtocolSuite
  pe_name :: string
  pe_version :: string

definition ProtocolEndpoint_new :: "ProtocolSuite \<Rightarrow> string \<Rightarrow> string \<Rightarrow> ProtocolEndpoint" where
  "ProtocolEndpoint_new s n v = \<lparr>pe_suite = s, pe_name = n, pe_version = v\<rparr>"

definition default_endpoint :: "ProtocolSuite \<Rightarrow> ProtocolEndpoint" where
  "default_endpoint s = (let (n, v) = default_endpoint_id s in ProtocolEndpoint_new s n v)"

fun upstream_path_suffix :: "ProtocolSuite \<Rightarrow> string option" where
  "upstream_path_suffix OpenAiCompatible = Some ''/chat/completions''"
| "upstream_path_suffix OpenAiResponses = Some ''/responses''"
| "upstream_path_suffix AnthropicMessages = Some ''/messages''"
| "upstream_path_suffix GoogleGemini = None"

definition canonical :: "ProtocolEndpoint \<Rightarrow> string" where
  "canonical e =
     replace_char (CHR ''_'') ''-'' (to_lowercase (suite_debug (pe_suite e) @ ''/'' @ pe_name e))"

definition full_id :: "ProtocolEndpoint \<Rightarrow> string" where
  "full_id e = canonical e @ ''/'' @ pe_version e"

definition protocol_log_label :: "ProtocolEndpoint \<Rightarrow> string" where
  "protocol_log_label p =
     (let n = (if pe_suite p = OpenAiResponses then fst (default_endpoint_id (pe_suite p))
               else pe_name p)
      in suite_label (pe_suite p) @ ''/'' @ n @ ''/'' @ pe_version p)"

lemma suite_label_inj: "suite_label s = suite_label t \<longleftrightarrow> s = t"
  by (cases s; cases t; simp)

lemma default_endpoint_suite [simp]: "pe_suite (default_endpoint s) = s"
  by (cases s) (simp_all add: default_endpoint_def ProtocolEndpoint_new_def)

subsection \<open>Capabilities\<close>

record StreamCaps =
  server_sent_events :: bool
  usage_in_stream :: bool
  requires_stream_flag :: bool

datatype UnknownFieldPolicy = Supported | Drop

datatype PassThroughPolicy = Passthrough | Convert

record EndpointCapabilities =
  streaming :: bool
  tools_cap :: bool
  reasoning :: bool
  embeddings :: bool
  force_upstream_stream :: bool
  override_model_in_body :: bool
  ingress_routes :: "(string \<times> string) list"
  multimodal :: bool
  structured_output :: bool
  function_calling :: bool
  parallel_tool_calls :: bool
  hosted_tools :: bool
  programmatic_tool_calling :: bool
  extended_reasoning :: bool
  deterministic_seed :: bool
  tool_choice_required :: bool
  stream_caps :: StreamCaps
  unknown_field_policy :: UnknownFieldPolicy
  lossy_default_reject :: bool

definition EMPTY :: EndpointCapabilities where
  "EMPTY = \<lparr>streaming = False, tools_cap = False, reasoning = False, embeddings = False,
     force_upstream_stream = False, override_model_in_body = False, ingress_routes = [],
     multimodal = False, structured_output = False, function_calling = False,
     parallel_tool_calls = False, hosted_tools = False, programmatic_tool_calling = False,
     extended_reasoning = False, deterministic_seed = False, tool_choice_required = False,
     stream_caps = \<lparr>server_sent_events = False, usage_in_stream = False,
       requires_stream_flag = False\<rparr>,
     unknown_field_policy = Drop, lossy_default_reject = True\<rparr>"

definition CHAT_STANDARD :: EndpointCapabilities where
  "CHAT_STANDARD = \<lparr>streaming = True, tools_cap = True, reasoning = True, embeddings = False,
     force_upstream_stream = False, override_model_in_body = False,
     ingress_routes = [(''POST'', ''/v1/chat/completions'')],
     multimodal = True, structured_output = True, function_calling = True,
     parallel_tool_calls = True, hosted_tools = False, programmatic_tool_calling = False,
     extended_reasoning = False, deterministic_seed = False, tool_choice_required = True,
     stream_caps = \<lparr>server_sent_events = True, usage_in_stream = True,
       requires_stream_flag = True\<rparr>,
     unknown_field_policy = Drop, lossy_default_reject = True\<rparr>"

text \<open>
  The default \<^verbatim>\<open>pass_through_policy\<close> of the codec trait converts; the chat, messages, responses
  and images codecs override it to forward raw bytes within one suite.
\<close>

definition pass_through_policy_default ::
    "ProtocolEndpoint \<Rightarrow> ProtocolEndpoint \<Rightarrow> PassThroughPolicy" where
  "pass_through_policy_default ingress egress = Convert"

definition pass_through_policy :: "ProtocolEndpoint \<Rightarrow> ProtocolEndpoint \<Rightarrow> PassThroughPolicy" where
  "pass_through_policy ingress egress =
     (if pe_suite ingress = pe_suite egress then Passthrough else Convert)"

subsection \<open>Capability tables of the codecs\<close>

definition sse_caps :: StreamCaps where
  "sse_caps = \<lparr>server_sent_events = True, usage_in_stream = True, requires_stream_flag = True\<rparr>"

definition chat_completions_caps :: EndpointCapabilities where
  "chat_completions_caps = \<lparr>streaming = True, tools_cap = True, reasoning = True,
     embeddings = False, force_upstream_stream = False, override_model_in_body = False,
     ingress_routes = [(''POST'', ''/v1/chat/completions'')],
     multimodal = True, structured_output = True, function_calling = True,
     parallel_tool_calls = True, hosted_tools = False, programmatic_tool_calling = False,
     extended_reasoning = False, deterministic_seed = True, tool_choice_required = True,
     stream_caps = sse_caps, unknown_field_policy = Drop, lossy_default_reject = True\<rparr>"

definition messages_caps :: EndpointCapabilities where
  "messages_caps = \<lparr>streaming = True, tools_cap = True, reasoning = True,
     embeddings = False, force_upstream_stream = False, override_model_in_body = False,
     ingress_routes = [(''POST'', ''/v1/messages'')],
     multimodal = True, structured_output = True, function_calling = True,
     parallel_tool_calls = False, hosted_tools = False, programmatic_tool_calling = False,
     extended_reasoning = True, deterministic_seed = False, tool_choice_required = True,
     stream_caps = sse_caps, unknown_field_policy = Drop, lossy_default_reject = True\<rparr>"

definition responses_caps :: EndpointCapabilities where
  "responses_caps = \<lparr>streaming = True, tools_cap = True, reasoning = True,
     embeddings = False, force_upstream_stream = False, override_model_in_body = False,
     ingress_routes = [(''POST'', ''/v1/responses'')],
     multimodal = True, structured_output = True, function_calling = True,
     parallel_tool_calls = True, hosted_tools = True, programmatic_tool_calling = True,
     extended_reasoning = True, deterministic_seed = False, tool_choice_required = True,
     stream_caps = sse_caps, unknown_field_policy = Drop, lossy_default_reject = True\<rparr>"

definition gemini_caps :: EndpointCapabilities where
  "gemini_caps = \<lparr>streaming = True, tools_cap = True, reasoning = True,
     embeddings = False, force_upstream_stream = False, override_model_in_body = False,
     ingress_routes = [(''POST'', ''/v1beta/models/{model}:generateContent'')],
     multimodal = True, structured_output = True, function_calling = True,
     parallel_tool_calls = False, hosted_tools = False, programmatic_tool_calling = False,
     extended_reasoning = True, deterministic_seed = False, tool_choice_required = True,
     stream_caps = \<lparr>server_sent_events = True, usage_in_stream = True,
       requires_stream_flag = False\<rparr>,
     unknown_field_policy = Drop, lossy_default_reject = True\<rparr>"

definition embeddings_caps :: EndpointCapabilities where
  "embeddings_caps = \<lparr>streaming = False, tools_cap = False, reasoning = False,
     embeddings = True, force_upstream_stream = False, override_model_in_body = False,
     ingress_routes = [(''POST'', ''/v1/embeddings'')],
     multimodal = False, structured_output = False, function_calling = False,
     parallel_tool_calls = False, hosted_tools = False, programmatic_tool_calling = False,
     extended_reasoning = False, deterministic_seed = False, tool_choice_required = False,
     stream_caps = \<lparr>server_sent_events = False, usage_in_stream = False,
       requires_stream_flag = False\<rparr>,
     unknown_field_policy = Drop, lossy_default_reject = True\<rparr>"

lemmas codec_caps_defs = chat_completions_caps_def messages_caps_def responses_caps_def
  gemini_caps_def embeddings_caps_def

subsection \<open>The core error type\<close>

datatype Error = Codec string | Pipeline string | Routing string | Provider string
  | Executor string | Auth string | Telemetry string | LossyRejection string | Other string

fun error_display :: "Error \<Rightarrow> string" where
  "error_display (Codec m) = ''protocol codec error: '' @ m"
| "error_display (Pipeline m) = ''pipeline error: '' @ m"
| "error_display (Routing m) = ''routing error: '' @ m"
| "error_display (Provider m) = ''provider error: '' @ m"
| "error_display (Executor m) = ''executor error: '' @ m"
| "error_display (Auth m) = ''auth error: '' @ m"
| "error_display (Telemetry m) = ''telemetry error: '' @ m"
| "error_display (LossyRejection m) = ''lossy conversion rejected: '' @ m"
| "error_display (Other m) = m"

end
