(* ===== verification/Error_Class.thy ===== *)
theory Error_Class
  imports Protocol
begin

section \<open>Request status, error classes and error classification\<close>

text \<open>
  The closed enums of \<^verbatim>\<open>crates/core/src/telemetry/mod.rs\<close> (status, tier and class of a request
  log row) and of \<^verbatim>\<open>crates/core/src/routing/mod.rs\<close> (the class that drives fallback), the two
  classifiers of upstream failures (\<open>classify_error\<close> on the message text, \<open>classify_structured\<close>
  on status and code), and the protocol-native error bodies of
  \<^verbatim>\<open>crates/protocols/src/error_body.rs\<close>.
\<close>

subsection \<open>Request status and tier\<close>

datatype RequestStatus = Success | Failed | Abnormal

fun status_as_str :: "RequestStatus \<Rightarrow> string" where
  "status_as_str Success = ''success''"
| "status_as_str RequestStatus.Failed = ''failed''"
| "status_as_str RequestStatus.Abnormal = ''abnormal''"

definition status_parse_str :: "string \<Rightarrow> RequestStatus option" where
  "status_parse_str s =
     (if s = ''success'' \<or> s = ''ok'' then Some Success
      else if s = ''failed'' then Some RequestStatus.Failed
      else if s = ''abnormal'' then Some RequestStatus.Abnormal
      else if s = ''error'' then Some RequestStatus.Failed
      else None)"

definition status_label :: "RequestStatus \<Rightarrow> string" where
  "status_label s = (case s of Success \<Rightarrow> ''success'' | RequestStatus.Failed \<Rightarrow> ''failed''
     | RequestStatus.Abnormal \<Rightarrow> ''abnormal'')"

datatype ErrorTier = Failed | Abnormal

fun status_of_tier :: "ErrorTier \<Rightarrow> RequestStatus" where
  "status_of_tier ErrorTier.Failed = RequestStatus.Failed"
| "status_of_tier ErrorTier.Abnormal = RequestStatus.Abnormal"

subsection \<open>Request error classes\<close>

datatype RequestErrorClass = Transient | RateLimited | UpstreamAuth | BadRequest
  | LossyOrCapability | CircuitBreaker | DeadlineExceeded | UpstreamExhausted | AuthMissing
  | AuthInvalid | AuthDisabled | ModelAccessDenied | InternalError | ClientDisconnect
  | QuotaExceeded | DecodeError | RouteNotFound

fun class_as_str :: "RequestErrorClass \<Rightarrow> string" where
  "class_as_str RequestErrorClass.Transient = ''transient''"
| "class_as_str RequestErrorClass.RateLimited = ''rate_limited''"
| "class_as_str UpstreamAuth = ''upstream_auth''"
| "class_as_str RequestErrorClass.BadRequest = ''bad_request''"
| "class_as_str RequestErrorClass.LossyOrCapability = ''lossy_or_capability''"
| "class_as_str CircuitBreaker = ''circuit_breaker''"
| "class_as_str RequestErrorClass.DeadlineExceeded = ''deadline_exceeded''"
| "class_as_str RequestErrorClass.UpstreamExhausted = ''upstream_exhausted''"
| "class_as_str RequestErrorClass.AuthMissing = ''auth_missing''"
| "class_as_str RequestErrorClass.AuthInvalid = ''auth_invalid''"
| "class_as_str RequestErrorClass.AuthDisabled = ''auth_disabled''"
| "class_as_str RequestErrorClass.ModelAccessDenied = ''model_access_denied''"
| "class_as_str InternalError = ''internal_error''"
| "class_as_str ClientDisconnect = ''client_disconnect''"
| "class_as_str QuotaExceeded = ''quota_exceeded''"
| "class_as_str DecodeError = ''decode_error''"
| "class_as_str RouteNotFound = ''route_not_found''"

definition class_parse_str :: "string \<Rightarrow> RequestErrorClass option" where
  "class_parse_str s =
     (if s = ''transient'' \<or> s = ''Transient'' then Some RequestErrorClass.Transient
      else if s = ''rate_limited'' \<or> s = ''RateLimited'' then Some RequestErrorClass.RateLimited
      else if s = ''upstream_auth'' \<or> s = ''Auth'' then Some UpstreamAuth
      else if s = ''bad_request'' \<or> s = ''BadRequest'' then Some RequestErrorClass.BadRequest
      else if s = ''lossy_or_capability'' \<or> s = ''LossyOrCapability''
        then Some RequestErrorClass.LossyOrCapability
      else if s = ''circuit_breaker'' \<or> s = ''CircuitBreaker'' then Some CircuitBreaker
      else if s = ''deadline_exceeded'' \<or> s = ''DeadlineExceeded''
        then Some RequestErrorClass.DeadlineExceeded
      else if s = ''upstream_exhausted'' then Some RequestErrorClass.UpstreamExhausted
      else if s = ''auth_missing'' then Some RequestErrorClass.AuthMissing
      else if s = ''auth_invalid'' then Some RequestErrorClass.AuthInvalid
      else if s = ''auth_disabled'' then Some RequestErrorClass.AuthDisabled
      else if s = ''model_access_denied'' then Some RequestErrorClass.ModelAccessDenied
      else if s = ''internal_error'' then Some InternalError
      else if s = ''client_disconnect'' then Some ClientDisconnect
      else if s = ''quota_exceeded'' then Some QuotaExceeded
      else if s = ''decode_error'' then Some DecodeError
      else if s = ''route_not_found'' then Some RouteNotFound
      else None)"

definition tier :: "RequestErrorClass \<Rightarrow> ErrorTier" where
  "tier c = (case c of InternalError \<Rightarrow> ErrorTier.Abnormal | ClientDisconnect \<Rightarrow> ErrorTier.Abnormal
     | _ \<Rightarrow> ErrorTier.Failed)"

interpretation request_status: wire_enum status_as_str status_parse_str
proof
  fix x show "status_parse_str (status_as_str x) = Some x"
    by (cases x) (simp_all add: status_parse_str_def)
qed

interpretation request_class: wire_enum class_as_str class_parse_str
proof
  fix x show "class_parse_str (class_as_str x) = Some x"
    by (cases x) (simp_all add: class_parse_str_def)
qed

subsection \<open>Fallback error classes\<close>

datatype ErrorClass = Transient | RateLimited | Auth | BadRequest | LossyOrCapability
  | ModelNotFound | DeadlineExceeded | UpstreamExhausted | AuthMissing | AuthInvalid
  | AuthDisabled | ModelAccessDenied | Overloaded

fun to_request_class :: "ErrorClass \<Rightarrow> RequestErrorClass" where
  "to_request_class ErrorClass.Transient = RequestErrorClass.Transient"
| "to_request_class ErrorClass.RateLimited = RequestErrorClass.RateLimited"
| "to_request_class ErrorClass.Auth = UpstreamAuth"
| "to_request_class ErrorClass.BadRequest = RequestErrorClass.BadRequest"
| "to_request_class ErrorClass.LossyOrCapability = RequestErrorClass.LossyOrCapability"
| "to_request_class ErrorClass.ModelNotFound = RouteNotFound"
| "to_request_class ErrorClass.DeadlineExceeded = RequestErrorClass.DeadlineExceeded"
| "to_request_class ErrorClass.UpstreamExhausted = RequestErrorClass.UpstreamExhausted"
| "to_request_class ErrorClass.AuthMissing = RequestErrorClass.AuthMissing"
| "to_request_class ErrorClass.AuthInvalid = RequestErrorClass.AuthInvalid"
| "to_request_class ErrorClass.AuthDisabled = RequestErrorClass.AuthDisabled"
| "to_request_class ErrorClass.ModelAccessDenied = RequestErrorClass.ModelAccessDenied"
| "to_request_class ErrorClass.Overloaded = InternalError"

fun class_http_status :: "ErrorClass \<Rightarrow> nat" where
  "class_http_status ErrorClass.Transient = 502"
| "class_http_status ErrorClass.RateLimited = 429"
| "class_http_status ErrorClass.Auth = 401"
| "class_http_status ErrorClass.BadRequest = 400"
| "class_http_status ErrorClass.LossyOrCapability = 400"
| "class_http_status ErrorClass.ModelNotFound = 404"
| "class_http_status ErrorClass.DeadlineExceeded = 504"
| "class_http_status ErrorClass.UpstreamExhausted = 502"
| "class_http_status ErrorClass.AuthMissing = 401"
| "class_http_status ErrorClass.AuthInvalid = 401"
| "class_http_status ErrorClass.AuthDisabled = 403"
| "class_http_status ErrorClass.ModelAccessDenied = 403"
| "class_http_status ErrorClass.Overloaded = 503"

record ErrorClassification =
  ec_class :: RequestErrorClass
  ec_fallback_class :: ErrorClass
  ec_retry_after :: "duration option"
  ec_http_status :: "nat option"

subsection \<open>Classification by message text\<close>

definition classify_error :: "Error \<Rightarrow> ErrorClassification" where
  "classify_error e =
     (let msg = to_lowercase (error_display e) in
      if contains msg ''429'' \<or> contains msg ''rate limit'' \<or> contains msg ''rate_limited'' then
        \<lparr>ec_class = RequestErrorClass.RateLimited, ec_fallback_class = ErrorClass.RateLimited,
         ec_retry_after = None, ec_http_status = Some 429\<rparr>
      else if contains msg ''401'' \<or> contains msg ''403'' \<or> contains msg ''unauthorized'' then
        \<lparr>ec_class = UpstreamAuth, ec_fallback_class = ErrorClass.Auth,
         ec_retry_after = None, ec_http_status = Some 401\<rparr>
      else if contains msg ''400'' \<or> contains msg ''422'' \<or> contains msg ''bad request'' then
        \<lparr>ec_class = RequestErrorClass.BadRequest, ec_fallback_class = ErrorClass.BadRequest,
         ec_retry_after = None, ec_http_status = Some 400\<rparr>
      else if contains msg ''lossy'' \<or> contains msg ''capability'' \<or> contains msg ''unsupported'' then
        \<lparr>ec_class = RequestErrorClass.LossyOrCapability,
         ec_fallback_class = ErrorClass.LossyOrCapability,
         ec_retry_after = None, ec_http_status = None\<rparr>
      else
        \<lparr>ec_class = RequestErrorClass.Transient, ec_fallback_class = ErrorClass.Transient,
         ec_retry_after = None, ec_http_status = None\<rparr>)"

subsection \<open>Classification by status and code\<close>

definition classify_status :: "nat \<Rightarrow> ErrorClass option" where
  "classify_status status =
     (if status = 429 then Some ErrorClass.RateLimited
      else if status = 401 \<or> status = 403 then Some ErrorClass.Auth
      else if status = 400 \<or> status = 422 then Some ErrorClass.BadRequest
      else if status = 404 then Some ErrorClass.ModelNotFound
      else if status = 503 then Some ErrorClass.Overloaded
      else if status = 504 then Some ErrorClass.DeadlineExceeded
      else None)"

definition classify_code :: "string \<Rightarrow> ErrorClass option" where
  "classify_code code =
     (let lower = to_lowercase code in
      if contains lower ''rate_limit'' \<or> contains lower ''quota'' \<or> lower = ''429''
         \<or> lower = ''resource_exhausted'' then Some ErrorClass.RateLimited
      else if contains lower ''auth'' \<or> lower = ''401'' \<or> lower = ''403''
         \<or> contains lower ''invalid_api_key'' \<or> contains lower ''permission''
         \<or> contains lower ''unauthenticated'' then Some ErrorClass.Auth
      else if contains lower ''bad_request'' \<or> lower = ''400''
         \<or> contains lower ''invalid_argument'' \<or> contains lower ''invalid_request''
        then Some ErrorClass.BadRequest
      else if contains lower ''overloaded'' \<or> contains lower ''service_unavailable''
         \<or> lower = ''529'' \<or> lower = ''503'' \<or> lower = ''unavailable''
        then Some ErrorClass.Overloaded
      else if contains lower ''timeout'' \<or> contains lower ''deadline''
        then Some ErrorClass.DeadlineExceeded
      else if contains lower ''not_found'' \<or> contains lower ''model_not_found'' \<or> lower = ''404''
        then Some ErrorClass.ModelNotFound
      else None)"

definition classify_upstream_error :: "nat option \<Rightarrow> string option \<Rightarrow> ErrorClass" where
  "classify_upstream_error upstream_status upstream_code =
     (case Option.bind upstream_status classify_status of
        Some c \<Rightarrow> c
      | None \<Rightarrow>
          (case Option.bind upstream_code classify_code of
             Some c \<Rightarrow> c
           | None \<Rightarrow> ErrorClass.Transient))"

definition classify_structured :: "nat option \<Rightarrow> string option \<Rightarrow> ErrorClassification" where
  "classify_structured upstream_status upstream_code =
     (let fallback_class = classify_upstream_error upstream_status upstream_code in
      \<lparr>ec_class = to_request_class fallback_class, ec_fallback_class = fallback_class,
       ec_retry_after = None, ec_http_status = upstream_status\<rparr>)"

subsection \<open>Protocol-native error bodies\<close>

fun openai_error_type :: "ErrorClass \<Rightarrow> string" where
  "openai_error_type ErrorClass.Transient = ''server_error''"
| "openai_error_type ErrorClass.RateLimited = ''rate_limit_error''"
| "openai_error_type ErrorClass.Auth = ''authentication_error''"
| "openai_error_type ErrorClass.BadRequest = ''invalid_request_error''"
| "openai_error_type ErrorClass.LossyOrCapability = ''invalid_request_error''"
| "openai_error_type ErrorClass.ModelNotFound = ''not_found_error''"
| "openai_error_type ErrorClass.DeadlineExceeded = ''server_error''"
| "openai_error_type ErrorClass.UpstreamExhausted = ''server_error''"
| "openai_error_type ErrorClass.AuthMissing = ''authentication_error''"
| "openai_error_type ErrorClass.AuthInvalid = ''authentication_error''"
| "openai_error_type ErrorClass.AuthDisabled = ''permission_error''"
| "openai_error_type ErrorClass.ModelAccessDenied = ''permission_error''"
| "openai_error_type ErrorClass.Overloaded = ''overloaded_error''"

fun anthropic_error_type :: "ErrorClass \<Rightarrow> string" where
  "anthropic_error_type ErrorClass.Transient = ''api_error''"
| "anthropic_error_type ErrorClass.RateLimited = ''rate_limit_error''"
| "anthropic_error_type ErrorClass.Auth = ''authentication_error''"
| "anthropic_error_type ErrorClass.BadRequest = ''invalid_request_error''"
| "anthropic_error_type ErrorClass.LossyOrCapability = ''invalid_request_error''"
| "anthropic_error_type ErrorClass.ModelNotFound = ''not_found_error''"
| "anthropic_error_type ErrorClass.DeadlineExceeded = ''timeout_error''"
| "anthropic_error_type ErrorClass.UpstreamExhausted = ''overloaded_error''"
| "anthropic_error_type ErrorClass.AuthMissing = ''authentication_error''"
| "anthropic_error_type ErrorClass.AuthInvalid = ''authentication_error''"
| "anthropic_error_type ErrorClass.AuthDisabled = ''permission_error''"
| "anthropic_error_type ErrorClass.ModelAccessDenied = ''permission_error''"
| "anthropic_error_type ErrorClass.Overloaded = ''overloaded_error''"

fun gemini_error_status :: "ErrorClass \<Rightarrow> string" where
  "gemini_error_status ErrorClass.Transient = ''INTERNAL''"
| "gemini_error_status ErrorClass.RateLimited = ''RESOURCE_EXHAUSTED''"
| "gemini_error_status ErrorClass.Auth = ''UNAUTHENTICATED''"
| "gemini_error_status ErrorClass.BadRequest = ''INVALID_ARGUMENT''"
| "gemini_error_status ErrorClass.LossyOrCapability = ''FAILED_PRECONDITION''"
| "gemini_error_status ErrorClass.ModelNotFound = ''NOT_FOUND''"
| "gemini_error_status ErrorClass.DeadlineExceeded = ''DEADLINE_EXCEEDED''"
| "gemini_error_status ErrorClass.UpstreamExhausted = ''UNAVAILABLE''"
| "gemini_error_status ErrorClass.AuthMissing = ''UNAUTHENTICATED''"
| "gemini_error_status ErrorClass.AuthInvalid = ''UNAUTHENTICATED''"
| "gemini_error_status ErrorClass.AuthDisabled = ''PERMISSION_DENIED''"
| "gemini_error_status ErrorClass.ModelAccessDenied = ''PERMISSION_DENIED''"
| "gemini_error_status ErrorClass.Overloaded = ''UNAVAILABLE''"

definition encode_error_body_for_suite ::
    "ProtocolSuite \<Rightarrow> string \<Rightarrow> ErrorClass \<Rightarrow> nat \<Rightarrow> string option \<Rightarrow> json" where
  "encode_error_body_for_suite s message cls http_status upstream_code =
     (let error_code = (case upstream_code of Some c \<Rightarrow> Some c
            | None \<Rightarrow> if cls = ErrorClass.ModelAccessDenied then Some ''model_access_denied'' else None);
          openai = object_of [(''error'', object_of
            ([(''message'', JString message), (''type'', JString (openai_error_type cls)),
              (''param'', JNull)] @
             (case error_code of Some c \<Rightarrow> [(''code'', JString c)] | None \<Rightarrow> [])))]
      in case s of
           OpenAiCompatible \<Rightarrow> openai
         | OpenAiResponses \<Rightarrow> openai
         | AnthropicMessages \<Rightarrow> object_of [(''type'', JString ''error''), (''error'', object_of
             [(''type'', JString (anthropic_error_type cls)), (''message'', JString message)])]
         | GoogleGemini \<Rightarrow> object_of [(''error'', object_of
             [(''code'', JNumber (PosInt http_status)), (''message'', JString message),
              (''status'', JString (gemini_error_status cls)), (''details'', JArray [])])])"

end
