(* ===== verification/Health.thy ===== *)
theory Health
  imports Prelude
begin

section \<open>The health registry: circuit breaker, cooling and latency averages\<close>

text \<open>
  The model of \<^verbatim>\<open>HealthRegistry\<close> (\<^verbatim>\<open>crates/core/src/routing/mod.rs\<close>).  The two maps behind
  their locks are fields of one record; every method holds its lock for its whole body, so a
  concurrent execution is a sequence of the operations below.  A reading of the monotonic clock is
  the argument \<open>now\<close>.  The failure counter is a 32-bit word that wraps (release profile); an
  \<^verbatim>\<open>f64\<close> average is an exact rational.  The key under which a target is tracked is a string.
\<close>

datatype RoutingTargetHealth = Healthy | CircuitBroken instant | Cooling instant

record TargetHealth =
  th_consecutive_failures :: u32
  th_last_failure_at :: "instant option"
  th_cooling_until :: "instant option"
  th_cooling_reason :: "string option"

record LatencyEwma =
  ewma :: rat
  samples :: u64

record HealthRegistry =
  states :: "string \<rightharpoonup> TargetHealth"
  latencies :: "string \<rightharpoonup> LatencyEwma"
  failure_threshold :: u32
  recovery_tiers :: "duration list"

definition TargetHealth_default :: TargetHealth where
  "TargetHealth_default = \<lparr>th_consecutive_failures = 0, th_last_failure_at = None,
     th_cooling_until = None, th_cooling_reason = None\<rparr>"

definition HealthRegistry_new :: "u32 \<Rightarrow> duration list \<Rightarrow> HealthRegistry rust" where
  "HealthRegistry_new threshold tiers =
     (if tiers = [] then Inl Assertion_Failed
      else Inr \<lparr>states = Map.empty, latencies = Map.empty, failure_threshold = threshold,
                recovery_tiers = tiers\<rparr>)"

definition HealthRegistry_with_defaults :: "HealthRegistry rust" where
  "HealthRegistry_with_defaults =
     HealthRegistry_new 3 [from_secs 60, from_secs 180, from_secs 600, from_secs 1800]"

text \<open>
  The index is in range for every registry that \<open>HealthRegistry_new\<close> builds
  (\<open>recovery_index_in_range\<close> below).
\<close>

definition recovery_duration_for :: "HealthRegistry \<Rightarrow> u32 \<Rightarrow> duration" where
  "recovery_duration_for r consecutive_failures =
     (let overflow = unat (saturating_sub consecutive_failures (failure_threshold r));
          tier_index = min overflow (length (recovery_tiers r) - 1)
      in recovery_tiers r ! tier_index)"

definition is_healthy :: "HealthRegistry \<Rightarrow> instant \<Rightarrow> string \<Rightarrow> bool" where
  "is_healthy r now key =
     (case states r key of
        None \<Rightarrow> True
      | Some st \<Rightarrow>
          (case th_cooling_until st of Some until \<Rightarrow> \<not> now < until | None \<Rightarrow> True) \<and>
          (th_consecutive_failures st < failure_threshold r \<or>
           (case th_last_failure_at st of
              None \<Rightarrow> True
            | Some t \<Rightarrow> duration_since now t
                          > recovery_duration_for r (th_consecutive_failures st))))"

definition record_success :: "HealthRegistry \<Rightarrow> string \<Rightarrow> HealthRegistry" where
  "record_success r key =
     (case states r key of
        None \<Rightarrow> r
      | Some st \<Rightarrow> r\<lparr>states := (states r)(key \<mapsto>
          st\<lparr>th_consecutive_failures := 0, th_cooling_until := None,
             th_cooling_reason := None\<rparr>)\<rparr>)"

definition entry_or_default :: "HealthRegistry \<Rightarrow> string \<Rightarrow> TargetHealth" where
  "entry_or_default r key = (case states r key of None \<Rightarrow> TargetHealth_default | Some st \<Rightarrow> st)"

definition record_failure :: "HealthRegistry \<Rightarrow> instant \<Rightarrow> string \<Rightarrow> HealthRegistry" where
  "record_failure r now key =
     (let st = entry_or_default r key in
      r\<lparr>states := (states r)(key \<mapsto>
          st\<lparr>th_consecutive_failures := th_consecutive_failures st + 1,
             th_last_failure_at := Some now\<rparr>)\<rparr>)"

definition apply_cooling ::
    "HealthRegistry \<Rightarrow> instant \<Rightarrow> string \<Rightarrow> duration \<Rightarrow> string \<Rightarrow> HealthRegistry rust" where
  "apply_cooling r now key d reason =
     (let st = entry_or_default r key in
      bind_rust (instant_add now d) (\<lambda>until.
        Inr (r\<lparr>states := (states r)(key \<mapsto>
          st\<lparr>th_cooling_until := Some until, th_cooling_reason := Some reason\<rparr>)\<rparr>)))"

definition health_status ::
    "HealthRegistry \<Rightarrow> instant \<Rightarrow> string \<Rightarrow> RoutingTargetHealth rust" where
  "health_status r now key =
     (case states r key of
        None \<Rightarrow> Inr Healthy
      | Some st \<Rightarrow>
          let circuit =
            (if th_consecutive_failures st \<ge> failure_threshold r then
               (case th_last_failure_at st of
                  None \<Rightarrow> Inr Healthy
                | Some last_failure \<Rightarrow>
                    bind_rust (instant_add last_failure
                        (recovery_duration_for r (th_consecutive_failures st)))
                      (\<lambda>recovery_until. if now < recovery_until
                         then Inr (CircuitBroken recovery_until) else Inr Healthy))
             else Inr Healthy)
          in (case th_cooling_until st of
                Some until \<Rightarrow> if now < until then Inr (Cooling until) else circuit
              | None \<Rightarrow> circuit))"

definition consecutive_failures :: "HealthRegistry \<Rightarrow> string \<Rightarrow> u32" where
  "consecutive_failures r key = (case states r key of None \<Rightarrow> 0 | Some s \<Rightarrow> th_consecutive_failures s)"

definition cooling_reason :: "HealthRegistry \<Rightarrow> string \<Rightarrow> string option" where
  "cooling_reason r key = Option.bind (states r key) th_cooling_reason"

definition reset :: "HealthRegistry \<Rightarrow> HealthRegistry" where
  "reset r = r\<lparr>states := Map.empty, latencies := Map.empty\<rparr>"

text \<open>The keys come in the unspecified iteration order of the hash map: the model is their set.\<close>

definition list_targets :: "HealthRegistry \<Rightarrow> string set" where
  "list_targets r = dom (states r)"

definition record_latency_ms :: "HealthRegistry \<Rightarrow> string \<Rightarrow> nat \<Rightarrow> HealthRegistry" where
  "record_latency_ms r key latency_ms =
     (let entry = (case latencies r key of None \<Rightarrow> \<lparr>ewma = 0, samples = 0\<rparr> | Some l \<Rightarrow> l);
          e = (if samples entry = 0 then of_nat latency_ms
               else 3 / 10 * of_nat latency_ms + 7 / 10 * ewma entry)
      in r\<lparr>latencies := (latencies r)(key \<mapsto> \<lparr>ewma = e, samples = samples entry + 1\<rparr>)\<rparr>)"

text \<open>\<^verbatim>\<open>f64 as u64\<close>: truncation towards zero, saturating at the bounds of the integer type.\<close>

definition f64_as_u64 :: "rat \<Rightarrow> nat" where
  "f64_as_u64 x = min (nat \<lfloor>x\<rfloor>) (2 ^ 64 - 1)"

definition ewma_latency_ms :: "HealthRegistry \<Rightarrow> string \<Rightarrow> nat option" where
  "ewma_latency_ms r key = map_option (\<lambda>l. f64_as_u64 (ewma l)) (latencies r key)"

definition latency_samples :: "HealthRegistry \<Rightarrow> string \<Rightarrow> u64" where
  "latency_samples r key = (case latencies r key of None \<Rightarrow> 0 | Some l \<Rightarrow> samples l)"

subsection \<open>The registry as a state machine\<close>

text \<open>
  One step per method that changes the registry.  \<open>registry_inv\<close> is what every reachable registry
  satisfies: the tier list is never empty, a counted failure has a time stamp, and a cooling
  deadline and its reason come together.
\<close>

inductive registry_step :: "HealthRegistry \<Rightarrow> HealthRegistry \<Rightarrow> bool" where
  success: "registry_step r (record_success r key)"
| failure: "registry_step r (record_failure r now key)"
| cooling: "apply_cooling r now key d reason = Inr r' \<Longrightarrow> registry_step r r'"
| latency: "registry_step r (record_latency_ms r key ms)"
| reset: "registry_step r (reset r)"

inductive registry_reachable :: "HealthRegistry \<Rightarrow> bool" where
  start: "HealthRegistry_new threshold tiers = Inr r \<Longrightarrow> registry_reachable r"
| step: "registry_reachable r \<Longrightarrow> registry_step r r' \<Longrightarrow> registry_reachable r'"

definition state_inv :: "TargetHealth \<Rightarrow> bool" where
  "state_inv st \<longleftrightarrow> (th_consecutive_failures st \<noteq> 0 \<longrightarrow> th_last_failure_at st \<noteq> None) \<and>
     (th_cooling_until st = None \<longleftrightarrow> th_cooling_reason st = None)"

definition registry_inv :: "HealthRegistry \<Rightarrow> bool" where
  "registry_inv r \<longleftrightarrow> recovery_tiers r \<noteq> [] \<and> (\<forall>k st. states r k = Some st \<longrightarrow> state_inv st)"

lemmas health_op_defs = record_success_def record_failure_def apply_cooling_def
  record_latency_ms_def reset_def

lemma state_inv_default: "state_inv TargetHealth_default"
  by (simp add: state_inv_def TargetHealth_default_def)

lemma state_inv_entry: "registry_inv r \<Longrightarrow> state_inv (entry_or_default r key)"
  by (auto simp: entry_or_default_def registry_inv_def state_inv_default split: option.splits)

lemma registry_inv_update:
  "registry_inv r \<Longrightarrow> state_inv st \<Longrightarrow> registry_inv (r\<lparr>states := (states r)(key \<mapsto> st)\<rparr>)"
  by (auto simp: registry_inv_def)

lemma registry_step_inv: "registry_step r r' \<Longrightarrow> registry_inv r \<Longrightarrow> registry_inv r'"
proof (induction rule: registry_step.induct)
  case (success r key)
  show ?case
  proof (cases "states r key")
    case (Some st)
    with success have "state_inv st" by (auto simp: registry_inv_def)
    then show ?thesis using success Some
      by (auto simp: record_success_def state_inv_def intro!: registry_inv_update)
  qed (use success in \<open>simp add: record_success_def\<close>)
next
  case (failure r now key)
  from state_inv_entry [OF failure, of key] show ?case
    by (auto simp: record_failure_def state_inv_def Let_def intro!: registry_inv_update failure)
next
  case (cooling r now key d reason r')
  from state_inv_entry [OF cooling.prems, of key] cooling show ?case
    by (auto simp: apply_cooling_def state_inv_def Let_def intro!: registry_inv_update)
next
  case (latency r key ms)
  then show ?case by (simp add: record_latency_ms_def registry_inv_def Let_def)
next
  case (reset r)
  then show ?case by (simp add: reset_def registry_inv_def)
qed

lemma registry_new_inv: "HealthRegistry_new threshold tiers = Inr r \<Longrightarrow> registry_inv r"
  by (auto simp: HealthRegistry_new_def registry_inv_def split: if_splits)

lemma reachable_inv: "registry_reachable r \<Longrightarrow> registry_inv r"
  by (induction rule: registry_reachable.induct) (auto intro: registry_new_inv registry_step_inv)

lemma recovery_index_in_range:
  "registry_inv r \<Longrightarrow>
     min (unat (saturating_sub n (failure_threshold r))) (length (recovery_tiers r) - 1)
       < length (recovery_tiers r)"
  by (cases "recovery_tiers r") (auto simp: registry_inv_def)

subsection \<open>Frame rules\<close>

lemma record_success_threshold [simp]:
  "failure_threshold (record_success r k) = failure_threshold r"
  "recovery_tiers (record_success r k) = recovery_tiers r"
  "latencies (record_success r k) = latencies r"
  by (simp_all add: record_success_def split: option.splits)

lemma record_failure_threshold [simp]:
  "failure_threshold (record_failure r t k) = failure_threshold r"
  "recovery_tiers (record_failure r t k) = recovery_tiers r"
  "latencies (record_failure r t k) = latencies r"
  by (simp_all add: record_failure_def Let_def)

lemma record_latency_frame [simp]:
  "failure_threshold (record_latency_ms r k ms) = failure_threshold r"
  "recovery_tiers (record_latency_ms r k ms) = recovery_tiers r"
  "states (record_latency_ms r k ms) = states r"
  by (simp_all add: record_latency_ms_def Let_def)

lemma apply_cooling_frame:
  assumes "apply_cooling r t k d why = Inr r'"
  shows "failure_threshold r' = failure_threshold r" "recovery_tiers r' = recovery_tiers r"
    "latencies r' = latencies r"
  using assms by (auto simp: apply_cooling_def Let_def)

lemma recovery_duration_cong:
  "failure_threshold r' = failure_threshold r \<Longrightarrow> recovery_tiers r' = recovery_tiers r \<Longrightarrow>
   recovery_duration_for r' n = recovery_duration_for r n"
  by (simp add: recovery_duration_for_def)

lemma is_healthy_cong:
  assumes "failure_threshold r' = failure_threshold r" "recovery_tiers r' = recovery_tiers r"
    and "states r' k = states r k"
  shows "is_healthy r' now k = is_healthy r now k"
proof -
  have "recovery_duration_for r' = recovery_duration_for r"
    by (rule ext) (rule recovery_duration_cong [OF assms(1,2)])
  with assms show ?thesis by (simp add: is_healthy_def split: option.split)
qed

lemma is_healthy_record_latency [simp]: "is_healthy (record_latency_ms r k ms) now k' = is_healthy r now k'"
  by (rule is_healthy_cong) simp_all

lemma states_record_failure_other [simp]: "k' \<noteq> k \<Longrightarrow> states (record_failure r t k) k' = states r k'"
  by (simp add: record_failure_def Let_def)

lemma states_record_success_other [simp]: "k' \<noteq> k \<Longrightarrow> states (record_success r k) k' = states r k'"
  by (simp add: record_success_def split: option.splits)

lemma states_apply_cooling_other:
  "apply_cooling r t k d why = Inr r' \<Longrightarrow> k' \<noteq> k \<Longrightarrow> states r' k' = states r k'"
  by (auto simp: apply_cooling_def Let_def)

subsection \<open>The circuit breaker\<close>

definition record_failures :: "HealthRegistry \<Rightarrow> string \<Rightarrow> instant list \<Rightarrow> HealthRegistry" where
  "record_failures r key ts = foldl (\<lambda>r t. record_failure r t key) r ts"

lemma record_failures_frame [simp]:
  "failure_threshold (record_failures r key ts) = failure_threshold r"
  "recovery_tiers (record_failures r key ts) = recovery_tiers r"
  unfolding record_failures_def by (induction ts arbitrary: r) simp_all

lemma states_record_failures:
  "ts \<noteq> [] \<Longrightarrow> states (record_failures r key ts) key =
     Some ((entry_or_default r key)\<lparr>
       th_consecutive_failures := th_consecutive_failures (entry_or_default r key)
                                    + of_nat (length ts),
       th_last_failure_at := Some (last ts)\<rparr>)"
proof (induction ts rule: rev_induct)
  case (snoc t ts)
  show ?case
  proof (cases "ts = []")
    case True
    then show ?thesis by (simp add: record_failures_def record_failure_def Let_def)
  next
    case False
    with snoc.IH have "entry_or_default (record_failures r key ts) key =
      (entry_or_default r key)\<lparr>
       th_consecutive_failures := th_consecutive_failures (entry_or_default r key)
                                    + of_nat (length ts),
       th_last_failure_at := Some (last ts)\<rparr>"
      by (simp add: entry_or_default_def [of "record_failures r key ts"])
    then show ?thesis
      by (simp add: record_failures_def record_failure_def Let_def algebra_simps)
  qed
qed simp

lemma circuit_state:
  assumes "states r key = None" and "ts \<noteq> []"
  shows "states (record_failures r key ts) key =
     Some \<lparr>th_consecutive_failures = of_nat (length ts), th_last_failure_at = Some (last ts),
           th_cooling_until = None, th_cooling_reason = None\<rparr>"
  using states_record_failures [OF assms(2), of r key] assms(1)
  by (simp add: entry_or_default_def TargetHealth_default_def)

text \<open>
  C23.  The circuit breaker, in full: a target that had no entry and has failed at the times
  \<open>ts\<close> (fewer than \<open>2 ^ 32\<close> of them) is healthy at \<open>now\<close> exactly when it has failed fewer times
  than the threshold, or more time than the current recovery tier has passed since the last
  failure.  The tier is the first one at the threshold, advances by one with every further
  failure, and stays at the last.
\<close>

theorem circuit_breaker_exact:
  assumes "states r key = None" and "ts \<noteq> []" and "length ts < 2 ^ 32"
  shows "is_healthy (record_failures r key ts) now key \<longleftrightarrow>
     length ts < unat (failure_threshold r) \<or>
     now - last ts > recovery_tiers r !
       min (length ts - unat (failure_threshold r)) (length (recovery_tiers r) - 1)"
proof -
  have n: "unat (of_nat (length ts) :: u32) = length ts"
    using assms(3) by (simp add: unat_of_nat)
  show ?thesis
    using circuit_state [OF assms(1,2)]
    by (simp add: is_healthy_def recovery_duration_for_def duration_since_def Let_def
        word_less_nat_alt n)
qed

theorem circuit_breaker_exact_witness:
  "\<exists>r. HealthRegistry_with_defaults = Inr r \<and>
     \<not> is_healthy (record_failures r ''p:m'' [0, 1, 2]) (from_secs 60) ''p:m'' \<and>
     is_healthy (record_failures r ''p:m'' [0, 1, 2]) (from_secs 61) ''p:m'' \<and>
     \<not> is_healthy (record_failures r ''p:m'' [0, 1, 2, from_secs 61]) (from_secs 241) ''p:m''"
proof -
  obtain r where r: "HealthRegistry_with_defaults = Inr r"
    and th: "failure_threshold r = 3"
    and tiers: "recovery_tiers r = [from_secs 60, from_secs 180, from_secs 600, from_secs 1800]"
    and st: "states r = Map.empty"
    by (auto simp: HealthRegistry_with_defaults_def HealthRegistry_new_def)
  have ex: "is_healthy (record_failures r ''p:m'' ts) now ''p:m'' \<longleftrightarrow>
      length ts < 3 \<or> now - last ts > recovery_tiers r ! min (length ts - 3) (Suc (Suc (Suc 0)))"
    if "ts \<noteq> []" "length ts < 2 ^ 32" for ts now
    using circuit_breaker_exact [of r "''p:m''" ts now] that by (simp add: st th tiers)
  show ?thesis
    by (rule exI [of _ r]) (simp add: r ex tiers from_secs_def nanos_per_sec_def)
qed

text \<open>
  One success closes the circuit at once and ends a cooling period: afterwards the target is
  healthy at every time, whatever its history (the threshold being positive, as the default 3 is).
\<close>

theorem success_restores_health:
  assumes "0 < failure_threshold r"
  shows "is_healthy (record_success r key) now key"
  using assms by (cases "states r key") (simp_all add: is_healthy_def record_success_def)

theorem success_restores_health_witness:
  "\<exists>r. HealthRegistry_with_defaults = Inr r \<and>
     \<not> is_healthy (record_failures r ''p:m'' [0, 0, 0, 0]) 5 ''p:m'' \<and>
     is_healthy (record_success (record_failures r ''p:m'' [0, 0, 0, 0]) ''p:m'') 5 ''p:m''"
proof -
  obtain r where r: "HealthRegistry_with_defaults = Inr r"
    and th: "failure_threshold r = 3"
    and tiers: "recovery_tiers r = [from_secs 60, from_secs 180, from_secs 600, from_secs 1800]"
    and st: "states r ''p:m'' = None"
    by (auto simp: HealthRegistry_with_defaults_def HealthRegistry_new_def)
  have "\<not> is_healthy (record_failures r ''p:m'' [0, 0, 0, 0]) 5 ''p:m''"
    using circuit_state [OF st, of "[0, 0, 0, 0]"]
    by (simp add: is_healthy_def recovery_duration_for_def th tiers from_secs_def
        nanos_per_sec_def duration_since_def saturating_sub_def)
  moreover have "0 < failure_threshold (record_failures r ''p:m'' [0, 0, 0, 0])"
    by (simp add: th)
  ultimately show ?thesis using r success_restores_health by blast
qed

text \<open>
  A cooling period is honoured for its whole length: from the moment \<open>apply_cooling\<close> returns
  until the deadline, the target is unhealthy, also if it had no failures at all.
\<close>

theorem cooling_is_honoured:
  assumes "apply_cooling r t key d reason = Inr r'" and "now < t + d"
  shows "\<not> is_healthy r' now key \<and> health_status r' now key = Inr (Cooling (t + d))
     \<and> cooling_reason r' key = Some reason"
  using assms
  by (auto simp: apply_cooling_def is_healthy_def health_status_def cooling_reason_def Let_def
      dest: instant_add_Inr)

theorem cooling_is_honoured_witness:
  "\<exists>r r'. HealthRegistry_with_defaults = Inr r \<and>
     apply_cooling r 7 ''p:m'' (from_secs 30) ''rate_limited'' = Inr r' \<and>
     \<not> is_healthy r' 8 ''p:m''"
proof -
  obtain r where r: "HealthRegistry_with_defaults = Inr r"
    by (auto simp: HealthRegistry_with_defaults_def HealthRegistry_new_def)
  obtain r' where r': "apply_cooling r 7 ''p:m'' (from_secs 30) ''rate_limited'' = Inr r'"
    by (auto simp: apply_cooling_def instant_add_def from_secs_def nanos_per_sec_def Let_def)
  have "8 < 7 + from_secs 30" by (simp add: from_secs_def nanos_per_sec_def)
  with r r' cooling_is_honoured [OF r', of 8] show ?thesis by blast
qed

text \<open>
  The two views of a target agree except at one instant: a healthy target has status
  \<open>Healthy\<close> (or the deadline is not representable and the status query panics), and a target with
  status \<open>Healthy\<close> that is not healthy is exactly at the end of its recovery window:
  \<open>is_healthy\<close> wants strictly more than the window, \<open>health_status\<close> only its end.
\<close>

theorem health_views_agree:
  "(is_healthy r now key \<longrightarrow>
      health_status r now key \<in> {Inr Healthy, Inl Overflow_Adding_Duration}) \<and>
   (health_status r now key = Inr Healthy \<longrightarrow> is_healthy r now key \<or>
      (\<exists>st t. states r key = Some st \<and> th_last_failure_at st = Some t \<and>
         now = t + recovery_duration_for r (th_consecutive_failures st)))"
proof (cases "states r key")
  case None
  then show ?thesis by (simp add: is_healthy_def health_status_def)
next
  case (Some st)
  show ?thesis
  proof (cases "th_last_failure_at st")
    case None
    then show ?thesis using Some
      by (auto simp: is_healthy_def health_status_def Let_def split: option.splits)
  next
    case last: (Some t)
    show ?thesis using Some last
      by (auto simp: is_healthy_def health_status_def instant_add_def duration_since_def Let_def
          not_less split: option.splits if_splits)
  qed
qed

theorem health_views_agree_witness:
  "\<exists>r st t. HealthRegistry_with_defaults = Inr r \<and>
     states (record_failures r ''p:m'' [0, 0, 0]) ''p:m'' = Some st \<and>
     th_last_failure_at st = Some t \<and>
     \<not> is_healthy (record_failures r ''p:m'' [0, 0, 0]) (from_secs 60) ''p:m'' \<and>
     from_secs 60 = t + recovery_duration_for (record_failures r ''p:m'' [0, 0, 0])
       (th_consecutive_failures st)"
proof -
  obtain r where r: "HealthRegistry_with_defaults = Inr r"
    and th: "failure_threshold r = 3"
    and tiers: "recovery_tiers r = [from_secs 60, from_secs 180, from_secs 600, from_secs 1800]"
    and st: "states r ''p:m'' = None"
    by (auto simp: HealthRegistry_with_defaults_def HealthRegistry_new_def)
  let ?r = "record_failures r ''p:m'' [0, 0, 0]"
  have d: "recovery_duration_for ?r 3 = from_secs 60"
    by (simp add: recovery_duration_for_def th tiers saturating_sub_def)
  have "\<not> is_healthy ?r (from_secs 60) ''p:m''"
    and "health_status ?r (from_secs 60) ''p:m'' = Inr Healthy"
    using circuit_state [OF st, of "[0, 0, 0]"] d
    by (simp_all add: is_healthy_def health_status_def th duration_since_def instant_add_def
        from_secs_def nanos_per_sec_def)
  with r health_views_agree [of ?r "from_secs 60" "''p:m''"] show ?thesis by blast
qed

text \<open>
  Every registry the gateway can reach, by any interleaving of the operations from a
  successful \<open>HealthRegistry_new\<close>, satisfies the invariant; in particular the tier lookup of
  \<open>recovery_duration_for\<close> never indexes out of bounds.
\<close>

theorem reachable_registry_safe:
  assumes "registry_reachable r"
  shows "registry_inv r \<and>
    min (unat (saturating_sub n (failure_threshold r))) (length (recovery_tiers r) - 1)
      < length (recovery_tiers r)"
  using reachable_inv [OF assms] recovery_index_in_range by blast

theorem reachable_registry_safe_witness:
  "\<exists>r. registry_reachable (record_failure r 3 ''p:m'') \<and> registry_inv (record_failure r 3 ''p:m'')"
proof -
  obtain r where "HealthRegistry_with_defaults = Inr r"
    by (auto simp: HealthRegistry_with_defaults_def HealthRegistry_new_def)
  then have "registry_reachable (record_failure r 3 ''p:m'')"
    unfolding HealthRegistry_with_defaults_def
    by (rule registry_reachable.step [OF registry_reachable.start registry_step.failure])
  with reachable_registry_safe show ?thesis by blast
qed

text \<open>
  Isolation: recording the outcome of one target changes neither the health nor the status of
  any other target.
\<close>

theorem outcomes_are_isolated:
  assumes "other \<noteq> key"
  shows "is_healthy (record_failure r t key) now other = is_healthy r now other \<and>
    is_healthy (record_success r key) now other = is_healthy r now other \<and>
    (\<forall>d reason r'. apply_cooling r t key d reason = Inr r' \<longrightarrow>
       is_healthy r' now other = is_healthy r now other)"
proof (intro conjI allI impI)
  show "is_healthy (record_failure r t key) now other = is_healthy r now other"
    using assms by (intro is_healthy_cong) simp_all
  show "is_healthy (record_success r key) now other = is_healthy r now other"
    using assms by (intro is_healthy_cong) simp_all
  fix d reason r' assume "apply_cooling r t key d reason = Inr r'"
  then show "is_healthy r' now other = is_healthy r now other"
    using assms by (intro is_healthy_cong) (simp_all add: apply_cooling_frame states_apply_cooling_other)
qed

theorem outcomes_are_isolated_witness:
  "\<exists>r. HealthRegistry_with_defaults = Inr r \<and>
     is_healthy (record_failure r 0 ''a:m'') 1 ''b:m'' = is_healthy r 1 ''b:m''"
proof -
  obtain r where "HealthRegistry_with_defaults = Inr r"
    by (auto simp: HealthRegistry_with_defaults_def HealthRegistry_new_def)
  moreover have "''b:m'' \<noteq> ''a:m''" by simp
  ultimately show ?thesis using outcomes_are_isolated by blast
qed

subsection \<open>The latency average\<close>

definition record_latencies :: "HealthRegistry \<Rightarrow> string \<Rightarrow> nat list \<Rightarrow> HealthRegistry" where
  "record_latencies r key ls = foldl (\<lambda>r l. record_latency_ms r key l) r ls"

lemma latencies_record:
  assumes "latencies r key = None" and "ls \<noteq> []" and "length ls < 2 ^ 64"
  shows "\<exists>e. latencies (record_latencies r key ls) key = Some \<lparr>ewma = e, samples = of_nat (length ls)\<rparr>
    \<and> of_nat (Min (set ls)) \<le> e \<and> e \<le> of_nat (Max (set ls))"
  using assms(2,3)
proof (induction ls rule: rev_induct)
  case (snoc l ls)
  show ?case
  proof (cases "ls = []")
    case True
    then show ?thesis
      using assms(1) by (simp add: record_latencies_def record_latency_ms_def Let_def)
  next
    case False
    with snoc obtain e where
      e: "latencies (record_latencies r key ls) key = Some \<lparr>ewma = e, samples = of_nat (length ls)\<rparr>"
      and lo: "of_nat (Min (set ls)) \<le> e" and hi: "e \<le> of_nat (Max (set ls))"
      by auto
    let ?lo = "of_nat (Min (set (ls @ [l]))) :: rat" and ?hi = "of_nat (Max (set (ls @ [l]))) :: rat"
    have nz: "(of_nat (length ls) :: u64) \<noteq> 0"
    proof
      assume "(of_nat (length ls) :: u64) = 0"
      then have "unat (of_nat (length ls) :: u64) = 0" by simp
      with snoc.prems False show False by (simp add: unat_of_nat)
    qed
    have "?lo \<le> of_nat (Min (set ls))" "of_nat (Max (set ls)) \<le> ?hi"
      using False by (auto intro!: of_nat_mono Min_antimono Max_mono)
    with lo hi have e': "?lo \<le> e" "e \<le> ?hi" by linarith+
    have l': "?lo \<le> of_nat l" "of_nat l \<le> ?hi" by (auto intro!: of_nat_mono)
    have "?lo \<le> 3 / 10 * of_nat l + 7 / 10 * e" "3 / 10 * of_nat l + 7 / 10 * e \<le> ?hi"
      using e' l' by linarith+
    with e nz show ?thesis
      by (simp add: record_latencies_def record_latency_ms_def Let_def algebra_simps)
  qed
qed simp

text \<open>
  The reported latency average of a target always lies between the smallest and the largest
  latency recorded for it (so one slow or fast answer cannot push it outside what was observed).
\<close>

theorem latency_average_bounded:
  assumes "latencies r key = None" and "ls \<noteq> []" and "length ls < 2 ^ 64"
    and "Max (set ls) < 2 ^ 64"
  shows "\<exists>ms. ewma_latency_ms (record_latencies r key ls) key = Some ms \<and>
           Min (set ls) \<le> ms \<and> ms \<le> Max (set ls)"
proof -
  from latencies_record [OF assms(1-3)] obtain e where
    e: "latencies (record_latencies r key ls) key = Some \<lparr>ewma = e, samples = of_nat (length ls)\<rparr>"
    and lo: "of_nat (Min (set ls)) \<le> e" and hi: "e \<le> of_nat (Max (set ls))" by blast
  have "int (Min (set ls)) \<le> \<lfloor>e\<rfloor>" using lo by (simp add: le_floor_iff)
  moreover have "\<lfloor>e\<rfloor> \<le> int (Max (set ls))" using hi by (metis floor_mono floor_of_nat)
  ultimately have "Min (set ls) \<le> nat \<lfloor>e\<rfloor>" "nat \<lfloor>e\<rfloor> \<le> Max (set ls)" by linarith+
  moreover from this assms(4) have "f64_as_u64 e = nat \<lfloor>e\<rfloor>"
    by (simp add: f64_as_u64_def)
  ultimately show ?thesis using e by (simp add: ewma_latency_ms_def)
qed

theorem latency_average_bounded_witness:
  "\<exists>r ms. HealthRegistry_with_defaults = Inr r \<and>
     ewma_latency_ms (record_latencies r ''p:m'' [100, 200]) ''p:m'' = Some ms \<and>
     100 \<le> ms \<and> ms \<le> 200"
proof -
  obtain r where r: "HealthRegistry_with_defaults = Inr r" and "latencies r ''p:m'' = None"
    by (auto simp: HealthRegistry_with_defaults_def HealthRegistry_new_def)
  with latency_average_bounded [of r "''p:m''" "[100, 200]"] show ?thesis by auto
qed

text \<open>
  The failure counter is 32 bits wide: the failure after \<open>2 ^ 32 - 1\<close> consecutive ones wraps
  it to zero, and the target is then treated as healthy although it has never recovered.
\<close>

theorem failure_counter_wraps:
  assumes "states r key = Some st" and "th_consecutive_failures st = - 1"
    and "th_cooling_until st = None" and "0 < failure_threshold r"
  shows "consecutive_failures (record_failure r t key) key = 0 \<and>
         is_healthy (record_failure r t key) now key"
  using assms
  by (simp add: consecutive_failures_def record_failure_def entry_or_default_def is_healthy_def Let_def)

theorem failure_counter_wraps_witness:
  "\<exists>r. consecutive_failures (record_failure r 9 ''p:m'') ''p:m'' = 0 \<and>
       is_healthy (record_failure r 9 ''p:m'') 9 ''p:m''"
proof -
  let ?st = "\<lparr>th_consecutive_failures = - 1, th_last_failure_at = Some 8,
              th_cooling_until = None, th_cooling_reason = None\<rparr> :: TargetHealth"
  let ?r = "\<lparr>states = [''p:m'' \<mapsto> ?st], latencies = Map.empty, failure_threshold = 3,
             recovery_tiers = [from_secs 60]\<rparr> :: HealthRegistry"
  have "states ?r ''p:m'' = Some ?st" "th_consecutive_failures ?st = - 1"
    "th_cooling_until ?st = None" "0 < failure_threshold ?r" by simp_all
  from failure_counter_wraps [OF this, of 9 9] show ?thesis by blast
qed

end
