(* ===== verification/Routing.thy ===== *)
theory Routing
  imports Error_Class Health
begin

section \<open>Routing table, strategies and fallback policy\<close>

text \<open>
  The rest of \<^verbatim>\<open>crates/core/src/routing/mod.rs\<close>: targets and the routing table, the four target
  ordering strategies behind the \<^verbatim>\<open>Strategy\<close> trait (the locale \<open>strategy\<close>), the retry delay and the
  default fallback policy, with \<^verbatim>\<open>build_strategy\<close> of \<^verbatim>\<open>crates/server/src/ingress/mod.rs\<close> and the
  OAuth target configuration of \<^verbatim>\<open>crates/core/src/provider/oauth.rs\<close>.

  Weights are \<^verbatim>\<open>f64\<close> in the source and exact rationals here (a configured weight is finite: JSON
  has no other number).  The random draws of the weighted shuffle are an argument: the \<open>i\<close>-th draw
  from \<^verbatim>\<open>0.0..total\<close> is \<open>u i * total\<close> for some \<open>u i\<close> in the half-open unit interval, and an empty
  range panics.  The sorts of the standard library are stable; \<open>sort_key\<close> is the stable sort.
\<close>

subsection \<open>OAuth configuration of a target\<close>

datatype UpstreamTransport = Http | CodexResponsesWebSocket

datatype TokenRequestStyle = Form | Json_body

datatype OAuthEgressProfile = Standard | OpenAiCodex | AnthropicOAuth

record OAuthTargetConfig =
  upstream_transport :: UpstreamTransport
  egress_profile :: OAuthEgressProfile
  token_url :: string
  client_id :: string
  client_secret :: "string option"
  refresh_token :: string
  scopes :: "string list"
  token_request_style :: TokenRequestStyle
  authorization_header :: "string option"
  authorization_prefix :: "string option"
  oauth_extra_headers :: "(string \<times> string) list"
  account_id :: "string option"

definition header_name :: "OAuthTargetConfig \<Rightarrow> string" where
  "header_name c = unwrap_or (authorization_header c) ''authorization''"

definition bearer_prefix :: "OAuthTargetConfig \<Rightarrow> string" where
  "bearer_prefix c = unwrap_or (authorization_prefix c) ''Bearer ''"

definition cache_label :: "OAuthTargetConfig \<Rightarrow> string" where
  "cache_label c = unwrap_or (account_id c) ''__provider__''"

subsection \<open>Targets and the routing table\<close>

record RoutingTarget =
  provider_id :: string
  vendor :: "string option"
  model_id :: string
  api_base :: string
  api_key :: string
  api_protocol :: ProtocolEndpoint
  account_label :: "string option"
  api_key_override :: "string option"
  api_base_override :: "string option"
  weight :: rat
  oauth :: "OAuthTargetConfig option"

definition effective_api_key :: "RoutingTarget \<Rightarrow> string" where
  "effective_api_key t = unwrap_or (api_key_override t) (api_key t)"

definition effective_api_base :: "RoutingTarget \<Rightarrow> string" where
  "effective_api_base t = unwrap_or (api_base_override t) (api_base t)"

definition health_key :: "RoutingTarget \<Rightarrow> string" where
  "health_key t = provider_id t @ '':'' @ model_id t"

datatype RoutingStrategyName = Weighted | Priority | Cooldown | Latency

fun strategy_as_str :: "RoutingStrategyName \<Rightarrow> string" where
  "strategy_as_str Weighted = ''weighted''"
| "strategy_as_str Priority = ''priority''"
| "strategy_as_str Cooldown = ''cooldown''"
| "strategy_as_str Latency = ''latency''"

definition strategy_parse :: "string \<Rightarrow> RoutingStrategyName option" where
  "strategy_parse s =
     (if s = ''weighted'' then Some Weighted
      else if s = ''priority'' then Some Priority
      else if s = ''cooldown'' then Some Cooldown
      else if s = ''latency'' then Some Latency
      else None)"

interpretation strategy_name: canonical_enum strategy_as_str strategy_parse
proof
  fix x show "strategy_parse (strategy_as_str x) = Some x"
    by (cases x) (simp_all add: strategy_parse_def)
next
  fix s x show "strategy_parse s = Some x \<Longrightarrow> strategy_as_str x = s"
    by (auto simp: strategy_parse_def split: if_splits)
qed

record RouteEntry =
  re_targets :: "RoutingTarget list"
  re_strategy :: "RoutingStrategyName option"

definition RouteEntry_new :: "RoutingTarget list \<Rightarrow> RouteEntry" where
  "RouteEntry_new ts = \<lparr>re_targets = ts, re_strategy = None\<rparr>"

type_synonym RoutingTable = "string \<rightharpoonup> RouteEntry"

definition RoutingTable_new :: RoutingTable where
  "RoutingTable_new = Map.empty"

definition resolve :: "RoutingTable \<Rightarrow> string \<Rightarrow> RoutingTarget list option" where
  "resolve rt virtual_model = map_option re_targets (rt virtual_model)"

definition resolve_strategy :: "RoutingTable \<Rightarrow> string \<Rightarrow> RoutingStrategyName option" where
  "resolve_strategy rt virtual_model = Option.bind (rt virtual_model) re_strategy"

definition resolve_entry :: "RoutingTable \<Rightarrow> string \<Rightarrow> RouteEntry option" where
  "resolve_entry rt virtual_model = rt virtual_model"

definition table_insert :: "RoutingTable \<Rightarrow> string \<Rightarrow> RoutingTarget list \<Rightarrow> RoutingTable" where
  "table_insert rt virtual_model ts = rt(virtual_model \<mapsto> RouteEntry_new ts)"

definition insert_entry :: "RoutingTable \<Rightarrow> string \<Rightarrow> RouteEntry \<Rightarrow> RoutingTable" where
  "insert_entry rt virtual_model entry = rt(virtual_model \<mapsto> entry)"

subsection \<open>Ordering strategies\<close>

definition clamped_weight :: "RoutingTarget \<Rightarrow> rat" where
  "clamped_weight t = max (weight t) 0"

text \<open>
  The inner loop of the weighted shuffle: the index of the first target at which the running
  \<open>pick\<close> drops to zero or below, and 0 if there is none.
\<close>

fun pick_index :: "rat \<Rightarrow> nat \<Rightarrow> RoutingTarget list \<Rightarrow> nat" where
  "pick_index pick i [] = 0"
| "pick_index pick i (t # ts) =
     (let pick' = pick - clamped_weight t in if pick' \<le> 0 then i else pick_index pick' (Suc i) ts)"

definition remove_at :: "nat \<Rightarrow> 'a list \<Rightarrow> 'a list" where
  "remove_at i xs = take i xs @ drop (Suc i) xs"

lemma pick_index_less: "ts \<noteq> [] \<Longrightarrow> pick_index p i ts < i + length ts"
proof (induction p i ts rule: pick_index.induct)
  case (2 p i t ts)
  then show ?case by (cases ts) (auto simp: Let_def)
qed simp

lemma length_remove_at [simp]: "i < length xs \<Longrightarrow> length (remove_at i xs) = length xs - 1"
  by (simp add: remove_at_def)

lemma mset_remove_at: "i < length xs \<Longrightarrow> mset xs = add_mset (xs ! i) (mset (remove_at i xs))"
  by (subst id_take_nth_drop [of i xs]) (simp_all add: remove_at_def)

definition total_weight :: "RoutingTarget list \<Rightarrow> rat" where
  "total_weight ts = (\<Sum>t\<leftarrow>ts. clamped_weight t)"

function weighted_shuffle ::
    "(nat \<Rightarrow> rat) \<Rightarrow> nat \<Rightarrow> RoutingTarget list \<Rightarrow> RoutingTarget list rust" where
  "weighted_shuffle u n remaining =
     (if remaining = [] then Inr []
      else let total = total_weight remaining in
        if \<not> 0 < total then Inl Cannot_Sample_Empty_Range
        else let i = pick_index (u n * total) 0 remaining in
          bind_rust (weighted_shuffle u (Suc n) (remove_at i remaining))
            (\<lambda>rest. Inr (remaining ! i # rest)))"
  by pat_completeness auto
termination
  using pick_index_less [where i = 0]
  by (relation "measure (\<lambda>(u, n, ts). length ts)") (fastforce simp: Suc_leI)+

declare weighted_shuffle.simps [simp del]

definition WeightedStrategy_order ::
    "(nat \<Rightarrow> rat) \<Rightarrow> RoutingTarget list \<Rightarrow> RoutingTarget list rust" where
  "WeightedStrategy_order u ts =
     (if ts = [] then Inr []
      else if total_weight ts \<le> 0 then Inr ts
      else weighted_shuffle u 0 ts)"

definition PriorityStrategy_order :: "RoutingTarget list \<Rightarrow> RoutingTarget list rust" where
  "PriorityStrategy_order ts = Inr (sort_key (\<lambda>t. - weight t) ts)"

definition cooldown_key :: "HealthRegistry \<Rightarrow> instant \<Rightarrow> RoutingTarget \<Rightarrow> nat" where
  "cooldown_key r now t = (if is_healthy r now (health_key t) then 0 else 1)"

definition CooldownStrategy_order ::
    "HealthRegistry \<Rightarrow> instant \<Rightarrow> RoutingTarget list \<Rightarrow> RoutingTarget list rust" where
  "CooldownStrategy_order r now ts = Inr (sort_key (cooldown_key r now) ts)"

text \<open>The 128-bit sort key: the health bit shifted left by 64, or-ed with the masked latency.\<close>

definition latency_key :: "HealthRegistry \<Rightarrow> instant \<Rightarrow> RoutingTarget \<Rightarrow> nat" where
  "latency_key r now t =
     (let healthy = (if is_healthy r now (health_key t) then 0 else 1);
          lk = (case ewma_latency_ms r (health_key t) of
                  Some ms \<Rightarrow> and ms 0x0000FFFFFFFFFFFFFFFFFFFFFFFFFFFF
                | None \<Rightarrow> 0)
      in or (push_bit 64 healthy) lk)"

definition LatencyStrategy_order ::
    "HealthRegistry \<Rightarrow> instant \<Rightarrow> RoutingTarget list \<Rightarrow> RoutingTarget list rust" where
  "LatencyStrategy_order r now ts = Inr (sort_key (latency_key r now) ts)"

definition build_strategy :: "RoutingStrategyName \<Rightarrow> HealthRegistry \<Rightarrow> instant \<Rightarrow> (nat \<Rightarrow> rat) \<Rightarrow>
    (RoutingTarget list \<Rightarrow> RoutingTarget list rust) \<times> string" where
  "build_strategy nm r now u =
     (case nm of
        Weighted \<Rightarrow> (WeightedStrategy_order u, ''WeightedStrategy'')
      | Priority \<Rightarrow> (PriorityStrategy_order, ''PriorityStrategy'')
      | Cooldown \<Rightarrow> (CooldownStrategy_order r now, ''CooldownStrategy'')
      | Latency \<Rightarrow> (LatencyStrategy_order r now, ''LatencyStrategy''))"

subsection \<open>Retry delay\<close>

record RetryPolicy =
  max_retries :: nat
  base_delay :: duration
  max_delay :: duration

definition RetryPolicy_with_defaults :: RetryPolicy where
  "RetryPolicy_with_defaults = \<lparr>max_retries = 2, base_delay = from_secs 1, max_delay = from_secs 30\<rparr>"

text \<open>
  The bound on the doubling is written out: \<^verbatim>\<open>2u64.pow\<close> wraps from exponent 64 on, the factor is
  cut to 32 bits, and \<^verbatim>\<open>Duration * u32\<close> panics where its second counter (64 bits) overflows.
  \<open>jitter\<close> is the uniform draw from the unit interval; the result is in exact nanoseconds.
\<close>

definition delay_for :: "RetryPolicy \<Rightarrow> rat \<Rightarrow> nat \<Rightarrow> rat rust" where
  "delay_for p jitter retry_num =
     (let factor = (2 ^ retry_num mod 2 ^ 64) mod 2 ^ 32;
          delay = base_delay p * factor
      in if delay div nanos_per_sec \<ge> 2 ^ 64 then Inl Overflow_Scaling_Duration
         else let clamped = min delay (max_delay p)
              in Inr (of_nat clamped * (3 / 4) + jitter * (1 / 2) * of_nat clamped))"

subsection \<open>The default fallback policy\<close>

datatype FallbackDecision = TryNext | Retry | Fail

record DefaultFallbackPolicy =
  max_total_attempts :: nat
  deadline :: duration
  retry_policy :: RetryPolicy

definition DefaultFallbackPolicy_with_defaults :: DefaultFallbackPolicy where
  "DefaultFallbackPolicy_with_defaults =
     \<lparr>max_total_attempts = 10, deadline = from_secs 120, retry_policy = RetryPolicy_with_defaults\<rparr>"

fun decision_for_class :: "ErrorClass \<Rightarrow> FallbackDecision" where
  "decision_for_class ErrorClass.Transient = TryNext"
| "decision_for_class ErrorClass.RateLimited = TryNext"
| "decision_for_class ErrorClass.Auth = TryNext"
| "decision_for_class ErrorClass.BadRequest = Fail"
| "decision_for_class ErrorClass.LossyOrCapability = Fail"
| "decision_for_class ErrorClass.ModelNotFound = Fail"
| "decision_for_class ErrorClass.AuthMissing = Fail"
| "decision_for_class ErrorClass.AuthInvalid = Fail"
| "decision_for_class ErrorClass.AuthDisabled = Fail"
| "decision_for_class ErrorClass.ModelAccessDenied = Fail"
| "decision_for_class ErrorClass.UpstreamExhausted = Fail"
| "decision_for_class ErrorClass.DeadlineExceeded = TryNext"
| "decision_for_class ErrorClass.Overloaded = TryNext"

definition policy_classify ::
    "DefaultFallbackPolicy \<Rightarrow> Error \<Rightarrow> nat \<Rightarrow> nat \<Rightarrow> nat \<Rightarrow> FallbackDecision" where
  "policy_classify p e attempt max_attempts bytes_emitted =
     (if bytes_emitted > 0 then Fail
      else if attempt \<ge> min max_attempts (max_total_attempts p) then Fail
      else decision_for_class (ec_fallback_class (classify_error e)))"

subsection \<open>The contract of a strategy\<close>

text \<open>
  What the fallback loop relies on: an ordering that is returned at all is a permutation of the
  targets of the route.
\<close>

locale strategy =
  fixes order :: "'a list \<Rightarrow> 'a list rust"
  assumes order_perm: "order ts = Inr us \<Longrightarrow> mset us = mset ts"
begin

lemma order_set: "order ts = Inr us \<Longrightarrow> set us = set ts"
  by (metis mset_eq_setD order_perm)

lemma order_length: "order ts = Inr us \<Longrightarrow> length us = length ts"
  by (metis mset_eq_length order_perm)

end

lemma weighted_shuffle_perm: "weighted_shuffle u n ts = Inr us \<Longrightarrow> mset us = mset ts"
proof (induction u n ts arbitrary: us rule: weighted_shuffle.induct)
  case (1 u n ts)
  show ?case
  proof (cases "ts = []")
    case True
    with "1.prems" show ?thesis by (simp add: weighted_shuffle.simps)
  next
    case False
    let ?i = "pick_index (u n * total_weight ts) 0 ts"
    from False "1.prems" have pos: "0 < total_weight ts"
      by (auto simp: weighted_shuffle.simps [of u n ts] Let_def split: if_splits)
    with False "1.prems" obtain rest where
      rest: "weighted_shuffle u (Suc n) (remove_at ?i ts) = Inr rest" and us: "us = ts ! ?i # rest"
      by (auto simp: weighted_shuffle.simps [of u n ts] Let_def)
    from "1.IH" [OF False refl _ refl rest] pos have "mset rest = mset (remove_at ?i ts)" by simp
    moreover have "?i < length ts" using pick_index_less [OF False, of _ 0] by simp
    ultimately show ?thesis using us mset_remove_at by fastforce
  qed
qed

interpretation weighted: strategy "WeightedStrategy_order u" for u
  by unfold_locales
    (auto simp: WeightedStrategy_order_def dest: weighted_shuffle_perm split: if_splits)

interpretation priority: strategy PriorityStrategy_order
  by unfold_locales (auto simp: PriorityStrategy_order_def)

interpretation cooldown: strategy "CooldownStrategy_order r now" for r now
  by unfold_locales (auto simp: CooldownStrategy_order_def)

interpretation latency: strategy "LatencyStrategy_order r now" for r now
  by unfold_locales (auto simp: LatencyStrategy_order_def)

interpretation built: strategy "fst (build_strategy nm r now u)" for nm r now u
  by unfold_locales
    (auto simp: build_strategy_def split: RoutingStrategyName.splits
      intro: weighted.order_perm priority.order_perm cooldown.order_perm latency.order_perm)

subsection \<open>The weighted shuffle\<close>

lemma clamped_weight_nonneg [simp]: "0 \<le> clamped_weight t"
  by (simp add: clamped_weight_def)

lemma total_weight_Cons [simp]: "total_weight (t # ts) = clamped_weight t + total_weight ts"
  by (simp add: total_weight_def)

lemma total_weight_Nil [simp]: "total_weight [] = 0"
  by (simp add: total_weight_def)

lemma total_weight_nonneg: "0 \<le> total_weight ts"
  by (induction ts) (auto intro: add_nonneg_nonneg)

lemma total_weight_pos: "ts \<noteq> [] \<Longrightarrow> \<forall>t\<in>set ts. 0 < weight t \<Longrightarrow> 0 < total_weight ts"
proof (induction ts)
  case (Cons t ts)
  have "0 < clamped_weight t" using Cons.prems by (simp add: clamped_weight_def)
  then show ?case using total_weight_nonneg [of ts] by simp
qed simp

lemma set_remove_at: "set (remove_at i xs) \<subseteq> set xs"
  by (auto simp: remove_at_def dest: in_set_takeD in_set_dropD)

lemma weighted_shuffle_total:
  "\<forall>t\<in>set ts. 0 < weight t \<Longrightarrow> \<exists>us. weighted_shuffle u n ts = Inr us"
proof (induction u n ts rule: weighted_shuffle.induct)
  case (1 u n ts)
  show ?case
  proof (cases "ts = []")
    case True
    then show ?thesis by (simp add: weighted_shuffle.simps)
  next
    case False
    let ?i = "pick_index (u n * total_weight ts) 0 ts"
    have pos: "0 < total_weight ts" using False "1.prems" by (rule total_weight_pos)
    have "\<forall>t\<in>set (remove_at ?i ts). 0 < weight t"
      using "1.prems" by (auto dest: subsetD [OF set_remove_at])
    with "1.IH" [OF False refl _ refl] pos
    obtain rest where "weighted_shuffle u (Suc n) (remove_at ?i ts) = Inr rest" by auto
    with False pos show ?thesis by (simp add: weighted_shuffle.simps [of u n ts] Let_def)
  qed
qed

lemma pick_index_positive:
  "0 < p \<Longrightarrow> p \<le> total_weight ts \<Longrightarrow>
     k \<le> pick_index p k ts \<and> pick_index p k ts < k + length ts \<and>
     0 < clamped_weight (ts ! (pick_index p k ts - k))"
proof (induction p k ts rule: pick_index.induct)
  case (2 p k t ts)
  show ?case
  proof (cases "p - clamped_weight t \<le> 0")
    case True
    with "2.prems" show ?thesis by (simp add: Let_def)
  next
    case False
    with "2.prems" "2.IH" [OF refl False]
    have IH: "Suc k \<le> pick_index (p - clamped_weight t) (Suc k) ts"
      "pick_index (p - clamped_weight t) (Suc k) ts < Suc k + length ts"
      "0 < clamped_weight (ts ! (pick_index (p - clamped_weight t) (Suc k) ts - Suc k))"
      by simp_all
    then obtain j where "pick_index (p - clamped_weight t) (Suc k) ts = Suc k + j"
      by (metis le_iff_add)
    with IH False show ?thesis by (simp add: Let_def)
  qed
qed simp

lemma in_remove_at:
  assumes "x \<in> set xs" and "i < length xs" and "xs ! i \<noteq> x"
  shows "x \<in> set (remove_at i xs)"
proof -
  have "x \<in># mset xs" using assms(1) by simp
  then have "x \<in># add_mset (xs ! i) (mset (remove_at i xs))"
    using mset_remove_at [OF assms(2)] by simp
  with assms(3) show ?thesis by auto
qed

lemma weighted_shuffle_panics:
  assumes u: "\<forall>n. 0 < u n \<and> u n < 1"
  shows "t \<in> set ts \<Longrightarrow> weight t \<le> 0 \<Longrightarrow>
    weighted_shuffle u n ts = Inl Cannot_Sample_Empty_Range"
  using u
proof (induction u n ts rule: weighted_shuffle.induct)
  case (1 u n ts)
  have ne: "ts \<noteq> []" using "1.prems" by auto
  show ?case
  proof (cases "0 < total_weight ts")
    case False
    with ne show ?thesis by (simp add: weighted_shuffle.simps [of u n ts])
  next
    case True
    let ?p = "u n * total_weight ts"
    let ?i = "pick_index ?p 0 ts"
    have "0 < ?p" "?p \<le> total_weight ts"
      using "1.prems"(3) True by (auto intro: mult_left_le_one_le less_imp_le)
    from pick_index_positive [OF this, of 0]
    have i: "?i < length ts" "0 < clamped_weight (ts ! ?i)" by simp_all
    then have "ts ! ?i \<noteq> t" using "1.prems"(2) by (auto simp: clamped_weight_def)
    with "1.prems"(1) i(1) have "t \<in> set (remove_at ?i ts)" by (intro in_remove_at)
    with "1.IH" [OF ne refl _ refl] True "1.prems"
    have "weighted_shuffle u (Suc n) (remove_at ?i ts) = Inl Cannot_Sample_Empty_Range" by simp
    with ne True show ?thesis by (simp add: weighted_shuffle.simps [of u n ts] Let_def)
  qed
qed

text \<open>
  C35.  Every strategy the gateway can build returns a permutation of the route's targets: no target
  is lost, invented or tried twice.
\<close>

theorem strategies_permute:
  assumes "fst (build_strategy nm r now u) ts = Inr us"
  shows "mset us = mset ts"
  using assms by (rule built.order_perm)

definition demo_target :: "string \<Rightarrow> rat \<Rightarrow> RoutingTarget" where
  "demo_target p w = \<lparr>provider_id = p, vendor = None, model_id = ''m'', api_base = '''', api_key = '''',
     api_protocol = default_endpoint OpenAiCompatible, account_label = None,
     api_key_override = None, api_base_override = None, weight = w, oauth = None\<rparr>"

lemma demo_target_simps [simp]: "weight (demo_target p w) = w" "provider_id (demo_target p w) = p"
  "model_id (demo_target p w) = ''m''" "account_label (demo_target p w) = None"
  by (simp_all add: demo_target_def)

theorem strategies_permute_witness:
  "\<forall>r now u. \<exists>us. fst (build_strategy Priority r now u) [demo_target ''a'' 1, demo_target ''b'' 2] = Inr us \<and>
     mset us = {#demo_target ''a'' 1, demo_target ''b'' 2#}"
proof (intro allI)
  fix r now u
  let ?ts = "[demo_target ''a'' 1, demo_target ''b'' 2]"
  have "fst (build_strategy Priority r now u) ?ts = Inr (sort_key (\<lambda>t. - weight t) ?ts)"
    by (simp add: build_strategy_def PriorityStrategy_order_def)
  with strategies_permute [OF this] show "\<exists>us. fst (build_strategy Priority r now u) ?ts = Inr us \<and>
    mset us = {#demo_target ''a'' 1, demo_target ''b'' 2#}" by simp
qed

text \<open>
  With positive weights the weighted shuffle always returns, whatever the random draws.
\<close>

theorem weighted_order_returns:
  assumes "\<forall>t\<in>set ts. 0 < weight t"
  shows "\<exists>us. WeightedStrategy_order u ts = Inr us \<and> mset us = mset ts"
proof -
  have "\<exists>us. WeightedStrategy_order u ts = Inr us"
    using weighted_shuffle_total [OF assms] by (auto simp: WeightedStrategy_order_def)
  with weighted.order_perm show ?thesis by blast
qed

theorem weighted_order_returns_witness:
  "\<exists>us. WeightedStrategy_order (\<lambda>n. 1 / 2) [demo_target ''a'' 1, demo_target ''b'' 2] = Inr us \<and>
     mset us = {#demo_target ''a'' 1, demo_target ''b'' 2#}"
  using weighted_order_returns [of "[demo_target ''a'' 1, demo_target ''b'' 2]" "\<lambda>n. 1 / 2"] by simp

text \<open>
  A zero weight aborts the gateway: if some target of a route has a positive weight and
  another a weight of zero or less, then for all non-zero random draws the weighted shuffle (the
  default strategy) runs into sampling from the empty range \<^verbatim>\<open>0.0..0.0\<close> and panics.
\<close>

theorem weighted_order_zero_weight_panics:
  assumes "\<forall>n. 0 < u n \<and> u n < 1" and "t \<in> set ts" and "weight t \<le> 0"
    and "t' \<in> set ts" and "0 < weight t'"
  shows "WeightedStrategy_order u ts = Inl Cannot_Sample_Empty_Range"
proof -
  have "0 < total_weight ts"
    using assms(4,5)
  proof (induction ts)
    case (Cons x xs)
    then show ?case
      using total_weight_nonneg [of xs]
      by (auto simp: clamped_weight_def add_pos_nonneg intro: add_nonneg_pos)
  qed simp
  with weighted_shuffle_panics [OF assms(1-3)] assms(2) show ?thesis
    by (auto simp: WeightedStrategy_order_def)
qed

theorem weighted_order_zero_weight_panics_witness:
  "WeightedStrategy_order (\<lambda>n. 1 / 2) [demo_target ''a'' 1, demo_target ''b'' 0]
     = Inl Cannot_Sample_Empty_Range"
  by (rule weighted_order_zero_weight_panics [of _ "demo_target ''b'' 0" _ "demo_target ''a'' 1"])
    simp_all

subsection \<open>The deterministic strategies\<close>

text \<open>
  The priority strategy tries targets by decreasing weight, and keeps the configured order
  among equal weights.
\<close>

theorem priority_order_sorted_stable:
  "\<exists>us. PriorityStrategy_order ts = Inr us \<and> sorted (map (\<lambda>t. - weight t) us) \<and>
     (\<forall>w. filter (\<lambda>t. weight t = w) us = filter (\<lambda>t. weight t = w) ts)"
  using sort_key_stable [of "\<lambda>t. - weight t" "- w" ts for w]
  by (simp add: PriorityStrategy_order_def)

text \<open>
  The cooldown strategy puts the healthy targets first and the unhealthy ones last, and
  keeps the configured order inside each group.
\<close>

theorem cooldown_order_healthy_first:
  "CooldownStrategy_order r now ts =
     Inr (filter (\<lambda>t. is_healthy r now (health_key t)) ts @
          filter (\<lambda>t. \<not> is_healthy r now (health_key t)) ts)"
proof -
  have "cooldown_key r now = (\<lambda>t. if is_healthy r now (health_key t) then 0 else 1)"
    by (simp add: cooldown_key_def fun_eq_iff)
  then show ?thesis by (simp add: CooldownStrategy_order_def sort_key_two_classes)
qed

definition observed_latency :: "HealthRegistry \<Rightarrow> RoutingTarget \<Rightarrow> nat" where
  "observed_latency r t = unwrap_or (ewma_latency_ms r (health_key t)) 0"

lemma ewma_latency_less: "ewma_latency_ms r k = Some ms \<Longrightarrow> ms < 2 ^ 64"
  by (auto simp: ewma_latency_ms_def f64_as_u64_def)

lemma and_low_mask: "ms < 2 ^ 64 \<Longrightarrow> and ms 0x0000FFFFFFFFFFFFFFFFFFFFFFFFFFFF = (ms::nat)"
proof -
  assume ms: "ms < 2 ^ 64"
  have m: "(0x0000FFFFFFFFFFFFFFFFFFFFFFFFFFFF :: nat) = mask 112" by (simp add: mask_eq_exp_minus_1)
  have "take_bit 112 ms = ms" using ms by (intro take_bit_nat_eq_self) (simp add: less_trans)
  then show ?thesis unfolding m by (simp add: take_bit_eq_mask)
qed

lemma or_high_bit:
  assumes "ms < 2 ^ 64"
  shows "or (push_bit 64 b) ms = b * 2 ^ 64 + (ms::nat)"
proof -
  have "and (push_bit 64 b) (take_bit 64 ms) = 0" by (simp add: bit_eq_iff bit_simps)
  then have "and (push_bit 64 b) ms = 0" using assms by (simp add: take_bit_nat_eq_self)
  then show ?thesis
    using disjunctive_add_eq_or [of "push_bit 64 b" ms] by (simp add: push_bit_eq_mult)
qed

lemma latency_key_eq:
  "latency_key r now t =
     (if is_healthy r now (health_key t) then 0 else 2 ^ 64) + observed_latency r t"
proof (cases "ewma_latency_ms r (health_key t)")
  case None
  then show ?thesis by (simp add: latency_key_def observed_latency_def push_bit_eq_mult)
next
  case (Some ms)
  then have "ms < 2 ^ 64" by (rule ewma_latency_less)
  with Some or_high_bit [of ms 1] show ?thesis
    by (simp add: latency_key_def observed_latency_def and_low_mask)
qed

text \<open>
  The latency strategy never prefers an unhealthy target to a healthy one, and among targets
  of equal health it tries the smaller average first; a target without samples counts as 0.
\<close>

theorem latency_order_sound:
  "\<exists>us. LatencyStrategy_order r now ts = Inr us \<and> mset us = mset ts \<and>
     sorted_wrt (\<lambda>a b. let ha = is_healthy r now (health_key a); hb = is_healthy r now (health_key b)
                  in (ha \<and> \<not> hb) \<or> (ha = hb \<and> observed_latency r a \<le> observed_latency r b)) us"
proof -
  have lat: "observed_latency r t < 2 ^ 64" for t
    by (auto simp: observed_latency_def unwrap_or_def dest: ewma_latency_less split: option.split)
  have "sorted_wrt (\<lambda>a b. latency_key r now a \<le> latency_key r now b) (sort_key (latency_key r now) ts)"
    using sorted_sort_key [of "latency_key r now" ts] by (simp add: sorted_map)
  then have "sorted_wrt (\<lambda>a b. let ha = is_healthy r now (health_key a); hb = is_healthy r now (health_key b)
                  in (ha \<and> \<not> hb) \<or> (ha = hb \<and> observed_latency r a \<le> observed_latency r b))
              (sort_key (latency_key r now) ts)"
  proof (rule sorted_wrt_mono_rel [rotated])
    fix a b assume "latency_key r now a \<le> latency_key r now b"
    then show "let ha = is_healthy r now (health_key a); hb = is_healthy r now (health_key b)
                  in (ha \<and> \<not> hb) \<or> (ha = hb \<and> observed_latency r a \<le> observed_latency r b)"
      using lat [of a] lat [of b] by (auto simp: latency_key_eq Let_def split: if_splits)
  qed
  then show ?thesis by (simp add: LatencyStrategy_order_def)
qed

subsection \<open>Health keys, retry delay and policy\<close>

text \<open>
  Two targets share a circuit breaker only if they are the same provider and model, as long
  as provider identifiers contain no colon (model identifiers may).
\<close>

theorem health_key_separates:
  assumes "CHR '':'' \<notin> set (provider_id a)" and "CHR '':'' \<notin> set (provider_id b)"
    and "health_key a = health_key b"
  shows "provider_id a = provider_id b \<and> model_id a = model_id b"
proof -
  have "split_once (CHR '':'') (health_key a) = Some (provider_id a, model_id a)"
    "split_once (CHR '':'') (health_key b) = Some (provider_id b, model_id b)"
    using assms(1,2) by (simp_all add: health_key_def)
  with assms(3) show ?thesis by simp
qed

theorem health_key_separates_witness:
  "health_key (demo_target ''a'' 1) = health_key (demo_target ''a'' 2) \<and>
   provider_id (demo_target ''a'' 1) = provider_id (demo_target ''a'' 2)"
proof -
  have k: "health_key (demo_target ''a'' 1) = health_key (demo_target ''a'' 2)"
    by (simp add: health_key_def)
  moreover have "CHR '':'' \<notin> set (provider_id (demo_target ''a'' 1))"
    "CHR '':'' \<notin> set (provider_id (demo_target ''a'' 2))" by simp_all
  ultimately show ?thesis using health_key_separates by blast
qed

text \<open>
  With the default policy the delay before every attempt of a request (at most ten) is
  computed without a panic and stays within a quarter of the doubled base delay, capped at 30
  seconds.
\<close>

theorem retry_delay_bounds:
  assumes "0 \<le> jitter" and "jitter < 1" and "n \<le> 10"
  shows "\<exists>d. delay_for RetryPolicy_with_defaults jitter n = Inr d \<and>
     3 / 4 * of_nat (min (from_secs (2 ^ n)) (from_secs 30)) \<le> d \<and>
     d < 5 / 4 * of_nat (min (from_secs (2 ^ n)) (from_secs 30))"
proof -
  let ?c = "min (from_secs (2 ^ n)) (from_secs 30)"
  have n: "(2::nat) ^ n \<le> 2 ^ 10" using assms(3) by (intro power_increasing) auto
  then have f: "(2 ^ n mod 2 ^ 64) mod 2 ^ 32 = (2::nat) ^ n" by simp
  have "from_secs (2 ^ n) div nanos_per_sec < 2 ^ 64" using n by (simp add: from_secs_def nanos_per_sec_def)
  then have d: "delay_for RetryPolicy_with_defaults jitter n =
      Inr (of_nat ?c * (3 / 4) + jitter * (1 / 2) * of_nat ?c)"
    using f by (simp add: delay_for_def RetryPolicy_with_defaults_def Let_def from_secs_def mult.commute)
  have c: "0 < (of_nat ?c :: rat)" by (simp add: from_secs_def nanos_per_sec_def)
  have "0 \<le> jitter * (1 / 2) * of_nat ?c" using assms(1) by simp
  moreover have "jitter * (1 / 2) * of_nat ?c < 1 / 2 * of_nat ?c"
    using mult_strict_right_mono [OF assms(2) c] by simp
  ultimately show ?thesis using d by simp
qed

theorem retry_delay_bounds_witness:
  "\<exists>d. delay_for RetryPolicy_with_defaults (1 / 2) 3 = Inr d \<and>
     3 / 4 * of_nat (from_secs 8) \<le> d \<and> d < 5 / 4 * of_nat (from_secs 8)"
  using retry_delay_bounds [of "1 / 2" 3] by (simp add: from_secs_def nanos_per_sec_def)

lemma decision_never_retry [simp]: "decision_for_class c \<noteq> Retry"
  by (cases c) simp_all

text \<open>
  The default policy never retries the same target; it fails once any byte has been sent to
  the client or the attempt budget is used up, and otherwise the class of the error decides.
\<close>

theorem policy_decisions:
  "policy_classify p e attempt max_attempts bytes \<noteq> Retry \<and>
   (policy_classify p e attempt max_attempts bytes = TryNext \<longleftrightarrow>
      bytes = 0 \<and> attempt < max_attempts \<and> attempt < max_total_attempts p \<and>
      ec_fallback_class (classify_error e) \<in>
        {ErrorClass.Transient, ErrorClass.RateLimited, ErrorClass.Auth})"
proof -
  have "ec_fallback_class (classify_error e) \<in> {ErrorClass.Transient, ErrorClass.RateLimited,
      ErrorClass.Auth, ErrorClass.BadRequest, ErrorClass.LossyOrCapability}"
    by (simp add: classify_error_def Let_def)
  then show ?thesis by (auto simp: policy_classify_def decision_never_retry)
qed

end
