(* ===== verification/Ir_Types.thy ===== *)
theory Ir_Types
  imports Error_Class
begin

section \<open>The canonical intermediate representation\<close>

text \<open>
  The model of \<^verbatim>\<open>crates/core/src/ir/mod.rs\<close>: the request, response, message, content and stream
  types every codec translates to and from, with their operations: parsing of \<^verbatim>\<open>data:\<close> URLs, the
  kinds of tool, the mapping between reasoning effort and token budget, and the accumulator that
  records what a stream delivered.

  A Rust enum is a datatype with the source's constructors (constructors that HOL or another type
  already uses carry a prefix), a struct is a record.  \<^verbatim>\<open>f32\<close> parameters are rationals; character
  counts of one stream are natural numbers.
\<close>

subsection \<open>Data types\<close>

datatype ThinkingEffort = EffortNone | EffortMinimal | EffortLow | EffortMedium | EffortHigh
  | EffortXHigh | EffortMax

datatype Verbosity = VerbosityLow | VerbosityMedium | VerbosityHigh

datatype ThinkingDisplay = Summarized | Omitted

datatype Role = System | User | Assistant | Tool_role

datatype PromptCacheBreakpointMode = Explicit

record PromptCacheBreakpoint =
  pcb_mode :: PromptCacheBreakpointMode

datatype ToolCaller = Direct | Program_caller string

datatype MediaSource = Inline string | Url string | FileId string

datatype AnnotationKind = UrlCitation | FileCitation

record Annotation =
  ann_kind :: AnnotationKind
  ann_start_index :: "nat option"
  ann_end_index :: "nat option"
  ann_title :: "string option"
  ann_url :: "string option"

text \<open>
  The arguments of each content constructor are the fields of the variant in the order of the
  source.
\<close>

datatype Content =
    Text string "Annotation list option" "PromptCacheBreakpoint option"
  | Reasoning string "string option" "string option" "string option"
  | ToolCall string string json "string option" "ToolCaller option" "string option"
  | ToolResult string string string "string option" "ToolCaller option" "string option"
  | Program string string string string
  | ProgramOutput string string string string
  | Refusal string "string option"
  | Media MediaSource string json_object "PromptCacheBreakpoint option"

record Message =
  msg_role :: Role
  msg_content :: "Content list"

record Tool =
  tool_name :: string
  tool_description :: "string option"
  tool_parameters :: "json option"
  tool_required :: bool
  tool_type :: "string option"
  tool_config :: "json option"

record ThinkingConfig =
  tc_effort :: "ThinkingEffort option"
  tc_budget_tokens :: "nat option"
  tc_display :: "ThinkingDisplay option"
  tc_include_thoughts :: "bool option"
  tc_summary :: "string option"
  tc_mode :: "string option"
  tc_context :: "json option"

record GenerationParams =
  max_tokens :: "nat option"
  temperature :: "rat option"
  top_p :: "rat option"
  top_k :: "nat option"
  stop_seqs :: "string list"
  frequency_penalty :: "rat option"
  presence_penalty :: "rat option"
  seed :: "int option"
  thinking :: "ThinkingConfig option"
  verbosity :: "Verbosity option"

datatype ResponseFormat = JsonSchema string json "bool option" | JsonObject | Text_format

record IrRequest =
  ir_model :: string
  ir_system :: "string option"
  ir_messages :: "Message list"
  ir_tools :: "Tool list"
  ir_params :: GenerationParams
  ir_response_format :: "ResponseFormat option"
  ir_stream :: bool
  ir_ingress_protocol :: ProtocolEndpoint
  ir_metadata :: "(string \<rightharpoonup> string) option"
  ir_extensions :: "string \<rightharpoonup> json"

record Usage =
  prompt_tokens :: nat
  completion_tokens :: nat
  reasoning_tokens :: "nat option"
  cache_read_tokens :: "nat option"
  cache_write_tokens :: "nat option"
  total_tokens :: nat

definition Usage_default :: Usage where
  "Usage_default = \<lparr>prompt_tokens = 0, completion_tokens = 0, reasoning_tokens = None,
     cache_read_tokens = None, cache_write_tokens = None, total_tokens = 0\<rparr>"

datatype FinishReason = Stop | Length | ContentFilter | ToolCalls | Other_reason string

record StopDetails =
  stop_reason :: string
  stop_sequence :: "string option"
  sd_kind :: "string option"
  sd_category :: "string option"
  sd_explanation :: "string option"

record IrResponse =
  resp_content :: "Content list"
  resp_usage :: "Usage option"
  resp_finish_reason :: "FinishReason option"
  resp_response_id :: "string option"
  resp_stop_details :: "StopDetails option"
  resp_extensions :: "string \<rightharpoonup> json"

datatype StreamPart =
    TextDelta string
  | ReasoningDelta string "string option" "string option"
  | ToolCallDelta string "string option" string "string option" "string option" "ToolCaller option"
  | ProgramDelta string string string string
  | ProgramOutputDelta string string string string
  | Usage_part Usage
  | ResponseStarted string
  | Finish FinishReason
  | ResponseCompleted string string "Usage option" json_object
  | Error_part string ErrorClass "string option"

record RawEnvelope =
  env_method :: string
  env_path :: string
  env_headers :: "string \<rightharpoonup> string"
  env_body :: "string option"
  env_original_body_size :: nat
  env_timestamp :: int

subsection \<open>Media sources\<close>

definition from_data_url :: "string \<Rightarrow> string \<Rightarrow> MediaSource \<times> string" where
  "from_data_url url fallback_mime =
     (case strip_prefix ''data:'' url of
        Some rest \<Rightarrow>
          (case split_once (CHR '','') rest of
             Some (header, dat) \<Rightarrow>
               let mime =
                 (case split_once (CHR '';'') header of
                    Some (mime_part, _) \<Rightarrow> if mime_part = [] then fallback_mime else mime_part
                  | None \<Rightarrow> if header = [] then fallback_mime else header)
               in (Inline dat, mime)
           | None \<Rightarrow> (Url url, fallback_mime))
      | None \<Rightarrow> (Url url, fallback_mime))"

subsection \<open>Kinds of tool\<close>

definition is_function :: "Tool \<Rightarrow> bool" where
  "is_function t = (case tool_type t of None \<Rightarrow> True | Some ty \<Rightarrow> ty = ''function'')"

definition is_custom :: "Tool \<Rightarrow> bool" where
  "is_custom t = (tool_type t = Some ''custom'')"

definition is_hosted :: "Tool \<Rightarrow> bool" where
  "is_hosted t = (\<not> is_function t \<and> \<not> is_custom t)"

subsection \<open>Reasoning effort and token budget\<close>

fun effort_to_budget :: "ThinkingEffort \<Rightarrow> nat" where
  "effort_to_budget EffortNone = 0"
| "effort_to_budget EffortMinimal = 1024"
| "effort_to_budget EffortLow = 4096"
| "effort_to_budget EffortMedium = 10000"
| "effort_to_budget EffortHigh = 32000"
| "effort_to_budget EffortXHigh = 48000"
| "effort_to_budget EffortMax = 64000"

definition budget_to_effort :: "nat \<Rightarrow> ThinkingEffort" where
  "budget_to_effort budget =
     (if budget = 0 then EffortNone
      else if budget \<le> 2047 then EffortMinimal
      else if budget \<le> 6143 then EffortLow
      else if budget \<le> 16383 then EffortMedium
      else if budget \<le> 39999 then EffortHigh
      else if budget \<le> 55999 then EffortXHigh
      else EffortMax)"

subsection \<open>The usage accumulator of a stream\<close>

datatype TruncationReason = Idle | Total | UpstreamError | ClientDisconnected

fun truncation_as_str :: "TruncationReason \<Rightarrow> string" where
  "truncation_as_str Idle = ''idle''"
| "truncation_as_str Total = ''total''"
| "truncation_as_str UpstreamError = ''upstream_error''"
| "truncation_as_str ClientDisconnected = ''client_disconnect''"

record UpstreamStreamError =
  use_message :: string
  use_code :: "string option"
  use_class :: ErrorClass

record UsageAccumulator =
  chars_received :: nat
  control_chars :: nat
  completed :: bool
  truncated :: "TruncationReason option"
  upstream_error :: "UpstreamStreamError option"
  upstream_terminal :: bool

definition UsageAccumulator_new :: UsageAccumulator where
  "UsageAccumulator_new = \<lparr>chars_received = 0, control_chars = 0, completed = False,
     truncated = None, upstream_error = None, upstream_terminal = False\<rparr>"

definition record_chunk :: "UsageAccumulator \<Rightarrow> string \<Rightarrow> UsageAccumulator" where
  "record_chunk a text = a\<lparr>chars_received := chars_received a + length text\<rparr>"

definition record_control :: "UsageAccumulator \<Rightarrow> string \<Rightarrow> UsageAccumulator" where
  "record_control a text = a\<lparr>control_chars := control_chars a + length text\<rparr>"

definition mark_completed :: "UsageAccumulator \<Rightarrow> UsageAccumulator" where
  "mark_completed a = a\<lparr>completed := True, truncated := None\<rparr>"

definition mark_truncated :: "UsageAccumulator \<Rightarrow> TruncationReason \<Rightarrow> UsageAccumulator" where
  "mark_truncated a reason = a\<lparr>completed := False, truncated := Some reason\<rparr>"

definition set_upstream_error ::
    "UsageAccumulator \<Rightarrow> string \<Rightarrow> string option \<Rightarrow> UsageAccumulator" where
  "set_upstream_error a message code =
     (if upstream_error a = None then
        a\<lparr>upstream_error := Some \<lparr>use_message = message, use_code = code,
             use_class = classify_upstream_error None code\<rparr>\<rparr>
      else a)"

definition set_upstream_terminal :: "UsageAccumulator \<Rightarrow> UsageAccumulator" where
  "set_upstream_terminal a = a\<lparr>upstream_terminal := True\<rparr>"

definition estimate_usage :: "UsageAccumulator \<Rightarrow> Usage" where
  "estimate_usage a =
     (let n = max (chars_received a div 4) 1 + max (control_chars a div 2) 0
      in Usage_default\<lparr>completion_tokens := n, total_tokens := n\<rparr>)"

text \<open>The accumulator as a state machine: one step per method.\<close>

inductive acc_step :: "UsageAccumulator \<Rightarrow> UsageAccumulator \<Rightarrow> bool" where
  chunk: "acc_step a (record_chunk a text)"
| control: "acc_step a (record_control a text)"
| complete: "acc_step a (mark_completed a)"
| truncate: "acc_step a (mark_truncated a reason)"
| error: "acc_step a (set_upstream_error a message code)"
| terminal: "acc_step a (set_upstream_terminal a)"

inductive acc_reachable :: "UsageAccumulator \<Rightarrow> UsageAccumulator \<Rightarrow> bool" where
  refl: "acc_reachable a a"
| step: "acc_reachable a b \<Longrightarrow> acc_step b c \<Longrightarrow> acc_reachable a c"

lemmas acc_defs = record_chunk_def record_control_def mark_completed_def mark_truncated_def
  set_upstream_error_def set_upstream_terminal_def

definition acc_le :: "UsageAccumulator \<Rightarrow> UsageAccumulator \<Rightarrow> bool" where
  "acc_le a b \<longleftrightarrow> chars_received a \<le> chars_received b \<and> control_chars a \<le> control_chars b \<and>
     (upstream_terminal a \<longrightarrow> upstream_terminal b) \<and>
     (upstream_error a \<noteq> None \<longrightarrow> upstream_error b = upstream_error a)"

lemma acc_step_le: "acc_step a b \<Longrightarrow> acc_le a b"
  by (induction rule: acc_step.induct) (auto simp: acc_defs acc_le_def)

lemma acc_reachable_le: "acc_reachable a b \<Longrightarrow> acc_le a b"
proof (induction rule: acc_reachable.induct)
  case (step a b c)
  with acc_step_le [OF step.hyps(2)] show ?case by (auto simp: acc_le_def)
qed (simp add: acc_le_def)

lemma acc_step_exclusive:
  "acc_step a b \<Longrightarrow> \<not> (completed a \<and> truncated a \<noteq> None) \<Longrightarrow>
     \<not> (completed b \<and> truncated b \<noteq> None)"
  by (induction rule: acc_step.induct) (auto simp: acc_defs)

subsection \<open>Properties\<close>

text \<open>
  Whatever sequence of operations a stream runs through, its accumulator is never both
  completed and truncated, its counts only grow, a terminal signal stays set and the first
  upstream error is kept.
\<close>

theorem accumulator_history:
  assumes "acc_reachable a b" and "\<not> (completed a \<and> truncated a \<noteq> None)"
  shows "\<not> (completed b \<and> truncated b \<noteq> None) \<and> acc_le a b \<and>
     total_tokens (estimate_usage a) \<le> total_tokens (estimate_usage b)"
proof -
  have "\<not> (completed b \<and> truncated b \<noteq> None)"
    using assms by (induction rule: acc_reachable.induct) (auto dest: acc_step_exclusive)
  moreover have le: "acc_le a b" using assms(1) by (rule acc_reachable_le)
  moreover have "total_tokens (estimate_usage a) \<le> total_tokens (estimate_usage b)"
    using le by (auto simp: acc_le_def estimate_usage_def Usage_default_def Let_def
        intro!: add_mono max.mono div_le_mono)
  ultimately show ?thesis by blast
qed

theorem accumulator_history_witness:
  "acc_reachable UsageAccumulator_new (mark_truncated (mark_completed UsageAccumulator_new) Idle) \<and>
   acc_le UsageAccumulator_new (mark_truncated (mark_completed UsageAccumulator_new) Idle)"
proof -
  have r: "acc_reachable UsageAccumulator_new
      (mark_truncated (mark_completed UsageAccumulator_new) Idle)"
    by (rule acc_reachable.step [OF acc_reachable.step [OF acc_reachable.refl acc_step.complete]
          acc_step.truncate])
  moreover have "\<not> (completed UsageAccumulator_new \<and> truncated UsageAccumulator_new \<noteq> None)"
    by (simp add: UsageAccumulator_new_def)
  ultimately show ?thesis using accumulator_history by blast
qed

text \<open>
  Effort and budget: converting an effort to its budget and back is the identity, and a
  larger budget never maps to a smaller effort.
\<close>

theorem effort_budget_roundtrip:
  "budget_to_effort (effort_to_budget e) = e \<and>
   (b \<le> b' \<longrightarrow> effort_to_budget (budget_to_effort b) \<le> effort_to_budget (budget_to_effort b'))"
  by (cases e) (auto simp: budget_to_effort_def)

theorem effort_budget_roundtrip_witness:
  "(5000::nat) \<le> 20000 \<and>
   effort_to_budget (budget_to_effort 5000) \<le> effort_to_budget (budget_to_effort 20000)"
  using effort_budget_roundtrip [of EffortLow 5000 20000] by simp

text \<open>
  \<open>budget_to_effort\<close> does not pick the nearest level: 2048 tokens are mapped to the level with
  budget 4096, although the level with budget 1024 is closer.
\<close>

theorem budget_to_effort_not_nearest:
  "budget_to_effort 2048 = EffortLow \<and>
   \<bar>int (effort_to_budget EffortMinimal) - 2048\<bar> < \<bar>int (effort_to_budget EffortLow) - 2048\<bar>"
  by (simp add: budget_to_effort_def)

text \<open>
  A base64 \<^verbatim>\<open>data:\<close> URL with a media type is taken apart into exactly its payload and media
  type; a URL with another scheme is kept as it is, with the fallback type.
\<close>

theorem data_url_roundtrip:
  assumes "mime \<noteq> []" and "CHR '','' \<notin> set mime" and "CHR '';'' \<notin> set mime"
    and "\<not> prefix ''data:'' url"
  shows "from_data_url (''data:'' @ mime @ '';base64,'' @ payload) fb = (Inline payload, mime) \<and>
     from_data_url url fb = (Url url, fb)"
proof -
  have "split_once (CHR '','') (mime @ '';base64,'' @ payload) = Some (mime @ '';base64'', payload)"
    using assms(2) split_once_append [of "CHR '',''" "mime @ '';base64''" payload] by simp
  moreover have "split_once (CHR '';'') (mime @ '';base64'') = Some (mime, ''base64'')"
    using assms(3) by simp
  ultimately show ?thesis
    using assms by (simp add: from_data_url_def strip_prefix_def)
qed

theorem data_url_roundtrip_witness:
  "from_data_url ''data:image/png;base64,AAAA'' ''x'' = (Inline ''AAAA'', ''image/png'') \<and>
   from_data_url ''https://h/i.png'' ''x'' = (Url ''https://h/i.png'', ''x'')"
  using data_url_roundtrip [of "''image/png''" "''https://h/i.png''" "''AAAA''" "''x''"] by simp

end
