(* ===== verification/App_Error.thy ===== *)
theory App_Error
  imports Routing Ir_Types
begin

section \<open>The HTTP error of the gateway and the pipeline events\<close>

text \<open>
  \<^verbatim>\<open>AppError\<close> of \<^verbatim>\<open>crates/server/src/ingress/mod.rs\<close> with its response, and the event payloads of
  \<^verbatim>\<open>crates/core/src/telemetry/mod.rs\<close>.  Whether a string is a legal header name or value is decided
  by the HTTP library: the two tests are arguments of \<open>into_response\<close>.
\<close>

record AppError =
  ae_status :: nat
  ae_message :: string
  ae_error_class :: ErrorClass
  ae_protocol_suite :: "ProtocolSuite option"
  ae_retry_after_header :: "string option"
  ae_upstream_status :: "nat option"
  ae_upstream_error_code :: "string option"
  ae_rate_limit_headers :: "(string \<times> string) list"

definition AppError_new :: "nat \<Rightarrow> string \<Rightarrow> AppError" where
  "AppError_new st msg = \<lparr>ae_status = st, ae_message = msg, ae_error_class = ErrorClass.Transient,
     ae_protocol_suite = None, ae_retry_after_header = None, ae_upstream_status = None,
     ae_upstream_error_code = None, ae_rate_limit_headers = []\<rparr>"

definition with_class :: "AppError \<Rightarrow> ErrorClass \<Rightarrow> AppError" where
  "with_class e c = e\<lparr>ae_error_class := c\<rparr>"

definition with_protocol_suite :: "AppError \<Rightarrow> ProtocolSuite \<Rightarrow> AppError" where
  "with_protocol_suite e s = e\<lparr>ae_protocol_suite := Some s\<rparr>"

definition with_upstream_code :: "AppError \<Rightarrow> string \<Rightarrow> AppError" where
  "with_upstream_code e c = e\<lparr>ae_upstream_error_code := Some c\<rparr>"

definition with_retry_after :: "AppError \<Rightarrow> nat \<Rightarrow> AppError" where
  "with_retry_after e secs = e\<lparr>ae_retry_after_header := Some (nat_str secs)\<rparr>"

definition with_retry_after_header :: "AppError \<Rightarrow> string \<Rightarrow> AppError" where
  "with_retry_after_header e v = e\<lparr>ae_retry_after_header := Some v\<rparr>"

record http_response =
  rs_status :: nat
  rs_headers :: "string \<rightharpoonup> string"
  rs_body :: json

definition generic_error_body :: "AppError \<Rightarrow> json" where
  "generic_error_body e = object_of [(''error'', object_of
     ([(''message'', JString (ae_message e)), (''type'', JString ''server_error''),
       (''param'', JNull)] @
      (case ae_upstream_error_code e of Some c \<Rightarrow> [(''code'', JString c)] | None \<Rightarrow> [])))]"

definition error_response_body :: "AppError \<Rightarrow> json" where
  "error_response_body e =
     (case ae_protocol_suite e of
        Some s \<Rightarrow> encode_error_body_for_suite s (ae_message e) (ae_error_class e) (ae_status e)
                   (ae_upstream_error_code e)
      | None \<Rightarrow> generic_error_body e)"

text \<open>
  \<open>name_ok\<close> and \<open>value_ok\<close> are \<^verbatim>\<open>HeaderName::from_bytes\<close> (which also lower-cases) and
  \<^verbatim>\<open>HeaderValue::from_str\<close>; \<open>base\<close> holds the headers the framework puts on a JSON response.
\<close>

fun passthrough_headers :: "(string \<Rightarrow> string option) \<Rightarrow> (string \<Rightarrow> bool) \<Rightarrow>
    (string \<times> string) list \<Rightarrow> (string \<rightharpoonup> string) \<Rightarrow> (string \<rightharpoonup> string)" where
  "passthrough_headers name_ok value_ok [] hs = hs"
| "passthrough_headers name_ok value_ok ((n, v) # rest) hs =
     passthrough_headers name_ok value_ok rest
       (if value_ok v then (case name_ok n of Some hn \<Rightarrow> hs(hn \<mapsto> v) | None \<Rightarrow> hs) else hs)"

definition into_response :: "(string \<Rightarrow> string option) \<Rightarrow> (string \<Rightarrow> bool) \<Rightarrow>
    (string \<rightharpoonup> string) \<Rightarrow> AppError \<Rightarrow> http_response" where
  "into_response name_ok value_ok base e =
     (let hs = (case ae_retry_after_header e of
                  Some ra \<Rightarrow> if value_ok ra then base(''retry-after'' \<mapsto> ra) else base
                | None \<Rightarrow> base)
      in \<lparr>rs_status = ae_status e,
          rs_headers = passthrough_headers name_ok value_ok (ae_rate_limit_headers e) hs,
          rs_body = error_response_body e\<rparr>)"

subsection \<open>Errors inside a successful response\<close>

text \<open>
  \<^verbatim>\<open>check_nonstream_error_body\<close> of \<^verbatim>\<open>crates/server/src/ingress/executors.rs\<close>: a response with a
  success status whose body is an error object is turned into an error.
\<close>

definition normal_fields :: "string list" where
  "normal_fields = [''choices'', ''candidates'', ''output'', ''data'', ''messages'']"

definition check_nonstream_error_body :: "json \<Rightarrow> nat \<Rightarrow> string option \<Rightarrow> (string \<times> string) list \<Rightarrow>
    AppError option" where
  "check_nonstream_error_body body status retry_after rate_limit_headers =
     (case get body ''error'' of
        None \<Rightarrow> None
      | Some err \<Rightarrow>
          if list_ex (\<lambda>k. get body k \<noteq> None) normal_fields then None
          else
            let message = unwrap_or (Option.bind (get err ''message'') as_str)
                  ''upstream returned error in 200 response body'';
                code = (case Option.bind (get err ''code'') as_str of
                          Some c \<Rightarrow> Some c
                        | None \<Rightarrow> Option.bind (get err ''type'') as_str);
                e0 = AppError_new (if 100 \<le> status \<and> status \<le> 999 then status else 502)
                  (''Upstream error: '' @ message);
                e1 = with_class (e0\<lparr>ae_upstream_status := Some status\<rparr>)
                  (classify_upstream_error (Some status) code);
                e2 = (case code of Some c \<Rightarrow> with_upstream_code e1 c | None \<Rightarrow> e1);
                e3 = (case retry_after of Some ra \<Rightarrow> with_retry_after_header e2 ra | None \<Rightarrow> e2)
            in Some (e3\<lparr>ae_rate_limit_headers := rate_limit_headers\<rparr>))"

subsection \<open>Pipeline events\<close>

datatype EventPayload =
    RequestStarted string string bool
  | RouteResolved "string list" string
  | HopStart string string string string nat
  | HopSuccess string nat nat "Usage option"
  | HopFailure string nat string string nat
  | HopDecision string nat string
  | RequestCompleted string "string option" nat nat "nat option" "Usage option" "nat option"
      "string option" "string option" "string option" "string option" "string option"

text \<open>Time stamps are nanoseconds of the wall clock, which may go backwards.\<close>

record PipelineEvent =
  ev_request_id :: string
  ev_timestamp :: int
  ev_stage :: string
  ev_payload :: EventPayload

text \<open>
  What a client of each protocol reads: the message and the type of the error, at the places the
  protocols define.
\<close>

definition error_message_of :: "ProtocolSuite \<Rightarrow> json \<Rightarrow> string option" where
  "error_message_of s body = Option.bind (get body ''error'') (\<lambda>e. Option.bind (get e ''message'') as_str)"

definition error_type_of :: "ProtocolSuite \<Rightarrow> json \<Rightarrow> string option" where
  "error_type_of s body = Option.bind (get body ''error'')
     (\<lambda>e. Option.bind (get e (if s = GoogleGemini then ''status'' else ''type'')) as_str)"

definition native_error_type :: "ProtocolSuite \<Rightarrow> ErrorClass \<Rightarrow> string" where
  "native_error_type s c = (case s of GoogleGemini \<Rightarrow> gemini_error_status c
     | AnthropicMessages \<Rightarrow> anthropic_error_type c | _ \<Rightarrow> openai_error_type c)"

text \<open>
  Whatever its class, its status and its code, the response of an error carries the status
  of the error, its message, and the type the client's own protocol has for the class.
\<close>

theorem error_response_native:
  assumes "ae_protocol_suite e = Some s"
  shows "rs_status (into_response name_ok value_ok base e) = ae_status e \<and>
    error_message_of s (rs_body (into_response name_ok value_ok base e)) = Some (ae_message e) \<and>
    error_type_of s (rs_body (into_response name_ok value_ok base e))
      = Some (native_error_type s (ae_error_class e))"
  using assms
  by (cases s)
    (simp_all add: into_response_def error_response_body_def encode_error_body_for_suite_def Let_def
      error_message_of_def error_type_of_def native_error_type_def get_object_of
      split: option.split)

theorem error_response_native_witness:
  "rs_status (into_response Some (\<lambda>_. True) Map.empty (with_protocol_suite
      (with_class (AppError_new 504 ''request deadline exceeded'') ErrorClass.DeadlineExceeded)
      AnthropicMessages)) = 504"
  using error_response_native [of "with_protocol_suite
      (with_class (AppError_new 504 ''request deadline exceeded'') ErrorClass.DeadlineExceeded)
      AnthropicMessages" AnthropicMessages Some "\<lambda>_. True" Map.empty]
  by (simp add: with_protocol_suite_def with_class_def AppError_new_def)

end
