(* ===== verification/Quota.thy ===== *)
theory Quota
  imports Prelude
begin

section \<open>Quotas\<close>

text \<open>
  The in-memory counter of \<^verbatim>\<open>crates/core/src/quota.rs\<close> and \<^verbatim>\<open>check_quota\<close> of
  \<^verbatim>\<open>crates/server/src/ingress/observability.rs\<close>.  Counters, limits and times are 64-bit words: the
  sum that is compared with the limit wraps (release profile), the committed counter saturates.
  Every snapshot of a window reads the wall clock anew: the \<open>n\<close>-th reading is \<open>clk n\<close>, and the
  operations return the number of readings they used.
\<close>

datatype QuotaKind = RequestsPerMinute | RequestsPerDay | TokensPerMinute | TokensPerDay

fun window :: "QuotaKind \<Rightarrow> duration" where
  "window RequestsPerMinute = from_secs 60"
| "window TokensPerMinute = from_secs 60"
| "window RequestsPerDay = from_secs 86400"
| "window TokensPerDay = from_secs 86400"

datatype QuotaDecision = Allow "u64 option" | Deny duration u64 QuotaKind

fun decision_is_allowed :: "QuotaDecision \<Rightarrow> bool" where
  "decision_is_allowed (Allow _) = True"
| "decision_is_allowed (Deny _ _ _) = False"

record QuotaSpec =
  requests_per_minute :: "u64 option"
  requests_per_day :: "u64 option"
  tokens_per_minute :: "u64 option"
  tokens_per_day :: "u64 option"

definition QuotaSpec_default :: QuotaSpec where
  "QuotaSpec_default = \<lparr>requests_per_minute = None, requests_per_day = None,
     tokens_per_minute = None, tokens_per_day = None\<rparr>"

definition is_unlimited :: "QuotaSpec \<Rightarrow> bool" where
  "is_unlimited s \<longleftrightarrow> requests_per_minute s = None \<and> requests_per_day s = None \<and>
     tokens_per_minute s = None \<and> tokens_per_day s = None"

record WindowCounter =
  window_start_ms :: u64
  used :: u64

definition WindowCounter_default :: WindowCounter where
  "WindowCounter_default = \<lparr>window_start_ms = 0, used = 0\<rparr>"

text \<open>\<open>roll\<close> is the state after a snapshot; the pair is what the snapshot returns.\<close>

definition roll :: "u64 \<Rightarrow> duration \<Rightarrow> WindowCounter \<Rightarrow> WindowCounter" where
  "roll now win c =
     (if saturating_sub now (window_start_ms c) \<ge> of_nat (as_millis win)
      then \<lparr>window_start_ms = now, used = 0\<rparr> else c)"

definition snapshot :: "u64 \<Rightarrow> duration \<Rightarrow> WindowCounter \<Rightarrow> WindowCounter \<times> u64 \<times> duration" where
  "snapshot now win c =
     (let c' = roll now win c;
          elapsed = saturating_sub now (window_start_ms c')
      in (c', used c', from_millis (unat (saturating_sub (of_nat (as_millis win)) elapsed))))"

type_synonym key_counters = "QuotaKind \<rightharpoonup> WindowCounter"
type_synonym InMemoryQuota = "string \<rightharpoonup> key_counters"

definition counter_or_default :: "key_counters \<Rightarrow> QuotaKind \<Rightarrow> WindowCounter" where
  "counter_or_default m k = (case m k of Some c \<Rightarrow> c | None \<Rightarrow> WindowCounter_default)"

definition InMemoryQuota_new :: InMemoryQuota where
  "InMemoryQuota_new = Map.empty"

fun limit_of :: "QuotaSpec \<Rightarrow> QuotaKind \<Rightarrow> u64 option" where
  "limit_of s RequestsPerMinute = requests_per_minute s"
| "limit_of s RequestsPerDay = requests_per_day s"
| "limit_of s TokensPerMinute = tokens_per_minute s"
| "limit_of s TokensPerDay = tokens_per_day s"

fun increment_of :: "QuotaKind \<Rightarrow> u64 \<Rightarrow> u64" where
  "increment_of RequestsPerMinute tokens = 1"
| "increment_of RequestsPerDay tokens = 1"
| "increment_of TokensPerMinute tokens = tokens"
| "increment_of TokensPerDay tokens = tokens"

definition to_consume :: "QuotaSpec \<Rightarrow> QuotaKind list" where
  "to_consume s =
     (if requests_per_minute s \<noteq> None \<or> requests_per_day s \<noteq> None
      then [RequestsPerMinute, RequestsPerDay] else []) @
     (if tokens_per_minute s \<noteq> None \<or> tokens_per_day s \<noteq> None
      then [TokensPerMinute, TokensPerDay] else [])"

text \<open>Phase 1: the decision of the first bucket without room, if there is one.\<close>

fun verify :: "(nat \<Rightarrow> u64) \<Rightarrow> QuotaSpec \<Rightarrow> u64 \<Rightarrow> QuotaKind list \<Rightarrow> nat \<Rightarrow> key_counters \<Rightarrow>
    QuotaDecision option \<times> nat \<times> key_counters" where
  "verify clk s tokens [] n m = (None, n, m)"
| "verify clk s tokens (k # ks) n m =
     (let (c, u, _) = snapshot (clk n) (window k) (counter_or_default m k) in
      case limit_of s k of
        None \<Rightarrow> verify clk s tokens ks (Suc n) (m(k \<mapsto> c))
      | Some limit \<Rightarrow>
          if u + increment_of k tokens > limit
          then let (c', _, retry_after) = snapshot (clk (Suc n)) (window k) c
               in (Some (Deny retry_after limit k), Suc (Suc n), m(k \<mapsto> c'))
          else verify clk s tokens ks (Suc n) (m(k \<mapsto> c)))"

text \<open>Phase 2: the consumption.\<close>

fun commit :: "(nat \<Rightarrow> u64) \<Rightarrow> u64 \<Rightarrow> QuotaKind list \<Rightarrow> nat \<Rightarrow> key_counters \<Rightarrow> nat \<times> key_counters" where
  "commit clk tokens [] n m = (n, m)"
| "commit clk tokens (k # ks) n m =
     (let (c, _, _) = snapshot (clk n) (window k) (counter_or_default m k)
      in commit clk tokens ks (Suc n)
           (m(k \<mapsto> c\<lparr>used := saturating_add (used c) (increment_of k tokens)\<rparr>)))"

definition check_and_consume :: "(nat \<Rightarrow> u64) \<Rightarrow> InMemoryQuota \<Rightarrow> string \<Rightarrow> QuotaSpec \<Rightarrow> u64 \<Rightarrow>
    QuotaDecision \<times> InMemoryQuota" where
  "check_and_consume clk q key_id s tokens =
     (let m = unwrap_or (q key_id) Map.empty;
          (verdict, n, m1) = verify clk s tokens (to_consume s) 0 m
      in case verdict of
           Some d \<Rightarrow> (d, q(key_id \<mapsto> m1))
         | None \<Rightarrow>
             let (_, m2) = commit clk tokens (to_consume s) n m1
             in (Allow None, q(key_id \<mapsto> m2)))"

text \<open>
  \<open>current_usage\<close> visits the counters of a key in the unspecified order of the hash map, one clock
  reading each; here they all read \<open>now\<close>.
\<close>

definition current_usage :: "u64 \<Rightarrow> InMemoryQuota \<Rightarrow> string \<Rightarrow> (QuotaKind \<rightharpoonup> u64) \<times> InMemoryQuota" where
  "current_usage now q key_id =
     (let m = unwrap_or (q key_id) Map.empty;
          m' = (\<lambda>k. map_option (roll now (window k)) (m k))
      in (\<lambda>k. map_option used (m' k), q(key_id \<mapsto> m')))"

datatype QuotaOutcome = Outcome_Allow | Outcome_Deny duration u64 QuotaKind

fun outcome_is_allowed :: "QuotaOutcome \<Rightarrow> bool" where
  "outcome_is_allowed Outcome_Allow = True"
| "outcome_is_allowed (Outcome_Deny _ _ _) = False"

fun retry_after_seconds :: "QuotaOutcome \<Rightarrow> nat option" where
  "retry_after_seconds (Outcome_Deny retry_after _ _) = Some (max (as_secs retry_after) 1)"
| "retry_after_seconds Outcome_Allow = None"

text \<open>\<open>backend\<close> is the configured counter, \<^verbatim>\<open>None\<close> if there is none; its failure (\<open>Inl\<close>) allows.\<close>

definition check_quota :: "(string \<Rightarrow> QuotaSpec \<Rightarrow> u64 \<Rightarrow> string + QuotaDecision) option \<Rightarrow> string \<Rightarrow>
    QuotaSpec \<Rightarrow> u64 \<Rightarrow> QuotaOutcome" where
  "check_quota backend caller_key_id s tokens =
     (case backend of
        None \<Rightarrow> Outcome_Allow
      | Some check \<Rightarrow>
          (case check caller_key_id s tokens of
             Inr (Allow _) \<Rightarrow> Outcome_Allow
           | Inr (Deny retry_after limit kind) \<Rightarrow> Outcome_Deny retry_after limit kind
           | Inl _ \<Rightarrow> Outcome_Allow))"

subsection \<open>The contract of a counter\<close>

text \<open>
  \<open>fits\<close> says that the comparison with the limits does not wrap for a request of \<open>tokens\<close> tokens.
\<close>

definition fits :: "QuotaSpec \<Rightarrow> u64 \<Rightarrow> bool" where
  "fits s tokens \<longleftrightarrow> (\<forall>k limit. limit_of s k = Some limit \<longrightarrow>
     unat limit + unat (increment_of k tokens) < 2 ^ 64)"

definition within_limits :: "QuotaSpec \<Rightarrow> (QuotaKind \<Rightarrow> u64) \<Rightarrow> bool" where
  "within_limits s usage \<longleftrightarrow> (\<forall>k limit. limit_of s k = Some limit \<longrightarrow> usage k \<le> limit)"

locale quota_counter =
  fixes check :: "'t \<Rightarrow> 'q \<Rightarrow> string \<Rightarrow> QuotaSpec \<Rightarrow> u64 \<Rightarrow> QuotaDecision \<times> 'q"
    and usage :: "'q \<Rightarrow> string \<Rightarrow> QuotaKind \<Rightarrow> u64"
  assumes check_within: "fits s tokens \<Longrightarrow> within_limits s (usage q key) \<Longrightarrow>
      within_limits s (usage (snd (check t q key s tokens)) key)"
    and check_other: "key' \<noteq> key \<Longrightarrow> usage (snd (check t q key s tokens)) key' = usage q key'"
begin

fun serve :: "(string \<Rightarrow> QuotaSpec) \<Rightarrow> ('t \<times> string \<times> u64) list \<Rightarrow> 'q \<Rightarrow> 'q" where
  "serve specs [] q = q"
| "serve specs ((t, key, tokens) # rs) q = serve specs rs (snd (check t q key (specs key) tokens))"

lemma serve_within:
  assumes "\<forall>(t, key, tokens)\<in>set rs. fits (specs key) tokens"
    and "\<forall>key. within_limits (specs key) (usage q key)"
  shows "within_limits (specs key) (usage (serve specs rs q) key)"
  using assms
proof (induction specs rs q rule: serve.induct)
  case (2 specs t k tokens rs q)
  have "within_limits (specs key) (usage (snd (check t q k (specs k) tokens)) key)" for key
    using 2(2,3) by (cases "key = k") (auto simp: check_other intro: check_within)
  with 2 show ?case by simp
qed simp

end

subsection \<open>The in-memory counter\<close>

definition raw_usage :: "InMemoryQuota \<Rightarrow> string \<Rightarrow> QuotaKind \<Rightarrow> u64" where
  "raw_usage q key k = used (counter_or_default (unwrap_or (q key) Map.empty) k)"

lemma roll_used: "used (roll now win c) \<le> used c"
  by (simp add: roll_def)

lemma roll_idem [simp]: "roll now win (roll now win c) = roll now win c"
  by (simp add: roll_def)

lemma snapshot_simp: "snapshot now win c = (roll now win c, used (roll now win c),
    from_millis (unat (saturating_sub (of_nat (as_millis win))
      (saturating_sub now (window_start_ms (roll now win c))))))"
  by (simp add: snapshot_def Let_def)

lemma counter_upd [simp]:
  "counter_or_default (m(k \<mapsto> c)) k' = (if k' = k then c else counter_or_default m k')"
  by (simp add: counter_or_default_def)

lemma verify_Cons:
  "verify clk s tokens (k # ks) n m =
     (let c = roll (clk n) (window k) (counter_or_default m k) in
      case limit_of s k of
        None \<Rightarrow> verify clk s tokens ks (Suc n) (m(k \<mapsto> c))
      | Some limit \<Rightarrow>
          if used c + increment_of k tokens > limit
          then (Some (Deny (snd (snd (snapshot (clk (Suc n)) (window k) c))) limit k), Suc (Suc n),
                m(k \<mapsto> roll (clk (Suc n)) (window k) c))
          else verify clk s tokens ks (Suc n) (m(k \<mapsto> c)))"
  by (simp add: snapshot_simp Let_def split: option.split)

declare verify.simps(2) [simp del]

lemma verify_cases [consumes 1, case_names deny rest]:
  assumes "verify clk s tokens (k # ks) n m = (v, n', m')"
  obtains limit where "limit_of s k = Some limit"
      "used (roll (clk n) (window k) (counter_or_default m k)) + increment_of k tokens > limit"
      "v = Some (Deny (snd (snd (snapshot (clk (Suc n)) (window k)
             (roll (clk n) (window k) (counter_or_default m k))))) limit k)"
      "m' = m(k \<mapsto> roll (clk (Suc n)) (window k) (roll (clk n) (window k) (counter_or_default m k)))"
    | "\<forall>limit. limit_of s k = Some limit \<longrightarrow>
        \<not> used (roll (clk n) (window k) (counter_or_default m k)) + increment_of k tokens > limit"
      "verify clk s tokens ks (Suc n) (m(k \<mapsto> roll (clk n) (window k) (counter_or_default m k)))
        = (v, n', m')"
  using assms by (auto simp: verify_Cons Let_def split: option.splits if_splits)

lemma verify_used:
  "verify clk s tokens ks n m = (v, n', m') \<Longrightarrow>
     used (counter_or_default m' k) \<le> used (counter_or_default m k)"
proof (induction ks arbitrary: n m)
  case (Cons k0 ks)
  from Cons.prems show ?case
  proof (cases rule: verify_cases)
    case (deny limit)
    show ?thesis unfolding deny(4) counter_upd using order_trans [OF roll_used roll_used] by simp
  next
    case rest
    from Cons.IH [OF rest(2)] show ?thesis unfolding counter_upd
      by (auto split: if_splits intro: order_trans [OF _ roll_used])
  qed
qed simp

lemma verify_frame:
  "verify clk s tokens ks n m = (v, n', m') \<Longrightarrow> k \<notin> set ks \<Longrightarrow>
     counter_or_default m' k = counter_or_default m k"
proof (induction ks arbitrary: n m)
  case (Cons k0 ks)
  from Cons.prems(1) show ?case
    by (cases rule: verify_cases) (use Cons in \<open>auto simp del: fun_upd_apply\<close>)
qed simp

lemma verify_room:
  assumes "verify clk s tokens ks n m = (None, n', m')" and "distinct ks" and "k \<in> set ks"
    and "limit_of s k = Some limit"
  shows "used (counter_or_default m' k) + increment_of k tokens \<le> limit"
  using assms
proof (induction ks arbitrary: n m)
  case (Cons k0 ks)
  from Cons.prems(1) show ?case
  proof (cases rule: verify_cases)
    case rest
    show ?thesis
    proof (cases "k = k0")
      case True
      with Cons.prems have "k \<notin> set ks" by simp
      from verify_frame [OF rest(2) this] rest(1) Cons.prems(4) True
      show ?thesis by (simp add: not_less)
    next
      case False
      with Cons.IH [OF rest(2)] Cons.prems show ?thesis by simp
    qed
  qed simp
qed simp

lemma verify_deny:
  "verify clk s tokens ks n m = (Some d, n', m') \<Longrightarrow>
     \<exists>limit k r. d = Deny r limit k \<and> k \<in> set ks \<and> limit_of s k = Some limit"
proof (induction ks arbitrary: n m)
  case (Cons k0 ks)
  from Cons.prems show ?case by (cases rule: verify_cases) (use Cons.IH in fastforce)+
qed simp

lemma commit_other: "commit clk tokens ks n m = (n', m') \<Longrightarrow> k \<notin> set ks \<Longrightarrow>
     counter_or_default m' k = counter_or_default m k"
  by (induction ks arbitrary: n m) (auto simp: snapshot_simp Let_def simp del: fun_upd_apply)

lemma commit_used:
  assumes "commit clk tokens ks n m = (n', m')" and "distinct ks" and "k \<in> set ks"
  shows "\<exists>i. counter_or_default m' k =
    (let c = roll (clk i) (window k) (counter_or_default m k)
     in c\<lparr>used := saturating_add (used c) (increment_of k tokens)\<rparr>)"
  using assms
proof (induction ks arbitrary: n m)
  case (Cons k0 ks)
  let ?c = "roll (clk n) (window k0) (counter_or_default m k0)"
  let ?m = "m(k0 \<mapsto> ?c\<lparr>used := saturating_add (used ?c) (increment_of k0 tokens)\<rparr>)"
  from Cons.prems have rest: "commit clk tokens ks (Suc n) ?m = (n', m')"
    by (simp add: snapshot_simp Let_def)
  show ?case
  proof (cases "k = k0")
    case True
    with Cons.prems have "k \<notin> set ks" by simp
    from commit_other [OF rest this] True show ?thesis
      by (auto simp: Let_def)
  next
    case False
    with Cons.IH [OF rest] Cons.prems(2,3) show ?thesis unfolding counter_upd by simp
  qed
qed simp

lemma to_consume_facts: "distinct (to_consume s)" "limit_of s k = Some l \<Longrightarrow> k \<in> set (to_consume s)"
  by (cases k; auto simp: to_consume_def)+

lemma consume_cases [consumes 1, case_names deny allow]:
  assumes "check_and_consume clk q key s tokens = (d, q')"
  obtains n m1 where "verify clk s tokens (to_consume s) 0 (unwrap_or (q key) Map.empty) = (Some d, n, m1)"
      "q' = q(key \<mapsto> m1)"
    | n m1 n' m2 where
      "verify clk s tokens (to_consume s) 0 (unwrap_or (q key) Map.empty) = (None, n, m1)"
      "commit clk tokens (to_consume s) n m1 = (n', m2)" "d = Allow None" "q' = q(key \<mapsto> m2)"
  using assms by (auto simp: check_and_consume_def Let_def split: prod.splits option.splits)

lemma add_room:
  fixes u i l :: u64
  assumes "u' \<le> u" and "u + i \<le> l" and "u \<le> l" and "unat l + unat i < 2 ^ 64"
  shows "saturating_add u' i \<le> l"
proof -
  have "unat u + unat i < 2 ^ 64" using assms(3,4) by (simp add: word_le_nat_alt)
  then have "unat u + unat i \<le> unat l" using assms(2) by (simp add: word_le_nat_alt unat_plus_exact)
  moreover have "unat u' \<le> unat u" using assms(1) by (simp add: word_le_nat_alt)
  ultimately show ?thesis using assms(4) saturating_add_exact(2) [of u' i]
    by (simp add: word_le_nat_alt)
qed

lemma check_within_limits:
  assumes fit: "fits s tokens" and inv: "within_limits s (raw_usage q key)"
    and run: "check_and_consume clk q key s tokens = (d, q')"
  shows "within_limits s (raw_usage q' key)"
  unfolding within_limits_def
proof (intro allI impI)
  fix k limit assume l: "limit_of s k = Some limit"
  let ?m = "unwrap_or (q key) Map.empty"
  have old: "used (counter_or_default ?m k) \<le> limit"
    using inv l by (simp add: within_limits_def raw_usage_def)
  from run show "raw_usage q' key k \<le> limit"
  proof (cases rule: consume_cases)
    case (deny n m1)
    then show ?thesis using verify_used [OF deny(1), of k] old by (simp add: raw_usage_def)
  next
    case (allow n m1 n' m2)
    have le: "used (counter_or_default m1 k) \<le> limit"
      using verify_used [OF allow(1), of k] old by simp
    have room: "used (counter_or_default m1 k) + increment_of k tokens \<le> limit"
      using verify_room [OF allow(1) to_consume_facts(1) to_consume_facts(2) [OF l] l] .
    obtain i where "counter_or_default m2 k = (let c = roll (clk i) (window k) (counter_or_default m1 k)
        in c\<lparr>used := saturating_add (used c) (increment_of k tokens)\<rparr>)"
      using commit_used [OF allow(2) to_consume_facts(1) to_consume_facts(2) [OF l]] by blast
    moreover have "unat limit + unat (increment_of k tokens) < 2 ^ 64" using fit l by (auto simp: fits_def)
    ultimately show ?thesis using add_room [OF roll_used room le] allow(4)
      by (simp add: raw_usage_def Let_def)
  qed
qed

interpretation in_memory: quota_counter check_and_consume raw_usage
proof
  show "fits s tokens \<Longrightarrow> within_limits s (raw_usage q key) \<Longrightarrow>
      within_limits s (raw_usage (snd (check_and_consume t q key s tokens)) key)" for s tokens q key t
    using check_within_limits [of s tokens q key t] by (metis prod.collapse)
next
  show "key' \<noteq> key \<Longrightarrow> raw_usage (snd (check_and_consume t q key s tokens)) key' = raw_usage q key'"
    for key' key t q s tokens
    by (simp add: fun_eq_iff check_and_consume_def raw_usage_def Let_def split: prod.split option.split)
qed


text \<open>
  C26.  Limits hold: starting from an empty registry, and with token counts for which the
  comparison does not wrap, no sequence of requests of any keys, at any times, takes a counter
  above the limit of its key.
\<close>

theorem quota_limits_hold:
  assumes "\<forall>(clk, key, tokens)\<in>set rs. fits (specs key) tokens"
  shows "within_limits (specs key) (raw_usage (in_memory.serve specs rs InMemoryQuota_new) key)"
  by (rule in_memory.serve_within [OF assms])
    (simp add: within_limits_def raw_usage_def counter_or_default_def WindowCounter_default_def
      InMemoryQuota_new_def)

text \<open>
  A denied request consumes nothing: no counter of its key grows and the other keys are
  untouched; the decision names a limit of the specification.
\<close>

theorem quota_deny_consumes_nothing:
  assumes "check_and_consume clk q key s tokens = (Deny r limit kind, q')"
  shows "limit_of s kind = Some limit \<and> (\<forall>k. raw_usage q' key k \<le> raw_usage q key k) \<and>
    (\<forall>key'. key' \<noteq> key \<longrightarrow> q' key' = q key')"
  using assms
proof (cases rule: consume_cases)
  case (deny n m1)
  then show ?thesis using verify_deny [OF deny(1)] verify_used [OF deny(1)]
    by (auto simp: raw_usage_def)
qed simp

subsection \<open>The decision at one moment\<close>

definition live_usage :: "u64 \<Rightarrow> InMemoryQuota \<Rightarrow> string \<Rightarrow> QuotaKind \<Rightarrow> u64" where
  "live_usage now q key k =
     used (roll now (window k) (counter_or_default (unwrap_or (q key) Map.empty) k))"

definition has_room :: "QuotaSpec \<Rightarrow> u64 \<Rightarrow> (QuotaKind \<Rightarrow> u64) \<Rightarrow> bool" where
  "has_room s tokens usage \<longleftrightarrow>
     (\<forall>k limit. limit_of s k = Some limit \<longrightarrow> usage k + increment_of k tokens \<le> limit)"

lemma window_positive: "(0 :: u64) < of_nat (as_millis (window k))"
  by (cases k) (simp_all add: as_millis_def from_secs_def nanos_per_sec_def nanos_per_milli_def)

lemma roll_charge:
  "roll now (window k) ((roll now (window k) c)\<lparr>used := u\<rparr>) = (roll now (window k) c)\<lparr>used := u\<rparr>"
proof -
  have "\<not> (of_nat (as_millis (window k)) :: u64) \<le> 0" using window_positive [of k] by simp
  then show ?thesis by (simp add: roll_def saturating_sub_def)
qed

lemma verify_now:
  assumes "distinct ks"
  shows "fst (verify (\<lambda>_. now) s tokens ks n m) = None \<longleftrightarrow>
    (\<forall>k\<in>set ks. \<forall>limit. limit_of s k = Some limit \<longrightarrow>
       used (roll now (window k) (counter_or_default m k)) + increment_of k tokens \<le> limit)"
  using assms
proof (induction ks arbitrary: n m)
  case (Cons k ks)
  let ?m = "m(k \<mapsto> roll now (window k) (counter_or_default m k))"
  have keep: "counter_or_default ?m k' = counter_or_default m k'" if "k' \<in> set ks" for k'
    using that Cons.prems by auto
  have IH: "fst (verify (\<lambda>_. now) s tokens ks (Suc n) ?m) = None \<longleftrightarrow>
    (\<forall>k\<in>set ks. \<forall>limit. limit_of s k = Some limit \<longrightarrow>
       used (roll now (window k) (counter_or_default m k)) + increment_of k tokens \<le> limit)"
    using Cons.IH [of "Suc n" ?m] Cons.prems keep by (simp del: fun_upd_apply counter_upd)
  show ?case using IH
    by (auto simp: verify_Cons Let_def not_less simp del: fun_upd_apply split: option.splits)
qed simp

lemma verify_now_state:
  "verify (\<lambda>_. now) s tokens ks n m = (v, n', m') \<Longrightarrow>
     roll now (window k) (counter_or_default m' k) = roll now (window k) (counter_or_default m k)"
proof (induction ks arbitrary: n m)
  case (Cons k0 ks)
  from Cons.prems show ?case
  proof (cases rule: verify_cases)
    case (deny limit)
    then show ?thesis unfolding deny(4) counter_upd by simp
  next
    case rest
    from Cons.IH [OF rest(2)] show ?thesis unfolding counter_upd by (simp split: if_splits)
  qed
qed simp

text \<open>The abstract counter: one number per bucket, no windows and no clock.\<close>

definition charge :: "QuotaSpec \<Rightarrow> u64 \<Rightarrow> (QuotaKind \<Rightarrow> u64) \<Rightarrow> (QuotaKind \<Rightarrow> u64)" where
  "charge s tokens usage = (\<lambda>k. if k \<in> set (to_consume s)
     then saturating_add (usage k) (increment_of k tokens) else usage k)"

definition abstract_check ::
    "QuotaSpec \<Rightarrow> u64 \<Rightarrow> (QuotaKind \<Rightarrow> u64) \<Rightarrow> bool \<times> (QuotaKind \<Rightarrow> u64)" where
  "abstract_check s tokens usage =
     (if has_room s tokens usage then (True, charge s tokens usage) else (False, usage))"

lemma quota_refinement:
  "map_prod decision_is_allowed (\<lambda>q'. live_usage now q' key)
     (check_and_consume (\<lambda>_. now) q key s tokens)
   = abstract_check s tokens (live_usage now q key)"
proof -
  obtain d q' where run: "check_and_consume (\<lambda>_. now) q key s tokens = (d, q')" by fastforce
  let ?m = "unwrap_or (q key) Map.empty"
  have room: "has_room s tokens (live_usage now q key) \<longleftrightarrow>
      fst (verify (\<lambda>_. now) s tokens (to_consume s) 0 ?m) = None"
    unfolding has_room_def live_usage_def verify_now [OF to_consume_facts(1)]
    using to_consume_facts(2) by blast
  have "(decision_is_allowed d, live_usage now q' key) = abstract_check s tokens (live_usage now q key)"
    using run
  proof (cases rule: consume_cases)
    case (deny n m1)
    have "live_usage now q' key = live_usage now q key"
      using verify_now_state [OF deny(1)] deny(2) by (simp add: live_usage_def fun_eq_iff)
    then show ?thesis using room verify_deny [OF deny(1)] deny(1)
      by (auto simp: abstract_check_def)
  next
    case (allow n m1 n' m2)
    have "live_usage now q' key k = charge s tokens (live_usage now q key) k" for k
    proof (cases "k \<in> set (to_consume s)")
      case True
      let ?c = "roll now (window k) (counter_or_default m1 k)"
      have "counter_or_default m2 k = ?c\<lparr>used := saturating_add (used ?c) (increment_of k tokens)\<rparr>"
        using commit_used [OF allow(2) to_consume_facts(1) True] by (auto simp: Let_def)
      then show ?thesis using True verify_now_state [OF allow(1), of k] allow(4)
        by (simp add: live_usage_def charge_def roll_charge)
    next
      case False
      then show ?thesis
        using verify_now_state [OF allow(1), of k] commit_other [OF allow(2) False] allow(4)
        by (simp add: live_usage_def charge_def)
    qed
    then show ?thesis using allow(1,3) room by (auto simp: abstract_check_def)
  qed
  with run show ?thesis by simp
qed

text \<open>
  C25.  The decision at one moment refines the abstract counter: a request is allowed if and only if
  every bucket with a limit has room for it in its current window; an allowed request charges
  exactly the buckets of the configured dimensions, by one for requests and by its tokens for
  tokens, and a denied one changes nothing.
\<close>

theorem quota_refines:
  "map_prod decision_is_allowed (\<lambda>q'. live_usage now q' key)
     (check_and_consume (\<lambda>_. now) q key s tokens)
   = abstract_check s tokens (live_usage now q key)"
  by (rule quota_refinement)

lemma verify_retry:
  "verify (\<lambda>_. now) s tokens ks n m = (Some (Deny r limit k), n', m') \<Longrightarrow> distinct ks \<Longrightarrow>
     \<exists>c. counter_or_default m' k = c \<and> c = roll now (window k) (counter_or_default m k) \<and>
       r = from_millis (unat (saturating_sub (of_nat (as_millis (window k)))
             (saturating_sub now (window_start_ms c))))"
proof (induction ks arbitrary: n m)
  case (Cons k0 ks)
  from Cons.prems(1) show ?case
  proof (cases rule: verify_cases)
    case (deny l)
    then show ?thesis by (auto simp: snapshot_simp simp del: fun_upd_apply)
  next
    case rest
    obtain k' where "k' \<in> set ks" "k' = k" using verify_deny [OF rest(2)] by auto
    then have "k \<noteq> k0" using Cons.prems by auto
    with Cons.IH [OF rest(2)] Cons.prems(2) show ?thesis unfolding counter_upd by simp
  qed
qed simp

lemma waited:
  fixes now now' start w :: u64
  assumes "start \<le> now" and "unat now' \<ge> unat now + unat (saturating_sub w (saturating_sub now start))"
  shows "saturating_sub now' start \<ge> w"
  using assms by (simp add: word_le_nat_alt)

text \<open>
  \<^verbatim>\<open>Retry-After\<close> is honest: once the returned time has passed since a denial (and the clock
  was not set back behind the start of the window), the bucket that denied is empty again.
\<close>

theorem quota_retry_after_sound:
  assumes "check_and_consume (\<lambda>_. now) q key s tokens = (Deny r limit k, q')"
    and "window_start_ms (counter_or_default (unwrap_or (q key) Map.empty) k) \<le> now"
    and "unat now' \<ge> unat now + as_millis r"
  shows "live_usage now' q' key k = 0"
  using assms(1)
proof (cases rule: consume_cases)
  case (deny n m1)
  let ?c = "counter_or_default m1 k"
  from verify_retry [OF deny(1) to_consume_facts(1)]
  have c: "?c = roll now (window k) (counter_or_default (unwrap_or (q key) Map.empty) k)"
    and r: "r = from_millis (unat (saturating_sub (of_nat (as_millis (window k)))
        (saturating_sub now (window_start_ms ?c))))" by auto
  have "window_start_ms ?c \<le> now" using assms(2) c by (simp add: roll_def)
  moreover have "as_millis r = unat (saturating_sub (of_nat (as_millis (window k)))
      (saturating_sub now (window_start_ms ?c)))"
    using r by (simp add: as_millis_def from_millis_def nanos_per_milli_def)
  ultimately have "saturating_sub now' (window_start_ms ?c) \<ge> of_nat (as_millis (window k))"
    using assms(3) by (intro waited) auto
  then show ?thesis using deny(2) by (simp add: live_usage_def roll_def)
qed simp


lemma saturating_add_minus:
  fixes u :: u64
  shows "saturating_add u (- u) = (if u = 0 then 0 else - 1)"
proof (cases "u = 0")
  case False
  then have "0 < unat u" by (simp add: unat_gt_0)
  then have "u - 1 < u" by (simp add: word_less_nat_alt unat_sub word_le_nat_alt)
  with False show ?thesis by (simp add: saturating_add_def)
qed (simp add: saturating_add_def)

text \<open>
  Without the bound on the token count the limit is void: whatever the limit and the usage,
  the request of \<open>2 ^ 64 - usage\<close> tokens is admitted, because the compared sum wraps to zero, and
  the counter then stands at the largest 64-bit number.
\<close>

theorem quota_wrap_admits:
  "map_prod decision_is_allowed (\<lambda>q'. live_usage now q' key TokensPerMinute)
     (check_and_consume (\<lambda>_. now) q key (QuotaSpec_default\<lparr>tokens_per_minute := Some limit\<rparr>)
       (- live_usage now q key TokensPerMinute))
   = (True, if live_usage now q key TokensPerMinute = 0 then 0 else - 1)"
proof -
  let ?s = "QuotaSpec_default\<lparr>tokens_per_minute := Some limit\<rparr>"
  let ?t = "- live_usage now q key TokensPerMinute"
  obtain d q' where run: "check_and_consume (\<lambda>_. now) q key ?s ?t = (d, q')" by fastforce
  have "has_room ?s ?t (live_usage now q key)"
    unfolding has_room_def
  proof (intro allI impI)
    fix k l assume "limit_of ?s k = Some l"
    then show "live_usage now q key k + increment_of k ?t \<le> l"
      by (cases k) (simp_all add: QuotaSpec_default_def)
  qed
  then have "decision_is_allowed d"
    and "live_usage now q' key = charge ?s ?t (live_usage now q key)"
    using quota_refinement [of now key q ?s ?t] run by (simp_all add: abstract_check_def)
  moreover have "TokensPerMinute \<in> set (to_consume ?s)" by (simp add: to_consume_def)
  ultimately show ?thesis using run by (simp add: charge_def saturating_add_minus)
qed

subsection \<open>Concrete runs\<close>

definition one_per_minute :: QuotaSpec where
  "one_per_minute = QuotaSpec_default\<lparr>requests_per_minute := Some 1\<rparr>"

theorem quota_limits_hold_witness:
  "fits one_per_minute 7 \<and>
   (\<forall>t. within_limits one_per_minute (raw_usage (in_memory.serve (\<lambda>_. one_per_minute)
      [(\<lambda>_. t, ''k'', 7), (\<lambda>_. t + 1, ''k'', 7)] InMemoryQuota_new) ''k''))"
proof -
  have fit: "fits one_per_minute 7"
    unfolding fits_def
  proof (intro allI impI)
    fix k l assume "limit_of one_per_minute k = Some l"
    then show "unat l + unat (increment_of k (7 :: u64)) < 2 ^ 64"
      by (cases k) (simp_all add: one_per_minute_def QuotaSpec_default_def)
  qed
  moreover have "within_limits one_per_minute (raw_usage (in_memory.serve (\<lambda>_. one_per_minute)
      [(\<lambda>_. t, ''k'', 7), (\<lambda>_. t + 1, ''k'', 7)] InMemoryQuota_new) ''k'')" for t
    using quota_limits_hold [of "[(\<lambda>_. t, ''k'', 7), (\<lambda>_. t + 1, ''k'', 7)]" "\<lambda>_. one_per_minute" "''k''"]
      fit by simp
  ultimately show ?thesis by simp
qed

definition used_up :: InMemoryQuota where
  "used_up = [''k'' \<mapsto> [RequestsPerMinute \<mapsto> \<lparr>window_start_ms = 90000, used = 1\<rparr>]]"

lemma used_up_denied:
  "\<exists>q'. check_and_consume (\<lambda>_. 100000) used_up ''k'' one_per_minute 7 =
     (Deny (from_millis 50000) 1 RequestsPerMinute, q')"
  by (simp add: check_and_consume_def used_up_def one_per_minute_def QuotaSpec_default_def
      to_consume_def counter_or_default_def verify_Cons snapshot_def roll_def saturating_sub_def
      as_millis_def from_secs_def nanos_per_sec_def nanos_per_milli_def Let_def)

theorem quota_deny_consumes_nothing_witness:
  "\<exists>q'. check_and_consume (\<lambda>_. 100000) used_up ''k'' one_per_minute 7 =
     (Deny (from_millis 50000) 1 RequestsPerMinute, q') \<and>
     (\<forall>k. raw_usage q' ''k'' k \<le> raw_usage used_up ''k'' k)"
  using used_up_denied quota_deny_consumes_nothing by blast

theorem quota_retry_after_sound_witness:
  "\<exists>q'. check_and_consume (\<lambda>_. 100000) used_up ''k'' one_per_minute 7 =
     (Deny (from_millis 50000) 1 RequestsPerMinute, q') \<and>
     live_usage 150000 q' ''k'' RequestsPerMinute = 0"
proof -
  obtain q' where run: "check_and_consume (\<lambda>_. 100000) used_up ''k'' one_per_minute 7 =
     (Deny (from_millis 50000) 1 RequestsPerMinute, q')" using used_up_denied by blast
  have "live_usage 150000 q' ''k'' RequestsPerMinute = 0"
    by (rule quota_retry_after_sound [OF run])
      (simp_all add: used_up_def counter_or_default_def as_millis_def from_millis_def
        nanos_per_milli_def)
  with run show ?thesis by blast
qed

end
