(* ===== verification/Client_Auth.thy ===== *)
theory Client_Auth
  imports App_Error Quota
begin

section \<open>Who the client is and what it may use\<close>

text \<open>
  The model of the first part of \<^verbatim>\<open>server/src/ingress/observability.rs\<close>: the credential of a request, the
  lookup of its key, and the two checks that rest on it (\<open>enforce_auth\<close>, \<open>enforce_model_access\<close>).

  The header map of a request is the list of its entries in order, with lower-case names; a value that is not
  a legal string is \<^verbatim>\<open>None\<close>.  The lookup of a key in the store is the argument \<open>lookup\<close>, and
  \<open>quota_from_value\<close> is the derived reader of \<^verbatim>\<open>QuotaSpec\<close>.
\<close>

type_synonym header_map = "(string \<times> string option) list"

definition header_get :: "header_map \<Rightarrow> string \<Rightarrow> string option" where
  "header_get headers name = Option.bind (map_of headers name) (\<lambda>v. v)"

datatype ApiKeyStatus = Active | Disabled

record ApiKey =
  key_row_id :: string
  key_name :: string
  key_hash :: string
  quota_json :: json
  row_allowed_models :: "string list option"
  key_status :: ApiKeyStatus

datatype KeyLookupOutcome = Authenticated | NoCredential | UnknownCredential | DisabledCredential

record ResolvedApiKey =
  key_id :: string
  key_spec :: QuotaSpec
  allowed_models :: "string list option"
  key_secret :: "string option"
  key_outcome :: KeyLookupOutcome

definition nonempty :: "string \<Rightarrow> string option" where
  "nonempty s = (let trimmed = trim s in if trimmed = [] then None else Some trimmed)"

definition extract_credential :: "header_map \<Rightarrow> string option" where
  "extract_credential headers =
     (let bearer = (case header_get headers ''authorization'' of
            Some v \<Rightarrow>
              (case strip_prefix ''Bearer '' v of
                 Some rest \<Rightarrow> nonempty rest
               | None \<Rightarrow>
                   (case strip_prefix ''bearer '' v of Some rest \<Rightarrow> nonempty rest | None \<Rightarrow> None))
          | None \<Rightarrow> None)
      in case bearer of
           Some secret \<Rightarrow> Some secret
         | None \<Rightarrow>
             (case Option.bind (header_get headers ''x-api-key'') nonempty of
                Some secret \<Rightarrow> Some secret
              | None \<Rightarrow> Option.bind (header_get headers ''x-goog-api-key'') nonempty))"

definition QuotaSpec_from_json :: "(json \<Rightarrow> QuotaSpec option) \<Rightarrow> json \<Rightarrow> QuotaSpec" where
  "QuotaSpec_from_json quota_from_value v = unwrap_or (quota_from_value v) QuotaSpec_default"

definition anonymous_key :: "string option \<Rightarrow> KeyLookupOutcome \<Rightarrow> ResolvedApiKey" where
  "anonymous_key secret outcome = \<lparr>key_id = ''anonymous'', key_spec = QuotaSpec_default,
     allowed_models = None, key_secret = secret, key_outcome = outcome\<rparr>"

definition resolve_api_key :: "(json \<Rightarrow> QuotaSpec option) \<Rightarrow> (string \<Rightarrow> string + ApiKey option) \<Rightarrow>
    header_map \<Rightarrow> ResolvedApiKey" where
  "resolve_api_key quota_from_value lookup headers =
     (case extract_credential headers of
        None \<Rightarrow> anonymous_key None NoCredential
      | Some secret \<Rightarrow>
          (case lookup secret of
             Inr (Some row) \<Rightarrow>
               if key_status row \<noteq> Active then anonymous_key (Some secret) DisabledCredential
               else \<lparr>key_id = key_row_id row,
                     key_spec = QuotaSpec_from_json quota_from_value (quota_json row),
                     allowed_models = row_allowed_models row, key_secret = Some secret,
                     key_outcome = Authenticated\<rparr>
           | Inr None \<Rightarrow> anonymous_key (Some secret) UnknownCredential
           | Inl _ \<Rightarrow> anonymous_key (Some secret) UnknownCredential))"

definition enforce_model_access :: "ResolvedApiKey \<Rightarrow> string \<Rightarrow> (AppError \<times> RequestErrorClass) + unit" where
  "enforce_model_access k virtual_model =
     (if (case allowed_models k of None \<Rightarrow> True | Some models \<Rightarrow> virtual_model \<in> set models)
      then Inr ()
      else Inl (with_upstream_code (with_class
             (AppError_new 403 (''api key is not allowed to access model: '' @ virtual_model))
             ErrorClass.ModelAccessDenied) ''model_access_denied'',
           RequestErrorClass.ModelAccessDenied))"

definition enforce_auth :: "bool \<Rightarrow> ResolvedApiKey \<Rightarrow> (AppError \<times> RequestErrorClass) + unit" where
  "enforce_auth require_api_key k =
     (if \<not> require_api_key then Inr ()
      else case key_outcome k of
        Authenticated \<Rightarrow> Inr ()
      | NoCredential \<Rightarrow> Inl (with_class (AppError_new 401 ''missing api key'') ErrorClass.AuthMissing,
          RequestErrorClass.AuthMissing)
      | UnknownCredential \<Rightarrow> Inl (with_class (AppError_new 401 ''invalid api key'') ErrorClass.AuthInvalid,
          RequestErrorClass.AuthInvalid)
      | DisabledCredential \<Rightarrow> Inl (with_class (AppError_new 403 ''api key disabled'') ErrorClass.AuthDisabled,
          RequestErrorClass.AuthDisabled))"

subsection \<open>Who passes\<close>

text \<open>The key a request presents, if the store has it and it is active.\<close>

definition presents :: "(string \<Rightarrow> string + ApiKey option) \<Rightarrow> header_map \<Rightarrow> ApiKey \<Rightarrow> bool" where
  "presents lookup headers row \<longleftrightarrow> (\<exists>secret. extract_credential headers = Some secret \<and>
     lookup secret = Inr (Some row) \<and> key_status row = Active)"

lemma presents_unique: "presents lookup hs row \<Longrightarrow> presents lookup hs row' \<Longrightarrow> row' = row"
  by (auto simp: presents_def)

lemma resolve_authenticated:
  "key_outcome (resolve_api_key qf lookup hs) = Authenticated \<longleftrightarrow> (\<exists>row. presents lookup hs row)"
  by (auto simp: resolve_api_key_def anonymous_key_def presents_def
      split: option.splits sum.splits if_splits)

lemma resolve_presents:
  assumes "presents lookup hs row"
  shows "key_id (resolve_api_key qf lookup hs) = key_row_id row"
    and "allowed_models (resolve_api_key qf lookup hs) = row_allowed_models row"
    and "key_spec (resolve_api_key qf lookup hs) = QuotaSpec_from_json qf (quota_json row)"
    and "key_outcome (resolve_api_key qf lookup hs) = Authenticated"
  using assms by (auto simp: resolve_api_key_def presents_def)

lemma resolve_anonymous:
  assumes "\<nexists>row. presents lookup hs row"
  shows "key_id (resolve_api_key qf lookup hs) = ''anonymous''"
    and "allowed_models (resolve_api_key qf lookup hs) = None"
    and "key_spec (resolve_api_key qf lookup hs) = QuotaSpec_default"
    and "key_outcome (resolve_api_key qf lookup hs) \<noteq> Authenticated"
  using assms by (auto simp: resolve_api_key_def anonymous_key_def presents_def
      split: option.splits sum.splits if_splits)

lemma enforce_auth_ok:
  "enforce_auth req k = Inr () \<longleftrightarrow> (req \<longrightarrow> key_outcome k = Authenticated)"
  by (auto simp: enforce_auth_def split: KeyLookupOutcome.splits)

lemma enforce_model_access_ok:
  "enforce_model_access k m = Inr () \<longleftrightarrow> (\<forall>ms. allowed_models k = Some ms \<longrightarrow> m \<in> set ms)"
  by (auto simp: enforce_model_access_def split: option.splits)

text \<open>
  C30.  Who may use a model.  A request passes both checks if and only if it presents an active key whose
  allow-list, if it has one, names the model, or it presents no active key and the gateway does not require
  one; it is then charged to its key, or to the unlimited anonymous account.
\<close>

theorem access_exact:
  "(enforce_auth req (resolve_api_key qf lookup hs) = Inr () \<and>
    enforce_model_access (resolve_api_key qf lookup hs) m = Inr ()) \<longleftrightarrow>
   (let k = resolve_api_key qf lookup hs in
     (\<exists>row. presents lookup hs row \<and> key_id k = key_row_id row \<and>
        key_spec k = QuotaSpec_from_json qf (quota_json row) \<and>
        (case row_allowed_models row of None \<Rightarrow> True | Some ms \<Rightarrow> m \<in> set ms)) \<or>
     ((\<nexists>row. presents lookup hs row) \<and> \<not> req \<and> key_id k = ''anonymous'' \<and>
        key_spec k = QuotaSpec_default))"
proof (cases "\<exists>row. presents lookup hs row")
  case True
  then obtain row where row: "presents lookup hs row" by blast
  then have only: "presents lookup hs row' \<longleftrightarrow> row' = row" for row'
    using presents_unique by blast
  show ?thesis
    using resolve_presents [OF row, of qf]
    by (simp add: Let_def enforce_auth_ok enforce_model_access_ok only split: option.split)
next
  case False
  then have none: "\<not> presents lookup hs row" for row by blast
  show ?thesis using resolve_anonymous [OF False, of qf]
    by (simp add: Let_def enforce_auth_ok enforce_model_access_ok none)
qed

end
