(* ===== verification/Redaction.thy ===== *)
theory Redaction
  imports Json
begin

section \<open>Redaction of secrets\<close>

text \<open>
  The model of \<^verbatim>\<open>crates/core/src/redaction.rs\<close>: which header values and which values of a JSON body
  are replaced before they are logged.
\<close>

definition REDACTED :: string where
  "REDACTED = ''[REDACTED]''"

definition DEFAULT_HEADER_PATTERNS :: "string list" where
  "DEFAULT_HEADER_PATTERNS = [''authorization'', ''proxy-authorization'', ''cookie'',
     ''set-cookie'', ''x-api-key'', ''x-goog-api-key'', ''anthropic-api-key'',
     ''openai-organization'', ''openai-project'', ''tiygate-admin-token'']"

definition DEFAULT_HEADER_SUBSTRINGS :: "string list" where
  "DEFAULT_HEADER_SUBSTRINGS = [''token'', ''secret'', ''password'', ''credential'']"

definition DEFAULT_BODY_KEYS :: "string list" where
  "DEFAULT_BODY_KEYS = [''api_key'', ''apikey'', ''token'', ''access_token'', ''refresh_token'',
     ''client_secret'', ''password'']"

record Redactor =
  header_names :: "string set"
  header_substrings :: "string list"
  body_keys :: "string set"

definition Redactor_with_defaults :: Redactor where
  "Redactor_with_defaults = \<lparr>header_names = set (map to_lowercase DEFAULT_HEADER_PATTERNS),
     header_substrings = map to_lowercase DEFAULT_HEADER_SUBSTRINGS,
     body_keys = set (map to_lowercase DEFAULT_BODY_KEYS)\<rparr>"

definition Redactor_empty :: Redactor where
  "Redactor_empty = \<lparr>header_names = {}, header_substrings = [], body_keys = {}\<rparr>"

definition with_header_name :: "Redactor \<Rightarrow> string \<Rightarrow> Redactor" where
  "with_header_name r name = r\<lparr>header_names := insert (to_lowercase name) (header_names r)\<rparr>"

definition with_header_substring :: "Redactor \<Rightarrow> string \<Rightarrow> Redactor" where
  "with_header_substring r pat = r\<lparr>header_substrings := header_substrings r @ [to_lowercase pat]\<rparr>"

definition with_body_key :: "Redactor \<Rightarrow> string \<Rightarrow> Redactor" where
  "with_body_key r key = r\<lparr>body_keys := insert (to_lowercase key) (body_keys r)\<rparr>"

definition should_redact_header :: "Redactor \<Rightarrow> string \<Rightarrow> bool" where
  "should_redact_header r name =
     (let lower = to_lowercase name in
      if lower \<in> header_names r then True
      else list_ex (\<lambda>p. contains lower p) (header_substrings r))"

definition should_redact_body_key :: "Redactor \<Rightarrow> string \<Rightarrow> bool" where
  "should_redact_body_key r key = (to_lowercase key \<in> body_keys r)"

fun redact_headers :: "Redactor \<Rightarrow> (string \<times> string) list \<Rightarrow> (string \<times> string) list" where
  "redact_headers r [] = []"
| "redact_headers r ((k, v) # rest) =
     (if should_redact_header r k then (k, REDACTED) else (k, v)) # redact_headers r rest"

fun redact_value :: "Redactor \<Rightarrow> json \<Rightarrow> json" where
  "redact_value r (JObject kvs) =
     JObject (map (\<lambda>(k, v). (k, if should_redact_body_key r k then JString REDACTED
                                else redact_value r v)) kvs)"
| "redact_value r (JArray xs) = JArray (map (redact_value r) xs)"
| "redact_value r v = v"

subsection \<open>What redaction hides, and what it keeps\<close>

text \<open>
  Two values with the same public part: they may differ below the keys that are redacted and
  nowhere else.
\<close>

inductive same_public :: "Redactor \<Rightarrow> json \<Rightarrow> json \<Rightarrow> bool" for r where
  object: "list_all2 (\<lambda>a b. fst a = fst b \<and>
      (should_redact_body_key r (fst a) \<or> same_public r (snd a) (snd b))) kvs kvs' \<Longrightarrow>
    same_public r (JObject kvs) (JObject kvs')"
| array: "list_all2 (same_public r) xs ys \<Longrightarrow> same_public r (JArray xs) (JArray ys)"
| null: "same_public r JNull JNull"
| bool: "same_public r (JBool b) (JBool b)"
| number: "same_public r (JNumber n) (JNumber n)"
| str: "same_public r (JString s) (JString s)"
  monos list_all2_mono

inductive_cases same_public_ObjectE: "same_public r (JObject kvs) w"
inductive_cases same_public_ArrayE: "same_public r (JArray xs) w"

lemma redact_entries_eq:
  assumes "\<And>k v w. (k, v) \<in> set kvs \<Longrightarrow> \<not> should_redact_body_key r k \<Longrightarrow>
      redact_value r v = redact_value r w \<Longrightarrow> same_public r v w"
    and "map (\<lambda>(k, v). (k, if should_redact_body_key r k then JString REDACTED else redact_value r v)) kvs
       = map (\<lambda>(k, v). (k, if should_redact_body_key r k then JString REDACTED else redact_value r v)) kvs'"
  shows "list_all2 (\<lambda>a b. fst a = fst b \<and>
      (should_redact_body_key r (fst a) \<or> same_public r (snd a) (snd b))) kvs kvs'"
  using assms
proof (induction kvs arbitrary: kvs')
  case (Cons kv kvs)
  then obtain kv' rest where kvs': "kvs' = kv' # rest" by (cases kvs') auto
  obtain k v k' v' where kv: "kv = (k, v)" "kv' = (k', v')" by (cases kv, cases kv')
  have "k = k' \<and> (should_redact_body_key r k \<or> same_public r v v')"
    using Cons.prems kvs' kv by (auto split: if_splits)
  moreover have "list_all2 (\<lambda>a b. fst a = fst b \<and>
      (should_redact_body_key r (fst a) \<or> same_public r (snd a) (snd b))) kvs rest"
    by (rule Cons.IH) (use Cons.prems kvs' in auto)
  ultimately show ?case using kvs' kv by auto
qed simp

lemma redact_array_eq:
  assumes "\<And>v w. v \<in> set xs \<Longrightarrow> redact_value r v = redact_value r w \<Longrightarrow> same_public r v w"
    and "map (redact_value r) xs = map (redact_value r) ys"
  shows "list_all2 (same_public r) xs ys"
  using assms
proof (induction xs arbitrary: ys)
  case (Cons x xs)
  then show ?case by (cases ys) auto
qed simp

lemma redact_eq_public: "redact_value r v = redact_value r w \<Longrightarrow> same_public r v w"
proof (induction r v arbitrary: w rule: redact_value.induct)
  case (1 r kvs)
  then obtain kvs' where w: "w = JObject kvs'" by (cases w) auto
  have "list_all2 (\<lambda>a b. fst a = fst b \<and>
      (should_redact_body_key r (fst a) \<or> same_public r (snd a) (snd b))) kvs kvs'"
    by (rule redact_entries_eq) (use 1 w in \<open>auto simp: same_public.intros\<close>)
  then show ?case unfolding w by (rule same_public.object)
next
  case (2 r xs)
  then obtain ys where w: "w = JArray ys" by (cases w) auto
  have "list_all2 (same_public r) xs ys"
    by (rule redact_array_eq) (use 2 w in auto)
  then show ?case unfolding w by (rule same_public.array)
qed (case_tac w; auto intro: same_public.intros)+

lemma public_redact_eq: "same_public r v w \<Longrightarrow> redact_value r v = redact_value r w"
proof (induction rule: same_public.induct)
  case (object kvs kvs')
  then show ?case by (induction rule: list_all2_induct) auto
next
  case (array xs ys)
  then show ?case by (induction rule: list_all2_induct) auto
qed simp_all

text \<open>
  C31.  Redaction hides the secrets of a body and nothing else: two bodies have the same redacted form
  if and only if they differ at most below keys of the deny set, at any depth.  So the log cannot
  tell two bodies with different secrets apart, and loses no other information.
\<close>

theorem redaction_exact: "redact_value r v = redact_value r w \<longleftrightarrow> same_public r v w"
  using redact_eq_public public_redact_eq by blast

text \<open>
  Redacting twice is redacting once.
\<close>

theorem redaction_idempotent: "redact_value r (redact_value r v) = redact_value r v"
  by (induction r v rule: redact_value.induct) (auto split: prod.split)

text \<open>
  No logged header carries a credential: every entry keeps its name and its place, its value is the
  marker if the name is a credential header in any capitalisation, and unchanged otherwise.
\<close>

theorem redact_headers_exact:
  "redact_headers r hs = map (\<lambda>(k, v). (k, if should_redact_header r k then REDACTED else v)) hs"
  by (induction r hs rule: redact_headers.induct) auto

end
