(* ===== verification/Trace_Context.thy ===== *)
theory Trace_Context
  imports Prelude
begin

section \<open>W3C trace context\<close>

text \<open>
  The model of \<^verbatim>\<open>crates/core/src/tracing_ctx.rs\<close>: parsing and printing of the \<^verbatim>\<open>traceparent\<close> header
  and the generator of trace ids.  What the random number generator fills in is an argument.
\<close>

definition TRACE_ID_LEN :: nat where "TRACE_ID_LEN = 32"

definition SPAN_ID_LEN :: nat where "SPAN_ID_LEN = 16"

record TraceContext =
  trace_id :: string
  parent_span_id :: string
  flags :: u8
  tracestate :: "string option"

datatype TraceContextExtraction = Present TraceContext | Absent

fun is_present :: "TraceContextExtraction \<Rightarrow> bool" where
  "is_present (Present _) = True"
| "is_present Absent = False"

text \<open>Both hex digits of a byte; \<open>hex_lower\<close> of a list of bytes, and \<^verbatim>\<open>{:02x}\<close> of one.\<close>

definition byte_hex :: "u8 \<Rightarrow> string" where
  "byte_hex b = [hex_char (unat (drop_bit 4 b)), hex_char (unat (and b 0x0f))]"

definition hex_lower :: "u8 list \<Rightarrow> string" where
  "hex_lower bytes = concat (map byte_hex bytes)"

definition is_lower_hex :: "string \<Rightarrow> bool" where
  "is_lower_hex s = list_all (\<lambda>c. is_ascii_digit c \<or> 97 \<le> byte c \<and> byte c \<le> 102) s"

definition to_traceparent :: "TraceContext \<Rightarrow> string" where
  "to_traceparent c = ''00-'' @ trace_id c @ ''-'' @ parent_span_id c @ ''-'' @ byte_hex (flags c)"

definition extract_traceparent :: "string \<Rightarrow> TraceContextExtraction" where
  "extract_traceparent value =
     (case splitn 4 CHR ''-'' value of
        [version, tid, parent_id, flags_hex] \<Rightarrow>
          if version \<noteq> ''00'' then Absent
          else if length tid \<noteq> TRACE_ID_LEN \<or> \<not> is_lower_hex tid then Absent
          else if length parent_id \<noteq> SPAN_ID_LEN \<or> \<not> is_lower_hex parent_id then Absent
          else (case from_str_radix 256 16 flags_hex of
                  None \<Rightarrow> Absent
                | Some f \<Rightarrow> Present \<lparr>trace_id = tid, parent_span_id = parent_id,
                                   flags = of_nat f, tracestate = None\<rparr>)
      | _ \<Rightarrow> Absent)"

definition extract_from_headers :: "string option \<Rightarrow> string option \<Rightarrow> TraceContextExtraction" where
  "extract_from_headers traceparent state =
     (case traceparent of
        None \<Rightarrow> Absent
      | Some raw \<Rightarrow>
          if raw = [] then Absent
          else (case extract_traceparent raw of
                  Present ctx \<Rightarrow> Present (ctx\<lparr>tracestate := state\<rparr>)
                | Absent \<Rightarrow> Absent))"

text \<open>\<open>span_bytes\<close> (8) and \<open>trace_bytes\<close> (16) are the random bytes of the new ids.\<close>

definition from_raw :: "u8 list \<Rightarrow> u8 list \<Rightarrow> string \<Rightarrow> TraceContext" where
  "from_raw trace_bytes span_bytes raw =
     (case extract_traceparent raw of
        Present ctx \<Rightarrow> ctx\<lparr>parent_span_id := hex_lower span_bytes\<rparr>
      | Absent \<Rightarrow> \<lparr>trace_id = hex_lower trace_bytes, parent_span_id = hex_lower span_bytes,
                   flags = 1, tracestate = None\<rparr>)"

record TraceIdState =
  last_random_bytes :: "u8 list"
  initialized :: bool

definition TraceIdState_default :: TraceIdState where
  "TraceIdState_default = \<lparr>last_random_bytes = replicate 16 0, initialized = False\<rparr>"

text \<open>
  The increment from the last byte: the list is in reverse order, the flag says that some byte did
  not carry.
\<close>

fun bump :: "u8 list \<Rightarrow> u8 list \<times> bool" where
  "bump [] = ([], False)"
| "bump (b # bs) =
     (if b + 1 = 0 then (let (bs', stopped) = bump bs in (0 # bs', stopped)) else ((b + 1) # bs, True))"

definition next_trace_id :: "u8 list \<Rightarrow> TraceIdState \<Rightarrow> string \<times> TraceIdState" where
  "next_trace_id random st =
     (if initialized st then
        let (bumped, stopped) = bump (rev (last_random_bytes st));
            bytes = (if stopped then rev bumped else replicate 16 0)
        in if bytes = replicate 16 0
           then (hex_lower random, st\<lparr>last_random_bytes := random\<rparr>)
           else (hex_lower bytes, st\<lparr>last_random_bytes := rev bumped\<rparr>)
      else (hex_lower random, \<lparr>last_random_bytes = random, initialized = True\<rparr>))"

subsection \<open>Hexadecimal ids\<close>

lemma nibbles: "unat (drop_bit 4 (b :: u8)) = unat b div 16" "unat (and b 0x0f) = unat b mod 16"
proof -
  show "unat (drop_bit 4 b) = unat b div 16"
    by (simp only: unsigned_drop_bit_eq drop_bit_eq_div take_bit_eq_mod) 
      (simp add: unat_div_distrib)
  have "and b 0x0f = take_bit 4 b" by (simp add: take_bit_eq_mask mask_eq_exp_minus_1)
  then show "unat (and b 0x0f) = unat b mod 16"
    by (simp only: unsigned_take_bit_eq) (simp add: take_bit_eq_mod)
qed

lemma unat_u8: "unat (b :: u8) < 256"
  using unsigned_less [of b] by simp

lemma byte_hex_digits: "unat (b :: u8) div 16 < 16" "unat b mod 16 < 16"
  using unat_u8 [of b] by simp_all

lemma byte_hex_value: "digits_val 16 acc (byte_hex b) = Some (acc * 256 + unat b)"
  using byte_hex_digits [of b] by (simp add: byte_hex_def nibbles algebra_simps)

lemma byte_hex_neq: "byte_hex b = c # cs \<Longrightarrow> c \<noteq> CHR ''+''"
  using byte_hex_digits [of b] by (auto simp: byte_hex_def nibbles)

lemma hex_char_lower:
  "n < 16 \<Longrightarrow> is_ascii_digit (hex_char n) \<or> 97 \<le> byte (hex_char n) \<and> byte (hex_char n) \<le> 102"
  by (auto simp: is_ascii_digit_def byte_hex_char)

lemma byte_hex_lower: "is_lower_hex (byte_hex b)"
  using hex_char_lower [OF byte_hex_digits(1), of b] hex_char_lower [OF byte_hex_digits(2), of b]
  by (simp add: is_lower_hex_def byte_hex_def nibbles)

lemma is_lower_hex_append [simp]: "is_lower_hex (s @ t) \<longleftrightarrow> is_lower_hex s \<and> is_lower_hex t"
  by (simp add: is_lower_hex_def)

lemma hex_lower_wf [simp]: "length (hex_lower bs) = 2 * length bs" "is_lower_hex (hex_lower bs)"
  using byte_hex_lower by (induction bs) (auto simp: hex_lower_def byte_hex_def is_lower_hex_def)

lemma hex_lower_value:
  "digits_val 16 acc (hex_lower bs) = Some (fold (\<lambda>b a. a * 256 + unat b) bs acc)"
  by (induction bs arbitrary: acc) (simp_all add: hex_lower_def digits_val_append byte_hex_value)

lemma lower_hex_no_dash: "is_lower_hex s \<Longrightarrow> CHR ''-'' \<notin> set s"
proof -
  have "byte (CHR ''-'') = 45" by (simp add: byte_def)
  then show "is_lower_hex s \<Longrightarrow> CHR ''-'' \<notin> set s"
    by (auto simp: is_lower_hex_def list_all_iff is_ascii_digit_def)
qed

subsection \<open>Parsing and printing\<close>

definition wf_context :: "TraceContext \<Rightarrow> bool" where
  "wf_context c \<longleftrightarrow> length (trace_id c) = TRACE_ID_LEN \<and> is_lower_hex (trace_id c) \<and>
     length (parent_span_id c) = SPAN_ID_LEN \<and> is_lower_hex (parent_span_id c)"

lemma splitn_Suc: "splitn (Suc (Suc n)) sep (a @ sep # b) = a # splitn (Suc n) sep b" if "sep \<notin> set a"
  using that by simp

lemma split_traceparent:
  assumes "wf_context c"
  shows "splitn 4 CHR ''-'' (to_traceparent c) =
    [''00'', trace_id c, parent_span_id c, byte_hex (flags c)]"
proof -
  have nd: "CHR ''-'' \<notin> set (trace_id c)" "CHR ''-'' \<notin> set (parent_span_id c)"
    using assms lower_hex_no_dash by (auto simp: wf_context_def)
  have eq: "to_traceparent c = ''00'' @ CHR ''-'' # (trace_id c @ CHR ''-'' # (parent_span_id c @
      CHR ''-'' # byte_hex (flags c)))" by (simp add: to_traceparent_def)
  have four: "(4 :: nat) = Suc (Suc (Suc (Suc 0)))" by simp
  show ?thesis unfolding eq four
    by (subst splitn_Suc, simp, subst splitn_Suc, rule nd, subst splitn_Suc, rule nd, simp)
qed

lemma flags_roundtrip: "from_str_radix 256 16 (byte_hex b) = Some (unat b)"
proof -
  obtain x y where eq: "byte_hex b = [x, y]" by (simp add: byte_hex_def)
  then have "x \<noteq> CHR ''+''" using byte_hex_neq by blast
  with byte_hex_value [of 0 b] unat_u8 [of b] show ?thesis
    unfolding eq from_str_radix_def Let_def by simp
qed


text \<open>
  Round trip: the header the gateway prints for a well-formed context is read back as that
  context (the \<^verbatim>\<open>tracestate\<close> travels in a header of its own).
\<close>

theorem traceparent_roundtrip:
  assumes "wf_context c"
  shows "extract_from_headers (Some (to_traceparent c)) (tracestate c) = Present c"
  using assms split_traceparent [OF assms] flags_roundtrip [of "flags c"]
  by (simp add: extract_from_headers_def extract_traceparent_def wf_context_def to_traceparent_def)

lemma extract_wf: "extract_traceparent v = Present c \<Longrightarrow> wf_context c"
  by (auto simp: extract_traceparent_def wf_context_def split: list.splits if_splits option.splits)

text \<open>
  C37.  Whatever a client sends, the context the gateway continues with is well-formed, keeps the
  client's trace id if the header was readable, and always carries the gateway's own span id; the
  header sent upstream has the 55 characters of the format.
\<close>

theorem from_raw_safe:
  assumes "length trace_bytes = 16" and "length span_bytes = 8"
  shows "wf_context (from_raw trace_bytes span_bytes raw) \<and>
    parent_span_id (from_raw trace_bytes span_bytes raw) = hex_lower span_bytes \<and>
    length (to_traceparent (from_raw trace_bytes span_bytes raw)) = 55 \<and>
    (\<forall>c. extract_traceparent raw = Present c \<longrightarrow>
       trace_id (from_raw trace_bytes span_bytes raw) = trace_id c)"
proof -
  have wf: "wf_context (from_raw trace_bytes span_bytes raw)"
    using assms extract_wf [of raw]
    by (auto simp: from_raw_def wf_context_def TRACE_ID_LEN_def SPAN_ID_LEN_def
        split: TraceContextExtraction.splits)
  then have "length (to_traceparent (from_raw trace_bytes span_bytes raw)) = 55"
    by (simp add: to_traceparent_def wf_context_def TRACE_ID_LEN_def SPAN_ID_LEN_def byte_hex_def)
  with wf show ?thesis by (auto simp: from_raw_def split: TraceContextExtraction.splits)
qed

subsection \<open>The generator\<close>

definition bytes_value :: "u8 list \<Rightarrow> nat" where
  "bytes_value bs = fold (\<lambda>b a. a * 256 + unat b) bs 0"

fun rev_value :: "u8 list \<Rightarrow> nat" where
  "rev_value [] = 0"
| "rev_value (b # bs) = unat b + 256 * rev_value bs"

lemma bytes_value_rev: "bytes_value bs = rev_value (rev bs)"
proof -
  have "fold (\<lambda>b a. a * 256 + unat b) bs acc = rev_value (rev bs) + 256 ^ length bs * acc" for acc
  proof (induction bs arbitrary: acc)
    case (Cons b bs)
    have "rev_value (xs @ [b]) = rev_value xs + 256 ^ length xs * unat b" for xs
      by (induction xs) (simp_all add: algebra_simps)
    with Cons show ?case by (simp add: algebra_simps)
  qed simp
  then show ?thesis by (simp add: bytes_value_def)
qed

lemma rev_value_less: "rev_value bs < 256 ^ length bs"
proof (induction bs)
  case (Cons b bs)
  then show ?case using unat_u8 [of b] by simp
qed simp

lemma bump_value:
  "bump bs = (bs', stopped) \<Longrightarrow> length bs' = length bs \<and>
     (if stopped then rev_value bs' = Suc (rev_value bs)
      else Suc (rev_value bs) = 256 ^ length bs \<and> rev_value bs' = 0)"
proof (induction bs arbitrary: bs' stopped)
  case (Cons b bs)
  show ?case
  proof (cases "b + 1 = 0")
    case True
    then have "b = - 1" by (simp add: eq_neg_iff_add_eq_0)
    then have "unat b = 255" by (simp add: unat_max_word)
    moreover obtain cs where "bump bs = (cs, stopped)" "bs' = 0 # cs"
      using Cons.prems True by (auto split: prod.splits)
    ultimately show ?thesis using Cons.IH by auto
  next
    case False
    then have "unat (b + 1) \<noteq> 0" by (simp add: unat_eq_0)
    then have "unat (b + 1) = Suc (unat b)"
      using unat_u8 [of b] by (cases "unat b = 255") (simp_all add: unat_word_ariths)
    then show ?thesis using Cons.prems False by auto
  qed
qed simp


lemma next_trace_id_value:
  assumes "initialized st" and "length (last_random_bytes st) = 16"
    and "Suc (bytes_value (last_random_bytes st)) < 2 ^ 128"
  shows "fst (next_trace_id random st) = hex_lower (last_random_bytes (snd (next_trace_id random st))) \<and>
    bytes_value (last_random_bytes (snd (next_trace_id random st))) = Suc (bytes_value (last_random_bytes st)) \<and>
    length (last_random_bytes (snd (next_trace_id random st))) = 16 \<and>
    initialized (snd (next_trace_id random st))"
proof -
  obtain bs stopped where b: "bump (rev (last_random_bytes st)) = (bs, stopped)" by fastforce
  have "(256 :: nat) ^ 16 = 2 ^ 128" by simp
  with bump_value [OF b] assms(2,3) have s: "stopped" and v: "rev_value bs = Suc (bytes_value (last_random_bytes st))"
    and l: "length bs = 16"
    by (auto simp: bytes_value_rev split: if_splits)
  have "rev bs \<noteq> replicate 16 0"
  proof
    assume "rev bs = replicate 16 0"
    then have "bytes_value (rev bs) = 0" by (simp add: bytes_value_def eval_nat_numeral)
    with v show False by (simp add: bytes_value_rev)
  qed
  with b s v l assms(1) show ?thesis by (simp add: next_trace_id_def bytes_value_rev Let_def)
qed

text \<open>The ids of successive calls; \<open>random n\<close> is what the random generator would fill in.\<close>

fun trace_ids :: "(nat \<Rightarrow> u8 list) \<Rightarrow> nat \<Rightarrow> TraceIdState \<Rightarrow> string list" where
  "trace_ids random 0 st = []"
| "trace_ids random (Suc n) st =
     (let (s, st') = next_trace_id (random n) st in s # trace_ids random n st')"

lemma trace_ids_values:
  assumes "initialized st" and "length (last_random_bytes st) = 16"
    and "bytes_value (last_random_bytes st) + n < 2 ^ 128"
  shows "map (digits_val 16 0) (trace_ids random n st) =
    map Some [Suc (bytes_value (last_random_bytes st))..<Suc (bytes_value (last_random_bytes st) + n)]"
  using assms
proof (induction n arbitrary: st)
  case (Suc n)
  let ?st = "snd (next_trace_id (random n) st)"
  have nx: "fst (next_trace_id (random n) st) = hex_lower (last_random_bytes ?st)"
    "bytes_value (last_random_bytes ?st) = Suc (bytes_value (last_random_bytes st))"
    "length (last_random_bytes ?st) = 16" "initialized ?st"
    using next_trace_id_value [of st "random n"] Suc.prems by auto
  have "map (digits_val 16 0) (trace_ids random n ?st) =
      map Some [Suc (Suc (bytes_value (last_random_bytes st)))..<
        Suc (Suc (bytes_value (last_random_bytes st)) + n)]"
    using Suc.IH [OF nx(4,3)] nx(2) Suc.prems(3) by simp
  moreover have "digits_val 16 0 (hex_lower (last_random_bytes ?st)) = Some (Suc (bytes_value (last_random_bytes st)))"
    using nx(2) by (simp add: hex_lower_value bytes_value_def)
  ultimately show ?case using nx(1) by (simp add: split_beta Let_def upt_conv_Cons del: upt_Suc)
qed simp

text \<open>
  The ids of one process do not repeat: once the generator has been seeded, the next \<open>n\<close> trace
  ids are pairwise different, until the 128-bit counter overflows.
\<close>

theorem trace_ids_distinct:
  assumes "initialized st" and "length (last_random_bytes st) = 16"
    and "bytes_value (last_random_bytes st) + n < 2 ^ 128"
  shows "distinct (trace_ids random n st)"
proof -
  have "distinct (map (digits_val 16 0) (trace_ids random n st))"
    unfolding trace_ids_values [OF assms] by (simp add: distinct_map del: upt_Suc)
  then show ?thesis by (simp add: distinct_map)
qed

subsection \<open>Concrete contexts\<close>

definition demo_context :: TraceContext where
  "demo_context = \<lparr>trace_id = hex_lower (replicate 16 0xa5), parent_span_id = hex_lower (replicate 8 0x17),
     flags = 1, tracestate = Some ''vendor=1''\<rparr>"

theorem traceparent_roundtrip_witness:
  "extract_from_headers (Some (to_traceparent demo_context)) (Some ''vendor=1'') = Present demo_context"
  using traceparent_roundtrip [of demo_context]
  by (simp add: wf_context_def demo_context_def TRACE_ID_LEN_def SPAN_ID_LEN_def)

theorem from_raw_safe_witness:
  "wf_context (from_raw (replicate 16 7) (replicate 8 9) ''garbage'')"
  using from_raw_safe [of "replicate 16 7" "replicate 8 9" "''garbage''"] by simp

theorem trace_ids_distinct_witness:
  "\<forall>random. distinct (trace_ids random 1000 \<lparr>last_random_bytes = replicate 16 0, initialized = True\<rparr>)"
proof
  fix random
  have "bytes_value (replicate 16 0) = 0" by (simp add: bytes_value_def eval_nat_numeral)
  then show "distinct (trace_ids random 1000 \<lparr>last_random_bytes = replicate 16 0, initialized = True\<rparr>)"
    by (intro trace_ids_distinct) simp_all
qed

end
