(* ===== verification/Envelope.thy ===== *)
theory Envelope
  imports Client_Auth Redaction Trace_Context
begin

section \<open>What is logged of a request\<close>

text \<open>
  The redacted envelope and the trace context of a request, from \<^verbatim>\<open>server/src/ingress/observability.rs\<close>.
  \<open>to_string\<close> and \<open>from_str\<close> are the text functions of \<^verbatim>\<open>serde_json\<close>, \<open>sha256_hex\<close> is the digest of a
  payload as hexadecimal text.
\<close>

definition is_ascii_alphanumeric :: "char \<Rightarrow> bool" where
  "is_ascii_alphanumeric c \<longleftrightarrow> is_ascii_digit c \<or> is_ascii_upper c \<or> 97 \<le> byte c \<and> byte c \<le> 122"

text \<open>The payload of a string: what follows the marker of a data URL, or all of it.\<close>

definition media_payload :: "string \<Rightarrow> string" where
  "media_payload s =
     (case strip_prefix ''data:'' s of
        Some stripped \<Rightarrow>
          (case str_find stripped '';base64,'' of Some i \<Rightarrow> drop (i + 8) stripped | None \<Rightarrow> s)
      | None \<Rightarrow> s)"

definition is_large_base64 :: "string \<Rightarrow> bool" where
  "is_large_base64 s =
     (if length s < 512 then False
      else
        let working = media_payload s in
        if length working < 512 then False
        else
          let total = length working;
              non_b64 = length (filter (\<lambda>c. \<not> is_ascii_alphanumeric c \<and> c \<noteq> CHR ''+'' \<and> c \<noteq> CHR ''/'' \<and>
                c \<noteq> CHR ''='') working)
          in non_b64 * 100 \<le> total * 2)"

definition build_media_meta :: "(string \<Rightarrow> string) \<Rightarrow> string \<Rightarrow> json" where
  "build_media_meta sha256_hex s =
     (let mime = (case strip_prefix ''data:'' s of
                    Some stripped \<Rightarrow> hd (split_on (CHR '';'') stripped)
                  | None \<Rightarrow> ''application/octet-stream'');
          working = media_payload s;
          binary_size = (length working * 3) div 4
      in JString (''[_media_meta mime='' @ mime @ '' size_bytes='' @ nat_str binary_size @
           '' sha256_hex='' @ sha256_hex working @ '']''))"

fun strip_media_from_value :: "(string \<Rightarrow> string) \<Rightarrow> json \<Rightarrow> json" where
  "strip_media_from_value sha (JObject kvs) =
     JObject (map (\<lambda>(k, v). (k, strip_media_from_value sha v)) kvs)"
| "strip_media_from_value sha (JArray xs) = JArray (map (strip_media_from_value sha) xs)"
| "strip_media_from_value sha (JString s) =
     (if is_large_base64 s then build_media_meta sha s else JString s)"
| "strip_media_from_value sha v = v"

definition strip_inline_media :: "(string \<Rightarrow> json option) \<Rightarrow> (json \<Rightarrow> string option) \<Rightarrow>
    (string \<Rightarrow> string) \<Rightarrow> string \<Rightarrow> string" where
  "strip_inline_media from_str to_string sha body =
     (case from_str body of
        None \<Rightarrow> body
      | Some v \<Rightarrow> unwrap_or (to_string (strip_media_from_value sha v)) body)"

definition envelope_headers :: "Redactor \<Rightarrow> header_map \<Rightarrow> string \<rightharpoonup> string" where
  "envelope_headers red headers =
     map_of (rev (redact_headers red (map (\<lambda>(k, v). (k, unwrap_or v [])) headers)))"

definition build_redacted_envelope :: "(string \<Rightarrow> json option) \<Rightarrow> (json \<Rightarrow> string option) \<Rightarrow>
    (string \<Rightarrow> string) \<Rightarrow> bool \<Rightarrow> Redactor \<Rightarrow> string \<Rightarrow> string \<Rightarrow> json \<Rightarrow> header_map \<Rightarrow> int \<Rightarrow> RawEnvelope" where
  "build_redacted_envelope from_str to_string sha capture_media red method path body headers now =
     (let body_str = unwrap_or (to_string body) [];
          stored = (if capture_media then body_str
                    else strip_inline_media from_str to_string sha body_str)
      in \<lparr>env_method = method, env_path = path, env_headers = envelope_headers red headers,
          env_body = Some stored, env_original_body_size = length body_str, env_timestamp = now\<rparr>)"

definition build_redacted_envelope_raw :: "Redactor \<Rightarrow> string \<Rightarrow> string \<Rightarrow> nat \<Rightarrow> header_map \<Rightarrow> int \<Rightarrow>
    RawEnvelope" where
  "build_redacted_envelope_raw red method path original_body_size headers now =
     \<lparr>env_method = method, env_path = path, env_headers = envelope_headers red headers,
      env_body = None, env_original_body_size = original_body_size, env_timestamp = now\<rparr>"

text \<open>The trace of a request: the caller's, with a span of the gateway's own, or a new one.\<close>

definition extract_trace :: "u8 list \<Rightarrow> u8 list \<Rightarrow> header_map \<Rightarrow> TraceContext" where
  "extract_trace trace_bytes span_bytes headers =
     (let raw_tp = header_get headers ''traceparent''; raw_ts = header_get headers ''tracestate'' in
      case extract_from_headers raw_tp raw_ts of
        Present ctx \<Rightarrow> ctx\<lparr>parent_span_id := hex_lower span_bytes\<rparr>
      | Absent \<Rightarrow> \<lparr>trace_id = hex_lower trace_bytes, parent_span_id = hex_lower span_bytes,
                   flags = 1, tracestate = raw_ts\<rparr>)"

subsection \<open>What the log can hold\<close>

lemma envelope_headers_eq:
  "envelope_headers red hs =
     map_of (map (\<lambda>(k, v). (k, if should_redact_header red k then REDACTED else unwrap_or v [])) (rev hs))"
  unfolding envelope_headers_def redact_headers_exact rev_map [symmetric]
  by (simp add: comp_def case_prod_unfold cong: if_cong)

lemma envelope_header_redacted:
  assumes "should_redact_header red k"
  shows "envelope_headers red hs k = (if k \<in> fst ` set hs then Some REDACTED else None)"
proof -
  have "map_of (map (\<lambda>(k, v). (k, if should_redact_header red k then REDACTED else unwrap_or v [])) xs) k =
      (if k \<in> fst ` set xs then Some REDACTED else None)" for xs :: header_map
    using assms by (induction xs) auto
  then show ?thesis by (simp add: envelope_headers_eq)
qed

lemma build_media_meta_string: "\<exists>t. build_media_meta sha s = JString t"
  by (simp add: build_media_meta_def Let_def)

lemma default_redacts_credentials:
  assumes "to_lowercase k \<in> {''authorization'', ''x-api-key'', ''x-goog-api-key'', ''cookie''}"
  shows "should_redact_header Redactor_with_defaults k"
  using assms
  by (auto simp: should_redact_header_def Redactor_with_defaults_def DEFAULT_HEADER_PATTERNS_def
      to_lowercase_def lower_char_def is_ascii_upper_def byte_def)

text \<open>
  C32.  No credential is logged.  Whatever headers a request carries, the envelope that is stored with its log
  row shows that a credential header was there, but not its value.
\<close>

theorem envelope_hides_credentials:
  assumes "to_lowercase k \<in> {''authorization'', ''x-api-key'', ''x-goog-api-key'', ''cookie''}"
  shows "env_headers (build_redacted_envelope from_str to_string sha capture Redactor_with_defaults
      method path body headers now) k = (if k \<in> fst ` set headers then Some REDACTED else None) \<and>
    env_headers (build_redacted_envelope_raw Redactor_with_defaults method path n headers now) k =
      (if k \<in> fst ` set headers then Some REDACTED else None)"
  using envelope_header_redacted [OF default_redacts_credentials [OF assms], of headers]
  by (simp add: build_redacted_envelope_def build_redacted_envelope_raw_def Let_def)

theorem envelope_hides_credentials_witness:
  "env_headers (build_redacted_envelope (\<lambda>s. None) (\<lambda>v. Some ''null'') (\<lambda>s. s) False
      Redactor_with_defaults ''POST'' ''/v1/chat/completions'' JNull
      [(''accept'', None), (''authorization'', Some ''Bearer secret'')] 0) ''authorization'' = Some REDACTED"
proof -
  have "to_lowercase ''authorization'' = ''authorization''"
    by (simp add: to_lowercase_def lower_char_def is_ascii_upper_def byte_def)
  then show ?thesis by (subst envelope_hides_credentials [THEN conjunct1]) simp_all
qed

text \<open>
  The trace of every request is well-formed: it continues a readable trace of the caller under the same
  trace id, or starts one, and always has a span of the gateway's own.
\<close>

theorem extract_trace_wf:
  assumes "length trace_bytes = 16" and "length span_bytes = 8"
  shows "wf_context (extract_trace trace_bytes span_bytes headers) \<and>
    parent_span_id (extract_trace trace_bytes span_bytes headers) = hex_lower span_bytes"
proof -
  have "wf_context c" if "extract_from_headers tp ts = Present c" for tp ts c
    using that extract_wf
    by (auto simp: extract_from_headers_def wf_context_def
        split: option.splits if_splits TraceContextExtraction.splits)
  then show ?thesis using assms
    by (auto simp: extract_trace_def Let_def wf_context_def TRACE_ID_LEN_def SPAN_ID_LEN_def
        split: TraceContextExtraction.splits)
qed

theorem extract_trace_wf_witness:
  "wf_context (extract_trace (replicate 16 7) (replicate 8 9) [(''traceparent'', Some ''garbage'')]) \<and>
   parent_span_id (extract_trace (replicate 16 7) (replicate 8 9) [(''traceparent'', Some ''garbage'')]) =
     hex_lower (replicate 8 9)"
  by (rule extract_trace_wf) simp_all

end
