(* ===== verification/Request_Scope.thy ===== *)
theory Request_Scope
  imports Envelope
begin

section \<open>The terminal event of a request\<close>

text \<open>
  \<^verbatim>\<open>RequestScope\<close> of \<^verbatim>\<open>server/src/ingress/observability.rs\<close>: the guard a handler holds from its first line on.
  It gathers what is known of the request; \<open>emit_ok\<close> and \<open>emit_error\<close> consume it and write the request's
  row, and if the guard is dropped while it is still armed, the row is written by \<open>scope_drop\<close>.

  \<open>telemetry\<close> is what has been handed to the telemetry bus.  The clock readings of an emission (the two
  elapsed times and the two time stamps) are \<open>emit_times\<close>.
\<close>

record LatencyBreakdown =
  total_ms :: nat
  upstream_ms :: nat
  queue_ms :: nat

record RequestEvent =
  rv_request_id :: string
  rv_timestamp :: int
  rv_virtual_model :: string
  rv_resolved_provider :: "string option"
  rv_resolved_model :: "string option"
  rv_account_label :: "string option"
  rv_trace_id :: "string option"
  rv_span_id :: "string option"
  rv_traceparent :: "string option"
  rv_ingress_protocol :: string
  rv_egress_protocol :: "string option"
  rv_lossy :: bool
  rv_cache_hit :: "string option"
  rv_status :: RequestStatus
  rv_error_class :: "RequestErrorClass option"
  rv_http_status :: "nat option"
  rv_error_source :: "string option"
  rv_latency_ms :: LatencyBreakdown
  rv_ttfb_ms :: "nat option"
  rv_tokens :: "Usage option"
  rv_cost :: "nat option"
  rv_api_key_id :: "string option"
  rv_client_ip :: "string option"
  rv_user_agent :: "string option"
  rv_raw_envelope :: "RawEnvelope option"

record telemetry =
  tl_requests :: "RequestEvent list"
  tl_completions :: "PipelineEvent list"

record emit_times =
  et_total_ms :: nat
  et_upstream_ms :: nat
  et_timestamp :: int
  et_completed_at :: int

definition emit_request_event :: "emit_times \<Rightarrow> string \<Rightarrow> string \<Rightarrow> string option \<Rightarrow> string option \<Rightarrow>
    ProtocolEndpoint \<Rightarrow> ProtocolEndpoint option \<Rightarrow> RequestStatus \<Rightarrow> RequestErrorClass option \<Rightarrow>
    string option \<Rightarrow> nat option \<Rightarrow> bool \<Rightarrow> string option \<Rightarrow> LatencyBreakdown \<Rightarrow> nat option \<Rightarrow> Usage option \<Rightarrow>
    string option \<Rightarrow> TraceContext \<Rightarrow> RawEnvelope option \<Rightarrow> telemetry \<Rightarrow> telemetry" where
  "emit_request_event tm request_id virtual_model resolved_provider resolved_model ingress egress status
     error_class error_source http_status lossy cache_hit latency ttfb_ms tokens caller_key_id trace
     envelope bus =
     (let event = \<lparr>rv_request_id = request_id, rv_timestamp = et_timestamp tm,
            rv_virtual_model = virtual_model, rv_resolved_provider = resolved_provider,
            rv_resolved_model = resolved_model, rv_account_label = None,
            rv_trace_id = Some (trace_id trace), rv_span_id = Some (parent_span_id trace),
            rv_traceparent = Some (to_traceparent trace),
            rv_ingress_protocol = protocol_log_label ingress,
            rv_egress_protocol = map_option protocol_log_label egress, rv_lossy = lossy,
            rv_cache_hit = cache_hit, rv_status = status, rv_error_class = error_class,
            rv_http_status = http_status, rv_error_source = error_source, rv_latency_ms = latency,
            rv_ttfb_ms = ttfb_ms, rv_tokens = tokens, rv_cost = None, rv_api_key_id = caller_key_id,
            rv_client_ip = None, rv_user_agent = None, rv_raw_envelope = envelope\<rparr>;
          pe = \<lparr>ev_request_id = request_id, ev_timestamp = et_completed_at tm,
            ev_stage = ''request_completed'',
            ev_payload = RequestCompleted (status_as_str status) (map_option class_as_str error_class)
              (total_ms latency) (upstream_ms latency) ttfb_ms tokens None caller_key_id None None
              (Some (trace_id trace)) (Some (parent_span_id trace))\<rparr>
      in \<lparr>tl_requests = tl_requests bus @ [event], tl_completions = tl_completions bus @ [pe]\<rparr>)"

record RequestScope =
  sc_request_id :: string
  sc_virtual_model :: string
  sc_ingress :: ProtocolEndpoint
  sc_egress :: "ProtocolEndpoint option"
  sc_resolved_provider :: "string option"
  sc_resolved_model :: "string option"
  sc_trace :: TraceContext
  sc_caller_key_id :: string
  sc_envelope :: "RawEnvelope option"
  sc_ttfb_ms :: "nat option"
  sc_armed :: bool
  sc_waiting_upstream :: bool

definition RequestScope_new :: "string \<Rightarrow> string \<Rightarrow> ProtocolEndpoint \<Rightarrow> TraceContext \<Rightarrow> RequestScope" where
  "RequestScope_new request_id virtual_model ingress trace =
     \<lparr>sc_request_id = request_id, sc_virtual_model = virtual_model, sc_ingress = ingress,
      sc_egress = None, sc_resolved_provider = None, sc_resolved_model = None, sc_trace = trace,
      sc_caller_key_id = ''anonymous'', sc_envelope = None, sc_ttfb_ms = None, sc_armed = True,
      sc_waiting_upstream = False\<rparr>"

definition set_egress :: "RequestScope \<Rightarrow> ProtocolEndpoint \<Rightarrow> RequestScope" where
  "set_egress sc egress = sc\<lparr>sc_egress := Some egress\<rparr>"

definition set_resolved :: "RequestScope \<Rightarrow> string \<Rightarrow> string \<Rightarrow> RequestScope" where
  "set_resolved sc p m = sc\<lparr>sc_resolved_provider := Some p, sc_resolved_model := Some m\<rparr>"

definition set_caller_key_id :: "RequestScope \<Rightarrow> string \<Rightarrow> RequestScope" where
  "set_caller_key_id sc key = sc\<lparr>sc_caller_key_id := key\<rparr>"

definition set_envelope :: "RequestScope \<Rightarrow> RawEnvelope \<Rightarrow> RequestScope" where
  "set_envelope sc e = sc\<lparr>sc_envelope := Some e\<rparr>"

definition set_ttfb_ms :: "RequestScope \<Rightarrow> nat option \<Rightarrow> RequestScope" where
  "set_ttfb_ms sc t = sc\<lparr>sc_ttfb_ms := t\<rparr>"

definition set_virtual_model :: "RequestScope \<Rightarrow> string \<Rightarrow> RequestScope" where
  "set_virtual_model sc m = sc\<lparr>sc_virtual_model := m\<rparr>"

definition mark_waiting_upstream :: "RequestScope \<Rightarrow> RequestScope" where
  "mark_waiting_upstream sc = sc\<lparr>sc_waiting_upstream := True\<rparr>"

definition scope_latency :: "emit_times \<Rightarrow> LatencyBreakdown" where
  "scope_latency tm = \<lparr>total_ms = et_total_ms tm, upstream_ms = et_upstream_ms tm, queue_ms = 0\<rparr>"

definition emit_internal :: "emit_times \<Rightarrow> RequestScope \<Rightarrow> RequestStatus \<Rightarrow> RequestErrorClass option \<Rightarrow>
    string option \<Rightarrow> nat option \<Rightarrow> telemetry \<Rightarrow> RequestScope \<times> telemetry" where
  "emit_internal tm sc status error_class error_source http_status bus =
     (sc\<lparr>sc_armed := False\<rparr>,
      emit_request_event tm (sc_request_id sc) (sc_virtual_model sc) (sc_resolved_provider sc)
        (sc_resolved_model sc) (sc_ingress sc) (sc_egress sc) status error_class error_source
        http_status False None (scope_latency tm) (sc_ttfb_ms sc) None (Some (sc_caller_key_id sc))
        (sc_trace sc) (sc_envelope sc) bus)"

text \<open>The destructor, which runs when a scope goes out of use in whatever way.\<close>

definition scope_drop :: "emit_times \<Rightarrow> RequestScope \<Rightarrow> telemetry \<Rightarrow> telemetry" where
  "scope_drop tm sc bus =
     (if \<not> sc_armed sc then bus
      else
        let error_class = (if sc_waiting_upstream sc then ClientDisconnect else InternalError);
            status = status_of_tier (tier error_class)
        in emit_request_event tm (sc_request_id sc) (sc_virtual_model sc) (sc_resolved_provider sc)
             (sc_resolved_model sc) (sc_ingress sc) (sc_egress sc) status (Some error_class)
             (Some (if sc_waiting_upstream sc then ''client disconnected while awaiting upstream''
                    else ''handler dropped without terminal event''))
             (Some (if sc_waiting_upstream sc then 499 else 500)) False None (scope_latency tm)
             (sc_ttfb_ms sc) None (Some (sc_caller_key_id sc)) (sc_trace sc) (sc_envelope sc) bus)"

text \<open>\<open>emit_ok\<close> and \<open>emit_error\<close> consume the scope, so its destructor runs right after them.\<close>

definition emit_ok :: "emit_times \<Rightarrow> RequestScope \<Rightarrow> nat option \<Rightarrow> telemetry \<Rightarrow> telemetry" where
  "emit_ok tm sc http_status bus =
     (let (sc', bus') = emit_internal tm sc RequestStatus.Success None None http_status bus
      in scope_drop tm sc' bus')"

definition emit_error :: "emit_times \<Rightarrow> RequestScope \<Rightarrow> RequestErrorClass \<Rightarrow> string option \<Rightarrow> nat option \<Rightarrow>
    telemetry \<Rightarrow> telemetry" where
  "emit_error tm sc error_class error_source http_status bus =
     (let (sc', bus') = emit_internal tm sc (status_of_tier (tier error_class)) (Some error_class)
            error_source http_status bus
      in scope_drop tm sc' bus')"

definition disarm :: "emit_times \<Rightarrow> RequestScope \<Rightarrow> telemetry \<Rightarrow> telemetry" where
  "disarm tm sc bus = scope_drop tm (sc\<lparr>sc_armed := False\<rparr>) bus"

subsection \<open>One row\<close>

text \<open>\<open>one_row\<close>: a log grows by one row, and one completion event, with the given facts.\<close>

definition one_row :: "RequestScope \<Rightarrow> RequestStatus \<Rightarrow> RequestErrorClass option \<Rightarrow> nat option \<Rightarrow>
    telemetry \<Rightarrow> telemetry \<Rightarrow> bool" where
  "one_row sc status error_class http_status bus bus' \<longleftrightarrow>
     (\<exists>row pe. tl_requests bus' = tl_requests bus @ [row] \<and> tl_completions bus' = tl_completions bus @ [pe] \<and>
        rv_request_id row = sc_request_id sc \<and> rv_virtual_model row = sc_virtual_model sc \<and>
        rv_api_key_id row = Some (sc_caller_key_id sc) \<and> rv_raw_envelope row = sc_envelope sc \<and>
        rv_status row = status \<and> rv_error_class row = error_class \<and> rv_http_status row = http_status \<and>
        ev_request_id pe = sc_request_id sc)"

lemma emit_ok_row: "one_row sc RequestStatus.Success None http bus (emit_ok tm sc http bus)"
  by (simp add: emit_ok_def emit_internal_def scope_drop_def emit_request_event_def one_row_def Let_def)

lemma emit_error_row:
  "one_row sc (status_of_tier (tier c)) (Some c) http bus (emit_error tm sc c src http bus)"
  by (simp add: emit_error_def emit_internal_def scope_drop_def emit_request_event_def one_row_def Let_def)

lemma scope_drop_row:
  assumes "sc_armed sc"
  shows "one_row sc RequestStatus.Abnormal
    (Some (if sc_waiting_upstream sc then ClientDisconnect else InternalError))
    (Some (if sc_waiting_upstream sc then 499 else 500)) bus (scope_drop tm sc bus)"
  using assms
  by (simp add: scope_drop_def emit_request_event_def one_row_def Let_def tier_def)

lemmas scope_setters = set_egress_def set_resolved_def set_caller_key_id_def set_envelope_def
  set_ttfb_ms_def set_virtual_model_def mark_waiting_upstream_def RequestScope_new_def

end
