(* ===== verification/Fallback.thy ===== *)
theory Fallback
  imports App_Error
begin

section \<open>The fallback loop\<close>

text \<open>
  The model of \<^verbatim>\<open>crates/server/src/ingress/fallback.rs\<close>: one request walks the ordered targets of its
  route, skips the ones whose circuit is open, calls the others, records each outcome in the shared
  health registry and decides whether to go on.

  Everything the loop observes of its surroundings is a field of \<open>env\<close>, indexed by a step counter
  that grows with every reading and every \<^verbatim>\<open>await\<close>: the monotonic and the wall clock, the random
  draws, the result of calling a target (with the access token the call applied), the OAuth refresh,
  and the operations other requests perform on the registry while this one is suspended.
  What the loop does to its surroundings is the record \<open>world\<close>: the registry, the events sent, the
  calls made, the sleeps, and the fields of the request scope it sets.
\<close>

record 'r env =
  env_now :: "nat \<Rightarrow> instant"
  env_utc :: "nat \<Rightarrow> int"
  env_jitter :: "nat \<Rightarrow> rat"
  env_draw :: "nat \<Rightarrow> rat"
  env_execute :: "nat \<Rightarrow> RoutingTarget \<Rightarrow> (AppError + 'r \<times> nat option) \<times> string option"
  env_refresh :: "nat \<Rightarrow> RoutingTarget \<Rightarrow> string \<Rightarrow> bool option"
  env_others :: "nat \<Rightarrow> HealthRegistry \<Rightarrow> HealthRegistry"

record 'r world =
  w_health :: HealthRegistry
  w_events :: "PipelineEvent list"
  w_calls :: "(RoutingTarget \<times> (AppError + 'r \<times> nat option)) list"
  w_sleeps :: "rat list"
  w_egress :: "ProtocolEndpoint option"
  w_resolved :: "(string \<times> string) option"
  w_ttfb :: "nat option"
  w_tick :: nat

datatype 'r FallbackOutcome = Success 'r "nat option" | Exhausted AppError
  | Failed AppError RequestErrorClass

record loop_state =
  ls_attempt :: nat
  ls_hop :: nat
  ls_target_index :: nat
  ls_last_error :: "AppError option"
  ls_oauth_recovered :: "string set"

datatype 'r step_result = Stop "'r FallbackOutcome" | Next loop_state

definition initial_loop_state :: loop_state where
  "initial_loop_state = \<lparr>ls_attempt = 0, ls_hop = 0, ls_target_index = 0, ls_last_error = None,
     ls_oauth_recovered = {}\<rparr>"

subsection \<open>Observing and awaiting\<close>

definition tick :: "'r world \<Rightarrow> 'r world" where
  "tick w = w\<lparr>w_tick := Suc (w_tick w)\<rparr>"

definition await :: "'r env \<Rightarrow> 'r world \<Rightarrow> 'r world" where
  "await E w = tick (w\<lparr>w_health := env_others E (w_tick w) (w_health w)\<rparr>)"

definition send_at :: "'r env \<Rightarrow> string \<Rightarrow> int \<Rightarrow> string \<Rightarrow> EventPayload \<Rightarrow> 'r world \<Rightarrow> 'r world" where
  "send_at E rid time stage payload w =
     await E (w\<lparr>w_events := w_events w @ [\<lparr>ev_request_id = rid, ev_timestamp = time,
       ev_stage = stage, ev_payload = payload\<rparr>]\<rparr>)"

definition send :: "'r env \<Rightarrow> string \<Rightarrow> string \<Rightarrow> EventPayload \<Rightarrow> 'r world \<Rightarrow> 'r world" where
  "send E rid stage payload w = send_at E rid (env_utc E (w_tick w)) stage payload (tick w)"

definition emit_hop_decision ::
    "'r env \<Rightarrow> string \<Rightarrow> string \<Rightarrow> nat \<Rightarrow> string \<Rightarrow> 'r world \<Rightarrow> 'r world" where
  "emit_hop_decision E rid target hop decision w =
     send E rid ''execute'' (HopDecision target hop decision) w"

subsection \<open>One hop\<close>

definition call_target :: "'r env \<Rightarrow> RoutingTarget \<Rightarrow> 'r world \<Rightarrow>
    (AppError + 'r \<times> nat option) \<times> string option \<times> 'r world" where
  "call_target E target w =
     (let r = env_execute E (w_tick w) target
      in (fst r, snd r, await E (w\<lparr>w_calls := w_calls w @ [(target, fst r)]\<rparr>)))"

text \<open>The call of a target, repeated once after a successful OAuth refresh.\<close>

definition execute_target :: "'r env \<Rightarrow> RoutingTarget \<Rightarrow> string \<Rightarrow> string set \<Rightarrow> 'r world \<Rightarrow>
    (AppError + 'r \<times> nat option) \<times> string set \<times> 'r world" where
  "execute_target E target key recovered w =
     (let (execution, rejected, w1) = call_target E target w in
      if (case execution of Inl e \<Rightarrow> ae_status e = 401 | Inr _ \<Rightarrow> False) \<and> key \<notin> recovered then
        (case rejected of
           Some tok \<Rightarrow>
             let refreshed = unwrap_or (env_refresh E (w_tick w1) target tok) False;
                 w2 = await E w1
             in if refreshed
                then let (execution', _, w3) = call_target E target w2
                     in (execution', insert key recovered, w3)
                else (execution, insert key recovered, w2)
         | None \<Rightarrow> (execution, recovered, w1))
      else (execution, recovered, w1))"

definition elapsed_ms :: "int \<Rightarrow> int \<Rightarrow> nat" where
  "elapsed_ms start stop = nat ((stop - start) div 1000000)"

definition hop_success :: "'r env \<Rightarrow> string \<Rightarrow> string \<Rightarrow> nat \<Rightarrow> int \<Rightarrow> 'r \<Rightarrow> nat option \<Rightarrow> 'r world \<Rightarrow>
    'r step_result \<times> 'r world" where
  "hop_success E rid key hop started response ttfb_ms w =
     (let ms = elapsed_ms started (env_utc E (w_tick w));
          w1 = tick w;
          w2 = w1\<lparr>w_health := record_latency_ms (record_success (w_health w1) key) key ms\<rparr>;
          w3 = send E rid ''execute'' (HopSuccess key hop ms None) w2;
          w4 = emit_hop_decision E rid key hop ''success'' w3
      in (Stop (Success response ttfb_ms), w4\<lparr>w_ttfb := ttfb_ms\<rparr>))"

definition classify_app_error :: "AppError \<Rightarrow> ErrorClassification" where
  "classify_app_error e =
     (if ae_upstream_status e \<noteq> None \<or> ae_upstream_error_code e \<noteq> None
      then classify_structured (ae_upstream_status e) (ae_upstream_error_code e)
      else classify_error (Error.Routing (ae_message e)))"

definition cool :: "'r env \<Rightarrow> string \<Rightarrow> duration \<Rightarrow> string \<Rightarrow> 'r world \<Rightarrow> 'r world rust" where
  "cool E key d reason w =
     bind_rust (apply_cooling (w_health w) (env_now E (w_tick w)) key d reason)
       (\<lambda>h. Inr (tick (w\<lparr>w_health := h\<rparr>)))"

definition rate_limit_cooling ::
    "'r env \<Rightarrow> string \<Rightarrow> ErrorClass \<Rightarrow> AppError \<Rightarrow> 'r world \<Rightarrow> 'r world rust" where
  "rate_limit_cooling E key cls e w =
     (if cls = ErrorClass.RateLimited then
        (case ae_retry_after_header e of
           Some rh \<Rightarrow>
             (case parse_u64 rh of
                Some secs \<Rightarrow> cool E key (from_secs secs) ''rate_limited'' w
              | None \<Rightarrow> cool E key (from_secs 30) ''rate_limited'' w)
         | None \<Rightarrow> Inr w)
      else Inr w)"

fun skip_account :: "string option \<Rightarrow> RoutingTarget list \<Rightarrow> nat" where
  "skip_account label [] = 0"
| "skip_account label (t # ts) =
     (if label \<noteq> None \<and> account_label t = label then Suc (skip_account label ts) else 0)"

abbreviation fallback_policy :: DefaultFallbackPolicy where
  "fallback_policy \<equiv> DefaultFallbackPolicy_with_defaults"

definition decide :: "'r env \<Rightarrow> string \<Rightarrow> RoutingTarget list \<Rightarrow> RoutingTarget \<Rightarrow> string \<Rightarrow> AppError \<Rightarrow>
    ErrorClassification \<Rightarrow> loop_state \<Rightarrow> 'r world \<Rightarrow> ('r step_result \<times> 'r world) rust" where
  "decide E rid ordered target key e cls ls w =
     (let ls' = ls\<lparr>ls_last_error := Some e\<rparr> in
      case policy_classify fallback_policy (Error.Routing (ae_message e)) (ls_attempt ls)
             (max_total_attempts fallback_policy) 0 of
        TryNext \<Rightarrow>
          let w1 = emit_hop_decision E rid key (ls_hop ls) ''try_next'' w;
              ti = Suc (ls_target_index ls)
          in if ec_fallback_class cls = ErrorClass.Auth then
               bind_rust (cool E key (from_secs 300) ''auth_broken'' w1) (\<lambda>w2.
                 Inr (Next (ls'\<lparr>ls_target_index :=
                        ti + skip_account (account_label target) (drop ti ordered)\<rparr>), w2))
             else Inr (Next (ls'\<lparr>ls_target_index := ti\<rparr>), w1)
      | Retry \<Rightarrow> Inr (Next ls', emit_hop_decision E rid key (ls_hop ls) ''retry'' w)
      | Fail \<Rightarrow> Inr (Stop (Failed e (ec_class cls)),
                     emit_hop_decision E rid key (ls_hop ls) ''fail'' w))"

definition hop_failure :: "'r env \<Rightarrow> string \<Rightarrow> RoutingTarget list \<Rightarrow> RoutingTarget \<Rightarrow> string \<Rightarrow> int \<Rightarrow>
    AppError \<Rightarrow> loop_state \<Rightarrow> 'r world \<Rightarrow> ('r step_result \<times> 'r world) rust" where
  "hop_failure E rid ordered target key started e ls w =
     (let ms = elapsed_ms started (env_utc E (w_tick w));
          w1 = tick w;
          w2 = tick (w1\<lparr>w_health := record_latency_ms
                 (record_failure (w_health w1) (env_now E (w_tick w1)) key) key ms\<rparr>);
          cls = classify_app_error e;
          w3 = send E rid ''execute'' (HopFailure key (ls_hop ls) (ae_message e)
                 (class_as_str (ec_class cls)) ms) w2
      in bind_rust (rate_limit_cooling E key (ec_fallback_class cls) e w3)
           (decide E rid ordered target key e cls ls))"

definition attempt_target :: "'r env \<Rightarrow> string \<Rightarrow> RoutingTarget list \<Rightarrow> RoutingTarget \<Rightarrow> string \<Rightarrow>
    loop_state \<Rightarrow> 'r world \<Rightarrow> ('r step_result \<times> 'r world) rust" where
  "attempt_target E rid ordered target key ls w =
     (let ls1 = ls\<lparr>ls_attempt := Suc (ls_attempt ls), ls_hop := Suc (ls_hop ls)\<rparr>;
          started = env_utc E (w_tick w);
          w1 = send_at E rid started ''execute'' (HopStart key (provider_id target)
                 (model_id target) (protocol_log_label (api_protocol target)) (ls_hop ls1)) (tick w);
          w2 = w1\<lparr>w_egress := Some (api_protocol target),
                  w_resolved := Some (provider_id target, model_id target)\<rparr>;
          (execution, recovered, w3) = execute_target E target key (ls_oauth_recovered ls1) w2;
          ls2 = ls1\<lparr>ls_oauth_recovered := recovered\<rparr>
      in case execution of
           Inr (response, ttfb_ms) \<Rightarrow>
             Inr (hop_success E rid key (ls_hop ls2) started response ttfb_ms w3)
         | Inl e \<Rightarrow> hop_failure E rid ordered target key started e ls2 w3)"

definition skip_target :: "'r env \<Rightarrow> string \<Rightarrow> string \<Rightarrow> loop_state \<Rightarrow> 'r world \<Rightarrow>
    'r step_result \<times> 'r world" where
  "skip_target E rid key ls w =
     (let hop = Suc (ls_hop ls);
          w1 = send E rid ''routing'' (HopFailure key hop ''circuit-broken'' ''circuit_breaker'' 0) w;
          w2 = emit_hop_decision E rid key hop ''try_next'' w1
      in (Next (ls\<lparr>ls_hop := hop, ls_target_index := Suc (ls_target_index ls)\<rparr>), w2))"

definition backoff :: "'r env \<Rightarrow> loop_state \<Rightarrow> 'r world \<Rightarrow> 'r world rust" where
  "backoff E ls w =
     (if ls_attempt ls > 0 \<and> ls_attempt ls > ls_target_index ls then
        bind_rust (delay_for RetryPolicy_with_defaults (env_jitter E (w_tick w)) (ls_attempt ls))
          (\<lambda>d. Inr (await E (w\<lparr>w_sleeps := w_sleeps w @ [d]\<rparr>)))
      else Inr w)"

subsection \<open>The loop\<close>

definition deadline_error :: AppError where
  "deadline_error = with_class (AppError_new 504 ''request deadline exceeded'')
     ErrorClass.DeadlineExceeded"

definition exhausted_error :: AppError where
  "exhausted_error = with_class (AppError_new 502 ''all upstream targets exhausted'')
     ErrorClass.UpstreamExhausted"

definition fallback_step :: "'r env \<Rightarrow> string \<Rightarrow> instant \<Rightarrow> RoutingTarget list \<Rightarrow> loop_state \<Rightarrow>
    'r world \<Rightarrow> ('r step_result \<times> 'r world) rust" where
  "fallback_step E rid deadline_at ordered ls w =
     (if env_now E (w_tick w) > deadline_at
      then Inr (Stop (Failed deadline_error RequestErrorClass.DeadlineExceeded), tick w)
      else
        let w1 = tick w;
            target = ordered ! ls_target_index ls;
            key = health_key target
        in if \<not> is_healthy (w_health w1) (env_now E (w_tick w1)) key
           then Inr (skip_target E rid key ls (tick w1))
           else bind_rust (backoff E ls (tick w1)) (attempt_target E rid ordered target key ls))"

text \<open>
  The fallback policy never asks for a retry of the same target, so every step that goes on moves to
  a later target: the loop ends because the targets run out.
\<close>

lemma policy_never_retries [simp]: "policy_classify p e a m b \<noteq> Retry"
  by (simp add: policy_classify_def)

lemma decide_result:
  assumes "decide E rid ordered target key e cls ls w = Inr (r, w')"
  obtains (failed) "r = Stop (Failed e (ec_class cls))"
    | (moved) ti where "r = Next (ls\<lparr>ls_last_error := Some e, ls_target_index := ti\<rparr>)"
        "ls_target_index ls < ti"
  using assms policy_never_retries
    [of fallback_policy "Error.Routing (ae_message e)" "ls_attempt ls"
      "max_total_attempts fallback_policy" 0]
  by (auto simp: decide_def Let_def split: FallbackDecision.splits if_splits)

lemma step_moves_on:
  assumes "fallback_step E rid dl ordered ls w = Inr (Next ls', w')"
  shows "ls_target_index ls < ls_target_index ls' \<and> ls_hop ls' = Suc (ls_hop ls) \<and>
    ls_attempt ls \<le> ls_attempt ls' \<and> ls_attempt ls' \<le> Suc (ls_attempt ls)"
proof -
  have failure: "ls_target_index l < ls_target_index ls' \<and> ls_hop ls' = ls_hop l \<and>
      ls_attempt ls' = ls_attempt l"
    if "hop_failure E rid ordered t k st e l v = Inr (Next ls', w')" for t k st e l v
    using that by (auto simp: hop_failure_def Let_def elim: decide_result)
  have "ls_target_index ls < ls_target_index ls' \<and> ls_hop ls' = Suc (ls_hop ls) \<and>
      ls_attempt ls' = Suc (ls_attempt ls)"
    if "attempt_target E rid ordered t k ls v = Inr (Next ls', w')" for t k v
    using that by (auto simp: attempt_target_def Let_def hop_success_def
        split: prod.splits sum.splits dest: failure)
  then show ?thesis using assms
    by (auto simp: fallback_step_def skip_target_def Let_def split: if_splits)
qed

function fallback_loop :: "'r env \<Rightarrow> string \<Rightarrow> instant \<Rightarrow> RoutingTarget list \<Rightarrow> loop_state \<Rightarrow>
    'r world \<Rightarrow> ('r FallbackOutcome \<times> 'r world) rust" where
  "fallback_loop E rid deadline_at ordered ls w =
     (if ls_target_index ls < length ordered \<and>
         ls_attempt ls < max_total_attempts fallback_policy then
        (case fallback_step E rid deadline_at ordered ls w of
           Inl p \<Rightarrow> Inl p
         | Inr (Stop out, w') \<Rightarrow> Inr (out, w')
         | Inr (Next ls', w') \<Rightarrow> fallback_loop E rid deadline_at ordered ls' w')
      else Inr (Exhausted (unwrap_or (ls_last_error ls) exhausted_error), w))"
  by pat_completeness auto
termination
  by (relation "measure (\<lambda>(E, rid, dl, ordered, ls, w). length ordered - ls_target_index ls)")
    (auto dest!: step_moves_on)

declare fallback_loop.simps [simp del]

definition execute_with_fallback :: "'r env \<Rightarrow> RoutingTable \<Rightarrow> RoutingStrategyName \<Rightarrow>
    RoutingTarget list \<Rightarrow> string \<Rightarrow> string \<Rightarrow> 'r world \<Rightarrow> ('r FallbackOutcome \<times> 'r world) rust" where
  "execute_with_fallback E table default_strategy targets virtual_model rid w =
     bind_rust (instant_add (env_now E (w_tick w)) (deadline fallback_policy)) (\<lambda>deadline_at.
       let w1 = tick w;
           nm = unwrap_or (resolve_strategy table virtual_model) default_strategy;
           (order, label) =
             build_strategy nm (w_health w1) (env_now E (w_tick w1)) (env_draw E)
       in bind_rust (order targets) (\<lambda>ordered.
            fallback_loop E rid deadline_at ordered initial_loop_state
              (send E rid ''ingress'' (RouteResolved (map health_key ordered) label) (tick w1))))"

subsection \<open>What one step does\<close>

text \<open>The hop numbers of the decisions sent, in order.\<close>

fun decision_hop :: "EventPayload \<Rightarrow> nat option" where
  "decision_hop (HopDecision t n d) = Some n"
| "decision_hop _ = None"

definition decision_hops :: "'r world \<Rightarrow> nat list" where
  "decision_hops w = List.map_filter (\<lambda>ev. decision_hop (ev_payload ev)) (w_events w)"

lemma tick_frame [simp]:
  "w_health (tick w) = w_health w" "w_events (tick w) = w_events w" "w_calls (tick w) = w_calls w"
  "w_sleeps (tick w) = w_sleeps w" "decision_hops (tick w) = decision_hops w"
  by (simp_all add: tick_def decision_hops_def)

lemma health_update_frame [simp]:
  "decision_hops (w\<lparr>w_health := h\<rparr>) = decision_hops w"
  "decision_hops (w\<lparr>w_egress := p, w_resolved := q\<rparr>) = decision_hops w"
  "decision_hops (w\<lparr>w_ttfb := n\<rparr>) = decision_hops w"
  by (simp_all add: decision_hops_def)

lemma await_frame [simp]:
  "w_events (await E w) = w_events w" "w_calls (await E w) = w_calls w"
  "w_sleeps (await E w) = w_sleeps w" "decision_hops (await E w) = decision_hops w"
  by (simp_all add: await_def decision_hops_def)

lemma send_frame [simp]:
  "w_calls (send_at E rid t st p w) = w_calls w" "w_sleeps (send_at E rid t st p w) = w_sleeps w"
  "w_calls (send E rid st p w) = w_calls w" "w_sleeps (send E rid st p w) = w_sleeps w"
  "w_calls (emit_hop_decision E rid k n d w) = w_calls w"
  "w_sleeps (emit_hop_decision E rid k n d w) = w_sleeps w"
  by (simp_all add: send_at_def send_def emit_hop_decision_def)

lemma send_decisions [simp]:
  "decision_hops (send_at E rid t st p w) =
     decision_hops w @ (case decision_hop p of Some n \<Rightarrow> [n] | None \<Rightarrow> [])"
  "decision_hops (send E rid st p w) =
     decision_hops w @ (case decision_hop p of Some n \<Rightarrow> [n] | None \<Rightarrow> [])"
  "decision_hops (emit_hop_decision E rid k n d w) = decision_hops w @ [n]"
  by (simp_all add: send_at_def send_def emit_hop_decision_def decision_hops_def await_def
      tick_def map_filter_def split: option.split)

lemma cool_frame:
  "cool E k d r w = Inr w' \<Longrightarrow>
     w_calls w' = w_calls w \<and> w_sleeps w' = w_sleeps w \<and> decision_hops w' = decision_hops w"
  by (auto simp: cool_def tick_def decision_hops_def)

lemma rate_limit_cooling_frame:
  "rate_limit_cooling E k c e w = Inr w' \<Longrightarrow>
     w_calls w' = w_calls w \<and> w_sleeps w' = w_sleeps w \<and> decision_hops w' = decision_hops w"
  by (auto simp: rate_limit_cooling_def split: if_splits option.splits dest: cool_frame)

lemma decide_frame:
  "decide E rid ordered t k e cls ls w = Inr (r, w') \<Longrightarrow>
     w_calls w' = w_calls w \<and> w_sleeps w' = w_sleeps w \<and>
     decision_hops w' = decision_hops w @ [ls_hop ls]"
  by (auto simp: decide_def Let_def split: if_splits FallbackDecision.splits dest!: cool_frame)

lemma hop_failure_frame:
  assumes "hop_failure E rid ordered t k st e ls w = Inr (r, w')"
  shows "w_calls w' = w_calls w \<and> w_sleeps w' = w_sleeps w \<and>
     decision_hops w' = decision_hops w @ [ls_hop ls]"
proof -
  obtain v where "w_calls v = w_calls w" "w_sleeps v = w_sleeps w" "decision_hops v = decision_hops w"
    and "decide E rid ordered t k e (classify_app_error e) ls v = Inr (r, w')"
    using assms by (auto simp: hop_failure_def Let_def dest!: rate_limit_cooling_frame)
  with decide_frame [OF this(4)] show ?thesis by simp
qed

text \<open>The calls of one hop: one, or two when the first was refused with 401.\<close>

definition hop_calls :: "RoutingTarget \<Rightarrow> (AppError + 'r \<times> nat option) \<Rightarrow>
    (RoutingTarget \<times> (AppError + 'r \<times> nat option)) list \<Rightarrow> bool" where
  "hop_calls t x cs \<longleftrightarrow> cs = [(t, x)] \<or> (\<exists>e. ae_status e = 401 \<and> cs = [(t, Inl e), (t, x)])"

lemma execute_target_frame:
  assumes "execute_target E t k rec w = (x, rec', w')"
  shows "\<exists>cs. hop_calls t x cs \<and> w_calls w' = w_calls w @ cs"
    and "w_sleeps w' = w_sleeps w" and "decision_hops w' = decision_hops w"
  using assms unfolding execute_target_def call_target_def Let_def hop_calls_def
  by (auto simp: await_def tick_def decision_hops_def split: if_splits option.splits sum.splits)


lemma backoff_no_sleep: "ls_attempt ls \<le> ls_target_index ls \<Longrightarrow> backoff E ls w = Inr w"
  by (simp add: backoff_def)

lemma attempt_target_cases:
  assumes "attempt_target E rid ordered t k ls w = Inr (r, w')"
  obtains (succeeded) resp ttfb cs where "r = Stop (Success resp ttfb)"
      "hop_calls t (Inr (resp, ttfb)) cs" "w_calls w' = w_calls w @ cs"
      "w_sleeps w' = w_sleeps w" "decision_hops w' = decision_hops w @ [Suc (ls_hop ls)]"
    | (failed) e cs where "r = Stop (Failed e (ec_class (classify_app_error e)))"
      "hop_calls t (Inl e) cs" "w_calls w' = w_calls w @ cs"
      "w_sleeps w' = w_sleeps w" "decision_hops w' = decision_hops w @ [Suc (ls_hop ls)]"
    | (moved) e cs ls' where "r = Next ls'" "ls_last_error ls' = Some e"
      "ls_target_index ls < ls_target_index ls'" "ls_attempt ls' = Suc (ls_attempt ls)"
      "ls_hop ls' = Suc (ls_hop ls)"
      "hop_calls t (Inl e) cs" "w_calls w' = w_calls w @ cs"
      "w_sleeps w' = w_sleeps w" "decision_hops w' = decision_hops w @ [Suc (ls_hop ls)]"
proof -
  let ?ls1 = "ls\<lparr>ls_attempt := Suc (ls_attempt ls), ls_hop := Suc (ls_hop ls)\<rparr>"
  let ?st = "env_utc E (w_tick w)"
  let ?w2 = "(send_at E rid ?st ''execute'' (HopStart k (provider_id t) (model_id t)
      (protocol_log_label (api_protocol t)) (ls_hop ?ls1)) (tick w))
      \<lparr>w_egress := Some (api_protocol t), w_resolved := Some (provider_id t, model_id t)\<rparr>"
  obtain x rec w3 where ex: "execute_target E t k (ls_oauth_recovered ?ls1) ?w2 = (x, rec, w3)"
    by (metis prod_cases3)
  from execute_target_frame [OF ex] obtain cs where cs: "hop_calls t x cs"
    and frame: "w_calls w3 = w_calls w @ cs" "w_sleeps w3 = w_sleeps w"
      "decision_hops w3 = decision_hops w" by auto
  show thesis
  proof (cases x)
    case (Inr y)
    obtain resp ttfb where y: "y = (resp, ttfb)" by (cases y)
    from assms ex Inr y have "(r, w') = hop_success E rid k (Suc (ls_hop ls)) ?st resp ttfb w3"
      by (simp add: attempt_target_def Let_def)
    with cs frame Inr y show thesis by (intro succeeded) (auto simp: hop_success_def Let_def)
  next
    case (Inl e)
    with assms ex have f: "hop_failure E rid ordered t k ?st e (?ls1\<lparr>ls_oauth_recovered := rec\<rparr>) w3
        = Inr (r, w')"
      by (simp add: attempt_target_def Let_def)
    note ff = hop_failure_frame [OF f]
    from f obtain v where "decide E rid ordered t k e (classify_app_error e)
        (?ls1\<lparr>ls_oauth_recovered := rec\<rparr>) v = Inr (r, w')"
      by (auto simp: hop_failure_def Let_def)
    then show thesis
    proof (cases rule: decide_result)
      case failed
      with cs frame ff Inl show thesis by (intro that(2)) auto
    next
      case (moved ti)
      with cs frame ff Inl show thesis by (intro that(3)) auto
    qed
  qed
qed

lemma step_cases:
  assumes "fallback_step E rid dl ordered ls w = Inr (r, w')"
    and "ls_attempt ls \<le> ls_target_index ls"
  obtains (deadline) "r = Stop (Failed deadline_error RequestErrorClass.DeadlineExceeded)" "w' = tick w"
    | (skipped) "r = Next (ls\<lparr>ls_hop := Suc (ls_hop ls), ls_target_index := Suc (ls_target_index ls)\<rparr>)"
      "w_calls w' = w_calls w" "w_sleeps w' = w_sleeps w"
      "decision_hops w' = decision_hops w @ [Suc (ls_hop ls)]"
      "\<not> is_healthy (w_health w) (env_now E (Suc (w_tick w))) (health_key (ordered ! ls_target_index ls))"
    | (attempted) "attempt_target E rid ordered (ordered ! ls_target_index ls)
        (health_key (ordered ! ls_target_index ls)) ls (tick (tick w)) = Inr (r, w')"
      "is_healthy (w_health w) (env_now E (Suc (w_tick w))) (health_key (ordered ! ls_target_index ls))"
proof -
  consider (late) "env_now E (w_tick w) > dl"
    | (broken) "\<not> env_now E (w_tick w) > dl"
      "\<not> is_healthy (w_health w) (env_now E (Suc (w_tick w))) (health_key (ordered ! ls_target_index ls))"
    | (ok) "\<not> env_now E (w_tick w) > dl"
      "is_healthy (w_health w) (env_now E (Suc (w_tick w))) (health_key (ordered ! ls_target_index ls))"
    by blast
  then show thesis
  proof cases
    case late
    with assms show thesis by (intro deadline) (simp_all add: fallback_step_def)
  next
    case broken
    have [simp]: "w_tick (tick w) = Suc (w_tick w)" by (simp add: tick_def)
    from broken assms show thesis
      by (intro skipped) (auto simp: fallback_step_def Let_def skip_target_def)
  next
    case ok
    have [simp]: "w_tick (tick w) = Suc (w_tick w)" by (simp add: tick_def)
    from ok assms show thesis
      by (intro attempted) (auto simp: fallback_step_def Let_def backoff_no_sleep)
  qed
qed

subsection \<open>The whole loop\<close>

lemma loop_rule:
  assumes "fallback_loop E rid dl ordered ls w = Inr (out, w')" and "I ls w"
    and step: "\<And>ls w ls' w'. I ls w \<Longrightarrow> ls_target_index ls < length ordered \<Longrightarrow>
      ls_attempt ls < max_total_attempts fallback_policy \<Longrightarrow>
      fallback_step E rid dl ordered ls w = Inr (Next ls', w') \<Longrightarrow> I ls' w'"
    and stop: "\<And>ls w out w'. I ls w \<Longrightarrow> ls_target_index ls < length ordered \<Longrightarrow>
      ls_attempt ls < max_total_attempts fallback_policy \<Longrightarrow>
      fallback_step E rid dl ordered ls w = Inr (Stop out, w') \<Longrightarrow> Q out w'"
    and exhausted: "\<And>ls w. I ls w \<Longrightarrow>
      Q (Exhausted (unwrap_or (ls_last_error ls) exhausted_error)) w"
  shows "Q out w'"
  using assms(1,2)
proof (induction "length ordered - ls_target_index ls" arbitrary: ls w rule: less_induct)
  case less
  note unfold = fallback_loop.simps [of E rid dl ordered ls w]
  show ?case
  proof (cases "ls_target_index ls < length ordered \<and>
      ls_attempt ls < max_total_attempts fallback_policy")
    case False
    with less.prems show ?thesis by (auto simp: unfold intro: exhausted)
  next
    case guard: True
    with less.prems obtain r v where st: "fallback_step E rid dl ordered ls w = Inr (r, v)"
      by (auto simp: unfold split: sum.splits)
    show ?thesis
    proof (cases r)
      case (Stop o')
      with less.prems st guard have "out = o'" "w' = v" by (simp_all add: unfold)
      with Stop st guard less.prems(2) stop show ?thesis by blast
    next
      case (Next ls')
      with less.prems st guard have "fallback_loop E rid dl ordered ls' v = Inr (out, w')"
        by (simp add: unfold)
      moreover have "I ls' v" using step less.prems(2) guard st Next by blast
      moreover have "length ordered - ls_target_index ls' < length ordered - ls_target_index ls"
        using step_moves_on [of E rid dl ordered ls w ls' v] st Next guard by auto
      ultimately show ?thesis using less.hyps by blast
    qed
  qed
qed

text \<open>
  The state of the loop between two hops, relative to the calls, sleeps and decisions of the world
  it started in.
\<close>

definition loop_inv :: "RoutingTarget list \<Rightarrow> 'r world \<Rightarrow> loop_state \<Rightarrow> 'r world \<Rightarrow> bool" where
  "loop_inv ordered w0 ls w \<longleftrightarrow>
     ls_attempt ls \<le> max_total_attempts fallback_policy \<and>
     ls_attempt ls \<le> ls_target_index ls \<and> ls_attempt ls \<le> ls_hop ls \<and>
     ls_hop ls \<le> ls_target_index ls \<and>
     w_sleeps w = w_sleeps w0 \<and> decision_hops w = decision_hops w0 @ [1..<Suc (ls_hop ls)] \<and>
     (\<exists>cs. w_calls w = w_calls w0 @ cs \<and> length cs \<le> 2 * ls_attempt ls \<and>
       fst ` set cs \<subseteq> set ordered \<and> (\<forall>c\<in>set cs. isl (snd c)) \<and>
       (if cs = [] then ls_last_error ls = None
        else \<exists>e. ls_last_error ls = Some e \<and> snd (last cs) = Inl e))"

text \<open>How an outcome follows from the calls of the run.\<close>

fun outcome_explained ::
    "(RoutingTarget \<times> (AppError + 'r \<times> nat option)) list \<Rightarrow> 'r FallbackOutcome \<Rightarrow> bool" where
  "outcome_explained cs (Success r ttfb) \<longleftrightarrow> cs \<noteq> [] \<and> snd (last cs) = Inr (r, ttfb)"
| "outcome_explained cs (Exhausted e) \<longleftrightarrow>
     (if cs = [] then e = exhausted_error else snd (last cs) = Inl e)"
| "outcome_explained cs (Failed e c) \<longleftrightarrow>
     e = deadline_error \<and> c = RequestErrorClass.DeadlineExceeded \<or>
     cs \<noteq> [] \<and> snd (last cs) = Inl e \<and> c = ec_class (classify_app_error e)"

definition loop_post :: "RoutingTarget list \<Rightarrow> 'r world \<Rightarrow> 'r FallbackOutcome \<Rightarrow> 'r world \<Rightarrow> bool" where
  "loop_post ordered w0 out w \<longleftrightarrow>
     w_sleeps w = w_sleeps w0 \<and>
     (\<exists>n. decision_hops w = decision_hops w0 @ [1..<Suc n]) \<and>
     (\<exists>cs. w_calls w = w_calls w0 @ cs \<and>
       length cs \<le> 2 * max_total_attempts fallback_policy \<and>
       fst ` set cs \<subseteq> set ordered \<and> (\<forall>c\<in>set (butlast cs). isl (snd c)) \<and>
       outcome_explained cs out)"

lemma hop_calls_facts:
  assumes "hop_calls t x cs"
  shows "cs \<noteq> []" "length cs \<le> 2" "\<forall>c\<in>set cs. fst c = t" "snd (last cs) = x"
    "\<forall>c\<in>set (butlast cs). isl (snd c)"
  using assms by (auto simp: hop_calls_def)

lemma hop_calls_error: "hop_calls t (Inl e) cs \<Longrightarrow> \<forall>c\<in>set cs. isl (snd c)"
  by (auto simp: hop_calls_def)

lemma loop_inv_step:
  assumes inv: "loop_inv ordered w0 ls w" and ti: "ls_target_index ls < length ordered"
    and at: "ls_attempt ls < max_total_attempts fallback_policy"
    and run: "fallback_step E rid dl ordered ls w = Inr (Next ls', w')"
  shows "loop_inv ordered w0 ls' w'"
proof -
  from inv have le: "ls_attempt ls \<le> ls_target_index ls" by (simp add: loop_inv_def)
  from run le show ?thesis
  proof (cases rule: step_cases)
    case skipped
    with inv show ?thesis by (auto simp: loop_inv_def)
  next
    case attempted
    from attempted(1) show ?thesis
    proof (cases rule: attempt_target_cases)
      case (moved e cs' l)
      from inv obtain cs where cs: "w_calls w = w_calls w0 @ cs" "length cs \<le> 2 * ls_attempt ls"
        "fst ` set cs \<subseteq> set ordered" "\<forall>c\<in>set cs. isl (snd c)" by (auto simp: loop_inv_def)
      note f = hop_calls_facts [OF moved(6)]
      have "fst ` set (cs @ cs') \<subseteq> set ordered" using f(3) cs(3) ti by auto
      moreover have "\<forall>c\<in>set (cs @ cs'). isl (snd c)"
        using cs(4) hop_calls_error [OF moved(6)] by auto
      moreover have "w_calls w' = w_calls w0 @ (cs @ cs')" "length (cs @ cs') \<le> 2 * ls_attempt ls'"
        "cs @ cs' \<noteq> []" "snd (last (cs @ cs')) = Inl e"
        using moved cs f by simp_all
      moreover have "w_sleeps w' = w_sleeps w0" "ls_attempt ls' \<le> ls_hop ls'"
        "ls_hop ls' \<le> ls_target_index ls'"
        "decision_hops w' = decision_hops w0 @ [1..<Suc (ls_hop ls')]"
        using moved inv by (simp_all add: loop_inv_def)
      moreover have "ls_attempt ls' \<le> max_total_attempts fallback_policy"
        using moved at by simp
      ultimately show ?thesis using moved(1,2) unfolding loop_inv_def
        by (intro conjI exI [of _ "cs @ cs'"]) simp_all
    qed simp_all
  qed simp_all
qed

lemma loop_post_stop:
  assumes inv: "loop_inv ordered w0 ls w" and ti: "ls_target_index ls < length ordered"
    and at: "ls_attempt ls < max_total_attempts fallback_policy"
    and run: "fallback_step E rid dl ordered ls w = Inr (Stop out, w')"
  shows "loop_post ordered w0 out w'"
proof -
  from inv have le: "ls_attempt ls \<le> ls_target_index ls" by (simp add: loop_inv_def)
  from inv obtain cs where cs: "w_calls w = w_calls w0 @ cs" "length cs \<le> 2 * ls_attempt ls"
    "fst ` set cs \<subseteq> set ordered" "\<forall>c\<in>set cs. isl (snd c)" by (auto simp: loop_inv_def)
  have dec: "decision_hops w = decision_hops w0 @ [1..<Suc (ls_hop ls)]"
    and sl: "w_sleeps w = w_sleeps w0" using inv by (simp_all add: loop_inv_def)
  have post: "loop_post ordered w0 out w'"
    if hc: "hop_calls (ordered ! ls_target_index ls) x cs'" and "w_calls w' = w_calls w @ cs'"
      and "w_sleeps w' = w_sleeps w" and "decision_hops w' = decision_hops w @ [Suc (ls_hop ls)]"
      and fin: "(case out of Success r ttfb \<Rightarrow> x = Inr (r, ttfb)
        | Failed e c \<Rightarrow> x = Inl e \<and> c = ec_class (classify_app_error e) | Exhausted e \<Rightarrow> False)"
    for x cs'
  proof -
    note f = hop_calls_facts [OF hc]
    have "fst ` set (cs @ cs') \<subseteq> set ordered" using f(3) cs(3) ti by auto
    moreover have "\<forall>c\<in>set (butlast (cs @ cs')). isl (snd c)"
      using cs(4) f(1,5) by (auto simp: butlast_append)
    moreover have "w_calls w' = w_calls w0 @ (cs @ cs')" "snd (last (cs @ cs')) = x" "cs @ cs' \<noteq> []"
      using that(2) cs f by simp_all
    moreover have "length (cs @ cs') \<le> 2 * max_total_attempts fallback_policy"
      using cs(2) f(2) at by simp
    moreover have "decision_hops w' = decision_hops w0 @ [1..<Suc (Suc (ls_hop ls))]"
      using that(4) dec by simp
    ultimately show ?thesis using fin that(3) sl unfolding loop_post_def
      by (intro conjI exI [of _ "cs @ cs'"] exI [of _ "Suc (ls_hop ls)"])
        (simp_all, cases out, simp_all)
  qed
  from run le show ?thesis
  proof (cases rule: step_cases)
    case deadline
    have "length cs \<le> 2 * max_total_attempts fallback_policy" using cs(2) at by simp
    then show ?thesis using deadline cs dec sl unfolding loop_post_def
      by (intro conjI exI [of _ cs] exI [of _ "ls_hop ls"]) (auto dest: in_set_butlastD)
  next
    case attempted
    from attempted(1) show ?thesis
    proof (cases rule: attempt_target_cases)
      case (succeeded resp ttfb cs')
      then show ?thesis by (intro post [of "Inr (resp, ttfb)" cs']) simp_all
    next
      case (failed e cs')
      then show ?thesis by (intro post [of "Inl e" cs']) simp_all
    qed simp_all
  qed simp_all
qed

lemma loop_post_exhausted:
  assumes inv: "loop_inv ordered w0 ls w"
  shows "loop_post ordered w0 (Exhausted (unwrap_or (ls_last_error ls) exhausted_error)) w"
proof -
  from inv obtain cs where cs: "w_calls w = w_calls w0 @ cs" "length cs \<le> 2 * ls_attempt ls"
    "fst ` set cs \<subseteq> set ordered" "\<forall>c\<in>set cs. isl (snd c)"
    "if cs = [] then ls_last_error ls = None
     else \<exists>e. ls_last_error ls = Some e \<and> snd (last cs) = Inl e" by (auto simp: loop_inv_def)
  have "length cs \<le> 2 * max_total_attempts fallback_policy" 
    using cs(2) inv by (simp add: loop_inv_def)
  moreover have "\<forall>c\<in>set (butlast cs). isl (snd c)" using cs(4) by (auto dest: in_set_butlastD)
  ultimately show ?thesis using cs(1,3,5) inv unfolding loop_post_def
    by (intro conjI exI [of _ cs] exI [of _ "ls_hop ls"])
      (auto simp: loop_inv_def unwrap_or_def split: if_splits)
qed


lemma loop_summary:
  assumes "fallback_loop E rid dl ordered initial_loop_state w0 = Inr (out, w')"
  shows "loop_post ordered w0 out w'"
proof (rule loop_rule [where I = "loop_inv ordered w0", OF assms])
  show "loop_inv ordered w0 initial_loop_state w0"
    by (simp add: loop_inv_def initial_loop_state_def)
qed (blast intro: loop_inv_step loop_post_stop loop_post_exhausted)+

lemma run_unfold:
  assumes "execute_with_fallback E table nm targets vm rid w = Inr (out, w')"
  obtains dl ordered w1 where "set ordered = set targets" "length ordered = length targets"
    "w_calls w1 = w_calls w" "w_sleeps w1 = w_sleeps w" "decision_hops w1 = decision_hops w"
    "fallback_loop E rid dl ordered initial_loop_state w1 = Inr (out, w')"
proof -
  let ?nm = "unwrap_or (resolve_strategy table vm) nm"
  let ?b = "build_strategy ?nm (w_health w) (env_now E (w_tick (tick w))) (env_draw E)"
  from assms obtain dl ordered where o: "fst ?b targets = Inr ordered"
    and run: "fallback_loop E rid dl ordered initial_loop_state
      (send E rid ''ingress'' (RouteResolved (map health_key ordered) (snd ?b)) (tick (tick w)))
      = Inr (out, w')"
    by (auto simp: execute_with_fallback_def Let_def split_beta)
  show thesis
    by (rule that [OF built.order_set [OF o] built.order_length [OF o] _ _ _ run]) simp_all
qed


text \<open>
  C20.  The loop is bounded: whatever the upstreams, the clocks and the other requests do, a request
  makes at most two calls per attempt and at most ten attempts, only ever calls targets of its own
  route, and never sleeps: the back-off between two attempts on one target is unreachable.
\<close>

theorem fallback_bounded:
  assumes "execute_with_fallback E table nm targets vm rid w = Inr (out, w')"
  shows "w_sleeps w' = w_sleeps w \<and>
    (\<exists>cs. w_calls w' = w_calls w @ cs \<and> length cs \<le> 20 \<and> fst ` set cs \<subseteq> set targets)"
  using assms
proof (cases rule: run_unfold)
  case (1 dl ordered w1)
  from loop_summary [OF 1(6)] 1 show ?thesis
    by (auto simp: loop_post_def DefaultFallbackPolicy_with_defaults_def)
qed

text \<open>
  C1.  The outcome is what the upstreams said: a success is the answer of the last call and every
  earlier call failed; an exhausted request reports the error of its last call, and the gateway's
  own 502 exactly if no target could be called at all; a failed request reports the error of its
  last call under its class, or the deadline.
\<close>

theorem fallback_outcome:
  assumes "execute_with_fallback E table nm targets vm rid w = Inr (out, w')"
  shows "\<exists>cs. w_calls w' = w_calls w @ cs \<and> (\<forall>c\<in>set (butlast cs). isl (snd c)) \<and>
    outcome_explained cs out"
  using assms
proof (cases rule: run_unfold)
  case (1 dl ordered w1)
  from loop_summary [OF 1(6)] 1(3) show ?thesis
    unfolding loop_post_def by auto
qed

text \<open>
  The hops of a request are numbered without gaps: the decisions sent to telemetry carry the
  hop numbers 1, 2, 3, \<open>\<dots>\<close> in this order, one decision per hop.
\<close>

theorem fallback_hops_numbered:
  assumes "execute_with_fallback E table nm targets vm rid w = Inr (out, w')"
  shows "\<exists>n. decision_hops w' = decision_hops w @ [1..<Suc n]"
  using assms
proof (cases rule: run_unfold)
  case (1 dl ordered w1)
  from loop_summary [OF 1(6)] 1(5) show ?thesis unfolding loop_post_def by auto
qed

subsection \<open>Open circuits\<close>

text \<open>What decides the health of a key, and that other requests leave it alone.\<close>

definition health_view :: "HealthRegistry \<Rightarrow> string \<Rightarrow> TargetHealth option \<times> u32 \<times> duration list" where
  "health_view h k = (states h k, failure_threshold h, recovery_tiers h)"

definition quiet :: "'r env \<Rightarrow> string \<Rightarrow> bool" where
  "quiet E k \<longleftrightarrow> (\<forall>n h. health_view (env_others E n h) k = health_view h k)"

lemma is_healthy_view: "health_view h k = health_view h' k \<Longrightarrow> is_healthy h t k = is_healthy h' t k"
  by (rule is_healthy_cong) (simp_all add: health_view_def)

lemma await_view: "quiet E k \<Longrightarrow> health_view (w_health (await E w)) k = health_view (w_health w) k"
  by (simp add: await_def quiet_def)

lemma send_view:
  assumes "quiet E k"
  shows "health_view (w_health (send_at E rid t st p w)) k = health_view (w_health w) k"
    and "health_view (w_health (send E rid st p w)) k = health_view (w_health w) k"
    and "health_view (w_health (emit_hop_decision E rid kk n d w)) k = health_view (w_health w) k"
  using assms by (simp_all add: send_at_def send_def emit_hop_decision_def await_view)

lemma record_view:
  assumes "k \<noteq> key"
  shows "health_view (record_latency_ms (record_success h key) key ms) k = health_view h k"
    and "health_view (record_latency_ms (record_failure h t key) key ms) k = health_view h k"
  using assms by (simp_all add: health_view_def)

lemma cool_view:
  assumes "cool E key d why w = Inr w'" and "k \<noteq> key"
  shows "health_view (w_health w') k = health_view (w_health w) k"
proof -
  from assms(1) obtain h where h: "apply_cooling (w_health w) (env_now E (w_tick w)) key d why = Inr h"
    and w': "w_health w' = h" by (auto simp: cool_def)
  with states_apply_cooling_other [OF h assms(2)] apply_cooling_frame [OF h]
  show ?thesis by (simp add: health_view_def)
qed

lemma rate_limit_cooling_view:
  "rate_limit_cooling E key c e w = Inr w' \<Longrightarrow> k \<noteq> key \<Longrightarrow>
     health_view (w_health w') k = health_view (w_health w) k"
  by (auto simp: rate_limit_cooling_def split: if_splits option.splits dest: cool_view)

lemma decide_view:
  assumes "decide E rid ordered t key e cls ls w = Inr (r, w')" and "k \<noteq> key" and "quiet E k"
  shows "health_view (w_health w') k = health_view (w_health w) k"
proof -
  note [simp] = send_view [OF assms(3)]
  show ?thesis using assms(1)
    by (auto simp: decide_def Let_def split: if_splits FallbackDecision.splits
        dest!: cool_view [OF _ assms(2)])
qed

lemma hop_failure_view:
  assumes "hop_failure E rid ordered t key st e ls w = Inr (r, w')" and "k \<noteq> key" and "quiet E k"
  shows "health_view (w_health w') k = health_view (w_health w) k"
proof -
  note [simp] = send_view [OF assms(3)] record_view [OF assms(2)]
  from assms(1) show ?thesis
    by (auto simp: hop_failure_def Let_def dest!: rate_limit_cooling_view [OF _ assms(2)]
        decide_view [OF _ assms(2,3)])
qed

lemma execute_target_view:
  assumes "quiet E k"
  shows "health_view (w_health (snd (snd (execute_target E t key rec w)))) k = health_view (w_health w) k"
proof -
  note [simp] = await_view [OF assms]
  show ?thesis
    by (simp add: execute_target_def call_target_def Let_def split: option.split sum.split)
qed

lemma attempt_view:
  assumes "attempt_target E rid ordered t key ls w = Inr (r, w')" and "k \<noteq> key" and "quiet E k"
  shows "health_view (w_health w') k = health_view (w_health w) k"
proof -
  note [simp] = send_view [OF assms(3)] record_view [OF assms(2)]
  let ?w2 = "(send_at E rid (env_utc E (w_tick w)) ''execute'' (HopStart key (provider_id t) (model_id t)
      (protocol_log_label (api_protocol t)) (Suc (ls_hop ls))) (tick w))
      \<lparr>w_egress := Some (api_protocol t), w_resolved := Some (provider_id t, model_id t)\<rparr>"
  obtain x rec w3 where ex: "execute_target E t key (ls_oauth_recovered ls) ?w2 = (x, rec, w3)"
    by (metis prod_cases3)
  have v: "health_view (w_health w3) k = health_view (w_health w) k"
    using execute_target_view [OF assms(3), of t key "ls_oauth_recovered ls" ?w2] ex by simp
  show ?thesis
  proof (cases x)
    case (Inl e)
    with assms(1) ex have "hop_failure E rid ordered t key (env_utc E (w_tick w)) e
      (ls\<lparr>ls_attempt := Suc (ls_attempt ls), ls_hop := Suc (ls_hop ls), ls_oauth_recovered := rec\<rparr>) w3
        = Inr (r, w')"
      by (simp add: attempt_target_def Let_def)
    from hop_failure_view [OF this assms(2,3)] v show ?thesis by simp
  next
    case (Inr y)
    with assms(1) ex v show ?thesis
      by (cases y) (auto simp: attempt_target_def hop_success_def Let_def)
  qed
qed


definition shut_out :: "'r env \<Rightarrow> string \<Rightarrow> 'r world \<Rightarrow> bool" where
  "shut_out E k w \<longleftrightarrow> quiet E k \<and> (\<forall>n. \<not> is_healthy (w_health w) (env_now E n) k)"

definition not_called :: "string \<Rightarrow> 'r world \<Rightarrow> 'r world \<Rightarrow> bool" where
  "not_called k w0 w \<longleftrightarrow> (\<exists>cs. w_calls w = w_calls w0 @ cs \<and> (\<forall>c\<in>set cs. health_key (fst c) \<noteq> k))"

lemma not_called_refl: "not_called k w w"
  by (simp add: not_called_def)

lemma not_called_hop:
  assumes "not_called k w0 w" and "hop_calls t x cs" and "w_calls w' = w_calls w @ cs"
    and "health_key t \<noteq> k"
  shows "not_called k w0 w'"
proof -
  from assms(1) obtain cs0 where "w_calls w = w_calls w0 @ cs0"
    "\<forall>c\<in>set cs0. health_key (fst c) \<noteq> k" by (auto simp: not_called_def)
  moreover have "\<forall>c\<in>set cs. health_key (fst c) \<noteq> k" using hop_calls_facts(3) [OF assms(2)] assms(4) by auto
  ultimately show ?thesis using assms(3) unfolding not_called_def
    by (intro exI [of _ "cs0 @ cs"]) auto
qed

lemma shut_out_view:
  "shut_out E k w \<Longrightarrow> health_view (w_health w') k = health_view (w_health w) k \<Longrightarrow> shut_out E k w'"
  using is_healthy_view unfolding shut_out_def by blast

lemma shut_out_step:
  assumes out: "shut_out E k w" and nc: "not_called k w0 w" and le: "ls_attempt ls \<le> ls_target_index ls"
    and run: "fallback_step E rid dl ordered ls w = Inr (r, w')"
  shows "not_called k w0 w' \<and> (\<forall>ls'. r = Next ls' \<longrightarrow> shut_out E k w' \<and>
    ls_attempt ls' \<le> ls_target_index ls')"
proof -
  have q: "quiet E k" using out by (simp add: shut_out_def)
  from run le show ?thesis
  proof (cases rule: step_cases)
    case deadline
    with nc show ?thesis by (simp add: not_called_def)
  next
    case skipped
    have "health_view (w_health w') k = health_view (w_health w) k"
      using run skipped(1) skipped(5) by (auto simp: fallback_step_def Let_def skip_target_def
          send_view [OF q] tick_def split: if_splits)
    then show ?thesis using skipped nc le shut_out_view [OF out]
      by (auto simp: not_called_def)
  next
    case attempted
    let ?t = "ordered ! ls_target_index ls"
    have ne: "k \<noteq> health_key ?t" using attempted(2) out by (auto simp: shut_out_def)
    have so: "shut_out E k w'"
      using shut_out_view [OF out] attempt_view [OF attempted(1) ne q] by simp
    have nc': "not_called k w0 (tick (tick w))" using nc by (simp add: not_called_def)
    from attempted(1) show ?thesis
    proof (cases rule: attempt_target_cases)
      case (succeeded resp ttfb cs)
      then show ?thesis using not_called_hop [OF nc' succeeded(2,3)] ne by auto
    next
      case (failed e cs)
      then show ?thesis using not_called_hop [OF nc' failed(2,3)] ne by auto
    next
      case (moved e cs ls')
      then show ?thesis using not_called_hop [OF nc' moved(6,7)] ne so le by auto
    qed
  qed
qed

lemma run_unfold_view:
  assumes "execute_with_fallback E table nm targets vm rid w = Inr (out, w')" and "quiet E k"
  obtains dl ordered w1 where "w_calls w1 = w_calls w"
    "health_view (w_health w1) k = health_view (w_health w) k"
    "fallback_loop E rid dl ordered initial_loop_state w1 = Inr (out, w')"
proof -
  from assms(1) obtain dl ordered label where run: "fallback_loop E rid dl ordered initial_loop_state
      (send E rid ''ingress'' (RouteResolved (map health_key ordered) label) (tick (tick w)))
      = Inr (out, w')"
    by (auto simp: execute_with_fallback_def Let_def split_beta)
  show thesis by (rule that [OF _ _ run]) (simp_all add: send_view [OF assms(2)])
qed

text \<open>
  C21.  A target whose circuit stays open, at every reading of the clock, is never called by a
  request, whatever strategy orders it and however the other targets behave (the other requests
  leave its entry alone meanwhile).
\<close>

theorem open_circuit_never_called:
  assumes run: "execute_with_fallback E table nm targets vm rid w = Inr (out, w')"
    and quiet: "quiet E k" and "open": "\<forall>n. \<not> is_healthy (w_health w) (env_now E n) k"
  shows "\<exists>cs. w_calls w' = w_calls w @ cs \<and> (\<forall>c\<in>set cs. health_key (fst c) \<noteq> k)"
  using run quiet
proof (cases rule: run_unfold_view)
  case (1 dl ordered w1)
  let ?I = "\<lambda>ls v. shut_out E k v \<and> not_called k w1 v \<and> ls_attempt ls \<le> ls_target_index ls"
  have "shut_out E k w" using quiet "open" by (simp add: shut_out_def)
  then have so: "shut_out E k w1" using shut_out_view 1(2) by blast
  have "not_called k w1 w'"
  proof (rule loop_rule [where I = ?I, OF 1(3)])
    show "?I initial_loop_state w1" using so by (simp add: not_called_refl initial_loop_state_def)
  qed (use shut_out_step in blast)+
  then show ?thesis using 1(1) by (simp add: not_called_def)
qed


subsection \<open>The loop returns\<close>

text \<open>
  What the loop needs in order not to panic: clock readings and cooling periods whose sum fits the
  second counter of an instant.
\<close>

definition moderate_time :: nat where
  "moderate_time = 2 ^ 62 * nanos_per_sec"

definition moderate_error :: "AppError \<Rightarrow> bool" where
  "moderate_error e \<longleftrightarrow> (case Option.bind (ae_retry_after_header e) parse_u64 of
     Some secs \<Rightarrow> secs < 2 ^ 62 | None \<Rightarrow> True)"

definition moderate :: "'r env \<Rightarrow> bool" where
  "moderate E \<longleftrightarrow> (\<forall>n. env_now E n < moderate_time) \<and>
     (\<forall>n t. case fst (env_execute E n t) of Inl e \<Rightarrow> moderate_error e | Inr _ \<Rightarrow> True)"

lemma instant_add_moderate:
  assumes "t < moderate_time" and "secs < 2 ^ 62"
  shows "\<exists>t'. instant_add t (from_secs secs) = Inr t'"
proof -
  have "secs * nanos_per_sec \<le> 2 ^ 62 * nanos_per_sec" using assms(2) by (intro mult_le_mono1) simp
  then have "t + from_secs secs < 2 ^ 63 * nanos_per_sec"
    using assms(1) by (simp add: moderate_time_def from_secs_def nanos_per_sec_def)
  then have "(t + from_secs secs) div nanos_per_sec < 2 ^ 63"
    by (simp add: less_mult_imp_div_less)
  then show ?thesis by (simp add: instant_add_def)
qed

lemma cool_returns:
  assumes "moderate E" and "secs < 2 ^ 62"
  shows "\<exists>w'. cool E key (from_secs secs) why w = Inr w'"
proof -
  from assms(1) have "env_now E (w_tick w) < moderate_time" by (simp add: moderate_def)
  from instant_add_moderate [OF this assms(2)] show ?thesis
    by (auto simp: cool_def apply_cooling_def Let_def)
qed

lemma rate_limit_cooling_returns:
  assumes "moderate E" and "moderate_error e"
  shows "\<exists>w'. rate_limit_cooling E key c e w = Inr w'"
  using assms(2) cool_returns [OF assms(1)]
  by (auto simp: rate_limit_cooling_def moderate_error_def split: option.splits)

lemma decide_returns:
  assumes "moderate E"
  shows "\<exists>x. decide E rid ordered t key e cls ls w = Inr x"
  using cool_returns [OF assms, of 300 key "''auth_broken''"]
  by (fastforce simp: decide_def Let_def split: FallbackDecision.split)

lemma hop_failure_returns:
  assumes "moderate E" and "moderate_error e"
  shows "\<exists>x. hop_failure E rid ordered t key st e ls w = Inr x"
  using rate_limit_cooling_returns [OF assms] decide_returns [OF assms(1)]
  by (fastforce simp: hop_failure_def Let_def)

lemma execute_target_moderate:
  assumes "moderate E" and "execute_target E t key rec w = (Inl e, rec', w')"
  shows "moderate_error e"
proof -
  have "moderate_error e'" if "fst (env_execute E n t) = Inl e'" for n e'
    using assms(1) that by (metis (no_types, lifting) moderate_def sum.simps(5))
  with assms(2) show ?thesis
    by (auto simp: execute_target_def call_target_def Let_def split: if_splits option.splits)
qed

lemma attempt_returns:
  assumes "moderate E"
  shows "\<exists>x. attempt_target E rid ordered t key ls w = Inr x"
proof -
  let ?w2 = "(send_at E rid (env_utc E (w_tick w)) ''execute'' (HopStart key (provider_id t) (model_id t)
      (protocol_log_label (api_protocol t)) (Suc (ls_hop ls))) (tick w))
      \<lparr>w_egress := Some (api_protocol t), w_resolved := Some (provider_id t, model_id t)\<rparr>"
  obtain x rec w3 where ex: "execute_target E t key (ls_oauth_recovered ls) ?w2 = (x, rec, w3)"
    by (metis prod_cases3)
  show ?thesis
  proof (cases x)
    case (Inl e)
    with ex execute_target_moderate [OF assms] have "moderate_error e" by blast
    from hop_failure_returns [OF assms this] ex Inl show ?thesis
      by (simp add: attempt_target_def Let_def)
  next
    case (Inr y)
    with ex show ?thesis by (cases y) (simp add: attempt_target_def Let_def)
  qed
qed

lemma step_returns:
  assumes "moderate E" and "ls_attempt ls \<le> ls_target_index ls"
  shows "\<exists>x. fallback_step E rid dl ordered ls w = Inr x"
  using attempt_returns [OF assms(1)] by (simp add: fallback_step_def Let_def backoff_no_sleep [OF assms(2)])

lemma loop_returns:
  assumes "moderate E"
  shows "ls_attempt ls \<le> ls_target_index ls \<Longrightarrow> \<exists>x. fallback_loop E rid dl ordered ls w = Inr x"
proof (induction "length ordered - ls_target_index ls" arbitrary: ls w rule: less_induct)
  case less
  obtain r v where st: "fallback_step E rid dl ordered ls w = Inr (r, v)"
    using step_returns [OF assms less.prems] by fastforce
  show ?case
  proof (cases r)
    case (Next ls')
    note m = step_moves_on [OF st [unfolded Next]]
    have "\<exists>x. fallback_loop E rid dl ordered ls' v = Inr x" if "ls_target_index ls < length ordered"
      by (rule less.hyps) (use that m less.prems in auto)
    with st Next show ?thesis by (auto simp: fallback_loop.simps [of E rid dl ordered ls w])
  qed (use st in \<open>auto simp: fallback_loop.simps [of E rid dl ordered ls w]\<close>)
qed

lemma order_returns:
  assumes "\<forall>t\<in>set ts. 0 < weight t"
  shows "\<exists>us. fst (build_strategy nm h now u) ts = Inr us"
  using weighted_shuffle_total [OF assms]
  by (auto simp: build_strategy_def WeightedStrategy_order_def PriorityStrategy_order_def
      CooldownStrategy_order_def LatencyStrategy_order_def split: RoutingStrategyName.split)

text \<open>
  C22.  The loop returns: it always terminates, and with positive weights, and clock readings and
  \<^verbatim>\<open>Retry-After\<close> values below \<open>2 ^ 62\<close> seconds, it ends in an outcome and not in a panic.
\<close>

theorem fallback_returns:
  assumes "moderate E" and "\<forall>t\<in>set targets. 0 < weight t"
  shows "\<exists>out w'. execute_with_fallback E table nm targets vm rid w = Inr (out, w')"
proof -
  have "env_now E (w_tick w) < moderate_time" using assms(1) by (simp add: moderate_def)
  from instant_add_moderate [OF this, of 120]
  obtain dl where dl: "instant_add (env_now E (w_tick w)) (deadline fallback_policy) = Inr dl"
    by (auto simp: DefaultFallbackPolicy_with_defaults_def)
  obtain us where "fst (build_strategy (unwrap_or (resolve_strategy table vm) nm) (w_health w)
      (env_now E (w_tick (tick w))) (env_draw E)) targets = Inr us"
    using order_returns [OF assms(2)] by blast
  with dl loop_returns [OF assms(1), of initial_loop_state] show ?thesis
    by (auto simp: execute_with_fallback_def Let_def split_beta initial_loop_state_def)
qed

subsection \<open>Where the loop does not do what it means to\<close>

lemma hop_failure_aborts:
  assumes "ec_fallback_class (classify_app_error e) = ErrorClass.RateLimited"
    and "ae_retry_after_header e = Some rh" and "parse_u64 rh = Some secs" and "2 ^ 63 \<le> secs"
  shows "hop_failure E rid ordered t key st e ls w = Inl Overflow_Adding_Duration"
proof -
  have "\<not> (n + from_secs secs) div nanos_per_sec < 2 ^ 63" for n
  proof -
    have "secs \<le> (n + from_secs secs) div nanos_per_sec"
      by (simp add: from_secs_def nanos_per_sec_def)
    with assms(4) show ?thesis by linarith
  qed
  then show ?thesis using assms(1-3)
    by (simp add: hop_failure_def Let_def rate_limit_cooling_def cool_def apply_cooling_def
        instant_add_def)
qed

text \<open>
  An upstream can abort the gateway: if a call fails with a rate-limit error whose
  \<^verbatim>\<open>Retry-After\<close> is an integer of \<open>2 ^ 63\<close> seconds or more, adding it to the current instant
  overflows, and the attempt ends in a panic.
\<close>

theorem retry_after_aborts:
  assumes "\<forall>n. fst (env_execute E n t) = Inl e" and "ae_status e \<noteq> 401"
    and "ec_fallback_class (classify_app_error e) = ErrorClass.RateLimited"
    and "ae_retry_after_header e = Some rh" and "parse_u64 rh = Some secs" and "2 ^ 63 \<le> secs"
  shows "attempt_target E rid ordered t key ls w = Inl Overflow_Adding_Duration"
  using assms(1,2) hop_failure_aborts [OF assms(3-6)]
  by (simp add: attempt_target_def Let_def execute_target_def call_target_def)

text \<open>
  The decision ignores the structured classification: there is an error body (status 200,
  code \<^verbatim>\<open>invalid_request_error\<close>) that the loop classifies as a bad request, for which the policy
  of the class is to fail at once, and that it nevertheless sends on to the next target.
\<close>

theorem structured_class_ignored:
  "\<exists>body e. check_nonstream_error_body body 200 None [] = Some e \<and>
     decision_for_class (ec_fallback_class (classify_app_error e)) = Fail \<and>
     policy_classify fallback_policy (Error.Routing (ae_message e)) 1 10 0 = TryNext"
proof -
  let ?msg = "''Upstream error: max_tokens is too large''"
  let ?code = "''invalid_request_error''"
  let ?body = "object_of [(''error'', object_of [(''message'', JString ''max_tokens is too large''),
     (''code'', JString ?code)])]"
  have c: "classify_code ?code = Some ErrorClass.BadRequest" by code_simp
  have s: "classify_status 200 = None" by (simp add: classify_status_def)
  have m: "ec_fallback_class (classify_error (Error.Routing ?msg)) = ErrorClass.Transient"
    by code_simp
  show ?thesis
    by (intro exI [of _ ?body] exI [of _ "\<lparr>ae_status = 200, ae_message = ?msg,
        ae_error_class = ErrorClass.BadRequest, ae_protocol_suite = None,
        ae_retry_after_header = None, ae_upstream_status = Some 200,
        ae_upstream_error_code = Some ?code, ae_rate_limit_headers = []\<rparr>"])
      (simp add: check_nonstream_error_body_def get_object_of normal_fields_def Let_def c s m
        with_class_def with_upstream_code_def AppError_new_def classify_app_error_def
        classify_structured_def classify_upstream_error_def policy_classify_def
        DefaultFallbackPolicy_with_defaults_def)
qed

subsection \<open>Concrete runs\<close>

text \<open>A route of two targets whose first one fails with a given error, for concrete runs.\<close>

definition demo_registry :: HealthRegistry where
  "demo_registry = \<lparr>states = Map.empty, latencies = Map.empty, failure_threshold = 3,
     recovery_tiers = [from_secs 60]\<rparr>"

definition demo_world :: "HealthRegistry \<Rightarrow> string world" where
  "demo_world h = \<lparr>w_health = h, w_events = [], w_calls = [], w_sleeps = [],
     w_egress = None, w_resolved = None, w_ttfb = None, w_tick = 0\<rparr>"

definition demo_env :: "AppError \<Rightarrow> string env" where
  "demo_env e = \<lparr>env_now = (\<lambda>n. 0), env_utc = (\<lambda>n. 0), env_jitter = (\<lambda>n. 0), env_draw = (\<lambda>n. 0),
     env_execute = (\<lambda>n t. (if provider_id t = ''a'' then Inl e else Inr (''ok'', None), None)),
     env_refresh = (\<lambda>n t tok. None), env_others = (\<lambda>n h. h)\<rparr>"

abbreviation demo_route :: "RoutingTarget list" where
  "demo_route \<equiv> [demo_target ''a'' 2, demo_target ''b'' 1]"

definition demo_run :: "HealthRegistry \<Rightarrow> (string FallbackOutcome \<times> string world) rust" where
  "demo_run h = execute_with_fallback (demo_env (AppError_new 503 ''upstream down''))
     RoutingTable_new Priority demo_route ''m'' ''r'' (demo_world h)"

lemmas run_defs = execute_with_fallback_def fallback_step_def attempt_target_def hop_failure_def
  hop_success_def skip_target_def decide_def execute_target_def call_target_def
  rate_limit_cooling_def cool_def backoff_def send_def send_at_def emit_hop_decision_def await_def
  tick_def Let_def fallback_loop.simps initial_loop_state_def

lemmas demo_defs = demo_run_def demo_env_def demo_world_def build_strategy_def
  PriorityStrategy_order_def resolve_strategy_def RoutingTable_new_def instant_add_def
  DefaultFallbackPolicy_with_defaults_def from_secs_def nanos_per_sec_def is_healthy_def
  health_key_def classify_app_error_def AppError_new_def policy_classify_def

lemma classify_demo:
  "classify_error (Error.Routing ''upstream down'') = \<lparr>ec_class = RequestErrorClass.Transient,
     ec_fallback_class = ErrorClass.Transient, ec_retry_after = None, ec_http_status = None\<rparr>"
  by code_simp

lemma demo_run_value:
  "\<exists>w'. demo_run demo_registry = Inr (FallbackOutcome.Success ''ok'' None, w') \<and>
     map fst (w_calls w') = demo_route"
  by (simp add: run_defs demo_defs demo_registry_def classify_demo)


theorem fallback_bounded_witness:
  "\<exists>out w'. demo_run demo_registry = Inr (out, w') \<and> w_sleeps w' = [] \<and>
     length (w_calls w') \<le> 20 \<and> fst ` set (w_calls w') \<subseteq> set demo_route"
proof -
  obtain out w' where run: "demo_run demo_registry = Inr (out, w')" using demo_run_value by auto
  from fallback_bounded [OF run [unfolded demo_run_def]] run show ?thesis
    by (auto simp: demo_world_def)
qed

theorem fallback_outcome_witness:
  "\<exists>w'. demo_run demo_registry = Inr (FallbackOutcome.Success ''ok'' None, w') \<and>
     w_calls w' \<noteq> [] \<and> snd (last (w_calls w')) = Inr (''ok'', None)"
proof -
  obtain w' where run: "demo_run demo_registry = Inr (FallbackOutcome.Success ''ok'' None, w')"
    using demo_run_value by auto
  from fallback_outcome [OF run [unfolded demo_run_def]] run show ?thesis
    by (auto simp: demo_world_def)
qed

theorem fallback_hops_numbered_witness:
  "\<exists>out w' n. demo_run demo_registry = Inr (out, w') \<and> decision_hops w' = [1..<Suc n]"
proof -
  obtain out w' where run: "demo_run demo_registry = Inr (out, w')" using demo_run_value by auto
  have "decision_hops (demo_world demo_registry) = []"
    by (simp add: demo_world_def decision_hops_def map_filter_simps)
  with fallback_hops_numbered [OF run [unfolded demo_run_def]] run show ?thesis by auto
qed

text \<open>The registry in which the first target cools down for the whole request.\<close>

definition cooled_registry :: HealthRegistry where
  "cooled_registry = demo_registry\<lparr>states := [''a:m'' \<mapsto>
     TargetHealth_default\<lparr>th_cooling_until := Some 5, th_cooling_reason := Some ''rate_limited''\<rparr>]\<rparr>"

lemma cooled_run_value:
  "\<exists>w'. demo_run cooled_registry = Inr (FallbackOutcome.Success ''ok'' None, w') \<and>
     map fst (w_calls w') = [demo_target ''b'' 1]"
  by (simp add: run_defs demo_defs demo_registry_def cooled_registry_def TargetHealth_default_def)

theorem open_circuit_never_called_witness:
  "\<exists>out w'. demo_run cooled_registry = Inr (out, w') \<and>
     (\<forall>c\<in>set (w_calls w'). health_key (fst c) \<noteq> ''a:m'')"
proof -
  obtain out w' where run: "demo_run cooled_registry = Inr (out, w')" using cooled_run_value by auto
  have q: "quiet (demo_env (AppError_new 503 ''upstream down'')) ''a:m''"
    by (simp add: quiet_def demo_env_def)
  have "\<forall>n. \<not> is_healthy (w_health (demo_world cooled_registry))
      (env_now (demo_env (AppError_new 503 ''upstream down'')) n) ''a:m''"
    by (simp add: demo_world_def demo_env_def cooled_registry_def TargetHealth_default_def is_healthy_def)
  from open_circuit_never_called [OF run [unfolded demo_run_def] q this] run show ?thesis
    by (auto simp: demo_world_def)
qed

theorem fallback_returns_witness:
  "\<exists>out w'. execute_with_fallback (demo_env (AppError_new 503 ''upstream down'')) RoutingTable_new
     Weighted demo_route ''m'' ''r'' (demo_world demo_registry) = Inr (out, w')"
  by (rule fallback_returns)
    (simp_all add: moderate_def demo_env_def moderate_time_def nanos_per_sec_def moderate_error_def
      AppError_new_def)

definition flooding_error :: AppError where
  "flooding_error = (AppError_new 429 ''Upstream 429'')\<lparr>ae_upstream_status := Some 429,
     ae_retry_after_header := Some (nat_str (2 ^ 63))\<rparr>"

theorem retry_after_aborts_witness:
  "attempt_target (demo_env flooding_error) ''r'' demo_route (demo_target ''a'' 2) ''a:m''
     initial_loop_state (demo_world demo_registry) = Inl Overflow_Adding_Duration"
proof -
  have "ec_fallback_class (classify_app_error flooding_error) = ErrorClass.RateLimited"
    by (simp add: classify_app_error_def flooding_error_def classify_structured_def
        classify_upstream_error_def classify_status_def)
  then show ?thesis
    by (intro retry_after_aborts [where e = flooding_error and rh = "nat_str (2 ^ 63)" and secs = "2 ^ 63"])
      (simp_all add: demo_env_def flooding_error_def AppError_new_def parse_u64_def parse_nat_str)
qed

end
