(* ===== verification/Ingress.thy ===== *)
theory Ingress
  imports Request_Scope Fallback
begin

section \<open>The request handlers\<close>

text \<open>
  The model of \<^verbatim>\<open>server/src/ingress/handlers.rs\<close>, with \<^verbatim>\<open>enforce_body_limit\<close> and \<^verbatim>\<open>compute_pass_through\<close> of
  \<^verbatim>\<open>ingress/mod.rs\<close>: what a request goes through from its arrival to its response.  The handlers of the four
  protocols are modelled one by one; the segments they share are definitions of their own.

  \<open>ingress_ctx\<close> is what a handler is given or observes: the state of the application (tunables, routing table),
  the \<^verbatim>\<open>serde_json\<close> functions, the key store, the semaphore, the clocks and random bytes, the environment of
  the upstream calls, and the point at which the client goes away, if it does.  \<open>gateway\<close> is what it changes.
  An early return is a left value, as in \<open>bind_rust\<close>.  \<open>RuntimeTunables\<close> and \<open>AppState\<close> have the fields that the
  handlers read.
\<close>

record RuntimeTunables =
  routing_strategy :: RoutingStrategyName
  raw_envelope_capture_media :: bool
  require_api_key :: bool
  max_request_body_bytes :: nat
  max_inflight :: nat
  max_queue_depth :: nat

record AppState =
  tunables :: RuntimeTunables
  routing_table :: RoutingTable
  redactor :: Redactor
  max_multimodal_body_bytes :: nat

record codec =
  codec_id :: ProtocolEndpoint
  decode_request :: "json \<Rightarrow> RawEnvelope \<Rightarrow> Error + IrRequest"
  codec_pass_through :: "ProtocolEndpoint \<Rightarrow> ProtocolEndpoint \<Rightarrow> PassThroughPolicy"

text \<open>How the wait for a permit ends.\<close>

datatype permit_wait = Permit | Semaphore_Closed | Permit_Timeout

text \<open>Where the client goes away: while the handler awaits, with the state of the upstream calls then.\<close>

datatype 'r disconnect = At_Permit | At_Key | At_Quota | At_Upstream "'r world"

record 'r ingress_ctx =
  cx_state :: AppState
  cx_from_str :: "string \<Rightarrow> json option"
  cx_to_string :: "json \<Rightarrow> string option"
  cx_sha256_hex :: "string \<Rightarrow> string"
  cx_quota_from_value :: "json \<Rightarrow> QuotaSpec option"
  cx_lookup :: "string \<Rightarrow> string + ApiKey option"
  cx_available_permits :: nat
  cx_permit_wait :: permit_wait
  cx_quota_clock :: "nat \<Rightarrow> u64"
  cx_request_id :: string
  cx_trace_bytes :: "u8 list"
  cx_span_bytes :: "u8 list"
  cx_now :: int
  cx_times :: emit_times
  cx_upstream :: "IrRequest \<Rightarrow> string option \<Rightarrow> ResolvedApiKey \<Rightarrow> 'r env"
  cx_status :: "'r \<Rightarrow> nat"
  cx_disconnect :: "'r disconnect option"

record 'r gateway =
  gw_world :: "'r world"
  gw_quota :: "InMemoryQuota option"
  gw_telemetry :: telemetry

datatype 'r handled = Responded 'r | Rejected AppError | Disconnected | Panicked panic

record client_request =
  in_headers :: header_map
  in_body :: json

subsection \<open>Segments\<close>

definition acquire_permit :: "'r ingress_ctx \<Rightarrow> AppError + unit" where
  "acquire_permit cx =
     (let t = tunables (cx_state cx);
          waiting = max_inflight t - cx_available_permits cx;
          busy = (\<lambda>msg. with_retry_after (with_class (AppError_new 503 msg) ErrorClass.Overloaded) 5)
      in if waiting > max_queue_depth t then Inl (busy ''gateway overloaded, queue full'')
         else case cx_permit_wait cx of
           Permit \<Rightarrow> Inr ()
         | Semaphore_Closed \<Rightarrow> Inl (busy ''gateway overloaded'')
         | Permit_Timeout \<Rightarrow> Inl (busy ''gateway too busy, try again later''))"

definition early_error_class :: "AppError \<Rightarrow> RequestErrorClass" where
  "early_error_class e =
     (if ae_status e \<in> {400, 413, 415} then RequestErrorClass.BadRequest
      else if ae_status e \<in> {503, 429} then RequestErrorClass.Transient
      else InternalError)"

definition log_with :: "('r gateway \<Rightarrow> telemetry) \<Rightarrow> 'r gateway \<Rightarrow> 'r gateway" where
  "log_with f gw = gw\<lparr>gw_telemetry := f gw\<rparr>"

definition emit_early_error :: "'r ingress_ctx \<Rightarrow> RequestScope \<Rightarrow> AppError \<Rightarrow> 'r gateway \<Rightarrow> 'r gateway" where
  "emit_early_error cx sc e = log_with (\<lambda>gw. emit_error (cx_times cx) sc (early_error_class e)
     (Some (ae_message e)) (Some (ae_status e)) (gw_telemetry gw))"

text \<open>An error that ends the handler: the row is written and the error carries the client's protocol.\<close>

definition reject :: "'r ingress_ctx \<Rightarrow> ProtocolSuite \<Rightarrow> RequestScope \<Rightarrow> AppError \<Rightarrow> RequestErrorClass \<Rightarrow>
    'r gateway \<Rightarrow> 'r handled \<times> 'r gateway" where
  "reject cx suite sc e cls gw =
     (Rejected (with_protocol_suite e suite),
      log_with (\<lambda>gw. emit_error (cx_times cx) sc cls (Some (ae_message e)) (Some (ae_status e))
        (gw_telemetry gw)) gw)"

text \<open>The handler's future is dropped, and its scope with it.\<close>

definition dropped :: "'r ingress_ctx \<Rightarrow> RequestScope \<Rightarrow> 'r gateway \<Rightarrow> 'r handled \<times> 'r gateway" where
  "dropped cx sc gw =
     (Disconnected, log_with (\<lambda>gw. scope_drop (cx_times cx) sc (gw_telemetry gw)) gw)"

definition acquire_or_log :: "'r ingress_ctx \<Rightarrow> ProtocolSuite \<Rightarrow> RequestScope \<Rightarrow> 'r gateway \<Rightarrow>
    ('r handled \<times> 'r gateway) + RequestScope \<times> 'r gateway" where
  "acquire_or_log cx suite sc gw =
     (let t = tunables (cx_state cx) in
      if max_inflight t - cx_available_permits cx \<le> max_queue_depth t \<and>
         cx_disconnect cx = Some At_Permit
      then Inl (dropped cx sc gw)
      else case acquire_permit cx of
        Inr _ \<Rightarrow> Inr (sc, gw)
      | Inl e \<Rightarrow> Inl (Rejected (with_protocol_suite e suite), emit_early_error cx sc e gw))"

definition multimodal_types :: "string list" where
  "multimodal_types = [''multipart'', ''image/'', ''audio/'', ''video/'', ''application/pdf'',
     ''application/octet-stream'']"

definition enforce_body_limit :: "AppState \<Rightarrow> string option \<Rightarrow> nat \<Rightarrow> AppError + unit" where
  "enforce_body_limit st content_type body_size =
     (case content_type of
        None \<Rightarrow> Inr ()
      | Some ct \<Rightarrow>
          let is_multimodal = list_ex (contains (to_lowercase ct)) multimodal_types;
              limit = (if is_multimodal then max_multimodal_body_bytes st
                       else max_request_body_bytes (tunables st))
          in if body_size > limit
             then Inl (AppError_new 413 (''payload too large: '' @ nat_str body_size @
                    '' bytes exceeds limit '' @ nat_str limit @ '' bytes''))
             else Inr ())"

definition enforce_body_limit_or_log :: "'r ingress_ctx \<Rightarrow> ProtocolSuite \<Rightarrow> RequestScope \<Rightarrow> string option \<Rightarrow>
    nat \<Rightarrow> 'r gateway \<Rightarrow> ('r handled \<times> 'r gateway) + RequestScope \<times> 'r gateway" where
  "enforce_body_limit_or_log cx suite sc content_type body_size gw =
     (case enforce_body_limit (cx_state cx) content_type body_size of
        Inr _ \<Rightarrow> Inr (sc, gw)
      | Inl e \<Rightarrow> Inl (Rejected (with_protocol_suite e suite), emit_early_error cx sc e gw))"

text \<open>Resolution of the key and \<^verbatim>\<open>enforce_auth\<close>; the store is only asked for a request with a credential.\<close>

definition authenticate :: "'r ingress_ctx \<Rightarrow> ProtocolSuite \<Rightarrow> RequestScope \<Rightarrow> header_map \<Rightarrow> 'r gateway \<Rightarrow>
    ('r handled \<times> 'r gateway) + ResolvedApiKey \<times> RequestScope \<times> 'r gateway" where
  "authenticate cx suite sc headers gw =
     (if cx_disconnect cx = Some At_Key \<and> extract_credential headers \<noteq> None then Inl (dropped cx sc gw)
      else
        let k = resolve_api_key (cx_quota_from_value cx) (cx_lookup cx) headers;
            sc' = set_caller_key_id sc (key_id k)
        in case enforce_auth (require_api_key (tunables (cx_state cx))) k of
             Inl (e, cls) \<Rightarrow> Inl (reject cx suite sc' e cls gw)
           | Inr _ \<Rightarrow> Inr (k, sc', gw))"

definition decode_or_log :: "'r ingress_ctx \<Rightarrow> codec \<Rightarrow> RequestScope \<Rightarrow> json \<Rightarrow> RawEnvelope \<Rightarrow> 'r gateway \<Rightarrow>
    ('r handled \<times> 'r gateway) + IrRequest" where
  "decode_or_log cx cd sc body raw_env gw =
     (case decode_request cd body raw_env of
        Inr ir \<Rightarrow> Inr ir
      | Inl err \<Rightarrow> Inl (reject cx (pe_suite (codec_id cd)) sc
          (with_class (AppError_new 400 (''Decode error: '' @ error_display err)) ErrorClass.BadRequest)
          DecodeError gw))"

definition enforce_model_access_or_log :: "'r ingress_ctx \<Rightarrow> ProtocolSuite \<Rightarrow> RequestScope \<Rightarrow> ResolvedApiKey \<Rightarrow>
    string \<Rightarrow> 'r gateway \<Rightarrow> ('r handled \<times> 'r gateway) + RequestScope \<times> 'r gateway" where
  "enforce_model_access_or_log cx suite sc k virtual_model gw =
     (case enforce_model_access k virtual_model of
        Inr _ \<Rightarrow> Inr (sc, gw)
      | Inl (e, cls) \<Rightarrow> Inl (reject cx suite sc e cls gw))"

text \<open>The charge of a request to the configured counter.\<close>

definition charge_request :: "(nat \<Rightarrow> u64) \<Rightarrow> InMemoryQuota option \<Rightarrow> ResolvedApiKey \<Rightarrow> u64 \<Rightarrow>
    QuotaOutcome \<times> InMemoryQuota option" where
  "charge_request clk q k tokens =
     (check_quota (map_option (\<lambda>q key s t. Inr (fst (check_and_consume clk q key s t))) q)
        (key_id k) (key_spec k) tokens,
      map_option (\<lambda>q. snd (check_and_consume clk q (key_id k) (key_spec k) tokens)) q)"

definition enforce_api_key_policy :: "'r ingress_ctx \<Rightarrow> ProtocolSuite \<Rightarrow> RequestScope \<Rightarrow> ResolvedApiKey \<Rightarrow>
    string \<Rightarrow> 'r gateway \<Rightarrow> ('r handled \<times> 'r gateway) + RequestScope \<times> 'r gateway" where
  "enforce_api_key_policy cx suite sc k virtual_model gw =
     (if cx_disconnect cx = Some At_Quota \<and> gw_quota gw \<noteq> None then Inl (dropped cx sc gw)
      else
        let (outcome, q) = charge_request (cx_quota_clock cx) (gw_quota gw) k 1;
            gw1 = gw\<lparr>gw_quota := q\<rparr>
        in case outcome of
             Outcome_Allow \<Rightarrow> enforce_model_access_or_log cx suite sc k virtual_model gw1
           | Outcome_Deny retry_after limit kind \<Rightarrow>
               Inl (reject cx suite sc (with_retry_after (with_class (AppError_new 429 ''quota exceeded'')
                 ErrorClass.RateLimited) (max (as_secs retry_after) 1)) QuotaExceeded gw1))"

definition route_or_log :: "'r ingress_ctx \<Rightarrow> ProtocolSuite \<Rightarrow> RequestScope \<Rightarrow> string \<Rightarrow> 'r gateway \<Rightarrow>
    ('r handled \<times> 'r gateway) + RoutingTarget list" where
  "route_or_log cx suite sc virtual_model gw =
     (case resolve (routing_table (cx_state cx)) virtual_model of
        Some targets \<Rightarrow> Inr targets
      | None \<Rightarrow> Inl (reject cx suite sc
          (with_class (AppError_new 404 (''No route found for model: '' @ virtual_model))
            ErrorClass.ModelNotFound) RouteNotFound gw))"

definition compute_pass_through :: "codec \<Rightarrow> ProtocolEndpoint \<Rightarrow> RoutingTarget list \<Rightarrow> string \<Rightarrow>
    bool \<times> string option" where
  "compute_pass_through cd ingress targets original_body =
     (if list_ex (\<lambda>t. pe_suite ingress = pe_suite (api_protocol t) \<and>
           codec_pass_through cd ingress (api_protocol t) = Passthrough) targets
      then (True, Some original_body) else (False, None))"

text \<open>What the fallback loop has set on the scope.\<close>

definition scope_after :: "RequestScope \<Rightarrow> 'r world \<Rightarrow> RequestScope" where
  "scope_after sc w = sc\<lparr>sc_egress := w_egress w, sc_resolved_provider := map_option fst (w_resolved w),
     sc_resolved_model := map_option snd (w_resolved w), sc_ttfb_ms := w_ttfb w\<rparr>"

definition finish_outcome :: "'r ingress_ctx \<Rightarrow> ProtocolSuite \<Rightarrow> RequestScope \<Rightarrow> 'r FallbackOutcome \<Rightarrow>
    'r gateway \<Rightarrow> 'r handled \<times> 'r gateway" where
  "finish_outcome cx suite sc outcome gw =
     (case outcome of
        FallbackOutcome.Success response ttfb \<Rightarrow>
          (Responded response, log_with (\<lambda>gw. emit_ok (cx_times cx) sc (Some (cx_status cx response))
             (gw_telemetry gw)) gw)
      | FallbackOutcome.Failed e cls \<Rightarrow> reject cx suite sc e cls gw
      | Exhausted e \<Rightarrow> reject cx suite sc e RequestErrorClass.UpstreamExhausted gw)"

definition call_upstream :: "'r ingress_ctx \<Rightarrow> codec \<Rightarrow> RequestScope \<Rightarrow> IrRequest \<Rightarrow> ResolvedApiKey \<Rightarrow>
    string \<Rightarrow> RoutingTarget list \<Rightarrow> string \<Rightarrow> 'r gateway \<Rightarrow> 'r handled \<times> 'r gateway" where
  "call_upstream cx cd sc ir k virtual_model targets original_body gw =
     (let suite = pe_suite (codec_id cd);
          (_, raw_body) = compute_pass_through cd (codec_id cd) targets original_body;
          sc1 = mark_waiting_upstream sc;
          w = (gw_world gw)\<lparr>w_egress := None, w_resolved := None, w_ttfb := None\<rparr>
      in case cx_disconnect cx of
           Some (At_Upstream w') \<Rightarrow> dropped cx (scope_after sc1 w') (gw\<lparr>gw_world := w'\<rparr>)
         | _ \<Rightarrow>
           (case execute_with_fallback (cx_upstream cx ir raw_body k) (routing_table (cx_state cx))
                   (routing_strategy (tunables (cx_state cx))) targets virtual_model
                   (cx_request_id cx) w of
              Inl p \<Rightarrow> (Panicked p, gw)
            | Inr (outcome, w') \<Rightarrow>
                finish_outcome cx suite (scope_after sc1 w') outcome (gw\<lparr>gw_world := w'\<rparr>)))"

text \<open>An early return ends the handler.\<close>

fun handler_result :: "'x + 'x \<Rightarrow> 'x" where
  "handler_result (Inl x) = x"
| "handler_result (Inr x) = x"

definition body_size :: "'r ingress_ctx \<Rightarrow> json \<Rightarrow> nat" where
  "body_size cx body = (case cx_to_string cx body of Some s \<Rightarrow> length s | None \<Rightarrow> 0)"

definition request_envelope :: "'r ingress_ctx \<Rightarrow> string \<Rightarrow> json \<Rightarrow> header_map \<Rightarrow> RawEnvelope" where
  "request_envelope cx path body headers =
     build_redacted_envelope (cx_from_str cx) (cx_to_string cx) (cx_sha256_hex cx)
       (raw_envelope_capture_media (tunables (cx_state cx))) (redactor (cx_state cx)) ''POST'' path
       body headers (cx_now cx)"

subsection \<open>The four handlers\<close>

definition handle_chat_completions :: "'r ingress_ctx \<Rightarrow> codec \<Rightarrow> client_request \<Rightarrow> 'r gateway \<Rightarrow>
    'r handled \<times> 'r gateway" where
  "handle_chat_completions cx cd req gw =
     (let headers = in_headers req; body = in_body req; suite = pe_suite (codec_id cd);
          trace = extract_trace (cx_trace_bytes cx) (cx_span_bytes cx) headers;
          raw_env = request_envelope cx ''/v1/chat/completions'' body headers;
          sc0 = set_envelope (RequestScope_new (cx_request_id cx) ''unknown'' (codec_id cd) trace) raw_env
      in handler_result (
        bind_rust (acquire_or_log cx suite sc0 gw) (\<lambda>(sc, gw).
        bind_rust (enforce_body_limit_or_log cx suite sc (header_get headers ''content-type'')
          (body_size cx body) gw) (\<lambda>(sc, gw).
        bind_rust (authenticate cx suite sc headers gw) (\<lambda>(k, sc, gw).
        let original_body = unwrap_or (cx_to_string cx body) [] in
        bind_rust (decode_or_log cx cd sc body raw_env gw) (\<lambda>ir.
        let virtual_model = ir_model ir; sc = set_virtual_model sc virtual_model in
        bind_rust (enforce_api_key_policy cx suite sc k virtual_model gw) (\<lambda>(sc, gw).
        bind_rust (route_or_log cx suite sc virtual_model gw) (\<lambda>targets.
        Inr (call_upstream cx cd sc ir k virtual_model targets original_body gw)))))))))"

definition handle_messages :: "'r ingress_ctx \<Rightarrow> codec \<Rightarrow> client_request \<Rightarrow> 'r gateway \<Rightarrow>
    'r handled \<times> 'r gateway" where
  "handle_messages cx cd req gw =
     (let headers = in_headers req; body = in_body req; suite = pe_suite (codec_id cd);
          trace = extract_trace (cx_trace_bytes cx) (cx_span_bytes cx) headers;
          raw_env = request_envelope cx ''/v1/messages'' body headers;
          sc0 = set_envelope (RequestScope_new (cx_request_id cx) ''unknown'' (codec_id cd) trace) raw_env
      in handler_result (
        bind_rust (acquire_or_log cx suite sc0 gw) (\<lambda>(sc, gw).
        bind_rust (authenticate cx suite sc headers gw) (\<lambda>(k, sc, gw).
        let original_body = unwrap_or (cx_to_string cx body) [] in
        bind_rust (decode_or_log cx cd sc body raw_env gw) (\<lambda>ir.
        let virtual_model = ir_model ir; sc = set_virtual_model sc virtual_model in
        bind_rust (enforce_api_key_policy cx suite sc k virtual_model gw) (\<lambda>(sc, gw).
        bind_rust (route_or_log cx suite sc virtual_model gw) (\<lambda>targets.
        Inr (call_upstream cx cd sc ir k virtual_model targets original_body gw))))))))"

definition handle_responses :: "'r ingress_ctx \<Rightarrow> codec \<Rightarrow> client_request \<Rightarrow> 'r gateway \<Rightarrow>
    'r handled \<times> 'r gateway" where
  "handle_responses cx cd req gw =
     (let headers = in_headers req; body = in_body req; suite = pe_suite (codec_id cd);
          trace = extract_trace (cx_trace_bytes cx) (cx_span_bytes cx) headers;
          raw_env = request_envelope cx ''/v1/responses'' body headers;
          hint = unwrap_or (Option.bind (get body ''model'') as_str) ''unknown'';
          sc0 = set_envelope (RequestScope_new (cx_request_id cx) hint (codec_id cd) trace) raw_env
      in handler_result (
        bind_rust (acquire_or_log cx suite sc0 gw) (\<lambda>(sc, gw).
        bind_rust (enforce_body_limit_or_log cx suite sc (header_get headers ''content-type'')
          (body_size cx body) gw) (\<lambda>(sc, gw).
        bind_rust (authenticate cx suite sc headers gw) (\<lambda>(k, sc, gw).
        let original_body = unwrap_or (cx_to_string cx body) [] in
        bind_rust (decode_or_log cx cd sc body raw_env gw) (\<lambda>ir.
        let virtual_model = ir_model ir; sc = set_virtual_model sc virtual_model in
        bind_rust (enforce_api_key_policy cx suite sc k virtual_model gw) (\<lambda>(sc, gw).
        bind_rust (route_or_log cx suite sc virtual_model gw) (\<lambda>targets.
        Inr (call_upstream cx cd sc ir k virtual_model targets original_body gw)))))))))"

text \<open>The method in the path of a Gemini request; the last colon separates it from the model.\<close>

definition gemini_methods :: "string list" where
  "gemini_methods = [''generateContent'', ''streamGenerateContent'', ''countTokens'', ''embedContent'',
     ''batchGenerateContent'']"

definition split_gemini_capture :: "string \<Rightarrow> (string \<times> string) option" where
  "split_gemini_capture capture =
     (case map_option (\<lambda>(a, b). (rev b, rev a)) (split_once (CHR '':'') (rev capture)) of
        Some (model, method) \<Rightarrow>
          if CHR '':'' \<in> set model then None
          else if method \<in> set gemini_methods then Some (model, method)
          else None
      | None \<Rightarrow> Some (capture, []))"

text \<open>The quoted form of a string without control characters, which is how the error shows the path.\<close>

definition debug_str :: "string \<Rightarrow> string" where
  "debug_str s = [CHR 0x22] @ replace_char (CHR 0x22) [CHR 0x5C, CHR 0x22]
     (replace_char (CHR 0x5C) [CHR 0x5C, CHR 0x5C] s) @ [CHR 0x22]"

text \<open>\<^verbatim>\<open>body[key] = value\<close>, which panics on a value that is neither an object nor null.\<close>

fun index_set :: "json \<Rightarrow> string \<Rightarrow> json \<Rightarrow> json rust" where
  "index_set JNull k v = Inr (JObject [(k, v)])"
| "index_set (JObject kvs) k v = Inr (JObject (obj_insert k v kvs))"
| "index_set _ k v = Inl Cannot_Access_Key"

definition handle_gemini_generate :: "'r ingress_ctx \<Rightarrow> codec \<Rightarrow> string \<Rightarrow> client_request \<Rightarrow> 'r gateway \<Rightarrow>
    'r handled \<times> 'r gateway" where
  "handle_gemini_generate cx cd capture req gw =
     (let headers = in_headers req; body = in_body req; suite = pe_suite (codec_id cd);
          trace = extract_trace (cx_trace_bytes cx) (cx_span_bytes cx) headers;
          raw_env = request_envelope cx (''/v1beta/models/'' @ capture) body headers;
          sc0 = set_envelope (RequestScope_new (cx_request_id cx) ''unknown'' (codec_id cd) trace) raw_env
      in case split_gemini_capture capture of
           None \<Rightarrow> reject cx suite sc0
             (with_class (AppError_new 400 (''Invalid Gemini path capture: '' @ debug_str capture))
               ErrorClass.BadRequest) RequestErrorClass.BadRequest gw
         | Some (model, method) \<Rightarrow>
             let is_gemini_stream = (method = ''streamGenerateContent'');
                 sc1 = set_virtual_model sc0 model
             in handler_result (
        bind_rust (acquire_or_log cx suite sc1 gw) (\<lambda>(sc, gw).
        bind_rust (enforce_body_limit_or_log cx suite sc (header_get headers ''content-type'')
          (body_size cx body) gw) (\<lambda>(sc, gw).
        bind_rust (authenticate cx suite sc headers gw) (\<lambda>(k, sc, gw).
        let original_body = unwrap_or (cx_to_string cx body) [] in
        case (if is_gemini_stream then index_set body ''_stream'' (JBool True) else Inr body) of
          Inl p \<Rightarrow> Inl (Panicked p, gw)
        | Inr body' \<Rightarrow>
        bind_rust (decode_or_log cx cd sc body' raw_env gw) (\<lambda>ir.
        bind_rust (enforce_api_key_policy cx suite sc k model gw) (\<lambda>(sc, gw).
        bind_rust (route_or_log cx suite sc model gw) (\<lambda>targets.
        Inr (call_upstream cx cd sc ir k model targets original_body gw)))))))))"

text \<open>The data-plane routes and their handlers; a Gemini route has the captured part of the path.\<close>

datatype data_route = Chat_Completions | Messages | Responses | Gemini string

fun dispatch :: "data_route \<Rightarrow> 'r ingress_ctx \<Rightarrow> codec \<Rightarrow> client_request \<Rightarrow> 'r gateway \<Rightarrow>
    'r handled \<times> 'r gateway" where
  "dispatch Chat_Completions cx cd = handle_chat_completions cx cd"
| "dispatch Messages cx cd = handle_messages cx cd"
| "dispatch Responses cx cd = handle_responses cx cd"
| "dispatch (Gemini capture) cx cd = handle_gemini_generate cx cd capture"

subsection \<open>Reasoning about a handler\<close>

text \<open>
  \<open>ends\<close> is the postcondition rule of the early returns: every early return satisfies \<open>acc\<close> and every
  value that is passed on satisfies \<open>P\<close>.
\<close>

definition ends :: "('y \<Rightarrow> bool) \<Rightarrow> ('x \<Rightarrow> bool) \<Rightarrow> 'x + 'y \<Rightarrow> bool" where
  "ends P acc m \<longleftrightarrow> (case m of Inl r \<Rightarrow> acc r | Inr y \<Rightarrow> P y)"

lemma ends_simps [simp]: "ends P acc (Inl r) \<longleftrightarrow> acc r" "ends P acc (Inr y) \<longleftrightarrow> P y"
  by (simp_all add: ends_def)

lemma ends_bind:
  assumes "ends P acc m" and "\<And>y. P y \<Longrightarrow> ends Q acc (f y)"
  shows "ends Q acc (bind_rust m f)"
  using assms by (cases m) simp_all

lemma ends_result: "ends acc acc m \<Longrightarrow> acc (handler_result m)"
  by (cases m) simp_all

lemma ends_mono: "ends P acc m \<Longrightarrow> (\<And>y. P y \<Longrightarrow> Q y) \<Longrightarrow> ends Q acc m"
  by (cases m) simp_all

subsection \<open>Every request leaves one row\<close>

definition accounted :: "'r ingress_ctx \<Rightarrow> ProtocolSuite \<Rightarrow> telemetry \<Rightarrow> 'r handled \<times> 'r gateway \<Rightarrow> bool" where
  "accounted cx suite bus = (\<lambda>(out, gw').
     (\<exists>p. out = Panicked p) \<or>
     (\<exists>row pe. tl_requests (gw_telemetry gw') = tl_requests bus @ [row] \<and>
        tl_completions (gw_telemetry gw') = tl_completions bus @ [pe] \<and>
        rv_request_id row = cx_request_id cx \<and>
        (case out of
           Responded r \<Rightarrow> rv_status row = RequestStatus.Success \<and> rv_error_class row = None \<and>
             rv_http_status row = Some (cx_status cx r)
         | Rejected e \<Rightarrow> rv_status row \<noteq> RequestStatus.Success \<and> rv_error_class row \<noteq> None \<and>
             rv_http_status row = Some (ae_status e) \<and> ae_protocol_suite e = Some suite
         | Disconnected \<Rightarrow> rv_status row = RequestStatus.Abnormal \<and>
             rv_http_status row \<in> {Some 499, Some 500}
         | Panicked p \<Rightarrow> False)))"

definition scope_ok :: "'r ingress_ctx \<Rightarrow> RequestScope \<Rightarrow> bool" where
  "scope_ok cx sc \<longleftrightarrow> sc_request_id sc = cx_request_id cx \<and> sc_armed sc"

lemma scope_ok_setters [simp]:
  "scope_ok cx (RequestScope_new (cx_request_id cx) m i t)"
  "scope_ok cx (set_envelope sc e) = scope_ok cx sc"
  "scope_ok cx (set_virtual_model sc m) = scope_ok cx sc"
  "scope_ok cx (set_caller_key_id sc k) = scope_ok cx sc"
  "scope_ok cx (mark_waiting_upstream sc) = scope_ok cx sc"
  "scope_ok cx (scope_after sc w) = scope_ok cx sc"
  by (simp_all add: scope_ok_def scope_setters scope_after_def)

lemma status_of_tier_not_Success [simp]: "status_of_tier t \<noteq> RequestStatus.Success"
  by (cases t) simp_all

lemma reject_accounted:
  "scope_ok cx sc \<Longrightarrow> accounted cx suite (gw_telemetry gw) (reject cx suite sc e cls gw)"
  using emit_error_row [of sc cls "Some (ae_status e)" "gw_telemetry gw" "cx_times cx" "Some (ae_message e)"]
  by (auto simp: accounted_def reject_def log_with_def one_row_def scope_ok_def with_protocol_suite_def)

lemma early_error_accounted:
  "scope_ok cx sc \<Longrightarrow> accounted cx suite (gw_telemetry gw)
     (Rejected (with_protocol_suite e suite), emit_early_error cx sc e gw)"
  using reject_accounted [of cx sc suite gw e "early_error_class e"]
  by (simp add: reject_def emit_early_error_def)

lemma dropped_accounted:
  "scope_ok cx sc \<Longrightarrow> accounted cx suite (gw_telemetry gw) (dropped cx sc gw)"
  using scope_drop_row [of sc "gw_telemetry gw" "cx_times cx"]
  by (auto simp: accounted_def dropped_def log_with_def one_row_def scope_ok_def split: if_splits)

lemma finish_accounted:
  "scope_ok cx sc \<Longrightarrow> accounted cx suite (gw_telemetry gw) (finish_outcome cx suite sc out gw)"
  using emit_ok_row [of sc _ "gw_telemetry gw" "cx_times cx"] reject_accounted [of cx sc suite gw]
  by (cases out)
    (fastforce simp: accounted_def finish_outcome_def log_with_def one_row_def scope_ok_def)+

lemma call_upstream_accounted:
  assumes "scope_ok cx sc"
  shows "accounted cx (pe_suite (codec_id cd)) (gw_telemetry gw)
    (call_upstream cx cd sc ir k m ts b gw)"
proof -
  have "accounted cx suite (gw_telemetry gw) (finish_outcome cx suite (scope_after (mark_waiting_upstream sc) w)
      out (gw\<lparr>gw_world := w\<rparr>))" for suite w out
    using finish_accounted [of cx "scope_after (mark_waiting_upstream sc) w" suite "gw\<lparr>gw_world := w\<rparr>" out]
      assms by simp
  moreover have "accounted cx suite (gw_telemetry gw) (dropped cx (scope_after (mark_waiting_upstream sc) w)
      (gw\<lparr>gw_world := w\<rparr>))" for suite w
    using dropped_accounted [of cx "scope_after (mark_waiting_upstream sc) w" suite "gw\<lparr>gw_world := w\<rparr>"]
      assms by simp
  moreover have "accounted cx suite (gw_telemetry gw) (Panicked p, gw)" for suite p
    by (simp add: accounted_def)
  ultimately show ?thesis
    by (auto simp: call_upstream_def Let_def split_beta split: option.split disconnect.split sum.split)
qed

text \<open>Each segment passes on an armed scope of the request and an unchanged log, or ends accounted for.\<close>

abbreviation pending :: "'r ingress_ctx \<Rightarrow> telemetry \<Rightarrow> RequestScope \<times> 'r gateway \<Rightarrow> bool" where
  "pending cx bus \<equiv> (\<lambda>(sc, gw). scope_ok cx sc \<and> gw_telemetry gw = bus)"

lemma model_access_accounted:
  assumes "scope_ok cx sc" and "gw_telemetry gw = bus"
  shows "ends (pending cx bus) (accounted cx suite bus) (enforce_model_access_or_log cx suite sc k m gw)"
  using assms reject_accounted by (auto simp: enforce_model_access_or_log_def split: sum.split)

lemma policy_accounted:
  assumes "scope_ok cx sc" and "gw_telemetry gw = bus"
  shows "ends (pending cx bus) (accounted cx suite bus) (enforce_api_key_policy cx suite sc k m gw)"
proof -
  have "ends (pending cx bus) (accounted cx suite bus)
      (enforce_model_access_or_log cx suite sc k m (gw\<lparr>gw_quota := q\<rparr>))"
    and "accounted cx suite bus (reject cx suite sc e cls (gw\<lparr>gw_quota := q\<rparr>))" for q e cls
    using model_access_accounted [of cx sc "gw\<lparr>gw_quota := q\<rparr>" bus suite k m]
      reject_accounted [of cx sc suite "gw\<lparr>gw_quota := q\<rparr>" e cls] assms by simp_all
  then show ?thesis using assms dropped_accounted [of cx sc suite gw]
    by (auto simp: enforce_api_key_policy_def Let_def split_beta split: QuotaOutcome.split)
qed

lemma segments_accounted:
  assumes "scope_ok cx sc" and "gw_telemetry gw = bus"
  shows "ends (pending cx bus) (accounted cx suite bus) (acquire_or_log cx suite sc gw)"
    and "ends (pending cx bus) (accounted cx suite bus) (enforce_body_limit_or_log cx suite sc ct n gw)"
    and "ends (\<lambda>(k, y). pending cx bus y) (accounted cx suite bus) (authenticate cx suite sc hs gw)"
    and "ends (\<lambda>ir. True) (accounted cx (pe_suite (codec_id cd)) bus) (decode_or_log cx cd sc body e gw)"
    and "ends (\<lambda>ts. True) (accounted cx suite bus) (route_or_log cx suite sc m gw)"
  using assms
  by (auto simp: acquire_or_log_def enforce_body_limit_or_log_def authenticate_def decode_or_log_def
      route_or_log_def Let_def reject_accounted early_error_accounted dropped_accounted
      split: sum.split option.split)

text \<open>The part the handlers have in common, from decoding on.\<close>

lemma tail_accounted:
  assumes "scope_ok cx sc" and "gw_telemetry gw = bus"
  shows "ends (accounted cx (pe_suite (codec_id cd)) bus) (accounted cx (pe_suite (codec_id cd)) bus)
    (bind_rust (enforce_api_key_policy cx (pe_suite (codec_id cd)) sc k m gw) (\<lambda>(sc, gw).
     bind_rust (route_or_log cx (pe_suite (codec_id cd)) sc m gw) (\<lambda>targets.
     Inr (call_upstream cx cd sc ir k m targets b gw))))"
  by (rule ends_bind [OF policy_accounted [OF assms]])
    (auto intro!: ends_bind [OF segments_accounted(5)] simp: call_upstream_accounted)



subsection \<open>What reaches an upstream\<close>

fun route_path :: "data_route \<Rightarrow> string" where
  "route_path Chat_Completions = ''/v1/chat/completions''"
| "route_path Messages = ''/v1/messages''"
| "route_path Responses = ''/v1/responses''"
| "route_path (Gemini capture) = ''/v1beta/models/'' @ capture"

text \<open>The model a request asks for: in the path of a Gemini request, otherwise in the decoded body.\<close>

definition requested_model :: "data_route \<Rightarrow> 'r ingress_ctx \<Rightarrow> codec \<Rightarrow> client_request \<Rightarrow> string option" where
  "requested_model route cx cd req =
     (case route of
        Gemini capture \<Rightarrow> map_option fst (split_gemini_capture capture)
      | _ \<Rightarrow> (case decode_request cd (in_body req)
                     (request_envelope cx (route_path route) (in_body req) (in_headers req)) of
                Inr ir \<Rightarrow> Some (ir_model ir)
              | Inl _ \<Rightarrow> None))"

definition may_call :: "'r ingress_ctx \<Rightarrow> header_map \<Rightarrow> string \<Rightarrow> 'r gateway \<Rightarrow> bool" where
  "may_call cx hs m gw \<longleftrightarrow>
     (require_api_key (tunables (cx_state cx)) \<longrightarrow> (\<exists>row. presents (cx_lookup cx) hs row)) \<and>
     (\<forall>row ms. presents (cx_lookup cx) hs row \<longrightarrow> row_allowed_models row = Some ms \<longrightarrow> m \<in> set ms) \<and>
     fst (charge_request (cx_quota_clock cx) (gw_quota gw)
       (resolve_api_key (cx_quota_from_value cx) (cx_lookup cx) hs) 1) = Outcome_Allow"

definition calls_allowed :: "'r ingress_ctx \<Rightarrow> header_map \<Rightarrow> string option \<Rightarrow> 'r gateway \<Rightarrow>
    'r handled \<times> 'r gateway \<Rightarrow> bool" where
  "calls_allowed cx hs model gw = (\<lambda>(out, gw').
     w_calls (gw_world gw') = w_calls (gw_world gw) \<or>
     (\<exists>m ts cs. model = Some m \<and> may_call cx hs m gw \<and>
        resolve (routing_table (cx_state cx)) m = Some ts \<and>
        w_calls (gw_world gw') = w_calls (gw_world gw) @ cs \<and> length cs \<le> 20 \<and> fst ` set cs \<subseteq> set ts))"

lemma ends_acc: "ends P acc m \<Longrightarrow> (\<And>r. acc r \<Longrightarrow> acc' r) \<Longrightarrow> ends P acc' m"
  by (cases m) simp_all

lemma untouched_ends [simp]:
  "gw_world (snd (reject cx suite sc e cls gw)) = gw_world gw"
  "gw_world (snd (dropped cx sc gw)) = gw_world gw"
  "gw_world (emit_early_error cx sc e gw) = gw_world gw"
  by (simp_all add: reject_def dropped_def log_with_def emit_early_error_def)

definition untouched :: "'r gateway \<Rightarrow> 'r handled \<times> 'r gateway \<Rightarrow> bool" where
  "untouched gw r \<longleftrightarrow> gw_world (snd r) = gw_world gw"

lemma segments_untouched:
  shows "ends (\<lambda>(sc', gw'). gw' = gw) (untouched gw) (acquire_or_log cx suite sc gw)"
    and "ends (\<lambda>(sc', gw'). gw' = gw) (untouched gw) (enforce_body_limit_or_log cx suite sc ct n gw)"
    and "ends (\<lambda>(k, sc', gw'). gw' = gw \<and>
        k = resolve_api_key (cx_quota_from_value cx) (cx_lookup cx) hs \<and>
        enforce_auth (require_api_key (tunables (cx_state cx))) k = Inr ()) (untouched gw)
      (authenticate cx suite sc hs gw)"
    and "ends (\<lambda>ir. decode_request cd body e = Inr ir) (untouched gw) (decode_or_log cx cd sc body e gw)"
    and "ends (\<lambda>(sc', gw'). gw_world gw' = gw_world gw \<and>
        fst (charge_request (cx_quota_clock cx) (gw_quota gw) k 1) = Outcome_Allow \<and>
        enforce_model_access k m = Inr ()) (untouched gw) (enforce_api_key_policy cx suite sc k m gw)"
    and "ends (\<lambda>ts. resolve (routing_table (cx_state cx)) m = Some ts) (untouched gw)
      (route_or_log cx suite sc m gw)"
  unfolding untouched_def
  by (auto simp: acquire_or_log_def enforce_body_limit_or_log_def authenticate_def decode_or_log_def
      route_or_log_def enforce_api_key_policy_def enforce_model_access_or_log_def Let_def
      split: sum.split option.split prod.split QuotaOutcome.split)

lemma untouched_allowed:
  "gw_world g = gw_world gw \<Longrightarrow> untouched g r \<Longrightarrow> calls_allowed cx hs m gw r"
  by (auto simp: untouched_def calls_allowed_def)

lemma call_upstream_calls:
  assumes "gw_world gw' = gw_world gw" and "may_call cx hs m gw"
    and "resolve (routing_table (cx_state cx)) m = Some ts"
    and "\<And>w. cx_disconnect cx \<noteq> Some (At_Upstream w)"
  shows "calls_allowed cx hs (Some m) gw (call_upstream cx cd sc ir k m ts b gw')"
proof -
  let ?w = "(gw_world gw')\<lparr>w_egress := None, w_resolved := None, w_ttfb := None\<rparr>"
  let ?run = "execute_with_fallback (cx_upstream cx ir (snd (compute_pass_through cd (codec_id cd) ts b)) k)
      (routing_table (cx_state cx)) (routing_strategy (tunables (cx_state cx))) ts m (cx_request_id cx) ?w"
  have world: "gw_world (snd (finish_outcome cx suite sc' out g)) = gw_world g" for suite sc' out and g :: "'a gateway"
    by (cases out) (simp_all add: finish_outcome_def log_with_def reject_def)
  show ?thesis
  proof (cases ?run)
    case (Inl p)
    then have "call_upstream cx cd sc ir k m ts b gw' = (Panicked p, gw')"
      using assms(4) by (auto simp: call_upstream_def Let_def split_beta split: option.split disconnect.split)
    then show ?thesis using assms(1) by (simp add: untouched_allowed [OF assms(1)] untouched_def)
  next
    case (Inr ow)
    obtain out w' where ow: "ow = (out, w')" by (cases ow)
    with Inr have run: "?run = Inr (out, w')" by simp
    then have eq: "gw_world (snd (call_upstream cx cd sc ir k m ts b gw')) = w'"
      using assms(4) world by (auto simp: call_upstream_def Let_def split_beta
          split: option.split disconnect.split)
    obtain cs where "w_calls w' = w_calls ?w @ cs" "length cs \<le> 20" "fst ` set cs \<subseteq> set ts"
      using run
    proof (cases rule: run_unfold)
      case (1 dl ordered w1)
      from loop_summary [OF 1(6)] 1 that show ?thesis
        by (auto simp: loop_post_def DefaultFallbackPolicy_with_defaults_def)
    qed
    then show ?thesis using assms(1-3) eq unfolding calls_allowed_def
      by (auto simp: split_beta)
  qed
qed

lemma may_callI:
  assumes "k = resolve_api_key (cx_quota_from_value cx) (cx_lookup cx) hs"
    and "enforce_auth (require_api_key (tunables (cx_state cx))) k = Inr ()"
    and "enforce_model_access k m = Inr ()"
    and "fst (charge_request (cx_quota_clock cx) (gw_quota gw) k 1) = Outcome_Allow"
  shows "may_call cx hs m gw"
  using assms resolve_authenticated [of "cx_quota_from_value cx" "cx_lookup cx" hs]
    resolve_presents(2) [of "cx_lookup cx" hs _ "cx_quota_from_value cx"]
  by (auto simp: may_call_def enforce_auth_ok enforce_model_access_ok)

text \<open>The segments, with an account of the calls relative to the state at the start.\<close>

lemma segments_calls:
  assumes "gw_world g = gw_world gw"
  shows "ends (\<lambda>(sc', g'). g' = g) (calls_allowed cx hs m gw) (acquire_or_log cx suite sc g)"
    and "ends (\<lambda>(sc', g'). g' = g) (calls_allowed cx hs m gw) (enforce_body_limit_or_log cx suite sc ct n g)"
    and "ends (\<lambda>(k, sc', g'). g' = g \<and>
        k = resolve_api_key (cx_quota_from_value cx) (cx_lookup cx) hs \<and>
        enforce_auth (require_api_key (tunables (cx_state cx))) k = Inr ()) (calls_allowed cx hs m gw)
      (authenticate cx suite sc hs g)"
    and "ends (\<lambda>ir. decode_request cd body e = Inr ir) (calls_allowed cx hs m gw) (decode_or_log cx cd sc body e g)"
    and "ends (\<lambda>(sc', g'). gw_world g' = gw_world g \<and>
        fst (charge_request (cx_quota_clock cx) (gw_quota g) k 1) = Outcome_Allow \<and>
        enforce_model_access k v = Inr ()) (calls_allowed cx hs m gw) (enforce_api_key_policy cx suite sc k v g)"
    and "ends (\<lambda>ts. resolve (routing_table (cx_state cx)) v = Some ts) (calls_allowed cx hs m gw)
      (route_or_log cx suite sc v g)"
  by (rule ends_acc, rule segments_untouched, erule untouched_allowed [OF assms])+

lemma tail_calls:
  assumes "k = resolve_api_key (cx_quota_from_value cx) (cx_lookup cx) hs"
    and "enforce_auth (require_api_key (tunables (cx_state cx))) k = Inr ()"
    and "\<forall>w. cx_disconnect cx \<noteq> Some (At_Upstream w)"
  shows "ends (calls_allowed cx hs (Some m) gw) (calls_allowed cx hs (Some m) gw)
    (bind_rust (enforce_api_key_policy cx suite sc k m gw) (\<lambda>(sc, gw).
     bind_rust (route_or_log cx suite sc m gw) (\<lambda>targets.
     Inr (call_upstream cx cd sc ir k m targets b gw))))"
proof (rule ends_bind [OF segments_calls(5) [OF HOL.refl]], clarify)
  fix sc' and g' :: "'a gateway"
  assume g: "gw_world g' = gw_world gw" and q: "fst (charge_request (cx_quota_clock cx) (gw_quota gw) k 1) = Outcome_Allow"
    and a: "enforce_model_access k m = Inr ()"
  from may_callI [OF assms(1,2) a q] have may: "may_call cx hs m gw" .
  show "ends (calls_allowed cx hs (Some m) gw) (calls_allowed cx hs (Some m) gw)
      (bind_rust (route_or_log cx suite sc' m g') (\<lambda>targets. Inr (call_upstream cx cd sc' ir k m targets b g')))"
    by (rule ends_bind [OF segments_calls(6) [OF g]]) (use call_upstream_calls [OF g may] assms(3) in simp)
qed


subsection \<open>A concrete gateway\<close>

text \<open>A gateway with one route and no key requirement, and a request for its model, for concrete runs.\<close>

definition demo_ir :: "string \<Rightarrow> IrRequest" where
  "demo_ir m = \<lparr>ir_model = m, ir_system = None, ir_messages = [], ir_tools = [],
     ir_params = \<lparr>max_tokens = None, temperature = None, top_p = None, top_k = None, stop_seqs = [],
       frequency_penalty = None, presence_penalty = None, seed = None, thinking = None, verbosity = None\<rparr>,
     ir_response_format = None, ir_stream = False, ir_ingress_protocol = default_endpoint OpenAiCompatible,
     ir_metadata = None, ir_extensions = Map.empty\<rparr>"

definition demo_codec :: codec where
  "demo_codec = \<lparr>codec_id = default_endpoint OpenAiCompatible,
     decode_request = (\<lambda>body raw. Inr (demo_ir ''m'')), codec_pass_through = (\<lambda>i e. Passthrough)\<rparr>"

definition demo_ctx :: "string ingress_ctx" where
  "demo_ctx = \<lparr>cx_state = \<lparr>tunables = \<lparr>routing_strategy = Priority, raw_envelope_capture_media = False,
         require_api_key = False, max_request_body_bytes = 1000, max_inflight = 8, max_queue_depth = 4\<rparr>,
       routing_table = [''m'' \<mapsto> RouteEntry_new demo_route], redactor = Redactor_empty,
       max_multimodal_body_bytes = 1000\<rparr>,
     cx_from_str = (\<lambda>s. None), cx_to_string = (\<lambda>j. Some ''body''), cx_sha256_hex = (\<lambda>s. s),
     cx_quota_from_value = (\<lambda>j. None), cx_lookup = (\<lambda>s. Inr None), cx_available_permits = 8,
     cx_permit_wait = Permit, cx_quota_clock = (\<lambda>n. 0), cx_request_id = ''r'', cx_trace_bytes = [],
     cx_span_bytes = [], cx_now = 0,
     cx_times = \<lparr>et_total_ms = 1, et_upstream_ms = 1, et_timestamp = 0, et_completed_at = 0\<rparr>,
     cx_upstream = (\<lambda>ir raw k. demo_env (AppError_new 503 ''upstream down'')),
     cx_status = (\<lambda>r. 200), cx_disconnect = None\<rparr>"

definition demo_gateway :: "string gateway" where
  "demo_gateway = \<lparr>gw_world = demo_world demo_registry, gw_quota = None,
     gw_telemetry = \<lparr>tl_requests = [], tl_completions = []\<rparr>\<rparr>"

definition demo_request :: client_request where
  "demo_request = \<lparr>in_headers = [], in_body = JArray []\<rparr>"

lemma demo_checks:
  "acquire_permit demo_ctx = Inr ()" "enforce_body_limit (cx_state demo_ctx) None n = Inr ()"
  "extract_credential [] = None" "header_get [] h = None" "cx_disconnect demo_ctx = None"
  "require_api_key (tunables (cx_state demo_ctx)) = False"
  "resolve (routing_table (cx_state demo_ctx)) ''m'' = Some demo_route"
  "resolve_strategy (routing_table (cx_state demo_ctx)) ''m'' = None"
  "cx_upstream demo_ctx = (\<lambda>ir raw k. demo_env (AppError_new 503 ''upstream down''))"
  "cx_request_id demo_ctx = ''r''" "routing_strategy (tunables (cx_state demo_ctx)) = Priority"
  by (simp_all add: acquire_permit_def enforce_body_limit_def extract_credential_def header_get_def
      demo_ctx_def resolve_def resolve_strategy_def RouteEntry_new_def)

lemma demo_run_routed:
  "execute_with_fallback (demo_env (AppError_new 503 ''upstream down'')) (routing_table (cx_state demo_ctx))
     Priority demo_route ''m'' ''r'' (demo_world h) = demo_run h"
  by (simp add: demo_run_def execute_with_fallback_def demo_checks)
    (simp add: RoutingTable_new_def resolve_strategy_def)

lemma demo_answers:
  "\<exists>g. dispatch Chat_Completions demo_ctx demo_codec demo_request demo_gateway = (Responded ''ok'', g) \<and>
     map fst (w_calls (gw_world g)) = demo_route"
proof -
  obtain w where w: "demo_run demo_registry = Inr (FallbackOutcome.Success ''ok'' None, w)"
      "map fst (w_calls w) = demo_route"
    using demo_run_value by (elim exE conjE)
  have world: "(gw_world demo_gateway)\<lparr>w_egress := None, w_resolved := None, w_ttfb := None\<rparr> =
      demo_world demo_registry" and quota: "gw_quota demo_gateway = None"
    by (simp_all add: demo_gateway_def demo_world_def)
  have answer: "\<exists>g. call_upstream demo_ctx demo_codec sc ir k ''m'' demo_route b demo_gateway = (Responded ''ok'', g) \<and>
      map fst (w_calls (gw_world g)) = demo_route" for sc ir k b
    using w unfolding call_upstream_def Let_def
    by (simp add: world demo_checks demo_run_routed finish_outcome_def log_with_def split_beta)
  have same: "demo_gateway\<lparr>gw_quota := None\<rparr> = demo_gateway" by (simp add: demo_gateway_def)
  have codec: "decode_request demo_codec b raw = Inr (demo_ir ''m'')" "ir_model (demo_ir m) = m" for b raw m
    by (simp_all add: demo_codec_def demo_ir_def)
  show ?thesis
    by (simp add: handle_chat_completions_def Let_def acquire_or_log_def demo_checks quota
      enforce_body_limit_or_log_def demo_request_def authenticate_def enforce_auth_def decode_or_log_def
      codec same answer enforce_api_key_policy_def charge_request_def check_quota_def
      enforce_model_access_or_log_def enforce_model_access_def resolve_api_key_def anonymous_key_def
      route_or_log_def)
qed


subsection \<open>Overload, quotas and panics\<close>

text \<open>
  The queue limit is a limit on the requests in flight: a request is turned away as soon as more than
  \<open>max_queue_depth\<close> permits are taken, however many are free, and if the limit is at least the number of
  permits it is never turned away for the queue.
\<close>

theorem queue_limit_counts_running:
  "acquire_permit cx = Inl (with_retry_after (with_class (AppError_new 503 ''gateway overloaded, queue full'')
      ErrorClass.Overloaded) 5) \<longleftrightarrow>
   max_queue_depth (tunables (cx_state cx)) <
     max_inflight (tunables (cx_state cx)) - cx_available_permits cx"
  by (auto simp: acquire_permit_def Let_def with_retry_after_def with_class_def AppError_new_def
      split: permit_wait.split)

text \<open>
  Token quotas count requests.  Every request is charged one token, whatever it asks for: a request that
  is allowed adds one to each token counter of its key that has a limit.
\<close>

theorem token_quota_counts_requests:
  "map_prod outcome_is_allowed (map_option (\<lambda>q. live_usage now q (key_id k)))
     (charge_request (\<lambda>_. now) (Some q) k 1) =
   map_prod (\<lambda>x. x) Some (abstract_check (key_spec k) 1 (live_usage now q (key_id k)))"
  using quota_refinement [of now "key_id k" q "key_spec k" 1]
  by (auto simp: charge_request_def check_quota_def map_prod_def split: QuotaDecision.splits prod.splits)

text \<open>
  A streaming Gemini request whose body is JSON but neither an object nor null panics the process, once
  it has passed the checks in front of the decoder.
\<close>

theorem gemini_stream_body_panics:
  assumes "split_gemini_capture capture = Some (m, ''streamGenerateContent'')"
    and "acquire_permit cx = Inr ()" and "cx_disconnect cx = None"
    and "enforce_body_limit (cx_state cx) (header_get (in_headers req) ''content-type'')
      (body_size cx (in_body req)) = Inr ()"
    and "require_api_key (tunables (cx_state cx)) = False"
    and "\<forall>kvs. in_body req \<noteq> JObject kvs" and "in_body req \<noteq> JNull"
  shows "fst (dispatch (Gemini capture) cx cd req gw) = Panicked Cannot_Access_Key"
  using assms
  by (cases "in_body req")
    (simp_all add: handle_gemini_generate_def Let_def acquire_or_log_def enforce_body_limit_or_log_def
      authenticate_def enforce_auth_def)

theorem gemini_stream_body_panics_witness:
  "fst (dispatch (Gemini ''g:streamGenerateContent'') demo_ctx demo_codec demo_request demo_gateway) =
     Panicked Cannot_Access_Key"
  using gemini_stream_body_panics [of "''g:streamGenerateContent''" "''g''" demo_ctx demo_request demo_codec
      demo_gateway]
  by (simp add: demo_checks demo_request_def split_gemini_capture_def gemini_methods_def)

end
