(* ===== verification/Json_Text.thy ===== *)
theory Json_Text
  imports Json "HOL-Library.Countable"
begin

section \<open>JSON as text\<close>

text \<open>
  What the development relies on of the parser and printer of \<^verbatim>\<open>serde_json\<close>, which are arguments of the definitions
  that use them, and a pair of functions that satisfies it: values are numbered, and a text is a number.
\<close>

abbreviation SP :: char where "SP \<equiv> CHR '' ''"

text \<open>
  What the theorems use of \<^verbatim>\<open>serde_json\<close>: the text of a value is read back, it is not empty, has no white
  space but blanks and does not end in one; the text of an object does not start with a bracket; what is read
  has sorted keys; and \<^verbatim>\<open>[DONE]\<close> is not JSON.
\<close>

definition json_text :: "(string \<Rightarrow> json option) \<Rightarrow> (json \<Rightarrow> string) \<Rightarrow> bool" where
  "json_text from_str display \<longleftrightarrow>
     (\<forall>v. wf_json v \<longrightarrow> from_str (display v) = Some v \<and> display v \<noteq> [] \<and>
        (\<forall>c\<in>set (display v). is_whitespace c \<longrightarrow> c = SP) \<and> last (display v) \<noteq> SP \<and>
        (is_object v \<longrightarrow> hd (display v) \<noteq> CHR ''['')) \<and>
     (\<forall>s v. from_str s = Some v \<longrightarrow> wf_json v) \<and> from_str ''[DONE]'' = None"

instance json_number :: countable
  by countable_datatype

instance json :: countable
  by countable_datatype

definition number_value :: "string \<Rightarrow> json option" where
  "number_value s = (case digits_val 10 0 s of
     Some n \<Rightarrow> if wf_json (from_nat n) then Some (from_nat n) else None
   | None \<Rightarrow> None)"

lemma digits_val_digits: "digits_val r a s = Some n \<Longrightarrow> c \<in> set s \<Longrightarrow> hex_val c \<noteq> None"
  by (induction s arbitrary: a) (auto split: option.splits if_splits)

definition number_display :: "json \<Rightarrow> string" where
  "number_display v = nat_str (to_nat v)"

lemma numbers_json_text: "json_text number_value number_display"
proof -
  have c: "\<not> is_whitespace c" "c \<noteq> CHR ''[''" if "c \<in> set (nat_str n)" for c n
    using digits_val_digits [OF digits_val_nat_str that]
    by (auto simp: hex_val_def is_whitespace_def byte_def split: if_splits)
  have SP: "is_whitespace SP" by (simp add: is_whitespace_def byte_def)
  have "number_value ''[DONE]'' = None"
    by (simp add: number_value_def hex_val_def byte_def)
  moreover have "wf_json v" if "number_value s = Some v" for s v
    using that by (simp add: number_value_def split: option.splits if_splits)
  moreover have "number_value (number_display v) = Some v" if "wf_json v" for v
    using that by (simp add: number_value_def number_display_def digits_val_nat_str)
  moreover have "last (number_display v) \<noteq> SP" "hd (number_display v) \<noteq> CHR ''[''" "number_display v \<noteq> []" for v
    using c(1) [OF last_in_set [OF nat_str_neq_Nil], of "to_nat v"] SP
      c(2) [OF hd_in_set [OF nat_str_neq_Nil], of "to_nat v"]
    by (auto simp: number_display_def)
  moreover have "\<not> is_whitespace x" if "x \<in> set (number_display v)" for x v
    using c(1) that by (simp add: number_display_def)
  ultimately show ?thesis unfolding json_text_def by blast
qed

end
