(* ===== verification/Response_Model.thy ===== *)
theory Response_Model
  imports Protocol Json_Text
begin

section \<open>The model name a client sees\<close>

text \<open>
  The model of \<^verbatim>\<open>server/src/ingress/response_model.rs\<close>: routing replaces the virtual model of a request by an
  upstream model, and the responses are rewritten so that the client sees the name it asked for.  A complete
  body is changed directly; a stream of server-sent events is rewritten line by line, with the bytes of an
  unfinished line kept between network chunks.

  The text of JSON documents is read and written by \<^verbatim>\<open>serde_json\<close>: \<open>from_slice\<close> and \<open>to_vec\<close> are arguments
  of the definitions, and \<open>serde_text\<close> says what the theorems use of them.
\<close>

record ResponseModelOverride =
  ov_suite :: ProtocolSuite
  ov_model :: string

record SseModelRewriter =
  rw_override :: ResponseModelOverride
  rw_pending :: string

definition sse_rewriter :: "ResponseModelOverride \<Rightarrow> SseModelRewriter" where
  "sse_rewriter ov = \<lparr>rw_override = ov, rw_pending = []\<rparr>"

fun model_field :: "ProtocolSuite \<Rightarrow> string" where
  "model_field OpenAiCompatible = ''model''"
| "model_field OpenAiResponses = ''model''"
| "model_field AnthropicMessages = ''model''"
| "model_field GoogleGemini = ''modelVersion''"

definition set_response_model :: "ProtocolSuite \<Rightarrow> string \<Rightarrow> json \<Rightarrow> json" where
  "set_response_model suite model body =
     (case as_object body of
        None \<Rightarrow> body
      | Some object \<Rightarrow> JObject (obj_insert (model_field suite) (JString model) object))"

definition apply_json :: "ResponseModelOverride \<Rightarrow> json \<Rightarrow> json" where
  "apply_json ov body = set_response_model (ov_suite ov) (ov_model ov) body"

definition set_stream_response_model :: "ProtocolSuite \<Rightarrow> string \<Rightarrow> json \<Rightarrow> json" where
  "set_stream_response_model suite model body =
     (if (case get body ''error'' of Some e \<Rightarrow> e \<noteq> JNull | None \<Rightarrow> False) then body
      else if suite = OpenAiResponses
      then adjust ''response'' (set_response_model suite model) body
      else if suite = AnthropicMessages
      then (if Option.bind (get body ''type'') as_str = Some ''message_start''
            then adjust ''message'' (set_response_model suite model) body
            else body)
      else set_response_model suite model body)"

abbreviation LF :: char where "LF \<equiv> CHR 0x0A"
abbreviation CR :: char where "CR \<equiv> CHR 0x0D"
abbreviation TAB :: char where "TAB \<equiv> CHR 0x09"

definition data_line_bounds :: "string \<Rightarrow> (nat \<times> nat) option" where
  "data_line_bounds line =
     (let blanks = length (takeWhile (\<lambda>c. c = SP \<or> c = TAB) line) in
      if \<not> prefix ''data:'' (drop blanks line) then None
      else
        let prefix_end = blanks + length ''data:'';
            prefix_end' = (if prefix_end < length line \<and> line ! prefix_end = SP
                           then prefix_end + 1 else prefix_end);
            newline_start = length (takeWhile (\<lambda>b. \<not> (b = CR \<or> b = LF)) line)
        in Some (prefix_end', newline_start))"

definition trim_ascii_whitespace :: "string \<Rightarrow> string" where
  "trim_ascii_whitespace bytes =
     rev (dropWhile is_ascii_whitespace (rev (dropWhile is_ascii_whitespace bytes)))"

definition rewrite_sse_line :: "(string \<Rightarrow> json option) \<Rightarrow> (json \<Rightarrow> string option) \<Rightarrow>
    ResponseModelOverride \<Rightarrow> string \<Rightarrow> string" where
  "rewrite_sse_line from_slice to_vec ov line =
     (case data_line_bounds line of
        None \<Rightarrow> line
      | Some (prefix_end, newline_start) \<Rightarrow>
          let payload = take (newline_start - prefix_end) (drop prefix_end line) in
          (case from_slice (trim_ascii_whitespace payload) of
             None \<Rightarrow> line
           | Some body \<Rightarrow>
               (case to_vec (set_stream_response_model (ov_suite ov) (ov_model ov) body) of
                  None \<Rightarrow> line
                | Some encoded \<Rightarrow> take prefix_end line @ encoded @ drop newline_start line)))"

text \<open>The loop of \<^verbatim>\<open>rewrite\<close>: complete lines leave the buffer, one at a time.\<close>

function drain_lines :: "(string \<Rightarrow> string) \<Rightarrow> string \<Rightarrow> string \<times> string" where
  "drain_lines f pending =
     (case split_once LF pending of
        None \<Rightarrow> ([], pending)
      | Some (line, rest) \<Rightarrow>
          let (output, pending') = drain_lines f rest in (f (line @ [LF]) @ output, pending'))"
  by pat_completeness auto
termination by (relation "measure (\<lambda>(f, p). length p)") (auto dest: split_once_Some)

declare drain_lines.simps [simp del]

definition rewrite :: "(string \<Rightarrow> json option) \<Rightarrow> (json \<Rightarrow> string option) \<Rightarrow> SseModelRewriter \<Rightarrow>
    string \<Rightarrow> string \<times> SseModelRewriter" where
  "rewrite from_slice to_vec rw bytes =
     (let (output, pending) =
        drain_lines (rewrite_sse_line from_slice to_vec (rw_override rw)) (rw_pending rw @ bytes)
      in (output, rw\<lparr>rw_pending := pending\<rparr>))"

definition finish :: "(string \<Rightarrow> json option) \<Rightarrow> (json \<Rightarrow> string option) \<Rightarrow> SseModelRewriter \<Rightarrow>
    string \<times> SseModelRewriter" where
  "finish from_slice to_vec rw =
     (if rw_pending rw = [] then ([], rw)
      else (rewrite_sse_line from_slice to_vec (rw_override rw) (rw_pending rw),
            rw\<lparr>rw_pending := []\<rparr>))"

subsection \<open>Chunks and lines\<close>

text \<open>The lines of a byte stream, each with its newline; the last may have none.\<close>

function sse_lines :: "string \<Rightarrow> string list" where
  "sse_lines s = (case split_once LF s of
     None \<Rightarrow> if s = [] then [] else [s]
   | Some (line, rest) \<Rightarrow> (line @ [LF]) # sse_lines rest)"
  by pat_completeness auto
termination by (relation "measure length") (auto dest: split_once_Some)

declare sse_lines.simps [simp del]

text \<open>What a client receives when the upstream sends \<open>chunks\<close> and closes.\<close>

fun rewrite_all :: "(string \<Rightarrow> json option) \<Rightarrow> (json \<Rightarrow> string option) \<Rightarrow> SseModelRewriter \<Rightarrow>
    string list \<Rightarrow> string" where
  "rewrite_all from_slice to_vec rw [] = fst (finish from_slice to_vec rw)"
| "rewrite_all from_slice to_vec rw (bytes # chunks) =
     (let (output, rw') = rewrite from_slice to_vec rw bytes
      in output @ rewrite_all from_slice to_vec rw' chunks)"

lemma sse_lines_line: "LF \<notin> set l \<Longrightarrow> sse_lines (l @ LF # rest) = (l @ [LF]) # sse_lines rest"
  by (subst sse_lines.simps) simp

lemma sse_lines_rest: "LF \<notin> set s \<Longrightarrow> sse_lines s = (if s = [] then [] else [s])"
  by (subst sse_lines.simps) (simp add: split_once_None [THEN iffD2])

lemma drain_lines_spec:
  "drain_lines f p = (out, p') \<Longrightarrow>
     LF \<notin> set p' \<and> (\<forall>s. concat (map f (sse_lines (p @ s))) = out @ concat (map f (sse_lines (p' @ s))))"
proof (induction f p arbitrary: out p' rule: drain_lines.induct)
  case (1 f p)
  show ?case
  proof (cases "split_once LF p")
    case None
    then have "LF \<notin> set p" by simp
    moreover have "out = []" "p' = p"
      using "1.prems" None by (simp_all add: drain_lines.simps [of f p] del: split_once_None)
    ultimately show ?thesis by simp
  next
    case (Some lr)
    obtain l r where lr: "lr = (l, r)" by (cases lr)
    obtain out1 p1 where rec: "drain_lines f r = (out1, p1)" by fastforce
    have p: "p = l @ LF # r" "LF \<notin> set l" using split_once_Some [of LF p l r] Some lr by auto
    have "out = f (l @ [LF]) @ out1" "p' = p1"
      using "1.prems" Some lr rec by (simp_all add: drain_lines.simps [of f p])
    then show ?thesis using "1.IH" [OF Some lr [symmetric] rec] by (simp add: p sse_lines_line)
  qed
qed

lemma rewrite_all_spec:
  assumes "LF \<notin> set (rw_pending rw)"
  shows "rewrite_all fs tv rw chunks =
    concat (map (rewrite_sse_line fs tv (rw_override rw)) (sse_lines (rw_pending rw @ concat chunks)))"
  using assms
proof (induction chunks arbitrary: rw)
  case Nil
  then show ?case by (simp add: finish_def sse_lines_rest)
next
  case (Cons b bs)
  obtain out p where d: "drain_lines (rewrite_sse_line fs tv (rw_override rw)) (rw_pending rw @ b) = (out, p)"
    by fastforce
  show ?case using drain_lines_spec [OF d] Cons.IH [of "rw\<lparr>rw_pending := p\<rparr>"]
    by (simp add: rewrite_def d)
qed

text \<open>
  How the network cuts a stream into chunks does not matter: what the client receives is the
  concatenation of the rewritten lines of the whole stream, each line rewritten exactly once.
\<close>

theorem rewriting_ignores_chunks:
  "rewrite_all from_slice to_vec (sse_rewriter ov) chunks =
     concat (map (rewrite_sse_line from_slice to_vec ov) (sse_lines (concat chunks)))"
  using rewrite_all_spec [of "sse_rewriter ov" from_slice to_vec chunks] by (simp add: sse_rewriter_def)

subsection \<open>What the client reads\<close>

text \<open>What the theorems use of \<^verbatim>\<open>serde_json\<close>: a value is always written, compactly (no line break, no blank at
  either end), and read back; what is read has sorted keys.\<close>

definition serde_text :: "(string \<Rightarrow> json option) \<Rightarrow> (json \<Rightarrow> string option) \<Rightarrow> bool" where
  "serde_text from_slice to_vec \<longleftrightarrow>
     (\<forall>v. wf_json v \<longrightarrow> (\<exists>s. to_vec v = Some s \<and> from_slice s = Some v \<and> s \<noteq> [] \<and>
        CR \<notin> set s \<and> LF \<notin> set s \<and> trim_ascii_whitespace s = s)) \<and>
     (\<forall>s v. from_slice s = Some v \<longrightarrow> wf_json v)"

definition data_payload :: "(string \<Rightarrow> json option) \<Rightarrow> string \<Rightarrow> json option" where
  "data_payload from_slice line = (case data_line_bounds line of
     None \<Rightarrow> None
   | Some (a, b) \<Rightarrow> from_slice (trim_ascii_whitespace (take (b - a) (drop a line))))"

text \<open>The model name in an event, where the clients of each protocol look for it.\<close>

definition is_error_event :: "json \<Rightarrow> bool" where
  "is_error_event body \<longleftrightarrow> get body ''error'' \<notin> {None, Some JNull}"

definition visible_model :: "ProtocolSuite \<Rightarrow> json \<Rightarrow> json option" where
  "visible_model suite body =
     (if is_error_event body then None
      else case suite of
        OpenAiCompatible \<Rightarrow> get body ''model''
      | GoogleGemini \<Rightarrow> get body ''modelVersion''
      | OpenAiResponses \<Rightarrow> Option.bind (get body ''response'') (\<lambda>r. get r ''model'')
      | AnthropicMessages \<Rightarrow>
          if Option.bind (get body ''type'') as_str = Some ''message_start''
          then Option.bind (get body ''message'') (\<lambda>r. get r ''model'') else None)"

definition data_field :: string where
  "data_field = ''data:''"

lemma data_field_facts [simp]: "length data_field = 5" "CR \<notin> set data_field" "LF \<notin> set data_field"
  by (simp_all add: data_field_def)

text \<open>The parts of a data line: blanks, the field name, at most one blank, the payload, the line end.\<close>

definition data_line :: "string \<Rightarrow> string \<Rightarrow> string \<Rightarrow> string \<Rightarrow> bool" where
  "data_line ws sp payload tail \<longleftrightarrow> list_all (\<lambda>c. c = SP \<or> c = TAB) ws \<and> (sp = [] \<or> sp = [SP]) \<and>
     (sp = [] \<longrightarrow> \<not> prefix [SP] (payload @ tail)) \<and> CR \<notin> set payload \<and> LF \<notin> set payload \<and>
     (tail = [] \<or> hd tail = CR \<or> hd tail = LF)"

lemma data_line_bounds_parts:
  assumes "data_line ws sp payload tail"
  shows "data_line_bounds (ws @ data_field @ sp @ payload @ tail) =
    Some (length ws + 5 + length sp, length ws + 5 + length sp + length payload)"
proof -
  define line where "line = ws @ data_field @ sp @ payload @ tail"
  have ws: "takeWhile (\<lambda>c. c = SP \<or> c = TAB) line = ws"
    unfolding line_def using assms by (subst takeWhile_append2) (auto simp: data_line_def list_all_iff data_field_def)
  have parts: "\<forall>b\<in>set ws. b = SP \<or> b = TAB" "sp = [] \<or> sp = [SP]" "CR \<notin> set payload"
    "LF \<notin> set payload" using assms unfolding data_line_def list_all_iff by blast+
  have "\<forall>b\<in>set ws. \<not> (b = CR \<or> b = LF)" using parts(1) by fastforce
  moreover have "\<forall>b\<in>set sp. \<not> (b = CR \<or> b = LF)" using parts(2) by fastforce
  moreover have "\<forall>b\<in>set payload. \<not> (b = CR \<or> b = LF)" using parts(3,4) by blast
  moreover have "\<forall>b\<in>set data_field. \<not> (b = CR \<or> b = LF)" by (simp add: data_field_def)
  ultimately have clean: "\<forall>b\<in>set (ws @ data_field @ sp @ payload). \<not> (b = CR \<or> b = LF)"
    by (simp only: set_append ball_Un)
  have nl: "takeWhile (\<lambda>b. \<not> (b = CR \<or> b = LF)) line = ws @ data_field @ sp @ payload"
  proof -
    have "takeWhile (\<lambda>b. \<not> (b = CR \<or> b = LF)) ((ws @ data_field @ sp @ payload) @ tail) =
        (ws @ data_field @ sp @ payload) @ takeWhile (\<lambda>b. \<not> (b = CR \<or> b = LF)) tail"
      by (rule takeWhile_append2) (rule clean [rule_format])
    moreover have "takeWhile (\<lambda>b. \<not> (b = CR \<or> b = LF)) tail = []"
      using assms by (cases tail) (auto simp: data_line_def)
    ultimately show ?thesis by (simp add: line_def)
  qed
  have rest: "drop (length ws + length data_field) line = sp @ payload @ tail" by (simp add: line_def)
  have blank: "(length ws + length data_field < length line \<and> line ! (length ws + length data_field) = SP) \<longleftrightarrow> sp = [SP]"
  proof (cases "sp @ payload @ tail")
    case Nil
    then show ?thesis by (simp add: line_def)
  next
    case (Cons c cs)
    then have len: "length ws + length data_field < length line" by (simp add: line_def)
    then have "line ! (length ws + length data_field) = c"
      using hd_drop_conv_nth [OF len] rest Cons by simp
    moreover have "c = SP \<longleftrightarrow> sp = [SP]" using assms Cons by (auto simp: data_line_def)
    ultimately show ?thesis using len by simp
  qed
  have pre: "prefix data_field (drop (length ws) line)" by (simp add: line_def)
  have "data_line_bounds line = Some (if sp = [SP] then length ws + length data_field + 1
      else length ws + length data_field, length (ws @ data_field @ sp @ payload))"
    unfolding data_line_bounds_def data_field_def [symmetric] Let_def ws nl blank by (simp only: pre not_True_eq_False if_False)
  then show ?thesis using parts(2) by (auto simp: line_def)
qed

lemma data_line_bounds_Some:
  assumes "data_line_bounds line = Some (a, b)"
  obtains ws sp payload tail where "line = ws @ data_field @ sp @ payload @ tail"
    "data_line ws sp payload tail" "a = length (ws @ data_field @ sp)"
    "b = length (ws @ data_field @ sp @ payload)"
proof -
  define ws where "ws = takeWhile (\<lambda>c. c = SP \<or> c = TAB) line"
  have "prefix data_field (drop (length ws) line)"
    using assms unfolding data_line_bounds_def data_field_def [symmetric] Let_def ws_def by (meson option.distinct(1))
  then obtain rest where "drop (length ws) line = data_field @ rest" unfolding prefix_def by blast
  moreover have "line = ws @ drop (length ws) line"
    by (metis append_take_drop_id takeWhile_eq_take ws_def)
  ultimately have line: "line = ws @ data_field @ rest" by simp
  define sp where "sp = (if prefix [SP] rest then [SP] else [])"
  define r where "r = drop (length sp) rest"
  define payload where "payload = takeWhile (\<lambda>b. \<not> (b = CR \<or> b = LF)) r"
  define tail where "tail = dropWhile (\<lambda>b. \<not> (b = CR \<or> b = LF)) r"
  have r: "r = payload @ tail" unfolding payload_def tail_def by simp
  have rest: "rest = sp @ r" unfolding r_def sp_def by (auto simp: prefix_def)
  have blanks: "list_all (\<lambda>c. c = SP \<or> c = TAB) ws"
    unfolding ws_def list_all_iff by (auto dest: set_takeWhileD)
  have nb: "sp = [] \<longrightarrow> \<not> prefix [SP] (payload @ tail)" using rest r by (auto simp: sp_def)
  have "tail = [] \<or> hd tail = CR \<or> hd tail = LF"
    using hd_dropWhile [of "\<lambda>b. \<not> (b = CR \<or> b = LF)" r] unfolding tail_def by blast
  moreover have "CR \<notin> set payload" "LF \<notin> set payload"
    unfolding payload_def by (auto dest: set_takeWhileD)
  ultimately have d: "data_line ws sp payload tail"
    using blanks nb unfolding data_line_def sp_def by presburger
  have l: "line = ws @ data_field @ sp @ payload @ tail" using line rest r by simp
  from data_line_bounds_parts [OF d] assms l that [OF l d] show thesis by simp
qed

lemma trimmed_no_blank:
  assumes "trim_ascii_whitespace s = s" and "s \<noteq> []"
  shows "\<not> prefix [SP] (s @ t)"
proof
  assume "prefix [SP] (s @ t)"
  with assms(2) obtain s' where s: "s = SP # s'" by (cases s) auto
  then have "length (trim_ascii_whitespace s) \<le> length s'"
    unfolding trim_ascii_whitespace_def
    by (simp add: is_ascii_whitespace_def is_whitespace_def byte_def le_trans [OF length_dropWhile_le])
  then show False using assms(1) s by simp
qed

lemma wf_get: "wf_json v \<Longrightarrow> get v k = Some w \<Longrightarrow> wf_json w"
  by (cases v) (auto simp: list_all_iff dest!: map_of_SomeD)

lemma wf_set_response_model: "wf_json v \<Longrightarrow> wf_json (set_response_model suite m v)"
  by (cases v) (simp_all add: set_response_model_def wf_obj_insert del: wf_json.simps(2))

lemma wf_adjust: "wf_json v \<Longrightarrow> (\<And>w. wf_json w \<Longrightarrow> wf_json (f w)) \<Longrightarrow> wf_json (adjust k f v)"
  by (cases v) (auto simp: list_all_iff comp_def case_prod_unfold)

lemma wf_set_stream_response_model: "wf_json v \<Longrightarrow> wf_json (set_stream_response_model suite m v)"
  by (simp add: set_stream_response_model_def wf_set_response_model wf_adjust)

lemma model_field_not_error [simp]: "model_field suite \<noteq> ''error''"
  by (cases suite) simp_all

lemma get_set_response_model:
  "wf_json v \<Longrightarrow> get (set_response_model suite m v) k =
     (if as_object v \<noteq> None \<and> k = model_field suite then Some (JString m) else get v k)"
  by (cases v) (simp_all add: set_response_model_def map_of_obj_insert get_def)

lemma visible_model_set:
  assumes "wf_json body" and "visible_model suite (set_stream_response_model suite m body) = Some x"
  shows "x = JString m"
proof -
  have nested: "y = JString m" if "get body k = Some r" "suite \<noteq> GoogleGemini"
      "get (set_response_model suite m r) ''model'' = Some y" for k r y
    using wf_get [OF assms(1) that(1)] that(2,3)
    by (cases suite; cases r) (simp_all add: get_set_response_model)
  have top: "get (set_response_model suite m body) (model_field suite) \<in> {None, Some (JString m)}"
    using assms(1) by (cases body) (simp_all add: get_set_response_model)
  show ?thesis
  proof (cases "is_error_event body")
    case True
    then have "set_stream_response_model suite m body = body"
      by (auto simp: set_stream_response_model_def is_error_event_def split: option.split)
    then show ?thesis using assms(2) True by (simp add: visible_model_def)
  next
    case False
    then have err: "\<not> (case get body ''error'' of Some e \<Rightarrow> e \<noteq> JNull | None \<Rightarrow> False)"
      by (auto simp: is_error_event_def split: option.splits)
    show ?thesis using assms(2) err top
      by (cases suite)
        (auto dest: nested simp: set_stream_response_model_def visible_model_def get_adjust
          split: if_splits option.splits bind_splits)
  qed
qed

text \<open>A rewritten line has the frame of the original and a payload that is the changed document.\<close>

lemma rewrite_line_frame:
  assumes "serde_text fs tv" and "data_payload fs line = Some body"
  obtains ws sp payload tail enc where "line = ws @ data_field @ sp @ payload @ tail"
    "data_line ws sp payload tail" "data_line ws sp enc tail" "wf_json body"
    "rewrite_sse_line fs tv ov line = ws @ data_field @ sp @ enc @ tail"
    "fs (trim_ascii_whitespace enc) =
       Some (set_stream_response_model (ov_suite ov) (ov_model ov) body)"
proof -
  obtain a b where ab: "data_line_bounds line = Some (a, b)"
    and fs: "fs (trim_ascii_whitespace (take (b - a) (drop a line))) = Some body"
    using assms(2) by (auto simp: data_payload_def split: option.splits)
  obtain ws sp payload tail where line: "line = ws @ data_field @ sp @ payload @ tail"
    and d: "data_line ws sp payload tail" and a: "a = length (ws @ data_field @ sp)"
    and b: "b = length (ws @ data_field @ sp @ payload)"
    using data_line_bounds_Some [OF ab] by blast
  have wf: "wf_json body" using assms(1) fs unfolding serde_text_def by blast
  let ?new = "set_stream_response_model (ov_suite ov) (ov_model ov) body"
  obtain enc where tv: "tv ?new = Some enc" and enc: "fs enc = Some ?new" "enc \<noteq> []"
      "CR \<notin> set enc" "LF \<notin> set enc" "trim_ascii_whitespace enc = enc"
    using assms(1) wf_set_stream_response_model [OF wf, of "ov_suite ov" "ov_model ov"]
    unfolding serde_text_def by blast
  have "data_line ws sp enc tail"
    using d enc(3,4) trimmed_no_blank [OF enc(5,2)] unfolding data_line_def by blast
  moreover have "take a line = ws @ data_field @ sp" "drop b line = tail"
    by (simp_all add: a b line)
  then have "rewrite_sse_line fs tv ov line = ws @ data_field @ sp @ enc @ tail"
    using ab fs tv by (simp add: rewrite_sse_line_def Let_def)
  ultimately show thesis using that line d wf enc(1,5) by simp
qed

lemma rewrite_line_other: "data_payload fs line = None \<Longrightarrow> rewrite_sse_line fs tv ov line = line"
  by (auto simp: data_payload_def rewrite_sse_line_def Let_def split: option.splits)

lemma data_payload_parts:
  "data_line ws sp p t \<Longrightarrow> data_payload fs (ws @ data_field @ sp @ p @ t) = fs (trim_ascii_whitespace p)"
  by (simp add: data_payload_def data_line_bounds_parts)

lemma data_payload_rewrite:
  assumes "serde_text fs tv"
  shows "data_payload fs (rewrite_sse_line fs tv ov line) =
    map_option (set_stream_response_model (ov_suite ov) (ov_model ov)) (data_payload fs line)"
proof (cases "data_payload fs line")
  case None
  then show ?thesis by (simp add: rewrite_line_other)
next
  case (Some body)
  from rewrite_line_frame [OF assms Some, of ov] show ?thesis
    by (metis Some data_payload_parts option.map(2))
qed

subsection \<open>The lines the client receives\<close>

fun lines_ok :: "string list \<Rightarrow> bool" where
  "lines_ok [] = True"
| "lines_ok (l # ls) = (l \<noteq> [] \<and> LF \<notin> set (butlast l) \<and> (ls \<noteq> [] \<longrightarrow> last l = LF) \<and> lines_ok ls)"

lemma lines_ok_sse_lines: "lines_ok (sse_lines s)"
proof (induction s rule: sse_lines.induct)
  case (1 s)
  show ?case
  proof (cases "split_once LF s")
    case None
    then have "LF \<notin> set s" by simp
    then show ?thesis by (auto simp: sse_lines_rest dest: in_set_butlastD)
  next
    case (Some lr)
    obtain l r where lr: "lr = (l, r)" by (cases lr)
    have "s = l @ LF # r" "LF \<notin> set l" using split_once_Some [of LF s l r] Some lr by auto
    then show ?thesis using "1.IH" [OF Some lr [symmetric]] by (simp add: sse_lines_line)
  qed
qed

lemma sse_lines_concat: "lines_ok ls \<Longrightarrow> sse_lines (concat ls) = ls"
proof (induction ls)
  case Nil
  then show ?case by (simp add: sse_lines_rest)
next
  case (Cons l ls)
  then have l: "l = butlast l @ [last l]" "LF \<notin> set (butlast l)" by simp_all
  show ?case
  proof (cases "last l = LF")
    case True
    then have l': "l = butlast l @ [LF]" using l(1) by simp
    have "concat (l # ls) = butlast l @ LF # concat ls" by (subst l') simp
    then have "sse_lines (concat (l # ls)) = (butlast l @ [LF]) # sse_lines (concat ls)"
      using sse_lines_line [OF l(2)] by presburger
    then show ?thesis using Cons l' by simp
  next
    case False
    then have "LF \<notin> set l" using l by (metis Un_iff empty_iff insert_iff list.set set_append)
    moreover have "ls = []" using False Cons.prems by auto
    ultimately show ?thesis using Cons.prems by (simp add: sse_lines_rest)
  qed
qed

lemma rewrite_line_shape:
  assumes "serde_text fs tv" and "l \<noteq> []" and "LF \<notin> set (butlast l)"
  shows "rewrite_sse_line fs tv ov l \<noteq> []" and "LF \<notin> set (butlast (rewrite_sse_line fs tv ov l))"
    and "last l = LF \<Longrightarrow> last (rewrite_sse_line fs tv ov l) = LF"
proof -
  have "rewrite_sse_line fs tv ov l \<noteq> [] \<and> LF \<notin> set (butlast (rewrite_sse_line fs tv ov l)) \<and>
      (last l = LF \<longrightarrow> last (rewrite_sse_line fs tv ov l) = LF)"
  proof (cases "data_payload fs l")
    case None
    then show ?thesis using assms by (simp add: rewrite_line_other)
  next
    case (Some body)
    from rewrite_line_frame [OF assms(1) Some, of ov] obtain ws sp payload tail enc
      where l: "l = (ws @ data_field @ sp @ payload) @ tail" and d: "data_line ws sp payload tail"
        and e: "data_line ws sp enc tail"
        and new: "rewrite_sse_line fs tv ov l = (ws @ data_field @ sp @ enc) @ tail"
      by (metis append.assoc)
    have clean: "LF \<notin> set (ws @ data_field @ sp @ x)" if "data_line ws sp x tail" for x
      using that unfolding data_line_def list_all_iff by fastforce
    show ?thesis
    proof (cases "tail = []")
      case True
      then have "LF \<notin> set l" "LF \<notin> set (rewrite_sse_line fs tv ov l)"
        using clean [OF d] clean [OF e] l new by simp_all
      moreover have "rewrite_sse_line fs tv ov l \<noteq> []" unfolding new by (simp add: data_field_def)
      moreover have "last l \<in> set l" using assms(2) by simp
      ultimately show ?thesis by (metis in_set_butlastD)
    next
      case False
      then have "LF \<notin> set (butlast tail)" using assms(3) unfolding l by (simp add: butlast_append)
      then show ?thesis using False clean [OF e] by (simp add: new butlast_append) (simp add: l)
    qed
  qed
  then show "rewrite_sse_line fs tv ov l \<noteq> []"
    and "LF \<notin> set (butlast (rewrite_sse_line fs tv ov l))"
    and "last l = LF \<Longrightarrow> last (rewrite_sse_line fs tv ov l) = LF" by blast+
qed

lemma lines_ok_rewrite:
  assumes "serde_text fs tv" and "lines_ok ls"
  shows "lines_ok (map (rewrite_sse_line fs tv ov) ls)"
  using assms(2)
proof (induction ls)
  case (Cons l ls)
  then show ?case using rewrite_line_shape [OF assms(1), of l ov] by simp
qed simp

lemma client_lines:
  assumes "serde_text fs tv"
  shows "sse_lines (rewrite_all fs tv (sse_rewriter ov) chunks) =
    map (rewrite_sse_line fs tv ov) (sse_lines (concat chunks))"
  using sse_lines_concat [OF lines_ok_rewrite [OF assms lines_ok_sse_lines]]
    rewrite_all_spec [of "sse_rewriter ov" fs tv chunks] by (simp add: sse_rewriter_def)


subsection \<open>An instance\<close>

text \<open>A reader and writer with the laws of \<open>serde_text\<close>: values are numbered, and a text is a number.\<close>

definition number_text :: "json \<Rightarrow> string option" where
  "number_text v = Some (nat_str (to_nat v))"

lemma digit_not_blank: "hex_val c \<noteq> None \<Longrightarrow> \<not> is_ascii_whitespace c \<and> c \<noteq> CR \<and> c \<noteq> LF"
  by (auto simp: hex_val_def is_ascii_whitespace_def is_whitespace_def byte_def split: if_splits)

lemma trim_ascii_id: "\<forall>c\<in>set s. \<not> is_ascii_whitespace c \<Longrightarrow> trim_ascii_whitespace s = s"
  unfolding trim_ascii_whitespace_def
  by (metis (no_types, lifting) dropWhile_eq_self_iff hd_in_set rev_is_Nil_conv rev_rev_ident set_rev)

lemma numbers_serde_text: "serde_text number_value number_text"
proof -
  have "\<not> is_ascii_whitespace c \<and> c \<noteq> CR \<and> c \<noteq> LF" if "c \<in> set (nat_str n)" for c n
    using digits_val_digits [OF digits_val_nat_str that] digit_not_blank by blast
  then show ?thesis
    by (auto simp: serde_text_def number_text_def number_value_def digits_val_nat_str trim_ascii_id
        split: option.splits if_splits)
qed

definition upstream_event :: json where
  "upstream_event = JObject [(''model'', JString ''upstream'')]"


end
