(* ===== verification/Utf8.thy ===== *)
theory Utf8
  imports Prelude
begin

section \<open>Bytes and text\<close>

text \<open>
  Strings are byte lists.  This theory says which of them are text: the decoding of UTF-8 in the standard library,
  which replaces what is broken (\<^verbatim>\<open>String::from_utf8_lossy\<close>) or fails (\<^verbatim>\<open>String::from_utf8\<close>).
\<close>

definition is_cont :: "char \<Rightarrow> bool" where
  "is_cont c \<longleftrightarrow> 128 \<le> byte c \<and> byte c < 192"

definition utf8_width :: "char \<Rightarrow> nat" where
  "utf8_width c =
     (if byte c < 128 then 1
      else if 194 \<le> byte c \<and> byte c < 224 then 2
      else if 224 \<le> byte c \<and> byte c < 240 then 3
      else if 240 \<le> byte c \<and> byte c < 245 then 4
      else 0)"

text \<open>The second byte of a sequence, by its first.\<close>

definition second_ok :: "char \<Rightarrow> char \<Rightarrow> bool" where
  "second_ok c d \<longleftrightarrow> is_cont d \<and>
     (byte c = 224 \<longrightarrow> 160 \<le> byte d) \<and> (byte c = 237 \<longrightarrow> byte d < 160) \<and>
     (byte c = 240 \<longrightarrow> 144 \<le> byte d) \<and> (byte c = 244 \<longrightarrow> byte d < 144)"

definition cont_len :: "char \<Rightarrow> string \<Rightarrow> nat" where
  "cont_len c s = (case s of
     [] \<Rightarrow> 0
   | d # ds \<Rightarrow> if second_ok c d then Suc (length (takeWhile is_cont (take (utf8_width c - 2) ds))) else 0)"

definition replacement_char :: string where
  "replacement_char = [CHR 0xEF, CHR 0xBF, CHR 0xBD]"

text \<open>
  \<^verbatim>\<open>String::from_utf8_lossy\<close>: every maximal broken sequence becomes one replacement character.
\<close>

function from_utf8_lossy :: "string \<Rightarrow> string" where
  "from_utf8_lossy [] = []"
| "from_utf8_lossy (c # s) =
     (if utf8_width c = 1 then c # from_utf8_lossy s
      else if utf8_width c = 0 then replacement_char @ from_utf8_lossy s
      else let m = cont_len c s in
        (if m = utf8_width c - 1 then c # take m s else replacement_char) @ from_utf8_lossy (drop m s))"
  by pat_completeness auto
termination by (relation "measure length") auto

declare from_utf8_lossy.simps [simp del]

text \<open>\<^verbatim>\<open>String::from_utf8\<close>: nothing is broken exactly if nothing has to be replaced.\<close>

definition from_utf8 :: "string \<Rightarrow> string option" where
  "from_utf8 s = (if from_utf8_lossy s = s then Some s else None)"

lemma ascii_lossy: "\<forall>c\<in>set s. byte c < 128 \<Longrightarrow> from_utf8_lossy s = s"
  by (induction s) (simp_all add: from_utf8_lossy.simps utf8_width_def)

end
