(* ===== verification/Streaming.thy ===== *)
theory Streaming
  imports Response_Model Health Ir_Types Utf8
begin

section \<open>Streams\<close>

text \<open>
  The model of \<^verbatim>\<open>server/src/ingress/streaming.rs\<close>: the keepalive wrapper, the capture guard that writes one
  record of every streamed exchange, the scan of a stream that is forwarded as it is, the cutting of a
  stream into lines, and \<^verbatim>\<open>drive_upstream_stream\<close>, which forwards or transcodes what the upstream sends.

  The driver is a state machine.  Its events are what its \<^verbatim>\<open>select!\<close> can see: a chunk, a transport error, the
  end of the upstream, the idle timer, the timer of the whole stream.  The reaction to an event changes the
  state, then hands over a list of byte strings, one per \<^verbatim>\<open>yield\<close>; an event that ends the stream is followed
  by the finalisation of the guard and, after the loop, by a second one.  A client can go away at every
  \<^verbatim>\<open>yield\<close>, which drops the guard.  Decoder and encoder are arguments, as are the two functions of
  \<^verbatim>\<open>serde_json\<close>; log lines are left out.
\<close>

subsection \<open>Bytes and text\<close>

text \<open>\<^verbatim>\<open>str::lines\<close>.\<close>

definition strip_cr :: "string \<Rightarrow> string" where
  "strip_cr l = (if l \<noteq> [] \<and> last l = CR then butlast l else l)"

definition str_lines :: "string \<Rightarrow> string list" where
  "str_lines s = (let ls = split_on LF s in
     map strip_cr (butlast ls) @ (if last ls = [] then [] else [last ls]))"

text \<open>\<^verbatim>\<open>split_sse_lines\<close> walks over the characters with the start of the current line.\<close>

fun split_from :: "string \<Rightarrow> string \<Rightarrow> string list \<times> string" where
  "split_from cur [] = ([], cur)"
| "split_from cur (c # cs) =
     (if c = LF then (let (ls, r) = split_from [] cs in (cur # ls, r)) else split_from (cur @ [c]) cs)"

definition split_sse_lines :: "string \<Rightarrow> string list \<times> string" where
  "split_sse_lines buf = split_from [] buf"

definition tail_ends_on_frame_boundary :: "string \<Rightarrow> bool" where
  "tail_ends_on_frame_boundary tail \<longleftrightarrow>
     tail = [] \<or> suffix [LF, LF] tail \<or> suffix [CR, LF, CR, LF] tail"

subsection \<open>The scan of forwarded bytes\<close>

definition record_error_frame :: "json \<Rightarrow> UsageAccumulator \<Rightarrow> UsageAccumulator" where
  "record_error_frame error a =
     set_upstream_error a (unwrap_or (as_str (idx error ''message'')) ''upstream stream error'')
       (case as_str (idx error ''type'') of Some c \<Rightarrow> Some c | None \<Rightarrow> as_str (idx error ''code''))"

definition object_only :: "json option \<Rightarrow> json option" where
  "object_only x = (case x of Some e \<Rightarrow> if is_object e then Some e else None | None \<Rightarrow> None)"

definition terminal_types :: "string list" where
  "terminal_types = [''response.completed'', ''response.failed'', ''response.incomplete'', ''message_stop'']"

definition error_marker_text :: string where
  "error_marker_text = [CHR 0x22] @ ''error'' @ [CHR 0x22]"

definition type_marker_text :: string where
  "type_marker_text = [CHR 0x22] @ ''type'' @ [CHR 0x22]"

definition signal_payload :: "(string \<Rightarrow> json option) \<Rightarrow> bool \<Rightarrow> bool \<Rightarrow> string \<Rightarrow> UsageAccumulator \<Rightarrow>
    UsageAccumulator" where
  "signal_payload from_str has_type has_error json_str a =
     (if has_type \<and> contains json_str type_marker_text then
        (case from_str json_str of
           None \<Rightarrow> a
         | Some v \<Rightarrow>
             let a1 = (case as_str (idx v ''type'') of
                   Some t \<Rightarrow> if t \<in> set terminal_types then set_upstream_terminal a else a
                 | None \<Rightarrow> a)
             in if has_error \<and> contains json_str error_marker_text then
                  (case object_only (case get v ''error'' of Some e \<Rightarrow> Some e
                       | None \<Rightarrow> Option.bind (get v ''response'') (\<lambda>r. get r ''error'')) of
                     Some error \<Rightarrow> record_error_frame error a1
                   | None \<Rightarrow> a1)
                else a1)
      else if has_error \<and> contains json_str error_marker_text then
        (case from_str json_str of
           None \<Rightarrow> a
         | Some v \<Rightarrow>
             (case object_only (get v ''error'') of
                Some error \<Rightarrow> record_error_frame error a
              | None \<Rightarrow> a))
      else a)"

definition signal_line :: "(string \<Rightarrow> json option) \<Rightarrow> bool \<Rightarrow> bool \<Rightarrow> string \<Rightarrow> UsageAccumulator \<Rightarrow>
    UsageAccumulator" where
  "signal_line from_str has_type has_error line a =
     (let trimmed = trim line in
      case strip_prefix ''event:'' trimmed of
        Some ev \<Rightarrow> if trim ev = ''message_stop'' then set_upstream_terminal a else a
      | None \<Rightarrow>
          (case strip_prefix ''data:'' trimmed of
             None \<Rightarrow> a
           | Some rest \<Rightarrow>
               let json_str = trim rest in
               if json_str = ''[DONE]'' then set_upstream_terminal a
               else if json_str = [] then a
               else signal_payload from_str has_type has_error json_str a))"

definition detect_verbatim_signals :: "(string \<Rightarrow> json option) \<Rightarrow> string \<Rightarrow> UsageAccumulator \<Rightarrow>
    UsageAccumulator" where
  "detect_verbatim_signals from_str bytes a =
     (let has_error = contains bytes error_marker_text;
          has_done = contains bytes ''[DONE]'';
          has_type = contains bytes type_marker_text;
          has_event = contains bytes ''event:''
      in if \<not> has_error \<and> \<not> has_done \<and> \<not> has_type \<and> \<not> has_event then a
         else fold (signal_line from_str has_type has_error) (str_lines (from_utf8_lossy bytes)) a)"

subsection \<open>The capture guard\<close>

record StreamCapture =
  sc_cap_request_id :: string
  sc_egress_method :: string
  sc_egress_path :: string
  sc_egress_headers :: "(string \<times> string) list"
  sc_egress_body :: "string option"
  sc_upstream_status :: "nat option"
  sc_upstream_resp_headers :: "(string \<times> string) list"
  sc_client_resp_headers :: "(string \<times> string) list"
  sc_health_key :: "string option"

record ExchangeCapture =
  xc_request_id :: string
  xc_egress_method :: string
  xc_egress_path :: string
  xc_egress_headers :: "(string \<times> string) list"
  xc_egress_body :: "string option"
  xc_upstream_status :: "nat option"
  xc_upstream_resp_headers :: "(string \<times> string) list"
  xc_upstream_resp_body :: "string option"
  xc_client_resp_headers :: "(string \<times> string) list"
  xc_client_resp_body :: "string option"
  xc_is_stream :: bool
  xc_truncation_reason :: "string option"
  xc_stream_duration_ms :: "nat option"
  xc_upstream_error :: "string option"
  xc_upstream_error_class :: "string option"

text \<open>
  The guard with the objects it shares: the accumulator, the health registry (\<open>None\<close> where the capture has
  none) and the telemetry bus, which is the list of the captures sent.
\<close>

record guard =
  g_capture :: "StreamCapture option"
  g_upstream_body :: string
  g_client_body :: string
  g_started :: instant
  g_last_reason :: "TruncationReason option"
  g_finalized :: bool
  g_upstream_completed :: bool
  g_accum :: UsageAccumulator
  g_health :: "HealthRegistry option"
  g_health_key :: "string option"
  g_sent :: "ExchangeCapture list"

definition StreamCaptureGuard_new :: "StreamCapture option \<Rightarrow> UsageAccumulator \<Rightarrow> HealthRegistry option \<Rightarrow>
    instant \<Rightarrow> guard" where
  "StreamCaptureGuard_new capture accum health now =
     \<lparr>g_capture = capture, g_upstream_body = [], g_client_body = [], g_started = now, g_last_reason = None,
      g_finalized = False, g_upstream_completed = False, g_accum = accum,
      g_health = (case capture of None \<Rightarrow> None | Some c \<Rightarrow> health),
      g_health_key = Option.bind capture sc_health_key, g_sent = []\<rparr>"

definition append_upstream :: "string \<Rightarrow> guard \<Rightarrow> guard" where
  "append_upstream bytes g = g\<lparr>g_upstream_body := g_upstream_body g @ bytes\<rparr>"

definition append_client :: "string \<Rightarrow> guard \<Rightarrow> guard" where
  "append_client bytes g = g\<lparr>g_client_body := g_client_body g @ bytes\<rparr>"

definition set_reason :: "TruncationReason option \<Rightarrow> guard \<Rightarrow> guard" where
  "set_reason r g = g\<lparr>g_last_reason := r\<rparr>"

definition mark_upstream_completed :: "guard \<Rightarrow> guard" where
  "mark_upstream_completed g = g\<lparr>g_upstream_completed := True\<rparr>"

definition with_accum :: "(UsageAccumulator \<Rightarrow> UsageAccumulator) \<Rightarrow> guard \<Rightarrow> guard" where
  "with_accum f g = g\<lparr>g_accum := f (g_accum g)\<rparr>"

definition stream_failed :: "guard \<Rightarrow> bool" where
  "stream_failed g \<longleftrightarrow> g_last_reason g \<in> {Some UpstreamError, Some Idle, Some Total} \<or>
     upstream_error (g_accum g) \<noteq> None"

definition record_health_failure_if_needed :: "instant \<Rightarrow> guard \<Rightarrow> guard" where
  "record_health_failure_if_needed now g =
     (if stream_failed g then
        (case (g_health g, g_health_key g) of
           (Some h, Some key) \<Rightarrow> g\<lparr>g_health := Some (record_failure h now key)\<rparr>
         | _ \<Rightarrow> g)
      else g)"

definition drop_fallback_reason :: "guard \<Rightarrow> TruncationReason option" where
  "drop_fallback_reason g =
     (if g_upstream_completed g \<or> g_last_reason g \<noteq> None \<or> upstream_terminal (g_accum g) \<or>
         upstream_error (g_accum g) \<noteq> None
      then None else Some ClientDisconnected)"

definition nonempty_text :: "string \<Rightarrow> string option" where
  "nonempty_text body = (if body = [] then None else Some (from_utf8_lossy body))"

definition error_text :: "UpstreamStreamError \<Rightarrow> string" where
  "error_text e = (case use_code e of
     Some code \<Rightarrow> use_message e @ '' ('' @ code @ '')'' | None \<Rightarrow> use_message e)"

definition take_capture :: "instant \<Rightarrow> TruncationReason option \<Rightarrow> guard \<Rightarrow> ExchangeCapture option \<times> guard" where
  "take_capture now fallback_reason g =
     (if g_finalized g then (None, g)
      else
        let g1 = g\<lparr>g_finalized := True,
                   g_last_reason := (if g_last_reason g = None then fallback_reason else g_last_reason g)\<rparr>
        in case g_capture g1 of
             None \<Rightarrow> (None, g1)
           | Some cap \<Rightarrow>
               (Some \<lparr>xc_request_id = sc_cap_request_id cap, xc_egress_method = sc_egress_method cap,
                  xc_egress_path = sc_egress_path cap, xc_egress_headers = sc_egress_headers cap,
                  xc_egress_body = sc_egress_body cap, xc_upstream_status = sc_upstream_status cap,
                  xc_upstream_resp_headers = sc_upstream_resp_headers cap,
                  xc_upstream_resp_body = nonempty_text (g_upstream_body g1),
                  xc_client_resp_headers = sc_client_resp_headers cap,
                  xc_client_resp_body = nonempty_text (g_client_body g1), xc_is_stream = True,
                  xc_truncation_reason = map_option truncation_as_str (g_last_reason g1),
                  xc_stream_duration_ms = Some (as_millis (duration_since now (g_started g1))),
                  xc_upstream_error = map_option error_text (upstream_error (g_accum g1)),
                  xc_upstream_error_class = map_option (class_as_str \<circ> to_request_class \<circ> use_class)
                    (upstream_error (g_accum g1))\<rparr>,
                g1\<lparr>g_capture := None\<rparr>))"

definition send_capture :: "ExchangeCapture option \<times> guard \<Rightarrow> guard" where
  "send_capture r = (case r of (None, g) \<Rightarrow> g | (Some x, g) \<Rightarrow> g\<lparr>g_sent := g_sent g @ [x]\<rparr>)"

definition finalize_spawn :: "instant \<Rightarrow> guard \<Rightarrow> guard" where
  "finalize_spawn now g = send_capture (take_capture now None (record_health_failure_if_needed now g))"

text \<open>\<^verbatim>\<open>Drop\<close>: nothing happens if the capture is gone.\<close>

definition guard_drop :: "instant \<Rightarrow> guard \<Rightarrow> guard" where
  "guard_drop now g =
     (let reason = drop_fallback_reason g;
          (cap, g1) = take_capture now reason g
      in case cap of
           None \<Rightarrow> g1
         | Some x \<Rightarrow>
             let g2 = record_health_failure_if_needed now g1;
                 g3 = (case reason of Some r \<Rightarrow> with_accum (\<lambda>a. mark_truncated a r) g2 | None \<Rightarrow> g2)
             in send_capture (Some x, g3))"

subsection \<open>The driver\<close>

record ('d, 'e) transcoder =
  tx_feed :: "'d \<Rightarrow> string \<Rightarrow> ((Error + StreamPart list) \<times> 'd) rust"
  tx_finish :: "'d \<Rightarrow> (Error + StreamPart list) \<times> 'd"
  tx_encode_part :: "'e \<Rightarrow> StreamPart \<Rightarrow> (Error + string) \<times> 'e"
  tx_encode_error :: "'e \<Rightarrow> string \<Rightarrow> ErrorClass \<Rightarrow> string option \<Rightarrow> string \<times> 'e"
  tx_encode_done :: "'e \<Rightarrow> string \<times> 'e"

text \<open>What the driver is called with, and what it keeps: \<open>st_codec\<close> is absent on the verbatim path.\<close>

record ('d, 'e) driver =
  dr_ops :: "('d, 'e) transcoder"
  dr_from_str :: "string \<Rightarrow> json option"
  dr_to_vec :: "json \<Rightarrow> string option"
  dr_end_marker :: string
  dr_error_marker :: string

record ('d, 'e) stream_state =
  st_guard :: guard
  st_tail_buf :: string
  st_codec :: "('d \<times> 'e) option"
  st_rewriter :: "SseModelRewriter option"
  st_frame_buf :: string
  st_saw_terminal :: bool
  st_yielded :: "string list"
  st_closed :: bool

definition stream_start :: "guard \<Rightarrow> ('d \<times> 'e) option \<Rightarrow> ResponseModelOverride option \<Rightarrow> ('d, 'e) stream_state" where
  "stream_start g transcode response_model =
     \<lparr>st_guard = g, st_tail_buf = [], st_codec = transcode,
      st_rewriter = map_option sse_rewriter response_model, st_frame_buf = [], st_saw_terminal = False,
      st_yielded = [], st_closed = False\<rparr>"

definition TAIL_CAP :: nat where
  "TAIL_CAP = 512"

definition keep_tail :: "string \<Rightarrow> string \<Rightarrow> string" where
  "keep_tail tail bytes = (let t = tail @ bytes in if length t > TAIL_CAP then drop (length t - TAIL_CAP) t else t)"

fun is_terminal_part :: "StreamPart \<Rightarrow> bool" where
  "is_terminal_part (Finish _) = True"
| "is_terminal_part (ResponseCompleted _ _ _ _) = True"
| "is_terminal_part _ = False"

fun note_error_part :: "StreamPart \<Rightarrow> guard \<Rightarrow> guard" where
  "note_error_part (Error_part message cls code) g = with_accum (\<lambda>a. set_upstream_error a message code) g"
| "note_error_part _ g = g"

text \<open>The parts of one line: encoder, guard, terminal flag and output.\<close>

type_synonym 'e encoding = "'e \<times> guard \<times> bool \<times> string"

definition transcode_part :: "('d, 'e) transcoder \<Rightarrow> StreamPart \<Rightarrow> 'e encoding \<Rightarrow> 'e encoding" where
  "transcode_part ops part = (\<lambda>(e, g, saw, out).
     let saw' = (saw \<or> is_terminal_part part);
         g' = note_error_part part g
     in case tx_encode_part ops e part of
          (Inr b, e') \<Rightarrow> (e', g', saw', out @ b)
        | (Inl err, e') \<Rightarrow>
            let (ef, e'') = tx_encode_error ops e' (''transcode encode error: '' @ error_display err)
                  ErrorClass.LossyOrCapability None
            in (e'', g', saw', out @ ef))"

definition transcode_line :: "('d, 'e) transcoder \<Rightarrow> string \<Rightarrow> 'd \<times> 'e encoding \<Rightarrow> ('d \<times> 'e encoding) rust" where
  "transcode_line ops line = (\<lambda>(d, e, g, saw, out).
     bind_rust (tx_feed ops d line) (\<lambda>(r, d').
       case r of
         Inr parts \<Rightarrow> Inr (d', fold (transcode_part ops) parts (e, g, saw, out))
       | Inl err \<Rightarrow>
           let (ef, e') = tx_encode_error ops e (''transcode decode error: '' @ error_display err)
                 ErrorClass.LossyOrCapability None
           in Inr (d', e', g, saw, out @ ef)))"

fun transcode_lines :: "('d, 'e) transcoder \<Rightarrow> string list \<Rightarrow> 'd \<times> 'e encoding \<Rightarrow> ('d \<times> 'e encoding) rust" where
  "transcode_lines ops [] acc = Inr acc"
| "transcode_lines ops (l # ls) acc = bind_rust (transcode_line ops l acc) (transcode_lines ops ls)"

definition rewrite_out :: "('d, 'e) driver \<Rightarrow> SseModelRewriter option \<Rightarrow> string \<Rightarrow> string \<times> SseModelRewriter option" where
  "rewrite_out dr rw out = (case rw of
     None \<Rightarrow> (out, None)
   | Some r \<Rightarrow> let (out', r') = rewrite (dr_from_str dr) (dr_to_vec dr) r out in (out', Some r'))"

text \<open>\<open>yield_captured\<close> is a \<^verbatim>\<open>yield\<close> that is preceded by \<^verbatim>\<open>append_client\<close>; empty strings are not yielded.\<close>

definition yield_captured :: "string \<Rightarrow> (bool \<times> string) list" where
  "yield_captured out = (if out = [] then [] else [(True, out)])"

definition on_chunk :: "('d, 'e) driver \<Rightarrow> string \<Rightarrow> ('d, 'e) stream_state \<Rightarrow>
    (('d, 'e) stream_state \<times> (bool \<times> string) list) rust" where
  "on_chunk dr bytes st =
     (let g = append_upstream bytes (with_accum (\<lambda>a. record_chunk a (from_utf8_lossy bytes)) (st_guard st)) in
      case st_codec st of
        Some (d, e) \<Rightarrow>
          let (lines, remainder) = split_sse_lines (st_frame_buf st @ from_utf8_lossy bytes) in
          bind_rust (transcode_lines (dr_ops dr) lines (d, e, g, st_saw_terminal st, []))
            (\<lambda>(d', e', g', saw, out).
              let st1 = st\<lparr>st_guard := g', st_codec := Some (d', e'), st_frame_buf := remainder,
                          st_saw_terminal := saw\<rparr>
              in if out = [] then Inr (st1, [])
                 else let (out', rw) = rewrite_out dr (st_rewriter st) out
                      in Inr (st1\<lparr>st_rewriter := rw\<rparr>, yield_captured out'))
      | None \<Rightarrow>
          let g1 = with_accum (detect_verbatim_signals (dr_from_str dr) bytes) g;
              (client_bytes, rw) = rewrite_out dr (st_rewriter st) bytes
          in Inr (st\<lparr>st_guard := g1, st_tail_buf := keep_tail (st_tail_buf st) bytes, st_rewriter := rw\<rparr>,
                  yield_captured client_bytes))"

definition flush_rewriter :: "('d, 'e) driver \<Rightarrow> SseModelRewriter option \<Rightarrow>
    (bool \<times> string) list \<times> SseModelRewriter option" where
  "flush_rewriter dr rw = (case rw of
     None \<Rightarrow> ([], None)
   | Some r \<Rightarrow> let (trailing, r') = finish (dr_from_str dr) (dr_to_vec dr) r in (yield_captured trailing, Some r'))"

text \<open>A failure the gateway observes: the trailing line, then an error frame of the client's protocol.\<close>

definition on_truncation :: "('d, 'e) driver \<Rightarrow> TruncationReason \<Rightarrow> string \<Rightarrow> ErrorClass \<Rightarrow>
    ('d, 'e) stream_state \<Rightarrow> ('d, 'e) stream_state \<times> (bool \<times> string) list" where
  "on_truncation dr reason message cls st =
     (let g = with_accum (\<lambda>a. mark_truncated a reason) (set_reason (Some reason) (st_guard st));
          (trailing, rw) = flush_rewriter dr (st_rewriter st);
          st1 = st\<lparr>st_guard := g, st_rewriter := rw\<rparr>
      in case st_codec st of
           Some (d, e) \<Rightarrow>
             let (ef, e') = tx_encode_error (dr_ops dr) e message cls None
             in (st1\<lparr>st_codec := Some (d, e')\<rparr>, trailing @ yield_captured ef)
         | None \<Rightarrow>
             (st1, trailing @
               (if dr_error_marker dr = [] then []
                else (if tail_ends_on_frame_boundary (st_tail_buf st) then [] else [(False, [LF, LF])]) @
                     [(True, dr_error_marker dr)])))"

text \<open>The parts that are encoded at the end of the upstream; an encoder error is ignored there.\<close>

definition flush_part :: "('d, 'e) transcoder \<Rightarrow> StreamPart \<Rightarrow> 'e \<times> bool \<times> string \<Rightarrow> 'e \<times> bool \<times> string" where
  "flush_part ops part = (\<lambda>(e, saw, out).
     case tx_encode_part ops e part of
       (Inr b, e') \<Rightarrow> (e', saw \<or> is_terminal_part part, out @ b)
     | (Inl _, e') \<Rightarrow> (e', saw \<or> is_terminal_part part, out))"

definition flush_codec :: "('d, 'e) driver \<Rightarrow> ('d, 'e) stream_state \<Rightarrow> 'd \<Rightarrow> 'e \<Rightarrow> ('d \<times> 'e \<times> bool \<times> string) rust" where
  "flush_codec dr st d e =
     (let ops = dr_ops dr in
      bind_rust
        (if trim (st_frame_buf st) = [] then Inr (d, e, st_saw_terminal st, [])
         else bind_rust (tx_feed ops d (st_frame_buf st)) (\<lambda>(r, d').
           case r of
             Inr parts \<Rightarrow> Inr (d', fold (flush_part ops) parts (e, st_saw_terminal st, []))
           | Inl _ \<Rightarrow> Inr (d', e, st_saw_terminal st, [])))
        (\<lambda>(d1, e1, saw, out).
          if saw then
            (case tx_finish ops d1 of
               (Inr parts, d2) \<Rightarrow>
                 let (e2, _, out2) = fold (flush_part ops) parts (e1, saw, out) in Inr (d2, e2, saw, out2)
             | (Inl _, d2) \<Rightarrow> Inr (d2, e1, saw, out))
          else if upstream_error (g_accum (st_guard st)) \<noteq> None then
            (let (done, e2) = tx_encode_done ops e1 in Inr (d1, e2, saw, out @ done))
          else Inr (d1, e1, saw, out)))"

definition on_eof :: "('d, 'e) driver \<Rightarrow> ('d, 'e) stream_state \<Rightarrow>
    (('d, 'e) stream_state \<times> (bool \<times> string) list) rust" where
  "on_eof dr st =
     (let g = with_accum mark_completed (mark_upstream_completed (set_reason None (st_guard st)));
          st0 = st\<lparr>st_guard := g\<rparr>
      in bind_rust
        (case st_codec st of
           Some (d, e) \<Rightarrow>
             bind_rust (flush_codec dr st0 d e) (\<lambda>(d', e', saw, out).
               let (out', rw) = (if out = [] then ([], st_rewriter st) else rewrite_out dr (st_rewriter st) out)
               in Inr (st0\<lparr>st_codec := Some (d', e'), st_frame_buf := [], st_saw_terminal := saw,
                          st_rewriter := rw\<rparr>, yield_captured out'))
         | None \<Rightarrow>
             Inr (st0, if upstream_error (g_accum g) \<noteq> None \<and> \<not> upstream_terminal (g_accum g) \<and>
                          dr_end_marker dr \<noteq> []
                       then [(True, dr_end_marker dr)] else []))
        (\<lambda>(st1, ys).
          let (trailing, rw) = flush_rewriter dr (st_rewriter st1)
          in Inr (st1\<lparr>st_rewriter := rw\<rparr>, ys @ trailing)))"

subsection \<open>Events, cancellation and runs\<close>

datatype stream_event = Chunk string | Upstream_Error | Eof | Idle_Timer | Total_Timer

fun react :: "('d, 'e) driver \<Rightarrow> stream_event \<Rightarrow> ('d, 'e) stream_state \<Rightarrow>
    (('d, 'e) stream_state \<times> (bool \<times> string) list) rust" where
  "react dr (Chunk bytes) st = on_chunk dr bytes st"
| "react dr Upstream_Error st = Inr (on_truncation dr UpstreamError
     ''upstream stream truncated by gateway'' ErrorClass.Transient st)"
| "react dr Eof st = on_eof dr st"
| "react dr Idle_Timer st = Inr (on_truncation dr Idle
     ''upstream stream idle timeout'' ErrorClass.DeadlineExceeded st)"
| "react dr Total_Timer st = Inr (on_truncation dr Total
     ''upstream stream exceeded gateway total budget'' ErrorClass.DeadlineExceeded st)"

fun ends_stream :: "stream_event \<Rightarrow> bool" where
  "ends_stream (Chunk _) = False"
| "ends_stream _ = True"

fun deliver :: "(bool \<times> string) list \<Rightarrow> ('d, 'e) stream_state \<Rightarrow> ('d, 'e) stream_state" where
  "deliver [] st = st"
| "deliver ((captured, bytes) # ys) st =
     deliver ys (st\<lparr>st_guard := (if captured then append_client bytes (st_guard st) else st_guard st),
                    st_yielded := st_yielded st @ [bytes]\<rparr>)"

text \<open>The end of the generator: the finalisation in the branch, and the one after the loop.\<close>

definition close_stream :: "instant \<Rightarrow> instant \<Rightarrow> ('d, 'e) stream_state \<Rightarrow> ('d, 'e) stream_state" where
  "close_stream now now' st = st\<lparr>st_guard := finalize_spawn now' (finalize_spawn now (st_guard st)), st_closed := True\<rparr>"

definition stream_step :: "('d, 'e) driver \<Rightarrow> instant \<Rightarrow> instant \<Rightarrow> stream_event \<Rightarrow> ('d, 'e) stream_state \<Rightarrow>
    ('d, 'e) stream_state rust" where
  "stream_step dr now now' ev st =
     (if st_closed st then Inr st
      else bind_rust (react dr ev st) (\<lambda>(st1, ys).
        let st2 = deliver ys st1 in Inr (if ends_stream ev then close_stream now now' st2 else st2)))"

text \<open>The client goes away while the stream waits for an event, or at the \<open>n\<close>th \<^verbatim>\<open>yield\<close> of an event.\<close>

definition stream_drop :: "instant \<Rightarrow> ('d, 'e) stream_state \<Rightarrow> ('d, 'e) stream_state" where
  "stream_drop now st = st\<lparr>st_guard := guard_drop now (st_guard st), st_closed := True\<rparr>"

definition stream_cancel :: "('d, 'e) driver \<Rightarrow> instant \<Rightarrow> stream_event \<Rightarrow> nat \<Rightarrow> ('d, 'e) stream_state \<Rightarrow>
    ('d, 'e) stream_state rust" where
  "stream_cancel dr now ev n st =
     (if st_closed st then Inr st
      else bind_rust (react dr ev st) (\<lambda>(st1, ys). Inr (stream_drop now (deliver (take n ys) st1))))"

text \<open>The runs of a stream.\<close>

inductive stream_run :: "('d, 'e) driver \<Rightarrow> ('d, 'e) stream_state \<Rightarrow> stream_event list \<Rightarrow>
    ('d, 'e) stream_state \<Rightarrow> bool" for dr where
  start: "stream_run dr st [] st"
| event: "stream_run dr st evs st1 \<Longrightarrow> \<not> st_closed st1 \<Longrightarrow> stream_step dr now now' ev st1 = Inr st2 \<Longrightarrow>
    stream_run dr st (evs @ [ev]) st2"
| dropped: "stream_run dr st evs st1 \<Longrightarrow> \<not> st_closed st1 \<Longrightarrow> stream_run dr st evs (stream_drop now st1)"
| cancelled: "stream_run dr st evs st1 \<Longrightarrow> \<not> st_closed st1 \<Longrightarrow> stream_cancel dr now ev n st1 = Inr st2 \<Longrightarrow>
    stream_run dr st (evs @ [ev]) st2"


subsection \<open>One capture per stream\<close>

text \<open>What only finalisation changes.\<close>

definition same_exchange :: "guard \<Rightarrow> guard \<Rightarrow> bool" where
  "same_exchange g g' \<longleftrightarrow> g_capture g' = g_capture g \<and> g_finalized g' = g_finalized g \<and>
     g_sent g' = g_sent g \<and> g_health g' = g_health g \<and> g_health_key g' = g_health_key g"

lemma same_exchange_refl [simp]: "same_exchange g g"
  by (simp add: same_exchange_def)

lemma same_exchange_trans: "same_exchange g g' \<Longrightarrow> same_exchange g' g'' \<Longrightarrow> same_exchange g g''"
  by (simp add: same_exchange_def)

lemma same_exchange_ops [simp]:
  "same_exchange g (append_upstream bytes g') = same_exchange g g'"
  "same_exchange g (append_client bytes g') = same_exchange g g'"
  "same_exchange g (set_reason r g') = same_exchange g g'"
  "same_exchange g (mark_upstream_completed g') = same_exchange g g'"
  "same_exchange g (with_accum f g') = same_exchange g g'"
  "same_exchange g (note_error_part p g') = same_exchange g g'"
proof -
  show "same_exchange g (note_error_part p g') = same_exchange g g'"
    by (cases p) (simp_all add: same_exchange_def with_accum_def)
qed (simp_all add: same_exchange_def append_upstream_def append_client_def set_reason_def
    mark_upstream_completed_def with_accum_def)

lemma note_error_part_fields [simp]:
  "g_last_reason (note_error_part p g) = g_last_reason g"
  "g_upstream_completed (note_error_part p g) = g_upstream_completed g"
  "upstream_terminal (g_accum (note_error_part p g)) = upstream_terminal (g_accum g)"
  by (cases p; simp add: with_accum_def set_upstream_error_def)+

definition open_guard :: "guard \<Rightarrow> guard \<Rightarrow> bool" where
  "open_guard g g' \<longleftrightarrow> same_exchange g g' \<and> g_last_reason g' = g_last_reason g \<and>
     g_upstream_completed g' = g_upstream_completed g"

lemma open_guard_refl [simp]: "open_guard g g"
  by (simp add: open_guard_def)

lemma open_guard_ops [simp]:
  "open_guard g (append_upstream bytes g') = open_guard g g'"
  "open_guard g (append_client bytes g') = open_guard g g'"
  "open_guard g (with_accum f g') = open_guard g g'"
  "open_guard g (note_error_part p g') = open_guard g g'"
  by (simp_all add: open_guard_def) (simp_all add: append_upstream_def append_client_def with_accum_def)

lemma transcode_part_guard:
  "transcode_part ops p (e, g, saw, out) = (e', g', saw', out') \<Longrightarrow> g' = note_error_part p g"
  by (auto simp: transcode_part_def Let_def split: prod.splits sum.splits)

lemma transcode_parts_guard:
  "fold (transcode_part ops) ps (e, g, saw, out) = (e', g', saw', out') \<Longrightarrow> g' = fold note_error_part ps g"
proof (induction ps arbitrary: e g saw out)
  case (Cons p ps)
  obtain e1 g1 s1 o1 where p: "transcode_part ops p (e, g, saw, out) = (e1, g1, s1, o1)"
    by (metis prod_cases4)
  with Cons transcode_part_guard [OF p] show ?case by simp
qed simp

lemma fold_note_open: "open_guard g (fold note_error_part ps g') = open_guard g g'"
  by (induction ps arbitrary: g') simp_all

lemma fold_note_terminal:
  "upstream_terminal (g_accum (fold note_error_part ps g)) = upstream_terminal (g_accum g)"
  by (induction ps arbitrary: g) simp_all

lemma transcode_line_guard:
  assumes "transcode_line ops l (d, e, g, saw, out) = Inr (d', e', g', saw', out')"
  shows "\<exists>ps. g' = fold note_error_part ps g"
proof -
  obtain r d1 where f: "tx_feed ops d l = Inr (r, d1)"
    using assms by (auto simp: transcode_line_def)
  show ?thesis
  proof (cases r)
    case (Inl err)
    with assms f have "g' = fold note_error_part [] g"
      by (auto simp: transcode_line_def Let_def split: prod.splits)
    then show ?thesis by blast
  next
    case (Inr ps)
    with assms f have "fold (transcode_part ops) ps (e, g, saw, out) = (e', g', saw', out')"
      by (auto simp: transcode_line_def)
    from transcode_parts_guard [OF this] show ?thesis by (rule exI)
  qed
qed

lemma transcode_lines_guard:
  "transcode_lines ops ls (d, e, g, saw, out) = Inr (d', e', g', saw', out') \<Longrightarrow>
     \<exists>ps. g' = fold note_error_part ps g"
proof (induction ls arbitrary: d e g saw out)
  case Nil
  then have "g' = fold note_error_part [] g" by simp
  then show ?case by blast
next
  case (Cons l ls)
  then obtain x where l: "transcode_line ops l (d, e, g, saw, out) = Inr x"
    and rest: "transcode_lines ops ls x = Inr (d', e', g', saw', out')" by auto
  obtain d1 e1 g1 s1 o1 where x: "x = (d1, e1, g1, s1, o1)" by (metis prod_cases5)
  from transcode_line_guard [OF l [unfolded x]] Cons.IH [OF rest [unfolded x]]
  obtain ps qs where "g1 = fold note_error_part ps g" "g' = fold note_error_part qs g1" by blast
  then have "g' = fold note_error_part (ps @ qs) g" by simp
  then show ?case by blast
qed

lemma on_chunk_open:
  assumes "on_chunk dr bytes st = Inr (st', ys)"
  shows "open_guard (st_guard st) (st_guard st')" and "st_closed st' = st_closed st"
proof -
  show "open_guard (st_guard st) (st_guard st')"
  proof (cases "st_codec st")
    case None
    with assms show ?thesis by (auto simp: on_chunk_def Let_def split: prod.splits)
  next
    case (Some de)
    obtain d e where de: "de = (d, e)" by (cases de)
    let ?g = "append_upstream bytes (with_accum (\<lambda>a. record_chunk a (from_utf8_lossy bytes)) (st_guard st))"
    let ?ls = "split_sse_lines (st_frame_buf st @ from_utf8_lossy bytes)"
    obtain d' e' g' saw out
      where t: "transcode_lines (dr_ops dr) (fst ?ls) (d, e, ?g, st_saw_terminal st, []) = Inr (d', e', g', saw, out)"
        and g: "st_guard st' = g'"
      using assms Some de
      by (auto simp: on_chunk_def Let_def split_beta split: if_splits)
    from transcode_lines_guard [OF t] obtain ps where "g' = fold note_error_part ps ?g" by blast
    then show ?thesis by (simp add: g fold_note_open)
  qed
  show "st_closed st' = st_closed st" using assms
    by (auto simp: on_chunk_def Let_def split_beta split: if_splits option.splits)
qed

lemma on_truncation_guard:
  assumes "on_truncation dr reason m c st = (st', ys)"
  shows "st_guard st' = with_accum (\<lambda>a. mark_truncated a reason) (set_reason (Some reason) (st_guard st)) \<and>
    st_closed st' = st_closed st"
  using assms by (auto simp: on_truncation_def Let_def split_beta split: option.splits)

lemma on_eof_guard:
  assumes "on_eof dr st = Inr (st', ys)"
  shows "st_guard st' = with_accum mark_completed (mark_upstream_completed (set_reason None (st_guard st)))"
    and "st_closed st' = st_closed st"
  using assms by (auto simp: on_eof_def Let_def split_beta split: option.splits if_splits)


definition end_reason :: "stream_event list \<Rightarrow> UsageAccumulator \<Rightarrow> TruncationReason option" where
  "end_reason evs a =
     (if Eof \<in> set evs then None
      else if Upstream_Error \<in> set evs then Some UpstreamError
      else if Idle_Timer \<in> set evs then Some Idle
      else if Total_Timer \<in> set evs then Some Total
      else if upstream_terminal a \<or> upstream_error a \<noteq> None then None
      else Some ClientDisconnected)"

definition capture_of :: "StreamCapture \<Rightarrow> TruncationReason option \<Rightarrow> guard \<Rightarrow> ExchangeCapture \<Rightarrow> bool" where
  "capture_of cap reason g x \<longleftrightarrow> xc_request_id x = sc_cap_request_id cap \<and>
     xc_truncation_reason x = map_option truncation_as_str reason \<and>
     xc_upstream_resp_body x = nonempty_text (g_upstream_body g) \<and>
     xc_client_resp_body x = nonempty_text (g_client_body g)"

lemma health_failure_fields [simp]:
  "g_capture (record_health_failure_if_needed now g) = g_capture g"
  "g_finalized (record_health_failure_if_needed now g) = g_finalized g"
  "g_sent (record_health_failure_if_needed now g) = g_sent g"
  "g_last_reason (record_health_failure_if_needed now g) = g_last_reason g"
  "g_accum (record_health_failure_if_needed now g) = g_accum g"
  "g_upstream_body (record_health_failure_if_needed now g) = g_upstream_body g"
  "g_client_body (record_health_failure_if_needed now g) = g_client_body g"
  "g_health_key (record_health_failure_if_needed now g) = g_health_key g"
  by (simp_all add: record_health_failure_if_needed_def split: option.split)

definition unsent :: "StreamCapture \<Rightarrow> guard \<Rightarrow> bool" where
  "unsent cap g \<longleftrightarrow> g_capture g = Some cap \<and> \<not> g_finalized g \<and> g_sent g = []"

definition sent_once :: "StreamCapture \<Rightarrow> TruncationReason option \<Rightarrow> guard \<Rightarrow> bool" where
  "sent_once cap reason g \<longleftrightarrow> g_finalized g \<and> (\<exists>x. g_sent g = [x] \<and> capture_of cap reason g x)"

lemma finalize_unsent:
  "unsent cap g \<Longrightarrow> sent_once cap (g_last_reason g) (finalize_spawn now g) \<and> g_accum (finalize_spawn now g) = g_accum g"
  by (simp add: unsent_def sent_once_def finalize_spawn_def take_capture_def send_capture_def Let_def
      capture_of_def)

lemma finalize_sent:
  "sent_once cap reason g \<Longrightarrow> sent_once cap reason (finalize_spawn now g) \<and> g_accum (finalize_spawn now g) = g_accum g"
  by (simp add: sent_once_def finalize_spawn_def take_capture_def send_capture_def capture_of_def)

lemma drop_unsent:
  assumes "unsent cap g"
  shows "sent_once cap (if g_last_reason g = None then drop_fallback_reason g else g_last_reason g) (guard_drop now g)"
    and "upstream_terminal (g_accum (guard_drop now g)) = upstream_terminal (g_accum g)"
    and "upstream_error (g_accum (guard_drop now g)) = upstream_error (g_accum g)"
  using assms
  by (simp_all add: unsent_def sent_once_def guard_drop_def take_capture_def send_capture_def Let_def
      capture_of_def with_accum_def mark_truncated_def split: option.split)

lemma close_unsent:
  assumes "unsent cap (st_guard st)"
  shows "sent_once cap (g_last_reason (st_guard st)) (st_guard (close_stream now now' st))"
    and "g_accum (st_guard (close_stream now now' st)) = g_accum (st_guard st)"
  using finalize_sent [OF finalize_unsent [OF assms, THEN conjunct1]] finalize_unsent [OF assms]
  by (simp_all add: close_stream_def)

lemma unsent_same: "same_exchange g g' \<Longrightarrow> unsent cap g' = unsent cap g"
  by (simp add: same_exchange_def unsent_def)

lemma open_guard_unsent: "open_guard g g' \<Longrightarrow> unsent cap g' = unsent cap g"
  by (simp add: open_guard_def unsent_same)

lemma deliver_guard [simp]:
  "open_guard g (st_guard (deliver ys st)) = open_guard g (st_guard st)"
  "g_accum (st_guard (deliver ys st)) = g_accum (st_guard st)"
  "st_closed (deliver ys st) = st_closed st" "st_codec (deliver ys st) = st_codec st"
proof (induction ys st rule: deliver.induct)
  case (2 captured bytes ys st)
  { case 1 then show ?case by (simp add: "2.IH") next
    case 2 then show ?case by (simp add: "2.IH" append_client_def) next
    case 3 then show ?case by (simp add: "2.IH") next
    case 4 then show ?case by (simp add: "2.IH") }
qed simp_all

lemma deliver_open: "open_guard (st_guard st) (st_guard (deliver ys st))"
  by simp

lemma deliver_reason [simp]:
  "unsent cap (st_guard (deliver ys st)) = unsent cap (st_guard st)"
  "g_last_reason (st_guard (deliver ys st)) = g_last_reason (st_guard st)"
  "g_upstream_completed (st_guard (deliver ys st)) = g_upstream_completed (st_guard st)"
  using deliver_open [of st ys] open_guard_unsent [OF deliver_open [of st ys]] by (simp_all add: open_guard_def)

text \<open>What an event leaves: the guard is still unsent, and its reason is that of the event.\<close>

fun event_reason :: "stream_event \<Rightarrow> TruncationReason option" where
  "event_reason Upstream_Error = Some UpstreamError"
| "event_reason Idle_Timer = Some Idle"
| "event_reason Total_Timer = Some Total"
| "event_reason _ = None"

lemma react_unsent:
  assumes "react dr ev st = Inr (st', ys)" and "unsent cap (st_guard st)"
    and "g_last_reason (st_guard st) = None" and "\<not> g_upstream_completed (st_guard st)"
  shows "unsent cap (st_guard st')" and "g_last_reason (st_guard st') = event_reason ev"
    and "g_upstream_completed (st_guard st') = (ev = Eof)" and "st_closed st' = st_closed st"
proof -
  have trunc: "unsent cap (with_accum f (set_reason r (st_guard st)))"
    "g_last_reason (with_accum f (set_reason r (st_guard st))) = r"
    "\<not> g_upstream_completed (with_accum f (set_reason r (st_guard st)))" for f r
    using assms(2,4) by (simp_all add: unsent_def with_accum_def set_reason_def)
  have "unsent cap (st_guard st') \<and> g_last_reason (st_guard st') = event_reason ev \<and>
    (g_upstream_completed (st_guard st') = (ev = Eof)) \<and> st_closed st' = st_closed st"
  proof (cases ev)
    case (Chunk b)
    with assms(1) have c: "on_chunk dr b st = Inr (st', ys)" by simp
    show ?thesis using on_chunk_open [OF c] open_guard_unsent [OF on_chunk_open(1) [OF c]] assms(2-4) Chunk
      by (simp add: open_guard_def)
  next
    case Eof
    with assms(1) have c: "on_eof dr st = Inr (st', ys)" by simp
    show ?thesis using on_eof_guard [OF c] assms(2) Eof
      by (simp add: unsent_def with_accum_def set_reason_def mark_upstream_completed_def)
  qed (use assms(1) trunc in \<open>auto dest!: on_truncation_guard\<close>)
  then show "unsent cap (st_guard st')" and "g_last_reason (st_guard st') = event_reason ev"
    and "g_upstream_completed (st_guard st') = (ev = Eof)" and "st_closed st' = st_closed st" by auto
qed


definition run_inv :: "StreamCapture \<Rightarrow> stream_event list \<Rightarrow> ('d, 'e) stream_state \<Rightarrow> bool" where
  "run_inv cap evs st \<longleftrightarrow>
     (if st_closed st then sent_once cap (end_reason evs (g_accum (st_guard st))) (st_guard st)
      else unsent cap (st_guard st) \<and> g_last_reason (st_guard st) = None \<and>
        \<not> g_upstream_completed (st_guard st) \<and> (\<forall>ev\<in>set evs. \<not> ends_stream ev))"

lemma end_reason_Nil:
  "end_reason [] a = (if upstream_terminal a \<or> upstream_error a \<noteq> None then None else Some ClientDisconnected)"
  by (simp add: end_reason_def)

lemma end_reason_chunks:
  assumes "\<forall>ev\<in>set evs. \<not> ends_stream ev"
  shows "end_reason (evs @ [ev]) a = (if ends_stream ev then event_reason ev else end_reason [] a)"
    and "end_reason evs a = end_reason [] a"
proof -
  from assms have "Eof \<notin> set evs" "Upstream_Error \<notin> set evs" "Idle_Timer \<notin> set evs" "Total_Timer \<notin> set evs"
    by auto
  then show "end_reason (evs @ [ev]) a = (if ends_stream ev then event_reason ev else end_reason [] a)"
    and "end_reason evs a = end_reason [] a"
    by (cases ev; simp add: end_reason_def)+
qed

lemma stream_drop_inv:
  assumes "unsent cap (st_guard st)" and "g_last_reason (st_guard st) = event_reason ev"
    and "g_upstream_completed (st_guard st) = (ev = Eof)" and "\<forall>ev\<in>set evs. \<not> ends_stream ev"
  shows "run_inv cap (evs @ [ev]) (stream_drop now st)"
proof -
  let ?g = "guard_drop now (st_guard st)"
  have "end_reason (evs @ [ev]) (g_accum ?g) =
      (if g_last_reason (st_guard st) = None then drop_fallback_reason (st_guard st) else g_last_reason (st_guard st))"
    using drop_unsent(2,3) [OF assms(1), of now] assms(2,3)
    by (cases ev) (simp_all add: end_reason_chunks(1) [OF assms(4)] drop_fallback_reason_def end_reason_Nil)
  with drop_unsent(1) [OF assms(1), of now] show ?thesis by (simp add: run_inv_def stream_drop_def)
qed

lemma stream_run_inv:
  assumes "stream_run dr st0 evs st" and "run_inv cap [] st0"
  shows "run_inv cap evs st"
  using assms
proof (induction rule: stream_run.induct)
  case (event st0 evs st1 now now' ev st2)
  then have inv: "unsent cap (st_guard st1)" "g_last_reason (st_guard st1) = None"
    "\<not> g_upstream_completed (st_guard st1)" "\<forall>ev\<in>set evs. \<not> ends_stream ev"
    by (simp_all add: run_inv_def)
  from event obtain st' ys where r: "react dr ev st1 = Inr (st', ys)"
    and st2: "st2 = (if ends_stream ev then close_stream now now' (deliver ys st') else deliver ys st')"
    by (auto simp: stream_step_def Let_def)
  note ru = react_unsent [OF r inv(1-3)]
  show ?case
  proof (cases "ends_stream ev")
    case True
    have "unsent cap (st_guard (deliver ys st'))" using ru(1) by simp
    note cl = close_unsent [OF this, of now now']
    have "end_reason (evs @ [ev]) a = g_last_reason (st_guard (deliver ys st'))" for a
      using True ru(2) by (simp add: end_reason_chunks [OF inv(4)])
    with True cl show ?thesis by (simp add: st2 run_inv_def close_stream_def)
  next
    case False
    then have "event_reason ev = None" "ev \<noteq> Eof" by (cases ev; simp)+
    then show ?thesis using False ru inv(4) event.hyps(2) by (auto simp: st2 run_inv_def)
  qed
next
  case (dropped st0 evs st1 now)
  then have inv: "unsent cap (st_guard st1)" "g_last_reason (st_guard st1) = None"
    "\<not> g_upstream_completed (st_guard st1)" "\<forall>ev\<in>set evs. \<not> ends_stream ev"
    by (simp_all add: run_inv_def)
  have "run_inv cap (evs @ [Chunk []]) (stream_drop now st1)"
    by (rule stream_drop_inv) (use inv in simp_all)
  then show ?case
    using end_reason_chunks(2) [OF inv(4)] end_reason_chunks(1) [OF inv(4), of "Chunk []"]
    by (simp add: run_inv_def stream_drop_def)
next
  case (cancelled st0 evs st1 now ev n st2)
  then have inv: "unsent cap (st_guard st1)" "g_last_reason (st_guard st1) = None"
    "\<not> g_upstream_completed (st_guard st1)" "\<forall>ev\<in>set evs. \<not> ends_stream ev"
    by (simp_all add: run_inv_def)
  from cancelled obtain st' ys where r: "react dr ev st1 = Inr (st', ys)"
    and st2: "st2 = stream_drop now (deliver (take n ys) st')"
    by (auto simp: stream_cancel_def)
  note ru = react_unsent [OF r inv(1-3)]
  show ?case unfolding st2 by (rule stream_drop_inv) (use ru inv in simp_all)
qed simp



subsection \<open>What the client receives\<close>

text \<open>A whole stream: events in order, each taking the same time.\<close>

fun stream_steps :: "('d, 'e) driver \<Rightarrow> instant \<Rightarrow> stream_event list \<Rightarrow> ('d, 'e) stream_state \<Rightarrow>
    ('d, 'e) stream_state rust" where
  "stream_steps dr now [] st = Inr st"
| "stream_steps dr now (ev # evs) st = bind_rust (stream_step dr now now ev st) (stream_steps dr now evs)"

lemma stream_steps_append:
  "stream_steps dr now (evs @ evs') st = bind_rust (stream_steps dr now evs st) (stream_steps dr now evs')"
proof (induction evs arbitrary: st)
  case (Cons ev evs)
  then show ?case by (cases "stream_step dr now now ev st") simp_all
qed simp

lemma stream_steps_last [simp]: "bind_rust m (stream_steps dr now []) = m"
  by (cases m) simp_all

lemma concat_deliver [simp]: "concat (st_yielded (deliver ys st)) = concat (st_yielded st) @ concat (map snd ys)"
  by (induction ys st rule: deliver.induct) simp_all

lemma deliver_fields [simp]:
  "st_rewriter (deliver ys st) = st_rewriter st" "st_frame_buf (deliver ys st) = st_frame_buf st"
  "st_saw_terminal (deliver ys st) = st_saw_terminal st" "st_tail_buf (deliver ys st) = st_tail_buf st"
  by (induction ys st rule: deliver.induct) simp_all

lemma concat_yield_captured [simp]: "concat (map snd (yield_captured out)) = out"
  by (simp add: yield_captured_def)

text \<open>The rewriter is fed piece by piece; an empty piece changes nothing.\<close>

lemma drain_append:
  "drain_lines f p = (out, p') \<Longrightarrow>
     drain_lines f (p @ s) = (out @ fst (drain_lines f (p' @ s)), snd (drain_lines f (p' @ s)))"
proof (induction f p arbitrary: out p' rule: drain_lines.induct)
  case (1 f p)
  show ?case
  proof (cases "split_once LF p")
    case None
    with "1.prems" have "out = []" "p' = p"
      by (simp_all add: drain_lines.simps [of f p] del: split_once_None)
    then show ?thesis by simp
  next
    case (Some lr)
    obtain l r where lr: "lr = (l, r)" by (cases lr)
    obtain o1 p1 where rec: "drain_lines f r = (o1, p1)" by fastforce
    have p: "p = l @ LF # r" "LF \<notin> set l" using split_once_Some [of LF p l r] Some lr by auto
    have out: "out = f (l @ [LF]) @ o1" "p' = p1"
      using "1.prems" Some lr rec by (simp_all add: drain_lines.simps [of f p])
    have "split_once LF (p @ s) = Some (l, r @ s)" using p by simp
    then show ?thesis using "1.IH" [OF Some lr [symmetric] rec]
      by (simp add: drain_lines.simps [of f "p @ s"] out)
  qed
qed

lemma drain_rest: "LF \<notin> set p \<Longrightarrow> drain_lines f p = ([], p)"
  by (simp add: drain_lines.simps [of f p] split_once_None [THEN iffD2])

lemma drain_suffix: "drain_lines f s = (out, q) \<Longrightarrow> \<exists>a. s = a @ q"
proof (induction f s arbitrary: out q rule: drain_lines.induct)
  case (1 f s)
  show ?case
  proof (cases "split_once LF s")
    case None
    with "1.prems" have "s = [] @ q" by (simp add: drain_lines.simps [of f s] del: split_once_None)
    then show ?thesis by (rule exI)
  next
    case (Some lr)
    obtain l r where lr: "lr = (l, r)" by (cases lr)
    obtain out' q' where rec: "drain_lines f r = (out', q')" by fastforce
    with "1.prems" Some lr have "q = q'" by (simp add: drain_lines.simps [of f s])
    moreover from "1.IH" [OF Some lr [symmetric] rec] obtain a where "r = a @ q'" by blast
    moreover have "s = l @ LF # r" using split_once_Some [of LF s l r] Some lr by simp
    ultimately have "s = (l @ LF # a) @ q" by simp
    then show ?thesis by (rule exI)
  qed
qed

lemma drain_exact:
  assumes "pre = [] \<or> last pre = LF" and "LF \<notin> set l"
  shows "drain_lines f (pre @ l) = (concat (map f (sse_lines pre)), l)"
proof -
  obtain out1 p1 where d1: "drain_lines f pre = (out1, p1)" by fastforce
  from drain_suffix [OF d1] obtain o2 where pre: "pre = o2 @ p1" by blast
  have "p1 = []"
  proof (rule ccontr)
    assume "p1 \<noteq> []"
    with pre assms(1) have "last p1 = LF" by auto
    with \<open>p1 \<noteq> []\<close> have "LF \<in> set p1" by (metis last_in_set)
    with drain_lines_spec [OF d1] show False by blast
  qed
  moreover from drain_lines_spec [OF d1] have "concat (map f (sse_lines (pre @ []))) = out1 @ concat (map f (sse_lines (p1 @ [])))"
    by blast
  ultimately have "out1 = concat (map f (sse_lines pre))" by (simp add: sse_lines_rest)
  with drain_append [OF d1, of l] \<open>p1 = []\<close> show ?thesis by (simp add: drain_rest [OF assms(2)])
qed

definition rewriter_ok :: "SseModelRewriter option \<Rightarrow> bool" where
  "rewriter_ok rw \<longleftrightarrow> (case rw of None \<Rightarrow> True | Some r \<Rightarrow> LF \<notin> set (rw_pending r))"

lemma rewrite_out_Nil: "rewriter_ok rw \<Longrightarrow> rewrite_out dr rw [] = ([], rw)"
  by (auto simp: rewriter_ok_def rewrite_out_def rewrite_def drain_rest split: option.splits)

lemma rewrite_out_ok: "rewriter_ok (snd (rewrite_out dr rw out))"
proof (cases rw)
  case (Some r)
  obtain out' p where d: "drain_lines (rewrite_sse_line (dr_from_str dr) (dr_to_vec dr) (rw_override r)) (rw_pending r @ out) = (out', p)"
    by fastforce
  with drain_lines_spec [OF d] Some show ?thesis by (simp add: rewriter_ok_def rewrite_out_def rewrite_def)
qed (simp add: rewriter_ok_def rewrite_out_def)

lemma rewrite_out_append:
  "rewrite_out dr rw (a @ b) =
     (fst (rewrite_out dr rw a) @ fst (rewrite_out dr (snd (rewrite_out dr rw a)) b),
      snd (rewrite_out dr (snd (rewrite_out dr rw a)) b))"
proof (cases rw)
  case (Some r)
  let ?f = "rewrite_sse_line (dr_from_str dr) (dr_to_vec dr) (rw_override r)"
  obtain o1 p1 where d: "drain_lines ?f (rw_pending r @ a) = (o1, p1)" by fastforce
  from drain_append [OF d, of b] d Some show ?thesis
    by (simp add: rewrite_out_def rewrite_def split_beta)
qed (simp add: rewrite_out_def)


text \<open>The accumulator after a forwarded stream: the scan of its chunks, one by one.\<close>

definition signals :: "('d, 'e) driver \<Rightarrow> string list \<Rightarrow> UsageAccumulator \<Rightarrow> UsageAccumulator" where
  "signals dr cs a = fold (\<lambda>b a. detect_verbatim_signals (dr_from_str dr) b (record_chunk a (from_utf8_lossy b))) cs a"

lemma chunk_verbatim:
  assumes "st_codec st = None" and "\<not> st_closed st"
  obtains st' where "stream_step dr now now' (Chunk b) st = Inr st'" "st_codec st' = None" "\<not> st_closed st'"
    "g_accum (st_guard st') = signals dr [b] (g_accum (st_guard st))"
    "st_rewriter st' = snd (rewrite_out dr (st_rewriter st) b)"
    "concat (st_yielded st') = concat (st_yielded st) @ fst (rewrite_out dr (st_rewriter st) b)"
proof -
  let ?g = "append_upstream b (with_accum (\<lambda>a. record_chunk a (from_utf8_lossy b)) (st_guard st))"
  let ?st = "st\<lparr>st_guard := with_accum (detect_verbatim_signals (dr_from_str dr) b) ?g,
    st_tail_buf := keep_tail (st_tail_buf st) b, st_rewriter := snd (rewrite_out dr (st_rewriter st) b)\<rparr>"
  have "stream_step dr now now' (Chunk b) st = Inr (deliver (yield_captured (fst (rewrite_out dr (st_rewriter st) b))) ?st)"
    using assms by (simp add: stream_step_def on_chunk_def Let_def split_beta)
  moreover have "g_accum (with_accum (detect_verbatim_signals (dr_from_str dr) b) ?g) =
      signals dr [b] (g_accum (st_guard st))"
    by (simp add: with_accum_def append_upstream_def signals_def)
  ultimately show ?thesis using that assms by simp
qed

lemma chunks_verbatim:
  assumes "st_codec st = None" and "\<not> st_closed st" and "rewriter_ok (st_rewriter st)"
  shows "\<exists>st'. stream_steps dr now (map Chunk cs) st = Inr st' \<and> st_codec st' = None \<and> \<not> st_closed st' \<and>
    g_accum (st_guard st') = signals dr cs (g_accum (st_guard st)) \<and>
    st_rewriter st' = snd (rewrite_out dr (st_rewriter st) (concat cs)) \<and>
    concat (st_yielded st') = concat (st_yielded st) @ fst (rewrite_out dr (st_rewriter st) (concat cs))"
  using assms
proof (induction cs arbitrary: st)
  case Nil
  then show ?case by (simp add: signals_def rewrite_out_Nil)
next
  case (Cons b cs)
  obtain st1 where st1: "stream_step dr now now (Chunk b) st = Inr st1" "st_codec st1 = None" "\<not> st_closed st1"
    "g_accum (st_guard st1) = signals dr [b] (g_accum (st_guard st))"
    "st_rewriter st1 = snd (rewrite_out dr (st_rewriter st) b)"
    "concat (st_yielded st1) = concat (st_yielded st) @ fst (rewrite_out dr (st_rewriter st) b)"
    by (rule chunk_verbatim [OF Cons.prems(1,2)])
  from Cons.IH [OF st1(2,3)] show ?case
    using st1 rewrite_out_ok [of dr "st_rewriter st" b]
    by (simp add: signals_def rewrite_out_append)
qed

definition client_line :: "('d, 'e) driver \<Rightarrow> ResponseModelOverride option \<Rightarrow> string \<Rightarrow> string" where
  "client_line dr ov line = (case ov of
     None \<Rightarrow> line | Some o' \<Rightarrow> rewrite_sse_line (dr_from_str dr) (dr_to_vec dr) o' line)"

lemma concat_sse_lines: "concat (sse_lines s) = s"
proof (induction s rule: sse_lines.induct)
  case (1 s)
  show ?case
  proof (cases "split_once LF s")
    case None
    then show ?thesis by (simp add: sse_lines.simps [of s] del: split_once_None)
  next
    case (Some lr)
    obtain l r where lr: "lr = (l, r)" by (cases lr)
    with "1.IH" [OF Some] split_once_Some [of LF s l r] Some show ?thesis
      by (simp add: sse_lines_line)
  qed
qed

lemma rewrite_out_exact:
  assumes "pre = [] \<or> last pre = LF" and "LF \<notin> set l"
  shows "fst (rewrite_out dr (map_option sse_rewriter ov) (pre @ l)) @
      concat (map snd (fst (flush_rewriter dr (snd (rewrite_out dr (map_option sse_rewriter ov) (pre @ l)))))) =
    concat (map (client_line dr ov) (sse_lines pre)) @ concat (map (client_line dr ov) (sse_lines l))"
    and "ov \<noteq> None \<Longrightarrow> fst (rewrite_out dr (map_option sse_rewriter ov) (pre @ l)) =
      concat (map (client_line dr ov) (sse_lines pre))"
proof -
  have "fst (rewrite_out dr (map_option sse_rewriter ov) (pre @ l)) @
      concat (map snd (fst (flush_rewriter dr (snd (rewrite_out dr (map_option sse_rewriter ov) (pre @ l)))))) =
    concat (map (client_line dr ov) (sse_lines pre)) @ concat (map (client_line dr ov) (sse_lines l)) \<and>
    (ov \<noteq> None \<longrightarrow> fst (rewrite_out dr (map_option sse_rewriter ov) (pre @ l)) =
      concat (map (client_line dr ov) (sse_lines pre)))"
  proof (cases ov)
    case None
    then have "client_line dr ov = (\<lambda>l. l)" by (simp add: client_line_def fun_eq_iff)
    with None show ?thesis by (simp add: rewrite_out_def flush_rewriter_def concat_sse_lines)
  next
    case (Some o')
    then have "client_line dr ov = rewrite_sse_line (dr_from_str dr) (dr_to_vec dr) o'"
      by (simp add: client_line_def fun_eq_iff)
    with Some show ?thesis
      by (simp add: rewrite_out_def flush_rewriter_def rewrite_def finish_def sse_rewriter_def
          drain_exact [OF assms] sse_lines_rest [OF assms(2)])
  qed
  then show "fst (rewrite_out dr (map_option sse_rewriter ov) (pre @ l)) @
      concat (map snd (fst (flush_rewriter dr (snd (rewrite_out dr (map_option sse_rewriter ov) (pre @ l)))))) =
    concat (map (client_line dr ov) (sse_lines pre)) @ concat (map (client_line dr ov) (sse_lines l))"
    and "ov \<noteq> None \<Longrightarrow> fst (rewrite_out dr (map_option sse_rewriter ov) (pre @ l)) =
      concat (map (client_line dr ov) (sse_lines pre))" by auto
qed

lemma eof_verbatim:
  assumes "st_codec st = None" and "\<not> st_closed st"
  obtains st' where "stream_step dr now now' Eof st = Inr st'"
    "concat (st_yielded st') = concat (st_yielded st) @
      (if upstream_error (g_accum (st_guard st)) \<noteq> None \<and> \<not> upstream_terminal (g_accum (st_guard st))
       then dr_end_marker dr else []) @
      concat (map snd (fst (flush_rewriter dr (st_rewriter st))))"
  using assms that
  by (simp add: stream_step_def on_eof_def Let_def split_beta close_stream_def with_accum_def
      mark_upstream_completed_def set_reason_def mark_completed_def)

text \<open>
  C4.  A stream that is forwarded reaches the client unchanged but for the model name.  Whatever its chunks
  are, the client of a stream that the upstream ends receives its lines in order, each rewritten once, and
  nothing else: no end frame is made up.  The exception is a stream with an error frame and no end frame
  of its own (as the scan of the chunks sees it), which gets the end frame of the protocol; that frame is
  sent before a last line without a line break, if the stream has one and the model name is rewritten.
\<close>

theorem forwarded_stream_exact:
  assumes "concat cs = pre @ l" and "pre = [] \<or> last pre = LF" and "LF \<notin> set l"
  shows "\<exists>st. stream_steps dr now (map Chunk cs @ [Eof]) (stream_start g None ov) = Inr st \<and>
    (let a = signals dr cs (g_accum g);
         marker = (if upstream_error a \<noteq> None \<and> \<not> upstream_terminal a then dr_end_marker dr else []);
         lines = concat (map (client_line dr ov) (sse_lines pre));
         last_line = concat (map (client_line dr ov) (sse_lines l))
     in concat (st_yielded st) = (if ov = None then lines @ last_line @ marker else lines @ marker @ last_line))"
proof -
  let ?st = "stream_start g None ov :: ('a, 'b) stream_state"
  have st: "st_codec ?st = None" "\<not> st_closed ?st" "rewriter_ok (st_rewriter ?st)"
    "g_accum (st_guard ?st) = g_accum g" "st_rewriter ?st = map_option sse_rewriter ov" "st_yielded ?st = []"
    by (simp_all add: stream_start_def rewriter_ok_def sse_rewriter_def split: option.split)
  obtain st1 where st1: "stream_steps dr now (map Chunk cs) ?st = Inr st1" "st_codec st1 = None" "\<not> st_closed st1"
    "g_accum (st_guard st1) = signals dr cs (g_accum g)"
    "st_rewriter st1 = snd (rewrite_out dr (map_option sse_rewriter ov) (pre @ l))"
    "concat (st_yielded st1) = fst (rewrite_out dr (map_option sse_rewriter ov) (pre @ l))"
    using chunks_verbatim [OF st(1-3), of dr now cs] st(4-6) assms(1) by auto
  obtain st2 where st2: "stream_step dr now now Eof st1 = Inr st2"
    "concat (st_yielded st2) = concat (st_yielded st1) @
      (if upstream_error (g_accum (st_guard st1)) \<noteq> None \<and> \<not> upstream_terminal (g_accum (st_guard st1))
       then dr_end_marker dr else []) @
      concat (map snd (fst (flush_rewriter dr (st_rewriter st1))))"
    by (rule eof_verbatim [OF st1(2,3)])
  define tr where "tr = concat (map snd (fst (flush_rewriter dr (st_rewriter st1))))"
  define out where "out = concat (st_yielded st1)"
  have tr_None: "tr = []" if "ov = None"
    using that by (simp add: tr_def st1(5) rewrite_out_def flush_rewriter_def)
  have parts: "out @ tr = concat (map (client_line dr ov) (sse_lines pre)) @ concat (map (client_line dr ov) (sse_lines l))"
    and out_Some: "ov \<noteq> None \<Longrightarrow> out = concat (map (client_line dr ov) (sse_lines pre))"
    using rewrite_out_exact [OF assms(2,3), where dr = dr and ov = ov] by (simp_all add: tr_def out_def st1(5,6))
  have "stream_steps dr now (map Chunk cs @ [Eof]) ?st = Inr st2"
    using st1(1) st2(1) by (simp add: stream_steps_append)
  moreover have "concat (st_yielded st2) = out @
      (if upstream_error (signals dr cs (g_accum g)) \<noteq> None \<and> \<not> upstream_terminal (signals dr cs (g_accum g))
       then dr_end_marker dr else []) @ tr"
    using st2(2) by (simp add: tr_def out_def st1(4))
  ultimately show ?thesis
    using tr_None parts out_Some by (cases "ov = None") (auto simp: Let_def)
qed


subsection \<open>Transcoding and the network\<close>

lemma split_from_cur: "split_from (p @ cur) s =
    (case split_from cur s of ([], r) \<Rightarrow> ([], p @ r) | (l # ls, r) \<Rightarrow> ((p @ l) # ls, r))"
proof (induction s arbitrary: cur)
  case (Cons c s)
  show ?case
  proof (cases "c = LF")
    case False
    with Cons [of "cur @ [c]"] show ?thesis by simp
  qed (simp add: split_beta)
qed simp

lemma split_from_append:
  "split_from cur (a @ b) = (fst (split_from cur a) @ fst (split_from (snd (split_from cur a)) b),
     snd (split_from (snd (split_from cur a)) b))"
  by (induction cur a rule: split_from.induct) (simp_all add: split_beta)

lemma split_from_rest: "LF \<notin> set s \<Longrightarrow> split_from cur s = ([], cur @ s)"
  by (induction s arbitrary: cur) auto

lemma split_sse_lines_append:
  assumes "LF \<notin> set p"
  shows "split_sse_lines (p @ a @ b) =
    (fst (split_sse_lines (p @ a)) @ fst (split_sse_lines (snd (split_sse_lines (p @ a)) @ b)),
     snd (split_sse_lines (snd (split_sse_lines (p @ a)) @ b)))"
    and "LF \<notin> set (snd (split_sse_lines (p @ a)))"
proof -
  have rest: "LF \<notin> set (snd (split_from cur s))" if "LF \<notin> set cur" for cur s
    using that by (induction cur s rule: split_from.induct) (auto simp: split_beta)
  from rest [of "[]" "p @ a"] show free: "LF \<notin> set (snd (split_sse_lines (p @ a)))"
    by (simp add: split_sse_lines_def)
  have "split_from cur b = split_sse_lines (cur @ b)" if "LF \<notin> set cur" for cur
    using split_from_append [of "[]" cur b] split_from_rest [OF that, of "[]"] by (simp add: split_sse_lines_def)
  from this [OF free] split_from_append [of "[]" "p @ a" b]
  show "split_sse_lines (p @ a @ b) =
    (fst (split_sse_lines (p @ a)) @ fst (split_sse_lines (snd (split_sse_lines (p @ a)) @ b)),
     snd (split_sse_lines (snd (split_sse_lines (p @ a)) @ b)))"
    by (simp add: split_sse_lines_def)
qed

lemma transcode_lines_append:
  "transcode_lines ops (ls @ ls') acc = bind_rust (transcode_lines ops ls acc) (transcode_lines ops ls')"
proof (induction ls arbitrary: acc)
  case (Cons l ls)
  then show ?case by (cases "transcode_line ops l acc") simp_all
qed simp

text \<open>Two guards with the same upstream error, and two outputs, do not change what is transcoded.\<close>

definition same_encoding :: "string \<Rightarrow> string \<Rightarrow> 'e encoding \<Rightarrow> 'e encoding \<Rightarrow> bool" where
  "same_encoding o1 o2 = (\<lambda>(e, g, saw, out) (e', g', saw', out'). e' = e \<and> saw' = saw \<and>
     upstream_error (g_accum g') = upstream_error (g_accum g) \<and> (\<exists>x. out = o1 @ x \<and> out' = o2 @ x))"

lemma note_error_same:
  "upstream_error (g_accum g') = upstream_error (g_accum g) \<Longrightarrow>
     upstream_error (g_accum (note_error_part p g')) = upstream_error (g_accum (note_error_part p g))"
  by (cases p) (simp_all add: with_accum_def set_upstream_error_def)

lemma transcode_part_same:
  "same_encoding o1 o2 x y \<Longrightarrow> same_encoding o1 o2 (transcode_part ops p x) (transcode_part ops p y)"
  by (cases x; cases y) (auto simp: same_encoding_def transcode_part_def Let_def note_error_same
      split: prod.splits sum.splits)

lemma transcode_parts_same:
  "same_encoding o1 o2 x y \<Longrightarrow> same_encoding o1 o2 (fold (transcode_part ops) ps x) (fold (transcode_part ops) ps y)"
  by (induction ps arbitrary: x y) (simp_all add: transcode_part_same)

definition same_decoding :: "string \<Rightarrow> string \<Rightarrow> ('d \<times> 'e encoding) rust \<Rightarrow> ('d \<times> 'e encoding) rust \<Rightarrow> bool" where
  "same_decoding o1 o2 = rel_sum (=) (\<lambda>(d, x) (d', y). d' = d \<and> same_encoding o1 o2 x y)"

lemma transcode_line_same:
  "same_encoding o1 o2 x y \<Longrightarrow> same_decoding o1 o2 (transcode_line ops l (d, x)) (transcode_line ops l (d, y))"
proof -
  assume s: "same_encoding o1 o2 x y"
  obtain e g saw out g' out' where xy: "x = (e, g, saw, out)" "y = (e, g', saw, out')"
    using s by (cases x; cases y) (auto simp: same_encoding_def)
  show ?thesis
  proof (cases "tx_feed ops d l")
    case (Inl p)
    then show ?thesis by (simp add: same_decoding_def transcode_line_def xy)
  next
    case (Inr rd)
    obtain r d' where rd: "rd = (r, d')" by (cases rd)
    show ?thesis
    proof (cases r)
      case (Inl err)
      with Inr rd s show ?thesis
        by (auto simp: same_decoding_def transcode_line_def xy same_encoding_def Let_def split: prod.splits)
    next
      case (Inr ps)
      with \<open>tx_feed ops d l = Inr rd\<close> rd transcode_parts_same [OF s, of ops ps] show ?thesis
        by (simp add: same_decoding_def transcode_line_def xy)
    qed
  qed
qed

lemma transcode_lines_same:
  "same_encoding o1 o2 x y \<Longrightarrow> same_decoding o1 o2 (transcode_lines ops ls (d, x)) (transcode_lines ops ls (d, y))"
proof (induction ls arbitrary: d x y)
  case (Cons l ls)
  from transcode_line_same [OF Cons.prems, of ops l d] Cons.IH show ?case
    by (cases "transcode_line ops l (d, x)"; cases "transcode_line ops l (d, y)")
      (auto simp: same_decoding_def split: prod.splits)
qed (simp add: same_decoding_def)


text \<open>What the rest of a stream depends on.\<close>

definition stream_view :: "('d, 'e) stream_state \<Rightarrow>
    ('d \<times> 'e) option \<times> bool \<times> string \<times> SseModelRewriter option \<times> string \<times> UpstreamStreamError option \<times> bool" where
  "stream_view st = (st_codec st, st_saw_terminal st, st_frame_buf st, st_rewriter st, concat (st_yielded st),
     upstream_error (g_accum (st_guard st)), st_closed st)"

definition transcoded :: "('d, 'e) driver \<Rightarrow> ('d, 'e) stream_state \<Rightarrow> string \<Rightarrow> 'd \<times> 'e encoding \<Rightarrow>
    ('d \<times> 'e) option \<times> bool \<times> string \<times> SseModelRewriter option \<times> string \<times> UpstreamStreamError option \<times> bool" where
  "transcoded dr st rest = (\<lambda>(d, e, g, saw, out).
     (Some (d, e), saw, rest, snd (rewrite_out dr (st_rewriter st) out),
      concat (st_yielded st) @ fst (rewrite_out dr (st_rewriter st) out), upstream_error (g_accum g), False))"

definition transcoding :: "('d, 'e) stream_state \<Rightarrow> bool" where
  "transcoding st \<longleftrightarrow> \<not> st_closed st \<and> LF \<notin> set (st_frame_buf st) \<and> rewriter_ok (st_rewriter st)"

lemma chunk_transcode:
  assumes "st_codec st = Some (d, e)" and "transcoding st" and "from_utf8_lossy b = b"
  defines "ls \<equiv> split_sse_lines (st_frame_buf st @ b)"
  shows "rel_sum (=) (\<lambda>st1 y. stream_view st1 = transcoded dr st (snd ls) y \<and> transcoding st1)
    (stream_step dr now now' (Chunk b) st)
    (transcode_lines (dr_ops dr) (fst ls) (d, e, st_guard st, st_saw_terminal st, []))"
proof -
  let ?g = "append_upstream b (with_accum (\<lambda>a. record_chunk a b) (st_guard st))"
  have free: "LF \<notin> set (snd ls)"
    using assms(2) split_sse_lines_append(2) by (simp add: transcoding_def ls_def)
  have "same_encoding [] [] (e, st_guard st, st_saw_terminal st, []) (e, ?g, st_saw_terminal st, [])"
    by (simp add: same_encoding_def append_upstream_def with_accum_def record_chunk_def)
  from transcode_lines_same [OF this, of "dr_ops dr" "fst ls" d]
  have same: "same_decoding [] [] (transcode_lines (dr_ops dr) (fst ls) (d, e, st_guard st, st_saw_terminal st, []))
    (transcode_lines (dr_ops dr) (fst ls) (d, e, ?g, st_saw_terminal st, []))" .
  show ?thesis
  proof (cases "transcode_lines (dr_ops dr) (fst ls) (d, e, ?g, st_saw_terminal st, [])")
    case (Inl p)
    with same have "transcode_lines (dr_ops dr) (fst ls) (d, e, st_guard st, st_saw_terminal st, []) = Inl p"
      by (cases "transcode_lines (dr_ops dr) (fst ls) (d, e, st_guard st, st_saw_terminal st, [])")
        (simp_all add: same_decoding_def)
    moreover have "stream_step dr now now' (Chunk b) st = Inl p"
      using assms(1-3) Inl by (simp add: stream_step_def on_chunk_def Let_def split_beta ls_def transcoding_def)
    ultimately show ?thesis by simp
  next
    case (Inr y)
    obtain d' e' g' saw out where y: "y = (d', e', g', saw, out)" by (metis prod_cases5)
    with Inr same obtain g'' where orig:
      "transcode_lines (dr_ops dr) (fst ls) (d, e, st_guard st, st_saw_terminal st, []) = Inr (d', e', g'', saw, out)"
      "upstream_error (g_accum g'') = upstream_error (g_accum g')"
      by (cases "transcode_lines (dr_ops dr) (fst ls) (d, e, st_guard st, st_saw_terminal st, [])")
        (auto simp: same_decoding_def same_encoding_def)
    let ?st = "st\<lparr>st_guard := g', st_codec := Some (d', e'), st_frame_buf := snd ls, st_saw_terminal := saw,
      st_rewriter := snd (rewrite_out dr (st_rewriter st) out)\<rparr>"
    have "stream_step dr now now' (Chunk b) st =
        Inr (deliver (yield_captured (fst (rewrite_out dr (st_rewriter st) out))) ?st)"
      using assms(1-3) Inr y
      by (auto simp: stream_step_def on_chunk_def Let_def split_beta ls_def transcoding_def rewrite_out_Nil
          yield_captured_def)
    then show ?thesis using orig assms(2) free rewrite_out_ok
      by (simp add: stream_view_def transcoded_def transcoding_def)
  qed
qed


lemma chunks_transcode:
  assumes "st_codec st = Some (d, e)" and "transcoding st" and "\<forall>b\<in>set cs. from_utf8_lossy b = b"
  shows "rel_sum (=) (\<lambda>st1 y. stream_view st1 =
      transcoded dr st (snd (split_sse_lines (st_frame_buf st @ concat cs))) y \<and> transcoding st1)
    (stream_steps dr now (map Chunk cs) st)
    (transcode_lines (dr_ops dr) (fst (split_sse_lines (st_frame_buf st @ concat cs)))
      (d, e, st_guard st, st_saw_terminal st, []))"
  using assms
proof (induction cs arbitrary: st d e)
  case Nil
  from Nil.prems(2) have "split_sse_lines (st_frame_buf st) = ([], st_frame_buf st)"
    using split_from_rest [of "st_frame_buf st" "[]"] by (simp add: transcoding_def split_sse_lines_def)
  with Nil show ?case
    by (simp add: stream_view_def transcoded_def transcoding_def rewrite_out_Nil)
next
  case (Cons b cs)
  let ?p = "st_frame_buf st" and ?ops = "dr_ops dr"
  let ?ls = "split_sse_lines (?p @ b)"
  let ?acc = "(d, e, st_guard st, st_saw_terminal st, [])"
  have p: "LF \<notin> set ?p" using Cons.prems(2) by (simp add: transcoding_def)
  note split = split_sse_lines_append(1) [OF p, of b "concat cs"]
  have step: "rel_sum (=) (\<lambda>st1 y. stream_view st1 = transcoded dr st (snd ?ls) y \<and> transcoding st1)
      (stream_step dr now now (Chunk b) st) (transcode_lines ?ops (fst ?ls) ?acc)"
    using chunk_transcode [OF Cons.prems(1,2)] Cons.prems(3) by simp
  show ?case
  proof (cases "transcode_lines ?ops (fst ?ls) ?acc")
    case (Inl x)
    with step have "stream_step dr now now (Chunk b) st = Inl x" by (auto elim: rel_sum.cases)
    with Inl show ?thesis by (simp add: split transcode_lines_append)
  next
    case (Inr y)
    obtain d1 e1 g1 saw1 out1 where y: "y = (d1, e1, g1, saw1, out1)" by (metis prod_cases5)
    from step Inr obtain st1 where st1: "stream_step dr now now (Chunk b) st = Inr st1"
      and v: "stream_view st1 = transcoded dr st (snd ?ls) y" and t: "transcoding st1"
      by (auto elim: rel_sum.cases)
    from v have f: "st_codec st1 = Some (d1, e1)" "st_saw_terminal st1 = saw1" "st_frame_buf st1 = snd ?ls"
      "st_rewriter st1 = snd (rewrite_out dr (st_rewriter st) out1)"
      "concat (st_yielded st1) = concat (st_yielded st) @ fst (rewrite_out dr (st_rewriter st) out1)"
      "upstream_error (g_accum (st_guard st1)) = upstream_error (g_accum g1)"
      by (simp_all add: stream_view_def transcoded_def y)
    let ?rest = "fst (split_sse_lines (snd ?ls @ concat cs))"
    have "same_encoding [] out1 (e1, st_guard st1, saw1, []) (e1, g1, saw1, out1)"
      using f(6) by (simp add: same_encoding_def)
    from transcode_lines_same [OF this, of ?ops ?rest d1]
    have same: "same_decoding [] out1 (transcode_lines ?ops ?rest (d1, e1, st_guard st1, saw1, []))
      (transcode_lines ?ops ?rest (d1, e1, g1, saw1, out1))" .
    have "rel_sum (=) (\<lambda>st2 y. stream_view st2 =
        transcoded dr st1 (snd (split_sse_lines (snd ?ls @ concat cs))) y \<and> transcoding st2)
      (stream_steps dr now (map Chunk cs) st1) (transcode_lines ?ops ?rest (d1, e1, st_guard st1, saw1, []))"
      using Cons.IH [OF f(1) t] Cons.prems(3) f(2,3) by simp
    moreover have "stream_steps dr now (map Chunk (b # cs)) st = stream_steps dr now (map Chunk cs) st1"
      by (simp add: st1)
    moreover have "transcode_lines ?ops (fst (split_sse_lines (?p @ concat (b # cs)))) ?acc =
        transcode_lines ?ops ?rest (d1, e1, g1, saw1, out1)"
      by (simp add: split transcode_lines_append Inr y)
    moreover have "snd (split_sse_lines (?p @ concat (b # cs))) = snd (split_sse_lines (snd ?ls @ concat cs))"
      by (simp add: split)
    ultimately show ?thesis using same
      by (cases "stream_steps dr now (map Chunk cs) st1";
          cases "transcode_lines ?ops ?rest (d1, e1, st_guard st1, saw1, [])";
          cases "transcode_lines ?ops ?rest (d1, e1, g1, saw1, out1)")
        (auto simp: same_decoding_def same_encoding_def transcoded_def f rewrite_out_append)
  qed
qed

text \<open>The end of the upstream depends on the view only.\<close>

lemma flush_codec_cong:
  assumes "st_frame_buf st = st_frame_buf st'" and "st_saw_terminal st = st_saw_terminal st'"
    and "upstream_error (g_accum (st_guard st)) = upstream_error (g_accum (st_guard st'))"
  shows "flush_codec dr st d e = flush_codec dr st' d e"
  unfolding flush_codec_def assms ..

definition client_view :: "('d, 'e) stream_state \<Rightarrow> string \<times> ('d \<times> 'e) option \<times> bool" where
  "client_view st = (concat (st_yielded st), st_codec st, st_saw_terminal st)"

lemma eof_view:
  assumes "stream_view st = stream_view st'" and "st_codec st = Some (d, e)"
  shows "map_sum id client_view (stream_step dr now now' Eof st) =
    map_sum id client_view (stream_step dr now now' Eof st')"
proof -
  let ?st0 = "\<lambda>st :: ('a, 'b) stream_state. st\<lparr>st_guard := with_accum mark_completed (mark_upstream_completed (set_reason None (st_guard st)))\<rparr>"
  have f: "st_codec st' = Some (d, e)" "st_rewriter st' = st_rewriter st" "st_closed st' = st_closed st"
    "concat (st_yielded st') = concat (st_yielded st)" "st_saw_terminal st' = st_saw_terminal st"
    using assms by (simp_all add: stream_view_def)
  have fl: "flush_codec dr (?st0 st') d e = flush_codec dr (?st0 st) d e"
    by (rule flush_codec_cong) (use assms(1) in \<open>simp_all add: stream_view_def with_accum_def
      mark_completed_def mark_upstream_completed_def set_reason_def\<close>)
  show ?thesis
  proof (cases "flush_codec dr (?st0 st) d e")
    case (Inl p)
    then show ?thesis using assms(2) f fl
      by (simp add: stream_step_def on_eof_def Let_def client_view_def)
  next
    case (Inr y)
    obtain d' e' saw out where y: "y = (d', e', saw, out)" by (metis prod_cases4)
    show ?thesis using assms(2) f fl Inr y
      by (simp add: stream_step_def on_eof_def Let_def client_view_def close_stream_def split_beta)
  qed
qed

text \<open>
  C5.  How the network cuts a transcoded stream into chunks does not matter, as long as no character is cut:
  two ways of cutting the same bytes lead to the same bytes for the client, the same state of the two codecs
  and, if it comes to that, the same panic.
\<close>

theorem transcoding_ignores_chunks:
  assumes "concat cs = concat cs'" and "\<forall>b\<in>set cs \<union> set cs'. from_utf8_lossy b = b"
  shows "map_sum id client_view (stream_steps dr now (map Chunk cs @ [Eof]) (stream_start g (Some (d, e)) ov)) =
    map_sum id client_view (stream_steps dr now (map Chunk cs' @ [Eof]) (stream_start g (Some (d, e)) ov))"
proof -
  let ?st = "stream_start g (Some (d, e)) ov"
  have st: "st_codec ?st = Some (d, e)" "transcoding ?st"
    by (simp_all add: stream_start_def transcoding_def rewriter_ok_def sse_rewriter_def split: option.split)
  let ?t = "transcode_lines (dr_ops dr) (fst (split_sse_lines (st_frame_buf ?st @ concat cs)))
      (d, e, st_guard ?st, st_saw_terminal ?st, [])"
  let ?v = "transcoded dr ?st (snd (split_sse_lines (st_frame_buf ?st @ concat cs)))"
  have r: "rel_sum (=) (\<lambda>st1 y. stream_view st1 = ?v y \<and> transcoding st1) (stream_steps dr now (map Chunk cs) ?st) ?t"
    "rel_sum (=) (\<lambda>st1 y. stream_view st1 = ?v y \<and> transcoding st1) (stream_steps dr now (map Chunk cs') ?st) ?t"
    using chunks_transcode [OF st, of cs] chunks_transcode [OF st, of cs'] assms by auto
  show ?thesis
  proof (cases ?t)
    case (Inl p)
    with r have "stream_steps dr now (map Chunk cs) ?st = Inl p" "stream_steps dr now (map Chunk cs') ?st = Inl p"
      by (auto elim: rel_sum.cases)
    then show ?thesis by (simp add: stream_steps_append)
  next
    case (Inr y)
    with r obtain st1 st2 where s: "stream_steps dr now (map Chunk cs) ?st = Inr st1"
      "stream_steps dr now (map Chunk cs') ?st = Inr st2" and v: "stream_view st1 = ?v y" "stream_view st2 = ?v y"
      by (auto elim!: rel_sum.cases)
    from v obtain d' e' where "st_codec st1 = Some (d', e')"
      by (cases y) (simp add: stream_view_def transcoded_def)
    from eof_view [OF _ this, of st2 dr now now] v s show ?thesis by (simp add: stream_steps_append)
  qed
qed


text \<open>
  A character that the network cuts in two is destroyed: each half becomes a replacement character,
  where the same bytes in one chunk are kept.
\<close>

theorem cut_character_destroyed:
  "map_sum id st_frame_buf (stream_steps dr now [Chunk [CHR 0xC3], Chunk [CHR 0xA9]] (stream_start g (Some (d, e)) ov)) =
     Inr (replacement_char @ replacement_char) \<and>
   map_sum id st_frame_buf (stream_steps dr now [Chunk [CHR 0xC3, CHR 0xA9]] (stream_start g (Some (d, e)) ov)) =
     Inr [CHR 0xC3, CHR 0xA9]"
proof -
  have u: "from_utf8_lossy [CHR 0xC3] = replacement_char" "from_utf8_lossy [CHR 0xA9] = replacement_char"
    "from_utf8_lossy [CHR 0xC3, CHR 0xA9] = [CHR 0xC3, CHR 0xA9]"
    by (simp_all add: from_utf8_lossy.simps utf8_width_def cont_len_def second_ok_def is_cont_def byte_def)
  have r: "split_sse_lines (r @ replacement_char) = ([], r @ replacement_char)" if "LF \<notin> set r" for r
    using that split_from_rest [of "r @ replacement_char" "[]"]
    by (simp add: split_sse_lines_def replacement_char_def)
  have "LF \<notin> set replacement_char" by (simp add: replacement_char_def)
  then show ?thesis using r [of "[]"] r [of replacement_char]
    by (simp add: stream_step_def on_chunk_def Let_def stream_start_def u)
      (simp add: split_sse_lines_def)
qed

text \<open>
  The scan of a forwarded stream looks at one chunk at a time, so a signal that the network cuts in two
  is not seen: the two halves leave the accumulator as it is, the whole marks the end of the stream.
\<close>

theorem cut_signal_missed:
  "detect_verbatim_signals from_str ('']'' @ [LF, LF]) (detect_verbatim_signals from_str ''data: [DONE'' a) = a \<and>
   detect_verbatim_signals from_str (''data: [DONE'' @ '']'' @ [LF, LF]) a = set_upstream_terminal a"
proof -
  have c: "contains hay needle \<longleftrightarrow> str_find needle hay \<noteq> None" for hay needle by (simp add: contains_def)
  have "detect_verbatim_signals from_str ''data: [DONE'' a = a"
    "detect_verbatim_signals from_str ('']'' @ [LF, LF]) a = a"
    by (simp_all add: detect_verbatim_signals_def c error_marker_text_def type_marker_text_def str_find.simps)
  moreover have "from_utf8_lossy (''data: [DONE'' @ '']'' @ [LF, LF]) = ''data: [DONE'' @ '']'' @ [LF, LF]"
    by (simp add: from_utf8_lossy.simps utf8_width_def byte_def)
  moreover have "contains (''data: [DONE'' @ '']'' @ [LF, LF]) ''[DONE]''"
    by (simp add: c str_find.simps)
  moreover have "str_lines (''data: [DONE'' @ '']'' @ [LF, LF]) = [''data: [DONE]'', []]"
    by (simp add: str_lines_def strip_cr_def)
  moreover have "signal_line from_str t r [] b = b" for t r b
    by (simp add: signal_line_def trim_def strip_prefix_def)
  moreover have "signal_line from_str t r ''data: [DONE]'' b = set_upstream_terminal b" for t r b
    by (simp add: signal_line_def trim_def strip_prefix_def is_whitespace_def byte_def)
  ultimately show ?thesis by (simp add: detect_verbatim_signals_def Let_def)
qed

text \<open>
  Failing streams never open the circuit.  A stream that the gateway cuts counts as two failures of its
  target, and because the start of each stream counts as a success, which resets the counter, a target all
  of whose streams fail stays healthy under the default threshold of three.
\<close>

theorem failing_streams_keep_circuit_closed:
  assumes "stream_step dr now now' ev st = Inr st'" and "\<not> st_closed st"
    and "ev \<in> {Upstream_Error, Idle_Timer, Total_Timer}"
    and "g_health (st_guard st) = Some (record_success h key)" and "g_health_key (st_guard st) = Some key"
    and "3 \<le> failure_threshold h"
  shows "g_health (st_guard st') = Some (record_failure (record_failure (record_success h key) now key) now' key) \<and>
    (\<forall>t. is_healthy (record_failure (record_failure (record_success h key) now key) now' key) t key)"
proof
  obtain reason m c where ev: "react dr ev st = Inr (on_truncation dr reason m c st)"
    and reason: "reason \<in> {UpstreamError, Idle, Total}"
    using assms(3) by auto
  obtain st1 ys where st1: "on_truncation dr reason m c st = (st1, ys)" by fastforce
  have "ends_stream ev" using assms(3) by auto
  then have st': "st' = close_stream now now' (deliver ys st1)"
    using assms(1,2) ev st1 by (auto simp: stream_step_def Let_def)
  have g1: "st_guard st1 = with_accum (\<lambda>a. mark_truncated a reason) (set_reason (Some reason) (st_guard st))"
    using on_truncation_guard [OF st1] by blast
  have "open_guard (st_guard st1) (st_guard (deliver ys st1))" by simp
  then have g: "g_health (st_guard (deliver ys st1)) = Some (record_success h key)"
    "g_health_key (st_guard (deliver ys st1)) = Some key" "g_last_reason (st_guard (deliver ys st1)) = Some reason"
    using assms(4,5) by (simp_all add: open_guard_def same_exchange_def g1 with_accum_def set_reason_def)
  have fin: "g_health (finalize_spawn t g) = Some (record_failure h' t key)"
    "g_health_key (finalize_spawn t g) = Some key" "g_last_reason (finalize_spawn t g) = Some reason"
    if "g_health g = Some h'" "g_health_key g = Some key" "g_last_reason g = Some reason" for g h' t
    using that reason
    by (auto simp: finalize_spawn_def send_capture_def take_capture_def record_health_failure_if_needed_def
        stream_failed_def Let_def split: option.split)
  show "g_health (st_guard st') = Some (record_failure (record_failure (record_success h key) now key) now' key)"
    using fin(1) [OF fin(1) [OF g] fin(2,3) [OF g]] by (simp add: st' close_stream_def)
  have "3 \<le> unat (failure_threshold h)" using assms(6) by (simp add: word_le_nat_alt)
  then have "2 < failure_threshold h" by (simp add: word_less_nat_alt)
  then show "\<forall>t. is_healthy (record_failure (record_failure (record_success h key) now key) now' key) t key"
    by (simp add: is_healthy_def record_failure_def record_success_def entry_or_default_def Let_def
        TargetHealth_default_def split: option.split)
qed


lemma react_transcoding:
  assumes "react dr ev st = Inr (st', ys)" and "st_codec st \<noteq> None"
  shows "st_codec st' \<noteq> None \<and> upstream_terminal (g_accum (st_guard st')) = upstream_terminal (g_accum (st_guard st))"
proof (cases ev)
  case (Chunk b)
  obtain d e where de: "st_codec st = Some (d, e)" using assms(2) by auto
  let ?g = "append_upstream b (with_accum (\<lambda>a. record_chunk a (from_utf8_lossy b)) (st_guard st))"
  obtain d' e' g' saw out
    where t: "transcode_lines (dr_ops dr) (fst (split_sse_lines (st_frame_buf st @ from_utf8_lossy b)))
        (d, e, ?g, st_saw_terminal st, []) = Inr (d', e', g', saw, out)"
      and g: "st_guard st' = g'" "st_codec st' = Some (d', e')"
    using assms(1) de Chunk
    by (auto simp: on_chunk_def Let_def split_beta split: if_splits)
  from transcode_lines_guard [OF t] obtain ps where "g' = fold note_error_part ps ?g" by blast
  with g show ?thesis
    by (simp add: fold_note_terminal append_upstream_def with_accum_def record_chunk_def)
next
  case Eof
  with assms(1) have c: "on_eof dr st = Inr (st', ys)" by simp
  show ?thesis using on_eof_guard [OF c] c assms(2)
    by (auto simp: with_accum_def mark_completed_def mark_upstream_completed_def set_reason_def
        on_eof_def Let_def split_beta split: if_splits)
qed (use assms on_truncation_guard in \<open>auto simp: with_accum_def mark_truncated_def set_reason_def
    on_truncation_def Let_def split_beta split: option.splits\<close>)

lemma finalize_accum [simp]: "g_accum (finalize_spawn now g) = g_accum g"
  by (simp add: finalize_spawn_def send_capture_def take_capture_def Let_def split: option.split)

lemma drop_terminal [simp]: "upstream_terminal (g_accum (guard_drop now g)) = upstream_terminal (g_accum g)"
  by (simp add: guard_drop_def take_capture_def send_capture_def Let_def with_accum_def mark_truncated_def
      split: option.split)

lemma transcoding_run:
  assumes "stream_run dr st0 evs st" and "st_codec st0 \<noteq> None"
  shows "st_codec st \<noteq> None \<and> upstream_terminal (g_accum (st_guard st)) = upstream_terminal (g_accum (st_guard st0))"
  using assms
proof (induction rule: stream_run.induct)
  case (event st0 evs st1 now now' ev st2)
  then obtain st' ys where r: "react dr ev st1 = Inr (st', ys)"
    and "st2 = (if ends_stream ev then close_stream now now' (deliver ys st') else deliver ys st')"
    by (auto simp: stream_step_def Let_def)
  with react_transcoding [OF r] event.IH [OF event.prems] show ?case by (simp add: close_stream_def)
next
  case (cancelled st0 evs st1 now ev n st2)
  then obtain st' ys where r: "react dr ev st1 = Inr (st', ys)"
    and "st2 = stream_drop now (deliver (take n ys) st')"
    by (auto simp: stream_cancel_def)
  with react_transcoding [OF r] cancelled.IH [OF cancelled.prems] show ?case by (simp add: stream_drop_def)
qed (simp_all add: stream_drop_def)

text \<open>
  The end frame of a transcoded stream is not noticed.  A client that goes away before the upstream has
  closed is recorded as a disconnect, also if it has received the end frame of its protocol (\<open>st_saw_terminal\<close>):
  the scan that marks the end of the stream only runs on forwarded streams.
\<close>

theorem transcoded_end_not_noticed:
  assumes "stream_run dr (stream_start (StreamCaptureGuard_new (Some cap) UsageAccumulator_new health t0) (Some de) ov) evs st"
    and "\<not> st_closed st" and "upstream_error (g_accum (st_guard st)) = None"
  shows "\<exists>x. g_sent (st_guard (stream_drop now st)) = [x] \<and> xc_truncation_reason x = Some ''client_disconnect''"
proof -
  let ?st0 = "stream_start (StreamCaptureGuard_new (Some cap) UsageAccumulator_new health t0) (Some de) ov"
  have "run_inv cap [] ?st0"
    by (simp add: run_inv_def stream_start_def StreamCaptureGuard_new_def unsent_def)
  from stream_run_inv [OF assms(1) this] assms(2)
  have inv: "unsent cap (st_guard st)" "g_last_reason (st_guard st) = None" "\<not> g_upstream_completed (st_guard st)"
    by (simp_all add: run_inv_def)
  have "\<not> upstream_terminal (g_accum (st_guard st))"
    using transcoding_run [OF assms(1)]
    by (simp add: stream_start_def StreamCaptureGuard_new_def UsageAccumulator_new_def)
  then have "drop_fallback_reason (st_guard st) = Some ClientDisconnected"
    using inv assms(3) by (simp add: drop_fallback_reason_def)
  with drop_unsent(1) [OF inv(1), of now] inv(2) show ?thesis
    by (auto simp: sent_once_def capture_of_def stream_drop_def)
qed

subsection \<open>Keepalives\<close>

text \<open>
  \<open>inner_poll\<close> is what the wrapped stream answers to a poll, \<open>polled\<close> what the wrapper does.  The timer only
  wakes the task; what counts is the instant at which the next keepalive is due.
\<close>

datatype inner_poll = Inner_Frame string | Inner_Error | Inner_End | Inner_Pending

datatype polled = Frame string | Frame_Error | Stream_End | Not_Ready | Keepalive

record SseKeepaliveStream =
  ka_interval :: duration
  ka_emit_at :: instant
  ka_done :: bool

definition SseKeepaliveStream_new :: "duration \<Rightarrow> instant \<Rightarrow> SseKeepaliveStream" where
  "SseKeepaliveStream_new interval now =
     \<lparr>ka_interval = interval,
      ka_emit_at = now + (if interval = 0 then from_secs (60 * 60 * 24 * 365 * 1000) else interval),
      ka_done = False\<rparr>"

definition poll_next :: "SseKeepaliveStream \<Rightarrow> instant \<Rightarrow> inner_poll \<Rightarrow> polled \<times> SseKeepaliveStream" where
  "poll_next ka now inner =
     (if ka_done ka then (Stream_End, ka)
      else case inner of
        Inner_Frame event \<Rightarrow> (Frame event, ka\<lparr>ka_emit_at := now + ka_interval ka\<rparr>)
      | Inner_Error \<Rightarrow> (Frame_Error, ka\<lparr>ka_done := True\<rparr>)
      | Inner_End \<Rightarrow> (Stream_End, ka\<lparr>ka_done := True\<rparr>)
      | Inner_Pending \<Rightarrow>
          if ka_interval ka \<noteq> 0 \<and> now \<ge> ka_emit_at ka
          then (Keepalive, ka\<lparr>ka_emit_at := now + ka_interval ka\<rparr>)
          else (Not_Ready, ka))"

fun polls :: "SseKeepaliveStream \<Rightarrow> (instant \<times> inner_poll) list \<Rightarrow> polled list" where
  "polls ka [] = []"
| "polls ka ((now, inner) # xs) = (let (r, ka') = poll_next ka now inner in r # polls ka' xs)"

text \<open>The frames of the wrapped stream up to its end, and those the client sees.\<close>

fun inner_frames :: "inner_poll list \<Rightarrow> polled list" where
  "inner_frames [] = []"
| "inner_frames (Inner_Frame f # xs) = Frame f # inner_frames xs"
| "inner_frames (Inner_Pending # xs) = inner_frames xs"
| "inner_frames (Inner_Error # xs) = Frame_Error # map (\<lambda>_. Stream_End) xs"
| "inner_frames (Inner_End # xs) = Stream_End # map (\<lambda>_. Stream_End) xs"

lemma polls_done: "ka_done ka \<Longrightarrow> polls ka xs = map (\<lambda>_. Stream_End) xs"
  by (induction xs) (auto simp: poll_next_def)

lemma polls_transparent:
  "\<not> ka_done ka \<Longrightarrow> filter (\<lambda>r. r \<notin> {Keepalive, Not_Ready}) (polls ka xs) = inner_frames (map snd xs)"
proof (induction ka xs rule: polls.induct)
  case (2 ka now inner xs)
  have "filter (\<lambda>r. r \<noteq> Keepalive \<and> r \<noteq> Not_Ready) (map (\<lambda>_. Stream_End) xs) = map (\<lambda>_. Stream_End) xs" for xs :: "'a list"
    by (induction xs) auto
  with 2 show ?case by (cases inner) (auto simp: poll_next_def polls_done o_def)
qed simp

text \<open>
  The keepalive wrapper adds keepalives and nothing else, and none after the end: what is left without
  them is what the wrapped stream delivers, in order, up to its end.
\<close>

theorem keepalive_transparent:
  "filter (\<lambda>r. r \<notin> {Keepalive, Not_Ready}) (polls (SseKeepaliveStream_new interval now) xs) = inner_frames (map snd xs)"
  by (rule polls_transparent) (simp add: SseKeepaliveStream_new_def)




subsection \<open>Concrete streams\<close>

text \<open>A codec that takes every line for the end of the stream, and a capture with a health key.\<close>

definition demo_driver :: "(unit, unit) driver" where
  "demo_driver = \<lparr>dr_ops = \<lparr>tx_feed = (\<lambda>d l. Inr (Inr [Finish Stop], d)), tx_finish = (\<lambda>d. (Inr [], d)),
       tx_encode_part = (\<lambda>e p. (Inr ''end'', e)), tx_encode_error = (\<lambda>e m c u. (m, e)),
       tx_encode_done = (\<lambda>e. (''done'', e))\<rparr>,
     dr_from_str = (\<lambda>s. None), dr_to_vec = (\<lambda>v. None), dr_end_marker = ''done'', dr_error_marker = ''error''\<rparr>"

definition demo_capture :: StreamCapture where
  "demo_capture = \<lparr>sc_cap_request_id = ''r'', sc_egress_method = ''POST'', sc_egress_path = ''/'',
     sc_egress_headers = [], sc_egress_body = None, sc_upstream_status = Some 200,
     sc_upstream_resp_headers = [], sc_client_resp_headers = [], sc_health_key = Some ''k''\<rparr>"

definition demo_health :: HealthRegistry where
  "demo_health = \<lparr>states = Map.empty, latencies = Map.empty, failure_threshold = 3, recovery_tiers = [1]\<rparr>"

definition demo_stream :: "(unit \<times> unit) option \<Rightarrow> (unit, unit) stream_state" where
  "demo_stream codec = stream_start (StreamCaptureGuard_new (Some demo_capture) UsageAccumulator_new
     (Some (record_success demo_health ''k'')) 0) codec None"

lemma demo_idle: "\<exists>st. stream_step demo_driver 1 2 Idle_Timer (demo_stream None) = Inr st \<and> st_closed st"
  by (simp add: stream_step_def Let_def split_beta close_stream_def demo_stream_def stream_start_def)


theorem failing_streams_keep_circuit_closed_witness:
  "\<exists>st h. stream_step demo_driver 1 2 Idle_Timer (demo_stream None) = Inr st \<and>
     g_health (st_guard st) = Some h \<and> is_healthy h 2 ''k''"
proof -
  obtain st where st: "stream_step demo_driver 1 2 Idle_Timer (demo_stream None) = Inr st"
    using demo_idle by blast
  have "g_health (st_guard st) = Some (record_failure (record_failure (record_success demo_health ''k'') 1 ''k'') 2 ''k'') \<and>
      (\<forall>t. is_healthy (record_failure (record_failure (record_success demo_health ''k'') 1 ''k'') 2 ''k'') t ''k'')"
    by (rule failing_streams_keep_circuit_closed [OF st])
      (simp_all add: demo_stream_def stream_start_def StreamCaptureGuard_new_def demo_capture_def demo_health_def)
  with st show ?thesis by blast
qed

theorem forwarded_stream_exact_witness:
  "\<exists>st. stream_steps demo_driver 0 [Chunk ''h'', Chunk (''i'' @ [LF]), Eof] (demo_stream None) = Inr st \<and>
     concat (st_yielded st) = ''hi'' @ [LF]"
proof -
  have d: "detect_verbatim_signals f ''h'' a = a" "detect_verbatim_signals f (''i'' @ [LF]) a = a" for f a
    by (simp_all add: detect_verbatim_signals_def contains_def error_marker_text_def type_marker_text_def
        str_find.simps)
  have "upstream_error (signals demo_driver [''h'', ''i'' @ [LF]] UsageAccumulator_new) = None"
    using d by (simp add: signals_def UsageAccumulator_new_def record_chunk_def)
  moreover have "sse_lines (''hi'' @ [LF]) = [''hi'' @ [LF]]" "sse_lines [] = []"
    using sse_lines_line [of "''hi''" "[]"] sse_lines_rest [of "[]"] by simp_all
  ultimately show ?thesis
    using forwarded_stream_exact [of "[''h'', ''i'' @ [LF]]" "''hi'' @ [LF]" "[]" demo_driver 0
        "StreamCaptureGuard_new (Some demo_capture) UsageAccumulator_new (Some (record_success demo_health ''k'')) 0" None]
    by (simp add: demo_stream_def StreamCaptureGuard_new_def client_line_def Let_def)
qed

theorem transcoding_ignores_chunks_witness:
  "map_sum id client_view (stream_steps demo_driver 0 [Chunk ''a'', Chunk [LF], Eof] (demo_stream (Some ((), ())))) =
   map_sum id client_view (stream_steps demo_driver 0 [Chunk (''a'' @ [LF]), Eof] (demo_stream (Some ((), ()))))"
  using transcoding_ignores_chunks [of "[''a'', [LF]]" "[''a'' @ [LF]]" demo_driver 0
      "StreamCaptureGuard_new (Some demo_capture) UsageAccumulator_new (Some (record_success demo_health ''k'')) 0"
      "()" "()" None]
  by (simp add: demo_stream_def from_utf8_lossy.simps utf8_width_def byte_def del: stream_steps.simps)

theorem transcoded_end_not_noticed_witness:
  "\<exists>st x. stream_run demo_driver (demo_stream (Some ((), ()))) [Chunk [LF]] st \<and> st_saw_terminal st \<and>
     g_sent (st_guard (stream_drop 1 st)) = [x] \<and> xc_truncation_reason x = Some ''client_disconnect''"
proof -
  obtain st where st: "stream_step demo_driver 0 0 (Chunk [LF]) (demo_stream (Some ((), ()))) = Inr st"
      "st_saw_terminal st" "\<not> st_closed st" "upstream_error (g_accum (st_guard st)) = None"
    by (auto simp: demo_stream_def stream_start_def stream_step_def on_chunk_def Let_def demo_driver_def
        from_utf8_lossy.simps utf8_width_def byte_def split_sse_lines_def transcode_line_def transcode_part_def
        rewrite_out_def StreamCaptureGuard_new_def UsageAccumulator_new_def append_upstream_def with_accum_def
        record_chunk_def)
  have "stream_run demo_driver (demo_stream (Some ((), ()))) ([] @ [Chunk [LF]]) st"
    by (rule stream_run.event [OF stream_run.start _ st(1)]) (simp add: demo_stream_def stream_start_def)
  then have run: "stream_run demo_driver (demo_stream (Some ((), ()))) [Chunk [LF]] st" by simp
  from transcoded_end_not_noticed [OF this [unfolded demo_stream_def] st(3,4), of 1] st(2) run show ?thesis
    by blast
qed

end
