(* ===== verification/Stream_Codec.thy ===== *)
theory Stream_Codec
  imports Streaming
begin

section \<open>Stream codecs\<close>

text \<open>
  What the stream codecs of \<^verbatim>\<open>protocols/src\<close> share: the frames of server-sent events, what the reader of a stream
  gathers from its parts, and the interface of a codec.  \<open>encode\<close> turns the parts of the intermediate
  representation into bytes, \<open>feed\<close> reads a line; both keep a state.  The locale \<open>stream_codec\<close> says that what
  has been read stays related to what has been written, part by part; its lemma is the round trip of whole
  streams.
\<close>

subsection \<open>Frames\<close>

definition data_prefix :: string where
  "data_prefix = ''data: ''"

definition sse_frame :: "string \<Rightarrow> string" where
  "sse_frame payload = data_prefix @ payload @ [LF, LF]"

text \<open>The token counts and indices are 64-bit numbers, and their sum wraps.\<close>

definition add_u64 :: "nat \<Rightarrow> nat \<Rightarrow> nat" where
  "add_u64 a b = (a + b) mod 2 ^ 64"

lemma add_u64_small [simp]: "a + b < 2 ^ 64 \<Longrightarrow> add_u64 a b = a + b"
  by (simp add: add_u64_def)

text \<open>
  \<^verbatim>\<open>Vec::resize_with\<close> to the length that has the index \<open>i\<close>, for entries of \<open>sz\<close> bytes.  The new length wraps for
  the largest index, after which the access is out of bounds; a vector that exceeds the address space panics.
\<close>

definition resize_slots :: "nat \<Rightarrow> 'a \<Rightarrow> nat \<Rightarrow> 'a list \<Rightarrow> 'a list rust" where
  "resize_slots sz dflt i slots =
     (if i < length slots then Inr slots
      else if i = 2 ^ 64 - 1 then Inl Index_Out_Of_Bounds
      else if sz * (i + 1) \<ge> 2 ^ 63 then Inl Capacity_Overflow
      else Inr (slots @ replicate (i + 1 - length slots) dflt))"

lemma object_ex [simp]: "\<exists>y. as_object (object_of kvs) = Some y" "\<exists>y. as_object (put k v j) = Some y"
  using as_object_object_of [of kvs] as_object_put [of k v j] by (simp_all del: as_object_object_of as_object_put)

lemma obj_insert_neq_Nil [simp]: "obj_insert k v kvs \<noteq> []"
  by (cases kvs) (auto split: if_splits)

lemma put_neq_empty [simp]: "put k v j \<noteq> object_of []"
  by (cases j) (simp_all add: object_of_def)

lemma trim_id: "s \<noteq> [] \<Longrightarrow> \<not> is_whitespace (hd s) \<Longrightarrow> \<not> is_whitespace (last s) \<Longrightarrow> trim s = s"
  by (simp add: trim_def dropWhile_eq_self_iff [THEN iffD2] hd_rev)

lemma data_prefix_facts [simp]: "data_prefix \<noteq> []" "\<not> is_whitespace (hd data_prefix)" "LF \<notin> set data_prefix"
  by (simp_all add: data_prefix_def is_whitespace_def byte_def)

lemma frame_line:
  assumes "json_text from_str display" and "wf_json v"
  shows "trim (data_prefix @ display v) = data_prefix @ display v"
    and "strip_prefix data_prefix (data_prefix @ display v) = Some (display v)"
    and "display v \<noteq> ''[DONE]''" and "LF \<notin> set (display v)"
    and "from_str (display v) = Some v" and "display v \<noteq> []"
proof -
  have v: "display v \<noteq> []" "\<forall>c\<in>set (display v). is_whitespace c \<longrightarrow> c = SP" "last (display v) \<noteq> SP"
    and parse: "from_str (display v) = Some v" and d: "from_str ''[DONE]'' = None"
    using assms by (simp_all add: json_text_def)
  show "from_str (display v) = Some v" "display v \<noteq> []" by fact+
  from v have "\<not> is_whitespace (last (display v))" using last_in_set by blast
  with v(1) show "trim (data_prefix @ display v) = data_prefix @ display v"
    by (intro trim_id) simp_all
  show "strip_prefix data_prefix (data_prefix @ display v) = Some (display v)"
    by (simp add: strip_prefix_def)
  show "display v \<noteq> ''[DONE]''" using parse d by auto
  have "is_whitespace LF" "LF \<noteq> SP" by (simp_all add: is_whitespace_def byte_def)
  with v(2) show "LF \<notin> set (display v)" by auto
qed

lemma split_frame:
  "LF \<notin> set l \<Longrightarrow> split_sse_lines (l @ LF # s) = (l # fst (split_sse_lines s), snd (split_sse_lines s))"
  using split_from_append [of "[]" l "LF # s"] split_from_rest [of l "[]"]
  by (simp add: split_sse_lines_def split_beta)

lemma split_empty [simp]: "split_sse_lines [] = ([], [])"
  by (simp add: split_sse_lines_def)

lemma split_sse_frame:
  "LF \<notin> set s \<Longrightarrow> split_sse_lines (sse_frame s) = ([data_prefix @ s, []], [])"
  using split_frame [of "data_prefix @ s" "[LF]"] split_frame [of "[]" "[]"]
  by (simp add: sse_frame_def)


subsection \<open>What a reader gathers\<close>

fun text_of :: "StreamPart list \<Rightarrow> string" where
  "text_of [] = []"
| "text_of (TextDelta t # ps) = t @ text_of ps"
| "text_of (_ # ps) = text_of ps"

fun reasoning_of :: "StreamPart list \<Rightarrow> string" where
  "reasoning_of [] = []"
| "reasoning_of (ReasoningDelta t _ _ # ps) = t @ reasoning_of ps"
| "reasoning_of (_ # ps) = reasoning_of ps"

fun arguments_of :: "string \<Rightarrow> StreamPart list \<Rightarrow> string" where
  "arguments_of i [] = []"
| "arguments_of i (ToolCallDelta j _ a _ _ _ # ps) = (if j = i then a else []) @ arguments_of i ps"
| "arguments_of i (_ # ps) = arguments_of i ps"

fun names_of :: "string \<Rightarrow> StreamPart list \<Rightarrow> string list" where
  "names_of i [] = []"
| "names_of i (ToolCallDelta j n _ _ _ _ # ps) =
     (if j = i \<and> n \<noteq> None \<and> n \<noteq> Some [] then [the n] else []) @ names_of i ps"
| "names_of i (_ # ps) = names_of i ps"

fun usages_of :: "StreamPart list \<Rightarrow> Usage list" where
  "usages_of [] = []"
| "usages_of (Usage_part u # ps) = u # usages_of ps"
| "usages_of (_ # ps) = usages_of ps"

fun finishes_of :: "StreamPart list \<Rightarrow> FinishReason list" where
  "finishes_of [] = []"
| "finishes_of (Finish r # ps) = r # finishes_of ps"
| "finishes_of (_ # ps) = finishes_of ps"

fun errors_of :: "StreamPart list \<Rightarrow> string list" where
  "errors_of [] = []"
| "errors_of (Error_part m _ _ # ps) = m # errors_of ps"
| "errors_of (_ # ps) = errors_of ps"

fun started_of :: "StreamPart list \<Rightarrow> string list" where
  "started_of [] = []"
| "started_of (ResponseStarted i # ps) = i # started_of ps"
| "started_of (_ # ps) = started_of ps"

fun completed_of :: "StreamPart list \<Rightarrow> string list" where
  "completed_of [] = []"
| "completed_of (ResponseCompleted i _ _ _ # ps) = i # completed_of ps"
| "completed_of (_ # ps) = completed_of ps"

lemma gathered_append [simp]:
  "text_of (ps @ qs) = text_of ps @ text_of qs"
  "reasoning_of (ps @ qs) = reasoning_of ps @ reasoning_of qs"
  "arguments_of i (ps @ qs) = arguments_of i ps @ arguments_of i qs"
  "names_of i (ps @ qs) = names_of i ps @ names_of i qs"
  "usages_of (ps @ qs) = usages_of ps @ usages_of qs"
  "finishes_of (ps @ qs) = finishes_of ps @ finishes_of qs"
  "errors_of (ps @ qs) = errors_of ps @ errors_of qs"
  "started_of (ps @ qs) = started_of ps @ started_of qs"
  "completed_of (ps @ qs) = completed_of ps @ completed_of qs"
  by (induction ps rule: text_of.induct, simp_all)

text \<open>The id with which a stream starts.\<close>

fun first_id :: "StreamPart list \<Rightarrow> string option" where
  "first_id (ResponseStarted i # _) = Some i"
| "first_id _ = None"

lemma first_id_snoc: "\<nexists>i. ps = [] \<and> p = ResponseStarted i \<Longrightarrow> first_id (ps @ [p]) = first_id ps"
  by (cases ps; cases p; simp; cases "hd ps"; simp)

text \<open>The content that every protocol carries.  A call without a name is not opened.\<close>

definition same_dialogue :: "StreamPart list \<Rightarrow> StreamPart list \<Rightarrow> bool" where
  "same_dialogue ps qs \<longleftrightarrow> text_of qs = text_of ps \<and> reasoning_of qs = reasoning_of ps \<and>
     (\<forall>i. arguments_of i qs = arguments_of i ps \<and> names_of i qs = names_of i ps) \<and> errors_of qs = errors_of ps"

lemma same_dialogue_refl [simp]: "same_dialogue ps ps"
  by (simp add: same_dialogue_def)

lemma same_dialogue_trans: "same_dialogue ps qs \<Longrightarrow> same_dialogue qs rs \<Longrightarrow> same_dialogue ps rs"
  by (simp add: same_dialogue_def)

lemma same_dialogue_append: "same_dialogue ps qs \<Longrightarrow> same_dialogue ps' qs' \<Longrightarrow> same_dialogue (ps @ ps') (qs @ qs')"
  by (simp add: same_dialogue_def)

text \<open>The tokens of a usage, cached ones included.\<close>

definition usage_total :: "Usage \<Rightarrow> nat" where
  "usage_total u = prompt_tokens u + unwrap_or (cache_read_tokens u) 0 + unwrap_or (cache_write_tokens u) 0 +
     completion_tokens u"

definition usage_fits :: "Usage \<Rightarrow> bool" where
  "usage_fits u \<longleftrightarrow> usage_total u < 2 ^ 64"


subsection \<open>Reading and writing whole streams\<close>

type_synonym 'd reading = "((Error + StreamPart list) \<times> 'd) rust"

fun encode_parts :: "('e \<Rightarrow> StreamPart \<Rightarrow> string \<times> 'e) \<Rightarrow> 'e \<Rightarrow> StreamPart list \<Rightarrow> string \<times> 'e" where
  "encode_parts encode e [] = ([], e)"
| "encode_parts encode e (p # ps) =
     (let (b, e1) = encode e p; (b', e2) = encode_parts encode e1 ps in (b @ b', e2))"

fun feed_lines :: "('d \<Rightarrow> string \<Rightarrow> 'd reading) \<Rightarrow> 'd \<Rightarrow> string list \<Rightarrow> 'd reading" where
  "feed_lines feed d [] = Inr (Inr [], d)"
| "feed_lines feed d (l # ls) =
     bind_rust (feed d l) (\<lambda>(r, d1). case r of
       Inl err \<Rightarrow> Inr (Inl err, d1)
     | Inr ps \<Rightarrow> bind_rust (feed_lines feed d1 ls) (\<lambda>(r', d2). case r' of
         Inl err \<Rightarrow> Inr (Inl err, d2) | Inr qs \<Rightarrow> Inr (Inr (ps @ qs), d2)))"

definition reads :: "('d \<Rightarrow> string \<Rightarrow> 'd reading) \<Rightarrow> 'd \<Rightarrow> string \<Rightarrow> StreamPart list \<Rightarrow> 'd \<Rightarrow> bool" where
  "reads feed d b ps d' \<longleftrightarrow>
     feed_lines feed d (fst (split_sse_lines b)) = Inr (Inr ps, d') \<and> snd (split_sse_lines b) = []"

lemma feed_lines_append:
  assumes "feed_lines feed d ls = Inr (Inr ps, d1)" and "feed_lines feed d1 ls' = Inr (Inr qs, d2)"
  shows "feed_lines feed d (ls @ ls') = Inr (Inr (ps @ qs), d2)"
  using assms
proof (induction ls arbitrary: d ps)
  case (Cons l ls)
  then obtain r d0 where f: "feed d l = Inr (r, d0)" by (auto simp: bind_rust_eq_Inr)
  with Cons.prems(1) obtain ps0 where r: "r = Inr ps0" by (cases r) auto
  with Cons.prems(1) f obtain r' d3 where rest: "feed_lines feed d0 ls = Inr (r', d3)" by (auto simp: bind_rust_eq_Inr)
  with Cons.prems(1) f r obtain ps1 where "r' = Inr ps1" "ps = ps0 @ ps1" "d3 = d1" by (cases r') auto
  with Cons.IH [of d0 ps1] rest Cons.prems(2) f r show ?case by simp
qed simp

lemma reads_Nil [simp]: "reads feed d [] ps d' \<longleftrightarrow> ps = [] \<and> d' = d"
  by (auto simp: reads_def)

lemma reads_append:
  assumes "reads feed d b ps d1" and "reads feed d1 b' qs d2"
  shows "reads feed d (b @ b') (ps @ qs) d2"
proof -
  have "split_sse_lines (b @ b') = (fst (split_sse_lines b) @ fst (split_sse_lines b'), [])"
    using split_sse_lines_append(1) [of "[]" b b'] assms by (simp add: prod_eq_iff reads_def)
  with feed_lines_append [of feed d _ ps d1] assms show ?thesis by (simp add: reads_def)
qed

text \<open>A frame is a line that the reader understands and a blank one; an event line before it is skipped.\<close>

lemma reads_frame:
  assumes "LF \<notin> set s" and "feed d (data_prefix @ s) = Inr (Inr ps, d')" and "feed d' [] = Inr (Inr [], d')"
  shows "reads feed d (sse_frame s) ps d'"
  using assms by (simp add: reads_def split_sse_frame)

lemma reads_skip:
  assumes "LF \<notin> set l" and "feed d l = Inr (Inr [], d)" and "reads feed d b ps d'"
  shows "reads feed d (l @ LF # b) ps d'"
  using assms by (simp add: reads_def split_frame)


subsection \<open>The interface of a codec\<close>

text \<open>
  \<open>admits ps p\<close>: after the parts \<open>ps\<close> the protocol has room for \<open>p\<close>.  \<open>carries ps qs e d\<close>: what has been
  written (\<open>ps\<close>) and read (\<open>qs\<close>) have the same content, as far as the protocol can express it, and the states of
  the writer and the reader belong together.
\<close>

fun admissible :: "(StreamPart list \<Rightarrow> StreamPart \<Rightarrow> bool) \<Rightarrow> StreamPart list \<Rightarrow> StreamPart list \<Rightarrow> bool" where
  "admissible admits before [] \<longleftrightarrow> True"
| "admissible admits before (p # ps) \<longleftrightarrow> admits before p \<and> admissible admits (before @ [p]) ps"

locale stream_codec =
  fixes encode :: "'e \<Rightarrow> StreamPart \<Rightarrow> string \<times> 'e"
    and feed :: "'d \<Rightarrow> string \<Rightarrow> 'd reading"
    and carries :: "StreamPart list \<Rightarrow> StreamPart list \<Rightarrow> 'e \<Rightarrow> 'd \<Rightarrow> bool"
    and admits :: "StreamPart list \<Rightarrow> StreamPart \<Rightarrow> bool"
  assumes carries_step: "carries ps qs e d \<Longrightarrow> admits ps p \<Longrightarrow> encode e p = (b, e') \<Longrightarrow>
    \<exists>rs d'. reads feed d b rs d' \<and> carries (ps @ [p]) (qs @ rs) e' d'"
begin

lemma carries_from:
  assumes "carries before qs e d" and "admissible admits before ps"
  shows "\<exists>rs d'. reads feed d (fst (encode_parts encode e ps)) rs d' \<and>
    carries (before @ ps) (qs @ rs) (snd (encode_parts encode e ps)) d'"
  using assms
proof (induction ps arbitrary: before qs e d)
  case Nil
  then show ?case by (auto intro: exI [of _ "[]"])
next
  case (Cons p ps)
  obtain b e1 where enc: "encode e p = (b, e1)" by fastforce
  from carries_step [OF Cons.prems(1) _ enc] Cons.prems(2) obtain rs1 d1 where
    1: "reads feed d b rs1 d1" "carries (before @ [p]) (qs @ rs1) e1 d1" by auto
  from Cons.IH [OF 1(2)] Cons.prems(2) obtain rs2 d2 where
    2: "reads feed d1 (fst (encode_parts encode e1 ps)) rs2 d2"
    "carries ((before @ [p]) @ ps) ((qs @ rs1) @ rs2) (snd (encode_parts encode e1 ps)) d2" by auto
  from reads_append [OF 1(1) 2(1)] 2(2) enc show ?case
    by (auto simp: Let_def split_beta intro!: exI [of _ "rs1 @ rs2"])
qed

lemma stream_carried:
  assumes "carries [] [] e d" and "admissible admits [] ps"
  shows "\<exists>qs d'. reads feed d (fst (encode_parts encode e ps)) qs d' \<and>
    carries ps qs (snd (encode_parts encode e ps)) d'"
  using carries_from [OF assms] by simp

end

end
