(* ===== verification/Messages_Stream.thy ===== *)
theory Messages_Stream
  imports Stream_Codec
begin

section \<open>Anthropic messages: streams\<close>

text \<open>
  The model of the stream half of \<^verbatim>\<open>protocols/src/messages.rs\<close>: the encoder, which opens and closes content
  blocks and holds the stop reason back until the usage is known, and the decoder, which merges the usage
  of the start with that of the end.
\<close>

subsection \<open>The encoder\<close>

fun messages_error_type :: "ErrorClass \<Rightarrow> string" where
  "messages_error_type ErrorClass.Transient = ''api_error''"
| "messages_error_type ErrorClass.RateLimited = ''rate_limit_error''"
| "messages_error_type ErrorClass.Auth = ''authentication_error''"
| "messages_error_type ErrorClass.BadRequest = ''invalid_request_error''"
| "messages_error_type ErrorClass.LossyOrCapability = ''invalid_request_error''"
| "messages_error_type ErrorClass.ModelNotFound = ''not_found_error''"
| "messages_error_type ErrorClass.DeadlineExceeded = ''timeout_error''"
| "messages_error_type ErrorClass.UpstreamExhausted = ''overloaded_error''"
| "messages_error_type ErrorClass.AuthMissing = ''authentication_error''"
| "messages_error_type ErrorClass.AuthInvalid = ''authentication_error''"
| "messages_error_type ErrorClass.AuthDisabled = ''permission_error''"
| "messages_error_type ErrorClass.ModelAccessDenied = ''permission_error''"
| "messages_error_type ErrorClass.Overloaded = ''overloaded_error''"

record MessagesStreamEncoder =
  me_message_started :: bool
  me_current_index :: "nat option"
  me_current_kind :: "string option"
  me_next_index :: nat
  me_last_usage :: "Usage option"
  me_pending_stop_reason :: "string option"

definition MessagesStreamEncoder_new :: MessagesStreamEncoder where
  "MessagesStreamEncoder_new = \<lparr>me_message_started = False, me_current_index = None, me_current_kind = None,
     me_next_index = 0, me_last_usage = None, me_pending_stop_reason = None\<rparr>"

definition event_frame :: "string \<Rightarrow> string \<Rightarrow> string" where
  "event_frame name payload = ''event: '' @ name @ [LF] @ sse_frame payload"

definition close_block :: "(json \<Rightarrow> string) \<Rightarrow> MessagesStreamEncoder \<Rightarrow> string \<times> MessagesStreamEncoder" where
  "close_block display e = (case me_current_index e of
     Some i \<Rightarrow> (event_frame ''content_block_stop''
         (display (object_of [(''type'', JString ''content_block_stop''), (''index'', jnat i)])),
       e\<lparr>me_current_index := None, me_current_kind := None\<rparr>)
   | None \<Rightarrow> ([], e))"

definition open_block :: "(json \<Rightarrow> string) \<Rightarrow> string \<Rightarrow> json \<Rightarrow> MessagesStreamEncoder \<Rightarrow>
    string \<times> MessagesStreamEncoder" where
  "open_block display kind content_block e =
     (let i = me_next_index e in
      (event_frame ''content_block_start'' (display (object_of [(''type'', JString ''content_block_start''),
         (''index'', jnat i), (''content_block'', content_block)])),
       e\<lparr>me_next_index := add_u64 i 1, me_current_index := Some i, me_current_kind := Some kind\<rparr>))"

definition reopen_block :: "(json \<Rightarrow> string) \<Rightarrow> string \<Rightarrow> json \<Rightarrow> MessagesStreamEncoder \<Rightarrow>
    string \<times> MessagesStreamEncoder" where
  "reopen_block display kind content_block e =
     (let (closing, e1) = close_block display e; (opening, e2) = open_block display kind content_block e1
      in (closing @ opening, e2))"

definition ensure_block :: "(json \<Rightarrow> string) \<Rightarrow> string \<Rightarrow> json \<Rightarrow> MessagesStreamEncoder \<Rightarrow>
    string \<times> MessagesStreamEncoder" where
  "ensure_block display kind content_block e =
     (if me_current_kind e = Some kind then ([], e) else reopen_block display kind content_block e)"

definition block_delta :: "(json \<Rightarrow> string) \<Rightarrow> MessagesStreamEncoder \<Rightarrow> json \<Rightarrow> string" where
  "block_delta display e delta = event_frame ''content_block_delta'' (display (object_of
     [(''type'', JString ''content_block_delta''), (''index'', jnat (unwrap_or (me_current_index e) 0)),
      (''delta'', delta)]))"

definition text_delta :: "string \<Rightarrow> json" where
  "text_delta text = object_of [(''type'', JString ''text_delta''), (''text'', JString text)]"

definition thinking_delta :: "string \<Rightarrow> json" where
  "thinking_delta text = object_of [(''type'', JString ''thinking_delta''), (''thinking'', JString text)]"

definition input_json_delta :: "string \<Rightarrow> json" where
  "input_json_delta arguments = object_of [(''type'', JString ''input_json_delta''), (''partial_json'', JString arguments)]"

definition tool_use_block :: "string \<Rightarrow> string \<Rightarrow> json" where
  "tool_use_block i name = object_of [(''type'', JString ''tool_use''), (''id'', JString i),
     (''name'', JString name), (''input'', object_of [])]"

definition message_delta :: "(json \<Rightarrow> string) \<Rightarrow> string option \<Rightarrow> json \<Rightarrow> string" where
  "message_delta display stop usage = event_frame ''message_delta'' (display (object_of
     [(''type'', JString ''message_delta''),
      (''delta'', object_of [(''stop_reason'', jopt JString stop), (''stop_sequence'', JNull)]),
      (''usage'', usage)]))"

definition messages_usage_object :: "Usage \<Rightarrow> json" where
  "messages_usage_object u =
     put_opt ''cache_read_input_tokens'' (map_option jnat (cache_read_tokens u))
     (put_opt ''cache_creation_input_tokens'' (map_option jnat (cache_write_tokens u))
     (put_opt ''input_tokens'' (if prompt_tokens u > 0 then Some (jnat (prompt_tokens u)) else None)
     (object_of [(''output_tokens'', jnat (completion_tokens u))])))"

definition usage_delta :: "(json \<Rightarrow> string) \<Rightarrow> Usage \<Rightarrow> string option \<Rightarrow> string" where
  "usage_delta display u stop = message_delta display stop (messages_usage_object u)"

fun stop_reason_str :: "FinishReason \<Rightarrow> string" where
  "stop_reason_str Length = ''max_tokens''"
| "stop_reason_str ToolCalls = ''tool_use''"
| "stop_reason_str _ = ''end_turn''"

definition messages_error_object :: "string \<Rightarrow> ErrorClass \<Rightarrow> json" where
  "messages_error_object message cls = object_of [(''type'', JString ''error''),
     (''error'', object_of [(''type'', JString (messages_error_type cls)), (''message'', JString message)])]"

definition message_start :: "string \<Rightarrow> json" where
  "message_start i = object_of [(''type'', JString ''message_start''),
     (''message'', object_of [(''id'', JString i), (''type'', JString ''message''), (''role'', JString ''assistant''),
        (''model'', JString []), (''content'', JArray [])])]"

fun messages_encode_part :: "(json \<Rightarrow> string) \<Rightarrow> MessagesStreamEncoder \<Rightarrow> StreamPart \<Rightarrow>
    string \<times> MessagesStreamEncoder" where
  "messages_encode_part display e (ResponseStarted i) =
     (event_frame ''message_start'' (display (message_start i)), e\<lparr>me_message_started := True\<rparr>)"
| "messages_encode_part display e (TextDelta text) =
     (let (out, e1) = ensure_block display ''text''
            (object_of [(''type'', JString ''text''), (''text'', JString [])]) e
      in (out @ block_delta display e1 (text_delta text), e1))"
| "messages_encode_part display e (ReasoningDelta text _ _) =
     (let (out, e1) = ensure_block display ''thinking''
            (object_of [(''type'', JString ''thinking''), (''thinking'', JString [])]) e
      in (out @ block_delta display e1 (thinking_delta text), e1))"
| "messages_encode_part display e (ToolCallDelta i name arguments _ _ _) = (case name of
     Some n \<Rightarrow>
       let (out, e1) = reopen_block display ''tool_use'' (tool_use_block i n) e
       in (out @ (if arguments = [] then [] else block_delta display e1 (input_json_delta arguments)), e1)
   | None \<Rightarrow> (block_delta display e (input_json_delta arguments), e))"
| "messages_encode_part display e (ProgramDelta _ _ _ _) = ([], e)"
| "messages_encode_part display e (ProgramOutputDelta _ _ _ _) = ([], e)"
| "messages_encode_part display e (Usage_part u) =
     (usage_delta display u (me_pending_stop_reason e),
      e\<lparr>me_last_usage := Some u, me_pending_stop_reason := None\<rparr>)"
| "messages_encode_part display e (Finish reason) =
     (let (out, e1) = close_block display e in
      case me_last_usage e1 of
        Some u \<Rightarrow> (out @ usage_delta display u (Some (stop_reason_str reason)), e1)
      | None \<Rightarrow> (out, e1\<lparr>me_pending_stop_reason := Some (stop_reason_str reason)\<rparr>))"
| "messages_encode_part display e (ResponseCompleted _ _ _ _) =
     (let (out, e1) = close_block display e;
          pending = (case me_pending_stop_reason e1 of
            Some r \<Rightarrow> message_delta display (Some r) (object_of [(''output_tokens'', jnat 0)])
          | None \<Rightarrow> [])
      in (out @ pending @ event_frame ''message_stop'' (display (object_of [(''type'', JString ''message_stop'')])),
          e1\<lparr>me_pending_stop_reason := None\<rparr>))"
| "messages_encode_part display e (Error_part message cls _) =
     (event_frame ''error'' (display (messages_error_object message cls)), e)"

definition messages_encode_error :: "(json \<Rightarrow> string) \<Rightarrow> string \<Rightarrow> ErrorClass \<Rightarrow> string" where
  "messages_encode_error display message cls = event_frame ''error'' (display (messages_error_object message cls))"

definition messages_encode_done :: string where
  "messages_encode_done = event_frame ''message_stop'' (''{'' @ [CHR 0x22] @ ''type'' @ [CHR 0x22] @ '':'' @
     [CHR 0x22] @ ''message_stop'' @ [CHR 0x22] @ ''}'')"


subsection \<open>The decoder\<close>

record MessagesStreamDecoder =
  md_response_id :: "string option"
  md_current_block_type :: "string option"
  md_tool_use_ids :: "string list"
  md_saw_finish :: bool
  md_saw_tool_use :: bool
  md_usage_acc :: "Usage option"

definition MessagesStreamDecoder_new :: MessagesStreamDecoder where
  "MessagesStreamDecoder_new = \<lparr>md_response_id = None, md_current_block_type = None, md_tool_use_ids = [],
     md_saw_finish = False, md_saw_tool_use = False, md_usage_acc = None\<rparr>"

definition set_tool_use_id :: "nat \<Rightarrow> string \<Rightarrow> MessagesStreamDecoder \<Rightarrow> MessagesStreamDecoder rust" where
  "set_tool_use_id i v d = bind_rust (resize_slots 24 [] i (md_tool_use_ids d)) (\<lambda>slots.
     Inr (d\<lparr>md_tool_use_ids := slots[i := v]\<rparr>))"

definition tool_use_id :: "nat \<Rightarrow> MessagesStreamDecoder \<Rightarrow> string" where
  "tool_use_id i d = (if i < length (md_tool_use_ids d) then md_tool_use_ids d ! i else [])"

definition merged_usage :: "Usage \<Rightarrow> Usage \<Rightarrow> Usage" where
  "merged_usage old incoming =
     (let prompt = (if prompt_tokens incoming > 0 \<or> prompt_tokens old = 0 then prompt_tokens incoming
            else prompt_tokens old);
          completion = (if completion_tokens incoming > 0 \<or> completion_tokens old = 0
            then completion_tokens incoming else completion_tokens old);
          cache_read = (if cache_read_tokens incoming \<noteq> None then cache_read_tokens incoming else cache_read_tokens old);
          cache_write = (if cache_write_tokens incoming \<noteq> None then cache_write_tokens incoming
            else cache_write_tokens old)
      in \<lparr>prompt_tokens = prompt, completion_tokens = completion,
          reasoning_tokens = (if reasoning_tokens incoming \<noteq> None then reasoning_tokens incoming
            else reasoning_tokens old),
          cache_read_tokens = cache_read, cache_write_tokens = cache_write,
          total_tokens = add_u64 (add_u64 (add_u64 prompt (unwrap_or cache_write 0)) (unwrap_or cache_read 0)) completion\<rparr>)"

definition merge_usage :: "Usage \<Rightarrow> MessagesStreamDecoder \<Rightarrow> Usage \<times> MessagesStreamDecoder" where
  "merge_usage incoming d =
     (let merged = merged_usage (unwrap_or (md_usage_acc d) Usage_default) incoming
      in (merged, d\<lparr>md_usage_acc := Some merged\<rparr>))"

definition get_u64 :: "json \<Rightarrow> string \<Rightarrow> nat" where
  "get_u64 u k = unwrap_or (Option.bind (get u k) as_u64) 0"

definition messages_usage :: "json \<Rightarrow> Usage" where
  "messages_usage u =
     (let input = get_u64 u ''input_tokens''; output = get_u64 u ''output_tokens'';
          cache_creation = get_u64 u ''cache_creation_input_tokens'';
          cache_read = get_u64 u ''cache_read_input_tokens''
      in \<lparr>prompt_tokens = input, completion_tokens = output,
          reasoning_tokens = Option.bind (Option.bind (get u ''output_tokens_details'')
            (\<lambda>v. get v ''thinking_tokens'')) as_u64,
          cache_read_tokens = (if get u ''cache_read_input_tokens'' \<noteq> None then Some cache_read else None),
          cache_write_tokens = (if get u ''cache_creation_input_tokens'' \<noteq> None then Some cache_creation else None),
          total_tokens = add_u64 (add_u64 (add_u64 input cache_creation) cache_read) output\<rparr>)"

definition usage_event :: "json \<Rightarrow> MessagesStreamDecoder \<Rightarrow> StreamPart list \<times> MessagesStreamDecoder" where
  "usage_event u d = (case as_object u of
     Some _ \<Rightarrow> let (merged, d') = merge_usage (messages_usage u) d in ([Usage_part merged], d')
   | None \<Rightarrow> ([], d))"

definition on_message_start :: "json \<Rightarrow> MessagesStreamDecoder \<Rightarrow> StreamPart list \<times> MessagesStreamDecoder" where
  "on_message_start ev d =
     (let (ps, d1) = (case as_str (idx (idx ev ''message'') ''id'') of
            Some i \<Rightarrow> ([ResponseStarted i], d\<lparr>md_response_id := Some i\<rparr>) | None \<Rightarrow> ([], d));
          (us, d2) = usage_event (idx (idx ev ''message'') ''usage'') d1
      in (ps @ us, d2))"

definition on_block_start :: "json \<Rightarrow> MessagesStreamDecoder \<Rightarrow> (StreamPart list \<times> MessagesStreamDecoder) rust" where
  "on_block_start ev d =
     (let block = idx ev ''content_block''; i = unwrap_or (as_u64 (idx ev ''index'')) 0;
          kind = as_str (idx block ''type''); d1 = d\<lparr>md_current_block_type := kind\<rparr>
      in if kind = Some ''tool_use'' then
           let tid = unwrap_or (as_str (idx block ''id'')) []
           in bind_rust (set_tool_use_id i tid (d1\<lparr>md_saw_tool_use := True\<rparr>)) (\<lambda>d2.
                Inr ([ToolCallDelta tid (as_str (idx block ''name'')) [] None None None], d2))
         else if kind = Some ''text'' then
           Inr (case as_str (idx block ''text'') of Some t \<Rightarrow> [TextDelta t] | None \<Rightarrow> [], d1)
         else if kind = Some ''thinking'' then
           Inr (case as_str (idx block ''thinking'') of Some t \<Rightarrow> [ReasoningDelta t None None] | None \<Rightarrow> [], d1)
         else Inr ([], d1))"

definition on_block_delta :: "json \<Rightarrow> MessagesStreamDecoder \<Rightarrow> StreamPart list" where
  "on_block_delta ev d =
     (let delta = idx ev ''delta''; i = unwrap_or (as_u64 (idx ev ''index'')) 0; kind = as_str (idx delta ''type'')
      in if kind = Some ''text_delta'' then
           (case as_str (idx delta ''text'') of Some t \<Rightarrow> [TextDelta t] | None \<Rightarrow> [])
         else if kind = Some ''thinking_delta'' then
           (case as_str (idx delta ''thinking'') of Some t \<Rightarrow> [ReasoningDelta t None None] | None \<Rightarrow> [])
         else if kind = Some ''input_json_delta'' then
           (case as_str (idx delta ''partial_json'') of
              Some s \<Rightarrow> [ToolCallDelta (tool_use_id i d) None s None None None] | None \<Rightarrow> [])
         else [])"

definition stop_reason_of :: "string \<Rightarrow> FinishReason" where
  "stop_reason_of r =
     (if r = ''end_turn'' then Stop else if r = ''stop_sequence'' then Stop
      else if r = ''max_tokens'' then Length else if r = ''tool_use'' then ToolCalls else Other_reason r)"

definition on_message_delta :: "json \<Rightarrow> MessagesStreamDecoder \<Rightarrow> StreamPart list \<times> MessagesStreamDecoder" where
  "on_message_delta ev d =
     (let (us, d1) = usage_event (idx ev ''usage'') d in
      case as_str (idx (idx ev ''delta'') ''stop_reason'') of
        Some r \<Rightarrow> (us @ [Finish (stop_reason_of r)], d1\<lparr>md_saw_finish := True\<rparr>)
      | None \<Rightarrow> (us, d1))"

definition on_message_stop :: "MessagesStreamDecoder \<Rightarrow> StreamPart list \<times> MessagesStreamDecoder" where
  "on_message_stop d =
     ((if md_saw_finish d then [] else [Finish (if md_saw_tool_use d then ToolCalls else Stop)]) @
      [ResponseCompleted (unwrap_or (md_response_id d) []) ''completed'' None []], d\<lparr>md_saw_finish := True\<rparr>)"

definition on_messages_error :: "json \<Rightarrow> StreamPart" where
  "on_messages_error ev =
     (let code = as_str (idx (idx ev ''error'') ''type'')
      in Error_part (unwrap_or (as_str (idx (idx ev ''error'') ''message'')) ''Unknown error'')
           (classify_upstream_error None code) code)"

definition feed_event :: "json \<Rightarrow> MessagesStreamDecoder \<Rightarrow> (StreamPart list \<times> MessagesStreamDecoder) rust" where
  "feed_event ev d =
     (let kind = as_str (idx ev ''type'') in
      if kind = Some ''message_start'' then Inr (on_message_start ev d)
      else if kind = Some ''content_block_start'' then on_block_start ev d
      else if kind = Some ''content_block_delta'' then Inr (on_block_delta ev d, d)
      else if kind = Some ''content_block_stop'' then Inr ([], d\<lparr>md_current_block_type := None\<rparr>)
      else if kind = Some ''message_delta'' then Inr (on_message_delta ev d)
      else if kind = Some ''message_stop'' then Inr (on_message_stop d)
      else if kind = Some ''error'' then Inr ([on_messages_error ev], d)
      else Inr ([], d))"

definition messages_feed :: "(string \<Rightarrow> json option) \<Rightarrow> MessagesStreamDecoder \<Rightarrow> string \<Rightarrow>
    MessagesStreamDecoder reading" where
  "messages_feed from_str d line =
     (case strip_prefix data_prefix (trim line) of
        None \<Rightarrow> Inr (Inr [], d)
      | Some dat \<Rightarrow>
          (case from_str dat of
             None \<Rightarrow> Inr (Inl (Codec ''Failed to parse Anthropic SSE''), d)
           | Some ev \<Rightarrow> bind_rust (feed_event ev d) (\<lambda>(ps, d'). Inr (Inr ps, d'))))"

definition messages_finish :: "StreamPart list" where
  "messages_finish = []"


subsection \<open>Reading the events of the encoder\<close>

lemma messages_feed_blank [simp]: "messages_feed from_str d [] = Inr (Inr [], d)"
  by (simp add: messages_feed_def trim_def strip_prefix_def data_prefix_def)

definition plain_name :: "string \<Rightarrow> bool" where
  "plain_name name \<longleftrightarrow> name \<noteq> [] \<and> \<not> is_whitespace (last name) \<and> LF \<notin> set name"

lemma event_names [simp]:
  "plain_name ''message_start''" "plain_name ''message_stop''" "plain_name ''message_delta''"
  "plain_name ''content_block_start''" "plain_name ''content_block_delta''" "plain_name ''content_block_stop''"
  "plain_name ''error''"
  by (simp_all add: plain_name_def is_whitespace_def byte_def)

lemma event_line:
  assumes "plain_name name"
  shows "messages_feed from_str d (''event: '' @ name) = Inr (Inr [], d)"
proof -
  have "trim (''event: '' @ name) = ''event: '' @ name"
    using assms by (intro trim_id) (simp_all add: plain_name_def, simp add: is_whitespace_def byte_def)
  then show ?thesis by (simp add: messages_feed_def strip_prefix_def data_prefix_def)
qed

lemma reads_event:
  assumes "json_text from_str display" and "wf_json v" and "feed_event v d = Inr (ps, d')"
    and "plain_name name"
  shows "reads (messages_feed from_str) d (event_frame name (display v)) ps d'"
proof -
  note fl = frame_line [OF assms(1,2)]
  have "messages_feed from_str d (data_prefix @ display v) = Inr (Inr ps, d')"
    using fl assms(3) by (simp add: messages_feed_def)
  then have "reads (messages_feed from_str) d (sse_frame (display v)) ps d'"
    by (intro reads_frame fl(4)) simp_all
  from reads_skip [OF _ event_line [OF assms(4)] this] assms(4)
  show ?thesis by (simp add: event_frame_def plain_name_def)
qed

lemma wf_jopt [simp]: "wf_json (jopt JString x)"
  by (simp add: jopt_def split: option.split)

lemma reads_close:
  assumes "json_text from_str display" and "close_block display e = (b, e')"
  shows "\<exists>t. reads (messages_feed from_str) d b [] (d\<lparr>md_current_block_type := t\<rparr>)"
    and "me_current_index e' = None" and "e' = e \<or> e' = e\<lparr>me_current_index := None, me_current_kind := None\<rparr>"
proof -
  show "\<exists>t. reads (messages_feed from_str) d b [] (d\<lparr>md_current_block_type := t\<rparr>)"
  proof (cases "me_current_index e")
    case None
    with assms(2) show ?thesis by (auto simp: close_block_def intro!: exI [of _ "md_current_block_type d"])
  next
    case (Some i)
    let ?v = "object_of [(''type'', JString ''content_block_stop''), (''index'', jnat i)]"
    have "wf_json ?v" "feed_event ?v d = Inr ([], d\<lparr>md_current_block_type := None\<rparr>)"
      by (simp_all add: wf_object_of feed_event_def)
    from reads_event [OF assms(1) this, of "''content_block_stop''"] assms(2) Some show ?thesis
      by (auto simp: close_block_def)
  qed
qed (use assms(2) in \<open>auto simp: close_block_def split: option.splits\<close>)

lemma reads_delta:
  assumes "json_text from_str display" and "wf_json delta"
  shows "reads (messages_feed from_str) d (block_delta display e delta)
    (on_block_delta (object_of [(''index'', jnat (unwrap_or (me_current_index e) 0)), (''delta'', delta)]) d) d"
proof -
  let ?v = "object_of [(''type'', JString ''content_block_delta''),
    (''index'', jnat (unwrap_or (me_current_index e) 0)), (''delta'', delta)]"
  have "wf_json ?v" using assms(2) by (simp add: wf_object_of)
  moreover have "feed_event ?v d =
      Inr (on_block_delta (object_of [(''index'', jnat (unwrap_or (me_current_index e) 0)), (''delta'', delta)]) d, d)"
    by (simp add: feed_event_def on_block_delta_def Let_def)
  ultimately show ?thesis unfolding block_delta_def by (rule reads_event [OF assms(1)]) simp_all
qed

lemma delta_parts:
  "wf_json (text_delta t)" "wf_json (thinking_delta t)" "wf_json (input_json_delta t)"
  "on_block_delta (object_of [(''index'', jnat i), (''delta'', text_delta t)]) d = [TextDelta t]"
  "on_block_delta (object_of [(''index'', jnat i), (''delta'', thinking_delta t)]) d = [ReasoningDelta t None None]"
  "on_block_delta (object_of [(''index'', jnat i), (''delta'', input_json_delta t)]) d =
     [ToolCallDelta (tool_use_id i d) None t None None None]"
  by (simp_all add: text_delta_def thinking_delta_def input_json_delta_def wf_object_of on_block_delta_def Let_def)

lemma reads_open:
  assumes "json_text from_str display" and "wf_json block" and "open_block display kind block e = (b, e')"
    and "on_block_start (object_of [(''index'', jnat (me_next_index e)), (''content_block'', block)]) d = Inr (ps, d')"
  shows "reads (messages_feed from_str) d b ps d'"
proof -
  let ?v = "object_of [(''type'', JString ''content_block_start''),
    (''index'', jnat (me_next_index e)), (''content_block'', block)]"
  have "wf_json ?v" using assms(2) by (simp add: wf_object_of)
  moreover have "feed_event ?v d = Inr (ps, d')"
    using assms(4) by (simp add: feed_event_def on_block_start_def Let_def)
  ultimately show ?thesis using reads_event [OF assms(1), of ?v d ps d' "''content_block_start''"] assms(3)
    by (simp add: open_block_def Let_def)
qed

lemma reads_message_delta:
  assumes "json_text from_str display" and "wf_json u" and "is_object u"
  shows "reads (messages_feed from_str) d (message_delta display stop u)
    (Usage_part (merged_usage (unwrap_or (md_usage_acc d) Usage_default) (messages_usage u)) #
      (case stop of Some r \<Rightarrow> [Finish (stop_reason_of r)] | None \<Rightarrow> []))
    (d\<lparr>md_usage_acc := Some (merged_usage (unwrap_or (md_usage_acc d) Usage_default) (messages_usage u)),
       md_saw_finish := md_saw_finish d \<or> stop \<noteq> None\<rparr>)"
proof -
  let ?v = "object_of [(''type'', JString ''message_delta''),
      (''delta'', object_of [(''stop_reason'', jopt JString stop), (''stop_sequence'', JNull)]), (''usage'', u)]"
  have wf: "wf_json ?v" using assms(2) by (simp add: wf_object_of)
  obtain kvs where kvs: "as_object u = Some kvs" using assms(3) by blast
  have f: "feed_event ?v d = Inr (on_message_delta ?v d)" by (simp add: feed_event_def)
  have u: "idx ?v ''usage'' = u" "idx (idx ?v ''delta'') ''stop_reason'' = jopt JString stop" by simp_all
  have "on_message_delta ?v d =
     (Usage_part (merged_usage (unwrap_or (md_usage_acc d) Usage_default) (messages_usage u)) #
      (case stop of Some r \<Rightarrow> [Finish (stop_reason_of r)] | None \<Rightarrow> []),
      d\<lparr>md_usage_acc := Some (merged_usage (unwrap_or (md_usage_acc d) Usage_default) (messages_usage u)),
       md_saw_finish := md_saw_finish d \<or> stop \<noteq> None\<rparr>)"
    unfolding on_message_delta_def u usage_event_def kvs merge_usage_def by (cases stop) (simp_all add: Let_def)
  from reads_event [OF assms(1) wf f [unfolded this]] show ?thesis by (simp add: message_delta_def)
qed

text \<open>Usage: the protocol has no reasoning tokens, and the reader computes the total.\<close>

definition wire_usage :: "Usage \<Rightarrow> Usage" where
  "wire_usage u = \<lparr>prompt_tokens = prompt_tokens u, completion_tokens = completion_tokens u, reasoning_tokens = None,
     cache_read_tokens = cache_read_tokens u, cache_write_tokens = cache_write_tokens u, total_tokens = usage_total u\<rparr>"

lemma get_usage_object:
  "get (messages_usage_object u) ''output_tokens'' = Some (jnat (completion_tokens u))"
  "get (messages_usage_object u) ''input_tokens'' = (if prompt_tokens u > 0 then Some (jnat (prompt_tokens u)) else None)"
  "get (messages_usage_object u) ''cache_read_input_tokens'' = map_option jnat (cache_read_tokens u)"
  "get (messages_usage_object u) ''cache_creation_input_tokens'' = map_option jnat (cache_write_tokens u)"
  "get (messages_usage_object u) ''output_tokens_details'' = None"
  "wf_json (messages_usage_object u)" "is_object (messages_usage_object u)"
  by (simp_all add: messages_usage_object_def get_put_opt get_object_of wf_object_of put_opt_def split: option.split)

lemma usage_read:
  assumes "usage_fits u"
  shows "messages_usage (messages_usage_object u) = wire_usage u"
    and "merged_usage Usage_default (wire_usage u) = wire_usage u"
    and "merged_usage (wire_usage u) (wire_usage u) = wire_usage u"
proof -
  have *: "add_u64 (add_u64 (add_u64 (prompt_tokens u) (unwrap_or (cache_write_tokens u) 0))
      (unwrap_or (cache_read_tokens u) 0)) (completion_tokens u) = usage_total u"
    using assms by (simp add: usage_fits_def usage_total_def)
  have "get_u64 (messages_usage_object u) ''input_tokens'' = prompt_tokens u"
    "get_u64 (messages_usage_object u) ''output_tokens'' = completion_tokens u"
    "get_u64 (messages_usage_object u) ''cache_creation_input_tokens'' = unwrap_or (cache_write_tokens u) 0"
    "get_u64 (messages_usage_object u) ''cache_read_input_tokens'' = unwrap_or (cache_read_tokens u) 0"
    by (cases "cache_write_tokens u"; cases "cache_read_tokens u"; simp add: get_u64_def get_usage_object)+
  then show "messages_usage (messages_usage_object u) = wire_usage u" using *
    by (cases "cache_write_tokens u"; cases "cache_read_tokens u")
      (simp_all add: messages_usage_def get_usage_object wire_usage_def Let_def)
  show "merged_usage Usage_default (wire_usage u) = wire_usage u" "merged_usage (wire_usage u) (wire_usage u) = wire_usage u"
    using * by (cases "cache_write_tokens u"; cases "cache_read_tokens u";
      simp add: merged_usage_def Usage_default_def wire_usage_def)+
qed


subsection \<open>The round trip\<close>

fun messages_reason :: "FinishReason \<Rightarrow> FinishReason" where
  "messages_reason Length = Length"
| "messages_reason ToolCalls = ToolCalls"
| "messages_reason _ = Stop"

lemma stop_reason_read: "stop_reason_of (stop_reason_str r) = messages_reason r"
  by (cases r) (simp_all add: stop_reason_of_def)

text \<open>The call whose block is open after some parts.\<close>

fun call_after :: "StreamPart \<Rightarrow> string option \<Rightarrow> string option" where
  "call_after (ToolCallDelta i (Some _) _ _ _ _) c = Some i"
| "call_after (TextDelta _) c = None"
| "call_after (ReasoningDelta _ _ _) c = None"
| "call_after (Finish _) c = None"
| "call_after (ResponseCompleted _ _ _ _) c = None"
| "call_after _ c = c"

definition open_call :: "StreamPart list \<Rightarrow> string option" where
  "open_call ps = fold call_after ps None"

lemma open_call_simps [simp]: "open_call [] = None" "open_call (ps @ [p]) = call_after p (open_call ps)"
  by (simp_all add: open_call_def)

text \<open>
  What a stream may have next: arguments belong to the call whose block is open, and there is one usage and
  one finish reason.
\<close>

fun messages_part :: "StreamPart list \<Rightarrow> StreamPart \<Rightarrow> bool" where
  "messages_part ps (ToolCallDelta i None _ _ _ _) \<longleftrightarrow> open_call ps = Some i"
| "messages_part ps (Usage_part u) \<longleftrightarrow> usages_of ps = [] \<and> usage_fits u"
| "messages_part ps (Finish _) \<longleftrightarrow> finishes_of ps = []"
| "messages_part ps (ResponseStarted _) \<longleftrightarrow> ps = []"
| "messages_part ps (ResponseCompleted _ _ _ _) \<longleftrightarrow> finishes_of ps \<noteq> []"
| "messages_part ps _ \<longleftrightarrow> True"

definition messages_admits :: "StreamPart list \<Rightarrow> StreamPart \<Rightarrow> bool" where
  "messages_admits ps p \<longleftrightarrow> completed_of ps = [] \<and> 24 * (length ps + 1) < 2 ^ 63 \<and> messages_part ps p"

text \<open>The blocks: the reader knows the call of the block that the writer has open.\<close>

definition blocks_sync :: "StreamPart list \<Rightarrow> MessagesStreamEncoder \<Rightarrow> MessagesStreamDecoder \<Rightarrow> bool" where
  "blocks_sync ps e d \<longleftrightarrow> me_next_index e \<le> length ps \<and> length (md_tool_use_ids d) \<le> me_next_index e \<and>
     (\<forall>i. open_call ps = Some i \<longrightarrow> (\<exists>n. me_current_index e = Some n \<and> n < length (md_tool_use_ids d) \<and>
        md_tool_use_ids d ! n = i))"

text \<open>Usage and finish: the finish waits for the usage.\<close>

definition waiting :: "StreamPart list \<Rightarrow> bool" where
  "waiting ps \<longleftrightarrow> finishes_of ps \<noteq> [] \<and> usages_of ps = [] \<and> completed_of ps = []"

definition end_sync :: "StreamPart list \<Rightarrow> MessagesStreamEncoder \<Rightarrow> MessagesStreamDecoder \<Rightarrow> bool" where
  "end_sync ps e d \<longleftrightarrow>
     me_last_usage e = (case usages_of ps of [] \<Rightarrow> None | u # _ \<Rightarrow> Some u) \<and>
     me_pending_stop_reason e = (if waiting ps then Some (stop_reason_str (hd (finishes_of ps))) else None) \<and>
     md_saw_finish d = (finishes_of ps \<noteq> [] \<and> \<not> waiting ps) \<and>
     (completed_of ps = [] \<longrightarrow> md_usage_acc d = map_option wire_usage (me_last_usage e)) \<and>
     (\<forall>u\<in>set (usages_of ps). usage_fits u) \<and> length (finishes_of ps) \<le> 1"

text \<open>
  What has been read: the dialogue, the usage (read once or twice, and made up as zero at the end of a stream
  without one), the finish reason when it no longer waits, and the id at the end.
\<close>

definition messages_content :: "StreamPart list \<Rightarrow> StreamPart list \<Rightarrow> bool" where
  "messages_content ps qs \<longleftrightarrow> same_dialogue ps qs \<and>
     (case usages_of ps of
        [] \<Rightarrow> set (usages_of qs) \<subseteq> (if completed_of ps = [] then {} else {Usage_default})
      | u # _ \<Rightarrow> set (usages_of qs) = {wire_usage u}) \<and>
     finishes_of qs = (if waiting ps then [] else map messages_reason (finishes_of ps)) \<and>
     completed_of qs = map (\<lambda>_. unwrap_or (first_id ps) []) (completed_of ps)"

definition messages_carries :: "(string \<Rightarrow> json option) \<Rightarrow> (json \<Rightarrow> string) \<Rightarrow> StreamPart list \<Rightarrow> StreamPart list \<Rightarrow>
    MessagesStreamEncoder \<Rightarrow> MessagesStreamDecoder \<Rightarrow> bool" where
  "messages_carries from_str display ps qs e d \<longleftrightarrow> json_text from_str display \<and> messages_content ps qs \<and>
     blocks_sync ps e d \<and> end_sync ps e d \<and> md_response_id d = first_id ps"

text \<open>Parts that neither end the stream nor change the usage.\<close>

fun dialogue_part :: "StreamPart \<Rightarrow> bool" where
  "dialogue_part (Usage_part _) \<longleftrightarrow> False"
| "dialogue_part (Finish _) \<longleftrightarrow> False"
| "dialogue_part (ResponseStarted _) \<longleftrightarrow> False"
| "dialogue_part (ResponseCompleted _ _ _ _) \<longleftrightarrow> False"
| "dialogue_part _ \<longleftrightarrow> True"

lemma dialogue_part_gathered:
  assumes "dialogue_part p"
  shows "usages_of [p] = []" "finishes_of [p] = []" "completed_of [p] = []" "started_of [p] = []"
    "first_id (ps @ [p]) = first_id ps"
  using assms by (cases p; simp add: first_id_snoc)+

definition same_end :: "MessagesStreamEncoder \<Rightarrow> MessagesStreamEncoder \<Rightarrow> MessagesStreamDecoder \<Rightarrow>
    MessagesStreamDecoder \<Rightarrow> bool" where
  "same_end e e' d d' \<longleftrightarrow> me_last_usage e' = me_last_usage e \<and> me_pending_stop_reason e' = me_pending_stop_reason e \<and>
     md_saw_finish d' = md_saw_finish d \<and> md_usage_acc d' = md_usage_acc d \<and> md_response_id d' = md_response_id d"

lemma dialogue_parts_gathered:
  assumes "\<forall>r\<in>set rs. dialogue_part r"
  shows "usages_of rs = []" "finishes_of rs = []" "completed_of rs = []"
proof -
  show "usages_of rs = []" using assms by (induction rs rule: usages_of.induct) simp_all
  show "finishes_of rs = []" using assms by (induction rs rule: finishes_of.induct) simp_all
  show "completed_of rs = []" using assms by (induction rs rule: completed_of.induct) simp_all
qed

lemma dialogue_carried:
  assumes "messages_carries from_str display ps qs e d" and "dialogue_part p"
    and "same_dialogue [p] rs" and "\<forall>r\<in>set rs. dialogue_part r" and "same_end e e' d d'"
    and "blocks_sync (ps @ [p]) e' d'"
  shows "messages_carries from_str display (ps @ [p]) (qs @ rs) e' d'"
proof -
  note rs = dialogue_parts_gathered [OF assms(4)]
  note p = dialogue_part_gathered [OF assms(2)]
  have "waiting (ps @ [p]) = waiting ps" using p by (simp add: waiting_def)
  with assms p rs show ?thesis
    by (auto simp: messages_carries_def messages_content_def end_sync_def same_end_def same_dialogue_append
        split: list.splits)
qed


lemma reads_reopen:
  assumes "json_text from_str display" and "wf_json block" and "reopen_block display kind block e = (b, e')"
    and "\<And>t. \<exists>d'. on_block_start (object_of [(''index'', jnat (me_next_index e)), (''content_block'', block)])
      (d\<lparr>md_current_block_type := t\<rparr>) = Inr (ps, d') \<and> P d'"
  shows "\<exists>d'. reads (messages_feed from_str) d b ps d' \<and> P d'" and "me_current_index e' = Some (me_next_index e)"
    and "me_next_index e' = add_u64 (me_next_index e) 1"
    and "me_last_usage e' = me_last_usage e" and "me_pending_stop_reason e' = me_pending_stop_reason e"
proof -
  obtain b1 e1 where c: "close_block display e = (b1, e1)" by fastforce
  obtain b2 where o: "open_block display kind block e1 = (b2, e')" and b: "b = b1 @ b2"
    using assms(3) c by (auto simp: reopen_block_def split: prod.splits)
  note rc = reads_close [OF assms(1) c]
  have n: "me_next_index e1 = me_next_index e" using rc(3) by auto
  obtain t where t: "reads (messages_feed from_str) d b1 [] (d\<lparr>md_current_block_type := t\<rparr>)"
    using rc(1) [of d] by blast
  obtain d' where d': "on_block_start (object_of [(''index'', jnat (me_next_index e1)), (''content_block'', block)])
      (d\<lparr>md_current_block_type := t\<rparr>) = Inr (ps, d')" "P d'" using assms(4) [of t] n by auto
  from reads_append [OF t reads_open [OF assms(1,2) o d'(1)]] d'(2) b
  show "\<exists>d'. reads (messages_feed from_str) d b ps d' \<and> P d'" by auto
  show "me_current_index e' = Some (me_next_index e)" "me_next_index e' = add_u64 (me_next_index e) 1"
    "me_last_usage e' = me_last_usage e" "me_pending_stop_reason e' = me_pending_stop_reason e"
    using o rc(3) by (auto simp: open_block_def Let_def)
qed

lemma reads_tool_use:
  assumes "json_text from_str display" and "reopen_block display ''tool_use'' (tool_use_block i n) e = (b, e')"
    and "length (md_tool_use_ids d) \<le> me_next_index e" and "24 * (me_next_index e + 1) < 2 ^ 63"
  shows "\<exists>d'. reads (messages_feed from_str) d b [ToolCallDelta i (Some n) [] None None None] d' \<and>
      same_end e e' d d' \<and> length (md_tool_use_ids d') = me_next_index e + 1 \<and>
      md_tool_use_ids d' ! me_next_index e = i"
    and "me_current_index e' = Some (me_next_index e)" and "me_next_index e' = me_next_index e + 1"
proof -
  let ?k = "me_next_index e" and ?block = "tool_use_block i n"
  have wf: "wf_json ?block" by (simp add: tool_use_block_def wf_object_of)
  have "\<exists>d'. on_block_start (object_of [(''index'', jnat ?k), (''content_block'', ?block)])
      (d\<lparr>md_current_block_type := t\<rparr>) = Inr ([ToolCallDelta i (Some n) [] None None None], d') \<and>
      (length (md_tool_use_ids d') = ?k + 1 \<and> md_tool_use_ids d' ! ?k = i \<and>
       md_saw_finish d' = md_saw_finish d \<and> md_usage_acc d' = md_usage_acc d \<and> md_response_id d' = md_response_id d)"
    for t
    using assms(3,4)
    by (simp add: on_block_start_def tool_use_block_def Let_def set_tool_use_id_def resize_slots_def)
  note r = reads_reopen [OF assms(1) wf assms(2) this]
  from r(1) obtain d' where d': "reads (messages_feed from_str) d b [ToolCallDelta i (Some n) [] None None None] d'"
    "length (md_tool_use_ids d') = ?k + 1" "md_tool_use_ids d' ! ?k = i"
    "md_saw_finish d' = md_saw_finish d" "md_usage_acc d' = md_usage_acc d" "md_response_id d' = md_response_id d"
    by blast
  with r(4,5) show "\<exists>d'. reads (messages_feed from_str) d b [ToolCallDelta i (Some n) [] None None None] d' \<and>
      same_end e e' d d' \<and> length (md_tool_use_ids d') = ?k + 1 \<and> md_tool_use_ids d' ! ?k = i"
    by (auto simp: same_end_def)
  show "me_current_index e' = Some ?k" by (rule r(2))
  show "me_next_index e' = ?k + 1" using r(3) assms(4) by simp
qed

lemma reads_ensure:
  assumes "json_text from_str display" and "wf_json block" and "ensure_block display kind block e = (b, e')"
    and "\<And>n d. on_block_start (object_of [(''index'', jnat n), (''content_block'', block)]) d =
      Inr (ps, d\<lparr>md_current_block_type := Some kind\<rparr>)"
    and "me_next_index e + 1 < 2 ^ 64"
  shows "\<exists>rs d'. reads (messages_feed from_str) d b rs d' \<and> rs \<in> {[], ps} \<and> same_end e e' d d' \<and>
    md_tool_use_ids d' = md_tool_use_ids d"
    and "me_next_index e \<le> me_next_index e'" and "me_next_index e' \<le> me_next_index e + 1"
proof -
  have "(\<exists>rs d'. reads (messages_feed from_str) d b rs d' \<and> rs \<in> {[], ps} \<and> same_end e e' d d' \<and>
    md_tool_use_ids d' = md_tool_use_ids d) \<and> me_next_index e \<le> me_next_index e' \<and> me_next_index e' \<le> me_next_index e + 1"
  proof (cases "me_current_kind e = Some kind")
    case True
    with assms(3) show ?thesis by (auto simp: ensure_block_def same_end_def)
  next
    case False
    with assms(3) have o: "reopen_block display kind block e = (b, e')" by (simp add: ensure_block_def)
    have "\<exists>d'. on_block_start (object_of [(''index'', jnat (me_next_index e)), (''content_block'', block)])
      (d\<lparr>md_current_block_type := t\<rparr>) = Inr (ps, d') \<and> d' = d\<lparr>md_current_block_type := Some kind\<rparr>" for t
      by (simp add: assms(4))
    note r = reads_reopen [OF assms(1,2) o this]
    from r(1) have "reads (messages_feed from_str) d b ps (d\<lparr>md_current_block_type := Some kind\<rparr>)" by blast
    with r(3-5) assms(5) show ?thesis
      by (intro conjI exI [of _ ps] exI [of _ "d\<lparr>md_current_block_type := Some kind\<rparr>"]) (auto simp: same_end_def)
  qed
  then show "\<exists>rs d'. reads (messages_feed from_str) d b rs d' \<and> rs \<in> {[], ps} \<and> same_end e e' d d' \<and>
    md_tool_use_ids d' = md_tool_use_ids d" "me_next_index e \<le> me_next_index e'" "me_next_index e' \<le> me_next_index e + 1"
    by blast+
qed

lemma text_step:
  assumes "messages_carries from_str display ps qs e d" and "messages_admits ps p"
    and "(p = TextDelta t \<and> kind = ''text'' \<and> dl = text_delta t) \<or>
      (p = ReasoningDelta t x y \<and> kind = ''thinking'' \<and> dl = thinking_delta t)"
    and "ensure_block display kind (object_of [(''type'', JString kind), (kind, JString [])]) e = (b, e')"
  shows "\<exists>rs d'. reads (messages_feed from_str) d (b @ block_delta display e' dl) rs d' \<and>
    messages_carries from_str display (ps @ [p]) (qs @ rs) e' d'"
proof -
  let ?block = "object_of [(''type'', JString kind), (kind, JString [])]"
  define opener where "opener = (if kind = ''text'' then [TextDelta []] else [ReasoningDelta [] None None])"
  define piece where "piece = (if kind = ''text'' then [TextDelta t] else [ReasoningDelta t None None])"
  have j: "json_text from_str display" and bs: "blocks_sync ps e d" using assms(1) by (simp_all add: messages_carries_def)
  have wf: "wf_json ?block" "wf_json dl" using assms(3) by (auto simp: wf_object_of delta_parts)
  have st: "on_block_start (object_of [(''index'', jnat n), (''content_block'', ?block)]) d =
      Inr (opener, d\<lparr>md_current_block_type := Some kind\<rparr>)" for n d
    using assms(3) by (auto simp: on_block_start_def Let_def opener_def)
  have bound: "me_next_index e + 1 < 2 ^ 64" using bs assms(2) by (simp add: blocks_sync_def messages_admits_def)
  note en = reads_ensure [OF j wf(1) assms(4) st bound]
  obtain rs d' where r: "reads (messages_feed from_str) d b rs d'" "rs \<in> {[], opener}" "same_end e e' d d'"
    "md_tool_use_ids d' = md_tool_use_ids d" using en(1) [of d] by blast
  have "on_block_delta (object_of [(''index'', jnat n), (''delta'', dl)]) d' = piece" for n
    using assms(3) by (auto simp: delta_parts piece_def)
  with reads_append [OF r(1) reads_delta [OF j wf(2)]]
  have read: "reads (messages_feed from_str) d (b @ block_delta display e' dl) (rs @ piece) d'" by simp
  have "blocks_sync (ps @ [p]) e' d'"
    using bs r(4) en(2,3) assms(3) by (auto simp: blocks_sync_def)
  moreover have "same_dialogue [p] (rs @ piece)" "\<forall>x\<in>set (rs @ piece). dialogue_part x" "dialogue_part p"
    using assms(3) r(2) by (auto simp: same_dialogue_def opener_def piece_def)
  ultimately have "messages_carries from_str display (ps @ [p]) (qs @ (rs @ piece)) e' d'"
    using dialogue_carried [OF assms(1) _ _ _ r(3)] by blast
  with read show ?thesis by blast
qed

lemma tool_step:
  assumes "messages_carries from_str display ps qs e d" and "messages_admits ps p"
    and "p = ToolCallDelta i name args w x y" and "messages_encode_part display e p = (b, e')"
  shows "\<exists>rs d'. reads (messages_feed from_str) d b rs d' \<and>
    messages_carries from_str display (ps @ [p]) (qs @ rs) e' d'"
proof -
  have j: "json_text from_str display" and bs: "blocks_sync ps e d" using assms(1) by (simp_all add: messages_carries_def)
  have p: "dialogue_part p" using assms(3) by simp
  note read = reads_delta [OF j delta_parts(3), of _ e' args, unfolded delta_parts(6)]
  show ?thesis
  proof (cases name)
    case None
    from assms(2,3) None have "open_call ps = Some i" by (simp add: messages_admits_def)
    with bs obtain n where n: "me_current_index e = Some n" "tool_use_id n d = i"
      by (auto simp: blocks_sync_def tool_use_id_def)
    have e: "e' = e" "b = block_delta display e (input_json_delta args)" using assms(3,4) None by auto
    have "messages_carries from_str display (ps @ [p]) (qs @ [ToolCallDelta i None args None None None]) e' d"
      by (rule dialogue_carried [OF assms(1) p])
        (use bs assms(3) None in \<open>auto simp: e same_dialogue_def same_end_def blocks_sync_def\<close>)
    moreover have "reads (messages_feed from_str) d b [ToolCallDelta i None args None None None] d"
      using read [of d] n by (simp add: e)
    ultimately show ?thesis by blast
  next
    case (Some nm)
    obtain b1 where o: "reopen_block display ''tool_use'' (tool_use_block i nm) e = (b1, e')"
      and b: "b = b1 @ (if args = [] then [] else block_delta display e' (input_json_delta args))"
      using assms(3,4) Some by (auto split: prod.splits)
    have bound: "length (md_tool_use_ids d) \<le> me_next_index e" "24 * (me_next_index e + 1) < 2 ^ 63"
      using bs assms(2) by (simp_all add: blocks_sync_def messages_admits_def)
    note t = reads_tool_use [OF j o bound]
    from t(1) obtain d' where d': "reads (messages_feed from_str) d b1 [ToolCallDelta i (Some nm) [] None None None] d'"
      "same_end e e' d d'" "length (md_tool_use_ids d') = me_next_index e + 1"
      "md_tool_use_ids d' ! me_next_index e = i" by blast
    define piece where "piece = (if args = [] then [] else [ToolCallDelta i None args None None None])"
    have "reads (messages_feed from_str) d' (if args = [] then [] else block_delta display e' (input_json_delta args)) piece d'"
      using read [of d'] d'(3,4) t(2) by (simp add: piece_def tool_use_id_def)
    from reads_append [OF d'(1) this]
    have rd: "reads (messages_feed from_str) d b (ToolCallDelta i (Some nm) [] None None None # piece) d'"
      by (simp add: b)
    have "messages_carries from_str display (ps @ [p]) (qs @ (ToolCallDelta i (Some nm) [] None None None # piece)) e' d'"
      by (rule dialogue_carried [OF assms(1) p _ _ d'(2)])
        (use bs assms(3) Some t(2,3) d'(3,4) in \<open>auto simp: same_dialogue_def blocks_sync_def piece_def\<close>)
    with rd show ?thesis by blast
  qed
qed

lemma error_step:
  assumes "messages_carries from_str display ps qs e d" and "p = Error_part m c code"
    and "messages_encode_part display e p = (b, e')"
  shows "\<exists>rs d'. reads (messages_feed from_str) d b rs d' \<and>
    messages_carries from_str display (ps @ [p]) (qs @ rs) e' d'"
proof -
  have j: "json_text from_str display" and bs: "blocks_sync ps e d" using assms(1) by (simp_all add: messages_carries_def)
  let ?v = "messages_error_object m c"
  have "wf_json ?v" "feed_event ?v d = Inr ([on_messages_error ?v], d)"
    by (simp_all add: messages_error_object_def wf_object_of feed_event_def)
  from reads_event [OF j this] assms(2,3) have "reads (messages_feed from_str) d b [on_messages_error ?v] d" by auto
  moreover have "messages_carries from_str display (ps @ [p]) (qs @ [on_messages_error ?v]) e' d"
    by (rule dialogue_carried [OF assms(1)])
      (use bs assms(2,3) in \<open>auto simp: on_messages_error_def messages_error_object_def Let_def same_dialogue_def
         same_end_def blocks_sync_def\<close>)
  ultimately show ?thesis by blast
qed

lemma started_step:
  assumes "messages_carries from_str display ps qs e d" and "messages_admits ps p" and "p = ResponseStarted i"
    and "messages_encode_part display e p = (b, e')"
  shows "\<exists>rs d'. reads (messages_feed from_str) d b rs d' \<and>
    messages_carries from_str display (ps @ [p]) (qs @ rs) e' d'"
proof -
  have j: "json_text from_str display" using assms(1) by (simp add: messages_carries_def)
  have ps: "ps = []" using assms(2,3) by (simp add: messages_admits_def)
  let ?v = "message_start i"
  have "wf_json ?v" "feed_event ?v d = Inr ([ResponseStarted i], d\<lparr>md_response_id := Some i\<rparr>)"
    by (simp_all add: message_start_def wf_object_of feed_event_def on_message_start_def usage_event_def)
  from reads_event [OF j this] assms(3,4)
  have "reads (messages_feed from_str) d b [ResponseStarted i] (d\<lparr>md_response_id := Some i\<rparr>)" by auto
  moreover have "messages_carries from_str display (ps @ [p]) (qs @ [ResponseStarted i]) e' (d\<lparr>md_response_id := Some i\<rparr>)"
    using assms(1,3,4) by (auto simp: ps messages_carries_def messages_content_def same_dialogue_def
        blocks_sync_def end_sync_def waiting_def open_call_def)
  ultimately show ?thesis by blast
qed

lemma usage_step:
  assumes "messages_carries from_str display ps qs e d" and "messages_admits ps p" and "p = Usage_part u"
    and "messages_encode_part display e p = (b, e')"
  shows "\<exists>rs d'. reads (messages_feed from_str) d b rs d' \<and>
    messages_carries from_str display (ps @ [p]) (qs @ rs) e' d'"
proof -
  have j: "json_text from_str display" and c: "messages_content ps qs" and bs: "blocks_sync ps e d"
    and es: "end_sync ps e d" and r: "md_response_id d = first_id ps"
    using assms(1) by (simp_all add: messages_carries_def)
  have a: "completed_of ps = []" "usages_of ps = []" "usage_fits u"
    using assms(2,3) by (simp_all add: messages_admits_def)
  let ?stop = "me_pending_stop_reason e"
  let ?rs = "Usage_part (wire_usage u) # (case ?stop of Some r \<Rightarrow> [Finish (stop_reason_of r)] | None \<Rightarrow> [])"
  let ?d = "d\<lparr>md_usage_acc := Some (wire_usage u), md_saw_finish := md_saw_finish d \<or> ?stop \<noteq> None\<rparr>"
  have acc: "md_usage_acc d = None" using es a by (simp add: end_sync_def)
  have "reads (messages_feed from_str) d b ?rs ?d"
    using reads_message_delta [OF j get_usage_object(6,7), of d ?stop u] assms(3,4) usage_read [OF a(3)] acc
    by (auto simp: usage_delta_def)
  moreover have "messages_carries from_str display (ps @ [p]) (qs @ ?rs) e' ?d"
  proof -
    have fid: "first_id (ps @ [p]) = first_id ps" using assms(3) by (simp add: first_id_snoc)
    have "messages_content (ps @ [p]) (qs @ ?rs)"
    proof (cases "finishes_of ps")
      case Nil
      then show ?thesis using c es a fid assms(3)
        by (auto simp: messages_content_def same_dialogue_def end_sync_def waiting_def)
    next
      case (Cons f fs)
      with es have "fs = []" by (simp add: end_sync_def)
      with Cons c es a fid assms(3) show ?thesis
        by (auto simp: messages_content_def same_dialogue_def end_sync_def waiting_def stop_reason_read)
    qed
    moreover have "end_sync (ps @ [p]) e' ?d" using es a assms(3,4) by (auto simp: end_sync_def waiting_def)
    moreover have "blocks_sync (ps @ [p]) e' ?d" using bs assms(3,4) by (auto simp: blocks_sync_def)
    ultimately show ?thesis using j r fid by (simp add: messages_carries_def)
  qed
  ultimately show ?thesis by blast
qed

lemma finish_step:
  assumes "messages_carries from_str display ps qs e d" and "messages_admits ps p" and "p = Finish f"
    and "messages_encode_part display e p = (b, e')"
  shows "\<exists>rs d'. reads (messages_feed from_str) d b rs d' \<and>
    messages_carries from_str display (ps @ [p]) (qs @ rs) e' d'"
proof -
  have j: "json_text from_str display" and c: "messages_content ps qs" and bs: "blocks_sync ps e d"
    and es: "end_sync ps e d" and r: "md_response_id d = first_id ps"
    using assms(1) by (simp_all add: messages_carries_def)
  have a: "completed_of ps = []" "finishes_of ps = []"
    using assms(2,3) by (simp_all add: messages_admits_def)
  have fid: "first_id (ps @ [p]) = first_id ps" using assms(3) by (simp add: first_id_snoc)
  obtain b1 e1 where cl: "close_block display e = (b1, e1)" by fastforce
  note rc = reads_close [OF j cl]
  obtain t where t: "reads (messages_feed from_str) d b1 [] (d\<lparr>md_current_block_type := t\<rparr>)" using rc(1) by blast
  have e1: "me_last_usage e1 = me_last_usage e" "me_next_index e1 = me_next_index e"
    "me_pending_stop_reason e1 = me_pending_stop_reason e" using rc(3) by auto
  show ?thesis
  proof (cases "usages_of ps")
    case Nil
    with es e1 have "me_last_usage e1 = None" by (simp add: end_sync_def)
    with assms(3,4) cl have e': "b = b1" "e' = e1\<lparr>me_pending_stop_reason := Some (stop_reason_str f)\<rparr>" by auto
    have "messages_carries from_str display (ps @ [p]) (qs @ []) e' (d\<lparr>md_current_block_type := t\<rparr>)"
      using j c bs es r a fid e1 e' assms(3) Nil
      by (auto simp: messages_carries_def messages_content_def same_dialogue_def blocks_sync_def end_sync_def waiting_def)
    with t e'(1) show ?thesis by blast
  next
    case (Cons u us)
    with es e1 have u: "me_last_usage e1 = Some u" "usage_fits u" "md_usage_acc d = Some (wire_usage u)"
      using a by (simp_all add: end_sync_def)
    with assms(3,4) cl have e': "b = b1 @ usage_delta display u (Some (stop_reason_str f))" "e' = e1" by auto
    let ?d = "d\<lparr>md_current_block_type := t, md_saw_finish := True\<rparr>"
    let ?rs = "[Usage_part (wire_usage u), Finish (messages_reason f)]"
    have "d\<lparr>md_current_block_type := t, md_usage_acc := Some (wire_usage u), md_saw_finish := True\<rparr> = ?d"
      using u(3) by simp
    moreover have "merged_usage (unwrap_or (md_usage_acc d) Usage_default) (messages_usage (messages_usage_object u)) = wire_usage u"
      using usage_read [OF u(2)] u(3) by simp
    ultimately have "reads (messages_feed from_str) (d\<lparr>md_current_block_type := t\<rparr>)
        (usage_delta display u (Some (stop_reason_str f))) ?rs ?d"
      using reads_message_delta [OF j get_usage_object(6,7), of "d\<lparr>md_current_block_type := t\<rparr>" "Some (stop_reason_str f)" u]
      by (simp add: usage_delta_def stop_reason_read)
    from reads_append [OF t this] have "reads (messages_feed from_str) d b ?rs ?d" by (simp add: e')
    moreover have "messages_content (ps @ [p]) (qs @ ?rs)"
      using c a fid assms(3) Cons by (simp add: messages_content_def same_dialogue_def waiting_def)
    moreover have "blocks_sync (ps @ [p]) e' ?d" using bs e1 e' assms(3) by (simp add: blocks_sync_def)
    moreover have "end_sync (ps @ [p]) e' ?d" using es a e1 e' assms(3) Cons by (simp add: end_sync_def waiting_def)
    ultimately show ?thesis using j r fid
      by (intro exI [of _ ?rs] exI [of _ ?d]) (simp add: messages_carries_def)
  qed
qed

lemma completed_step:
  assumes "messages_carries from_str display ps qs e d" and "messages_admits ps p"
    and "p = ResponseCompleted i st us x" and "messages_encode_part display e p = (b, e')"
  shows "\<exists>rs d'. reads (messages_feed from_str) d b rs d' \<and>
    messages_carries from_str display (ps @ [p]) (qs @ rs) e' d'"
proof -
  have j: "json_text from_str display" and c: "messages_content ps qs" and bs: "blocks_sync ps e d"
    and es: "end_sync ps e d" and r: "md_response_id d = first_id ps"
    using assms(1) by (simp_all add: messages_carries_def)
  have a: "completed_of ps = []" "finishes_of ps \<noteq> []"
    using assms(2,3) by (simp_all add: messages_admits_def)
  then obtain f where f: "finishes_of ps = [f]" using es by (cases "finishes_of ps") (auto simp: end_sync_def)
  have fid: "first_id (ps @ [p]) = first_id ps" using assms(3) by (simp add: first_id_snoc)
  obtain b1 e1 where cl: "close_block display e = (b1, e1)" by fastforce
  note rc = reads_close [OF j cl]
  obtain t where t: "reads (messages_feed from_str) d b1 [] (d\<lparr>md_current_block_type := t\<rparr>)" using rc(1) by blast
  let ?closing = "ResponseCompleted (unwrap_or (first_id ps) []) ''completed'' None []"
  let ?stop = "object_of [(''type'', JString ''message_stop'')]"
  let ?pend = "case me_pending_stop_reason e of
      Some r \<Rightarrow> message_delta display (Some r) (object_of [(''output_tokens'', jnat 0)]) | None \<Rightarrow> []"
  have e': "b = b1 @ ?pend @ event_frame ''message_stop'' (display ?stop)" "e' = e1\<lparr>me_pending_stop_reason := None\<rparr>"
    using assms(3,4) cl rc(3) by auto
  have e1: "me_last_usage e1 = me_last_usage e" "me_next_index e1 = me_next_index e" using rc(3) by auto
  have blocks: "blocks_sync (ps @ [p]) e' (d\<lparr>md_current_block_type := t\<rparr>)"
    using bs e1 e' assms(3) by (simp add: blocks_sync_def)
  have stop: "reads (messages_feed from_str) d1 (event_frame ''message_stop'' (display ?stop)) [?closing] d1"
    if "md_saw_finish d1" "md_response_id d1 = first_id ps" for d1
  proof -
    have "wf_json ?stop" "feed_event ?stop d1 = Inr ([?closing], d1)"
      using that by (simp_all add: wf_object_of feed_event_def on_message_stop_def)
    from reads_event [OF j this] show ?thesis by simp
  qed
  show ?thesis
  proof (cases "usages_of ps")
    case (Cons u us)
    with es f have n: "me_pending_stop_reason e = None" "md_saw_finish d" by (simp_all add: end_sync_def waiting_def)
    have "reads (messages_feed from_str) d b [?closing] (d\<lparr>md_current_block_type := t\<rparr>)"
      using reads_append [OF t stop] n r by (simp add: e')
    moreover have "messages_content (ps @ [p]) (qs @ [?closing])"
      using c a fid assms(3) Cons by (simp add: messages_content_def same_dialogue_def waiting_def)
    moreover have "end_sync (ps @ [p]) e' (d\<lparr>md_current_block_type := t\<rparr>)"
      using es a e1 e' assms(3) Cons by (simp add: end_sync_def waiting_def)
    ultimately show ?thesis using j r fid blocks
      by (intro exI [of _ "[?closing]"] exI [of _ "d\<lparr>md_current_block_type := t\<rparr>"]) (simp add: messages_carries_def)
  next
    case Nil
    with es f a have n: "me_pending_stop_reason e = Some (stop_reason_str f)" "md_usage_acc d = None"
      by (simp_all add: end_sync_def waiting_def)
    let ?u = "object_of [(''output_tokens'', jnat 0)]"
    have "?u = messages_usage_object Usage_default" by (simp add: messages_usage_object_def Usage_default_def put_opt_def)
    moreover have "usage_fits Usage_default" "wire_usage Usage_default = Usage_default"
      by (simp_all add: usage_fits_def wire_usage_def usage_total_def Usage_default_def)
    ultimately have "merged_usage Usage_default (messages_usage ?u) = Usage_default"
      using usage_read(1,2) [of Usage_default] by simp
    with reads_message_delta [OF j, of ?u "d\<lparr>md_current_block_type := t\<rparr>" "Some (stop_reason_str f)"] n(2)
    have 2: "reads (messages_feed from_str) (d\<lparr>md_current_block_type := t\<rparr>) (message_delta display (Some (stop_reason_str f)) ?u)
        [Usage_part Usage_default, Finish (messages_reason f)]
        (d\<lparr>md_current_block_type := t, md_usage_acc := Some Usage_default, md_saw_finish := True\<rparr>)"
      by (simp add: wf_object_of stop_reason_read)
    have "reads (messages_feed from_str) d b ([] @ [Usage_part Usage_default, Finish (messages_reason f)] @ [?closing])
        (d\<lparr>md_current_block_type := t, md_usage_acc := Some Usage_default, md_saw_finish := True\<rparr>)"
      unfolding e'(1) n option.case by (intro reads_append [OF t] reads_append [OF 2] stop) (simp_all add: r)
    moreover have "messages_content (ps @ [p]) (qs @ [] @ [Usage_part Usage_default, Finish (messages_reason f)] @ [?closing])"
      using c a f fid assms(3) Nil by (simp add: messages_content_def same_dialogue_def waiting_def)
    moreover have "end_sync (ps @ [p]) e'
        (d\<lparr>md_current_block_type := t, md_usage_acc := Some Usage_default, md_saw_finish := True\<rparr>)"
      using es f a e1 e' assms(3) Nil by (simp add: end_sync_def waiting_def)
    ultimately show ?thesis using j r fid blocks
      by (intro exI [of _ "[] @ [Usage_part Usage_default, Finish (messages_reason f)] @ [?closing]"]
        exI [of _ "d\<lparr>md_current_block_type := t, md_usage_acc := Some Usage_default, md_saw_finish := True\<rparr>"])
        (simp add: messages_carries_def blocks_sync_def)
  qed
qed

lemma messages_step:
  assumes "messages_carries from_str display ps qs e d" and "messages_admits ps p"
    and "messages_encode_part display e p = (b, e')"
  shows "\<exists>rs d'. reads (messages_feed from_str) d b rs d' \<and>
    messages_carries from_str display (ps @ [p]) (qs @ rs) e' d'"
proof (cases p)
  case (TextDelta t)
  obtain b1 e1 where en: "ensure_block display ''text'' (object_of [(''type'', JString ''text''), (''text'', JString [])]) e = (b1, e1)"
    by fastforce
  with TextDelta assms(3) have "b = b1 @ block_delta display e1 (text_delta t)" "e' = e1" by auto
  with text_step [OF assms(1,2) _ en, of t] TextDelta show ?thesis by auto
next
  case (ReasoningDelta t x y)
  obtain b1 e1 where en: "ensure_block display ''thinking'' (object_of [(''type'', JString ''thinking''), (''thinking'', JString [])]) e = (b1, e1)"
    by fastforce
  with ReasoningDelta assms(3) have "b = b1 @ block_delta display e1 (thinking_delta t)" "e' = e1" by auto
  with text_step [OF assms(1,2) _ en, of t] ReasoningDelta show ?thesis by auto
next
  case (ProgramDelta i c x y)
  with assms(3) have "b = []" "e' = e" by auto
  moreover have "messages_carries from_str display (ps @ [p]) (qs @ []) e d"
    by (rule dialogue_carried [OF assms(1)])
      (use assms(1) ProgramDelta in \<open>simp_all add: same_dialogue_def same_end_def messages_carries_def blocks_sync_def\<close>)
  ultimately show ?thesis by (auto intro!: exI [of _ "[]"])
next
  case (ProgramOutputDelta i c x y)
  with assms(3) have "b = []" "e' = e" by auto
  moreover have "messages_carries from_str display (ps @ [p]) (qs @ []) e d"
    by (rule dialogue_carried [OF assms(1)])
      (use assms(1) ProgramOutputDelta in \<open>simp_all add: same_dialogue_def same_end_def messages_carries_def blocks_sync_def\<close>)
  ultimately show ?thesis by (auto intro!: exI [of _ "[]"])
qed (use started_step [OF assms(1,2) _ assms(3)] tool_step [OF assms(1,2) _ assms(3)] usage_step [OF assms(1,2) _ assms(3)]
    finish_step [OF assms(1,2) _ assms(3)] completed_step [OF assms(1,2) _ assms(3)] error_step [OF assms(1) _ assms(3)]
    in \<open>blast+\<close>)

interpretation messages: stream_codec "messages_encode_part display" "messages_feed from_str"
    "messages_carries from_str display" messages_admits
  for from_str display
  by unfold_locales (rule messages_step)

lemma messages_carries_new:
  "json_text from_str display \<Longrightarrow>
     messages_carries from_str display [] [] MessagesStreamEncoder_new MessagesStreamDecoder_new"
  by (simp add: messages_carries_def messages_content_def blocks_sync_def end_sync_def waiting_def
      MessagesStreamEncoder_new_def MessagesStreamDecoder_new_def)

lemma messages_read:
  assumes "json_text from_str display" and "admissible messages_admits [] ps"
  shows "\<exists>qs d. reads (messages_feed from_str) MessagesStreamDecoder_new
      (fst (encode_parts (messages_encode_part display) MessagesStreamEncoder_new ps)) qs d \<and> messages_content ps qs"
  using messages.stream_carried [OF messages_carries_new [OF assms(1)] assms(2)] by (auto simp: messages_carries_def)

text \<open>
  A messages stream is read back as it was written.  If the arguments of a tool call come while its
  block is open and a stream has at most one usage and one finish reason, the decoder finds in the bytes of
  the encoder the same text, reasoning, tool calls and errors, the finish reason as far as the protocol has it
  and the usage without its reasoning tokens, whichever of usage and finish comes first; a stream that ends
  without a usage has one of zero tokens.
\<close>

theorem messages_stream_roundtrip:
  assumes "json_text from_str display" and "admissible messages_admits [] ps"
  shows "\<exists>qs d. reads (messages_feed from_str) MessagesStreamDecoder_new
      (fst (encode_parts (messages_encode_part display) MessagesStreamEncoder_new ps)) qs d \<and> messages_content ps qs"
  by (rule messages_read [OF assms])

text \<open>
  Interleaved tool calls are mixed up: arguments that come for a call after the block of another call has
  been opened, as the OpenAI protocols allow, are given to that other call.
\<close>

theorem interleaved_arguments_mixed:
  assumes "json_text from_str display" and "i \<noteq> j"
  shows "\<exists>qs d. reads (messages_feed from_str) MessagesStreamDecoder_new
      (fst (encode_parts (messages_encode_part display) MessagesStreamEncoder_new
        [ToolCallDelta i (Some n) [] w1 x1 y1, ToolCallDelta j (Some m) [] w2 x2 y2, ToolCallDelta i None a w3 x3 y3])) qs d \<and>
    arguments_of i qs = [] \<and> arguments_of j qs = a"
proof -
  let ?ps = "\<lambda>k. [ToolCallDelta i (Some n) [] w1 x1 y1, ToolCallDelta j (Some m) [] w2 x2 y2, ToolCallDelta k None a w3 x3 y3]"
  have same: "encode_parts (messages_encode_part display) MessagesStreamEncoder_new (?ps i) =
      encode_parts (messages_encode_part display) MessagesStreamEncoder_new (?ps j)"
    by (simp add: Let_def split_beta)
  have "admissible messages_admits [] (?ps j)" by (simp add: messages_admits_def open_call_def)
  from messages_read [OF assms(1) this] obtain qs d where "reads (messages_feed from_str) MessagesStreamDecoder_new
      (fst (encode_parts (messages_encode_part display) MessagesStreamEncoder_new (?ps j))) qs d"
    "messages_content (?ps j) qs" by blast
  with assms(2) show ?thesis unfolding same
    by (intro exI [of _ qs] exI [of _ d]) (simp add: messages_content_def same_dialogue_def)
qed

definition messages_demo :: "StreamPart list" where
  "messages_demo = [ResponseStarted ''r'', TextDelta ''x'', ToolCallDelta ''a'' (Some ''f'') [] None None None,
     ToolCallDelta ''a'' None ''1'' None None None, ToolCallDelta ''b'' (Some ''g'') ''2'' None None None,
     Finish ToolCalls, Usage_part (Usage_default\<lparr>prompt_tokens := 7\<rparr>), ResponseCompleted ''r'' ''completed'' None []]"

theorem messages_stream_roundtrip_witness:
  "\<exists>qs d. reads (messages_feed number_value) MessagesStreamDecoder_new
      (fst (encode_parts (messages_encode_part number_display) MessagesStreamEncoder_new messages_demo)) qs d \<and>
    text_of qs = ''x'' \<and> arguments_of ''a'' qs = ''1'' \<and> arguments_of ''b'' qs = ''2'' \<and>
    finishes_of qs = [ToolCalls] \<and> completed_of qs = [''r'']"
proof -
  have "admissible messages_admits [] messages_demo"
    by (simp add: messages_demo_def messages_admits_def open_call_def usage_fits_def usage_total_def Usage_default_def)
  from messages_stream_roundtrip [OF numbers_json_text this] show ?thesis
    by (elim exE conjE) (intro exI conjI, assumption,
      simp_all add: messages_content_def same_dialogue_def messages_demo_def waiting_def)
qed

theorem interleaved_arguments_mixed_witness:
  "\<exists>qs d. reads (messages_feed number_value) MessagesStreamDecoder_new
      (fst (encode_parts (messages_encode_part number_display) MessagesStreamEncoder_new
        [ToolCallDelta ''a'' (Some ''f'') [] None None None, ToolCallDelta ''b'' (Some ''g'') [] None None None,
         ToolCallDelta ''a'' None ''1'' None None None])) qs d \<and>
    arguments_of ''a'' qs = [] \<and> arguments_of ''b'' qs = ''1''"
  by (rule interleaved_arguments_mixed [OF numbers_json_text]) simp

end
