(* ===== verification/Gemini_Stream.thy ===== *)
theory Gemini_Stream
  imports Stream_Codec
begin

section \<open>Gemini: streams\<close>

text \<open>
  The model of the stream half of \<^verbatim>\<open>protocols/src/gemini.rs\<close>.  The encoder keeps no state; a tool call is one
  frame with the name and the whole arguments.  The decoder takes the usage for the end of a stream that has
  no finish reason; the end itself is only reported by \<^verbatim>\<open>finish\<close>.
\<close>

subsection \<open>The encoder\<close>

fun error_status_for_class :: "ErrorClass \<Rightarrow> string" where
  "error_status_for_class ErrorClass.Transient = ''INTERNAL''"
| "error_status_for_class ErrorClass.RateLimited = ''RESOURCE_EXHAUSTED''"
| "error_status_for_class ErrorClass.Auth = ''UNAUTHENTICATED''"
| "error_status_for_class ErrorClass.BadRequest = ''INVALID_ARGUMENT''"
| "error_status_for_class ErrorClass.LossyOrCapability = ''FAILED_PRECONDITION''"
| "error_status_for_class ErrorClass.ModelNotFound = ''NOT_FOUND''"
| "error_status_for_class ErrorClass.DeadlineExceeded = ''DEADLINE_EXCEEDED''"
| "error_status_for_class ErrorClass.UpstreamExhausted = ''UNAVAILABLE''"
| "error_status_for_class ErrorClass.AuthMissing = ''UNAUTHENTICATED''"
| "error_status_for_class ErrorClass.AuthInvalid = ''UNAUTHENTICATED''"
| "error_status_for_class ErrorClass.AuthDisabled = ''PERMISSION_DENIED''"
| "error_status_for_class ErrorClass.ModelAccessDenied = ''PERMISSION_DENIED''"
| "error_status_for_class ErrorClass.Overloaded = ''UNAVAILABLE''"

definition synth_gemini_call_id :: "string \<Rightarrow> string" where
  "synth_gemini_call_id name = (if name = [] then [] else ''gemini_call_'' @ name)"

definition candidate_frame :: "json \<Rightarrow> json" where
  "candidate_frame candidate = object_of [(''candidates'', JArray [candidate])]"

definition content_frame :: "(string \<times> json) list \<Rightarrow> json \<Rightarrow> json" where
  "content_frame role part = candidate_frame (object_of [(''content'', object_of (role @ [(''parts'', JArray [part])]))])"

definition call_args :: "(string \<Rightarrow> json option) \<Rightarrow> string \<Rightarrow> json" where
  "call_args from_str arguments =
     (if trim arguments = [] then object_of [] else unwrap_or (from_str arguments) (object_of []))"

definition function_call :: "string option \<Rightarrow> json \<Rightarrow> json" where
  "function_call name args = put_opt ''name'' (map_option JString name) (object_of [(''args'', args)])"

definition prompt_for_gemini :: "Usage \<Rightarrow> nat" where
  "prompt_for_gemini u = add_u64 (add_u64 (prompt_tokens u) (unwrap_or (cache_read_tokens u) 0))
     (unwrap_or (cache_write_tokens u) 0)"

definition positive_count :: "nat option \<Rightarrow> json option" where
  "positive_count n = (case n of Some k \<Rightarrow> if k > 0 then Some (jnat k) else None | None \<Rightarrow> None)"

definition usage_metadata :: "Usage \<Rightarrow> json" where
  "usage_metadata u =
     put_opt ''cachedContentTokenCount'' (positive_count (cache_read_tokens u))
     (put_opt ''thoughtsTokenCount'' (positive_count (reasoning_tokens u))
     (object_of [(''promptTokenCount'', jnat (prompt_for_gemini u)),
        (''candidatesTokenCount'', jnat (completion_tokens u)),
        (''totalTokenCount'', jnat (add_u64 (prompt_for_gemini u) (completion_tokens u)))]))"

fun gemini_finish_str :: "FinishReason \<Rightarrow> string" where
  "gemini_finish_str Length = ''MAX_TOKENS''"
| "gemini_finish_str ContentFilter = ''SAFETY''"
| "gemini_finish_str _ = ''STOP''"

definition gemini_error_object :: "string \<Rightarrow> ErrorClass \<Rightarrow> json" where
  "gemini_error_object message cls = object_of [(''error'',
     object_of [(''message'', JString message), (''status'', JString (error_status_for_class cls))])]"

fun gemini_event :: "(string \<Rightarrow> json option) \<Rightarrow> StreamPart \<Rightarrow> json option" where
  "gemini_event from_str (TextDelta text) =
     Some (content_frame [(''role'', JString ''model'')] (object_of [(''text'', JString text)]))"
| "gemini_event from_str (ReasoningDelta text _ _) =
     Some (content_frame [] (object_of [(''text'', JString text), (''thought'', JBool True)]))"
| "gemini_event from_str (ToolCallDelta _ name arguments _ _ _) =
     Some (content_frame [] (object_of [(''functionCall'', function_call name (call_args from_str arguments))]))"
| "gemini_event from_str (ProgramDelta _ _ _ _) = None"
| "gemini_event from_str (ProgramOutputDelta _ _ _ _) = None"
| "gemini_event from_str (Usage_part u) = Some (object_of [(''usageMetadata'', usage_metadata u)])"
| "gemini_event from_str (Finish reason) =
     Some (candidate_frame (object_of [(''finishReason'', JString (gemini_finish_str reason))]))"
| "gemini_event from_str (Error_part message cls _) = Some (gemini_error_object message cls)"
| "gemini_event from_str (ResponseStarted i) = Some (object_of [(''responseId'', JString i)])"
| "gemini_event from_str (ResponseCompleted i _ _ _) =
     Some (object_of [(''responseId'', JString i), (''done'', JBool True)])"

definition gemini_encode_part :: "(string \<Rightarrow> json option) \<Rightarrow> (json \<Rightarrow> string) \<Rightarrow> unit \<Rightarrow> StreamPart \<Rightarrow> string \<times> unit" where
  "gemini_encode_part from_str display e part =
     (case gemini_event from_str part of Some v \<Rightarrow> sse_frame (display v) | None \<Rightarrow> [], e)"

definition gemini_encode_error :: "(json \<Rightarrow> string) \<Rightarrow> string \<Rightarrow> ErrorClass \<Rightarrow> string" where
  "gemini_encode_error display message cls = sse_frame (display (gemini_error_object message cls))"

definition gemini_encode_done :: string where
  "gemini_encode_done = []"

subsection \<open>The decoder\<close>

record GeminiStreamDecoder =
  gd_response_id :: "string option"
  gd_saw_finish :: bool
  gd_saw_tool_calls :: bool
  gd_thought_signatures :: "json list"

definition GeminiStreamDecoder_new :: GeminiStreamDecoder where
  "GeminiStreamDecoder_new = \<lparr>gd_response_id = None, gd_saw_finish = False, gd_saw_tool_calls = False,
     gd_thought_signatures = []\<rparr>"

definition text_parts :: "json \<Rightarrow> StreamPart list" where
  "text_parts p =
     (if as_bool (idx p ''thought'') = Some True
      then (case as_str (idx p ''text'') of Some t \<Rightarrow> [ReasoningDelta t None None] | None \<Rightarrow> [])
      else (case as_str (idx p ''text'') of Some t \<Rightarrow> [TextDelta t] | None \<Rightarrow> []) @
        (case (case as_str (idx p ''thought'') of Some t \<Rightarrow> Some t
                 | None \<Rightarrow> as_str (idx (idx p ''thought'') ''text'')) of
           Some t \<Rightarrow> [ReasoningDelta t None None] | None \<Rightarrow> []))"

definition call_id :: "json \<Rightarrow> string" where
  "call_id fc = (case as_str (idx fc ''id'') of
     Some (c # cs) \<Rightarrow> c # cs
   | _ \<Rightarrow> (case as_str (idx fc ''name'') of Some n \<Rightarrow> synth_gemini_call_id n | None \<Rightarrow> []))"

definition call_arguments :: "(json \<Rightarrow> string) \<Rightarrow> json \<Rightarrow> string" where
  "call_arguments display fc =
     (if get fc ''args'' \<noteq> None \<and> get fc ''args'' \<noteq> Some JNull then display (idx fc ''args'') else ''{}'')"

definition call_parts :: "(json \<Rightarrow> string) \<Rightarrow> json \<Rightarrow> GeminiStreamDecoder \<Rightarrow> StreamPart list \<times> GeminiStreamDecoder" where
  "call_parts display p d = (case get p ''functionCall'' of
     None \<Rightarrow> ([], d)
   | Some fc \<Rightarrow>
       ([ToolCallDelta (call_id fc) (as_str (idx fc ''name'')) (call_arguments display fc) None None None],
        d\<lparr>gd_saw_tool_calls := True,
          gd_thought_signatures := gd_thought_signatures d @
            (case get p ''thoughtSignature'' of Some sig \<Rightarrow> [sig] | None \<Rightarrow> [])\<rparr>))"

fun part_list :: "(json \<Rightarrow> string) \<Rightarrow> json list \<Rightarrow> GeminiStreamDecoder \<Rightarrow> StreamPart list \<times> GeminiStreamDecoder" where
  "part_list display [] d = ([], d)"
| "part_list display (p # ps) d =
     (let (cs, d1) = call_parts display p d; (rs, d2) = part_list display ps d1 in (text_parts p @ cs @ rs, d2))"

definition gemini_finish_of :: "bool \<Rightarrow> string \<Rightarrow> FinishReason" where
  "gemini_finish_of saw_tool_calls fr =
     (if fr = ''STOP'' then if saw_tool_calls then ToolCalls else Stop
      else if fr = ''MAX_TOKENS'' then Length
      else if fr = ''SAFETY'' then ContentFilter
      else Other_reason fr)"

definition candidate_parts :: "(json \<Rightarrow> string) \<Rightarrow> json \<Rightarrow> GeminiStreamDecoder \<Rightarrow>
    StreamPart list \<times> GeminiStreamDecoder" where
  "candidate_parts display c d =
     (let (ps, d1) = part_list display (unwrap_or (as_array (idx (idx c ''content'') ''parts'')) []) d in
      case as_str (idx c ''finishReason'') of
        Some fr \<Rightarrow> (ps @ [Finish (gemini_finish_of (gd_saw_tool_calls d1) fr)], d1\<lparr>gd_saw_finish := True\<rparr>)
      | None \<Rightarrow> (ps, d1))"

fun candidate_list :: "(json \<Rightarrow> string) \<Rightarrow> json list \<Rightarrow> GeminiStreamDecoder \<Rightarrow> StreamPart list \<times> GeminiStreamDecoder" where
  "candidate_list display [] d = ([], d)"
| "candidate_list display (c # cs) d =
     (let (ps, d1) = candidate_parts display c d; (qs, d2) = candidate_list display cs d1 in (ps @ qs, d2))"

definition has_token_usage :: "json \<Rightarrow> bool" where
  "has_token_usage u \<longleftrightarrow> (\<exists>k\<in>set [''promptTokenCount'', ''candidatesTokenCount'', ''totalTokenCount'',
     ''cachedContentTokenCount'', ''thoughtsTokenCount'']. get u k \<noteq> None)"

definition gemini_usage :: "json \<Rightarrow> Usage" where
  "gemini_usage u =
     (let cache_read = as_u64 (idx u ''cachedContentTokenCount'');
          raw_prompt = unwrap_or (as_u64 (idx u ''promptTokenCount'')) 0
      in \<lparr>prompt_tokens = raw_prompt - unwrap_or cache_read 0,
          completion_tokens = unwrap_or (as_u64 (idx u ''candidatesTokenCount'')) 0,
          reasoning_tokens = as_u64 (idx u ''thoughtsTokenCount''),
          cache_read_tokens = cache_read, cache_write_tokens = None,
          total_tokens = unwrap_or (as_u64 (idx u ''totalTokenCount'')) 0\<rparr>)"

definition usage_parts :: "json \<Rightarrow> GeminiStreamDecoder \<Rightarrow> StreamPart list \<times> GeminiStreamDecoder" where
  "usage_parts ev d = (case get ev ''usageMetadata'' of
     None \<Rightarrow> ([], d)
   | Some u \<Rightarrow>
       if \<not> has_token_usage u then ([], d)
       else if gd_saw_finish d then ([Usage_part (gemini_usage u)], d)
       else ([Usage_part (gemini_usage u), Finish (if gd_saw_tool_calls d then ToolCalls else Stop)],
             d\<lparr>gd_saw_finish := True\<rparr>))"

definition gemini_error :: "json \<Rightarrow> json_object option" where
  "gemini_error ev = (case Option.bind (get ev ''error'') as_object of
     Some kvs \<Rightarrow> if kvs = [] then None else Some kvs | None \<Rightarrow> None)"

definition gemini_error_part :: "json \<Rightarrow> StreamPart" where
  "gemini_error_part error =
     (let code = Option.bind (get error ''status'') as_str
      in Error_part (unwrap_or (Option.bind (get error ''message'') as_str) ''Unknown'')
           (classify_upstream_error None code) code)"

definition gemini_start :: "json \<Rightarrow> GeminiStreamDecoder \<Rightarrow> StreamPart list \<times> GeminiStreamDecoder" where
  "gemini_start ev d =
     (if gd_response_id d = None
      then (case as_str (idx ev ''responseId'') of
              Some i \<Rightarrow> ([ResponseStarted i], d\<lparr>gd_response_id := Some i\<rparr>) | None \<Rightarrow> ([], d))
      else ([], d))"

definition gemini_feed_event :: "(json \<Rightarrow> string) \<Rightarrow> json \<Rightarrow> GeminiStreamDecoder \<Rightarrow>
    StreamPart list \<times> GeminiStreamDecoder" where
  "gemini_feed_event display ev d =
     (let (ss, d1) = gemini_start ev d in
      case gemini_error ev of
        Some kvs \<Rightarrow> (ss @ [gemini_error_part (JObject kvs)], d1)
      | None \<Rightarrow>
          let (ps, d2) = candidate_list display (unwrap_or (as_array (idx ev ''candidates'')) []) d1;
              (us, d3) = usage_parts ev d2
          in (ss @ ps @ us, d3))"

definition first_of_array :: "(string \<Rightarrow> json option) \<Rightarrow> (json \<Rightarrow> string) \<Rightarrow> string \<Rightarrow> string" where
  "first_of_array from_str display dat = (case from_str dat of
     Some (JArray (v # _)) \<Rightarrow> display v | _ \<Rightarrow> [])"

definition gemini_feed :: "(string \<Rightarrow> json option) \<Rightarrow> (json \<Rightarrow> string) \<Rightarrow> GeminiStreamDecoder \<Rightarrow> string \<Rightarrow>
    GeminiStreamDecoder reading" where
  "gemini_feed from_str display d line =
     (case strip_prefix data_prefix (trim line) of
        None \<Rightarrow> Inr (Inr [], d)
      | Some dat \<Rightarrow>
          (case from_str (if dat \<noteq> [] \<and> hd dat = CHR ''['' then first_of_array from_str display dat else dat) of
             None \<Rightarrow> Inr (Inl (Codec ''Gemini SSE''), d)
           | Some ev \<Rightarrow> (let (ps, d') = gemini_feed_event display ev d in Inr (Inr ps, d'))))"

definition gemini_decoder_finish :: "GeminiStreamDecoder \<Rightarrow> StreamPart list \<times> GeminiStreamDecoder" where
  "gemini_decoder_finish d = (case gd_response_id d of
     None \<Rightarrow> ([], d)
   | Some i \<Rightarrow>
       if gd_thought_signatures d = []
       then ([ResponseCompleted i ''completed'' None []], d\<lparr>gd_response_id := None\<rparr>)
       else ([ResponseCompleted i ''completed'' None
               [(''gemini_thought_signatures'', JArray (gd_thought_signatures d))]],
             d\<lparr>gd_response_id := None, gd_thought_signatures := []\<rparr>))"

subsection \<open>Reading the events of the encoder\<close>

lemma gemini_feed_blank [simp]: "gemini_feed from_str display d [] = Inr (Inr [], d)"
  by (simp add: gemini_feed_def trim_def strip_prefix_def data_prefix_def)

lemma reads_gemini:
  assumes "json_text from_str display" and "wf_json v" and "is_object v" and "gemini_feed_event display v d = (ps, d')"
  shows "reads (gemini_feed from_str display) d (sse_frame (display v)) ps d'"
proof -
  note fl = frame_line [OF assms(1,2)]
  have "hd (display v) \<noteq> CHR ''[''" using assms(1-3) unfolding json_text_def by blast
  with fl assms(4) have "gemini_feed from_str display d (data_prefix @ display v) = Inr (Inr ps, d')"
    by (simp add: gemini_feed_def)
  then show ?thesis by (intro reads_frame fl(4)) simp_all
qed

lemma get_content_frame:
  "idx (content_frame role p) ''candidates'' = JArray [object_of [(''content'', object_of (role @ [(''parts'', JArray [p])]))]]"
  "get (content_frame role p) ''error'' = None" "get (content_frame role p) ''usageMetadata'' = None"
  "as_str (idx (content_frame role p) ''responseId'') = None" "is_object (content_frame role p)"
  by (simp_all add: content_frame_def candidate_frame_def get_object_of)

lemma gemini_content:
  assumes "role = [] \<or> role = [(''role'', JString ''model'')]"
  shows "gemini_feed_event display (content_frame role p) d =
    (let (cs, d1) = call_parts display p d in (text_parts p @ cs, d1))"
  using assms
  by (auto simp: gemini_feed_event_def get_content_frame gemini_start_def gemini_error_def usage_parts_def
      candidate_parts_def split_beta)


subsection \<open>The round trip\<close>

text \<open>A Gemini client gathers whole calls: the name and the value of the arguments.  The id is lost.\<close>

fun gemini_calls :: "(string \<Rightarrow> json option) \<Rightarrow> StreamPart list \<Rightarrow> (string option \<times> json) list" where
  "gemini_calls from_str [] = []"
| "gemini_calls from_str (ToolCallDelta _ n a _ _ _ # ps) = (n, call_args from_str a) # gemini_calls from_str ps"
| "gemini_calls from_str (_ # ps) = gemini_calls from_str ps"

lemma gemini_calls_append [simp]: "gemini_calls from_str (ps @ qs) = gemini_calls from_str ps @ gemini_calls from_str qs"
  by (induction ps rule: text_of.induct) simp_all

definition gemini_wire_usage :: "Usage \<Rightarrow> Usage" where
  "gemini_wire_usage u = \<lparr>prompt_tokens = prompt_tokens u + unwrap_or (cache_write_tokens u) 0,
     completion_tokens = completion_tokens u,
     reasoning_tokens = (if reasoning_tokens u = Some 0 then None else reasoning_tokens u),
     cache_read_tokens = (if cache_read_tokens u = Some 0 then None else cache_read_tokens u),
     cache_write_tokens = None, total_tokens = usage_total u\<rparr>"

fun gemini_reason :: "bool \<Rightarrow> FinishReason \<Rightarrow> FinishReason" where
  "gemini_reason calls Length = Length"
| "gemini_reason calls ContentFilter = ContentFilter"
| "gemini_reason calls _ = (if calls then ToolCalls else Stop)"

lemma gemini_finish_read: "gemini_finish_of calls (gemini_finish_str r) = gemini_reason calls r"
  by (cases r) (simp_all add: gemini_finish_of_def)

definition gemini_content_of :: "(string \<Rightarrow> json option) \<Rightarrow> StreamPart list \<Rightarrow> StreamPart list \<Rightarrow> bool" where
  "gemini_content_of from_str ps qs \<longleftrightarrow> text_of qs = text_of ps \<and> reasoning_of qs = reasoning_of ps \<and>
     errors_of qs = errors_of ps \<and> gemini_calls from_str qs = gemini_calls from_str ps \<and>
     usages_of qs = map gemini_wire_usage (usages_of ps) \<and>
     finishes_of qs = map (gemini_reason (gemini_calls from_str ps \<noteq> [])) (finishes_of ps)"

fun gemini_part :: "(string \<Rightarrow> json option) \<Rightarrow> StreamPart list \<Rightarrow> StreamPart \<Rightarrow> bool" where
  "gemini_part from_str ps (ToolCallDelta _ _ a _ _ _) \<longleftrightarrow> finishes_of ps = [] \<and> call_args from_str a \<noteq> JNull"
| "gemini_part from_str ps (Usage_part u) \<longleftrightarrow> finishes_of ps \<noteq> [] \<and> usage_fits u"
| "gemini_part from_str ps (ResponseStarted _) \<longleftrightarrow> ps = []"
| "gemini_part from_str ps (ResponseCompleted _ _ _ _) \<longleftrightarrow> first_id ps \<noteq> None"
| "gemini_part from_str ps _ \<longleftrightarrow> True"

definition gemini_carries :: "(string \<Rightarrow> json option) \<Rightarrow> (json \<Rightarrow> string) \<Rightarrow> StreamPart list \<Rightarrow> StreamPart list \<Rightarrow>
    unit \<Rightarrow> GeminiStreamDecoder \<Rightarrow> bool" where
  "gemini_carries from_str display ps qs e d \<longleftrightarrow> json_text from_str display \<and> gemini_content_of from_str ps qs \<and>
     gd_response_id d = first_id ps \<and> gd_saw_finish d = (finishes_of ps \<noteq> []) \<and>
     gd_saw_tool_calls d = (gemini_calls from_str ps \<noteq> []) \<and> gd_thought_signatures d = []"

lemma call_args_read:
  assumes "json_text from_str display" and "wf_json v"
  shows "call_args from_str (display v) = v"
proof -
  note fl = frame_line [OF assms]
  have "\<not> is_whitespace (last (display v))"
    using assms fl(6) last_in_set unfolding json_text_def by blast
  then have "trim (display v) \<noteq> []"
    using fl(6) by (auto simp: trim_def dropWhile_eq_Nil_conv) (metis dropWhile_append3 append_butlast_last_id last_snoc in_set_conv_decomp last_in_set self_append_conv2)
  with fl(5) show ?thesis by (simp add: call_args_def)
qed

lemma wf_call_args: "json_text from_str display \<Longrightarrow> wf_json (call_args from_str a)"
  by (auto simp: call_args_def json_text_def object_of_def unwrap_or_def split: option.split)

lemma gemini_usage_read:
  assumes "usage_fits u"
  shows "gemini_usage (usage_metadata u) = gemini_wire_usage u" and "has_token_usage (usage_metadata u)"
    and "wf_json (usage_metadata u)"
proof -
  have *: "prompt_for_gemini u = prompt_tokens u + unwrap_or (cache_read_tokens u) 0 + unwrap_or (cache_write_tokens u) 0"
    "add_u64 (prompt_for_gemini u) (completion_tokens u) = usage_total u"
    using assms by (simp_all add: prompt_for_gemini_def usage_fits_def usage_total_def add_u64_def)
  have "as_u64 (idx (usage_metadata u) ''cachedContentTokenCount'') =
      (if cache_read_tokens u = Some 0 then None else cache_read_tokens u)"
    "as_u64 (idx (usage_metadata u) ''thoughtsTokenCount'') = (if reasoning_tokens u = Some 0 then None else reasoning_tokens u)"
    by (cases "cache_read_tokens u"; cases "reasoning_tokens u"; simp add: usage_metadata_def positive_count_def put_opt_def)+
  moreover have "idx (usage_metadata u) ''promptTokenCount'' = jnat (prompt_for_gemini u)"
    "idx (usage_metadata u) ''candidatesTokenCount'' = jnat (completion_tokens u)"
    "idx (usage_metadata u) ''totalTokenCount'' = jnat (usage_total u)"
    by (simp_all add: usage_metadata_def *(2))
  moreover have "unwrap_or (if n = Some 0 then None else n) 0 = unwrap_or n (0 :: nat)" for n by (cases n) simp_all
  ultimately show "gemini_usage (usage_metadata u) = gemini_wire_usage u"
    by (simp add: gemini_usage_def Let_def gemini_wire_usage_def *)
  show "has_token_usage (usage_metadata u)"
    by (simp add: has_token_usage_def usage_metadata_def get_put_opt get_object_of)
  show "wf_json (usage_metadata u)"
    by (simp add: usage_metadata_def positive_count_def put_opt_def wf_object_of split: option.split)
qed

lemma function_call_read:
  assumes "json_text from_str display" and "v = call_args from_str a" and "v \<noteq> JNull"
  shows "wf_json (function_call n v)" and "as_str (idx (function_call n v) ''name'') = n"
    and "call_arguments display (function_call n v) = display v"
  using wf_call_args [OF assms(1), of a] assms(2,3)
  by (cases n; simp add: function_call_def put_opt_def wf_object_of call_arguments_def get_object_of)+

text \<open>What the decoder makes of each event.\<close>

lemma gemini_event_read:
  assumes "json_text from_str display" and "gemini_carries from_str display ps qs e d"
    and "gemini_part from_str ps p" and "gemini_event from_str p = Some v"
  shows "wf_json v \<and> is_object v \<and> (\<exists>rs d'. gemini_feed_event display v d = (rs, d') \<and>
    gemini_carries from_str display (ps @ [p]) (qs @ rs) () d')"
proof -
  note c = assms(2) [unfolded gemini_carries_def gemini_content_of_def]
  note defs = gemini_carries_def gemini_content_of_def first_id_snoc
  show ?thesis
  proof (cases p)
    case (TextDelta t)
    let ?q = "object_of [(''text'', JString t)]"
    have v: "v = content_frame [(''role'', JString ''model'')] ?q" using assms(4) TextDelta by simp
    have "wf_json v" "is_object v" by (simp_all add: v get_content_frame content_frame_def candidate_frame_def wf_object_of)
    moreover have "gemini_feed_event display v d = ([TextDelta t], d)"
      unfolding v by (subst gemini_content) (simp_all add: call_parts_def text_parts_def get_object_of)
    ultimately show ?thesis using c TextDelta by (auto simp: defs)
  next
    case (ReasoningDelta t x y)
    let ?q = "object_of [(''text'', JString t), (''thought'', JBool True)]"
    have v: "v = content_frame [] ?q" using assms(4) ReasoningDelta by simp
    have "wf_json v" "is_object v" by (simp_all add: v get_content_frame content_frame_def candidate_frame_def wf_object_of)
    moreover have "gemini_feed_event display v d = ([ReasoningDelta t None None], d)"
      unfolding v by (subst gemini_content) (simp_all add: call_parts_def text_parts_def get_object_of)
    ultimately show ?thesis using c ReasoningDelta by (auto simp: defs)
  next
    case (ToolCallDelta i n a w x y)
    let ?a = "call_args from_str a"
    let ?q = "object_of [(''functionCall'', function_call n ?a)]"
    have v: "v = content_frame [] ?q" using assms(4) ToolCallDelta by simp
    have a: "?a \<noteq> JNull" "finishes_of ps = []" using assms(3) ToolCallDelta by simp_all
    note fc = function_call_read [OF assms(1) HOL.refl a(1), of n]
    have "wf_json v" "is_object v" using fc(1)
      by (simp_all add: v get_content_frame content_frame_def candidate_frame_def wf_object_of)
    moreover have "gemini_feed_event display v d =
        ([ToolCallDelta (call_id (function_call n ?a)) n (display ?a) None None None], d\<lparr>gd_saw_tool_calls := True\<rparr>)"
      unfolding v by (subst gemini_content) (simp_all add: call_parts_def text_parts_def get_object_of fc)
    ultimately show ?thesis using c a ToolCallDelta call_args_read [OF assms(1) wf_call_args [OF assms(1), of a]]
      by (auto simp: defs)
  next
    case (Usage_part u)
    have v: "v = object_of [(''usageMetadata'', usage_metadata u)]" using assms(4) Usage_part by simp
    have u: "finishes_of ps \<noteq> []" "usage_fits u" using assms(3) Usage_part by simp_all
    note us = gemini_usage_read [OF u(2)]
    have "wf_json v" "is_object v" using us(3) by (simp_all add: v wf_object_of)
    moreover have "gemini_feed_event display v d = ([Usage_part (gemini_wire_usage u)], d)"
      using c u us by (simp add: v gemini_feed_event_def gemini_start_def gemini_error_def usage_parts_def get_object_of)
    ultimately show ?thesis using c u Usage_part by (auto simp: defs)
  next
    case (Finish r)
    have v: "v = candidate_frame (object_of [(''finishReason'', JString (gemini_finish_str r))])" using assms(4) Finish by simp
    have "wf_json v" "is_object v" by (simp_all add: v candidate_frame_def wf_object_of)
    moreover have "gemini_feed_event display v d =
        ([Finish (gemini_reason (gd_saw_tool_calls d) r)], d\<lparr>gd_saw_finish := True\<rparr>)"
      by (simp add: v candidate_frame_def gemini_feed_event_def gemini_start_def gemini_error_def usage_parts_def
          get_object_of candidate_parts_def gemini_finish_read)
    ultimately show ?thesis using c Finish by (auto simp: defs)
  next
    case (Error_part m cl code)
    have v: "v = gemini_error_object m cl" using assms(4) Error_part by simp
    have "wf_json v" "is_object v" by (simp_all add: v gemini_error_object_def wf_object_of)
    moreover obtain kvs where "object_of [(''message'', JString m), (''status'', JString (error_status_for_class cl))] = JObject kvs"
      "kvs \<noteq> []" by (simp add: object_of_def)
    then have "gemini_feed_event display v d =
        ([gemini_error_part (object_of [(''message'', JString m), (''status'', JString (error_status_for_class cl))])], d)"
      by (simp add: v gemini_error_object_def gemini_feed_event_def gemini_start_def gemini_error_def get_object_of)
    moreover have "errors_of [gemini_error_part (object_of [(''message'', JString m), (''status'', JString (error_status_for_class cl))])] = [m]"
      by (simp add: gemini_error_part_def Let_def get_object_of)
    ultimately show ?thesis using c Error_part by (auto simp: defs gemini_error_part_def Let_def)
  next
    case (ResponseStarted i)
    have v: "v = object_of [(''responseId'', JString i)]" using assms(4) ResponseStarted by simp
    have ps: "ps = []" using assms(3) ResponseStarted by simp
    have "wf_json v" "is_object v" by (simp_all add: v wf_object_of)
    moreover have "gemini_feed_event display v d = ([ResponseStarted i], d\<lparr>gd_response_id := Some i\<rparr>)"
      using c ps by (simp add: v gemini_feed_event_def gemini_start_def gemini_error_def usage_parts_def get_object_of)
    ultimately show ?thesis using c ps ResponseStarted by (auto simp: defs)
  next
    case (ResponseCompleted i st u x)
    have v: "v = object_of [(''responseId'', JString i), (''done'', JBool True)]" using assms(4) ResponseCompleted by simp
    have "wf_json v" "is_object v" by (simp_all add: v wf_object_of)
    moreover have "gemini_feed_event display v d = ([], d)"
      using c assms(3) ResponseCompleted
      by (simp add: v gemini_feed_event_def gemini_start_def gemini_error_def usage_parts_def get_object_of)
    ultimately show ?thesis using c ResponseCompleted by (auto simp: defs)
  qed (use assms(4) in simp_all)
qed

lemma gemini_step:
  assumes "gemini_carries from_str display ps qs e d" and "gemini_part from_str ps p"
    and "gemini_encode_part from_str display e p = (b, e')"
  shows "\<exists>rs d'. reads (gemini_feed from_str display) d b rs d' \<and>
    gemini_carries from_str display (ps @ [p]) (qs @ rs) e' d'"
proof (cases "gemini_event from_str p")
  case None
  then have "b = []" "first_id (ps @ [p]) = first_id ps" "gemini_content_of from_str [p] []"
    using assms(3) by (cases p; simp add: gemini_encode_part_def first_id_snoc gemini_content_of_def)+
  then have "gemini_carries from_str display (ps @ [p]) (qs @ []) e' d"
    using assms(1) by (simp add: gemini_carries_def gemini_content_of_def)
  with \<open>b = []\<close> show ?thesis by (intro exI [of _ "[]"] exI [of _ d]) simp
next
  case (Some v)
  have j: "json_text from_str display" using assms(1) by (simp add: gemini_carries_def)
  from gemini_event_read [OF j assms(1,2) Some] obtain rs d' where v: "wf_json v" "is_object v"
    "gemini_feed_event display v d = (rs, d')" "gemini_carries from_str display (ps @ [p]) (qs @ rs) () d'" by blast
  from reads_gemini [OF j v(1-3)] have "reads (gemini_feed from_str display) d b rs d'"
    using assms(3) Some by (simp add: gemini_encode_part_def)
  with v(4) show ?thesis by auto
qed

interpretation gemini: stream_codec "gemini_encode_part from_str display" "gemini_feed from_str display"
    "gemini_carries from_str display" "gemini_part from_str"
  for from_str display
  by unfold_locales (rule gemini_step)

lemma gemini_read:
  assumes "json_text from_str display" and "admissible (gemini_part from_str) [] ps"
  shows "\<exists>qs d. reads (gemini_feed from_str display) GeminiStreamDecoder_new
      (fst (encode_parts (gemini_encode_part from_str display) () ps)) qs d \<and>
    gemini_content_of from_str ps qs \<and> gd_response_id d = first_id ps \<and> gd_thought_signatures d = []"
proof -
  have "gemini_carries from_str display [] [] () GeminiStreamDecoder_new"
    using assms(1) by (simp add: gemini_carries_def gemini_content_of_def GeminiStreamDecoder_new_def)
  from gemini.stream_carried [OF this assms(2)] show ?thesis by (auto simp: gemini_carries_def)
qed

text \<open>
  A Gemini stream is read back as it was written, if its calls are whole and the usage comes after the
  finish reason: the same text, reasoning and errors, the same calls by name and value of the arguments, the
  usage with the written cache tokens counted as prompt tokens, and the finish reason, where a stop after a
  call is a tool-call stop.  At the end the decoder reports the completion under the id of the start.
\<close>

theorem gemini_stream_roundtrip:
  assumes "json_text from_str display" and "admissible (gemini_part from_str) [ResponseStarted i] ps"
  shows "\<exists>qs d. reads (gemini_feed from_str display) GeminiStreamDecoder_new
      (fst (encode_parts (gemini_encode_part from_str display) () (ResponseStarted i # ps))) qs d \<and>
    gemini_content_of from_str ps qs \<and> fst (gemini_decoder_finish d) = [ResponseCompleted i ''completed'' None []]"
proof -
  have "admissible (gemini_part from_str) [] (ResponseStarted i # ps)" using assms(2) by simp
  from gemini_read [OF assms(1) this] obtain qs d where "reads (gemini_feed from_str display) GeminiStreamDecoder_new
      (fst (encode_parts (gemini_encode_part from_str display) () (ResponseStarted i # ps))) qs d"
    "gemini_content_of from_str (ResponseStarted i # ps) qs" "gd_response_id d = Some i" "gd_thought_signatures d = []"
    by auto
  then show ?thesis
    by (intro exI [of _ qs] exI [of _ d]) (simp add: gemini_content_of_def gemini_decoder_finish_def del: encode_parts.simps)
qed

text \<open>
  The arguments of a tool call that is streamed in fragments are lost: a fragment that is not a JSON text
  of its own becomes a call of its own, without name and with empty arguments, and so does the opener.
\<close>

theorem streamed_arguments_lost:
  assumes "json_text from_str display" and "\<forall>a\<in>set fragments. from_str a = None"
  shows "\<exists>qs d. reads (gemini_feed from_str display) GeminiStreamDecoder_new
      (fst (encode_parts (gemini_encode_part from_str display) ()
        (ToolCallDelta i (Some n) [] None None None #
          map (\<lambda>a. ToolCallDelta i None a None None None) fragments))) qs d \<and>
    gemini_calls from_str qs = (Some n, object_of []) # replicate (length fragments) (None, object_of [])"
proof -
  let ?p = "\<lambda>a. ToolCallDelta i None a None None None"
  have args: "call_args from_str [] = object_of []" "a \<in> set fragments \<Longrightarrow> call_args from_str a = object_of []" for a
    using assms(2) by (simp_all add: call_args_def trim_def)
  have ne: "object_of [] \<noteq> JNull" by (simp add: object_of_def)
  have "admissible (gemini_part from_str) before (map ?p as)" if "set as \<subseteq> set fragments" "finishes_of before = []" for before as
    using that args(2) ne by (induction as arbitrary: before) (auto simp: subset_iff)
  then have adm: "admissible (gemini_part from_str) [] (ToolCallDelta i (Some n) [] None None None # map ?p fragments)"
    using args(1) ne by simp
  have "gemini_calls from_str (map ?p as) = replicate (length as) (None, object_of [])" if "set as \<subseteq> set fragments" for as
    using that args(2) by (induction as) auto
  with gemini_read [OF assms(1) adm] args(1) show ?thesis
    unfolding gemini_content_of_def by (auto simp del: encode_parts.simps)
qed

text \<open>
  A usage ends the stream: Gemini reports a running usage with every chunk, and the decoder takes the first
  one for the end, so the finish comes before the rest of the text.
\<close>

definition usage_chunk :: "string \<Rightarrow> json \<Rightarrow> json" where
  "usage_chunk t u = put ''usageMetadata'' u
     (content_frame [(''role'', JString ''model'')] (object_of [(''text'', JString t)]))"

theorem running_usage_ends_stream:
  assumes "json_text from_str display" and "wf_json u" and "wf_json u'" and "has_token_usage u" and "has_token_usage u'"
  shows "\<exists>d. reads (gemini_feed from_str display) GeminiStreamDecoder_new
      (sse_frame (display (usage_chunk t u)) @ sse_frame (display (usage_chunk t' u')))
    [TextDelta t, Usage_part (gemini_usage u), Finish Stop, TextDelta t', Usage_part (gemini_usage u')] d"
proof -
  let ?d = "GeminiStreamDecoder_new\<lparr>gd_saw_finish := True\<rparr>"
  have wf: "wf_json (usage_chunk t u)" "is_object (usage_chunk t u)" if "wf_json u" for t u
    using that by (simp_all add: usage_chunk_def content_frame_def candidate_frame_def wf_object_of)
  have f: "gemini_feed_event display (usage_chunk t u) d =
      (TextDelta t # fst (usage_parts (usage_chunk t u) d), snd (usage_parts (usage_chunk t u) d))" for t u d
    by (simp add: usage_chunk_def gemini_feed_event_def gemini_start_def gemini_error_def get_content_frame get_put
        candidate_parts_def call_parts_def text_parts_def get_object_of split_beta)
  have us: "usage_parts (usage_chunk t u) d = (if gd_saw_finish d then ([Usage_part (gemini_usage u)], d)
      else ([Usage_part (gemini_usage u), Finish (if gd_saw_tool_calls d then ToolCalls else Stop)],
             d\<lparr>gd_saw_finish := True\<rparr>))" if "has_token_usage u" for t u d
    using that by (simp add: usage_chunk_def usage_parts_def get_put)
  have "gemini_feed_event display (usage_chunk t u) GeminiStreamDecoder_new =
      ([TextDelta t, Usage_part (gemini_usage u), Finish Stop], ?d)"
    using assms(4) by (simp add: f us) (simp add: GeminiStreamDecoder_new_def)
  moreover have "gemini_feed_event display (usage_chunk t' u') ?d = ([TextDelta t', Usage_part (gemini_usage u')], ?d)"
    using assms(5) by (simp add: f us)
  ultimately have "reads (gemini_feed from_str display) GeminiStreamDecoder_new
      (sse_frame (display (usage_chunk t u)) @ sse_frame (display (usage_chunk t' u')))
      ([TextDelta t, Usage_part (gemini_usage u), Finish Stop] @ [TextDelta t', Usage_part (gemini_usage u')]) ?d"
    using wf assms(2,3) by (intro reads_append reads_gemini [OF assms(1)]) blast+
  then show ?thesis by auto
qed

definition gemini_demo :: "StreamPart list" where
  "gemini_demo = [TextDelta ''x'', Finish Length, Usage_part (Usage_default\<lparr>prompt_tokens := 7\<rparr>)]"

theorem gemini_stream_roundtrip_witness:
  "\<exists>qs d. reads (gemini_feed number_value number_display) GeminiStreamDecoder_new
      (fst (encode_parts (gemini_encode_part number_value number_display) () (ResponseStarted ''r'' # gemini_demo))) qs d \<and>
    text_of qs = ''x'' \<and> finishes_of qs = [Length] \<and>
    fst (gemini_decoder_finish d) = [ResponseCompleted ''r'' ''completed'' None []]"
proof -
  have "admissible (gemini_part number_value) [ResponseStarted ''r''] gemini_demo"
    by (simp add: gemini_demo_def usage_fits_def usage_total_def Usage_default_def)
  from gemini_stream_roundtrip [OF numbers_json_text this] show ?thesis
    by (elim exE conjE) (intro exI conjI, assumption, simp_all add: gemini_content_of_def gemini_demo_def)
qed

theorem streamed_arguments_lost_witness:
  "\<exists>qs d. reads (gemini_feed number_value number_display) GeminiStreamDecoder_new
      (fst (encode_parts (gemini_encode_part number_value number_display) ()
        [ToolCallDelta ''a'' (Some ''f'') [] None None None, ToolCallDelta ''a'' None ''{x'' None None None])) qs d \<and>
    gemini_calls number_value qs = [(Some ''f'', object_of []), (None, object_of [])]"
proof -
  have "number_value ''{x'' = None" by (simp add: number_value_def hex_val_def byte_def)
  with streamed_arguments_lost [OF numbers_json_text, of "[''{x'']" "''a''" "''f''"] show ?thesis
    by (simp del: encode_parts.simps)
qed

theorem running_usage_ends_stream_witness:
  "\<exists>d. reads (gemini_feed number_value number_display) GeminiStreamDecoder_new
      (sse_frame (number_display (usage_chunk ''x'' (usage_metadata Usage_default))) @
       sse_frame (number_display (usage_chunk ''y'' (usage_metadata Usage_default))))
    [TextDelta ''x'', Usage_part (gemini_usage (usage_metadata Usage_default)), Finish Stop, TextDelta ''y'',
     Usage_part (gemini_usage (usage_metadata Usage_default))] d"
proof -
  have "usage_fits Usage_default" by (simp add: usage_fits_def usage_total_def Usage_default_def)
  from gemini_usage_read [OF this] show ?thesis by (intro running_usage_ends_stream [OF numbers_json_text])
qed

end
