(* ===== verification/Chat_Stream.thy ===== *)
theory Chat_Stream
  imports Stream_Codec
begin

section \<open>Chat completions: streams\<close>

text \<open>
  The model of the stream half of \<^verbatim>\<open>protocols/src/chat_completions.rs\<close>: the encoder from the parts of the
  intermediate representation to server-sent events, and the decoder back.  \<open>display\<close> is the text of a JSON
  value, \<open>from_str\<close> its parser (whose error message is left out).  The map of the encoder from tool-call ids
  to indices is the list of its entries in the order of their insertion.  Encoding a part cannot fail,
  decoding a line can, and a tool-call index that does not fit into the address space panics.
\<close>

subsection \<open>The encoder\<close>

fun error_type_for_class :: "ErrorClass \<Rightarrow> string" where
  "error_type_for_class ErrorClass.Transient = ''server_error''"
| "error_type_for_class ErrorClass.RateLimited = ''rate_limit_error''"
| "error_type_for_class ErrorClass.Auth = ''authentication_error''"
| "error_type_for_class ErrorClass.BadRequest = ''invalid_request_error''"
| "error_type_for_class ErrorClass.LossyOrCapability = ''invalid_request_error''"
| "error_type_for_class ErrorClass.ModelNotFound = ''not_found_error''"
| "error_type_for_class ErrorClass.DeadlineExceeded = ''server_error''"
| "error_type_for_class ErrorClass.UpstreamExhausted = ''server_error''"
| "error_type_for_class ErrorClass.AuthMissing = ''authentication_error''"
| "error_type_for_class ErrorClass.AuthInvalid = ''authentication_error''"
| "error_type_for_class ErrorClass.AuthDisabled = ''permission_error''"
| "error_type_for_class ErrorClass.ModelAccessDenied = ''permission_error''"
| "error_type_for_class ErrorClass.Overloaded = ''overloaded_error''"

record ChatCompletionsStreamEncoder =
  ce_response_id :: "string option"
  ce_tool_call_indices :: "(string \<times> nat) list"

definition ChatCompletionsStreamEncoder_new :: ChatCompletionsStreamEncoder where
  "ChatCompletionsStreamEncoder_new = \<lparr>ce_response_id = None, ce_tool_call_indices = []\<rparr>"

definition tool_call_index :: "ChatCompletionsStreamEncoder \<Rightarrow> string \<Rightarrow> nat \<times> ChatCompletionsStreamEncoder" where
  "tool_call_index e i =
     (let indices = ce_tool_call_indices e; next_index = length indices in
      if i = [] then (next_index - 1, e)
      else case map_of indices i of
        Some n \<Rightarrow> (n, e)
      | None \<Rightarrow> (next_index, e\<lparr>ce_tool_call_indices := indices @ [(i, next_index)]\<rparr>))"

definition done_frame :: string where
  "done_frame = ''data: [DONE]''"

definition chunk_choice :: "json \<Rightarrow> json \<Rightarrow> json" where
  "chunk_choice delta finish_reason =
     object_of [(''index'', jnat 0), (''delta'', delta), (''finish_reason'', finish_reason)]"

definition chunk_object :: "ChatCompletionsStreamEncoder \<Rightarrow> json \<Rightarrow> json \<Rightarrow> json" where
  "chunk_object e delta finish_reason =
     object_of [(''id'', JString (unwrap_or (ce_response_id e) [])),
       (''object'', JString ''chat.completion.chunk''),
       (''choices'', JArray [chunk_choice delta finish_reason])]"

definition tool_call_object :: "nat \<Rightarrow> string \<Rightarrow> string option \<Rightarrow> string \<Rightarrow> json" where
  "tool_call_object tc_index i name arguments =
     object_of [(''index'', jnat tc_index), (''id'', JString i), (''type'', JString ''function''),
       (''function'', put_opt ''name'' (map_option JString name) (object_of [(''arguments'', JString arguments)]))]"

definition tool_call_delta :: "nat \<Rightarrow> string \<Rightarrow> string option \<Rightarrow> string \<Rightarrow> json" where
  "tool_call_delta tc_index i name arguments =
     object_of [(''tool_calls'', JArray [tool_call_object tc_index i name arguments])]"

definition positive :: "nat option \<Rightarrow> json option" where
  "positive n = (case n of Some k \<Rightarrow> if k > 0 then Some (jnat k) else None | None \<Rightarrow> None)"

definition prompt_for_openai :: "Usage \<Rightarrow> nat" where
  "prompt_for_openai u = add_u64 (add_u64 (prompt_tokens u) (unwrap_or (cache_read_tokens u) 0))
     (unwrap_or (cache_write_tokens u) 0)"

definition prompt_details :: "Usage \<Rightarrow> json option" where
  "prompt_details u =
     (let details = put_opt ''cache_write_tokens'' (positive (cache_write_tokens u))
            (put_opt ''cached_tokens'' (positive (cache_read_tokens u)) (object_of []))
      in if details = object_of [] then None else Some details)"

definition stream_usage_object :: "Usage \<Rightarrow> json" where
  "stream_usage_object u =
     put_opt ''completion_tokens_details''
       (map_option (\<lambda>rt. object_of [(''reasoning_tokens'', rt)]) (positive (reasoning_tokens u)))
     (put_opt ''prompt_tokens_details'' (prompt_details u)
       (object_of [(''prompt_tokens'', jnat (prompt_for_openai u)),
         (''completion_tokens'', jnat (completion_tokens u)),
         (''total_tokens'', jnat (add_u64 (prompt_for_openai u) (completion_tokens u)))]))"

fun finish_reason_str :: "FinishReason \<Rightarrow> string" where
  "finish_reason_str Stop = ''stop''"
| "finish_reason_str Length = ''length''"
| "finish_reason_str ContentFilter = ''content_filter''"
| "finish_reason_str ToolCalls = ''tool_calls''"
| "finish_reason_str (Other_reason _) = ''stop''"

definition error_object :: "string \<Rightarrow> ErrorClass \<Rightarrow> string option \<Rightarrow> json" where
  "error_object message cls upstream_code =
     object_of [(''error'', put_opt ''code'' (map_option JString upstream_code)
       (object_of [(''message'', JString message), (''type'', JString (error_type_for_class cls))]))]"

fun encode_part :: "(json \<Rightarrow> string) \<Rightarrow> ChatCompletionsStreamEncoder \<Rightarrow> StreamPart \<Rightarrow>
    string \<times> ChatCompletionsStreamEncoder" where
  "encode_part display e (ResponseStarted i) = ([], e\<lparr>ce_response_id := Some i\<rparr>)"
| "encode_part display e (TextDelta text) =
     (sse_frame (display (chunk_object e (object_of [(''content'', JString text)]) JNull)), e)"
| "encode_part display e (ReasoningDelta text _ _) =
     (sse_frame (display (chunk_object e (object_of [(''reasoning_content'', JString text)]) JNull)), e)"
| "encode_part display e (ToolCallDelta i name arguments _ _ _) =
     (let (tc_index, e') = tool_call_index e i
      in (sse_frame (display (chunk_object e' (tool_call_delta tc_index i name arguments) JNull)), e'))"
| "encode_part display e (ProgramDelta _ _ _ _) = ([], e)"
| "encode_part display e (ProgramOutputDelta _ _ _ _) = ([], e)"
| "encode_part display e (Usage_part u) =
     (sse_frame (display (put ''usage'' (stream_usage_object u) (chunk_object e (object_of []) JNull))), e)"
| "encode_part display e (Finish reason) =
     (sse_frame (display (chunk_object e (object_of []) (JString (finish_reason_str reason)))), e)"
| "encode_part display e (ResponseCompleted _ _ _ _) = (done_frame @ [LF, LF], e)"
| "encode_part display e (Error_part message cls upstream_code) =
     (sse_frame (display (error_object message cls upstream_code)), e)"

definition encode_error :: "(json \<Rightarrow> string) \<Rightarrow> string \<Rightarrow> ErrorClass \<Rightarrow> string option \<Rightarrow> string" where
  "encode_error display message cls upstream_code =
     sse_frame (display (error_object message cls upstream_code)) @ done_frame @ [LF, LF]"

definition encode_done :: string where
  "encode_done = done_frame @ [LF, LF]"

subsection \<open>The decoder\<close>

record ChatCompletionsStreamDecoder =
  cd_response_id :: "string option"
  cd_tool_calls :: "(string \<times> string) list"
  cd_saw_finish :: bool
  cd_saw_tool_calls :: bool

definition ChatCompletionsStreamDecoder_new :: ChatCompletionsStreamDecoder where
  "ChatCompletionsStreamDecoder_new =
     \<lparr>cd_response_id = None, cd_tool_calls = [], cd_saw_finish = False, cd_saw_tool_calls = False\<rparr>"

definition grow_slots :: "nat \<Rightarrow> (string \<times> string) list \<Rightarrow> (string \<times> string) list rust" where
  "grow_slots = resize_slots 48 ([], [])"

definition set_slot :: "nat \<Rightarrow> (string \<times> string \<Rightarrow> string \<times> string) \<Rightarrow> ChatCompletionsStreamDecoder \<Rightarrow>
    ChatCompletionsStreamDecoder rust" where
  "set_slot i f d = bind_rust (grow_slots i (cd_tool_calls d)) (\<lambda>slots.
     Inr (d\<lparr>cd_tool_calls := slots[i := f (slots ! i)]\<rparr>))"

definition nonempty_str :: "json \<Rightarrow> string option" where
  "nonempty_str v = (case as_str v of Some s \<Rightarrow> if s = [] then None else Some s | None \<Rightarrow> None)"

definition tool_call_parts :: "string \<Rightarrow> string option \<Rightarrow> string option \<Rightarrow> StreamPart list" where
  "tool_call_parts i name arguments =
     (case (name, arguments) of
        (Some n, Some args) \<Rightarrow> ToolCallDelta i (Some n) [] None None None #
          (if args = [] then [] else [ToolCallDelta i None args None None None])
      | (Some n, None) \<Rightarrow> [ToolCallDelta i (Some n) [] None None None]
      | (None, Some args) \<Rightarrow> [ToolCallDelta i None args None None None]
      | (None, None) \<Rightarrow> [])"

definition decode_tool_call :: "json \<Rightarrow> ChatCompletionsStreamDecoder \<Rightarrow>
    (StreamPart list \<times> ChatCompletionsStreamDecoder) rust" where
  "decode_tool_call tc d =
     (let i = unwrap_or (as_u64 (idx tc ''index'')) 0;
          d0 = d\<lparr>cd_saw_tool_calls := True\<rparr>;
          tc_name = nonempty_str (idx (idx tc ''function'') ''name'');
          tc_args = as_str (idx (idx tc ''function'') ''arguments'')
      in bind_rust (case nonempty_str (idx tc ''id'') of
             Some tc_id \<Rightarrow> set_slot i (\<lambda>s. (tc_id, snd s)) d0 | None \<Rightarrow> Inr d0) (\<lambda>d1.
         bind_rust (case tc_name of Some n \<Rightarrow> set_slot i (\<lambda>s. (fst s, n)) d1 | None \<Rightarrow> Inr d1) (\<lambda>d2.
         bind_rust (set_slot i (\<lambda>s. s) d2) (\<lambda>d3.
           Inr (tool_call_parts (fst (cd_tool_calls d3 ! i)) tc_name tc_args, d3)))))"

fun decode_tool_calls :: "json list \<Rightarrow> ChatCompletionsStreamDecoder \<Rightarrow>
    (StreamPart list \<times> ChatCompletionsStreamDecoder) rust" where
  "decode_tool_calls [] d = Inr ([], d)"
| "decode_tool_calls (tc # tcs) d =
     bind_rust (decode_tool_call tc d) (\<lambda>(ps, d1).
     bind_rust (decode_tool_calls tcs d1) (\<lambda>(qs, d2). Inr (ps @ qs, d2)))"

definition decode_text_delta :: "json \<Rightarrow> StreamPart list" where
  "decode_text_delta delta = (case nonempty_str (idx delta ''content'') of Some t \<Rightarrow> [TextDelta t] | None \<Rightarrow> [])"

definition decode_reasoning_delta :: "json \<Rightarrow> StreamPart list" where
  "decode_reasoning_delta delta =
     (case (case as_str (idx delta ''reasoning_content'') of Some t \<Rightarrow> Some t
              | None \<Rightarrow> as_str (idx delta ''reasoning'')) of
        Some t \<Rightarrow> if t = [] then [] else [ReasoningDelta t None None]
      | None \<Rightarrow>
          (case Option.bind (get delta ''reasoning_details'') (\<lambda>r. as_str (idx r ''text'')) of
             Some t \<Rightarrow> [ReasoningDelta t None None]
           | None \<Rightarrow> []))"

definition finish_reason_of :: "string \<Rightarrow> FinishReason" where
  "finish_reason_of fr =
     (if fr = ''stop'' then Stop
      else if fr = ''length'' then Length
      else if fr = ''content_filter'' then ContentFilter
      else if fr = ''tool_calls'' then ToolCalls
      else if fr = ''function_call'' then ToolCalls
      else Other_reason fr)"

definition decode_finish :: "json \<Rightarrow> StreamPart list" where
  "decode_finish choice =
     (case as_str (idx choice ''finish_reason'') of
        Some fr \<Rightarrow> if fr \<noteq> ''null'' \<and> fr \<noteq> [] then [Finish (finish_reason_of fr)] else []
      | None \<Rightarrow> [])"

text \<open>One choice: its parts, the finish that waits for the usage, and the state.\<close>

definition decode_choice :: "json \<Rightarrow> ChatCompletionsStreamDecoder \<Rightarrow>
    (StreamPart list \<times> StreamPart list \<times> ChatCompletionsStreamDecoder) rust" where
  "decode_choice choice d =
     (let delta = idx choice ''delta'' in
      bind_rust (decode_tool_calls (unwrap_or (as_array (idx delta ''tool_calls'')) []) d) (\<lambda>(tcs, d1).
        let fin = decode_finish choice
        in Inr (decode_text_delta delta @ decode_reasoning_delta delta @ tcs, fin,
                d1\<lparr>cd_saw_finish := cd_saw_finish d1 \<or> fin \<noteq> []\<rparr>)))"

fun decode_choices :: "json list \<Rightarrow> ChatCompletionsStreamDecoder \<Rightarrow>
    (StreamPart list \<times> StreamPart list \<times> ChatCompletionsStreamDecoder) rust" where
  "decode_choices [] d = Inr ([], [], d)"
| "decode_choices (c # cs) d =
     bind_rust (decode_choice c d) (\<lambda>(ps, fs, d1).
     bind_rust (decode_choices cs d1) (\<lambda>(qs, gs, d2). Inr (ps @ qs, fs @ gs, d2)))"

definition has_token_counts :: "json \<Rightarrow> bool" where
  "has_token_counts u \<longleftrightarrow> is_object u \<and>
     (is_u64 (idx u ''prompt_tokens'') \<or> is_u64 (idx u ''completion_tokens'') \<or> is_u64 (idx u ''total_tokens''))"

text \<open>Subtraction of natural numbers is \<^verbatim>\<open>saturating_sub\<close>.\<close>

definition decode_usage :: "json \<Rightarrow> nat \<Rightarrow> Usage" where
  "decode_usage u total_count =
     (let cache_read = as_u64 (idx (idx u ''prompt_tokens_details'') ''cached_tokens'');
          cache_write = as_u64 (idx (idx u ''prompt_tokens_details'') ''cache_write_tokens'');
          raw_prompt = unwrap_or (as_u64 (idx u ''prompt_tokens'')) 0
      in \<lparr>prompt_tokens = raw_prompt - unwrap_or cache_read 0 - unwrap_or cache_write 0,
          completion_tokens = unwrap_or (as_u64 (idx u ''completion_tokens'')) 0,
          reasoning_tokens = as_u64 (idx (idx u ''completion_tokens_details'') ''reasoning_tokens''),
          cache_read_tokens = cache_read, cache_write_tokens = cache_write, total_tokens = total_count\<rparr>)"

definition decode_chunk_usage :: "json \<Rightarrow> StreamPart list" where
  "decode_chunk_usage chunk =
     (case get chunk ''usage'' of
        Some u \<Rightarrow>
          if has_token_counts u
          then [Usage_part (decode_usage u (unwrap_or (as_u64 (idx u ''total_tokens''))
                  (add_u64 (unwrap_or (as_u64 (idx u ''prompt_tokens'')) 0)
                     (unwrap_or (as_u64 (idx u ''completion_tokens'')) 0))))]
          else []
      | None \<Rightarrow> [])"

definition decode_error_frame :: "json \<Rightarrow> StreamPart" where
  "decode_error_frame error =
     (let code = (case as_str (idx error ''code'') of Some c \<Rightarrow> Some c | None \<Rightarrow> as_str (idx error ''type''))
      in Error_part (unwrap_or (as_str (idx error ''message'')) ''Unknown error'')
           (classify_upstream_error None code) code)"

definition chunk_error :: "json \<Rightarrow> json option" where
  "chunk_error chunk = (case Option.bind (get chunk ''error'') as_object of
     Some kvs \<Rightarrow> if kvs = [] then None else Some (JObject kvs) | None \<Rightarrow> None)"

definition feed_chunk :: "json \<Rightarrow> ChatCompletionsStreamDecoder \<Rightarrow>
    (StreamPart list \<times> ChatCompletionsStreamDecoder) rust" where
  "feed_chunk chunk d =
     (let (started, d1) = (case as_str (idx chunk ''id'') of
            Some i \<Rightarrow> if cd_response_id d = None
                      then ([ResponseStarted i], d\<lparr>cd_response_id := Some i\<rparr>) else ([], d)
          | None \<Rightarrow> ([], d))
      in case chunk_error chunk of
           Some error \<Rightarrow> Inr (started @ [decode_error_frame error], d1)
         | None \<Rightarrow>
             bind_rust (decode_choices (unwrap_or (as_array (idx chunk ''choices'')) []) d1) (\<lambda>(ps, fs, d2).
               Inr (started @ ps @ decode_chunk_usage chunk @ fs, d2)))"

definition feed_done :: "ChatCompletionsStreamDecoder \<Rightarrow> StreamPart list" where
  "feed_done d =
     (if \<not> cd_saw_finish d \<and> cd_saw_tool_calls d then [Finish ToolCalls] else []) @
     [ResponseCompleted (unwrap_or (cd_response_id d) []) ''completed'' None []]"

definition feed :: "(string \<Rightarrow> json option) \<Rightarrow> ChatCompletionsStreamDecoder \<Rightarrow> string \<Rightarrow>
    ((Error + StreamPart list) \<times> ChatCompletionsStreamDecoder) rust" where
  "feed from_str d line =
     (let l = trim line in
      if l = done_frame then Inr (Inr (feed_done d), d)
      else if l = [] then Inr (Inr [], d)
      else case strip_prefix data_prefix l of
        None \<Rightarrow> Inr (Inr [], d)
      | Some dat \<Rightarrow>
          (case from_str dat of
             None \<Rightarrow> Inr (Inl (Codec ''Failed to parse SSE data''), d)
           | Some chunk \<Rightarrow>
               let object = as_str (idx chunk ''object'') in
               if object = Some ''chat.completion.chunk'' \<or> object = None
               then bind_rust (feed_chunk chunk d) (\<lambda>(ps, d'). Inr (Inr ps, d'))
               else if object = Some ''error'' then Inr (Inr [decode_error_frame (idx chunk ''error'')], d)
               else Inr (Inr [], d)))"

definition decoder_finish :: "StreamPart list" where
  "decoder_finish = []"


subsection \<open>Reading a chunk\<close>

lemma done_line: "json_text from_str display \<Longrightarrow> wf_json v \<Longrightarrow> data_prefix @ display v \<noteq> done_frame"
  using frame_line(3) [of from_str display v] by (simp add: data_prefix_def done_frame_def)

lemma feed_frame:
  assumes "json_text from_str display" and "wf_json v"
    and "as_str (idx v ''object'') = Some ''chat.completion.chunk'' \<or> as_str (idx v ''object'') = None"
  shows "feed from_str d (data_prefix @ display v) = bind_rust (feed_chunk v d) (\<lambda>(ps, d'). Inr (Inr ps, d'))"
  using frame_line [OF assms(1,2)] done_line [OF assms(1,2)] assms(3) by (simp add: feed_def Let_def)

lemma feed_blank [simp]: "feed from_str d [] = Inr (Inr [], d)"
  by (simp add: feed_def trim_def done_frame_def)

lemma feed_done_frame [simp]: "feed from_str d done_frame = Inr (Inr (feed_done d), d)"
proof -
  have "trim done_frame = done_frame"
    by (rule trim_id) (simp_all add: done_frame_def is_whitespace_def byte_def)
  then show ?thesis by (simp add: feed_def)
qed

text \<open>The chunks of the encoder are well-formed and read back.\<close>

definition started :: "ChatCompletionsStreamDecoder \<Rightarrow> string \<Rightarrow> StreamPart list \<times> ChatCompletionsStreamDecoder" where
  "started d i = (if cd_response_id d = None then ([ResponseStarted i], d\<lparr>cd_response_id := Some i\<rparr>) else ([], d))"

lemma wf_chunk: "wf_json delta \<Longrightarrow> wf_json fin \<Longrightarrow> wf_json (chunk_object e delta fin)"
  by (simp add: chunk_object_def chunk_choice_def wf_object_of)

lemma idx_chunk:
  "as_str (idx (chunk_object e delta fin) ''object'') = Some ''chat.completion.chunk''"
  "as_str (idx (chunk_object e delta fin) ''id'') = Some (unwrap_or (ce_response_id e) [])"
  "get (chunk_object e delta fin) ''error'' = None" "get (chunk_object e delta fin) ''usage'' = None"
  "as_array (idx (chunk_object e delta fin) ''choices'') = Some [chunk_choice delta fin]"
  by (simp_all add: chunk_object_def get_object_of)

lemma idx_choice: "idx (chunk_choice delta fin) ''delta'' = delta" "idx (chunk_choice delta fin) ''finish_reason'' = fin"
  by (simp_all add: chunk_choice_def)

lemma feed_chunk_object:
  "feed_chunk (chunk_object e delta fin) d =
     (let (ss, d1) = started d (unwrap_or (ce_response_id e) []) in
      bind_rust (decode_choice (chunk_choice delta fin) d1) (\<lambda>(ps, fs, d2). Inr (ss @ ps @ fs, d2)))"
  by (simp add: feed_chunk_def idx_chunk chunk_error_def decode_chunk_usage_def started_def Let_def split_beta
      split: sum.split)

definition plain_delta :: "json \<Rightarrow> bool" where
  "plain_delta delta \<longleftrightarrow> as_array (idx delta ''tool_calls'') = None"

lemma decode_choice_plain:
  assumes "plain_delta delta"
  shows "decode_choice (chunk_choice delta fin) d = (let fs = decode_finish (chunk_choice delta fin) in
    Inr (decode_text_delta delta @ decode_reasoning_delta delta, fs,
         d\<lparr>cd_saw_finish := cd_saw_finish d \<or> fs \<noteq> []\<rparr>))"
  using assms by (simp add: decode_choice_def idx_choice plain_delta_def Let_def)

lemma decode_finish_choice:
  "decode_finish (chunk_choice delta JNull) = []"
  "decode_finish (chunk_choice delta (JString (finish_reason_str r))) = [Finish (finish_reason_of (finish_reason_str r))]"
  by (cases r; simp add: decode_finish_def idx_choice)+

lemma reason_roundtrip:
  "finish_reason_of (finish_reason_str r) = (case r of Other_reason _ \<Rightarrow> Stop | _ \<Rightarrow> r)"
  by (cases r) (simp_all add: finish_reason_of_def)

text \<open>Usage: what survives is what the encoder sends.\<close>

definition chat_usage :: "Usage \<Rightarrow> Usage" where
  "chat_usage u = \<lparr>prompt_tokens = prompt_tokens u, completion_tokens = completion_tokens u,
     reasoning_tokens = (if reasoning_tokens u = Some 0 then None else reasoning_tokens u),
     cache_read_tokens = (if cache_read_tokens u = Some 0 then None else cache_read_tokens u),
     cache_write_tokens = (if cache_write_tokens u = Some 0 then None else cache_write_tokens u),
     total_tokens = usage_total u\<rparr>"

lemma positive_cases:
  "positive n = (if n = None \<or> n = Some 0 then None else Some (jnat (the n)))"
  by (cases n) (simp_all add: positive_def)

lemma prompt_details_get:
  "as_u64 (idx (unwrap_or (prompt_details u) JNull) ''cached_tokens'') =
     (if cache_read_tokens u = Some 0 then None else cache_read_tokens u)"
  "as_u64 (idx (unwrap_or (prompt_details u) JNull) ''cache_write_tokens'') =
     (if cache_write_tokens u = Some 0 then None else cache_write_tokens u)"
  by (cases "cache_read_tokens u"; cases "cache_write_tokens u";
      simp add: prompt_details_def positive_cases Let_def put_opt_def)+

lemma usage_object_get:
  "idx (stream_usage_object u) ''prompt_tokens'' = jnat (prompt_for_openai u)"
  "idx (stream_usage_object u) ''completion_tokens'' = jnat (completion_tokens u)"
  "idx (stream_usage_object u) ''total_tokens'' = jnat (add_u64 (prompt_for_openai u) (completion_tokens u))"
  "idx (stream_usage_object u) ''prompt_tokens_details'' = unwrap_or (prompt_details u) JNull"
  "as_u64 (idx (idx (stream_usage_object u) ''completion_tokens_details'') ''reasoning_tokens'') =
     (if reasoning_tokens u = Some 0 then None else reasoning_tokens u)"
  "is_object (stream_usage_object u)"
proof -
  show "is_object (stream_usage_object u)"
    by (simp add: stream_usage_object_def put_opt_def split: option.split)
qed (simp_all add: stream_usage_object_def positive_cases unwrap_or_def split: option.split)

lemma usage_roundtrip:
  assumes "usage_fits u"
  shows "decode_usage (stream_usage_object u) (add_u64 (prompt_for_openai u) (completion_tokens u)) = chat_usage u"
proof -
  have "prompt_for_openai u = prompt_tokens u + unwrap_or (cache_read_tokens u) 0 + unwrap_or (cache_write_tokens u) 0"
    "add_u64 (prompt_for_openai u) (completion_tokens u) = total_tokens (chat_usage u)"
    using assms by (simp_all add: prompt_for_openai_def add_u64_def usage_fits_def usage_total_def chat_usage_def)
  moreover have "unwrap_or (if n = Some 0 then None else n) 0 = unwrap_or n (0 :: nat)" for n by (cases n) simp_all
  ultimately show ?thesis
    by (simp add: decode_usage_def usage_object_get prompt_details_get Let_def chat_usage_def)
qed


text \<open>
  Tool calls: the slots of the decoder hold the ids of the encoder, in the same order.  The decoder has not
  seen the id of the response, or it is that of the encoder.
\<close>

definition in_sync :: "ChatCompletionsStreamEncoder \<Rightarrow> ChatCompletionsStreamDecoder \<Rightarrow> bool" where
  "in_sync e d \<longleftrightarrow> map snd (ce_tool_call_indices e) = [0..<length (ce_tool_call_indices e)] \<and>
     map fst (cd_tool_calls d) = map fst (ce_tool_call_indices e) \<and>
     cd_response_id d \<in> {None, Some (unwrap_or (ce_response_id e) [])}"

definition given_name :: "string option \<Rightarrow> string option" where
  "given_name name = (if name = Some [] then None else name)"

lemma tool_call_fields:
  "as_u64 (idx (tool_call_object n i name args) ''index'') = Some n"
  "idx (tool_call_object n i name args) ''id'' = JString i"
  "nonempty_str (idx (idx (tool_call_object n i name args) ''function'') ''name'') = given_name name"
  "as_str (idx (idx (tool_call_object n i name args) ''function'') ''arguments'') = Some args"
  by (cases name; simp add: tool_call_object_def nonempty_str_def given_name_def)+

lemma in_sync_index:
  assumes "in_sync e d" and "map_of (ce_tool_call_indices e) i = Some n"
  shows "n < length (cd_tool_calls d)" and "fst (cd_tool_calls d ! n) = i"
proof -
  let ?ids = "ce_tool_call_indices e"
  from assms(2) have "(i, n) \<in> set ?ids" by (rule map_of_SomeD)
  then obtain k where k: "k < length ?ids" "?ids ! k = (i, n)" by (auto simp: in_set_conv_nth)
  have "map snd ?ids ! k = [0..<length ?ids] ! k" using assms(1) by (simp add: in_sync_def)
  with k have n: "n = k" by simp
  have len: "length (cd_tool_calls d) = length ?ids" using assms(1) by (metis in_sync_def length_map)
  with k n show "n < length (cd_tool_calls d)" by simp
  have "map fst (cd_tool_calls d) ! n = map fst ?ids ! n" using assms(1) by (simp add: in_sync_def)
  with k n len show "fst (cd_tool_calls d ! n) = i" by simp
qed

lemma set_slot_in_range:
  "n < length (cd_tool_calls d) \<Longrightarrow> set_slot n f d =
     Inr (d\<lparr>cd_tool_calls := (cd_tool_calls d)[n := f (cd_tool_calls d ! n)]\<rparr>)"
  by (simp add: set_slot_def grow_slots_def resize_slots_def)

lemma set_slot_next:
  "48 * (length (cd_tool_calls d) + 1) < 2 ^ 63 \<Longrightarrow> set_slot (length (cd_tool_calls d)) f d =
     Inr (d\<lparr>cd_tool_calls := cd_tool_calls d @ [f ([], [])]\<rparr>)"
  by (simp add: set_slot_def grow_slots_def resize_slots_def nth_append)

lemma tool_call_sync:
  assumes "in_sync e d" and "i \<noteq> []" and "tool_call_index e i = (n, e')"
    and "48 * (length (ce_tool_call_indices e) + 1) < 2 ^ 63"
  shows "\<exists>d1. set_slot n (\<lambda>s. (i, snd s)) d = Inr d1 \<and> in_sync e' d1 \<and> n < length (cd_tool_calls d1) \<and>
    fst (cd_tool_calls d1 ! n) = i \<and> d1 = d\<lparr>cd_tool_calls := cd_tool_calls d1\<rparr>"
proof (cases "map_of (ce_tool_call_indices e) i")
  case (Some k)
  with assms have n: "n = k" "e' = e" by (simp_all add: tool_call_index_def Let_def)
  note ix = in_sync_index [OF assms(1) Some]
  have "map fst ((cd_tool_calls d)[k := (i, x)]) = map fst (cd_tool_calls d)" for x
    using ix by (simp add: map_update list_update_same_conv)
  with assms(1) ix show ?thesis by (simp add: n set_slot_in_range in_sync_def)
next
  case None
  with assms have n: "n = length (ce_tool_call_indices e)"
    "e' = e\<lparr>ce_tool_call_indices := ce_tool_call_indices e @ [(i, n)]\<rparr>"
    by (auto simp: tool_call_index_def Let_def)
  have len: "length (cd_tool_calls d) = length (ce_tool_call_indices e)"
    using assms(1) by (metis in_sync_def length_map)
  from set_slot_next [of d "\<lambda>s. (i, snd s)"] assms(1,4) show ?thesis
    by (simp add: n len in_sync_def nth_append)
qed

lemma decode_tool_call_sync:
  assumes "in_sync e d" and "i \<noteq> []" and "tool_call_index e i = (n, e')"
    and "48 * (length (ce_tool_call_indices e) + 1) < 2 ^ 63"
  shows "\<exists>d'. decode_tool_call (tool_call_object n i name args) d =
      Inr (tool_call_parts i (given_name name) (Some args), d') \<and> in_sync e' d' \<and>
      cd_response_id d' = cd_response_id d \<and> cd_saw_finish d' = cd_saw_finish d"
proof -
  let ?d0 = "d\<lparr>cd_saw_tool_calls := True\<rparr>"
  have "in_sync e ?d0" using assms(1) by (simp add: in_sync_def)
  from tool_call_sync [OF this assms(2-4)] obtain d1 where d1: "set_slot n (\<lambda>s. (i, snd s)) ?d0 = Inr d1"
    "in_sync e' d1" "n < length (cd_tool_calls d1)" "fst (cd_tool_calls d1 ! n) = i"
    "d1 = ?d0\<lparr>cd_tool_calls := cd_tool_calls d1\<rparr>" by blast
  have keep: "map fst ((cd_tool_calls d1)[n := (fst (cd_tool_calls d1 ! n), x)]) = map fst (cd_tool_calls d1)" for x
    using d1(3) by (simp add: map_update list_update_same_conv)
  have same: "cd_response_id d1 = cd_response_id d" "cd_saw_finish d1 = cd_saw_finish d"
    using d1(5) by (metis ChatCompletionsStreamDecoder.select_convs ChatCompletionsStreamDecoder.surjective
        ChatCompletionsStreamDecoder.update_convs(2,4))+
  have id: "nonempty_str (JString i) = Some i" using assms(2) by (simp add: nonempty_str_def)
  show ?thesis
    using d1(1-4) keep same
    by (cases "given_name name")
      (simp_all add: decode_tool_call_def tool_call_fields id Let_def set_slot_in_range in_sync_def)
qed


subsection \<open>The round trip\<close>

fun chat_reason :: "FinishReason \<Rightarrow> FinishReason" where
  "chat_reason (Other_reason _) = Stop"
| "chat_reason r = r"

text \<open>What a client gathers is the same; usages and finish reasons are those the protocol can express.\<close>

definition same_content :: "StreamPart list \<Rightarrow> StreamPart list \<Rightarrow> bool" where
  "same_content ps qs \<longleftrightarrow> same_dialogue ps qs \<and>
     usages_of qs = map chat_usage (usages_of ps) \<and> finishes_of qs = map chat_reason (finishes_of ps)"

lemma same_content_append: "same_content ps qs \<Longrightarrow> same_content ps' qs' \<Longrightarrow> same_content (ps @ ps') (qs @ qs')"
  by (simp add: same_content_def same_dialogue_append)

text \<open>
  What a stream may have next: its start comes first, its end after a finish and last; tool calls have an
  id, and the table of tool calls fits into the address space.
\<close>

fun chat_part :: "StreamPart list \<Rightarrow> StreamPart \<Rightarrow> bool" where
  "chat_part ps (ToolCallDelta i _ _ _ _ _) \<longleftrightarrow> i \<noteq> []"
| "chat_part ps (Usage_part u) \<longleftrightarrow> usage_fits u"
| "chat_part ps (ResponseStarted _) \<longleftrightarrow> ps = []"
| "chat_part ps (ResponseCompleted _ _ _ _) \<longleftrightarrow> finishes_of ps \<noteq> []"
| "chat_part ps _ \<longleftrightarrow> True"

definition chat_admits :: "StreamPart list \<Rightarrow> StreamPart \<Rightarrow> bool" where
  "chat_admits ps p \<longleftrightarrow> completed_of ps = [] \<and> 48 * (length ps + 1) < 2 ^ 63 \<and> chat_part ps p"

text \<open>One part between the start and the end.\<close>

definition carried :: "(string \<Rightarrow> json option) \<Rightarrow> ChatCompletionsStreamEncoder \<Rightarrow> ChatCompletionsStreamDecoder \<Rightarrow>
    StreamPart \<Rightarrow> string \<Rightarrow> bool" where
  "carried from_str e' d p b \<longleftrightarrow> (\<exists>rs d'. reads (feed from_str) d b rs d' \<and> in_sync e' d' \<and>
     same_content [p] rs \<and> completed_of rs = [] \<and> cd_saw_finish d' = (cd_saw_finish d \<or> finishes_of [p] \<noteq> []) \<and>
     (finishes_of [p] \<noteq> [] \<or> cd_response_id d \<noteq> None \<longrightarrow> cd_response_id d' \<noteq> None))"

lemma feed_sse_frame:
  assumes "json_text from_str display" and "wf_json v"
    and "as_str (idx v ''object'') = Some ''chat.completion.chunk'' \<or> as_str (idx v ''object'') = None"
    and "feed_chunk v d = Inr (ps, d')"
  shows "reads (feed from_str) d (sse_frame (display v)) ps d'"
  using feed_frame [OF assms(1-3), of d] assms(4) frame_line(4) [OF assms(1,2)] by (auto intro: reads_frame)

lemma started_facts:
  assumes "started d (unwrap_or (ce_response_id e) []) = (ss, d1)"
  shows "ss = [] \<or> (\<exists>r. ss = [ResponseStarted r])" and "cd_saw_finish d1 = cd_saw_finish d"
    and "in_sync e d \<Longrightarrow> in_sync e d1" and "cd_response_id d1 \<noteq> None"
  using assms by (auto simp: started_def in_sync_def split: if_splits)

lemma chunk_carried:
  assumes "json_text from_str display" and "in_sync e d" and "wf_json v"
    and "as_str (idx v ''object'') = Some ''chat.completion.chunk'' \<or> as_str (idx v ''object'') = None"
    and "started d (unwrap_or (ce_response_id e) []) = (ss, d1)"
    and "feed_chunk v d = Inr (ss @ rs, d2)" and "in_sync e' d2" and "cd_response_id d2 = cd_response_id d1"
    and "same_content [p] rs" and "completed_of rs = []"
    and "cd_saw_finish d2 = (cd_saw_finish d \<or> finishes_of [p] \<noteq> [])"
  shows "carried from_str e' d p (sse_frame (display v))"
proof -
  have "same_content [] ss" "completed_of ss = []"
    using started_facts(1) [OF assms(5)] by (auto simp: same_content_def same_dialogue_def)
  then have "same_content [p] (ss @ rs)" "completed_of (ss @ rs) = []"
    using same_content_append [of "[]" ss "[p]" rs] assms(9,10) by auto
  then show ?thesis
    using feed_sse_frame [OF assms(1,3,4,6)] assms(7,8,11) started_facts(4) [OF assms(5)]
    by (auto simp: carried_def intro!: exI [of _ "ss @ rs"] exI [of _ d2])
qed

lemma plain_carried:
  assumes "json_text from_str display" and "in_sync e d" and "wf_json delta" and "plain_delta delta"
    and "fin = JNull \<or> (\<exists>r. fin = JString (finish_reason_str r))"
    and "same_content [p] (decode_text_delta delta @ decode_reasoning_delta delta @ decode_finish (chunk_choice delta fin))"
    and "completed_of (decode_text_delta delta @ decode_reasoning_delta delta @ decode_finish (chunk_choice delta fin)) = []"
    and "(finishes_of [p] \<noteq> []) = (fin \<noteq> JNull)"
  shows "carried from_str e d p (sse_frame (display (chunk_object e delta fin)))"
proof -
  obtain ss d1 where s: "started d (unwrap_or (ce_response_id e) []) = (ss, d1)" by fastforce
  let ?v = "chunk_object e delta fin"
  let ?d = "d1\<lparr>cd_saw_finish := cd_saw_finish d1 \<or> decode_finish (chunk_choice delta fin) \<noteq> []\<rparr>"
  have wf: "wf_json ?v" using assms(3,5) by (intro wf_chunk) auto
  have f: "feed_chunk ?v d = Inr (ss @ (decode_text_delta delta @ decode_reasoning_delta delta @
      decode_finish (chunk_choice delta fin)), ?d)"
    by (simp add: feed_chunk_object s decode_choice_plain [OF assms(4)] Let_def)
  have "in_sync e ?d" using started_facts(3) [OF s assms(2)] by (simp add: in_sync_def)
  moreover have "cd_saw_finish ?d = (cd_saw_finish d \<or> finishes_of [p] \<noteq> [])"
    using assms(5,8) started_facts(2) [OF s] by (auto simp: decode_finish_choice)
  ultimately show ?thesis
    by (intro chunk_carried [OF assms(1,2) wf _ s f _ _ assms(6,7)]) (simp_all add: idx_chunk)
qed

lemma delta_facts:
  "plain_delta (object_of [])" "plain_delta (object_of [(''content'', JString t)])"
  "plain_delta (object_of [(''reasoning_content'', JString t)])"
  "decode_text_delta (object_of []) = []" "decode_reasoning_delta (object_of []) = []"
  "decode_text_delta (object_of [(''content'', JString t)]) = (if t = [] then [] else [TextDelta t])"
  "decode_reasoning_delta (object_of [(''content'', JString t)]) = []"
  "decode_text_delta (object_of [(''reasoning_content'', JString t)]) = []"
  "decode_reasoning_delta (object_of [(''reasoning_content'', JString t)]) =
     (if t = [] then [] else [ReasoningDelta t None None])"
  by (simp_all add: plain_delta_def decode_text_delta_def decode_reasoning_delta_def nonempty_str_def get_object_of)

lemma usage_carried:
  assumes "json_text from_str display" and "in_sync e d" and "usage_fits u"
  shows "carried from_str e d (Usage_part u)
    (sse_frame (display (put ''usage'' (stream_usage_object u) (chunk_object e (object_of []) JNull))))"
proof -
  let ?c = "chunk_object e (object_of []) JNull"
  let ?v = "put ''usage'' (stream_usage_object u) ?c"
  obtain ss d1 where s: "started d (unwrap_or (ce_response_id e) []) = (ss, d1)" by fastforce
  have "wf_json (object_of [])" by (simp add: object_of_def)
  moreover have "wf_json (stream_usage_object u)"
    by (simp add: stream_usage_object_def put_opt_def prompt_details_def positive_cases Let_def wf_object_of
        split: option.split)
  ultimately have wf: "wf_json ?v" by (simp add: wf_chunk)
  have c: "decode_choice (chunk_choice (object_of []) JNull) d1 = Inr ([], [], d1)" for d1
    by (simp add: decode_choice_plain [OF delta_facts(1)] delta_facts decode_finish_choice Let_def)
  have us: "decode_chunk_usage ?v = [Usage_part (chat_usage u)]"
    using usage_object_get(6) usage_roundtrip [OF assms(3)]
    by (simp add: decode_chunk_usage_def has_token_counts_def usage_object_get)
  have "feed_chunk ?v d = Inr (ss @ [Usage_part (chat_usage u)], d1)"
    using s by (simp add: feed_chunk_def idx_chunk chunk_error_def us c started_def Let_def split_beta split: if_splits)
  from chunk_carried [OF assms(1,2) wf _ s this started_facts(3) [OF s assms(2)]] started_facts(2) [OF s]
  show ?thesis by (simp add: idx_chunk same_content_def same_dialogue_def)
qed

lemma error_carried:
  assumes "json_text from_str display" and "in_sync e d"
  shows "carried from_str e d (Error_part m c code) (sse_frame (display (error_object m c code)))"
proof -
  let ?v = "error_object m c code"
  let ?err = "put_opt ''code'' (map_option JString code)
       (object_of [(''message'', JString m), (''type'', JString (error_type_for_class c))])"
  have wf: "wf_json ?v" by (simp add: error_object_def put_opt_def wf_object_of split: option.split)
  have "get ?v ''error'' = Some ?err" "as_str (idx ?v ''object'') = None" "as_str (idx ?v ''id'') = None"
    by (simp_all add: error_object_def get_object_of)
  moreover obtain kvs where kvs: "?err = JObject kvs"
    by (cases code) (auto simp: put_opt_def object_of_def)
  moreover have "kvs \<noteq> []" using kvs get_put_opt [of "''code''" "map_option JString code" _ "''message''"]
    by (auto simp: get_object_of dest: arg_cong [where f = "\<lambda>v. get v ''message''"])
  ultimately have "feed_chunk ?v d = Inr ([decode_error_frame ?err], d)"
    and o: "as_str (idx ?v ''object'') = None"
    by (simp_all add: feed_chunk_def chunk_error_def)
  from feed_sse_frame [OF assms(1) wf _ this(1)] o
  have "reads (feed from_str) d (sse_frame (display ?v)) [decode_error_frame ?err] d" by auto
  moreover have "same_content [Error_part m c code] [decode_error_frame ?err]" "completed_of [decode_error_frame ?err] = []"
    by (simp_all add: same_content_def same_dialogue_def decode_error_frame_def Let_def)
  ultimately show ?thesis using assms(2) by (auto simp: carried_def)
qed

lemma tool_call_carried:
  assumes "json_text from_str display" and "in_sync e d" and "i \<noteq> []"
    and "48 * (length (ce_tool_call_indices e) + 1) < 2 ^ 63" and "tool_call_index e i = (n, e')"
  shows "carried from_str e' d (ToolCallDelta i name args w x y)
    (sse_frame (display (chunk_object e' (tool_call_delta n i name args) JNull)))"
proof -
  let ?delta = "tool_call_delta n i name args"
  let ?v = "chunk_object e' ?delta JNull"
  have r: "ce_response_id e' = ce_response_id e"
    using assms(5) by (auto simp: tool_call_index_def Let_def split: if_splits option.splits)
  obtain ss d1 where s: "started d (unwrap_or (ce_response_id e) []) = (ss, d1)" by fastforce
  from decode_tool_call_sync [OF started_facts(3) [OF s assms(2)] assms(3,5,4), of name args] obtain d2 where d2:
    "decode_tool_call (tool_call_object n i name args) d1 = Inr (tool_call_parts i (given_name name) (Some args), d2)"
    "in_sync e' d2" "cd_saw_finish d2 = cd_saw_finish d1" "cd_response_id d2 = cd_response_id d1" by blast
  have wf: "wf_json ?v"
    by (simp add: wf_chunk tool_call_delta_def tool_call_object_def wf_object_of put_opt_def split: option.split)
  have "as_array (idx ?delta ''tool_calls'') = Some [tool_call_object n i name args]"
    "decode_text_delta ?delta = []" "decode_reasoning_delta ?delta = []"
    by (simp_all add: tool_call_delta_def decode_text_delta_def decode_reasoning_delta_def nonempty_str_def get_object_of)
  then have f: "feed_chunk ?v d = Inr (ss @ tool_call_parts i (given_name name) (Some args), d2)"
    using d2 by (simp add: feed_chunk_object s r decode_choice_def idx_choice decode_finish_choice Let_def)
  have "same_content [ToolCallDelta i name args w x y] (tool_call_parts i (given_name name) (Some args))"
    "completed_of (tool_call_parts i (given_name name) (Some args)) = []"
    by (cases name; auto simp: same_content_def same_dialogue_def tool_call_parts_def given_name_def)+
  then show ?thesis using d2 started_facts(2) [OF s]
    by (intro chunk_carried [OF assms(1,2) wf _ s f]) (simp_all add: idx_chunk)
qed

lemma part_carried:
  assumes "json_text from_str display" and "in_sync e d" and "chat_part (q # qs) p" and "completed_of [p] = []"
    and "48 * (length (ce_tool_call_indices e) + 1) < 2 ^ 63" and "encode_part display e p = (b, e')"
  shows "carried from_str e' d p b"
proof (cases p)
  have wf: "wf_json (object_of [])" "wf_json (object_of [(k, JString t)])" for k t
    by (simp_all add: wf_object_of)
  note plain = wf delta_facts decode_finish_choice same_content_def same_dialogue_def
  {
    case (TextDelta t)
    with assms(6) have b: "b = sse_frame (display (chunk_object e (object_of [(''content'', JString t)]) JNull))" "e' = e"
      by auto
    show ?thesis unfolding b TextDelta by (rule plain_carried [OF assms(1,2)]) (simp_all add: plain)
  next
    case (ReasoningDelta t x y)
    with assms(6) have b: "b = sse_frame (display (chunk_object e (object_of [(''reasoning_content'', JString t)]) JNull))"
        "e' = e" by auto
    show ?thesis unfolding b ReasoningDelta by (rule plain_carried [OF assms(1,2)]) (simp_all add: plain)
  next
    case (Finish r)
    with assms(6) have b: "b = sse_frame (display (chunk_object e (object_of []) (JString (finish_reason_str r))))" "e' = e"
      by auto
    have "finish_reason_of (finish_reason_str r) = chat_reason r"
      by (cases r) (simp_all add: finish_reason_of_def)
    then show ?thesis unfolding b Finish
      by (intro plain_carried [OF assms(1,2)]) (auto simp: plain)
  next
    case (ToolCallDelta i name args w x y)
    obtain n e1 where ix: "tool_call_index e i = (n, e1)" by fastforce
    with ToolCallDelta assms(6) have b: "b = sse_frame (display (chunk_object e1 (tool_call_delta n i name args) JNull))"
        "e' = e1" by auto
    show ?thesis unfolding b ToolCallDelta
      by (rule tool_call_carried [OF assms(1,2) _ assms(5) ix]) (use assms(3) ToolCallDelta in simp)
  next
    case (Usage_part u)
    with assms(3,6) usage_carried [OF assms(1,2), of u] show ?thesis by auto
  next
    case (Error_part m c code)
    with assms(6) error_carried [OF assms(1,2), of m c code] show ?thesis by auto
  next
    case (ProgramDelta i c x y)
    with assms(2,6) show ?thesis by (simp add: carried_def same_content_def same_dialogue_def)
  next
    case (ProgramOutputDelta i c x y)
    with assms(2,6) show ?thesis by (simp add: carried_def same_content_def same_dialogue_def)
  next
    case (ResponseStarted i)
    with assms(3) show ?thesis by simp
  next
    case (ResponseCompleted i st u x)
    with assms(4) show ?thesis by simp
  }
qed

text \<open>The relation of written and read streams, and the codec as an instance of the interface.\<close>

definition chat_carries :: "(string \<Rightarrow> json option) \<Rightarrow> (json \<Rightarrow> string) \<Rightarrow> StreamPart list \<Rightarrow> StreamPart list \<Rightarrow>
    ChatCompletionsStreamEncoder \<Rightarrow> ChatCompletionsStreamDecoder \<Rightarrow> bool" where
  "chat_carries from_str display ps qs e d \<longleftrightarrow> json_text from_str display \<and> same_content ps qs \<and>
     completed_of qs = map (\<lambda>_. unwrap_or (first_id ps) []) (completed_of ps) \<and>
     in_sync e d \<and> ce_response_id e = first_id ps \<and> length (ce_tool_call_indices e) \<le> length ps \<and>
     cd_saw_finish d = (finishes_of ps \<noteq> []) \<and> (finishes_of ps \<noteq> [] \<longrightarrow> cd_response_id d \<noteq> None) \<and>
     (ps = [] \<longrightarrow> cd_response_id d = None)"

lemma encoder_keeps:
  assumes "encode_part display e p = (b, e')"
  shows "length (ce_tool_call_indices e') \<le> length (ce_tool_call_indices e) + 1"
    and "(\<nexists>i. p = ResponseStarted i) \<Longrightarrow> ce_response_id e' = ce_response_id e"
  using assms by (cases p; auto simp: tool_call_index_def Let_def split: if_splits option.splits)+

lemma chat_step:
  assumes "chat_carries from_str display ps qs e d" and "chat_admits ps p" and "encode_part display e p = (b, e')"
  shows "\<exists>rs d'. reads (feed from_str) d b rs d' \<and> chat_carries from_str display (ps @ [p]) (qs @ rs) e' d'"
proof -
  note c = assms(1) [unfolded chat_carries_def]
  note id = first_id_snoc [of ps p]
  have inner: ?thesis if p: "\<nexists>i. p = ResponseStarted i" "completed_of [p] = []"
  proof -
    have "chat_part (p # ps) p" using assms(2) p by (cases p) (auto simp: chat_admits_def)
    moreover have "48 * (length (ce_tool_call_indices e) + 1) < 2 ^ 63" using assms(2) c by (simp add: chat_admits_def)
    ultimately have "carried from_str e' d p b" using part_carried [OF _ _ _ p(2) _ assms(3)] c by blast
    then obtain rs d' where r: "reads (feed from_str) d b rs d'" "in_sync e' d'" "same_content [p] rs"
      "completed_of rs = []" "cd_saw_finish d' = (cd_saw_finish d \<or> finishes_of [p] \<noteq> [])"
      "finishes_of [p] \<noteq> [] \<or> cd_response_id d \<noteq> None \<longrightarrow> cd_response_id d' \<noteq> None" by (auto simp: carried_def)
    have "chat_carries from_str display (ps @ [p]) (qs @ rs) e' d'"
      using c r p id encoder_keeps [OF assms(3)] same_content_append [of ps qs "[p]" rs]
      unfolding chat_carries_def by auto
    with r(1) show ?thesis by blast
  qed
  show ?thesis
  proof (cases p)
    case (ResponseStarted i)
    with assms(2) have ps: "ps = []" by (simp add: chat_admits_def)
    with assms(3) c ResponseStarted show ?thesis
      by (auto simp: chat_carries_def in_sync_def same_content_def same_dialogue_def intro!: exI [of _ "[]"])
  next
    case (ResponseCompleted i st u x)
    with assms(2) have fin: "finishes_of ps \<noteq> []" and none: "completed_of ps = []" by (simp_all add: chat_admits_def)
    with c have r: "cd_response_id d = Some (unwrap_or (first_id ps) [])" by (auto simp: in_sync_def)
    have "LF \<notin> set ''[DONE]''" "data_prefix @ ''[DONE]'' = done_frame"
      by (simp_all add: data_prefix_def done_frame_def)
    then have "reads (feed from_str) d (sse_frame ''[DONE]'') (feed_done d) d"
      by (intro reads_frame) simp_all
    moreover have "sse_frame ''[DONE]'' = b" using assms(3) ResponseCompleted
      by (simp add: sse_frame_def data_prefix_def done_frame_def)
    moreover have "feed_done d = [ResponseCompleted (unwrap_or (first_id ps) []) ''completed'' None []]"
      using c fin r by (simp add: feed_done_def)
    ultimately have "reads (feed from_str) d b [ResponseCompleted (unwrap_or (first_id ps) []) ''completed'' None []] d"
      by simp
    moreover have "chat_carries from_str display (ps @ [p])
        (qs @ [ResponseCompleted (unwrap_or (first_id ps) []) ''completed'' None []]) e' d"
      using assms(3) ResponseCompleted c none fin id
      by (auto simp: chat_carries_def same_content_def same_dialogue_def)
    ultimately show ?thesis by blast
  qed (use inner in auto)
qed

interpretation chat: stream_codec "encode_part display" "feed from_str" "chat_carries from_str display" chat_admits
  for from_str display
  by unfold_locales (rule chat_step)

text \<open>
  A chat completions stream is read back as it was written.  Whatever parts a stream has between its
  start and its end, the decoder finds in the bytes of the encoder the same text, the same reasoning, for
  every tool call the same name and arguments, in particular when the arguments of several calls are
  interleaved, the same errors, the usage with the total of its counts, and the same finish reasons, a reason
  that the protocol does not have being a stop; the end of the stream is read last, with the id of its start.
\<close>

theorem chat_stream_roundtrip:
  assumes "json_text from_str display" and "admissible chat_admits [] ps"
  shows "\<exists>qs d. reads (feed from_str) ChatCompletionsStreamDecoder_new
      (fst (encode_parts (encode_part display) ChatCompletionsStreamEncoder_new ps)) qs d \<and>
    same_content ps qs \<and> completed_of qs = map (\<lambda>_. unwrap_or (first_id ps) []) (completed_of ps)"
proof -
  have "chat_carries from_str display [] [] ChatCompletionsStreamEncoder_new ChatCompletionsStreamDecoder_new"
    using assms(1) by (simp add: chat_carries_def same_content_def in_sync_def
        ChatCompletionsStreamEncoder_new_def ChatCompletionsStreamDecoder_new_def)
  from chat.stream_carried [OF this assms(2)] show ?thesis by (auto simp: chat_carries_def)
qed

text \<open>
  A tool-call index of an upstream can abort the gateway: a chunk whose index is the largest 64-bit
  number, or so large that the table of tool calls would not fit into the address space, panics the decoder.
\<close>

theorem tool_call_index_panics:
  assumes "as_u64 (idx tc ''index'') = Some n" and "192153584101141162 \<le> n"
    and "length (cd_tool_calls d) \<le> n"
  shows "\<exists>p. decode_tool_call tc d = Inl p \<and> p \<in> {Index_Out_Of_Bounds, Capacity_Overflow}"
proof -
  define p where "p = (if n = 2 ^ 64 - 1 then Index_Out_Of_Bounds else Capacity_Overflow)"
  have "set_slot n f d' = Inl p" if "cd_tool_calls d' = cd_tool_calls d" for f d'
    using assms(2,3) that by (simp add: set_slot_def grow_slots_def resize_slots_def p_def)
  then have "decode_tool_call tc d = Inl p" using assms(1)
    by (cases "nonempty_str (idx tc ''id'')"; cases "nonempty_str (idx (idx tc ''function'') ''name'')")
      (simp_all add: decode_tool_call_def Let_def)
  then show ?thesis by (simp add: p_def)
qed


definition demo_parts :: "StreamPart list" where
  "demo_parts = [ResponseStarted ''r'', ToolCallDelta ''a'' (Some ''f'') ''1'' None None None,
     ToolCallDelta ''b'' (Some ''g'') ''2'' None None None, ToolCallDelta ''a'' None ''3'' None None None,
     Finish ToolCalls, ResponseCompleted ''r'' ''completed'' None []]"

theorem chat_stream_roundtrip_witness:
  "\<exists>qs d. reads (feed number_value) ChatCompletionsStreamDecoder_new
      (fst (encode_parts (encode_part number_display) ChatCompletionsStreamEncoder_new demo_parts)) qs d \<and>
    arguments_of ''a'' qs = ''13'' \<and> arguments_of ''b'' qs = ''2'' \<and> finishes_of qs = [ToolCalls] \<and>
    completed_of qs = [''r'']"
proof -
  have "admissible chat_admits [] demo_parts" by (simp add: demo_parts_def chat_admits_def)
  from chat_stream_roundtrip [OF numbers_json_text this] show ?thesis
    by (elim exE conjE) (intro exI conjI, assumption, simp_all add: same_content_def same_dialogue_def demo_parts_def)
qed

theorem tool_call_index_panics_witness:
  "\<exists>p. decode_tool_call (object_of [(''index'', jnat (2 ^ 64 - 1))]) ChatCompletionsStreamDecoder_new = Inl p \<and>
     p \<in> {Index_Out_Of_Bounds, Capacity_Overflow}"
  by (rule tool_call_index_panics [where n = "2 ^ 64 - 1"])
    (simp_all add: ChatCompletionsStreamDecoder_new_def)

end
