(* ===== verification/Responses_Stream.thy ===== *)
theory Responses_Stream
  imports Stream_Codec
begin

section \<open>OpenAI responses: streams\<close>

text \<open>
  The model of the stream half of \<^verbatim>\<open>protocols/src/responses.rs\<close>.  The encoder numbers its events, gives each
  output item an index, accumulates text, reasoning and arguments for the snapshot at the end, and sends the
  snapshot once, when both the finish and the usage are known or the stream ends.  What a call of the encoder
  sends is modelled as its list of events (\<open>responses_events\<close>), which \<open>responses_encode_part\<close> writes as frames.
\<close>

subsection \<open>The encoder\<close>

fun responses_error_type :: "ErrorClass \<Rightarrow> string" where
  "responses_error_type ErrorClass.Transient = ''server_error''"
| "responses_error_type ErrorClass.RateLimited = ''rate_limit_error''"
| "responses_error_type ErrorClass.Auth = ''authentication_error''"
| "responses_error_type ErrorClass.BadRequest = ''invalid_request_error''"
| "responses_error_type ErrorClass.LossyOrCapability = ''invalid_request_error''"
| "responses_error_type ErrorClass.ModelNotFound = ''not_found_error''"
| "responses_error_type ErrorClass.DeadlineExceeded = ''server_error''"
| "responses_error_type ErrorClass.UpstreamExhausted = ''server_error''"
| "responses_error_type ErrorClass.AuthMissing = ''authentication_error''"
| "responses_error_type ErrorClass.AuthInvalid = ''authentication_error''"
| "responses_error_type ErrorClass.AuthDisabled = ''permission_error''"
| "responses_error_type ErrorClass.ModelAccessDenied = ''permission_error''"
| "responses_error_type ErrorClass.Overloaded = ''overloaded_error''"

record ResponsesStreamEncoder =
  re_response_id :: "string option"
  re_next_output_index :: nat
  re_text_output_index :: "nat option"
  re_text :: string
  re_tool_output_indices :: "string \<rightharpoonup> nat"
  re_tool_output_order :: "string list"
  re_tool_names :: "string \<rightharpoonup> string"
  re_tool_arguments :: "string \<rightharpoonup> string"
  re_tool_done :: "string set"
  re_sequence_number :: nat
  re_pending_usage :: "Usage option"
  re_completed_sent :: bool
  re_pending_finish_status :: "string option"
  re_reasoning_output_index :: "nat option"
  re_reasoning_text :: string
  re_reasoning_id :: "string option"
  re_reasoning_encrypted :: "string option"
  re_program_items :: "(nat \<times> json) list"
  re_tool_wire_types :: "string \<rightharpoonup> string"
  re_tool_item_ids :: "string \<rightharpoonup> string"
  re_tool_callers :: "string \<rightharpoonup> ToolCaller"

definition ResponsesStreamEncoder_new :: ResponsesStreamEncoder where
  "ResponsesStreamEncoder_new = \<lparr>re_response_id = None, re_next_output_index = 0, re_text_output_index = None,
     re_text = [], re_tool_output_indices = Map.empty, re_tool_output_order = [], re_tool_names = Map.empty,
     re_tool_arguments = Map.empty, re_tool_done = {}, re_sequence_number = 0, re_pending_usage = None,
     re_completed_sent = False, re_pending_finish_status = None, re_reasoning_output_index = None,
     re_reasoning_text = [], re_reasoning_id = None, re_reasoning_encrypted = None, re_program_items = [],
     re_tool_wire_types = Map.empty, re_tool_item_ids = Map.empty, re_tool_callers = Map.empty\<rparr>"

type_synonym emission = "json list \<times> ResponsesStreamEncoder"

text \<open>\<^verbatim>\<open>event\<close> with \<^verbatim>\<open>next_seq\<close>: the event with its number.  Every event of the encoder is an object.\<close>

definition emit :: "json \<Rightarrow> ResponsesStreamEncoder \<Rightarrow> emission" where
  "emit v e = ([put ''sequence_number'' (jnat (re_sequence_number e)) v],
     e\<lparr>re_sequence_number := add_u64 (re_sequence_number e) 1\<rparr>)"

fun emit_all :: "json list \<Rightarrow> ResponsesStreamEncoder \<Rightarrow> emission" where
  "emit_all [] e = ([], e)"
| "emit_all (v # vs) e = (let (xs, e1) = emit v e; (ys, e2) = emit_all vs e1 in (xs @ ys, e2))"

definition and_then :: "emission \<Rightarrow> (ResponsesStreamEncoder \<Rightarrow> emission) \<Rightarrow> emission" where
  "and_then x f = (let (xs, e1) = x; (ys, e2) = f e1 in (xs @ ys, e2))"

text \<open>Indices of output items are 32-bit numbers.\<close>

definition next_index32 :: "nat \<Rightarrow> nat" where
  "next_index32 n = (n + 1) mod 2 ^ 32"

definition reasoning_item_id :: "ResponsesStreamEncoder \<Rightarrow> string" where
  "reasoning_item_id e = (case re_reasoning_id e of
     Some i \<Rightarrow> i | None \<Rightarrow> unwrap_or (re_response_id e) [] @ ''_rs'')"

definition message_item_id :: "ResponsesStreamEncoder \<Rightarrow> string" where
  "message_item_id e = unwrap_or (re_response_id e) [] @ ''_msg''"

definition is_responses_custom_tool_call :: "string option \<Rightarrow> bool" where
  "is_responses_custom_tool_call wire_type \<longleftrightarrow> wire_type = Some ''custom'' \<or> wire_type = Some ''custom_tool_call''"

definition responses_custom_tool_input :: "(json \<Rightarrow> string) \<Rightarrow> json \<Rightarrow> string" where
  "responses_custom_tool_input display arguments =
     (case Option.bind (get arguments ''input'') as_str of
        Some s \<Rightarrow> s
      | None \<Rightarrow> (case as_str arguments of Some s \<Rightarrow> s | None \<Rightarrow> display arguments))"

fun caller_json :: "ToolCaller \<Rightarrow> json" where
  "caller_json Direct = object_of [(''type'', JString ''direct'')]"
| "caller_json (Program_caller c) = object_of [(''type'', JString ''program''), (''caller_id'', JString c)]"

definition tool_item :: "string \<Rightarrow> string \<Rightarrow> string \<Rightarrow> string \<Rightarrow> string \<Rightarrow> json \<Rightarrow> string \<Rightarrow> string \<Rightarrow>
    ToolCaller option \<Rightarrow> json" where
  "tool_item item_type wid i name input action arguments st caller =
     put_opt ''caller'' (map_option caller_json caller)
       (if item_type = ''custom_tool_call'' then
          object_of [(''id'', JString wid), (''call_id'', JString i), (''type'', JString ''custom_tool_call''),
            (''name'', JString name), (''input'', JString input), (''status'', JString st)]
        else if item_type = ''local_shell_call'' then
          object_of [(''id'', JString wid), (''call_id'', JString i), (''type'', JString ''local_shell_call''),
            (''action'', action), (''status'', JString st)]
        else
          object_of [(''id'', JString wid), (''call_id'', JString i), (''type'', JString ''function_call''),
            (''name'', JString name), (''arguments'', JString arguments), (''status'', JString st)])"

definition item_added :: "nat \<Rightarrow> json \<Rightarrow> json" where
  "item_added i item = object_of [(''type'', JString ''response.output_item.added''), (''output_index'', jnat i),
     (''item'', item)]"

definition item_done :: "nat \<Rightarrow> json \<Rightarrow> json" where
  "item_done i item = object_of [(''type'', JString ''response.output_item.done''), (''output_index'', jnat i),
     (''item'', item)]"

text \<open>\<^verbatim>\<open>entry(k).or_insert(v)\<close>.\<close>

definition or_insert :: "string \<Rightarrow> 'v \<Rightarrow> (string \<rightharpoonup> 'v) \<Rightarrow> (string \<rightharpoonup> 'v)" where
  "or_insert k v m = (if m k = None then m(k \<mapsto> v) else m)"

definition or_insert_opt :: "string \<Rightarrow> 'v option \<Rightarrow> (string \<rightharpoonup> 'v) \<Rightarrow> (string \<rightharpoonup> 'v)" where
  "or_insert_opt k x m = (case x of Some v \<Rightarrow> or_insert k v m | None \<Rightarrow> m)"

definition register_tool_call :: "string \<Rightarrow> string \<Rightarrow> string option \<Rightarrow> string option \<Rightarrow> ToolCaller option \<Rightarrow>
    ResponsesStreamEncoder \<Rightarrow> ResponsesStreamEncoder" where
  "register_tool_call i name wire_type item_id caller e =
     (let e1 = (case re_tool_output_indices e i of
            Some _ \<Rightarrow> e
          | None \<Rightarrow> e\<lparr>re_next_output_index := next_index32 (re_next_output_index e),
               re_tool_output_indices := (re_tool_output_indices e)(i \<mapsto> re_next_output_index e),
               re_tool_output_order := re_tool_output_order e @ [i]\<rparr>)
      in e1\<lparr>re_tool_names := or_insert i name (re_tool_names e1),
            re_tool_arguments := or_insert i [] (re_tool_arguments e1),
            re_tool_wire_types := or_insert_opt i
              (if is_responses_custom_tool_call wire_type then Some ''custom_tool_call'' else wire_type)
              (re_tool_wire_types e1),
            re_tool_item_ids := or_insert_opt i (if item_id = Some [] then None else item_id) (re_tool_item_ids e1),
            re_tool_callers := or_insert_opt i caller (re_tool_callers e1)\<rparr>)"

definition open_tool_call :: "string \<Rightarrow> string \<Rightarrow> string option \<Rightarrow> string option \<Rightarrow> ToolCaller option \<Rightarrow>
    ResponsesStreamEncoder \<Rightarrow> emission" where
  "open_tool_call i name wire_type item_id caller e =
     (let e1 = register_tool_call i name wire_type item_id caller e in
      if re_tool_output_indices e i \<noteq> None then ([], e1)
      else
        let item_type = (if is_responses_custom_tool_call wire_type then ''custom_tool_call''
              else unwrap_or wire_type ''function_call'')
        in emit (item_added (re_next_output_index e)
             (tool_item item_type (unwrap_or (re_tool_item_ids e1 i) i) i name [] (object_of []) [] ''in_progress''
               (re_tool_callers e1 i))) e1)"

definition append_tool_arguments :: "string \<Rightarrow> string \<Rightarrow> ResponsesStreamEncoder \<Rightarrow> emission" where
  "append_tool_arguments i arguments e =
     (let item_type = unwrap_or (re_tool_wire_types e i) ''function_call'';
          e1 = e\<lparr>re_tool_arguments := (re_tool_arguments e)(i \<mapsto> unwrap_or (re_tool_arguments e i) [] @ arguments)\<rparr>
      in emit (object_of [(''type'', JString (if item_type = ''custom_tool_call''
              then ''response.custom_tool_call_input.delta'' else ''response.function_call_arguments.delta'')),
            (''item_id'', JString (unwrap_or (re_tool_item_ids e i) i)),
            (''output_index'', jnat (unwrap_or (re_tool_output_indices e i) 0)), (''delta'', JString arguments)]) e1)"

definition custom_input :: "(string \<Rightarrow> json option) \<Rightarrow> (json \<Rightarrow> string) \<Rightarrow> string \<Rightarrow> string" where
  "custom_input from_str display arguments =
     (case from_str arguments of Some v \<Rightarrow> responses_custom_tool_input display v | None \<Rightarrow> arguments)"

definition close_tool_call :: "(string \<Rightarrow> json option) \<Rightarrow> (json \<Rightarrow> string) \<Rightarrow> string \<Rightarrow> string \<Rightarrow>
    ResponsesStreamEncoder \<Rightarrow> emission" where
  "close_tool_call from_str display st i e =
     (if i \<in> re_tool_done e then ([], e)
      else
        let k = unwrap_or (re_tool_output_indices e i) 0;
            arguments = unwrap_or (re_tool_arguments e i) [];
            item_type = unwrap_or (re_tool_wire_types e i) ''function_call'';
            wid = unwrap_or (re_tool_item_ids e i) i;
            input = custom_input from_str display arguments;
            before = (if item_type = ''function_call'' then
                [object_of [(''type'', JString ''response.function_call_arguments.done''), (''item_id'', JString wid),
                   (''output_index'', jnat k), (''arguments'', JString arguments)]]
              else if item_type = ''custom_tool_call'' then
                [object_of [(''type'', JString ''response.custom_tool_call_input.done''), (''item_id'', JString wid),
                   (''output_index'', jnat k), (''input'', JString input)]]
              else []);
            item = tool_item item_type wid i (unwrap_or (re_tool_names e i) []) input
              (unwrap_or (from_str arguments) (object_of [])) arguments st (re_tool_callers e i);
            (vs, e1) = emit_all (before @ [item_done k item]) e
        in (vs, e1\<lparr>re_tool_done := insert i (re_tool_done e1)\<rparr>))"

fun close_calls :: "(string \<Rightarrow> json option) \<Rightarrow> (json \<Rightarrow> string) \<Rightarrow> string \<Rightarrow> string list \<Rightarrow>
    ResponsesStreamEncoder \<Rightarrow> emission" where
  "close_calls from_str display st [] e = ([], e)"
| "close_calls from_str display st (i # ids) e =
     and_then (close_tool_call from_str display st i e) (close_calls from_str display st ids)"

definition close_tool_calls :: "(string \<Rightarrow> json option) \<Rightarrow> (json \<Rightarrow> string) \<Rightarrow> string \<Rightarrow>
    ResponsesStreamEncoder \<Rightarrow> emission" where
  "close_tool_calls from_str display st e = close_calls from_str display st (re_tool_output_order e) e"

definition positive_field :: "nat option \<Rightarrow> json option" where
  "positive_field n = (if unwrap_or n 0 > 0 then Some (jnat (unwrap_or n 0)) else None)"

definition input_details :: "Usage \<Rightarrow> json option" where
  "input_details u =
     (let details = put_opt ''cache_write_tokens'' (positive_field (cache_write_tokens u))
            (put_opt ''cached_tokens'' (positive_field (cache_read_tokens u)) (object_of []))
      in if details = object_of [] then None else Some details)"

definition responses_usage_object :: "Usage \<Rightarrow> json" where
  "responses_usage_object u =
     (let input = add_u64 (add_u64 (prompt_tokens u) (unwrap_or (cache_read_tokens u) 0))
            (unwrap_or (cache_write_tokens u) 0)
      in put_opt ''output_tokens_details''
           (map_option (\<lambda>rt. object_of [(''reasoning_tokens'', rt)]) (positive_field (reasoning_tokens u)))
         (put_opt ''input_tokens_details'' (input_details u)
           (object_of [(''input_tokens'', jnat input), (''output_tokens'', jnat (completion_tokens u)),
              (''total_tokens'', jnat (add_u64 input (completion_tokens u)))])))"

definition reasoning_item :: "string \<Rightarrow> ResponsesStreamEncoder \<Rightarrow> json" where
  "reasoning_item st e =
     put_opt ''encrypted_content'' (map_option JString (re_reasoning_encrypted e))
       (object_of [(''id'', JString (reasoning_item_id e)), (''type'', JString ''reasoning''), (''status'', JString st),
          (''summary'', if re_reasoning_text e = [] then JArray []
             else JArray [object_of [(''type'', JString ''summary_text''), (''text'', JString (re_reasoning_text e))]])])"

definition output_text_part :: "string \<Rightarrow> json" where
  "output_text_part t = object_of [(''type'', JString ''output_text''), (''text'', JString t), (''annotations'', JArray [])]"

definition message_item :: "string \<Rightarrow> ResponsesStreamEncoder \<Rightarrow> json" where
  "message_item st e = object_of [(''id'', JString (message_item_id e)), (''type'', JString ''message''),
     (''role'', JString ''assistant''), (''status'', JString st), (''content'', JArray [output_text_part (re_text e)])]"

text \<open>The snapshot: \<open>input\<close> of a custom call is computed without the fallbacks that \<open>custom_input\<close> has.\<close>

definition snapshot_input :: "(string \<Rightarrow> json option) \<Rightarrow> string \<Rightarrow> string" where
  "snapshot_input from_str arguments =
     unwrap_or (Option.bind (Option.bind (from_str arguments) (\<lambda>v. get v ''input'')) as_str) arguments"

definition snapshot_call :: "(string \<Rightarrow> json option) \<Rightarrow> string \<Rightarrow> ResponsesStreamEncoder \<Rightarrow> string \<Rightarrow> nat \<times> json" where
  "snapshot_call from_str st e i =
     (let arguments = unwrap_or (re_tool_arguments e i) [] in
      (unwrap_or (re_tool_output_indices e i) (2 ^ 32 - 1),
       tool_item (unwrap_or (re_tool_wire_types e i) ''function_call'') (unwrap_or (re_tool_item_ids e i) i) i
         (unwrap_or (re_tool_names e i) []) (snapshot_input from_str arguments)
         (unwrap_or (from_str arguments) (object_of [])) arguments st (re_tool_callers e i)))"

definition snapshot_output :: "(string \<Rightarrow> json option) \<Rightarrow> string \<Rightarrow> ResponsesStreamEncoder \<Rightarrow> json list" where
  "snapshot_output from_str st e = map snd (sort_key fst
     ((case re_reasoning_output_index e of Some k \<Rightarrow> [(k, reasoning_item st e)] | None \<Rightarrow> []) @
      (case re_text_output_index e of Some k \<Rightarrow> [(k, message_item st e)] | None \<Rightarrow> []) @
      re_program_items e @ map (snapshot_call from_str st e) (re_tool_output_order e)))"

definition response_snapshot :: "(string \<Rightarrow> json option) \<Rightarrow> string \<Rightarrow> ResponsesStreamEncoder \<Rightarrow> json" where
  "response_snapshot from_str st e =
     (let output = snapshot_output from_str st e in
      put_opt ''output'' (if output = [] then None else Some (JArray output))
      (put_opt ''usage'' (map_option responses_usage_object (re_pending_usage e))
      (object_of [(''id'', JString (unwrap_or (re_response_id e) [])), (''status'', JString st)])))"

definition completed_event :: "(string \<Rightarrow> json option) \<Rightarrow> string \<Rightarrow> ResponsesStreamEncoder \<Rightarrow> emission" where
  "completed_event from_str st e =
     emit (object_of [(''type'', JString ''response.completed''), (''response'', response_snapshot from_str st e)])
       (e\<lparr>re_pending_usage := None, re_completed_sent := True\<rparr>)"

fun finish_status :: "FinishReason \<Rightarrow> string" where
  "finish_status Length = ''incomplete''"
| "finish_status ContentFilter = ''incomplete''"
| "finish_status _ = ''completed''"

definition lifecycle :: "string \<Rightarrow> string \<Rightarrow> json" where
  "lifecycle kind i = object_of [(''type'', JString kind), (''response'', object_of [(''id'', JString i),
     (''object'', JString ''response''), (''status'', JString ''in_progress'')])]"

definition start_text :: "ResponsesStreamEncoder \<Rightarrow> emission" where
  "start_text e = (case re_text_output_index e of
     Some _ \<Rightarrow> ([], e)
   | None \<Rightarrow>
       let k = re_next_output_index e; item_id = message_item_id e
       in emit_all [item_added k (object_of [(''id'', JString item_id), (''type'', JString ''message''),
              (''role'', JString ''assistant''), (''status'', JString ''in_progress''), (''content'', JArray [])]),
            object_of [(''type'', JString ''response.content_part.added''), (''output_index'', jnat k),
              (''item_id'', JString item_id), (''content_index'', jnat 0),
              (''part'', object_of [(''type'', JString ''output_text''), (''text'', JString [])])]]
            (e\<lparr>re_next_output_index := next_index32 k, re_text_output_index := Some k\<rparr>))"

definition send_text :: "string \<Rightarrow> ResponsesStreamEncoder \<Rightarrow> emission" where
  "send_text text e =
     emit (object_of [(''type'', JString ''response.output_text.delta''), (''item_id'', JString (message_item_id e)),
         (''output_index'', jnat (unwrap_or (re_text_output_index e) 0)), (''content_index'', jnat 0),
         (''delta'', JString text)])
       (e\<lparr>re_text := re_text e @ text\<rparr>)"

definition latch_reasoning :: "string option \<Rightarrow> string option \<Rightarrow> ResponsesStreamEncoder \<Rightarrow> ResponsesStreamEncoder" where
  "latch_reasoning i enc e =
     e\<lparr>re_reasoning_id := (if re_reasoning_id e = None then i else re_reasoning_id e),
       re_reasoning_encrypted := (if re_reasoning_encrypted e = None then enc else re_reasoning_encrypted e)\<rparr>"

definition start_reasoning :: "ResponsesStreamEncoder \<Rightarrow> emission" where
  "start_reasoning e = (case re_reasoning_output_index e of
     Some _ \<Rightarrow> ([], e)
   | None \<Rightarrow>
       let k = re_next_output_index e; item_id = reasoning_item_id e
       in emit_all [item_added k (object_of [(''id'', JString item_id), (''type'', JString ''reasoning''),
              (''status'', JString ''in_progress''), (''summary'', JArray [])]),
            object_of [(''type'', JString ''response.reasoning_summary_part.added''), (''output_index'', jnat k),
              (''item_id'', JString item_id), (''summary_index'', jnat 0),
              (''part'', object_of [(''type'', JString ''summary_text''), (''text'', JString [])])]]
            (e\<lparr>re_next_output_index := next_index32 k, re_reasoning_output_index := Some k\<rparr>))"

definition send_reasoning :: "string \<Rightarrow> ResponsesStreamEncoder \<Rightarrow> emission" where
  "send_reasoning text e =
     (let e1 = e\<lparr>re_reasoning_text := re_reasoning_text e @ text\<rparr> in
      if text = [] then ([], e1)
      else emit (object_of [(''type'', JString ''response.reasoning_summary_text.delta''),
          (''item_id'', JString (reasoning_item_id e)),
          (''output_index'', jnat (unwrap_or (re_reasoning_output_index e) 0)), (''summary_index'', jnat 0),
          (''delta'', JString text)]) e1)"

definition send_program :: "json \<Rightarrow> ResponsesStreamEncoder \<Rightarrow> emission" where
  "send_program item e =
     (let k = re_next_output_index e in
      emit_all [item_added k item, item_done k item]
        (e\<lparr>re_next_output_index := next_index32 k, re_program_items := re_program_items e @ [(k, item)]\<rparr>))"

definition close_reasoning :: "string \<Rightarrow> ResponsesStreamEncoder \<Rightarrow> emission" where
  "close_reasoning st e = (case re_reasoning_output_index e of
     None \<Rightarrow> ([], e)
   | Some k \<Rightarrow>
       let item_id = reasoning_item_id e
       in emit_all [object_of [(''type'', JString ''response.reasoning_summary_text.done''), (''output_index'', jnat k),
              (''item_id'', JString item_id), (''summary_index'', jnat 0)],
            object_of [(''type'', JString ''response.reasoning_summary_part.done''), (''output_index'', jnat k),
              (''item_id'', JString item_id), (''summary_index'', jnat 0)],
            item_done k (reasoning_item st e)] e)"

definition close_text :: "ResponsesStreamEncoder \<Rightarrow> emission" where
  "close_text e = (case re_text_output_index e of
     None \<Rightarrow> ([], e)
   | Some k \<Rightarrow>
       let item_id = message_item_id e
       in emit_all [object_of [(''type'', JString ''response.output_text.done''), (''output_index'', jnat k),
              (''item_id'', JString item_id), (''content_index'', jnat 0), (''text'', JString (re_text e))],
            object_of [(''type'', JString ''response.content_part.done''), (''output_index'', jnat k),
              (''item_id'', JString item_id), (''content_index'', jnat 0), (''part'', output_text_part (re_text e))],
            item_done k (message_item ''completed'' e)] e)"

definition responses_error_object :: "string \<Rightarrow> ErrorClass \<Rightarrow> string option \<Rightarrow> json" where
  "responses_error_object message cls upstream_code =
     object_of [(''type'', JString ''error''),
       (''error'', put_opt ''code'' (map_option JString upstream_code)
          (object_of [(''message'', JString message), (''type'', JString (responses_error_type cls))]))]"

definition finish_stream :: "(string \<Rightarrow> json option) \<Rightarrow> (json \<Rightarrow> string) \<Rightarrow> string \<Rightarrow> ResponsesStreamEncoder \<Rightarrow> emission" where
  "finish_stream from_str display st e =
     and_then (close_reasoning st e) (\<lambda>e1. and_then (close_text e1) (\<lambda>e2.
     and_then (close_tool_calls from_str display st e2) (\<lambda>e3.
       if re_pending_usage e3 \<noteq> None then completed_event from_str st e3
       else ([], e3\<lparr>re_pending_finish_status := Some st\<rparr>))))"

fun responses_events :: "(string \<Rightarrow> json option) \<Rightarrow> (json \<Rightarrow> string) \<Rightarrow> ResponsesStreamEncoder \<Rightarrow> StreamPart \<Rightarrow> emission" where
  "responses_events from_str display e (ResponseStarted i) =
     emit_all [lifecycle ''response.created'' i, lifecycle ''response.in_progress'' i] (e\<lparr>re_response_id := Some i\<rparr>)"
| "responses_events from_str display e (TextDelta text) = and_then (start_text e) (send_text text)"
| "responses_events from_str display e (ReasoningDelta text i enc) =
     and_then (start_reasoning (latch_reasoning i enc e)) (send_reasoning text)"
| "responses_events from_str display e (ToolCallDelta i name arguments wire_type item_id caller) = (case name of
     Some n \<Rightarrow> and_then (open_tool_call i n wire_type item_id caller e)
       (\<lambda>e1. if arguments = [] then ([], e1) else append_tool_arguments i arguments e1)
   | None \<Rightarrow> append_tool_arguments i arguments e)"
| "responses_events from_str display e (ProgramDelta i call_id code fingerprint) =
     send_program (object_of [(''type'', JString ''program''), (''id'', JString i), (''call_id'', JString call_id),
       (''code'', JString code), (''fingerprint'', JString fingerprint)]) e"
| "responses_events from_str display e (ProgramOutputDelta i call_id result st) =
     send_program (object_of [(''type'', JString ''program_output''), (''id'', JString i), (''call_id'', JString call_id),
       (''result'', JString result), (''status'', JString st)]) e"
| "responses_events from_str display e (Usage_part u) =
     (let e1 = e\<lparr>re_pending_usage := Some u\<rparr> in
      if re_completed_sent e then ([], e1)
      else case re_pending_finish_status e of
        Some st \<Rightarrow> completed_event from_str st (e1\<lparr>re_pending_finish_status := None\<rparr>)
      | None \<Rightarrow> ([], e1))"
| "responses_events from_str display e (Finish reason) =
     (if re_completed_sent e \<or> re_pending_finish_status e \<noteq> None then ([], e)
      else finish_stream from_str display (finish_status reason) e)"
| "responses_events from_str display e (ResponseCompleted _ _ _ _) =
     (if re_completed_sent e then ([], e)
      else
        let st = unwrap_or (re_pending_finish_status e) ''completed''
        in and_then (close_tool_calls from_str display st (e\<lparr>re_pending_finish_status := None\<rparr>))
             (completed_event from_str st))"
| "responses_events from_str display e (Error_part message cls upstream_code) =
     emit (responses_error_object message cls upstream_code) e"

definition write_events :: "(json \<Rightarrow> string) \<Rightarrow> json list \<Rightarrow> string" where
  "write_events display vs = concat (map (\<lambda>v. sse_frame (display v)) vs)"

fun closing_frame :: "StreamPart \<Rightarrow> string" where
  "closing_frame (ResponseCompleted _ _ _ _) = sse_frame ''[DONE]''"
| "closing_frame _ = []"

definition responses_encode_part :: "(string \<Rightarrow> json option) \<Rightarrow> (json \<Rightarrow> string) \<Rightarrow> ResponsesStreamEncoder \<Rightarrow>
    StreamPart \<Rightarrow> string \<times> ResponsesStreamEncoder" where
  "responses_encode_part from_str display e part =
     (let (vs, e1) = responses_events from_str display e part in (write_events display vs @ closing_frame part, e1))"

definition responses_encode_error :: "(json \<Rightarrow> string) \<Rightarrow> string \<Rightarrow> ErrorClass \<Rightarrow> string option \<Rightarrow> string" where
  "responses_encode_error display message cls upstream_code =
     sse_frame (display (responses_error_object message cls upstream_code)) @ sse_frame ''[DONE]''"

definition responses_encode_done :: string where
  "responses_encode_done = sse_frame ''[DONE]''"

subsection \<open>The decoder\<close>

record ResponsesStreamDecoder =
  rd_response_id :: "string option"
  rd_function_calls :: "string \<rightharpoonup> string \<times> string option"
  rd_current_call_id :: "string option"
  rd_saw_function_call :: bool
  rd_pending_reasoning_id :: "string option"
  rd_pending_reasoning_encrypted :: "string option"
  rd_custom_tool_inputs :: "string \<rightharpoonup> string"

definition ResponsesStreamDecoder_new :: ResponsesStreamDecoder where
  "ResponsesStreamDecoder_new = \<lparr>rd_response_id = None, rd_function_calls = Map.empty, rd_current_call_id = None,
     rd_saw_function_call = False, rd_pending_reasoning_id = None, rd_pending_reasoning_encrypted = None,
     rd_custom_tool_inputs = Map.empty\<rparr>"

type_synonym hearing = "StreamPart list \<times> ResponsesStreamDecoder"

definition responses_call_id :: "json \<Rightarrow> string option" where
  "responses_call_id item = (case as_str (idx item ''call_id'') of
     Some (c # cs) \<Rightarrow> Some (c # cs)
   | _ \<Rightarrow> (case as_str (idx item ''id'') of Some (c # cs) \<Rightarrow> Some (c # cs) | _ \<Rightarrow> None))"

definition decode_tool_caller :: "json \<Rightarrow> ToolCaller option" where
  "decode_tool_caller item =
     (let kind = Option.bind (get item ''caller'') (\<lambda>c. as_str (idx c ''type'')) in
      if kind = Some ''direct'' then Some Direct
      else if kind = Some ''program'' then map_option Program_caller (as_str (idx (idx item ''caller'') ''caller_id''))
      else None)"

definition str_field :: "json \<Rightarrow> string \<Rightarrow> string" where
  "str_field item k = unwrap_or (as_str (idx item k)) []"

definition response_completion :: "ResponsesStreamDecoder \<Rightarrow> string \<Rightarrow> StreamPart" where
  "response_completion d st = ResponseCompleted (unwrap_or (rd_response_id d) []) st None []"

definition hear_created :: "json \<Rightarrow> ResponsesStreamDecoder \<Rightarrow> hearing" where
  "hear_created ev d = (case as_str (idx (idx ev ''response'') ''id'') of
     Some i \<Rightarrow> ([ResponseStarted i], d\<lparr>rd_response_id := Some i\<rparr>) | None \<Rightarrow> ([], d))"

definition hear_text :: "json \<Rightarrow> ResponsesStreamDecoder \<Rightarrow> hearing" where
  "hear_text ev d = (case as_str (idx ev ''delta'') of Some t \<Rightarrow> [TextDelta t] | None \<Rightarrow> [], d)"

text \<open>\<^verbatim>\<open>take\<close> of what is pending of a reasoning item.\<close>

definition take_reasoning :: "string \<Rightarrow> ResponsesStreamDecoder \<Rightarrow> hearing" where
  "take_reasoning t d = ([ReasoningDelta t (rd_pending_reasoning_id d) (rd_pending_reasoning_encrypted d)],
     d\<lparr>rd_pending_reasoning_id := None, rd_pending_reasoning_encrypted := None\<rparr>)"

definition hear_reasoning :: "json \<Rightarrow> ResponsesStreamDecoder \<Rightarrow> hearing" where
  "hear_reasoning ev d = (case as_str (idx ev ''delta'') of Some t \<Rightarrow> take_reasoning t d | None \<Rightarrow> ([], d))"

definition dual_item_id :: "string \<Rightarrow> string \<Rightarrow> string option" where
  "dual_item_id item_id i = (if item_id \<noteq> [] \<and> item_id \<noteq> i then Some item_id else None)"

definition function_call_id :: "json \<Rightarrow> string" where
  "function_call_id item = (case as_str (idx item ''call_id'') of
     Some (c # cs) \<Rightarrow> c # cs | _ \<Rightarrow> str_field item ''id'')"

definition hear_function_call :: "json \<Rightarrow> ResponsesStreamDecoder \<Rightarrow> hearing" where
  "hear_function_call item d =
     (let item_id = str_field item ''id''; i = function_call_id item; name = as_str (idx item ''name'')
      in ([ToolCallDelta i name [] None (dual_item_id item_id i) (decode_tool_caller item)],
          d\<lparr>rd_saw_function_call := True, rd_function_calls := (rd_function_calls d)(item_id \<mapsto> (i, name)),
            rd_current_call_id := Some i\<rparr>))"

definition stash_reasoning :: "json \<Rightarrow> ResponsesStreamDecoder \<Rightarrow> ResponsesStreamDecoder" where
  "stash_reasoning item d =
     d\<lparr>rd_pending_reasoning_id := (case as_str (idx item ''id'') of
          Some i \<Rightarrow> Some i | None \<Rightarrow> rd_pending_reasoning_id d),
       rd_pending_reasoning_encrypted := (case as_str (idx item ''encrypted_content'') of
          Some enc \<Rightarrow> Some enc | None \<Rightarrow> rd_pending_reasoning_encrypted d)\<rparr>"

definition hear_program :: "json \<Rightarrow> ResponsesStreamDecoder \<Rightarrow> hearing" where
  "hear_program item d = ([ProgramDelta (str_field item ''id'') (str_field item ''call_id'') (str_field item ''code'')
       (str_field item ''fingerprint'')], d\<lparr>rd_saw_function_call := True\<rparr>)"

definition hear_program_output :: "json \<Rightarrow> ResponsesStreamDecoder \<Rightarrow> hearing" where
  "hear_program_output item d = ([ProgramOutputDelta (str_field item ''id'') (str_field item ''call_id'')
       (str_field item ''result'') (unwrap_or (as_str (idx item ''status'')) ''completed'')], d)"

definition hear_local_shell :: "(json \<Rightarrow> string) \<Rightarrow> json \<Rightarrow> ResponsesStreamDecoder \<Rightarrow> hearing" where
  "hear_local_shell display item d =
     (let i = unwrap_or (responses_call_id item) []
      in ([ToolCallDelta i (Some ''local_shell'') (display (unwrap_or (get item ''action'') (object_of [])))
             (Some ''local_shell_call'') None None],
          d\<lparr>rd_saw_function_call := True, rd_current_call_id := Some i\<rparr>))"

definition hear_custom_call :: "json \<Rightarrow> ResponsesStreamDecoder \<Rightarrow> hearing" where
  "hear_custom_call item d =
     (let item_id = str_field item ''id''; i = unwrap_or (responses_call_id item) []; name = str_field item ''name'';
          input = str_field item ''input''
      in ([ToolCallDelta i (Some name) input (Some ''custom_tool_call'') (dual_item_id item_id i)
             (decode_tool_caller item)],
          d\<lparr>rd_saw_function_call := True, rd_function_calls := (rd_function_calls d)(item_id \<mapsto> (i, Some name)),
            rd_custom_tool_inputs := (if input = [] then rd_custom_tool_inputs d
              else (rd_custom_tool_inputs d)(i \<mapsto> input)),
            rd_current_call_id := Some i\<rparr>))"

definition hear_item_added :: "(json \<Rightarrow> string) \<Rightarrow> json \<Rightarrow> ResponsesStreamDecoder \<Rightarrow> hearing" where
  "hear_item_added display item d =
     (let kind = as_str (idx item ''type'') in
      if kind = Some ''function_call'' then hear_function_call item d
      else if kind = Some ''reasoning'' then ([], stash_reasoning item d)
      else if kind = Some ''program'' then hear_program item d
      else if kind = Some ''program_output'' then hear_program_output item d
      else if kind = Some ''local_shell_call'' then hear_local_shell display item d
      else if kind = Some ''custom_tool_call'' then hear_custom_call item d
      else ([], d))"

text \<open>The call that a fragment belongs to.\<close>

definition target_call :: "json \<Rightarrow> ResponsesStreamDecoder \<Rightarrow> string" where
  "target_call ev d = (case Option.bind (as_str (idx ev ''item_id'')) (rd_function_calls d) of
     Some (i, _) \<Rightarrow> i | None \<Rightarrow> unwrap_or (rd_current_call_id d) [])"

definition hear_arguments :: "json \<Rightarrow> ResponsesStreamDecoder \<Rightarrow> hearing" where
  "hear_arguments ev d = (case as_str (idx ev ''delta'') of
     Some args \<Rightarrow> [ToolCallDelta (target_call ev d) None args None None None] | None \<Rightarrow> [], d)"

definition hear_custom_input :: "json \<Rightarrow> ResponsesStreamDecoder \<Rightarrow> hearing" where
  "hear_custom_input ev d = (case as_str (idx ev ''delta'') of
     None \<Rightarrow> ([], d)
   | Some input \<Rightarrow>
       let i = target_call ev d
       in ([ToolCallDelta i None input (Some ''custom_tool_call'') None None],
           d\<lparr>rd_custom_tool_inputs :=
               (rd_custom_tool_inputs d)(i \<mapsto> unwrap_or (rd_custom_tool_inputs d i) [] @ input)\<rparr>))"

definition hear_custom_done :: "json \<Rightarrow> ResponsesStreamDecoder \<Rightarrow> hearing" where
  "hear_custom_done ev d = (case as_str (idx ev ''input'') of
     None \<Rightarrow> ([], d)
   | Some input \<Rightarrow>
       let i = target_call ev d;
           delivered = unwrap_or (rd_custom_tool_inputs d i) [];
           remaining = unwrap_or (strip_prefix delivered input) input
       in (if remaining = [] then [] else [ToolCallDelta i None remaining (Some ''custom_tool_call'') None None],
           d\<lparr>rd_custom_tool_inputs := (rd_custom_tool_inputs d)(i := None)\<rparr>))"

definition hear_reasoning_done :: "json \<Rightarrow> ResponsesStreamDecoder \<Rightarrow> hearing" where
  "hear_reasoning_done item d =
     (let d1 = stash_reasoning item d in
      if rd_pending_reasoning_id d1 \<noteq> None \<or> rd_pending_reasoning_encrypted d1 \<noteq> None
      then take_reasoning [] d1 else ([], d1))"

definition hear_item_done :: "json \<Rightarrow> ResponsesStreamDecoder \<Rightarrow> hearing" where
  "hear_item_done item d =
     (let kind = as_str (idx item ''type'');
          (ps, d1) = (if kind = Some ''reasoning'' then hear_reasoning_done item d else ([], d));
          d2 = (if kind = Some ''function_call'' \<or> kind = Some ''custom_tool_call''
                then (case as_str (idx item ''id'') of
                        Some i \<Rightarrow> d1\<lparr>rd_function_calls := (rd_function_calls d1)(i := None)\<rparr> | None \<Rightarrow> d1)
                else d1)
      in (ps, d2\<lparr>rd_current_call_id := None\<rparr>))"

definition responses_usage :: "json \<Rightarrow> Usage" where
  "responses_usage u =
     (let details = get u ''input_tokens_details'';
          cache_read = Option.bind details (\<lambda>x. as_u64 (idx x ''cached_tokens''));
          cache_write = Option.bind details (\<lambda>x. as_u64 (idx x ''cache_write_tokens''));
          raw_input = unwrap_or (Option.bind (get u ''input_tokens'') as_u64) 0
      in \<lparr>prompt_tokens = raw_input - unwrap_or cache_read 0 - unwrap_or cache_write 0,
          completion_tokens = unwrap_or (Option.bind (get u ''output_tokens'') as_u64) 0,
          reasoning_tokens = Option.bind (get u ''output_tokens_details'') (\<lambda>x. as_u64 (idx x ''reasoning_tokens'')),
          cache_read_tokens = cache_read, cache_write_tokens = cache_write,
          total_tokens = unwrap_or (Option.bind (get u ''total_tokens'') as_u64) 0\<rparr>)"

definition responses_finish_of :: "bool \<Rightarrow> string \<Rightarrow> FinishReason" where
  "responses_finish_of saw_function_call st =
     (if st = ''completed'' then if saw_function_call then ToolCalls else Stop
      else if st = ''incomplete'' then if saw_function_call then ToolCalls else Length
      else Other_reason st)"

definition hear_completed :: "json \<Rightarrow> ResponsesStreamDecoder \<Rightarrow> hearing" where
  "hear_completed ev d =
     (let response = idx ev ''response'' in
      ((if is_object (idx response ''usage'') then [Usage_part (responses_usage (idx response ''usage''))] else []) @
       [Finish (responses_finish_of (rd_saw_function_call d) (unwrap_or (as_str (idx response ''status'')) ''completed'')),
        response_completion d ''completed''], d))"

definition hear_error :: "json \<Rightarrow> StreamPart" where
  "hear_error ev =
     (let err = (if get ev ''error'' \<noteq> None then idx ev ''error'' else idx (idx ev ''response'') ''error'');
          code = as_str (idx err ''type'')
      in Error_part (unwrap_or (as_str (idx err ''message'')) ''Unknown'') (classify_upstream_error None code) code)"

definition hear_incomplete :: "ResponsesStreamDecoder \<Rightarrow> StreamPart list" where
  "hear_incomplete d = [Finish (if rd_saw_function_call d then ToolCalls else Length), response_completion d ''incomplete'']"

text \<open>The events that carry no content (\<^verbatim>\<open>response.in_progress\<close> and the like) and unknown ones say nothing.\<close>

definition responses_feed_event :: "(json \<Rightarrow> string) \<Rightarrow> json \<Rightarrow> ResponsesStreamDecoder \<Rightarrow> hearing" where
  "responses_feed_event display ev d =
     (let kind = unwrap_or (as_str (idx ev ''type'')) [] in
      if kind = ''response.created'' then hear_created ev d
      else if kind = ''response.output_text.delta'' then hear_text ev d
      else if kind = ''response.reasoning_text.delta'' \<or> kind = ''response.reasoning_summary_text.delta''
        then hear_reasoning ev d
      else if kind = ''response.output_item.added'' then hear_item_added display (idx ev ''item'') d
      else if kind = ''response.function_call_arguments.delta'' then hear_arguments ev d
      else if kind = ''response.custom_tool_call_input.delta'' then hear_custom_input ev d
      else if kind = ''response.custom_tool_call_input.done'' then hear_custom_done ev d
      else if kind = ''response.output_item.done'' then hear_item_done (idx ev ''item'') d
      else if kind = ''response.completed'' \<or> kind = ''response.done'' then hear_completed ev d
      else if kind = ''error'' \<or> kind = ''response.failed'' then ([hear_error ev], d)
      else if kind = ''response.incomplete'' then (hear_incomplete d, d)
      else ([], d))"

definition responses_feed :: "(string \<Rightarrow> json option) \<Rightarrow> (json \<Rightarrow> string) \<Rightarrow> ResponsesStreamDecoder \<Rightarrow> string \<Rightarrow>
    ResponsesStreamDecoder reading" where
  "responses_feed from_str display d line =
     (let l = trim line in
      if l = data_prefix @ ''[DONE]'' then Inr (Inr [response_completion d ''completed''], d)
      else case strip_prefix data_prefix l of
        None \<Rightarrow> Inr (Inr [], d)
      | Some dat \<Rightarrow>
          (case from_str dat of
             None \<Rightarrow> Inr (Inl (Codec ''Responses SSE''), d)
           | Some ev \<Rightarrow> (let (ps, d') = responses_feed_event display ev d in Inr (Inr ps, d'))))"

definition responses_decoder_finish :: "StreamPart list" where
  "responses_decoder_finish = []"

subsection \<open>The events of a stream\<close>

fun stream_events :: "(string \<Rightarrow> json option) \<Rightarrow> (json \<Rightarrow> string) \<Rightarrow> ResponsesStreamEncoder \<Rightarrow> StreamPart list \<Rightarrow>
    emission" where
  "stream_events from_str display e [] = ([], e)"
| "stream_events from_str display e (p # ps) =
     and_then (responses_events from_str display e p) (\<lambda>e1. stream_events from_str display e1 ps)"

lemma stream_events_append:
  "stream_events from_str display e (ps @ qs) =
     and_then (stream_events from_str display e ps) (\<lambda>e1. stream_events from_str display e1 qs)"
  by (induction ps arbitrary: e) (simp_all add: and_then_def split_beta)

text \<open>The numbers of the events of an emission continue the counter of the state it is made in.\<close>

definition numbered :: "ResponsesStreamEncoder \<Rightarrow> emission \<Rightarrow> bool" where
  "numbered e x \<longleftrightarrow> (re_sequence_number e < 2 ^ 64 \<longrightarrow>
     re_sequence_number (snd x) = (re_sequence_number e + length (fst x)) mod 2 ^ 64 \<and>
     map (\<lambda>v. idx v ''sequence_number'') (fst x) =
       map (\<lambda>k. jnat ((re_sequence_number e + k) mod 2 ^ 64)) [0..<length (fst x)])"

lemma numbered_cong: "re_sequence_number e' = re_sequence_number e \<Longrightarrow> numbered e' x \<Longrightarrow> numbered e x"
  by (simp add: numbered_def)

lemma numbered_after: "re_sequence_number e' = re_sequence_number (snd x) \<Longrightarrow> numbered e x \<Longrightarrow> numbered e (fst x, e')"
  by (simp add: numbered_def)

lemma numbered_append:
  assumes "numbered e (vs, e1)" and "numbered e1 (ws, e2)"
  shows "numbered e (vs @ ws, e2)"
proof (cases "re_sequence_number e < 2 ^ 64")
  case True
  with assms(1) have s: "re_sequence_number e1 = (re_sequence_number e + length vs) mod 2 ^ 64" by (simp add: numbered_def)
  have "map (\<lambda>k. jnat ((re_sequence_number e + k) mod 2 ^ 64)) [length vs..<length vs + length ws] =
      map (\<lambda>k. jnat ((re_sequence_number e1 + k) mod 2 ^ 64)) [0..<length ws]"
    unfolding s by (intro nth_equalityI) (simp_all add: mod_simps ac_simps)
  moreover have "re_sequence_number e1 < 2 ^ 64" using s by simp
  ultimately show ?thesis using assms s
    by (simp add: numbered_def upt_add_eq_append [of 0 "length vs", simplified] mod_simps ac_simps)
qed (simp add: numbered_def)

lemma numbered_Nil [intro, simp]: "re_sequence_number e' = re_sequence_number e \<Longrightarrow> numbered e ([], e')"
  by (simp add: numbered_def)

lemma numbered_emit [intro]: "re_sequence_number e' = re_sequence_number e \<Longrightarrow> numbered e (emit v e')"
  by (simp add: numbered_def emit_def add_u64_def)

lemma numbered_emit_all [intro]: "re_sequence_number e' = re_sequence_number e \<Longrightarrow> numbered e (emit_all vs e')"
proof (induction vs arbitrary: e e')
  case (Cons v vs)
  obtain xs e1 where x: "emit v e' = (xs, e1)" by fastforce
  obtain ys e2 where y: "emit_all vs e1 = (ys, e2)" by fastforce
  have "numbered e (xs, e1)" "numbered e1 (ys, e2)"
    using numbered_emit [OF Cons.prems, of v] Cons.IH [of e1 e1] x y by simp_all
  then show ?case by (simp add: x y numbered_append)
qed simp

lemma numbered_and_then [intro]:
  "numbered e x \<Longrightarrow> (\<And>e1. numbered e1 (f e1)) \<Longrightarrow> numbered e (and_then x f)"
  by (cases x; cases "f (snd x)") (metis and_then_def case_prod_conv numbered_append snd_conv)

lemma numbered_register [simp]: "re_sequence_number (register_tool_call i n w j c e) = re_sequence_number e"
  by (simp add: register_tool_call_def Let_def split: option.split)

lemma numbered_close_call: "numbered e (close_tool_call from_str display st i e)"
proof -
  have "numbered e (fst x, (snd x)\<lparr>re_tool_done := t\<rparr>)" if "numbered e x" for x t
    using that by (simp add: numbered_def)
  with numbered_emit_all [of e e] show ?thesis by (simp add: close_tool_call_def Let_def split_beta)
qed

lemma numbered_close_calls: "numbered e (close_calls from_str display st is e)"
  by (induction "is" arbitrary: e) (auto intro: numbered_close_call)

lemma numbered_ops:
  "numbered e (start_text e)" "numbered e (send_text t e)" "numbered e (start_reasoning (latch_reasoning r c e))"
  "numbered e (send_reasoning t e)" "numbered e (send_program v e)" "numbered e (close_reasoning st e)"
  "numbered e (close_text e)" "numbered e (open_tool_call i n w j a e)" "numbered e (append_tool_arguments i t e)"
  "numbered e (completed_event from_str st e)" "numbered e (close_tool_calls from_str display st e)"
  by (auto simp: start_text_def send_text_def start_reasoning_def latch_reasoning_def send_reasoning_def
      send_program_def close_reasoning_def close_text_def open_tool_call_def append_tool_arguments_def
      completed_event_def close_tool_calls_def numbered_close_calls Let_def simp del: emit_all.simps split: option.split)

lemma numbered_events: "numbered e (responses_events from_str display e p)"
proof (cases p)
  case (Finish r)
  have "numbered e1 (if re_pending_usage e1 \<noteq> None then completed_event from_str st e1
      else ([], e1\<lparr>re_pending_finish_status := Some st\<rparr>))" for e1 st
    using numbered_ops(10) by simp
  then have "numbered e (finish_stream from_str display st e)" for st
    unfolding finish_stream_def by (intro numbered_and_then numbered_ops)
  with Finish show ?thesis by simp
next
  case (Usage_part u)
  have "numbered e (completed_event from_str st (e\<lparr>re_pending_usage := Some u, re_pending_finish_status := None\<rparr>))" for st
    by (rule numbered_cong [OF _ numbered_ops(10)]) simp
  with Usage_part show ?thesis by (simp add: Let_def split: option.split)
next
  case (ResponseCompleted i st u x)
  have "numbered e (close_tool_calls from_str display s (e\<lparr>re_pending_finish_status := None\<rparr>))" for s
    by (rule numbered_cong [OF _ numbered_ops(11)]) simp
  with ResponseCompleted show ?thesis by (auto simp: Let_def intro!: numbered_ops)
qed (auto intro!: numbered_ops simp: lifecycle_def simp del: emit_all.simps split: option.split)

lemma numbered_stream: "numbered e (stream_events from_str display e ps)"
  by (induction ps arbitrary: e) (auto intro: numbered_events)

text \<open>
  The events that the responses encoder sends for a stream are numbered 0, 1, 2, and so on, without a gap
  or a repetition, whatever the parts of the stream are.
\<close>

theorem responses_events_numbered:
  assumes "fst (stream_events from_str display ResponsesStreamEncoder_new ps) = vs" and "length vs < 2 ^ 64"
  shows "map (\<lambda>v. idx v ''sequence_number'') vs = map jnat [0..<length vs]"
  using numbered_stream [of ResponsesStreamEncoder_new from_str display ps] assms
  by (simp add: numbered_def ResponsesStreamEncoder_new_def)

text \<open>What kinds of events an emission has, and the indices of the output items they are about.\<close>

definition event_kind :: "json \<Rightarrow> string" where
  "event_kind v = unwrap_or (as_str (idx v ''type'')) []"

definition of_kind :: "string \<Rightarrow> json list \<Rightarrow> nat list" where
  "of_kind k vs = map (\<lambda>v. unwrap_or (as_u64 (idx v ''output_index'')) 0) (filter (\<lambda>v. event_kind v = k) vs)"

abbreviation items_added :: "json list \<Rightarrow> nat list" where
  "items_added \<equiv> of_kind ''response.output_item.added''"

abbreviation items_done :: "json list \<Rightarrow> nat list" where
  "items_done \<equiv> of_kind ''response.output_item.done''"

abbreviation completions :: "json list \<Rightarrow> nat list" where
  "completions \<equiv> of_kind ''response.completed''"

lemma of_kind_simps [simp]:
  "of_kind k [] = []" "of_kind k (vs @ ws) = of_kind k vs @ of_kind k ws"
  "of_kind k (object_of kvs # vs) =
     (if event_kind (object_of kvs) = k then [unwrap_or (as_u64 (idx (object_of kvs) ''output_index'')) 0] else []) @ of_kind k vs"
  "of_kind k (item_added n item # vs) = (if k = ''response.output_item.added'' then [n] else []) @ of_kind k vs"
  "of_kind k (item_done n item # vs) = (if k = ''response.output_item.done'' then [n] else []) @ of_kind k vs"
  by (auto simp: of_kind_def item_added_def item_done_def event_kind_def)

lemma event_kind_object [simp]: "event_kind (object_of kvs) = unwrap_or (as_str (idx (object_of kvs) ''type'')) []"
  by (simp add: event_kind_def)

fun stamp :: "nat \<Rightarrow> json list \<Rightarrow> json list" where
  "stamp n [] = []"
| "stamp n (v # vs) = put ''sequence_number'' (jnat n) v # stamp (add_u64 n 1) vs"

fun advance :: "nat \<Rightarrow> nat \<Rightarrow> nat" where
  "advance n 0 = n"
| "advance n (Suc k) = advance (add_u64 n 1) k"

lemma emit_all_stamp:
  "emit_all vs e = (stamp (re_sequence_number e) vs, e\<lparr>re_sequence_number := advance (re_sequence_number e) (length vs)\<rparr>)"
  by (induction vs arbitrary: e) (simp_all add: emit_def)

lemma of_kind_stamp [simp]: "of_kind k (stamp n vs) = of_kind k vs"
  by (induction vs arbitrary: n) (simp_all add: of_kind_def event_kind_def)

lemma emit_stamp:
  "emit v e = (stamp (re_sequence_number e) [v], e\<lparr>re_sequence_number := advance (re_sequence_number e) 1\<rparr>)"
  by (simp add: emit_def)

lemmas emission_simps = emit_stamp emit_all_stamp and_then_def Let_def split_beta

declare emit_all.simps [simp del] stamp.simps(2) [simp del]

subsection \<open>The end of the response\<close>

text \<open>Nothing but \<open>completed_event\<close> sends the end of the response or notes that it has been sent.\<close>

definition silent :: "ResponsesStreamEncoder \<Rightarrow> emission \<Rightarrow> bool" where
  "silent e x \<longleftrightarrow> completions (fst x) = [] \<and> re_completed_sent (snd x) = re_completed_sent e"

lemma silent_and_then: "silent e x \<Longrightarrow> (\<And>e1. silent e1 (f e1)) \<Longrightarrow> silent e (and_then x f)"
  by (simp add: silent_def and_then_def split_beta)

lemma register_completed [simp]: "re_completed_sent (register_tool_call i n w j c e) = re_completed_sent e"
  by (simp add: register_tool_call_def Let_def split: option.split)

lemma silent_close_calls: "silent e (close_calls from_str display st is e)"
proof (induction "is" arbitrary: e)
  case (Cons i "is")
  have "silent e (close_tool_call from_str display st i e)" for e
    by (simp add: silent_def close_tool_call_def emission_simps)
  with Cons show ?case by (simp add: silent_and_then)
qed (simp add: silent_def)

lemma silent_ops:
  "silent e (start_text e)" "silent e (send_text t e)" "silent e (start_reasoning (latch_reasoning r c e))"
  "silent e (send_reasoning t e)" "silent e (send_program v e)" "silent e (close_reasoning st e)"
  "silent e (close_text e)" "silent e (open_tool_call i n w j a e)" "silent e (append_tool_arguments i t e)"
  "silent e (close_tool_calls from_str display st e)"
  by (simp_all add: silent_def start_text_def send_text_def start_reasoning_def latch_reasoning_def send_reasoning_def
      send_program_def close_reasoning_def close_text_def open_tool_call_def append_tool_arguments_def
      emission_simps split: option.split)
    (use silent_close_calls in \<open>simp_all add: silent_def close_tool_calls_def\<close>)

lemma completed_event_ends: "completions (fst (completed_event from_str st e)) = [0]"
  "re_completed_sent (snd (completed_event from_str st e))"
  by (simp_all add: completed_event_def emission_simps)

definition ends_once :: "ResponsesStreamEncoder \<Rightarrow> emission \<Rightarrow> bool" where
  "ends_once e x \<longleftrightarrow>
     completions (fst x) = (if re_completed_sent (snd x) \<and> \<not> re_completed_sent e then [0] else []) \<and>
     (re_completed_sent e \<longrightarrow> re_completed_sent (snd x))"

lemma silent_ends: "silent e x \<Longrightarrow> ends_once e x"
  by (simp add: silent_def ends_once_def)

lemma ends_once_and_then: "ends_once e x \<Longrightarrow> (\<And>e1. ends_once e1 (f e1)) \<Longrightarrow> ends_once e (and_then x f)"
  by (simp add: ends_once_def and_then_def split_beta)

lemma ends_once_finish:
  assumes "\<not> re_completed_sent e" shows "ends_once e (finish_stream from_str display st e)"
proof -
  let ?f = "\<lambda>e3. if re_pending_usage e3 \<noteq> None then completed_event from_str st e3
    else ([], e3\<lparr>re_pending_finish_status := Some st\<rparr>)"
  define x where "x = and_then (close_reasoning st e) (\<lambda>e1. and_then (close_text e1) (close_tool_calls from_str display st))"
  have "finish_stream from_str display st e = and_then x ?f"
    by (simp add: finish_stream_def x_def and_then_def split_beta)
  moreover have "silent e x" unfolding x_def by (intro silent_and_then silent_ops)
  ultimately show ?thesis using assms completed_event_ends [of from_str st "snd x"]
    by (simp add: silent_def ends_once_def and_then_def split_beta)
qed

lemma ends_once_events: "ends_once e (responses_events from_str display e p)"
proof (cases p)
  case (Finish r)
  then show ?thesis using ends_once_finish by (simp add: ends_once_def)
next
  case (Usage_part u)
  then show ?thesis using completed_event_ends by (simp add: ends_once_def Let_def split: option.split)
next
  case (ResponseCompleted i st u x)
  have "silent e (close_tool_calls from_str display s (e\<lparr>re_pending_finish_status := None\<rparr>))" for s
    using silent_ops(10) [of "e\<lparr>re_pending_finish_status := None\<rparr>"] by (simp add: silent_def)
  with ResponseCompleted show ?thesis using completed_event_ends
    by (simp add: ends_once_def silent_def and_then_def split_beta Let_def)
next
  case (ToolCallDelta i n a w j c)
  have "silent e1 (if a = [] then ([], e1) else append_tool_arguments i a e1)" for e1
    using silent_ops(9) by (simp add: silent_def)
  with ToolCallDelta show ?thesis by (auto intro!: silent_ends silent_and_then silent_ops split: option.split)
next
  case (Error_part m cls c)
  then show ?thesis by (simp add: ends_once_def responses_error_object_def emission_simps)
next
  case (ResponseStarted i)
  then show ?thesis by (simp add: ends_once_def lifecycle_def emission_simps)
qed (auto intro!: silent_ends silent_and_then silent_ops)

lemma ends_once_stream: "ends_once e (stream_events from_str display e ps)"
  by (induction ps arbitrary: e) (simp_all add: ends_once_and_then ends_once_events, simp add: ends_once_def)

lemma completion_ends:
  "completed_of ps \<noteq> [] \<Longrightarrow> re_completed_sent (snd (stream_events from_str display e ps))"
proof (induction ps arbitrary: e)
  case (Cons p ps)
  let ?e = "snd (responses_events from_str display e p)"
  have *: "snd (stream_events from_str display e (p # ps)) = snd (stream_events from_str display ?e ps)"
    by (simp add: and_then_def split_beta)
  show ?case
  proof (cases "completed_of ps = []")
    case True
    with Cons.prems obtain i st u x where "p = ResponseCompleted i st u x" by (cases p) auto
    then have "re_completed_sent ?e" using completed_event_ends(2)
      by (simp add: Let_def and_then_def split_beta)
    with ends_once_stream [of ?e from_str display ps] show ?thesis unfolding * by (simp add: ends_once_def)
  qed (use Cons.IH * in simp)
qed simp

text \<open>
  C17.  The responses encoder sends the end of the response at most once, however many usages, finishes and
  completions the parts of the stream have and in whatever order, and exactly once if the stream is completed.
\<close>

theorem response_completed_once:
  "length (completions (fst (stream_events from_str display ResponsesStreamEncoder_new ps))) \<le> 1 \<and>
   (completed_of ps \<noteq> [] \<longrightarrow> length (completions (fst (stream_events from_str display ResponsesStreamEncoder_new ps))) = 1)"
  using ends_once_stream [of ResponsesStreamEncoder_new from_str display ps] completion_ends [of ps from_str display]
  by (simp add: ends_once_def ResponsesStreamEncoder_new_def)

subsection \<open>The output items\<close>

text \<open>
  The items that have been opened: their indices are those of the reasoning, of the text, of the calls in the
  order of their opening and of the programs.
\<close>

definition item_indices :: "ResponsesStreamEncoder \<Rightarrow> nat multiset" where
  "item_indices e = mset ((case re_reasoning_output_index e of Some k \<Rightarrow> [k] | None \<Rightarrow> []) @ (case re_text_output_index e of Some k \<Rightarrow> [k] | None \<Rightarrow> []) @
     map (\<lambda>i. unwrap_or (re_tool_output_indices e i) 0) (re_tool_output_order e) @ map fst (re_program_items e))"

definition items_open :: "ResponsesStreamEncoder \<Rightarrow> json list \<Rightarrow> bool" where
  "items_open e vs \<longleftrightarrow> items_added vs = [0..<re_next_output_index e] \<and> item_indices e = mset (items_added vs) \<and>
     mset (items_done vs) = mset (map fst (re_program_items e)) \<and> distinct (re_tool_output_order e) \<and>
     set (re_tool_output_order e) = dom (re_tool_output_indices e) \<and> re_tool_done e = {} \<and>
     \<not> re_completed_sent e \<and> re_pending_finish_status e = None"

definition items_closed :: "ResponsesStreamEncoder \<Rightarrow> json list \<Rightarrow> bool" where
  "items_closed e vs \<longleftrightarrow> items_added vs = [0..<length (items_added vs)] \<and> mset (items_done vs) = mset (items_added vs) \<and>
     set (re_tool_output_order e) \<subseteq> re_tool_done e \<and> (re_completed_sent e \<or> re_pending_finish_status e \<noteq> None)"

fun is_content :: "StreamPart \<Rightarrow> bool" where
  "is_content (TextDelta _) = True"
| "is_content (ReasoningDelta _ _ _) = True"
| "is_content (ToolCallDelta _ _ _ _ _ _) = True"
| "is_content (ProgramDelta _ _ _ _) = True"
| "is_content (ProgramOutputDelta _ _ _ _) = True"
| "is_content _ = False"

fun is_end :: "StreamPart \<Rightarrow> bool" where
  "is_end (Finish _) = True"
| "is_end (ResponseCompleted _ _ _ _) = True"
| "is_end _ = False"

text \<open>What the operations add, close and keep.\<close>

definition items_view :: "ResponsesStreamEncoder \<Rightarrow> nat \<times> nat option \<times> nat option \<times> (string \<rightharpoonup> nat) \<times> string list \<times>
    nat list \<times> string set \<times> bool \<times> string option" where
  "items_view e = (re_next_output_index e, re_reasoning_output_index e, re_text_output_index e, re_tool_output_indices e,
     re_tool_output_order e, map fst (re_program_items e), re_tool_done e, re_completed_sent e, re_pending_finish_status e)"

definition adds :: "ResponsesStreamEncoder \<Rightarrow> emission \<Rightarrow> nat list \<Rightarrow> nat list \<Rightarrow> bool" where
  "adds e x as ds \<longleftrightarrow> items_added (fst x) = as \<and> items_done (fst x) = ds \<and> items_view (snd x) = items_view e"

lemma start_text_items:
  "items_added (fst (start_text e)) = (if re_text_output_index e = None then [re_next_output_index e] else [])"
  "items_done (fst (start_text e)) = []"
  "items_view (snd (start_text e)) = items_view (if re_text_output_index e \<noteq> None then e else
     e\<lparr>re_next_output_index := next_index32 (re_next_output_index e), re_text_output_index := Some (re_next_output_index e)\<rparr>)"
  by (simp_all add: start_text_def emission_simps items_view_def split: option.split)

lemma start_reasoning_items:
  "items_added (fst (start_reasoning e)) = (if re_reasoning_output_index e = None then [re_next_output_index e] else [])"
  "items_done (fst (start_reasoning e)) = []"
  "items_view (snd (start_reasoning e)) = items_view (if re_reasoning_output_index e \<noteq> None then e else
     e\<lparr>re_next_output_index := next_index32 (re_next_output_index e), re_reasoning_output_index := Some (re_next_output_index e)\<rparr>)"
  by (simp_all add: start_reasoning_def emission_simps items_view_def split: option.split)

lemma open_call_items:
  "items_added (fst (open_tool_call i n w j c e)) = (if re_tool_output_indices e i = None then [re_next_output_index e] else [])"
  "items_done (fst (open_tool_call i n w j c e)) = []"
  "items_view (snd (open_tool_call i n w j c e)) = items_view (if re_tool_output_indices e i \<noteq> None then e else
     e\<lparr>re_next_output_index := next_index32 (re_next_output_index e),
       re_tool_output_indices := (re_tool_output_indices e)(i \<mapsto> re_next_output_index e),
       re_tool_output_order := re_tool_output_order e @ [i]\<rparr>)"
  by (simp_all add: open_tool_call_def register_tool_call_def emission_simps items_view_def split: option.split)

lemma send_program_items:
  "items_added (fst (send_program v e)) = [re_next_output_index e]"
  "items_done (fst (send_program v e)) = [re_next_output_index e]"
  "items_view (snd (send_program v e)) = items_view (e\<lparr>re_next_output_index := next_index32 (re_next_output_index e),
     re_program_items := re_program_items e @ [(re_next_output_index e, v)]\<rparr>)"
  by (simp_all add: send_program_def emission_simps items_view_def)

lemma plain_items:
  "adds e (send_text t e) [] []" "adds e (send_reasoning t e) [] []" "adds e (append_tool_arguments i t e) [] []"
  "adds e (emit (responses_error_object m cls c) e) [] []"
  "adds e (close_reasoning st e) [] (case re_reasoning_output_index e of Some k \<Rightarrow> [k] | None \<Rightarrow> [])"
  "adds e (close_text e) [] (case re_text_output_index e of Some k \<Rightarrow> [k] | None \<Rightarrow> [])"
  by (simp_all add: adds_def send_text_def send_reasoning_def append_tool_arguments_def responses_error_object_def
      close_reasoning_def close_text_def emission_simps items_view_def split: option.split)

lemma completed_items:
  "items_added (fst (completed_event from_str st e)) = []" "items_done (fst (completed_event from_str st e)) = []"
  "items_view (snd (completed_event from_str st e)) = items_view (e\<lparr>re_completed_sent := True\<rparr>)"
  by (simp_all add: completed_event_def emission_simps items_view_def)

lemma started_items:
  "adds e (responses_events from_str display e (ResponseStarted i)) [] []"
  by (simp add: adds_def lifecycle_def emission_simps items_view_def)

lemma close_call_items:
  "items_added (fst (close_tool_call from_str display st i e)) = []"
  "items_done (fst (close_tool_call from_str display st i e)) =
     (if i \<in> re_tool_done e then [] else [unwrap_or (re_tool_output_indices e i) 0])"
  "items_view (snd (close_tool_call from_str display st i e)) = items_view (e\<lparr>re_tool_done := insert i (re_tool_done e)\<rparr>)"
  by (simp_all add: close_tool_call_def emission_simps items_view_def insert_absorb)

lemma items_open_cong:
  assumes "items_view e' = items_view e" and "items_added vs' = items_added vs" and "items_done vs' = items_done vs"
  shows "items_open e' vs' \<longleftrightarrow> items_open e vs"
  using assms unfolding items_open_def item_indices_def items_view_def by simp

lemma items_open_adds:
  assumes "adds e x [] []" and "items_open e vs" shows "items_open (snd x) (vs @ fst x)"
  using assms items_open_cong [of "snd x" e "vs @ fst x" vs] by (simp add: adds_def)

text \<open>An item that is opened gets the next index.\<close>

lemma items_open_text:
  assumes "items_open e vs" and "re_next_output_index e + 1 < 2 ^ 32"
  shows "items_open (snd (start_text e)) (vs @ fst (start_text e))"
proof -
  let ?k = "re_next_output_index e"
  have "items_open (e\<lparr>re_next_output_index := next_index32 ?k, re_text_output_index := Some ?k\<rparr>) (vs @ [item_added ?k JNull])"
    if "re_text_output_index e = None"
    using assms that by (simp add: items_open_def item_indices_def next_index32_def del: upt_Suc, simp)
  with assms(1) show ?thesis
    by (subst items_open_cong [OF start_text_items(3), of _ "vs @ (if re_text_output_index e = None then [item_added ?k JNull] else [])"])
      (simp_all add: start_text_items)
qed

lemma items_open_reasoning:
  assumes "items_open e vs" and "re_next_output_index e + 1 < 2 ^ 32"
  shows "items_open (snd (start_reasoning e)) (vs @ fst (start_reasoning e))"
proof -
  let ?k = "re_next_output_index e"
  have "items_open (e\<lparr>re_next_output_index := next_index32 ?k, re_reasoning_output_index := Some ?k\<rparr>) (vs @ [item_added ?k JNull])"
    if "re_reasoning_output_index e = None"
    using assms that by (simp add: items_open_def item_indices_def next_index32_def del: upt_Suc, simp)
  with assms(1) show ?thesis
    by (subst items_open_cong [OF start_reasoning_items(3), of _ "vs @ (if re_reasoning_output_index e = None then [item_added ?k JNull] else [])"])
      (simp_all add: start_reasoning_items)
qed

lemma items_open_call:
  assumes "items_open e vs" and "re_next_output_index e + 1 < 2 ^ 32"
  shows "items_open (snd (open_tool_call i n w j c e)) (vs @ fst (open_tool_call i n w j c e))"
proof -
  let ?k = "re_next_output_index e" and ?m = "re_tool_output_indices e"
  have "items_open (e\<lparr>re_next_output_index := next_index32 ?k, re_tool_output_indices := ?m(i \<mapsto> ?k),
      re_tool_output_order := re_tool_output_order e @ [i]\<rparr>) (vs @ [item_added ?k JNull])" if new: "?m i = None"
  proof -
    from assms(1) new have "i \<notin> set (re_tool_output_order e)" by (auto simp: items_open_def)
    then have "map (\<lambda>j. unwrap_or ((?m(i \<mapsto> ?k)) j) 0) (re_tool_output_order e) =
        map (\<lambda>j. unwrap_or (?m j) 0) (re_tool_output_order e)" by auto
    with assms \<open>i \<notin> _\<close> show ?thesis
      by (simp add: items_open_def item_indices_def next_index32_def del: upt_Suc map_eq_conv fun_upd_apply) simp
  qed
  with assms(1) show ?thesis
    by (subst items_open_cong [OF open_call_items(3), of _ "vs @ (if ?m i = None then [item_added ?k JNull] else [])"])
      (simp_all add: open_call_items)
qed

lemma items_open_program:
  assumes "items_open e vs" and "re_next_output_index e + 1 < 2 ^ 32"
  shows "items_open (snd (send_program v e)) (vs @ fst (send_program v e))"
proof -
  let ?k = "re_next_output_index e"
  have "items_open (e\<lparr>re_next_output_index := next_index32 ?k, re_program_items := re_program_items e @ [(?k, v)]\<rparr>)
      (vs @ [item_added ?k JNull, item_done ?k JNull])"
    using assms by (simp add: items_open_def item_indices_def next_index32_def del: upt_Suc, simp)
  then show ?thesis
    by (subst items_open_cong [OF send_program_items(3), of _ "vs @ [item_added ?k JNull, item_done ?k JNull]"])
      (simp_all add: send_program_items)
qed

lemma items_open_and_then:
  assumes "items_open (snd x) (vs @ fst x)" and "\<And>e ws. items_open e ws \<Longrightarrow> items_open (snd (f e)) (ws @ fst (f e))"
  shows "items_open (snd (and_then x f)) (vs @ fst (and_then x f))"
  using assms(2) [OF assms(1)] by (simp add: and_then_def split_beta)

lemma items_open_step:
  assumes "items_open e vs" and "\<not> is_end p" and "re_next_output_index e + 1 < 2 ^ 32"
  shows "items_open (snd (responses_events from_str display e p)) (vs @ fst (responses_events from_str display e p))"
proof (cases p)
  case (TextDelta t)
  have "items_open (snd (and_then (start_text e) (send_text t))) (vs @ fst (and_then (start_text e) (send_text t)))"
    by (rule items_open_and_then [OF items_open_text [OF assms(1,3)] items_open_adds [OF plain_items(1)]])
  with TextDelta show ?thesis by simp
next
  case (ReasoningDelta t i c)
  have "items_open (latch_reasoning i c e) vs"
    using assms(1) items_open_cong [of "latch_reasoning i c e" e vs vs] by (simp add: items_view_def latch_reasoning_def)
  moreover have "re_next_output_index (latch_reasoning i c e) = re_next_output_index e" by (simp add: latch_reasoning_def)
  ultimately have "items_open (snd (and_then (start_reasoning (latch_reasoning i c e)) (send_reasoning t)))
      (vs @ fst (and_then (start_reasoning (latch_reasoning i c e)) (send_reasoning t)))"
    using assms(3) by (intro items_open_and_then items_open_reasoning items_open_adds [OF plain_items(2)]) simp_all
  with ReasoningDelta show ?thesis by simp
next
  case (ToolCallDelta i n a w j c)
  have "items_open (snd x) (ws @ fst x)" if "items_open e ws" and "x = (if a = [] then ([], e) else append_tool_arguments i a e)"
    for e ws x
    using that items_open_adds [OF plain_items(3)] by simp
  then have "items_open (snd (and_then (open_tool_call i m w j c e) (\<lambda>e. if a = [] then ([], e) else append_tool_arguments i a e)))
      (vs @ fst (and_then (open_tool_call i m w j c e) (\<lambda>e. if a = [] then ([], e) else append_tool_arguments i a e)))" for m
    using items_open_call [OF assms(1,3)] by (intro items_open_and_then) blast+
  with ToolCallDelta assms(1) items_open_adds [OF plain_items(3)] show ?thesis by (cases n) simp_all
next
  case (Usage_part u)
  have "items_open (e\<lparr>re_pending_usage := Some u\<rparr>) vs"
    using assms(1) items_open_cong [of "e\<lparr>re_pending_usage := Some u\<rparr>" e vs vs] by (simp add: items_view_def)
  moreover have "re_pending_finish_status e = None" using assms(1) by (simp add: items_open_def)
  ultimately show ?thesis using Usage_part by (simp add: Let_def)
qed (use assms items_open_program items_open_adds [OF plain_items(4)] items_open_adds [OF started_items]
    in \<open>simp_all del: responses_events.simps(1)\<close>)

lemma next_index_step:
  assumes "\<not> is_end p" and "re_next_output_index e + 1 < 2 ^ 32" and "re_pending_finish_status e = None"
  shows "re_next_output_index (snd (responses_events from_str display e p)) \<le> re_next_output_index e + 1"
proof -
  have n: "items_view e1 = items_view e2 \<Longrightarrow> re_next_output_index e1 = re_next_output_index e2" for e1 e2
    by (simp add: items_view_def)
  note ops = plain_items [unfolded adds_def, THEN conjunct2, THEN conjunct2, THEN n]
    start_text_items(3) [THEN n] start_reasoning_items(3) [THEN n] open_call_items(3) [THEN n]
    send_program_items(3) [THEN n] started_items [unfolded adds_def, THEN conjunct2, THEN conjunct2, THEN n]
  show ?thesis using assms
    by (cases p) (auto simp: and_then_def split_beta ops next_index32_def latch_reasoning_def Let_def
        simp del: responses_events.simps(1) split: option.split)
qed

lemma items_open_stream:
  assumes "items_open e vs" and "\<forall>p\<in>set ps. \<not> is_end p" and "re_next_output_index e + length ps < 2 ^ 32"
  shows "items_open (snd (stream_events from_str display e ps)) (vs @ fst (stream_events from_str display e ps))"
  using assms
proof (induction ps arbitrary: e vs)
  case (Cons p ps)
  let ?x = "responses_events from_str display e p"
  from Cons.prems have "re_pending_finish_status e = None" by (simp add: items_open_def)
  with next_index_step [of p e from_str display] Cons.prems have "re_next_output_index (snd ?x) + length ps < 2 ^ 32" by simp
  with Cons.IH [OF items_open_step [OF Cons.prems(1)]] Cons.prems show ?case
    by (simp add: and_then_def split_beta)
qed simp

lemma close_calls_items:
  assumes "distinct ids"
  shows "items_added (fst (close_calls from_str display st ids e)) = [] \<and>
    items_done (fst (close_calls from_str display st ids e)) =
      map (\<lambda>i. unwrap_or (re_tool_output_indices e i) 0) (filter (\<lambda>i. i \<notin> re_tool_done e) ids) \<and>
    items_view (snd (close_calls from_str display st ids e)) = items_view (e\<lparr>re_tool_done := re_tool_done e \<union> set ids\<rparr>)"
  using assms
proof (induction ids arbitrary: e)
  case Nil
  then show ?case by simp
next
  case (Cons i ids)
  let ?x = "close_tool_call from_str display st i e"
  have v: "re_tool_output_indices (snd ?x) = re_tool_output_indices e" "re_tool_done (snd ?x) = insert i (re_tool_done e)"
    "items_view ((snd ?x)\<lparr>re_tool_done := D\<rparr>) = items_view (e\<lparr>re_tool_done := D\<rparr>)" for D
    using close_call_items(3) [of from_str display st i e] by (simp_all add: items_view_def)
  have f: "filter (\<lambda>j. j \<noteq> i \<and> j \<notin> re_tool_done e) ids = filter (\<lambda>j. j \<notin> re_tool_done e) ids"
    using Cons.prems by (intro filter_cong) auto
  show ?case using Cons.IH [of "snd ?x"] Cons.prems
    by (simp add: and_then_def split_beta v f close_call_items f)
qed

lemma items_closed_finish:
  assumes "items_open e vs"
  shows "items_closed (snd (finish_stream from_str display st e)) (vs @ fst (finish_stream from_str display st e))"
proof -
  let ?x1 = "close_reasoning st e"
  let ?x2 = "close_text (snd ?x1)"
  let ?x3 = "close_tool_calls from_str display st (snd ?x2)"
  let ?x4 = "if re_pending_usage (snd ?x3) \<noteq> None then completed_event from_str st (snd ?x3)
    else ([], (snd ?x3)\<lparr>re_pending_finish_status := Some st\<rparr>)"
  have x: "finish_stream from_str display st e = (fst ?x1 @ fst ?x2 @ fst ?x3 @ fst ?x4, snd ?x4)"
    by (simp add: finish_stream_def and_then_def split_beta)
  have v: "items_view (snd ?x1) = items_view e" "items_view (snd ?x2) = items_view e"
    using plain_items(5) [of e st] plain_items(6) [of "snd ?x1"] by (simp_all add: adds_def)
  then have f: "re_text_output_index (snd ?x1) = re_text_output_index e"
    "re_tool_output_indices (snd ?x2) = re_tool_output_indices e"
    "re_tool_output_order (snd ?x2) = re_tool_output_order e" "re_tool_done (snd ?x2) = re_tool_done e"
    by (simp_all add: items_view_def)
  have o: "items_added vs = [0..<re_next_output_index e]" "item_indices e = mset (items_added vs)"
    "mset (items_done vs) = mset (map fst (re_program_items e))" "distinct (re_tool_output_order e)" "re_tool_done e = {}"
    using assms by (simp_all add: items_open_def)
  have c: "items_added (fst ?x3) = []" "items_done (fst ?x3) =
      map (\<lambda>i. unwrap_or (re_tool_output_indices e i) 0) (re_tool_output_order e)"
    "re_tool_output_order (snd ?x3) = re_tool_output_order e" "re_tool_done (snd ?x3) = set (re_tool_output_order e)"
    using close_calls_items [OF o(4), of from_str display st "snd ?x2"] f o(5) v(2)
    by (simp_all add: close_tool_calls_def items_view_def)
  have e4: "items_added (fst ?x4) = []" "items_done (fst ?x4) = []"
    "re_tool_output_order (snd ?x4) = re_tool_output_order e" "re_tool_done (snd ?x4) = set (re_tool_output_order e)"
    "re_completed_sent (snd ?x4) \<or> re_pending_finish_status (snd ?x4) \<noteq> None"
    using completed_items [of from_str st "snd ?x3"] c(3,4) by (simp_all add: items_view_def)
  have "mset (items_done (vs @ fst ?x1 @ fst ?x2 @ fst ?x3 @ fst ?x4)) = item_indices e"
    using plain_items(5) [of e st] plain_items(6) [of "snd ?x1"] o(3) c(2) e4(2) f(1)
    by (simp add: adds_def item_indices_def)
  moreover have "items_added (vs @ fst ?x1 @ fst ?x2 @ fst ?x3 @ fst ?x4) = items_added vs"
    using plain_items(5) [of e st] plain_items(6) [of "snd ?x1"] c(1) e4(1) by (simp add: adds_def)
  ultimately show ?thesis unfolding x items_closed_def using e4(3-5) o(1,2) by simp
qed

lemma items_closed_step:
  assumes "items_closed e vs" and "\<not> is_content p"
  shows "items_closed (snd (responses_events from_str display e p)) (vs @ fst (responses_events from_str display e p))"
proof -
  have keep: "items_closed e' (vs @ ws)" if "items_added ws = []" "items_done ws = []"
    "re_tool_output_order e' = re_tool_output_order e" "re_tool_done e' = re_tool_done e"
    "re_completed_sent e' \<or> re_completed_sent e' = re_completed_sent e \<and> re_pending_finish_status e' = re_pending_finish_status e"
    for e' ws
    using that assms(1) by (auto simp: items_closed_def)
  have all_done: "close_calls from_str display st ids e' = ([], e')" if "set ids \<subseteq> re_tool_done e'" for ids st e'
    using that by (induction ids) (simp_all add: close_tool_call_def and_then_def)
  show ?thesis
  proof (cases p)
    case (ResponseStarted i)
    then show ?thesis using started_items [of e from_str display i]
      by (intro keep) (simp_all add: adds_def items_view_def)
  next
    case (Error_part m cls c)
    then show ?thesis using plain_items(4) [of e m cls c] by (intro keep) (simp_all add: adds_def items_view_def)
  next
    case (Usage_part u)
    then show ?thesis using completed_items [of from_str]
      by (intro keep) (simp_all add: Let_def items_view_def split: option.split)
  next
    case (ResponseCompleted i st u x)
    have "close_tool_calls from_str display s (e\<lparr>re_pending_finish_status := None\<rparr>) = ([], e\<lparr>re_pending_finish_status := None\<rparr>)" for s
      unfolding close_tool_calls_def using assms(1) by (intro all_done) (simp add: items_closed_def)
    with ResponseCompleted show ?thesis using completed_items [of from_str]
      by (intro keep) (simp_all add: Let_def and_then_def split_beta items_view_def)
  qed (use assms in \<open>auto intro!: keep simp: items_closed_def\<close>)
qed

lemma items_closed_stream:
  assumes "items_closed e vs" and "\<forall>p\<in>set ps. \<not> is_content p"
  shows "items_closed (snd (stream_events from_str display e ps)) (vs @ fst (stream_events from_str display e ps))"
  using assms
proof (induction ps arbitrary: e vs)
  case (Cons p ps)
  from Cons.IH [OF items_closed_step [OF Cons.prems(1)]] Cons.prems show ?case
    by (simp add: and_then_def split_beta)
qed simp

text \<open>
  C18.  The output items of a responses stream: they are opened with the indices 0, 1, 2, and so on, and a stream
  whose content comes before its finish closes each of them exactly once.
\<close>

theorem output_items_balanced:
  assumes "\<forall>p\<in>set ps. \<not> is_end p" and "\<forall>p\<in>set qs. \<not> is_content p" and "length ps < 2 ^ 32"
    and "fst (stream_events from_str display ResponsesStreamEncoder_new (ps @ Finish r # qs)) = vs"
  shows "items_added vs = [0..<length (items_added vs)] \<and> mset (items_done vs) = mset (items_added vs)"
proof -
  let ?x = "stream_events from_str display ResponsesStreamEncoder_new ps"
  have "items_open ResponsesStreamEncoder_new []"
    by (simp add: items_open_def item_indices_def ResponsesStreamEncoder_new_def)
  from items_open_stream [OF this assms(1)] assms(3) have x: "items_open (snd ?x) (fst ?x)"
    by (simp add: ResponsesStreamEncoder_new_def)
  let ?y = "responses_events from_str display (snd ?x) (Finish r)"
  have "items_closed (snd ?y) (fst ?x @ fst ?y)"
    using items_closed_finish [OF x] x by (simp add: items_open_def)
  from items_closed_stream [OF this assms(2), of from_str display]
  have "items_closed (snd (stream_events from_str display (snd ?y) qs)) vs"
    unfolding assms(4) [symmetric] by (simp add: stream_events_append and_then_def split_beta del: responses_events.simps)
  then show ?thesis by (simp add: items_closed_def)
qed

subsection \<open>Concrete events\<close>

text \<open>The events of a stream that says \<open>x\<close>, finishes and completes.\<close>

definition short_stream :: "StreamPart list" where
  "short_stream = [ResponseStarted ''r'', TextDelta ''x'', Finish Stop, ResponseCompleted ''r'' ''completed'' None []]"

lemmas stream_computes = Let_def and_then_def emit_all.simps emit_def start_text_def send_text_def finish_stream_def close_reasoning_def
  close_text_def close_tool_calls_def completed_event_def ResponsesStreamEncoder_new_def

lemma short_stream_events: "length (fst (stream_events number_value number_display ResponsesStreamEncoder_new short_stream)) = 9"
  by (simp add: short_stream_def stream_computes)

theorem responses_events_numbered_witness:
  "map (\<lambda>v. idx v ''sequence_number'') (fst (stream_events number_value number_display ResponsesStreamEncoder_new short_stream)) =
     map jnat [0..<9]"
  using responses_events_numbered [OF HOL.refl, of number_value number_display short_stream]
  unfolding short_stream_events by simp

theorem response_completed_once_witness:
  "length (completions (fst (stream_events number_value number_display ResponsesStreamEncoder_new short_stream))) = 1"
  using response_completed_once [of number_value number_display short_stream] by (simp add: short_stream_def)

theorem output_items_balanced_witness:
  "mset (items_done (fst (stream_events number_value number_display ResponsesStreamEncoder_new short_stream))) = {#0#}"
proof -
  have "items_added (fst (stream_events number_value number_display ResponsesStreamEncoder_new short_stream)) = [0]"
    by (simp add: short_stream_def stream_computes lifecycle_def of_kind_def event_kind_def item_added_def item_done_def)
  with output_items_balanced [of "[ResponseStarted ''r'', TextDelta ''x'']" "[ResponseCompleted ''r'' ''completed'' None []]"
      number_value number_display Stop, OF _ _ _ HOL.refl]
  show ?thesis by (simp add: short_stream_def)
qed

text \<open>
  A stream that is completed without a finish leaves its text item open: the item is added and appears
  in the final response, but its end is never sent.
\<close>

theorem completion_leaves_text_open:
  assumes "vs = fst (stream_events from_str display ResponsesStreamEncoder_new
    [ResponseStarted i, TextDelta t, ResponseCompleted i ''completed'' None []])"
  shows "items_added vs = [0] \<and> items_done vs = [] \<and> length (completions vs) = 1"
  unfolding assms by (simp add: stream_computes lifecycle_def of_kind_def event_kind_def item_added_def)

theorem completion_leaves_text_open_witness:
  "items_done (fst (stream_events number_value number_display ResponsesStreamEncoder_new
    [ResponseStarted ''r'', TextDelta ''x'', ResponseCompleted ''r'' ''completed'' None []])) = []"
  using completion_leaves_text_open [OF HOL.refl, of number_value number_display "''r''" "''x''"] by simp

end
