(* ===== verification/Responses_Roundtrip.thy ===== *)
theory Responses_Roundtrip
  imports Chat_Stream Responses_Stream
begin

section \<open>OpenAI responses: the round trip\<close>

text \<open>
  What the responses encoder writes, the responses decoder reads back: the events are read one by one, their
  numbers are ignored, and the decoder stays in step with the encoder.  The usage and the finish arrive with
  the final event, once both are known or the stream is completed.
\<close>

subsection \<open>Reading events\<close>

fun hear_all :: "(json \<Rightarrow> string) \<Rightarrow> json list \<Rightarrow> ResponsesStreamDecoder \<Rightarrow> hearing" where
  "hear_all display [] d = ([], d)"
| "hear_all display (v # vs) d =
     (let (ps, d1) = responses_feed_event display v d; (qs, d2) = hear_all display vs d1 in (ps @ qs, d2))"

lemma hear_all_append:
  "hear_all display (vs @ ws) d =
     (let (ps, d1) = hear_all display vs d; (qs, d2) = hear_all display ws d1 in (ps @ qs, d2))"
  by (induction vs arbitrary: d) (simp_all add: split_beta Let_def)

lemma feed_event_number:
  "responses_feed_event display (put ''sequence_number'' j v) d = responses_feed_event display v d"
proof -
  let ?w = "put ''sequence_number'' j v"
  have t: "target_call ?w d = target_call v d" by (simp add: target_call_def)
  have n: "hear_created ?w d = hear_created v d" "hear_text ?w d = hear_text v d" "hear_reasoning ?w d = hear_reasoning v d"
    "hear_arguments ?w d = hear_arguments v d" "hear_custom_input ?w d = hear_custom_input v d"
    "hear_custom_done ?w d = hear_custom_done v d" "hear_completed ?w d = hear_completed v d" "hear_error ?w = hear_error v"
    by (simp_all add: hear_created_def hear_text_def hear_reasoning_def hear_arguments_def hear_custom_input_def
        hear_custom_done_def t hear_completed_def hear_error_def split: option.split)
  have i: "idx ?w ''item'' = idx v ''item''" "idx ?w ''type'' = idx v ''type''" by simp_all
  show ?thesis unfolding responses_feed_event_def n i ..
qed

lemma hear_stamp [simp]: "hear_all display (stamp n vs) d = hear_all display vs d"
  by (induction vs arbitrary: n d) (simp_all add: stamp.simps feed_event_number)

lemma wf_stamp [simp]: "\<forall>v\<in>set vs. wf_json v \<Longrightarrow> \<forall>v\<in>set (stamp n vs). wf_json v"
  by (induction vs arbitrary: n) (simp_all add: stamp.simps)

text \<open>\<open>hears display d x ps d'\<close>: the events of the emission \<open>x\<close> have a text, and the decoder makes \<open>ps\<close> of them.\<close>

definition hears :: "(json \<Rightarrow> string) \<Rightarrow> ResponsesStreamDecoder \<Rightarrow> emission \<Rightarrow> StreamPart list \<Rightarrow> ResponsesStreamDecoder \<Rightarrow> bool" where
  "hears display d x ps d' \<longleftrightarrow> (\<forall>v\<in>set (fst x). wf_json v) \<and> hear_all display (fst x) d = (ps, d')"

lemma hears_Nil [simp]: "hears display d ([], e) ps d' \<longleftrightarrow> ps = [] \<and> d' = d"
  by (auto simp: hears_def)

lemma hears_and_then:
  "hears display d x ps d1 \<Longrightarrow> hears display d1 (f (snd x)) qs d2 \<Longrightarrow> hears display d (and_then x f) (ps @ qs) d2"
  by (auto simp: hears_def and_then_def hear_all_append split_beta Let_def)

lemma hears_emit_all:
  "\<forall>v\<in>set vs. wf_json v \<Longrightarrow> hear_all display vs d = (ps, d') \<Longrightarrow> hears display d (emit_all vs e) ps d'"
  by (simp add: hears_def emit_all_stamp)

lemma hears_emit:
  "wf_json v \<Longrightarrow> responses_feed_event display v d = (ps, d') \<Longrightarrow> hears display d (emit v e) ps d'"
  using hears_emit_all [of "[v]"] by (simp add: emit_all.simps emit_def)

lemma responses_feed_blank [simp]: "responses_feed from_str display d [] = Inr (Inr [], d)"
  by (simp add: responses_feed_def trim_def strip_prefix_def data_prefix_def)

lemma reads_responses_event:
  assumes "json_text from_str display" and "wf_json v" and "responses_feed_event display v d = (ps, d')"
  shows "reads (responses_feed from_str display) d (sse_frame (display v)) ps d'"
proof -
  note fl = frame_line [OF assms(1,2)]
  with assms(3) have "responses_feed from_str display d (data_prefix @ display v) = Inr (Inr ps, d')"
    by (simp add: responses_feed_def)
  then show ?thesis by (intro reads_frame fl(4)) simp_all
qed

lemma reads_events:
  assumes "json_text from_str display" and "\<forall>v\<in>set vs. wf_json v" and "hear_all display vs d = (ps, d')"
  shows "reads (responses_feed from_str display) d (write_events display vs) ps d'"
  using assms(2,3)
proof (induction vs arbitrary: d ps)
  case (Cons v vs)
  obtain qs d1 where v: "responses_feed_event display v d = (qs, d1)" by fastforce
  with Cons.prems obtain rs where r: "hear_all display vs d1 = (rs, d')" "ps = qs @ rs"
    by (auto simp: split_beta Let_def prod_eq_iff)
  from reads_append [OF reads_responses_event [OF assms(1) _ v] Cons.IH [OF _ r(1)]] Cons.prems r(2) show ?case
    by (simp add: write_events_def)
qed (simp add: write_events_def)

lemma reads_done: "reads (responses_feed from_str display) d (sse_frame ''[DONE]'') [response_completion d ''completed''] d"
proof -
  have "trim (data_prefix @ ''[DONE]'') = data_prefix @ ''[DONE]''"
    by (rule trim_id) (simp_all add: data_prefix_def is_whitespace_def byte_def)
  then have "responses_feed from_str display d (data_prefix @ ''[DONE]'') = Inr (Inr [response_completion d ''completed''], d)"
    by (simp add: responses_feed_def)
  then show ?thesis by (intro reads_frame) simp_all
qed

lemma reads_part:
  assumes "json_text from_str display" and "hears display d (responses_events from_str display e p) ps d'"
  shows "reads (responses_feed from_str display) d (fst (responses_encode_part from_str display e p))
    (ps @ (if closing_frame p = [] then [] else [response_completion d' ''completed''])) d'"
proof -
  have "reads (responses_feed from_str display) d (write_events display (fst (responses_events from_str display e p))) ps d'"
    using assms reads_events by (simp add: hears_def)
  moreover have "reads (responses_feed from_str display) d' (closing_frame p)
      (if closing_frame p = [] then [] else [response_completion d' ''completed'']) d'"
    using reads_done [of from_str display d'] by (cases p) (auto simp: sse_frame_def)
  ultimately show ?thesis unfolding responses_encode_part_def by (simp only: split_beta Let_def fst_conv reads_append)
qed

subsection \<open>Reading the operations of the encoder\<close>

text \<open>What the decoder must keep in step with the encoder.\<close>

definition keeps :: "ResponsesStreamDecoder \<Rightarrow> ResponsesStreamDecoder \<Rightarrow> bool" where
  "keeps d d' \<longleftrightarrow> rd_response_id d' = rd_response_id d \<and> rd_saw_function_call d' = rd_saw_function_call d"

lemma hear_message_item [simp]:
  "as_str (idx item ''type'') = Some ''message'' \<Longrightarrow> responses_feed_event display (item_added k item) d = ([], d)"
  by (simp add: responses_feed_event_def item_added_def hear_item_added_def)

lemma wf_item [simp]: "wf_json item \<Longrightarrow> wf_json (item_added k item)" "wf_json item \<Longrightarrow> wf_json (item_done k item)"
  by (simp_all add: item_added_def item_done_def wf_object_of)

lemma hears_start_text: "hears display d (start_text e) [] d"
  by (cases "re_text_output_index e")
    (auto simp: start_text_def Let_def responses_feed_event_def[of _ "object_of _"] wf_object_of output_text_part_def intro!: hears_emit_all)

lemma hears_send_text: "hears display d (send_text t e) [TextDelta t] d"
  unfolding send_text_def
  by (rule hears_emit) (simp_all add: wf_object_of responses_feed_event_def hear_text_def)

lemma hears_start_reasoning:
  "\<exists>d'. hears display d (start_reasoning e) [] d' \<and> keeps d d' \<and> rd_function_calls d' = rd_function_calls d"
proof (cases "re_reasoning_output_index e")
  case None
  let ?item = "object_of [(''id'', JString (reasoning_item_id e)), (''type'', JString ''reasoning''),
    (''status'', JString ''in_progress''), (''summary'', JArray [])]"
  have "responses_feed_event display (item_added k ?item) d = ([], stash_reasoning ?item d)" for k
    by (simp add: responses_feed_event_def item_added_def hear_item_added_def)
  then have "hears display d (start_reasoning e) [] (stash_reasoning ?item d)"
    by (auto simp: start_reasoning_def None Let_def responses_feed_event_def [of _ "object_of _"] wf_object_of
        intro!: hears_emit_all)
  then show ?thesis by (auto simp: keeps_def stash_reasoning_def)
qed (simp add: start_reasoning_def keeps_def)

lemma hears_send_reasoning:
  "\<exists>qs d'. hears display d (send_reasoning t e) qs d' \<and> same_dialogue [ReasoningDelta t i c] qs \<and> usages_of qs = [] \<and>
     finishes_of qs = [] \<and> completed_of qs = [] \<and> started_of qs = [] \<and> keeps d d' \<and>
     rd_function_calls d' = rd_function_calls d"
proof (cases "t = []")
  case True
  then show ?thesis by (auto simp: send_reasoning_def same_dialogue_def keeps_def)
next
  case False
  have "hears display d (send_reasoning t e) (fst (take_reasoning t d)) (snd (take_reasoning t d))"
    unfolding send_reasoning_def Let_def using False
    by (simp, intro hears_emit) (simp_all add: wf_object_of responses_feed_event_def hear_reasoning_def)
  then show ?thesis by (auto simp: take_reasoning_def same_dialogue_def keeps_def intro!: exI)
qed

text \<open>Tool calls of the default kind: the item has the id of the call.\<close>

definition plain_calls :: "ResponsesStreamEncoder \<Rightarrow> bool" where
  "plain_calls e \<longleftrightarrow> re_tool_wire_types e = Map.empty \<and> re_tool_item_ids e = Map.empty"

lemma hears_open_call:
  assumes "plain_calls e" and "re_tool_output_indices e i = None"
  shows "\<exists>c' d'. hears display d (open_tool_call i n None None c e) [ToolCallDelta i (Some n) [] None None c'] d' \<and>
    rd_response_id d' = rd_response_id d \<and> rd_saw_function_call d' \<and>
    rd_function_calls d' = (rd_function_calls d)(i \<mapsto> (i, Some n))"
proof -
  define c' where "c' = re_tool_callers (register_tool_call i n None None c e) i"
  let ?item = "tool_item ''function_call'' i i n [] (object_of []) [] ''in_progress'' c'"
  have wid: "unwrap_or (re_tool_item_ids (register_tool_call i n None None c e) i) i = i"
    using assms by (simp add: register_tool_call_def plain_calls_def or_insert_opt_def Let_def split: option.split)
  have item: "wf_json ?item" "as_str (idx ?item ''type'') = Some ''function_call''" "as_str (idx ?item ''id'') = Some i"
    "as_str (idx ?item ''call_id'') = Some i" "as_str (idx ?item ''name'') = Some n"
    by (cases c'; cases "the c'"; simp add: tool_item_def put_opt_def wf_object_of)+
  have id: "function_call_id ?item = i"
    using item(3,4) by (cases i) (simp_all add: function_call_id_def str_field_def)
  have "responses_feed_event display (item_added k ?item) d = hear_function_call ?item d" for k
    using item(2) by (simp add: responses_feed_event_def item_added_def hear_item_added_def)
  then have "hears display d (open_tool_call i n None None c e) (fst (hear_function_call ?item d)) (snd (hear_function_call ?item d))"
    using assms(2) item(1) wid
    by (simp add: open_tool_call_def is_responses_custom_tool_call_def Let_def c'_def [symmetric] hears_emit)
  moreover have "fst (hear_function_call ?item d) = [ToolCallDelta i (Some n) [] None None (decode_tool_caller ?item)]"
    "snd (hear_function_call ?item d) = d\<lparr>rd_saw_function_call := True,
       rd_function_calls := (rd_function_calls d)(i \<mapsto> (i, Some n)), rd_current_call_id := Some i\<rparr>"
    using item id by (simp_all add: hear_function_call_def Let_def str_field_def dual_item_id_def)
  ultimately show ?thesis
    by (intro exI [of _ "decode_tool_caller ?item"] exI [of _ "snd (hear_function_call ?item d)"]) simp
qed

lemma hears_append_arguments:
  assumes "plain_calls e" and "rd_function_calls d i = Some (i, n)"
  shows "hears display d (append_tool_arguments i a e) [ToolCallDelta i None a None None None] d"
  unfolding append_tool_arguments_def Let_def using assms
  by (intro hears_emit) (simp_all add: plain_calls_def wf_object_of responses_feed_event_def hear_arguments_def target_call_def)

text \<open>The items of programs are read when they are added; the end of an item says nothing more.\<close>

lemma hear_done_plain:
  "as_str (idx item ''type'') \<noteq> Some ''reasoning'' \<Longrightarrow>
     \<exists>d'. responses_feed_event display (item_done k item) d = ([], d') \<and> keeps d d' \<and>
       (as_str (idx item ''type'') \<notin> {Some ''function_call'', Some ''custom_tool_call''} \<longrightarrow>
         rd_function_calls d' = rd_function_calls d)"
  by (simp add: responses_feed_event_def item_done_def hear_item_done_def keeps_def Let_def split: option.split)

definition speechless :: "StreamPart list \<Rightarrow> bool" where
  "speechless qs \<longleftrightarrow> same_dialogue [] qs \<and> usages_of qs = [] \<and> finishes_of qs = [] \<and> completed_of qs = [] \<and> started_of qs = []"

lemma hears_send_program:
  assumes "wf_json item" and "hear_item_added display item d = (ps, d1)"
    and "as_str (idx item ''type'') = Some kind" and "kind = ''program'' \<or> kind = ''program_output''"
  shows "\<exists>d'. hears display d (send_program item e) ps d' \<and> keeps d1 d' \<and> rd_function_calls d' = rd_function_calls d1"
proof -
  let ?k = "re_next_output_index e"
  have a: "responses_feed_event display (item_added ?k item) d = (ps, d1)"
    using assms(2) by (simp add: responses_feed_event_def item_added_def)
  have "kind \<noteq> ''reasoning'' \<and> kind \<notin> {''function_call'', ''custom_tool_call''}" using assms(4) by auto
  with hear_done_plain [of item display ?k d1] assms(3) obtain d' where
    b: "responses_feed_event display (item_done ?k item) d1 = ([], d')" and k: "keeps d1 d'"
    "rd_function_calls d' = rd_function_calls d1" by auto
  have "hears display d (send_program item e) ps d'"
    unfolding send_program_def Let_def using assms(1) a b by (intro hears_emit_all) simp_all
  with k show ?thesis by blast
qed

lemma hears_close_reasoning:
  "\<exists>qs d'. hears display d (close_reasoning st e) qs d' \<and> speechless qs \<and> keeps d d'"
proof (cases "re_reasoning_output_index e")
  case (Some k)
  let ?item = "reasoning_item st e"
  have item: "wf_json ?item" "as_str (idx ?item ''type'') = Some ''reasoning''"
    by (cases "re_reasoning_encrypted e"; simp add: reasoning_item_def put_opt_def wf_object_of)+
  obtain qs d' where h: "hear_item_done ?item d = (qs, d')" by fastforce
  have q: "speechless qs \<and> keeps d d'"
    using h item(2) by (auto simp: hear_item_done_def hear_reasoning_done_def take_reasoning_def stash_reasoning_def Let_def
        speechless_def same_dialogue_def keeps_def split: if_splits)
  have "responses_feed_event display (item_done k ?item) d = (qs, d')"
    using h by (simp add: responses_feed_event_def item_done_def)
  with item(1) have "hears display d (close_reasoning st e) qs d'"
    unfolding close_reasoning_def Some Let_def option.case
    by (intro hears_emit_all) (simp_all add: wf_object_of responses_feed_event_def [of _ "object_of _"])
  with q show ?thesis by blast
qed (simp add: close_reasoning_def keeps_def speechless_def)

lemma hears_close_text: "\<exists>d'. hears display d (close_text e) [] d' \<and> keeps d d'"
proof (cases "re_text_output_index e")
  case (Some k)
  let ?item = "message_item ''completed'' e"
  have item: "wf_json ?item" "as_str (idx ?item ''type'') = Some ''message''" "wf_json (output_text_part (re_text e))"
    by (simp_all add: message_item_def output_text_part_def wf_object_of)
  then obtain d' where h: "responses_feed_event display (item_done k ?item) d = ([], d')" and k: "keeps d d'"
    using hear_done_plain [of ?item display k d] by auto
  have "hears display d (close_text e) [] d'"
    unfolding close_text_def Some Let_def option.case using h item
    by (intro hears_emit_all) (simp_all add: wf_object_of responses_feed_event_def [of _ "object_of _"])
  with k show ?thesis by blast
qed (simp add: close_text_def keeps_def)

lemma wf_put_opt: "(\<And>w. x = Some w \<Longrightarrow> wf_json w) \<Longrightarrow> wf_json v \<Longrightarrow> wf_json (put_opt k x v)"
  by (cases x) (simp_all add: put_opt_def)

lemma caller_json_wf [simp]: "wf_json (caller_json c)"
  by (cases c) (simp_all add: wf_object_of)

lemma function_item:
  "wf_json (tool_item ''function_call'' wid i n inp act args st c)"
  "idx (tool_item ''function_call'' wid i n inp act args st c) ''type'' = JString ''function_call''"
  by (auto simp: tool_item_def wf_object_of intro!: wf_put_opt)

lemma hears_close_call:
  assumes "plain_calls e"
  shows "\<exists>d'. hears display d (close_tool_call from_str display st i e) [] d' \<and> keeps d d'"
    and "plain_calls (snd (close_tool_call from_str display st i e))"
proof -
  let ?args = "unwrap_or (re_tool_arguments e i) []" and ?k = "unwrap_or (re_tool_output_indices e i) 0"
  let ?item = "tool_item ''function_call'' i i (unwrap_or (re_tool_names e i) []) (custom_input from_str display ?args)
    (unwrap_or (from_str ?args) (object_of [])) ?args st (re_tool_callers e i)"
  let ?vs = "[object_of [(''type'', JString ''response.function_call_arguments.done''), (''item_id'', JString i),
     (''output_index'', jnat ?k), (''arguments'', JString ?args)], item_done ?k ?item]"
  have x: "close_tool_call from_str display st i e = (if i \<in> re_tool_done e then ([], e)
      else (fst (emit_all ?vs e), (snd (emit_all ?vs e))\<lparr>re_tool_done := insert i (re_tool_done (snd (emit_all ?vs e)))\<rparr>))"
    using assms by (simp add: close_tool_call_def plain_calls_def Let_def split_beta)
  show "plain_calls (snd (close_tool_call from_str display st i e))"
    using assms by (simp add: x emit_all_stamp plain_calls_def)
  obtain d' where d': "responses_feed_event display (item_done ?k ?item) d = ([], d')" "keeps d d'"
    using hear_done_plain [of ?item display ?k d] function_item(2) by auto
  then have "hears display d (emit_all ?vs e) [] d'" using function_item(1)
    by (intro hears_emit_all) (simp_all add: wf_object_of responses_feed_event_def [of _ "object_of _"])
  then have "hears display d (fst (emit_all ?vs e), e') [] d'" for e' by (simp add: hears_def)
  with d'(2) show "\<exists>d'. hears display d (close_tool_call from_str display st i e) [] d' \<and> keeps d d'"
    unfolding x by (cases "i \<in> re_tool_done e") (auto simp: keeps_def)
qed

lemma hears_close_calls:
  "plain_calls e \<Longrightarrow> \<exists>d'. hears display d (close_calls from_str display st ids e) [] d' \<and> keeps d d'"
proof (induction ids arbitrary: e d)
  case (Cons i ids)
  from hears_close_call [OF Cons.prems] obtain d1 where
    1: "hears display d (close_tool_call from_str display st i e) [] d1" "keeps d d1" by blast
  from Cons.IH [OF hears_close_call(2) [OF Cons.prems]] obtain d2 where
    2: "hears display d1 (close_calls from_str display st ids (snd (close_tool_call from_str display st i e))) [] d2"
    "keeps d1 d2" by blast
  from hears_and_then [OF 1(1), of "close_calls from_str display st ids", OF 2(1)] 1(2) 2(2) show ?case by (auto simp: keeps_def)
qed (simp add: keeps_def)

text \<open>The final event.\<close>

lemma input_details_get:
  "Option.bind (input_details u) (\<lambda>x. as_u64 (idx x ''cached_tokens'')) =
     (if cache_read_tokens u = Some 0 then None else cache_read_tokens u)"
  "Option.bind (input_details u) (\<lambda>x. as_u64 (idx x ''cache_write_tokens'')) =
     (if cache_write_tokens u = Some 0 then None else cache_write_tokens u)"
  by (cases "cache_read_tokens u"; cases "cache_write_tokens u";
      simp add: input_details_def positive_field_def put_opt_def Let_def)+

lemma responses_usage_back:
  assumes "usage_fits u"
  shows "responses_usage (responses_usage_object u) = chat_usage u"
proof -
  let ?o = "responses_usage_object u"
  let ?in = "prompt_tokens u + unwrap_or (cache_read_tokens u) 0 + unwrap_or (cache_write_tokens u) 0"
  have s: "add_u64 (add_u64 (prompt_tokens u) (unwrap_or (cache_read_tokens u) 0)) (unwrap_or (cache_write_tokens u) 0) = ?in"
    "add_u64 ?in (completion_tokens u) = usage_total u"
    using assms by (simp_all add: usage_fits_def usage_total_def)
  have g: "get ?o ''input_tokens'' = Some (jnat ?in)" "get ?o ''output_tokens'' = Some (jnat (completion_tokens u))"
    "get ?o ''total_tokens'' = Some (jnat (usage_total u))" "get ?o ''input_tokens_details'' = input_details u"
    "Option.bind (get ?o ''output_tokens_details'') (\<lambda>x. as_u64 (idx x ''reasoning_tokens'')) =
       (if reasoning_tokens u = Some 0 then None else reasoning_tokens u)"
    using s by (cases "reasoning_tokens u";
      simp add: responses_usage_object_def get_object_of positive_field_def Let_def)+
  have "unwrap_or (if n = Some 0 then None else n) 0 = unwrap_or n (0 :: nat)" for n by (cases n) simp_all
  then show ?thesis unfolding responses_usage_def g input_details_get Let_def by (simp add: chat_usage_def)
qed

definition programs_wf :: "ResponsesStreamEncoder \<Rightarrow> bool" where
  "programs_wf e \<longleftrightarrow> (\<forall>(k, v)\<in>set (re_program_items e). wf_json v)"

lemma wf_usage_object: "wf_json (responses_usage_object u)"
  by (auto simp: responses_usage_object_def input_details_def positive_field_def wf_object_of Let_def
      intro!: wf_put_opt split: if_splits)

lemma wf_snapshot:
  assumes "plain_calls e" and "programs_wf e"
  shows "wf_json (response_snapshot from_str st e)"
proof -
  have "wf_json (reasoning_item st e)" "wf_json (message_item st e)" "wf_json (snd (snapshot_call from_str st e i))" for i
    using assms(1) function_item(1)
    by (auto simp: reasoning_item_def message_item_def output_text_part_def snapshot_call_def plain_calls_def Let_def
        wf_object_of intro!: wf_put_opt)
  then have "\<forall>v\<in>set (snapshot_output from_str st e). wf_json v"
    using assms(2) by (auto simp: snapshot_output_def programs_wf_def split: option.split)
  then show ?thesis
    by (auto simp: response_snapshot_def Let_def wf_object_of list_all_iff wf_usage_object intro!: wf_put_opt split: if_splits)
qed

lemma snapshot_fields:
  "idx (response_snapshot from_str st e) ''status'' = JString st"
  "idx (response_snapshot from_str st e) ''usage'' = (case re_pending_usage e of Some u \<Rightarrow> responses_usage_object u | None \<Rightarrow> JNull)"
  by (simp_all add: response_snapshot_def Let_def split: option.split)

definition final_parts :: "Usage option \<Rightarrow> bool \<Rightarrow> string \<Rightarrow> string option \<Rightarrow> StreamPart list" where
  "final_parts u saw st i = (case u of Some u \<Rightarrow> [Usage_part (chat_usage u)] | None \<Rightarrow> []) @
     [Finish (responses_finish_of saw st), ResponseCompleted (unwrap_or i []) ''completed'' None []]"

lemma hears_completed:
  assumes "plain_calls e" and "programs_wf e" and "\<And>u. re_pending_usage e = Some u \<Longrightarrow> usage_fits u"
  shows "hears display d (completed_event from_str st e)
    (final_parts (re_pending_usage e) (rd_saw_function_call d) st (rd_response_id d)) d"
proof -
  let ?v = "object_of [(''type'', JString ''response.completed''), (''response'', response_snapshot from_str st e)]"
  have o: "is_object (responses_usage_object u)" for u by (simp add: responses_usage_object_def Let_def put_opt_def split: option.split)
  have "responses_feed_event display ?v d = hear_completed ?v d" by (simp add: responses_feed_event_def)
  also have "\<dots> = (final_parts (re_pending_usage e) (rd_saw_function_call d) st (rd_response_id d), d)"
    using assms(3) responses_usage_back o
    by (simp add: hear_completed_def Let_def snapshot_fields final_parts_def response_completion_def split: option.split)
  finally show ?thesis unfolding completed_event_def using wf_snapshot [OF assms(1,2)]
    by (intro hears_emit) (simp_all add: wf_object_of)
qed

lemma hears_error:
  "\<exists>cls' c'. hears display d (emit (responses_error_object m cls c) e) [Error_part m cls' c'] d"
proof -
  let ?v = "responses_error_object m cls c"
  have "responses_feed_event display ?v d = ([hear_error ?v], d)"
    by (simp add: responses_feed_event_def responses_error_object_def Let_def)
  moreover have "\<exists>cls' c'. hear_error ?v = Error_part m cls' c'"
    by (simp add: hear_error_def responses_error_object_def get_object_of Let_def)
  moreover have "wf_json ?v" by (auto simp: responses_error_object_def intro!: wf_object_of wf_put_opt)
  ultimately show ?thesis by (metis hears_emit)
qed

lemma hears_started:
  "hears display d (responses_events from_str display e (ResponseStarted i)) [ResponseStarted i] (d\<lparr>rd_response_id := Some i\<rparr>)"
  unfolding responses_events.simps
  by (intro hears_emit_all) (simp_all add: lifecycle_def wf_object_of responses_feed_event_def hear_created_def)

subsection \<open>The contract\<close>

fun opened_calls :: "StreamPart list \<Rightarrow> string list" where
  "opened_calls [] = []"
| "opened_calls (ToolCallDelta i (Some _) _ _ _ _ # ps) = i # opened_calls ps"
| "opened_calls (_ # ps) = opened_calls ps"

fun calls_tools :: "StreamPart list \<Rightarrow> bool" where
  "calls_tools [] \<longleftrightarrow> False"
| "calls_tools (ToolCallDelta _ (Some _) _ _ _ _ # ps) \<longleftrightarrow> True"
| "calls_tools (ProgramDelta _ _ _ _ # ps) \<longleftrightarrow> True"
| "calls_tools (_ # ps) \<longleftrightarrow> calls_tools ps"

lemma calls_append [simp]:
  "opened_calls (ps @ qs) = opened_calls ps @ opened_calls qs" "calls_tools (ps @ qs) \<longleftrightarrow> calls_tools ps \<or> calls_tools qs"
  by (induction ps rule: opened_calls.induct, simp_all)

text \<open>The final event has been sent when the finish and the usage are known, or the finish and the completion.\<close>

definition finally_sent :: "StreamPart list \<Rightarrow> bool" where
  "finally_sent ps \<longleftrightarrow> finishes_of ps \<noteq> [] \<and> (usages_of ps \<noteq> [] \<or> completed_of ps \<noteq> [])"

text \<open>
  What a stream may have next: its start comes first, its content before the finish, one finish and one usage,
  the end after the finish.  A call is opened once, by a part with its name, and its fragments come later.
\<close>

fun responses_part :: "StreamPart list \<Rightarrow> StreamPart \<Rightarrow> bool" where
  "responses_part ps (ResponseStarted _) \<longleftrightarrow> ps = []"
| "responses_part ps (ToolCallDelta i n _ w j _) \<longleftrightarrow> finishes_of ps = [] \<and> w = None \<and> j = None \<and>
     (i \<in> set (opened_calls ps) \<longleftrightarrow> n = None)"
| "responses_part ps (Usage_part u) \<longleftrightarrow> usage_fits u \<and> usages_of ps = [] \<and> completed_of ps = []"
| "responses_part ps (Finish _) \<longleftrightarrow> finishes_of ps = [] \<and> completed_of ps = []"
| "responses_part ps (ResponseCompleted _ _ _ _) \<longleftrightarrow> finishes_of ps \<noteq> []"
| "responses_part ps (Error_part _ _ _) \<longleftrightarrow> True"
| "responses_part ps _ \<longleftrightarrow> finishes_of ps = []"

definition responses_content :: "StreamPart list \<Rightarrow> StreamPart list \<Rightarrow> bool" where
  "responses_content ps qs \<longleftrightarrow> same_dialogue ps qs \<and> started_of qs = started_of ps \<and>
     usages_of qs = (if finally_sent ps then map chat_usage (usages_of ps) else []) \<and>
     finishes_of qs = (if finally_sent ps
       then map (\<lambda>r. responses_finish_of (calls_tools ps) (finish_status r)) (finishes_of ps) else []) \<and>
     completed_of qs = replicate (of_bool (finally_sent ps) + length (completed_of ps)) (unwrap_or (first_id ps) [])"

definition first_opt :: "'a list \<Rightarrow> 'a option" where
  "first_opt xs = (case xs of [] \<Rightarrow> None | x # _ \<Rightarrow> Some x)"

lemma first_opt_simps [simp]: "first_opt [] = None" "first_opt (x # xs) = Some x"
  "first_opt (xs @ [y]) = (if xs = [] then Some y else first_opt xs)"
  by (simp_all add: first_opt_def split: list.split)

definition in_step :: "StreamPart list \<Rightarrow> ResponsesStreamEncoder \<Rightarrow> bool" where
  "in_step ps e \<longleftrightarrow> re_response_id e = first_id ps \<and> dom (re_tool_output_indices e) = set (opened_calls ps) \<and>
     plain_calls e \<and> programs_wf e \<and> re_completed_sent e = finally_sent ps \<and>
     re_pending_finish_status e = (if finally_sent ps then None else map_option finish_status (first_opt (finishes_of ps))) \<and>
     re_pending_usage e = (if finally_sent ps then None else first_opt (usages_of ps)) \<and>
     length (finishes_of ps) \<le> 1 \<and> length (usages_of ps) \<le> 1 \<and> (\<forall>u\<in>set (usages_of ps). usage_fits u)"

definition listens :: "StreamPart list \<Rightarrow> ResponsesStreamDecoder \<Rightarrow> bool" where
  "listens ps d \<longleftrightarrow> rd_response_id d = first_id ps \<and> rd_saw_function_call d = calls_tools ps \<and>
     (finishes_of ps = [] \<longrightarrow> (\<forall>i\<in>set (opened_calls ps). \<exists>n. rd_function_calls d i = Some (i, n)))"

definition responses_carries :: "(string \<Rightarrow> json option) \<Rightarrow> (json \<Rightarrow> string) \<Rightarrow> StreamPart list \<Rightarrow> StreamPart list \<Rightarrow>
    ResponsesStreamEncoder \<Rightarrow> ResponsesStreamDecoder \<Rightarrow> bool" where
  "responses_carries from_str display ps qs e d \<longleftrightarrow> json_text from_str display \<and> responses_content ps qs \<and>
     in_step ps e \<and> listens ps d"

text \<open>The parts that only continue the dialogue.\<close>

definition adds_dialogue :: "StreamPart \<Rightarrow> StreamPart list \<Rightarrow> bool" where
  "adds_dialogue p rs \<longleftrightarrow> same_dialogue [p] rs \<and> usages_of rs = [] \<and> finishes_of rs = [] \<and> completed_of rs = [] \<and> started_of rs = []"

definition dialogue_part :: "StreamPart \<Rightarrow> bool" where
  "dialogue_part p \<longleftrightarrow> is_content p \<or> (\<exists>m cls c. p = Error_part m cls c)"

lemma dialogue_part_counts:
  assumes "dialogue_part p"
  shows "usages_of [p] = []" "finishes_of [p] = []" "completed_of [p] = []" "started_of [p] = []"
    "finally_sent (ps @ [p]) = finally_sent ps" "first_id (ps @ [p]) = first_id ps"
  using assms by (cases p; auto simp: dialogue_part_def finally_sent_def intro!: first_id_snoc)+

lemma content_dialogue:
  assumes "responses_content ps qs" and "dialogue_part p" and "adds_dialogue p rs"
    and "finishes_of ps = [] \<or> \<not> is_content p"
  shows "responses_content (ps @ [p]) (qs @ rs)"
proof -
  have "calls_tools (ps @ [p]) = calls_tools ps" if "finishes_of ps \<noteq> []"
    using that assms(2,4) by (cases p) (auto simp: dialogue_part_def)
  moreover have "finishes_of ps \<noteq> []" if "finally_sent ps" using that by (simp add: finally_sent_def)
  ultimately show ?thesis
    using assms(1,3) dialogue_part_counts [OF assms(2)] same_dialogue_append [of ps qs "[p]" rs]
    by (auto simp: responses_content_def adds_dialogue_def)
qed

text \<open>The fields of the encoder that the contract is about, and what the operations do to them.\<close>

definition contract_view :: "ResponsesStreamEncoder \<Rightarrow> string option \<times> (string \<rightharpoonup> nat) \<times> (string \<rightharpoonup> string) \<times>
    (string \<rightharpoonup> string) \<times> (nat \<times> json) list \<times> bool \<times> string option \<times> Usage option" where
  "contract_view e = (re_response_id e, re_tool_output_indices e, re_tool_wire_types e, re_tool_item_ids e,
     re_program_items e, re_completed_sent e, re_pending_finish_status e, re_pending_usage e)"

lemma view_ops [simp]:
  "contract_view (snd (start_text e)) = contract_view e" "contract_view (snd (send_text t e)) = contract_view e"
  "contract_view (snd (start_reasoning e)) = contract_view e" "contract_view (latch_reasoning r c e) = contract_view e"
  "contract_view (snd (send_reasoning t e)) = contract_view e"
  "contract_view (snd (append_tool_arguments i t e)) = contract_view e"
  "contract_view (snd (close_reasoning st e)) = contract_view e" "contract_view (snd (close_text e)) = contract_view e"
  "contract_view (snd (emit v e)) = contract_view e"
  by (simp_all add: contract_view_def start_text_def send_text_def start_reasoning_def latch_reasoning_def
      send_reasoning_def append_tool_arguments_def close_reasoning_def close_text_def emission_simps split: option.split)

lemma view_close_calls [simp]: "contract_view (snd (close_tool_calls from_str display st e)) = contract_view e"
proof -
  have "contract_view (snd (close_calls from_str display st ids e)) = contract_view e" for ids
    by (induction ids arbitrary: e) (simp_all add: and_then_def split_beta close_tool_call_def emission_simps contract_view_def)
  then show ?thesis by (simp add: close_tool_calls_def)
qed

lemma in_step_view: "contract_view e' = contract_view e \<Longrightarrow> in_step ps e' \<longleftrightarrow> in_step ps e"
  by (simp add: contract_view_def in_step_def plain_calls_def programs_wf_def)

lemma plain_view: "contract_view e' = contract_view e \<Longrightarrow> plain_calls e' = plain_calls e \<and> programs_wf e' = programs_wf e \<and>
    re_pending_usage e' = re_pending_usage e"
  by (simp add: contract_view_def plain_calls_def programs_wf_def)

lemma in_step_dialogue:
  assumes "in_step ps e" and "dialogue_part p" and "opened_calls [p] = []"
  shows "in_step (ps @ [p]) e"
  using assms dialogue_part_counts [OF assms(2)] by (simp add: in_step_def)

lemma listens_dialogue:
  assumes "listens ps d" and "dialogue_part p" and "opened_calls [p] = []" and "keeps d d'"
    and "rd_function_calls d' = rd_function_calls d" and "\<not> calls_tools [p]"
  shows "listens (ps @ [p]) d'"
  using assms dialogue_part_counts [OF assms(2)] by (simp add: listens_def keeps_def)

definition carried_by :: "(json \<Rightarrow> string) \<Rightarrow> StreamPart list \<Rightarrow> ResponsesStreamDecoder \<Rightarrow> StreamPart \<Rightarrow> emission \<Rightarrow> bool" where
  "carried_by display ps d p x \<longleftrightarrow> (\<exists>rs d'. hears display d x rs d' \<and> adds_dialogue p rs \<and>
     in_step (ps @ [p]) (snd x) \<and> listens (ps @ [p]) d')"

lemma text_carried:
  assumes "in_step ps e" and "listens ps d"
  shows "carried_by display ps d (TextDelta t) (responses_events from_str display e (TextDelta t))"
proof -
  let ?x = "and_then (start_text e) (send_text t)"
  have "hears display d ?x [TextDelta t] d"
    using hears_and_then [OF hears_start_text [of display d e], of "send_text t", OF hears_send_text] by simp
  moreover have "contract_view (snd ?x) = contract_view e" by (simp add: and_then_def split_beta)
  ultimately show ?thesis unfolding carried_by_def using in_step_view [of "snd ?x" e] assms
    by (auto simp: adds_dialogue_def dialogue_part_def keeps_def intro!: exI [of _ "[TextDelta t]"] exI [of _ d]
        in_step_dialogue listens_dialogue [of ps d])
qed

lemma reasoning_carried:
  assumes "in_step ps e" and "listens ps d"
  shows "carried_by display ps d (ReasoningDelta t i c) (responses_events from_str display e (ReasoningDelta t i c))"
proof -
  let ?e = "latch_reasoning i c e"
  let ?x = "and_then (start_reasoning ?e) (send_reasoning t)"
  obtain d1 where 1: "hears display d (start_reasoning ?e) [] d1" "keeps d d1" "rd_function_calls d1 = rd_function_calls d"
    using hears_start_reasoning by blast
  obtain rs d2 where 2: "hears display d1 (send_reasoning t (snd (start_reasoning ?e))) rs d2"
    "same_dialogue [ReasoningDelta t i c] rs" "usages_of rs = []" "finishes_of rs = []" "completed_of rs = []" "started_of rs = []"
    "keeps d1 d2" "rd_function_calls d2 = rd_function_calls d1"
    using hears_send_reasoning by blast
  have h: "hears display d ?x rs d2"
    using hears_and_then [OF 1(1), of "send_reasoning t", OF 2(1)] by simp
  have v: "contract_view (snd ?x) = contract_view e" by (simp add: and_then_def split_beta)
  have "keeps d d2" using 1(2) 2(7) by (simp add: keeps_def)
  then have "listens (ps @ [ReasoningDelta t i c]) d2"
    using assms(2) 1(3) 2(8) by (intro listens_dialogue [of ps d]) (simp_all add: dialogue_part_def)
  moreover have "in_step (ps @ [ReasoningDelta t i c]) (snd ?x)"
    using in_step_view [OF v] assms(1) by (intro in_step_dialogue) (simp_all add: dialogue_part_def)
  ultimately show ?thesis unfolding carried_by_def using h 2(2-6) by (auto simp: adds_dialogue_def)
qed

lemma responses_error_carried:
  assumes "in_step ps e" and "listens ps d"
  shows "carried_by display ps d (Error_part m cls c) (responses_events from_str display e (Error_part m cls c))"
proof -
  obtain cls' c' where h: "hears display d (emit (responses_error_object m cls c) e) [Error_part m cls' c'] d"
    using hears_error by blast
  have "in_step (ps @ [Error_part m cls c]) (snd (emit (responses_error_object m cls c) e))"
    using in_step_view [OF view_ops(9)] assms(1) by (intro in_step_dialogue) (simp_all add: dialogue_part_def)
  moreover have "listens (ps @ [Error_part m cls c]) d"
    using assms(2) by (intro listens_dialogue [of ps d]) (simp_all add: dialogue_part_def keeps_def)
  ultimately show ?thesis unfolding carried_by_def using h
    by (auto simp: adds_dialogue_def same_dialogue_def intro!: exI [of _ "[Error_part m cls' c']"])
qed

lemma program_item_carried:
  assumes "in_step ps e" and "listens ps d" and "finishes_of ps = []"
    and "is_content p" and "opened_calls [p] = []" and "adds_dialogue p [p]"
    and "wf_json item" and "hear_item_added display item d = ([p], d1)"
    and "as_str (idx item ''type'') = Some kind" and "kind = ''program'' \<or> kind = ''program_output''"
    and "d1 = d\<lparr>rd_saw_function_call := rd_saw_function_call d \<or> calls_tools [p]\<rparr>"
  shows "carried_by display ps d p (send_program item e)"
proof -
  from hears_send_program [OF assms(7-10)] obtain d' where h: "hears display d (send_program item e) [p] d'"
    and k: "keeps d1 d'" "rd_function_calls d' = rd_function_calls d1" by blast
  have p: "dialogue_part p" using assms(4) by (simp add: dialogue_part_def)
  note c = dialogue_part_counts(2) [OF p] dialogue_part_counts(6) [OF p, of ps]
  have v: "contract_view (snd (send_program item e)) = contract_view (e\<lparr>re_program_items := re_program_items e @ [(re_next_output_index e, item)]\<rparr>)"
    by (simp add: contract_view_def send_program_def emission_simps)
  have "in_step ps (e\<lparr>re_program_items := re_program_items e @ [(re_next_output_index e, item)]\<rparr>)"
    using assms(1,7) by (simp add: in_step_def plain_calls_def programs_wf_def)
  then have "in_step (ps @ [p]) (snd (send_program item e))"
    using in_step_view [OF v] p assms(5) by (intro in_step_dialogue) simp_all
  moreover have "listens (ps @ [p]) d'"
    using assms(2,5) k c unfolding listens_def keeps_def assms(11) by simp
  ultimately show ?thesis unfolding carried_by_def using h assms(6) by blast
qed

lemma program_carried:
  assumes "in_step ps e" and "listens ps d" and "finishes_of ps = []"
  shows "carried_by display ps d (ProgramDelta i j k l) (responses_events from_str display e (ProgramDelta i j k l))"
    and "carried_by display ps d (ProgramOutputDelta i j k l) (responses_events from_str display e (ProgramOutputDelta i j k l))"
proof -
  show "carried_by display ps d (ProgramDelta i j k l) (responses_events from_str display e (ProgramDelta i j k l))"
    unfolding responses_events.simps
    by (rule program_item_carried [OF assms _ _ _ _ _ _ _ HOL.refl, where kind = "''program''"])
      (simp_all add: adds_dialogue_def wf_object_of hear_item_added_def hear_program_def str_field_def)
  show "carried_by display ps d (ProgramOutputDelta i j k l) (responses_events from_str display e (ProgramOutputDelta i j k l))"
    unfolding responses_events.simps
    by (rule program_item_carried [OF assms _ _ _ _ _ _ _ HOL.refl, where kind = "''program_output''"])
      (simp_all add: adds_dialogue_def wf_object_of hear_item_added_def hear_program_output_def str_field_def)
qed

lemma call_carried:
  assumes "in_step ps e" and "listens ps d" and "responses_part ps (ToolCallDelta i n a None None c)"
  shows "carried_by display ps d (ToolCallDelta i n a None None c) (responses_events from_str display e (ToolCallDelta i n a None None c))"
proof (cases n)
  case None
  with assms obtain m where f: "rd_function_calls d i = Some (i, m)" by (auto simp: listens_def)
  have "plain_calls e" using assms(1) by (simp add: in_step_def)
  from hears_append_arguments [OF this f] have h: "hears display d (append_tool_arguments i a e) [ToolCallDelta i None a None None None] d" .
  have "in_step (ps @ [ToolCallDelta i n a None None c]) (snd (append_tool_arguments i a e))"
    using in_step_view [OF view_ops(6)] assms(1) None by (intro in_step_dialogue) (simp_all add: dialogue_part_def)
  moreover have "listens (ps @ [ToolCallDelta i n a None None c]) d"
    using assms(2) None by (intro listens_dialogue [of ps d]) (simp_all add: dialogue_part_def keeps_def)
  ultimately show ?thesis unfolding carried_by_def using h None
    by (auto simp: adds_dialogue_def same_dialogue_def intro!: exI [of _ "[ToolCallDelta i None a None None None]"] exI [of _ d])
next
  case (Some m)
  let ?p = "ToolCallDelta i n a None None c" and ?x = "open_tool_call i m None None c e"
  let ?f = "\<lambda>e1. if a = [] then ([], e1) else append_tool_arguments i a e1"
  have new: "re_tool_output_indices e i = None" and fin: "finishes_of ps = []" and plain: "plain_calls e"
    using assms(1,3) Some by (auto simp: in_step_def)
  from hears_open_call [OF plain new] obtain c' d' where
    1: "hears display d ?x [ToolCallDelta i (Some m) [] None None c'] d'" "rd_response_id d' = rd_response_id d"
    "rd_saw_function_call d'" "rd_function_calls d' = (rd_function_calls d)(i \<mapsto> (i, Some m))" by blast
  have v: "contract_view (snd ?x) = contract_view (e\<lparr>re_tool_output_indices := (re_tool_output_indices e)(i \<mapsto> re_next_output_index e)\<rparr>)"
    using new by (simp add: contract_view_def open_tool_call_def register_tool_call_def or_insert_opt_def emission_simps
        is_responses_custom_tool_call_def)
  have v2: "contract_view (snd (and_then ?x ?f)) = contract_view (snd ?x)" by (simp add: and_then_def split_beta)
  have "plain_calls (snd ?x)" using plain_view [OF v] plain by (simp add: plain_calls_def)
  then have 2: "hears display d' (?f (snd ?x)) (if a = [] then [] else [ToolCallDelta i None a None None None]) d'"
    using hears_append_arguments [of "snd ?x" d' i "Some m" display a] 1(4) by simp
  let ?rs = "[ToolCallDelta i (Some m) [] None None c'] @ (if a = [] then [] else [ToolCallDelta i None a None None None])"
  from hears_and_then [OF 1(1), of ?f, OF 2] have "hears display d (responses_events from_str display e ?p) ?rs d'"
    using Some by simp
  moreover have "adds_dialogue ?p ?rs" using Some by (simp add: adds_dialogue_def same_dialogue_def)
  moreover have "in_step (ps @ [?p]) (snd (responses_events from_str display e ?p))"
  proof -
    have "in_step (ps @ [?p]) (e\<lparr>re_tool_output_indices := (re_tool_output_indices e)(i \<mapsto> re_next_output_index e)\<rparr>)"
      using assms(1) dialogue_part_counts(5,6) [of ?p ps] Some
      by (auto simp: in_step_def plain_calls_def programs_wf_def dialogue_part_def)
    with in_step_view [OF v] in_step_view [OF v2] Some show ?thesis by simp
  qed
  moreover have "listens (ps @ [?p]) d'"
    using assms(2) 1(2-4) fin dialogue_part_counts(6) [of ?p ps] Some by (auto simp: listens_def dialogue_part_def)
  ultimately show ?thesis unfolding carried_by_def by blast
qed

text \<open>The parts at the end of the stream.\<close>

fun end_part :: "StreamPart \<Rightarrow> bool" where
  "end_part (Usage_part _) \<longleftrightarrow> True"
| "end_part (Finish _) \<longleftrightarrow> True"
| "end_part (ResponseCompleted _ _ _ _) \<longleftrightarrow> True"
| "end_part _ \<longleftrightarrow> False"

lemma end_part_facts:
  assumes "end_part p"
  shows "same_dialogue [] [p]" "started_of [p] = []" "opened_calls [p] = []" "\<not> calls_tools [p]"
    "first_id (ps @ [p]) = first_id ps"
  using assms by (cases p; auto simp: same_dialogue_def intro!: first_id_snoc)+

definition end_marks :: "string option \<Rightarrow> StreamPart \<Rightarrow> StreamPart list" where
  "end_marks i p = (if closing_frame p = [] then [] else [ResponseCompleted (unwrap_or i []) ''completed'' None []])"

lemma end_marks_facts:
  "same_dialogue [] (end_marks i p)" "started_of (end_marks i p) = []" "usages_of (end_marks i p) = []"
  "finishes_of (end_marks i p) = []" "completed_of (end_marks i p) = replicate (length (completed_of [p])) (unwrap_or i [])"
  by (cases p; simp add: end_marks_def same_dialogue_def sse_frame_def)+

lemma dialogue_snoc:
  assumes "same_dialogue ps qs" and "same_dialogue [] [p]" and "same_dialogue [] rs"
  shows "same_dialogue (ps @ [p]) (qs @ rs)"
  using assms by (simp add: same_dialogue_def)

text \<open>Before and after the final event nothing is reported; the final event reports the usage and the finish.\<close>

lemma content_waits:
  assumes "responses_content ps qs" and "end_part p" and "finally_sent (ps @ [p]) = finally_sent ps"
    and "speechless rs" and "usages_of [p] = [] \<and> finishes_of [p] = [] \<or> \<not> finally_sent ps"
  shows "responses_content (ps @ [p]) (qs @ rs @ end_marks (first_id ps) p)"
  using assms(1,3-5) end_part_facts(2,4) [OF assms(2)] end_part_facts(5) [OF assms(2), of ps]
    dialogue_snoc [of ps qs p "rs @ end_marks (first_id ps) p"] end_part_facts(1) [OF assms(2)] end_marks_facts [of "first_id ps" p]
  by (auto simp: responses_content_def speechless_def same_dialogue_def replicate_add [symmetric] ac_simps)

lemma content_final:
  assumes "responses_content ps qs" and "end_part p" and "\<not> finally_sent ps" and "finally_sent (ps @ [p])"
    and "speechless rs" and "finishes_of (ps @ [p]) = [r]" and "length (usages_of (ps @ [p])) \<le> 1" and "completed_of ps = []"
  shows "responses_content (ps @ [p]) (qs @ rs @ final_parts (first_opt (usages_of (ps @ [p]))) (calls_tools ps)
    (finish_status r) (first_id ps) @ end_marks (first_id ps) p)"
proof -
  let ?fs = "final_parts (first_opt (usages_of (ps @ [p]))) (calls_tools ps) (finish_status r) (first_id ps)"
  let ?rs = "rs @ ?fs @ end_marks (first_id ps) p"
  have f: "same_dialogue [] ?fs" "started_of ?fs = []" "usages_of ?fs = map chat_usage (usages_of (ps @ [p]))"
    "finishes_of ?fs = [responses_finish_of (calls_tools ps) (finish_status r)]" "completed_of ?fs = [unwrap_or (first_id ps) []]"
    using assms(7) by (cases "usages_of (ps @ [p])"; simp add: final_parts_def same_dialogue_def)+
  have "same_dialogue (ps @ [p]) (qs @ ?rs)"
    using assms(1,5) f(1) end_marks_facts(1) end_part_facts(1) [OF assms(2)]
    by (intro dialogue_snoc) (simp_all add: responses_content_def speechless_def same_dialogue_def)
  moreover have "started_of (qs @ ?rs) = started_of (ps @ [p])"
    using assms(1,5) f(2) end_marks_facts(2) end_part_facts(2) [OF assms(2)] by (simp add: responses_content_def speechless_def)
  moreover have "usages_of (qs @ ?rs) = map chat_usage (usages_of (ps @ [p]))"
    using assms(1,3,5) f(3) end_marks_facts(3) by (simp add: responses_content_def speechless_def)
  moreover have "finishes_of (qs @ ?rs) = map (\<lambda>r. responses_finish_of (calls_tools (ps @ [p])) (finish_status r)) (finishes_of (ps @ [p]))"
    using assms(1,3,5,6) f(4) end_marks_facts(4) end_part_facts(4) [OF assms(2)] by (simp add: responses_content_def speechless_def)
  moreover have "completed_of (qs @ ?rs) = replicate (of_bool True + length (completed_of (ps @ [p]))) (unwrap_or (first_id (ps @ [p])) [])"
    using assms(1,3,5,8) f(5) end_marks_facts(5) end_part_facts(5) [OF assms(2), of ps]
    by (simp add: responses_content_def speechless_def)
  ultimately show ?thesis using assms(4) by (simp add: responses_content_def)
qed

lemma listens_end:
  assumes "listens ps d" and "end_part p" and "keeps d d'" and "finishes_of (ps @ [p]) \<noteq> [] \<or> d' = d"
  shows "listens (ps @ [p]) d'"
  using assms(1,3,4) end_part_facts(3,4) [OF assms(2)] end_part_facts(5) [OF assms(2), of ps] by (auto simp: listens_def keeps_def)

definition step_ok :: "(string \<Rightarrow> json option) \<Rightarrow> (json \<Rightarrow> string) \<Rightarrow> StreamPart list \<Rightarrow> StreamPart list \<Rightarrow>
    ResponsesStreamEncoder \<Rightarrow> ResponsesStreamDecoder \<Rightarrow> StreamPart \<Rightarrow> bool" where
  "step_ok from_str display ps qs e d p \<longleftrightarrow> (\<exists>rs d'. hears display d (responses_events from_str display e p) rs d' \<and>
     responses_content (ps @ [p]) (qs @ rs @ end_marks (first_id (ps @ [p])) p) \<and>
     in_step (ps @ [p]) (snd (responses_events from_str display e p)) \<and> listens (ps @ [p]) d')"

lemma dialogue_ok:
  assumes "responses_content ps qs" and "dialogue_part p" and "finishes_of ps = [] \<or> \<not> is_content p"
    and "carried_by display ps d p (responses_events from_str display e p)"
  shows "step_ok from_str display ps qs e d p"
proof -
  have "end_marks i p = []" for i using assms(2) by (cases p) (auto simp: end_marks_def dialogue_part_def)
  with assms(4) content_dialogue [OF assms(1,2) _ assms(3)] show ?thesis by (auto simp: carried_by_def step_ok_def)
qed

lemma started_ok:
  assumes "responses_content [] qs" and "in_step [] e" and "listens [] d"
  shows "step_ok from_str display [] qs e d (ResponseStarted i)"
proof -
  let ?p = "ResponseStarted i"
  have "responses_content [?p] (qs @ [?p])"
    using assms(1) by (simp add: responses_content_def finally_sent_def same_dialogue_def)
  moreover have v: "contract_view (snd (responses_events from_str display e ?p)) = contract_view (e\<lparr>re_response_id := Some i\<rparr>)"
    by (simp add: contract_view_def emission_simps)
  have "in_step [?p] (snd (responses_events from_str display e ?p))"
    unfolding in_step_view [OF v] using assms(2) by (simp add: in_step_def finally_sent_def plain_calls_def programs_wf_def)
  moreover have "listens [?p] (d\<lparr>rd_response_id := Some i\<rparr>)" using assms(3) by (simp add: listens_def)
  moreover have "end_marks j ?p = []" for j by (simp add: end_marks_def)
  ultimately show ?thesis unfolding step_ok_def using hears_started [of display d from_str e i]
    by (auto simp del: responses_events.simps)
qed

lemma usage_ok:
  assumes "responses_content ps qs" and "in_step ps e" and "listens ps d" and "responses_part ps (Usage_part u)"
  shows "step_ok from_str display ps qs e d (Usage_part u)"
proof -
  let ?p = "Usage_part u"
  have ns: "\<not> finally_sent ps" "usages_of ps = []" "completed_of ps = []" "usage_fits u"
    using assms(4) by (auto simp: finally_sent_def)
  note facts = end_part_facts(5) [of ?p ps, simplified] end_marks_def [of _ ?p]
  show ?thesis
  proof (cases "finishes_of ps")
    case Nil
    let ?e = "e\<lparr>re_pending_usage := Some u\<rparr>"
    have x: "responses_events from_str display e ?p = ([], ?e)"
      using assms(2) Nil by (simp add: in_step_def Let_def finally_sent_def)
    have "in_step (ps @ [?p]) ?e"
      using assms(2) ns Nil facts by (simp add: in_step_def finally_sent_def plain_calls_def programs_wf_def)
    moreover have "responses_content (ps @ [?p]) (qs @ [] @ end_marks (first_id ps) ?p)"
      using assms(1) ns Nil by (intro content_waits) (simp_all add: finally_sent_def speechless_def)
    moreover have "listens (ps @ [?p]) d" using listens_end [OF assms(3), of ?p d] by (simp add: keeps_def)
    ultimately show ?thesis unfolding step_ok_def x using facts by simp
  next
    case (Cons r rest)
    then have fs: "finishes_of ps = [r]" using assms(2) by (simp add: in_step_def)
    let ?e = "e\<lparr>re_pending_usage := Some u, re_pending_finish_status := None\<rparr>"
    have x: "responses_events from_str display e ?p = completed_event from_str (finish_status r) ?e"
      using assms(2) fs ns by (simp add: in_step_def Let_def)
    have pl: "plain_calls ?e" "programs_wf ?e" using assms(2) by (simp_all add: in_step_def plain_calls_def programs_wf_def)
    have "hears display d (completed_event from_str (finish_status r) ?e)
        (final_parts (Some u) (calls_tools ps) (finish_status r) (first_id ps)) d"
      using hears_completed [OF pl, of display d from_str "finish_status r"] ns(4) assms(3) by (simp add: listens_def)
    moreover have "responses_content (ps @ [?p]) (qs @ [] @ final_parts (first_opt (usages_of (ps @ [?p]))) (calls_tools ps)
        (finish_status r) (first_id ps) @ end_marks (first_id ps) ?p)"
      using assms(1) ns fs by (intro content_final) (simp_all add: finally_sent_def speechless_def)
    moreover have "in_step (ps @ [?p]) (snd (completed_event from_str (finish_status r) ?e))"
      using assms(2) ns fs facts
      by (simp add: in_step_def finally_sent_def plain_calls_def programs_wf_def completed_event_def emission_simps)
    moreover have "listens (ps @ [?p]) d" using listens_end [OF assms(3), of ?p d] by (simp add: keeps_def)
    ultimately show ?thesis unfolding step_ok_def x using facts ns by auto
  qed
qed

text \<open>The finish closes the items; they have nothing new to say.\<close>

lemma hears_closing:
  assumes "plain_calls e"
  shows "\<exists>rs d'. hears display d (and_then (close_reasoning st e) (\<lambda>e1. and_then (close_text e1)
      (close_tool_calls from_str display st))) rs d' \<and> speechless rs \<and> keeps d d'"
proof -
  obtain r1 d1 where 1: "hears display d (close_reasoning st e) r1 d1" "speechless r1" "keeps d d1"
    using hears_close_reasoning by blast
  let ?e1 = "snd (close_reasoning st e)"
  obtain d2 where 2: "hears display d1 (close_text ?e1) [] d2" "keeps d1 d2" using hears_close_text by blast
  let ?e2 = "snd (close_text ?e1)"
  have "plain_calls ?e2" using assms plain_view [OF view_ops(7)] plain_view [OF view_ops(8)] by simp
  from hears_close_calls [OF this] obtain d3 where
    3: "hears display d2 (close_tool_calls from_str display st ?e2) [] d3" "keeps d2 d3"
    unfolding close_tool_calls_def by blast
  let ?f = "\<lambda>e1. and_then (close_text e1) (close_tool_calls from_str display st)"
  from hears_and_then [OF 2(1), of "close_tool_calls from_str display st", OF 3(1)]
  have "hears display d1 (?f ?e1) [] d3" by simp
  from hears_and_then [OF 1(1), of ?f, OF this] have "hears display d (and_then (close_reasoning st e) ?f) r1 d3" by simp
  with 1(2,3) 2(2) 3(2) show ?thesis by (auto simp: keeps_def)
qed

lemma finish_ok:
  assumes "responses_content ps qs" and "in_step ps e" and "listens ps d" and "responses_part ps (Finish r)"
  shows "step_ok from_str display ps qs e d (Finish r)"
proof -
  let ?p = "Finish r" and ?st = "finish_status r"
  let ?x = "and_then (close_reasoning ?st e) (\<lambda>e1. and_then (close_text e1) (close_tool_calls from_str display ?st))"
  let ?f = "\<lambda>e3. if re_pending_usage e3 \<noteq> None then completed_event from_str ?st e3
    else ([], e3\<lparr>re_pending_finish_status := Some ?st\<rparr>)"
  have fs: "finishes_of ps = []" "completed_of ps = []" "\<not> finally_sent ps" using assms(4) by (auto simp: finally_sent_def)
  have x: "responses_events from_str display e ?p = and_then ?x ?f"
    using assms(2) fs by (simp add: in_step_def finish_stream_def and_then_def split_beta)
  have v: "contract_view (snd ?x) = contract_view e" by (simp add: and_then_def split_beta)
  have pl: "plain_calls e" "programs_wf e" using assms(2) by (simp_all add: in_step_def)
  then have pl2: "plain_calls (snd ?x)" "programs_wf (snd ?x)" "re_pending_usage (snd ?x) = first_opt (usages_of ps)"
    using plain_view [OF v] assms(2) fs by (simp_all add: in_step_def)
  obtain rs d' where h: "hears display d ?x rs d'" "speechless rs" "keeps d d'" using hears_closing [OF pl(1)] by blast
  have l: "listens (ps @ [?p]) d'" using listens_end [OF assms(3), of ?p d'] h(3) by simp
  have s: "in_step ps (snd ?x)" using in_step_view [OF v] assms(2) by simp
  note facts = end_part_facts(5) [of ?p ps, simplified] end_marks_def [of _ ?p]
  show ?thesis
  proof (cases "usages_of ps")
    case Nil
    then have f: "?f (snd ?x) = ([], (snd ?x)\<lparr>re_pending_finish_status := Some ?st\<rparr>)" using pl2(3) by simp
    have "hears display d (and_then ?x ?f) (rs @ []) d'"
      by (rule hears_and_then [OF h(1)]) (use Nil pl2(3) in simp)
    moreover have "responses_content (ps @ [?p]) (qs @ rs @ end_marks (first_id ps) ?p)"
      using assms(1) h(2) fs Nil by (intro content_waits) (simp_all add: finally_sent_def)
    moreover have "snd (and_then ?x ?f) = (snd ?x)\<lparr>re_pending_finish_status := Some ?st\<rparr>"
      using f by (simp only: and_then_def split_beta Let_def snd_conv)
    then have "in_step (ps @ [?p]) (snd (and_then ?x ?f))"
      using s fs Nil facts by (simp add: in_step_def finally_sent_def plain_calls_def programs_wf_def)
    ultimately show ?thesis unfolding step_ok_def x using facts l by auto
  next
    case (Cons u rest)
    then have us: "usages_of ps = [u]" "usage_fits u" using assms(2) by (simp_all add: in_step_def)
    then have f: "?f (snd ?x) = completed_event from_str ?st (snd ?x)" using pl2(3) by simp
    have "hears display d' (completed_event from_str ?st (snd ?x)) (final_parts (Some u) (calls_tools ps) ?st (first_id ps)) d'"
      using hears_completed [OF pl2(1,2), of display d' from_str ?st] us pl2(3) h(3) assms(3)
      by (simp add: listens_def keeps_def)
    then have "hears display d (and_then ?x ?f) (rs @ final_parts (Some u) (calls_tools ps) ?st (first_id ps)) d'"
      by (intro hears_and_then [OF h(1)]) (simp only: f)
    moreover have "responses_content (ps @ [?p]) (qs @ rs @ final_parts (first_opt (usages_of (ps @ [?p]))) (calls_tools ps)
        ?st (first_id ps) @ end_marks (first_id ps) ?p)"
      using assms(1) h(2) fs us by (intro content_final) (simp_all add: finally_sent_def)
    moreover have "snd (and_then ?x ?f) = snd (completed_event from_str ?st (snd ?x))"
      using f by (simp only: and_then_def split_beta Let_def snd_conv)
    then have "in_step (ps @ [?p]) (snd (and_then ?x ?f))"
      using s fs us facts
      by (simp add: in_step_def finally_sent_def plain_calls_def programs_wf_def completed_event_def emission_simps)
    ultimately show ?thesis unfolding step_ok_def x using facts l us by auto
  qed
qed

lemma completed_ok:
  assumes "responses_content ps qs" and "in_step ps e" and "listens ps d" and "p = ResponseCompleted i st u x"
    and "responses_part ps p"
  shows "step_ok from_str display ps qs e d p"
proof -
  have p: "end_part p" "closing_frame p \<noteq> []" "usages_of [p] = []" "finishes_of [p] = []" "completed_of [p] = [i]"
    using assms(4) by (simp_all add: sse_frame_def)
  note first = end_part_facts(5) [OF p(1), of ps]
  from assms(2,4,5) obtain r where fs: "finishes_of ps = [r]"
    by (cases "finishes_of ps") (auto simp: in_step_def)
  show ?thesis
  proof (cases "finally_sent ps")
    case True
    then have ev: "responses_events from_str display e p = ([], e)" using assms(2,4) by (simp add: in_step_def)
    have f: "finally_sent (ps @ [p])" using True fs by (auto simp: finally_sent_def)
    have "in_step (ps @ [p]) e" using assms(2) True f first p end_part_facts(3) [OF p(1)] by (simp add: in_step_def)
    moreover have "responses_content (ps @ [p]) (qs @ [] @ end_marks (first_id ps) p)"
      using assms(1) True f p by (intro content_waits) (simp_all add: speechless_def)
    moreover have "listens (ps @ [p]) d" using listens_end [OF assms(3) p(1), of d] by (simp add: keeps_def)
    ultimately show ?thesis unfolding step_ok_def ev using first by auto
  next
    case False
    with fs have n: "usages_of ps = []" "completed_of ps = []" by (auto simp: finally_sent_def)
    let ?e = "e\<lparr>re_pending_finish_status := None\<rparr>" and ?st = "finish_status r"
    let ?x = "close_tool_calls from_str display ?st ?e"
    have ev: "responses_events from_str display e p = and_then ?x (completed_event from_str ?st)"
      using assms(2,4) False fs by (simp add: in_step_def Let_def)
    have v: "contract_view (snd ?x) = contract_view ?e" by simp
    have pl: "plain_calls ?e" "programs_wf ?e" using assms(2) by (simp_all add: in_step_def plain_calls_def programs_wf_def)
    then have pl2: "plain_calls (snd ?x)" "programs_wf (snd ?x)" "re_pending_usage (snd ?x) = None"
      using plain_view [OF v] assms(2) n by (simp_all add: in_step_def)
    obtain d' where h: "hears display d ?x [] d'" "keeps d d'"
      using hears_close_calls [OF pl(1)] unfolding close_tool_calls_def by blast
    have "hears display d' (completed_event from_str ?st (snd ?x)) (final_parts None (calls_tools ps) ?st (first_id ps)) d'"
      using hears_completed [OF pl2(1,2), of display d' from_str ?st] pl2(3) h(2) assms(3) by (simp add: listens_def keeps_def)
    then have "hears display d (and_then ?x (completed_event from_str ?st)) ([] @ final_parts None (calls_tools ps) ?st (first_id ps)) d'"
      by (rule hears_and_then [OF h(1)])
    moreover have "responses_content (ps @ [p]) (qs @ [] @ final_parts (first_opt (usages_of (ps @ [p]))) (calls_tools ps)
        ?st (first_id ps) @ end_marks (first_id ps) p)"
      using assms(1) False fs n p by (intro content_final) (simp_all add: finally_sent_def speechless_def)
    moreover have "in_step (ps @ [p]) (snd (and_then ?x (completed_event from_str ?st)))"
    proof -
      have w: "contract_view (snd (and_then ?x (completed_event from_str ?st))) = contract_view (?e\<lparr>re_pending_usage := None, re_completed_sent := True\<rparr>)"
        using v by (simp add: and_then_def split_beta contract_view_def completed_event_def emission_simps del: view_close_calls)
      show ?thesis unfolding in_step_view [OF w]
        using assms(2) fs n p first end_part_facts(3) [OF p(1)] by (simp add: in_step_def finally_sent_def plain_calls_def programs_wf_def)
    qed
    moreover have "listens (ps @ [p]) d'" using listens_end [OF assms(3) p(1), of d'] h(2) fs by simp
    ultimately show ?thesis unfolding step_ok_def ev using first n p by auto
  qed
qed

lemma part_ok:
  assumes "responses_content ps qs" and "in_step ps e" and "listens ps d" and "responses_part ps p"
  shows "step_ok from_str display ps qs e d p"
proof (cases p)
  case (ResponseStarted i)
  with assms started_ok show ?thesis by simp
next
  case (Usage_part u)
  with assms usage_ok show ?thesis by simp
next
  case (Finish r)
  with assms finish_ok show ?thesis by simp
next
  case (ResponseCompleted i st u x)
  with assms completed_ok show ?thesis by metis
next
  case (Error_part m cls c)
  then show ?thesis using dialogue_ok [OF assms(1), of p] responses_error_carried [OF assms(2,3)] by (simp add: dialogue_part_def)
next
  case (TextDelta t)
  then show ?thesis using dialogue_ok [OF assms(1), of p] text_carried [OF assms(2,3)] assms(4) by (simp add: dialogue_part_def)
next
  case (ReasoningDelta t i c)
  then show ?thesis using dialogue_ok [OF assms(1), of p] reasoning_carried [OF assms(2,3)] assms(4) by (simp add: dialogue_part_def)
next
  case (ToolCallDelta i n a w j c)
  with assms(4) have "w = None" "j = None" "finishes_of ps = []" "responses_part ps (ToolCallDelta i n a None None c)" by simp_all
  with ToolCallDelta show ?thesis using dialogue_ok [OF assms(1), of p] call_carried [OF assms(2,3)]
    by (simp add: dialogue_part_def del: responses_events.simps)
next
  case (ProgramDelta i j k l)
  then show ?thesis using dialogue_ok [OF assms(1), of p] program_carried(1) [OF assms(2,3)] assms(4) by (simp add: dialogue_part_def)
next
  case (ProgramOutputDelta i j k l)
  then show ?thesis using dialogue_ok [OF assms(1), of p] program_carried(2) [OF assms(2,3)] assms(4) by (simp add: dialogue_part_def)
qed

interpretation responses: stream_codec "responses_encode_part from_str display" "responses_feed from_str display"
  "responses_carries from_str display" responses_part for from_str display
proof
  fix ps qs e d p b e'
  assume c: "responses_carries from_str display ps qs e d" and a: "responses_part ps p"
    and enc: "responses_encode_part from_str display e p = (b, e')"
  then obtain rs d' where h: "hears display d (responses_events from_str display e p) rs d'"
    "responses_content (ps @ [p]) (qs @ rs @ end_marks (first_id (ps @ [p])) p)"
    "in_step (ps @ [p]) (snd (responses_events from_str display e p))" "listens (ps @ [p]) d'"
    using part_ok [of ps qs e d p from_str display] by (auto simp: responses_carries_def step_ok_def)
  have "end_marks (first_id (ps @ [p])) p = (if closing_frame p = [] then [] else [response_completion d' ''completed''])"
    using h(4) by (simp add: end_marks_def response_completion_def listens_def)
  then have "reads (responses_feed from_str display) d b (rs @ end_marks (first_id (ps @ [p])) p) d'"
    using reads_part [OF _ h(1)] c enc by (simp add: responses_carries_def)
  moreover have "e' = snd (responses_events from_str display e p)"
    using enc by (simp add: responses_encode_part_def split_beta Let_def)
  ultimately show "\<exists>rs d'. reads (responses_feed from_str display) d b rs d' \<and>
      responses_carries from_str display (ps @ [p]) (qs @ rs) e' d'"
    using h(2-4) c by (auto simp: responses_carries_def)
qed

lemma responses_carries_new:
  "json_text from_str display \<Longrightarrow>
    responses_carries from_str display [] [] ResponsesStreamEncoder_new ResponsesStreamDecoder_new"
  by (simp add: responses_carries_def responses_content_def in_step_def listens_def finally_sent_def plain_calls_def
      programs_wf_def ResponsesStreamEncoder_new_def ResponsesStreamDecoder_new_def)

subsection \<open>The round trip\<close>

text \<open>
  What the responses encoder writes for a stream, the responses decoder reads back: the same text,
  reasoning, tool calls and errors, the usage with the tokens it had, and, once the end is reached, the
  finish as far as the protocol expresses it and the completion under the id of the response.
\<close>

theorem responses_stream_roundtrip:
  assumes "json_text from_str display" and "admissible responses_part [] ps"
  shows "\<exists>qs d. reads (responses_feed from_str display) ResponsesStreamDecoder_new
      (fst (encode_parts (responses_encode_part from_str display) ResponsesStreamEncoder_new ps)) qs d \<and>
    responses_content ps qs"
  using responses.stream_carried [OF responses_carries_new [OF assms(1)] assms(2)]
  unfolding responses_carries_def by blast

definition tool_turn :: "StreamPart list" where
  "tool_turn = [ResponseStarted ''r'', TextDelta ''x'', ToolCallDelta ''c'' (Some ''f'') [] None None None,
     ToolCallDelta ''c'' None ''{}'' None None None, Finish Stop,
     Usage_part \<lparr>prompt_tokens = 3, completion_tokens = 4, reasoning_tokens = None, cache_read_tokens = Some 2,
       cache_write_tokens = None, total_tokens = 0\<rparr>, ResponseCompleted ''r'' ''completed'' None []]"

theorem responses_stream_roundtrip_witness:
  "\<exists>qs d. reads (responses_feed number_value number_display) ResponsesStreamDecoder_new
      (fst (encode_parts (responses_encode_part number_value number_display) ResponsesStreamEncoder_new tool_turn)) qs d \<and>
    text_of qs = ''x'' \<and> arguments_of ''c'' qs = ''{}'' \<and> map total_tokens (usages_of qs) = [9] \<and>
    finishes_of qs = [ToolCalls]"
proof -
  have "admissible responses_part [] tool_turn" by (simp add: tool_turn_def usage_fits_def usage_total_def)
  from responses_stream_roundtrip [OF numbers_json_text this] show ?thesis
    by (auto simp: responses_content_def same_dialogue_def tool_turn_def finally_sent_def chat_usage_def usage_total_def
        responses_finish_of_def)
qed

end
