(* ===== verification/Transcode.thy ===== *)
theory Transcode
  imports Messages_Stream Gemini_Stream Responses_Roundtrip
begin

section \<open>Transcoding between protocols\<close>

text \<open>
  The stream driver composed with the codecs: the upstream speaks one protocol, whose decoder reads its lines,
  and the client another, whose encoder writes the parts.  The theorems are about the bytes that the client
  receives from the driver, whatever the decoder of the upstream is.
\<close>

subsection \<open>The codecs as the driver sees them\<close>

definition to_chat :: "(json \<Rightarrow> string) \<Rightarrow> ('d \<Rightarrow> string \<Rightarrow> 'd reading) \<Rightarrow> ('d \<Rightarrow> StreamPart list \<times> 'd) \<Rightarrow>
    ('d, ChatCompletionsStreamEncoder) transcoder" where
  "to_chat display feed_line fin =
     \<lparr>tx_feed = feed_line, tx_finish = (\<lambda>d. let (ps, d') = fin d in (Inr ps, d')),
      tx_encode_part = (\<lambda>e p. let (b, e') = encode_part display e p in (Inr b, e')),
      tx_encode_error = (\<lambda>e m c code. (encode_error display m c code, e)),
      tx_encode_done = (\<lambda>e. (encode_done, e))\<rparr>"

definition to_messages :: "(json \<Rightarrow> string) \<Rightarrow> ('d \<Rightarrow> string \<Rightarrow> 'd reading) \<Rightarrow> ('d \<Rightarrow> StreamPart list \<times> 'd) \<Rightarrow>
    ('d, MessagesStreamEncoder) transcoder" where
  "to_messages display feed_line fin =
     \<lparr>tx_feed = feed_line, tx_finish = (\<lambda>d. let (ps, d') = fin d in (Inr ps, d')),
      tx_encode_part = (\<lambda>e p. let (b, e') = messages_encode_part display e p in (Inr b, e')),
      tx_encode_error = (\<lambda>e m c code. (messages_encode_error display m c, e)),
      tx_encode_done = (\<lambda>e. (messages_encode_done, e))\<rparr>"

definition to_gemini :: "(string \<Rightarrow> json option) \<Rightarrow> (json \<Rightarrow> string) \<Rightarrow> ('d \<Rightarrow> string \<Rightarrow> 'd reading) \<Rightarrow>
    ('d \<Rightarrow> StreamPart list \<times> 'd) \<Rightarrow> ('d, unit) transcoder" where
  "to_gemini from_str display feed_line fin =
     \<lparr>tx_feed = feed_line, tx_finish = (\<lambda>d. let (ps, d') = fin d in (Inr ps, d')),
      tx_encode_part = (\<lambda>e p. let (b, e') = gemini_encode_part from_str display e p in (Inr b, e')),
      tx_encode_error = (\<lambda>e m c code. (gemini_encode_error display m c, e)),
      tx_encode_done = (\<lambda>e. (gemini_encode_done, e))\<rparr>"

definition to_responses :: "(string \<Rightarrow> json option) \<Rightarrow> (json \<Rightarrow> string) \<Rightarrow> ('d \<Rightarrow> string \<Rightarrow> 'd reading) \<Rightarrow>
    ('d \<Rightarrow> StreamPart list \<times> 'd) \<Rightarrow> ('d, ResponsesStreamEncoder) transcoder" where
  "to_responses from_str display feed_line fin =
     \<lparr>tx_feed = feed_line, tx_finish = (\<lambda>d. let (ps, d') = fin d in (Inr ps, d')),
      tx_encode_part = (\<lambda>e p. let (b, e') = responses_encode_part from_str display e p in (Inr b, e')),
      tx_encode_error = (\<lambda>e m c code. (responses_encode_error display m c code, e)),
      tx_encode_done = (\<lambda>e. (responses_encode_done, e))\<rparr>"

subsection \<open>What the driver writes\<close>

text \<open>\<open>ops\<close> write with an encoder that does not fail.\<close>

definition writes :: "('d, 'e) transcoder \<Rightarrow> ('e \<Rightarrow> StreamPart \<Rightarrow> string \<times> 'e) \<Rightarrow> bool" where
  "writes ops encode \<longleftrightarrow> (\<forall>e p. tx_encode_part ops e p = (Inr (fst (encode e p)), snd (encode e p)))"

lemma codecs_write:
  "writes (to_chat display feed_line fin) (encode_part display)"
  "writes (to_messages display feed_line fin) (messages_encode_part display)"
  "writes (to_gemini from_str display feed_line fin) (gemini_encode_part from_str display)"
  "writes (to_responses from_str display feed_line fin) (responses_encode_part from_str display)"
  by (simp_all add: writes_def to_chat_def to_messages_def to_gemini_def to_responses_def split_beta)

lemma codec_ops [simp]:
  "tx_feed (to_chat display feed_line fin) = feed_line" "tx_feed (to_messages display feed_line fin) = feed_line"
  "tx_feed (to_gemini from_str display feed_line fin) = feed_line"
  "tx_finish (to_chat display feed_line fin) = (\<lambda>d. let (ps, d') = fin d in (Inr ps, d'))"
  "tx_finish (to_messages display feed_line fin) = (\<lambda>d. let (ps, d') = fin d in (Inr ps, d'))"
  "tx_finish (to_gemini from_str display feed_line fin) = (\<lambda>d. let (ps, d') = fin d in (Inr ps, d'))"
  "tx_feed (to_responses from_str display feed_line fin) = feed_line"
  "tx_finish (to_responses from_str display feed_line fin) = (\<lambda>d. let (ps, d') = fin d in (Inr ps, d'))"
  by (simp_all add: to_chat_def to_messages_def to_gemini_def to_responses_def)

lemma encode_parts_append:
  "encode_parts encode e (ps @ qs) =
     (fst (encode_parts encode e ps) @ fst (encode_parts encode (snd (encode_parts encode e ps)) qs),
      snd (encode_parts encode (snd (encode_parts encode e ps)) qs))"
  by (induction ps arbitrary: e) (simp_all add: Let_def split_beta)

definition ended :: "StreamPart list \<Rightarrow> bool" where
  "ended ps \<longleftrightarrow> (\<exists>p\<in>set ps. is_terminal_part p)"

lemma transcode_parts_write:
  assumes "writes ops encode"
  shows "fold (transcode_part ops) ps (e, g, saw, out) =
    (snd (encode_parts encode e ps), fold note_error_part ps g, saw \<or> ended ps, out @ fst (encode_parts encode e ps))"
proof (induction ps arbitrary: e g saw out)
  case (Cons p ps)
  have "transcode_part ops p (e, g, saw, out) =
      (snd (encode e p), note_error_part p g, saw \<or> is_terminal_part p, out @ fst (encode e p))"
    using assms by (simp add: writes_def transcode_part_def)
  with Cons show ?case by (auto simp: Let_def split_beta ended_def)
qed (simp add: ended_def)

lemma flush_parts_write:
  assumes "writes ops encode"
  shows "fold (flush_part ops) ps (e, saw, out) =
    (snd (encode_parts encode e ps), saw \<or> ended ps, out @ fst (encode_parts encode e ps))"
proof (induction ps arbitrary: e saw out)
  case (Cons p ps)
  have "flush_part ops p (e, saw, out) = (snd (encode e p), saw \<or> is_terminal_part p, out @ fst (encode e p))"
    using assms by (simp add: writes_def flush_part_def)
  with Cons show ?case by (auto simp: Let_def split_beta ended_def)
qed (simp add: ended_def)

lemma transcode_lines_write:
  assumes "writes ops encode" and "feed_lines (tx_feed ops) d ls = Inr (Inr qs, d')"
  shows "transcode_lines ops ls (d, e, g, saw, out) =
    Inr (d', snd (encode_parts encode e qs), fold note_error_part qs g, saw \<or> ended qs, out @ fst (encode_parts encode e qs))"
  using assms(2)
proof (induction ls arbitrary: d e g saw out qs)
  case Nil
  then show ?case by (simp add: ended_def)
next
  case (Cons l ls)
  then obtain r d1 where f: "tx_feed ops d l = Inr (r, d1)" by auto
  with Cons.prems obtain ps where r: "r = Inr ps" by (cases r) auto
  with Cons.prems f obtain r' d2 where rest: "feed_lines (tx_feed ops) d1 ls = Inr (r', d2)" by auto
  with Cons.prems f r obtain ps' where qs: "r' = Inr ps'" "qs = ps @ ps'" "d2 = d'" by (cases r') auto
  have "transcode_line ops l (d, e, g, saw, out) = Inr (d1, snd (encode_parts encode e ps),
      fold note_error_part ps g, saw \<or> ended ps, out @ fst (encode_parts encode e ps))"
    using f r by (simp add: transcode_line_def transcode_parts_write [OF assms(1)])
  with Cons.IH [of d1 ps'] rest qs show ?case
    by (auto simp: encode_parts_append ended_def)
qed

text \<open>
  The bytes for the client of a complete stream are the encoding of the parts of the upstream, followed by
  those that the decoder adds at the end.
\<close>

lemma driver_writes:
  assumes "writes (dr_ops dr) encode" and "\<forall>b\<in>set cs. from_utf8_lossy b = b"
    and "reads (tx_feed (dr_ops dr)) d (concat cs) qs d'" and "ended qs" and "tx_finish (dr_ops dr) d' = (Inr fs, d'')"
  shows "\<exists>st. stream_steps dr now (map Chunk cs @ [Eof]) (stream_start g (Some (d, e)) None) = Inr st \<and>
    concat (st_yielded st) = fst (encode_parts encode e (qs @ fs))"
proof -
  let ?st = "stream_start g (Some (d, e)) None" and ?e' = "snd (encode_parts encode e qs)"
  have st: "st_codec ?st = Some (d, e)" "transcoding ?st"
    by (simp_all add: stream_start_def transcoding_def rewriter_ok_def)
  have ls: "feed_lines (tx_feed (dr_ops dr)) d (fst (split_sse_lines (concat cs))) = Inr (Inr qs, d')"
    "snd (split_sse_lines (concat cs)) = []" using assms(3) by (simp_all add: reads_def)
  have buf: "st_frame_buf ?st = []" "st_saw_terminal ?st = False" "st_rewriter ?st = None" "st_yielded ?st = []"
    by (simp_all add: stream_start_def)
  from chunks_transcode [OF st assms(2), of dr now] transcode_lines_write [OF assms(1) ls(1)]
  obtain st1 where s1: "stream_steps dr now (map Chunk cs) ?st = Inr st1"
    and v: "stream_view st1 = (Some (d', ?e'), True, [], None, fst (encode_parts encode e qs),
      upstream_error (g_accum (fold note_error_part qs (st_guard ?st))), False)"
    using assms(4) ls(2) by (auto simp: buf transcoded_def rewrite_out_def elim!: rel_sum.cases)
  let ?out = "fst (encode_parts encode ?e' fs)"
  have "flush_codec dr (st1\<lparr>st_guard := g'\<rparr>) d' ?e' = Inr (d'', snd (encode_parts encode ?e' fs), True, ?out)" for g'
    using v assms(5) by (simp add: flush_codec_def stream_view_def trim_def flush_parts_write [OF assms(1)])
  then have "\<exists>st2. stream_step dr now now Eof st1 = Inr st2 \<and> concat (st_yielded st2) = concat (st_yielded st1) @ ?out"
    using v by (simp add: stream_step_def on_eof_def stream_view_def Let_def rewrite_out_def flush_rewriter_def
        yield_captured_def close_stream_def)
  with s1 v show ?thesis by (auto simp: stream_steps_append encode_parts_append stream_view_def)
qed

text \<open>
  \<open>says feed_line fin d cs ps\<close>: the decoder, started in \<open>d\<close>, finds the parts \<open>ps\<close> in the chunks \<open>cs\<close> of a complete stream,
  none of which cuts a character.
\<close>

definition says :: "('d \<Rightarrow> string \<Rightarrow> 'd reading) \<Rightarrow> ('d \<Rightarrow> StreamPart list \<times> 'd) \<Rightarrow> 'd \<Rightarrow> string list \<Rightarrow>
    StreamPart list \<Rightarrow> bool" where
  "says feed_line fin d cs ps \<longleftrightarrow> (\<forall>b\<in>set cs. from_utf8_lossy b = b) \<and>
     (\<exists>qs d'. reads feed_line d (concat cs) qs d' \<and> ended qs \<and> ps = qs @ fst (fin d'))"

context stream_codec begin

lemma client_reads:
  assumes "carries [] [] e c" and "says feed_line fin d cs ps" and "admissible admits [] ps"
    and "writes (dr_ops dr) encode" and "tx_feed (dr_ops dr) = feed_line"
    and "tx_finish (dr_ops dr) = (\<lambda>d. let (ps, d') = fin d in (Inr ps, d'))"
  shows "\<exists>st rs e' c'. stream_steps dr now (map Chunk cs @ [Eof]) (stream_start g (Some (d, e)) None) = Inr st \<and>
    reads feed c (concat (st_yielded st)) rs c' \<and> carries ps rs e' c'"
proof -
  from assms(2) obtain qs d' where u: "\<forall>b\<in>set cs. from_utf8_lossy b = b" "reads feed_line d (concat cs) qs d'"
    "ended qs" "ps = qs @ fst (fin d')" by (auto simp: says_def)
  have "tx_finish (dr_ops dr) d' = (Inr (fst (fin d')), snd (fin d'))" using assms(6) by (simp add: split_beta)
  from driver_writes [OF assms(4) u(1) _ u(3) this, of d now g e] u(2,4) assms(5)
  obtain st where "stream_steps dr now (map Chunk cs @ [Eof]) (stream_start g (Some (d, e)) None) = Inr st"
    "concat (st_yielded st) = fst (encode_parts encode e ps)" by auto
  with stream_carried [OF assms(1,3)] show ?thesis by metis
qed

end

subsection \<open>What the client reads\<close>



text \<open>
  A client of the Gemini protocol reads what the upstream said, provided its calls come whole and its
  usage after its finish.
\<close>

theorem gemini_client_reads:
  assumes "json_text from_str display" and "says feed_line fin d cs ps" and "admissible (gemini_part from_str) [] ps"
    and "dr_ops dr = to_gemini from_str display feed_line fin"
  shows "\<exists>st rs c. stream_steps dr now (map Chunk cs @ [Eof]) (stream_start g (Some (d, ())) None) = Inr st \<and>
    reads (gemini_feed from_str display) GeminiStreamDecoder_new (concat (st_yielded st)) rs c \<and>
    gemini_content_of from_str ps rs"
proof -
  have "gemini_carries from_str display [] [] () GeminiStreamDecoder_new"
    using assms(1) by (simp add: gemini_carries_def gemini_content_of_def GeminiStreamDecoder_new_def)
  from gemini.client_reads [OF this assms(2,3), of dr now g] codecs_write(3) [of from_str display feed_line fin] assms(4)
  show ?thesis unfolding gemini_carries_def by simp metis
qed


subsection \<open>Concrete streams\<close>

text \<open>A chat completions upstream that says \<open>x\<close> and stops.\<close>

definition plain_driver :: "('d, 'e) transcoder \<Rightarrow> ('d, 'e) driver" where
  "plain_driver ops = \<lparr>dr_ops = ops, dr_from_str = number_value, dr_to_vec = number_text, dr_end_marker = [],
     dr_error_marker = []\<rparr>"

definition said :: "StreamPart list" where
  "said = [ResponseStarted ''r'', TextDelta ''x'', Finish Stop, ResponseCompleted ''r'' ''completed'' None []]"

definition chat_bytes :: string where
  "chat_bytes = sse_frame (number_display (chunk_object (ChatCompletionsStreamEncoder_new\<lparr>ce_response_id := Some ''r''\<rparr>)
     (object_of [(''content'', JString ''x'')]) (JString ''stop''))) @ sse_frame ''[DONE]''"

lemma digits_ascii: "\<forall>c\<in>set (number_display v). byte c < 128"
proof
  fix c assume "c \<in> set (number_display v)"
  then have "hex_val c \<noteq> None" using digits_val_digits [OF digits_val_nat_str] by (auto simp: number_display_def)
  then show "byte c < 128" by (auto simp: hex_val_def split: if_splits)
qed

lemma chat_bytes_say:
  "says (feed number_value) (\<lambda>d. (decoder_finish, d)) ChatCompletionsStreamDecoder_new [chat_bytes] said"
proof -
  let ?e = "ChatCompletionsStreamEncoder_new\<lparr>ce_response_id := Some ''r''\<rparr>"
  let ?v = "chunk_object ?e (object_of [(''content'', JString ''x'')]) (JString ''stop'')"
  let ?d = "ChatCompletionsStreamDecoder_new\<lparr>cd_response_id := Some ''r'', cd_saw_finish := True\<rparr>"
  let ?ps = "[ResponseStarted ''r'', TextDelta ''x'', Finish Stop]"
  have wf: "wf_json ?v" by (intro wf_chunk) (simp_all add: wf_object_of)
  have "decode_finish (chunk_choice (object_of [(''content'', JString ''x'')]) (JString ''stop'')) = [Finish Stop]"
    by (simp add: decode_finish_def idx_choice finish_reason_of_def)
  then have "feed_chunk ?v ChatCompletionsStreamDecoder_new = Inr (?ps, ?d)"
    by (simp add: feed_chunk_object started_def decode_choice_plain [OF delta_facts(2)] delta_facts Let_def
        ChatCompletionsStreamDecoder_new_def)
  from feed_sse_frame [OF numbers_json_text wf _ this]
  have 1: "reads (feed number_value) ChatCompletionsStreamDecoder_new (sse_frame (number_display ?v)) ?ps ?d"
    by (simp add: idx_chunk)
  have "data_prefix @ ''[DONE]'' = done_frame" by (simp add: data_prefix_def done_frame_def)
  then have 2: "reads (feed number_value) ?d (sse_frame ''[DONE]'') (feed_done ?d) ?d"
    by (intro reads_frame) simp_all
  have "byte c < 128" if "c \<in> set chat_bytes" for c
    using that digits_ascii by (auto simp: chat_bytes_def sse_frame_def data_prefix_def byte_def)
  moreover have "reads (feed number_value) ChatCompletionsStreamDecoder_new chat_bytes said ?d"
    using reads_append [OF 1 2] by (simp add: chat_bytes_def said_def feed_done_def)
  moreover have "ended said" by (simp add: ended_def said_def)
  ultimately show ?thesis unfolding says_def
    by (auto simp: ascii_lossy decoder_finish_def)
qed

definition plain_guard :: guard where
  "plain_guard = StreamCaptureGuard_new None UsageAccumulator_new None 0"



theorem gemini_client_reads_witness:
  "\<exists>st rs c. stream_steps (plain_driver (to_gemini number_value number_display (feed number_value) (\<lambda>d. (decoder_finish, d)))) 0
      (map Chunk [chat_bytes] @ [Eof])
      (stream_start plain_guard (Some (ChatCompletionsStreamDecoder_new, ())) None) = Inr st \<and>
    reads (gemini_feed number_value number_display) GeminiStreamDecoder_new (concat (st_yielded st)) rs c \<and>
    text_of rs = ''x'' \<and> finishes_of rs = [Stop]"
proof -
  have "admissible (gemini_part number_value) [] said" by (simp add: said_def)
  from gemini_client_reads [OF numbers_json_text chat_bytes_say this,
      of "plain_driver (to_gemini number_value number_display (feed number_value) (\<lambda>d. (decoder_finish, d)))" 0 plain_guard]
  show ?thesis by (auto simp: plain_driver_def gemini_content_of_def said_def)
qed


end
