(* ===== verification/Brute_Force.thy ===== *)
theory Brute_Force
  imports Prelude
begin

section \<open>Brute-force protection of the admin interface\<close>

text \<open>
  The in-memory limiter of \<^verbatim>\<open>crates/admin/src/brute_force.rs\<close> and the middleware
  \<^verbatim>\<open>require_admin_token\<close> of \<^verbatim>\<open>crates/admin/src/auth.rs\<close>.  Every operation of the limiter holds its
  lock from beginning to end; it reads the monotonic clock several times, the \<open>n\<close>-th reading being
  \<open>clk n\<close>.  The counters are 32-bit words.
\<close>

record BruteForceConfig =
  max_failures :: u32
  lockout_secs :: nat
  max_lockouts :: u32
  escalated_lockout_secs :: nat

definition BruteForceConfig_default :: BruteForceConfig where
  "BruteForceConfig_default = \<lparr>max_failures = 3, lockout_secs = 300, max_lockouts = 3,
     escalated_lockout_secs = 86400\<rparr>"

text \<open>\<open>env\<close> is the process environment.\<close>

definition env_u32 :: "(string \<rightharpoonup> string) \<Rightarrow> string \<Rightarrow> u32 \<Rightarrow> u32" where
  "env_u32 env key d = unwrap_or (map_option of_nat (Option.bind (env key) parse_u32)) d"

definition env_u64 :: "(string \<rightharpoonup> string) \<Rightarrow> string \<Rightarrow> nat \<Rightarrow> nat" where
  "env_u64 env key d = unwrap_or (Option.bind (env key) parse_u64) d"

definition BruteForceConfig_from_env :: "(string \<rightharpoonup> string) \<Rightarrow> BruteForceConfig" where
  "BruteForceConfig_from_env env = (let d = BruteForceConfig_default in
     \<lparr>max_failures = env_u32 env ''TIYGATE_ADMIN_BF_MAX_FAILURES'' (max_failures d),
      lockout_secs = env_u64 env ''TIYGATE_ADMIN_BF_LOCKOUT_SECS'' (lockout_secs d),
      max_lockouts = env_u32 env ''TIYGATE_ADMIN_BF_MAX_LOCKOUTS'' (max_lockouts d),
      escalated_lockout_secs =
        env_u64 env ''TIYGATE_ADMIN_BF_ESCALATED_LOCKOUT_SECS'' (escalated_lockout_secs d)\<rparr>)"

record AttemptState =
  as_failures :: u32
  as_lockout_count :: u32
  as_locked_until :: "instant option"

definition AttemptState_default :: AttemptState where
  "AttemptState_default = \<lparr>as_failures = 0, as_lockout_count = 0, as_locked_until = None\<rparr>"

type_synonym limiter_state = "string \<rightharpoonup> AttemptState"

definition active :: "AttemptState \<Rightarrow> instant \<Rightarrow> bool" where
  "active st now = (case as_locked_until st of Some deadline \<Rightarrow> deadline > now | None \<Rightarrow> False)"

definition purge_expired :: "instant \<Rightarrow> limiter_state \<Rightarrow> limiter_state" where
  "purge_expired now m = (\<lambda>id. case m id of
     None \<Rightarrow> None
   | Some st \<Rightarrow> if active st now \<or> as_failures st > 0 \<or> as_lockout_count st > 0
               then Some st else None)"

definition bf_is_locked :: "(nat \<Rightarrow> instant) \<Rightarrow> limiter_state \<Rightarrow> string \<Rightarrow> bool \<times> limiter_state" where
  "bf_is_locked clk m client_id =
     (let m1 = purge_expired (clk 0) m
      in (case m1 client_id of Some st \<Rightarrow> active st (clk 1) | None \<Rightarrow> False, m1))"

definition bf_record_failure :: "BruteForceConfig \<Rightarrow> (nat \<Rightarrow> instant) \<Rightarrow> limiter_state \<Rightarrow> string \<Rightarrow>
    (bool \<times> limiter_state) rust" where
  "bf_record_failure cfg clk m client_id =
     (let m1 = purge_expired (clk 0) m;
          st = unwrap_or (m1 client_id) AttemptState_default
      in if active st (clk 1) then Inr (False, m1(client_id \<mapsto> st))
         else
           let expired = (case as_locked_until st of Some d \<Rightarrow> d \<le> clk 2 | None \<Rightarrow> False);
               st1 = (if expired then st\<lparr>as_locked_until := None\<rparr> else st);
               st2 = st1\<lparr>as_failures := as_failures st1 + 1\<rparr>
           in if as_failures st2 \<ge> max_failures cfg then
                let st3 = st2\<lparr>as_lockout_count := as_lockout_count st2 + 1, as_failures := 0\<rparr>
                in if as_lockout_count st3 \<ge> max_lockouts cfg
                   then bind_rust (instant_add (clk 3) (from_secs (escalated_lockout_secs cfg)))
                     (\<lambda>u. Inr (True, m1(client_id \<mapsto>
                        st3\<lparr>as_locked_until := Some u, as_lockout_count := 0\<rparr>)))
                   else bind_rust (instant_add (clk 3) (from_secs (lockout_secs cfg)))
                     (\<lambda>u. Inr (True, m1(client_id \<mapsto> st3\<lparr>as_locked_until := Some u\<rparr>)))
              else Inr (False, m1(client_id \<mapsto> st2)))"

definition bf_record_success :: "limiter_state \<Rightarrow> string \<Rightarrow> limiter_state" where
  "bf_record_success m client_id =
     (case m client_id of
        Some st \<Rightarrow> m(client_id \<mapsto> st\<lparr>as_failures := 0, as_lockout_count := 0\<rparr>)
      | None \<Rightarrow> m)"

subsection \<open>The middleware\<close>

text \<open>
  What the middleware reads of a request: the path and the headers that are legal strings, and the
  peer address if the server knows it.
\<close>

record admin_request =
  rq_path :: string
  rq_authorization :: "string option"
  rq_x_forwarded_for :: "string option"
  rq_x_real_ip :: "string option"
  rq_peer :: "string option"

datatype admin_response = Next_run | Error_response nat string string

definition is_admin_path :: "string \<Rightarrow> bool" where
  "is_admin_path path \<longleftrightarrow> path = ''/admin'' \<or> prefix ''/admin/'' path"

definition is_public_admin_path :: "string \<Rightarrow> bool" where
  "is_public_admin_path path \<longleftrightarrow> path = ''/admin/v1/info''"

text \<open>\<open>tl\<close>/\<open>env\<close>: the thread-local override and the environment variable.\<close>

definition read_admin_token_from_env :: "(string \<rightharpoonup> string) \<Rightarrow> string option" where
  "read_admin_token_from_env env = (case env ''TIYGATE_ADMIN_TOKEN'' of
     Some s \<Rightarrow> if s = [] then None else Some s | None \<Rightarrow> None)"

definition explicit_token :: "string option \<Rightarrow> (string \<rightharpoonup> string) \<Rightarrow> string option" where
  "explicit_token override env =
     (case override of Some t \<Rightarrow> Some t | None \<Rightarrow> read_admin_token_from_env env)"

text \<open>\<open>ct_eq\<close> of two slices of equal length is their equality.\<close>

definition verify_admin_token :: "string option \<Rightarrow> string \<Rightarrow> bool" where
  "verify_admin_token configured token =
     (case configured of
        None \<Rightarrow> False
      | Some expected \<Rightarrow> if length token \<noteq> length expected then False else token = expected)"

definition nonempty_trimmed :: "string \<Rightarrow> string option" where
  "nonempty_trimmed s = (let t = trim s in if t = [] then None else Some t)"

definition extract_client_ip :: "admin_request \<Rightarrow> string" where
  "extract_client_ip req =
     (case Option.bind (rq_x_forwarded_for req)
             (\<lambda>xff. nonempty_trimmed (hd (split_on CHR '','' xff))) of
        Some ip \<Rightarrow> ip
      | None \<Rightarrow>
          (case Option.bind (rq_x_real_ip req) nonempty_trimmed of
             Some ip \<Rightarrow> ip
           | None \<Rightarrow> unwrap_or (rq_peer req) ''unknown''))"

text \<open>
  The middleware over any limiter: \<open>is_locked\<close>, \<open>record_failure\<close> and \<open>record_success\<close> are the methods
  of the trait, with the limiter's state passed along.
\<close>

definition require_admin_token ::
    "('m \<Rightarrow> string \<Rightarrow> bool \<times> 'm) \<Rightarrow> ('m \<Rightarrow> string \<Rightarrow> (bool \<times> 'm) rust) \<Rightarrow> ('m \<Rightarrow> string \<Rightarrow> 'm) \<Rightarrow>
     string option \<Rightarrow> admin_request \<Rightarrow> 'm \<Rightarrow> (admin_response \<times> 'm) rust" where
  "require_admin_token is_locked record_failure record_success configured req m =
     (let path = rq_path req in
      if \<not> is_admin_path path then Inr (Next_run, m)
      else if is_public_admin_path path then Inr (Next_run, m)
      else
        let client_id = extract_client_ip req;
            (locked, m1) = is_locked m client_id
        in if locked
           then Inr (Error_response 403 ''too many failed attempts; try again later'' ''admin_auth'', m1)
           else
             (case Option.bind (rq_authorization req) (strip_prefix ''Bearer '') of
                None \<Rightarrow>
                  bind_rust (record_failure m1 client_id) (\<lambda>(_, m2).
                    Inr (Error_response 401 ''missing bearer token'' ''gateway'', m2))
              | Some token \<Rightarrow>
                  if configured = None
                  then Inr (Error_response 503
                         ''admin token not configured (set TIYGATE_ADMIN_TOKEN)'' ''gateway'', m1)
                  else if \<not> verify_admin_token configured token
                  then bind_rust (record_failure m1 client_id) (\<lambda>(_, m2).
                         Inr (Error_response 401 ''invalid admin token'' ''gateway'', m2))
                  else Inr (Next_run, record_success m1 client_id)))"

definition in_memory_guard :: "BruteForceConfig \<Rightarrow> (nat \<Rightarrow> instant) \<Rightarrow> string option \<Rightarrow> admin_request \<Rightarrow>
    limiter_state \<Rightarrow> (admin_response \<times> limiter_state) rust" where
  "in_memory_guard cfg clk configured =
     require_admin_token (bf_is_locked clk) (bf_record_failure cfg clk) bf_record_success configured"

subsection \<open>The contract of a limiter\<close>

definition guarded :: "admin_request \<Rightarrow> bool" where
  "guarded req \<longleftrightarrow> is_admin_path (rq_path req) \<and> \<not> is_public_admin_path (rq_path req)"

text \<open>
  \<open>locked T m c\<close> says that the lockout of a client reaches beyond \<open>T\<close>.  No operation up to that
  time ends a lockout.
\<close>

locale brute_force_limiter =
  fixes is_locked :: "'t \<Rightarrow> 'm \<Rightarrow> string \<Rightarrow> bool \<times> 'm"
    and record_failure :: "'t \<Rightarrow> 'm \<Rightarrow> string \<Rightarrow> (bool \<times> 'm) rust"
    and record_success :: "'m \<Rightarrow> string \<Rightarrow> 'm"
    and locked :: "'t \<Rightarrow> 'm \<Rightarrow> string \<Rightarrow> bool"
    and upto :: "'t \<Rightarrow> 't \<Rightarrow> bool"
  assumes is_locked_true: "upto t T \<Longrightarrow> locked T m c \<Longrightarrow> fst (is_locked t m c)"
    and is_locked_keeps: "upto t T \<Longrightarrow> locked T m c2 \<Longrightarrow> locked T (snd (is_locked t m c)) c2"
    and failure_keeps: "upto t T \<Longrightarrow> locked T m c2 \<Longrightarrow> record_failure t m c = Inr (b, m') \<Longrightarrow>
      locked T m' c2"
    and success_keeps: "locked T m c2 \<Longrightarrow> locked T (record_success m c) c2"
begin

abbreviation guard :: "'t \<Rightarrow> string option \<Rightarrow> admin_request \<Rightarrow> 'm \<Rightarrow> (admin_response \<times> 'm) rust" where
  "guard t \<equiv> require_admin_token (is_locked t) (record_failure t) record_success"

lemma guard_locked:
  assumes "upto t T" and "locked T m (extract_client_ip req)" and "guarded req"
  shows "guard t configured req m = Inr (Error_response 403
    ''too many failed attempts; try again later'' ''admin_auth'', snd (is_locked t m (extract_client_ip req)))"
  using assms is_locked_true [OF assms(1,2)]
  by (simp add: require_admin_token_def guarded_def Let_def split_beta)

lemma guard_keeps:
  assumes "upto t T" and "locked T m c" and "guard t configured req m = Inr (resp, m')"
  shows "locked T m' c"
proof -
  let ?cl = "extract_client_ip req"
  let ?m1 = "snd (is_locked t m ?cl)"
  have k: "locked T ?m1 c" by (rule is_locked_keeps [OF assms(1,2)])
  have "m' = m \<or> m' = ?m1 \<or> (\<exists>b. record_failure t ?m1 ?cl = Inr (b, m')) \<or> m' = record_success ?m1 ?cl"
    using assms(3)
    by (auto simp: require_admin_token_def Let_def split_beta split: if_splits option.splits)
  then show ?thesis using assms(2) k failure_keeps [OF assms(1) k] success_keeps [OF k] by auto
qed

fun guard_all :: "string option \<Rightarrow> ('t \<times> admin_request) list \<Rightarrow> 'm \<Rightarrow> (admin_response list \<times> 'm) rust" where
  "guard_all configured [] m = Inr ([], m)"
| "guard_all configured ((t, req) # rs) m =
     bind_rust (guard t configured req m) (\<lambda>(resp, m1).
       bind_rust (guard_all configured rs m1) (\<lambda>(resps, m2). Inr (resp # resps, m2)))"

lemma guard_all_locked:
  assumes "\<forall>(t, req)\<in>set rs. upto t T" and "locked T m c" and "guard_all configured rs m = Inr (resps, m')"
  shows "list_all2 (\<lambda>(t, req) resp. extract_client_ip req = c \<and> guarded req \<longrightarrow>
    (\<exists>msg src. resp = Error_response 403 msg src)) rs resps"
  using assms
proof (induction rs arbitrary: m resps m')
  case (Cons tr rs)
  obtain t req where tr: "tr = (t, req)" by (cases tr)
  from Cons.prems(3) tr obtain resp m1 rest m2 where g: "guard t configured req m = Inr (resp, m1)"
    and r: "guard_all configured rs m1 = Inr (rest, m2)" and resps: "resps = resp # rest"
    by (auto split: prod.splits)
  have up: "upto t T" using Cons.prems(1) tr by simp
  have "locked T m1 c" using guard_keeps [OF up Cons.prems(2) g] .
  with Cons.IH r Cons.prems(1) have "list_all2 (\<lambda>(t, req) resp. extract_client_ip req = c \<and> guarded req \<longrightarrow>
    (\<exists>msg src. resp = Error_response 403 msg src)) rs rest" by auto
  moreover have "\<exists>msg src. resp = Error_response 403 msg src"
    if "extract_client_ip req = c" "guarded req"
    using guard_locked [OF up, of m req configured] that Cons.prems(2) g by auto
  ultimately show ?case using tr resps by simp
qed simp

end

subsection \<open>The in-memory limiter fulfils the contract\<close>

definition locked_beyond :: "instant \<Rightarrow> limiter_state \<Rightarrow> string \<Rightarrow> bool" where
  "locked_beyond T m c \<longleftrightarrow> (case m c of Some st \<Rightarrow> active st T | None \<Rightarrow> False)"

definition clock_upto :: "(nat \<Rightarrow> instant) \<Rightarrow> (nat \<Rightarrow> instant) \<Rightarrow> bool" where
  "clock_upto clk T \<longleftrightarrow> (\<forall>n. clk n \<le> T 0)"

lemma active_mono: "active st T \<Longrightarrow> t \<le> T \<Longrightarrow> active st t"
  by (auto simp: active_def split: option.splits)

lemma purge_locked: "t \<le> T \<Longrightarrow> locked_beyond T (purge_expired t m) c \<longleftrightarrow> locked_beyond T m c"
  using active_mono by (auto simp: locked_beyond_def purge_expired_def split: option.splits)

lemma locked_beyond_upd:
  "locked_beyond T (m(c \<mapsto> st)) c2 \<longleftrightarrow> (if c2 = c then active st T else locked_beyond T m c2)"
  by (simp add: locked_beyond_def)

lemma is_locked_spec:
  assumes "clock_upto clk T" and "locked_beyond (T 0) m c"
  shows "fst (bf_is_locked clk m c)"
proof -
  have "locked_beyond (T 0) (purge_expired (clk 0) m) c"
    using assms purge_locked by (simp add: clock_upto_def)
  then show ?thesis using active_mono assms(1)
    by (auto simp: bf_is_locked_def locked_beyond_def clock_upto_def Let_def split: option.splits)
qed

lemma is_locked_state: "snd (bf_is_locked clk m c) = purge_expired (clk 0) m"
  by (simp add: bf_is_locked_def Let_def)

text \<open>A failure of a locked client changes nothing; any other failure only writes that client's entry.\<close>

lemma record_failure_frame:
  assumes "bf_record_failure cfg clk m c = Inr (b, m')"
  shows "\<exists>st'. m' = (purge_expired (clk 0) m)(c \<mapsto> st')"
  using assms by (auto simp: bf_record_failure_def Let_def split: if_splits)

lemma record_failure_locked:
  assumes "purge_expired (clk 0) m c = Some st" and "active st (clk 1)"
  shows "bf_record_failure cfg clk m c = Inr (False, (purge_expired (clk 0) m)(c \<mapsto> st))"
  using assms by (simp add: bf_record_failure_def Let_def)

lemma record_failure_keeps:
  assumes up: "clock_upto clk T" and l: "locked_beyond (T 0) m c2"
    and run: "bf_record_failure cfg clk m c = Inr (b, m')"
  shows "locked_beyond (T 0) m' c2"
proof -
  let ?m1 = "purge_expired (clk 0) m"
  have l1: "locked_beyond (T 0) ?m1 c2" using up l purge_locked by (simp add: clock_upto_def)
  show ?thesis
  proof (cases "c2 = c")
    case False
    then show ?thesis using record_failure_frame [OF run] l1 by (auto simp: locked_beyond_upd)
  next
    case True
    with l1 obtain st where st: "?m1 c = Some st" "active st (T 0)"
      by (auto simp: locked_beyond_def split: option.splits)
    have "active st (clk 1)" using active_mono [OF st(2)] up by (simp add: clock_upto_def)
    from record_failure_locked [OF st(1) this] run st True show ?thesis
      by (auto simp: locked_beyond_upd)
  qed
qed

lemma record_success_locked:
  "locked_beyond T (bf_record_success m c) c2 \<longleftrightarrow> locked_beyond T m c2"
  by (auto simp: bf_record_success_def locked_beyond_upd active_def locked_beyond_def
      split: option.split)

interpretation in_memory_limiter: brute_force_limiter bf_is_locked "bf_record_failure cfg"
  bf_record_success "\<lambda>T. locked_beyond (T 0)" clock_upto for cfg
  by unfold_locales
    (auto simp: is_locked_spec is_locked_state record_success_locked clock_upto_def purge_locked
      dest: record_failure_keeps [unfolded clock_upto_def])

text \<open>
  C27.  A lockout cannot be shortened or bypassed: while the lockout of a client lasts, every guarded
  request of that client is answered with 403, whatever token it presents, and whatever requests
  of this and other clients come in between.
\<close>

theorem lockout_cannot_be_bypassed:
  assumes "\<forall>(clk, req)\<in>set rs. clock_upto clk (\<lambda>_. T)" and "locked_beyond T m c"
    and "in_memory_limiter.guard_all cfg configured rs m = Inr (resps, m')"
  shows "list_all2 (\<lambda>(clk, req) resp. extract_client_ip req = c \<and> guarded req \<longrightarrow>
    (\<exists>msg src. resp = Error_response 403 msg src)) rs resps"
  using in_memory_limiter.guard_all_locked [of rs "\<lambda>_. T"] assms by blast

lemma bearer_token: "Option.bind auth (strip_prefix ''Bearer '') = Some token \<longleftrightarrow>
    auth = Some (''Bearer '' @ token)"
  by (cases auth) (auto simp: strip_prefix_def prefix_def)

text \<open>
  C28.  The guard is exact: a path that is not guarded passes untouched, and a request to a guarded admin
  path reaches its handler if and only if the client is not locked out and presents exactly the
  configured token; its counters are then reset.
\<close>

theorem admin_guard_exact:
  "(\<not> guarded req \<longrightarrow> in_memory_guard cfg clk configured req m = Inr (Next_run, m)) \<and>
   (guarded req \<longrightarrow> (in_memory_guard cfg clk configured req m = Inr (Next_run, m') \<longleftrightarrow>
      \<not> fst (bf_is_locked clk m (extract_client_ip req)) \<and>
      (\<exists>token. configured = Some token \<and> rq_authorization req = Some (''Bearer '' @ token)) \<and>
      m' = bf_record_success (purge_expired (clk 0) m) (extract_client_ip req)))"
proof (intro conjI impI)
  assume "\<not> guarded req"
  then show "in_memory_guard cfg clk configured req m = Inr (Next_run, m)"
    by (auto simp: in_memory_guard_def require_admin_token_def guarded_def Let_def)
next
  assume g: "guarded req"
  let ?b = "Option.bind (rq_authorization req) (strip_prefix ''Bearer '')"
  have eq: "in_memory_guard cfg clk configured req m = Inr (Next_run, m') \<longleftrightarrow>
      \<not> fst (bf_is_locked clk m (extract_client_ip req)) \<and>
      (\<exists>token. ?b = Some token \<and> verify_admin_token configured token) \<and>
      m' = bf_record_success (purge_expired (clk 0) m) (extract_client_ip req)"
    using g by (auto simp: in_memory_guard_def require_admin_token_def guarded_def Let_def split_beta
        is_locked_state verify_admin_token_def split: option.splits)
  show "in_memory_guard cfg clk configured req m = Inr (Next_run, m') \<longleftrightarrow>
      \<not> fst (bf_is_locked clk m (extract_client_ip req)) \<and>
      (\<exists>token. configured = Some token \<and> rq_authorization req = Some (''Bearer '' @ token)) \<and>
      m' = bf_record_success (purge_expired (clk 0) m) (extract_client_ip req)"
    unfolding eq bearer_token by (auto simp: verify_admin_token_def split: option.splits if_splits)
qed

subsection \<open>Lockout cycles\<close>

text \<open>A sequence of failures of one client, one clock reading each.\<close>

fun fail_all :: "BruteForceConfig \<Rightarrow> string \<Rightarrow> instant list \<Rightarrow> limiter_state \<Rightarrow> limiter_state rust" where
  "fail_all cfg c [] m = Inr m"
| "fail_all cfg c (t # ts) m =
     bind_rust (bf_record_failure cfg (\<lambda>_. t) m c) (\<lambda>(_, m1). fail_all cfg c ts m1)"

abbreviation entry :: "limiter_state \<Rightarrow> string \<Rightarrow> AttemptState" where
  "entry m c \<equiv> unwrap_or (m c) AttemptState_default"

lemma purge_entry:
  "entry (purge_expired t m) c = entry m c \<or>
   entry (purge_expired t m) c = AttemptState_default \<and> as_failures (entry m c) = 0 \<and>
     as_lockout_count (entry m c) = 0 \<and> \<not> active (entry m c) t"
  by (auto simp: purge_expired_def word_gt_0 split: option.split)

lemma purge_counters [simp]:
  "as_failures (entry (purge_expired t m) c) = as_failures (entry m c)"
  "as_lockout_count (entry (purge_expired t m) c) = as_lockout_count (entry m c)"
  using purge_entry [of t m c] by (auto simp: AttemptState_default_def)

lemma purge_inactive: "\<not> active (entry m c) t \<Longrightarrow> \<not> active (entry (purge_expired t m) c) t"
  using purge_entry [of t m c] by (auto simp: AttemptState_default_def active_def)

lemma failure_counted:
  assumes "\<not> active (entry m c) t" and "as_failures (entry m c) + 1 < max_failures cfg"
  shows "\<exists>m'. bf_record_failure cfg (\<lambda>_. t) m c = Inr (False, m') \<and>
    m' c = Some \<lparr>as_failures = as_failures (entry m c) + 1,
      as_lockout_count = as_lockout_count (entry m c), as_locked_until = None\<rparr>"
proof -
  let ?st = "entry (purge_expired t m) c"
  have na: "\<not> active ?st t" using purge_inactive [of m c t] assms(1) by blast
  have "as_locked_until ?st = None \<or> (\<exists>d. as_locked_until ?st = Some d \<and> d \<le> t)"
    using na by (cases "as_locked_until ?st") (auto simp: active_def)
  then show ?thesis using na assms(2)
    by (auto simp: bf_record_failure_def Let_def not_le)
qed

lemma failure_locks:
  assumes "\<not> active (entry m c) t" and "as_failures (entry m c) + 1 \<ge> max_failures cfg"
    and "bf_record_failure cfg (\<lambda>_. t) m c = Inr (b, m')"
  shows "m' c = (let n = as_lockout_count (entry m c) + 1 in
    if n \<ge> max_lockouts cfg
    then Some \<lparr>as_failures = 0, as_lockout_count = 0,
      as_locked_until = Some (t + from_secs (escalated_lockout_secs cfg))\<rparr>
    else Some \<lparr>as_failures = 0, as_lockout_count = n,
      as_locked_until = Some (t + from_secs (lockout_secs cfg))\<rparr>)"
proof -
  let ?st = "entry (purge_expired t m) c"
  have na: "\<not> active ?st t" using purge_inactive [of m c t] assms(1) by blast
  have "as_locked_until ?st = None \<or> (\<exists>d. as_locked_until ?st = Some d \<and> d \<le> t)"
    using na by (cases "as_locked_until ?st") (auto simp: active_def)
  then show ?thesis using na assms(2,3)
    by (auto simp: bf_record_failure_def Let_def instant_add_def split: if_splits)
qed


lemma failures_counted:
  assumes "\<forall>t\<in>set ts. \<not> active (entry m c) t"
    and "unat (as_failures (entry m c)) + length ts < unat (max_failures cfg)"
  shows "\<exists>m'. fail_all cfg c ts m = Inr m' \<and> (ts \<noteq> [] \<longrightarrow> m' c = Some
    \<lparr>as_failures = as_failures (entry m c) + of_nat (length ts),
     as_lockout_count = as_lockout_count (entry m c), as_locked_until = None\<rparr>)"
  using assms
proof (induction ts arbitrary: m)
  case (Cons t ts)
  let ?f = "as_failures (entry m c)"
  have small: "unat ?f + 1 < 2 ^ 32" 
    using Cons.prems(2) unsigned_less [where 'a = nat, of "max_failures cfg"] by simp
  then have u: "unat (?f + 1) = unat ?f + 1" using unat_plus_exact [of ?f 1] by simp
  have "?f + 1 < max_failures cfg" using Cons.prems(2) u by (simp add: word_less_nat_alt)
  moreover have "\<not> active (entry m c) t" using Cons.prems(1) by simp
  ultimately obtain m1 where m1: "bf_record_failure cfg (\<lambda>_. t) m c = Inr (False, m1)"
    and e: "m1 c = Some \<lparr>as_failures = ?f + 1, as_lockout_count = as_lockout_count (entry m c),
      as_locked_until = None\<rparr>"
    using failure_counted [of m c t cfg] by blast
  have "\<exists>m'. fail_all cfg c ts m1 = Inr m' \<and> (ts \<noteq> [] \<longrightarrow> m' c = Some
    \<lparr>as_failures = as_failures (entry m1 c) + of_nat (length ts),
     as_lockout_count = as_lockout_count (entry m1 c), as_locked_until = None\<rparr>)"
    by (rule Cons.IH) (use e u Cons.prems(2) in \<open>simp_all add: active_def\<close>)
  then show ?case using m1 e by (cases "ts = []") (auto simp: algebra_simps)
qed simp

lemma fail_all_snoc:
  "fail_all cfg c (ts @ [t]) m =
     bind_rust (fail_all cfg c ts m) (\<lambda>m1. fail_all cfg c [t] m1)"
proof (induction ts arbitrary: m)
  case (Cons t' ts)
  show ?case by (cases "bf_record_failure cfg (\<lambda>_. t') m c") (simp_all add: Cons.IH split_beta)
qed simp

text \<open>
  C29.  Lockout and escalation, in full: a client with no pending failures that fails
  \<^verbatim>\<open>max_failures\<close> times outside a lockout is free after each failure but the last, and locked
  from the last one on for the base period, or for the long period (with the count of lockouts
  starting again from zero) if this was its \<^verbatim>\<open>max_lockouts\<close>-th lockout in a row.
\<close>

theorem lockout_cycle:
  assumes fresh: "as_failures (entry m c) = 0" and free: "\<forall>t\<in>set ts. \<not> active (entry m c) t"
    and len: "length ts = unat (max_failures cfg)" and pos: "ts \<noteq> []"
    and run: "fail_all cfg c ts m = Inr m'"
  shows "(\<forall>k\<in>{1..<length ts}. \<exists>m1. fail_all cfg c (take k ts) m = Inr m1 \<and>
           (\<forall>T. \<not> locked_beyond T m1 c)) \<and>
    (let n = as_lockout_count (entry m c) + 1; long = (n \<ge> max_lockouts cfg) in
     m' c = Some \<lparr>as_failures = 0, as_lockout_count = (if long then 0 else n), as_locked_until =
       Some (last ts + from_secs (if long then escalated_lockout_secs cfg else lockout_secs cfg))\<rparr>)"
proof (intro conjI ballI)
  fix k assume k: "k \<in> {1..<length ts}"
  have inact: "\<forall>t\<in>set (take k ts). \<not> active (entry m c) t" using free by (meson in_set_takeD)
  have "length (take k ts) < unat (max_failures cfg)" and ne: "take k ts \<noteq> []" using k len by auto
  then show "\<exists>m1. fail_all cfg c (take k ts) m = Inr m1 \<and> (\<forall>T. \<not> locked_beyond T m1 c)"
    using failures_counted [of "take k ts" m c cfg] inact fresh
    by (auto simp: locked_beyond_def active_def)
next
  obtain us t where ts: "ts = us @ [t]" using pos by (metis append_butlast_last_id)
  have inact: "\<forall>t\<in>set us. \<not> active (entry m c) t" using free ts by simp
  have "unat (as_failures (entry m c)) + length us < unat (max_failures cfg)" using fresh len ts by simp
  then obtain m1 where m1: "fail_all cfg c us m = Inr m1" and e: "us \<noteq> [] \<longrightarrow> m1 c = Some
    \<lparr>as_failures = as_failures (entry m c) + of_nat (length us),
     as_lockout_count = as_lockout_count (entry m c), as_locked_until = None\<rparr>"
    using failures_counted [of us m c cfg] inact by blast
  have st: "\<not> active (entry m1 c) t \<and> as_failures (entry m1 c) = of_nat (length us) \<and>
    as_lockout_count (entry m1 c) = as_lockout_count (entry m c)"
  proof (cases "us = []")
    case True
    with m1 have "m1 = m" by simp
    with True free ts fresh show ?thesis by simp
  next
    case False
    with e fresh show ?thesis by (simp add: active_def)
  qed
  have "as_failures (entry m1 c) + 1 = max_failures cfg"
  proof -
    have "max_failures cfg = of_nat (length ts)" using len by simp
    then show ?thesis using st ts by (simp add: add.commute)
  qed
  moreover obtain b where "bf_record_failure cfg (\<lambda>_. t) m1 c = Inr (b, m')"
    using run m1 ts by (auto simp: fail_all_snoc)
  ultimately show "let n = as_lockout_count (entry m c) + 1; long = (n \<ge> max_lockouts cfg) in
     m' c = Some \<lparr>as_failures = 0, as_lockout_count = (if long then 0 else n), as_locked_until =
       Some (last ts + from_secs (if long then escalated_lockout_secs cfg else lockout_secs cfg))\<rparr>"
    using failure_locks [of m1 c t cfg b m'] st ts by (simp add: Let_def split: if_splits)
qed


text \<open>
  A wrong token from one connection, under a freely chosen \<^verbatim>\<open>X-Forwarded-For\<close> value.
\<close>

definition guess :: "string \<Rightarrow> string \<Rightarrow> admin_request" where
  "guess spoofed token = \<lparr>rq_path = ''/admin/v1/keys'', rq_authorization = Some (''Bearer '' @ token),
     rq_x_forwarded_for = Some spoofed, rq_x_real_ip = None, rq_peer = Some ''203.0.113.7''\<rparr>"

definition plain_ip :: "string \<Rightarrow> bool" where
  "plain_ip s \<longleftrightarrow> CHR '','' \<notin> set s \<and> trim s = s \<and> s \<noteq> []"

lemma split_on_hd: "sep \<notin> set s \<Longrightarrow> hd (split_on sep s) = s"
proof (induction s)
  case (Cons a s)
  then show ?case by (cases "split_on sep s") auto
qed simp

lemma guess_client: "plain_ip s \<Longrightarrow> extract_client_ip (guess s token) = s"
  by (simp add: extract_client_ip_def guess_def plain_ip_def split_on_hd nonempty_trimmed_def)

lemma guess_guarded: "guarded (guess s token)"
  by (simp add: guarded_def guess_def is_admin_path_def is_public_admin_path_def)

text \<open>No client has an entry with a lockout.\<close>

definition calm :: "limiter_state \<Rightarrow> bool" where
  "calm m \<longleftrightarrow> (\<forall>c st. m c = Some st \<longrightarrow> as_locked_until st = None)"

lemma guess_rejected:
  assumes ip: "plain_ip s" and new: "m s = None" and calm: "calm m"
    and cfg: "1 < max_failures cfg" and wrong: "token \<noteq> expected"
  shows "\<exists>m'. in_memory_guard cfg clk (Some expected) (guess s token) m =
    Inr (Error_response 401 ''invalid admin token'' ''gateway'', m') \<and> calm m' \<and>
    (\<forall>c. c \<noteq> s \<longrightarrow> m c = None \<longrightarrow> m' c = None)"
proof -
  let ?m1 = "purge_expired (clk 0) m" and ?m2 = "purge_expired (clk 0) (purge_expired (clk 0) m)"
  have n: "?m1 s = None" "?m2 s = None" using new by (simp_all add: purge_expired_def)
  have calm2: "calm ?m2" and none: "\<forall>c. m c = None \<longrightarrow> ?m2 c = None"
    using calm by (auto simp: calm_def purge_expired_def split: option.splits if_splits)
  let ?st = "\<lparr>as_failures = 1, as_lockout_count = 0, as_locked_until = None\<rparr>"
  have fail: "bf_record_failure cfg clk ?m1 s = Inr (False, ?m2(s \<mapsto> ?st))"
    using n cfg by (simp add: bf_record_failure_def AttemptState_default_def active_def Let_def)
  have "fst (bf_is_locked clk m s) = False" using n by (simp add: bf_is_locked_def Let_def)
  moreover have "snd (bf_is_locked clk m s) = ?m1" by (rule is_locked_state)
  moreover have "\<not> verify_admin_token (Some expected) token" using wrong by (simp add: verify_admin_token_def)
  moreover have "Option.bind (rq_authorization (guess s token)) (strip_prefix ''Bearer '') = Some token"
    unfolding bearer_token by (simp add: guess_def)
  ultimately have "in_memory_guard cfg clk (Some expected) (guess s token) m =
      Inr (Error_response 401 ''invalid admin token'' ''gateway'', ?m2(s \<mapsto> ?st))"
    using guess_guarded [of s token] fail guess_client [OF ip, of token]
    by (simp add: in_memory_guard_def require_admin_token_def guarded_def Let_def split_beta)
  moreover have "calm (?m2(s \<mapsto> ?st))" using calm2 by (auto simp: calm_def)
  ultimately show ?thesis using none by auto
qed


lemma guesses_rejected:
  assumes "1 < max_failures cfg"
  shows "\<forall>(clk, s, token)\<in>set gs. plain_ip s \<and> token \<noteq> expected \<and> m s = None \<Longrightarrow>
    distinct (map (\<lambda>(clk, s, token). s) gs) \<Longrightarrow> calm m \<Longrightarrow>
    \<exists>m'. in_memory_limiter.guard_all cfg (Some expected)
        (map (\<lambda>(clk, s, token). (clk, guess s token)) gs) m =
      Inr (replicate (length gs) (Error_response 401 ''invalid admin token'' ''gateway''), m')"
proof (induction gs arbitrary: m)
  case (Cons g gs)
  obtain clk s token where g: "g = (clk, s, token)" by (cases g)
  have hyp: "plain_ip s" "token \<noteq> expected" "m s = None" using Cons.prems(1) g by auto
  obtain m1 where m1: "in_memory_guard cfg clk (Some expected) (guess s token) m =
      Inr (Error_response 401 ''invalid admin token'' ''gateway'', m1)"
    and calm: "calm m1" and none: "\<forall>c. c \<noteq> s \<longrightarrow> m c = None \<longrightarrow> m1 c = None"
    using guess_rejected [OF hyp(1,3) Cons.prems(3) assms hyp(2)] by blast
  have "\<forall>h\<in>set gs. plain_ip (fst (snd h)) \<and> snd (snd h) \<noteq> expected \<and> m1 (fst (snd h)) = None"
  proof
    fix h assume h: "h \<in> set gs"
    have "fst (snd h) \<noteq> s" using Cons.prems(2) g h by (auto simp: split_beta image_iff)
    moreover have "plain_ip (fst (snd h)) \<and> snd (snd h) \<noteq> expected \<and> m (fst (snd h)) = None"
      using Cons.prems(1) h by (auto simp: split_beta)
    ultimately show "plain_ip (fst (snd h)) \<and> snd (snd h) \<noteq> expected \<and> m1 (fst (snd h)) = None"
      using none by blast
  qed
  then have rest: "\<forall>(clk, s, token)\<in>set gs. plain_ip s \<and> token \<noteq> expected \<and> m1 s = None"
    by (simp add: split_beta)
  have "distinct (map (\<lambda>(clk, s, token). s) gs)" using Cons.prems(2) by simp
  from Cons.IH [OF rest this calm] obtain m2 where
    "in_memory_limiter.guard_all cfg (Some expected) (map (\<lambda>(clk, s, token). (clk, guess s token)) gs) m1 =
      Inr (replicate (length gs) (Error_response 401 ''invalid admin token'' ''gateway''), m2)" by blast
  with m1 g show ?case by (simp add: in_memory_guard_def)
qed simp

text \<open>
  The client id can be chosen by the client: with a different \<^verbatim>\<open>X-Forwarded-For\<close> value on every
  request, any number of wrong tokens is tried from one connection without a single lockout; every
  guess is answered with the plain 401.
\<close>

theorem spoofed_ids_never_locked:
  assumes "1 < max_failures cfg"
    and "\<forall>(clk, s, token)\<in>set gs. plain_ip s \<and> token \<noteq> expected"
    and "distinct (map (\<lambda>(clk, s, token). s) gs)"
  shows "\<exists>m'. in_memory_limiter.guard_all cfg (Some expected)
        (map (\<lambda>(clk, s, token). (clk, guess s token)) gs) Map.empty =
      Inr (replicate (length gs) (Error_response 401 ''invalid admin token'' ''gateway''), m')"
  by (rule guesses_rejected [OF assms(1)]) (use assms in \<open>auto simp: calm_def\<close>)

subsection \<open>Concrete runs\<close>

definition locked_out :: limiter_state where
  "locked_out = [''198.51.100.7'' \<mapsto> \<lparr>as_failures = 0, as_lockout_count = 1, as_locked_until = Some 500\<rparr>]"

lemma plain_example: "plain_ip ''198.51.100.7''" "plain_ip ''198.51.100.8''"
  by code_simp+

lemma locked_out_run:
  "\<exists>resps m'. in_memory_limiter.guard_all BruteForceConfig_default (Some ''s3cret'')
     [(\<lambda>_. 10, guess ''198.51.100.7'' ''s3cret'')] locked_out = Inr (resps, m')"
  using guess_guarded [of "''198.51.100.7''" "''s3cret''"] guess_client [OF plain_example(1), of "''s3cret''"]
  by (simp add: require_admin_token_def guarded_def Let_def bf_is_locked_def locked_out_def
      purge_expired_def active_def)

theorem lockout_cannot_be_bypassed_witness:
  "\<exists>resp m'. in_memory_limiter.guard_all BruteForceConfig_default (Some ''s3cret'')
     [(\<lambda>_. 10, guess ''198.51.100.7'' ''s3cret'')] locked_out = Inr ([resp], m') \<and>
     (\<exists>msg src. resp = Error_response 403 msg src)"
proof -
  obtain resps m' where run: "in_memory_limiter.guard_all BruteForceConfig_default (Some ''s3cret'')
     [(\<lambda>_. 10, guess ''198.51.100.7'' ''s3cret'')] locked_out = Inr (resps, m')"
    using locked_out_run by blast
  have "list_all2 (\<lambda>(clk, req) resp. extract_client_ip req = ''198.51.100.7'' \<and> guarded req \<longrightarrow>
    (\<exists>msg src. resp = Error_response 403 msg src)) [(\<lambda>_ :: nat. 10 :: instant, guess ''198.51.100.7'' ''s3cret'')] resps"
    by (rule lockout_cannot_be_bypassed [where T = 100, OF _ _ run])
      (simp_all add: clock_upto_def locked_beyond_def locked_out_def active_def)
  then show ?thesis using run guess_guarded guess_client [OF plain_example(1)]
    by (auto simp: list_all2_Cons1)
qed

theorem admin_guard_exact_witness:
  "in_memory_guard BruteForceConfig_default (\<lambda>_. 0) (Some ''s3cret'')
     (guess ''198.51.100.7'' ''s3cret'') Map.empty = Inr (Next_run, Map.empty)"
proof -
  let ?req = "guess ''198.51.100.7'' ''s3cret''"
  have "\<not> fst (bf_is_locked (\<lambda>_. 0) Map.empty (extract_client_ip ?req))"
    by (simp add: bf_is_locked_def purge_expired_def Let_def)
  moreover have "Map.empty = bf_record_success (purge_expired 0 Map.empty) (extract_client_ip ?req)"
    by (simp add: bf_record_success_def purge_expired_def)
  moreover have "rq_authorization ?req = Some (''Bearer '' @ ''s3cret'')" by (simp add: guess_def)
  ultimately show ?thesis
    using admin_guard_exact [of ?req BruteForceConfig_default "\<lambda>_. 0" "Some ''s3cret''" Map.empty Map.empty]
      guess_guarded by blast
qed

lemma u32_order: "\<not> (3 :: u32) \<le> 1" "(1 :: u32) < 3" "\<not> (3 :: u32) \<le> 2"
  by (simp_all add: word_le_nat_alt word_less_nat_alt)

lemma three_failures:
  "\<exists>m'. fail_all BruteForceConfig_default ''c'' [1, 2, 3] Map.empty = Inr m'"
  by (simp add: bf_record_failure_def purge_expired_def active_def Let_def BruteForceConfig_default_def
      AttemptState_default_def instant_add_def from_secs_def nanos_per_sec_def u32_order)

theorem lockout_cycle_witness:
  "\<exists>m'. fail_all BruteForceConfig_default ''c'' [1, 2, 3] Map.empty = Inr m' \<and>
     m' ''c'' = Some \<lparr>as_failures = 0, as_lockout_count = 1, as_locked_until = Some (3 + from_secs 300)\<rparr>"
proof -
  obtain m' where run: "fail_all BruteForceConfig_default ''c'' [1, 2, 3] Map.empty = Inr m'"
    using three_failures by blast
  from lockout_cycle [OF _ _ _ _ run] run show ?thesis
    by (simp add: AttemptState_default_def active_def BruteForceConfig_default_def Let_def u32_order
        del: fail_all.simps)
qed

theorem spoofed_ids_never_locked_witness:
  "\<exists>m'. in_memory_limiter.guard_all BruteForceConfig_default (Some ''s3cret'')
        [(\<lambda>_. 1, guess ''198.51.100.7'' ''a''), (\<lambda>_. 2, guess ''198.51.100.8'' ''b'')] Map.empty =
      Inr ([Error_response 401 ''invalid admin token'' ''gateway'',
            Error_response 401 ''invalid admin token'' ''gateway''], m')"
  using spoofed_ids_never_locked [of BruteForceConfig_default
      "[(\<lambda>_. 1, ''198.51.100.7'', ''a''), (\<lambda>_. 2, ''198.51.100.8'', ''b'')]" "''s3cret''"] plain_example
  by (simp add: BruteForceConfig_default_def u32_order numeral_2_eq_2
      del: in_memory_limiter.guard_all.simps)

end
