(* ===== verification/Structured_Output.thy ===== *)
theory Structured_Output
  imports Ir_Types
begin

section \<open>Structured-output schemas\<close>

text \<open>
  The model of \<^verbatim>\<open>crates/core/src/protocol/structured_output.rs\<close>: the walk over a JSON Schema that
  rejects what the target protocol cannot express.  The three helpers take the walk of a subschema
  as their first argument; \<open>each\<close> is a loop whose body may return an error.
\<close>

datatype StructuredOutputError =
    SchemaMustBeObject string
  | UnsupportedKeyword ProtocolSuite string string
  | InvalidSchemaContainer string string

fun each :: "('a \<Rightarrow> 'e + unit) \<Rightarrow> 'a list \<Rightarrow> 'e + unit" where
  "each f [] = Inr ()"
| "each f (x # xs) = bind_rust (f x) (\<lambda>_. each f xs)"

lemma each_cong [fundef_cong]:
  "xs = ys \<Longrightarrow> (\<And>x. x \<in> set ys \<Longrightarrow> f x = g x) \<Longrightarrow> each f xs = each g ys"
proof (induction xs arbitrary: ys)
  case (Cons x xs)
  then show ?case by (cases ys) auto
qed simp

lemma bind_rust_cong [fundef_cong]:
  "m = m' \<Longrightarrow> (\<And>x. m' = Inr x \<Longrightarrow> f x = g x) \<Longrightarrow> bind_rust m f = bind_rust m' g"
  by (cases m') auto

lemma each_ok: "each f xs = Inr () \<longleftrightarrow> (\<forall>x\<in>set xs. f x = Inr ())"
  by (induction xs) auto

lemma each_error: "each f xs = Inl e \<Longrightarrow> \<exists>x\<in>set xs. f x = Inl e"
proof (induction xs)
  case (Cons x xs)
  then show ?case by (cases "f x") auto
qed simp

definition is_known_unsupported_keyword :: "ProtocolSuite \<Rightarrow> string \<Rightarrow> bool" where
  "is_known_unsupported_keyword target keyword \<longleftrightarrow> target = AnthropicMessages \<and>
     keyword \<in> {''minimum'', ''maximum'', ''exclusiveMinimum'', ''exclusiveMaximum'', ''multipleOf'',
       ''minLength'', ''maxLength''}"

definition escape :: "string \<Rightarrow> string" where
  "escape token = replace_char CHR ''/'' ''~1'' (replace_char CHR ''~'' ''~0'' token)"

definition pointer_for :: "string \<Rightarrow> string \<Rightarrow> string" where
  "pointer_for parent token = parent @ ''/'' @ escape token"

definition display_pointer :: "string \<Rightarrow> string" where
  "display_pointer pointer = (if pointer = [] then ''/'' else pointer)"

definition walk_schema_map :: "(json \<Rightarrow> string \<Rightarrow> StructuredOutputError + unit) \<Rightarrow> json option \<Rightarrow>
    string \<Rightarrow> string \<Rightarrow> StructuredOutputError + unit" where
  "walk_schema_map walk value pointer keyword =
     (case value of
        None \<Rightarrow> Inr ()
      | Some v \<Rightarrow>
          (case as_object v of
             None \<Rightarrow> Inl (InvalidSchemaContainer (pointer_for pointer keyword)
                           ''an object containing schemas'')
           | Some kvs \<Rightarrow> each (\<lambda>(name, schema).
               walk schema (pointer_for (pointer_for pointer keyword) name)) kvs))"

definition walk_schema_value :: "(json \<Rightarrow> string \<Rightarrow> StructuredOutputError + unit) \<Rightarrow> json option \<Rightarrow>
    string \<Rightarrow> string \<Rightarrow> StructuredOutputError + unit" where
  "walk_schema_value walk value pointer keyword =
     (case value of
        None \<Rightarrow> Inr ()
      | Some v \<Rightarrow>
          if is_boolean v \<and> keyword = ''additionalProperties'' then Inr ()
          else walk v (pointer_for pointer keyword))"

definition walk_schema_array :: "(json \<Rightarrow> string \<Rightarrow> StructuredOutputError + unit) \<Rightarrow> json option \<Rightarrow>
    string \<Rightarrow> string \<Rightarrow> StructuredOutputError + unit" where
  "walk_schema_array walk value pointer keyword =
     (case value of
        None \<Rightarrow> Inr ()
      | Some v \<Rightarrow>
          (case as_array v of
             None \<Rightarrow> Inl (InvalidSchemaContainer (pointer_for pointer keyword) ''an array of schemas'')
           | Some xs \<Rightarrow> each (\<lambda>(index, schema).
               walk schema (pointer_for (pointer_for pointer keyword) (nat_str index)))
               (enumerate 0 xs)))"

text \<open>The walk of a subschema is only ever applied to a member of the value.\<close>

lemma walk_schema_map_cong [fundef_cong]:
  assumes "value = value'" and "pointer = pointer'" and "keyword = keyword'"
    and "\<And>v p. (\<exists>kvs k. value' = Some (JObject kvs) \<and> (k, v) \<in> set kvs) \<Longrightarrow> walk v p = walk' v p"
  shows "walk_schema_map walk value pointer keyword = walk_schema_map walk' value' pointer' keyword'"
proof (cases value')
  case (Some v)
  show ?thesis
  proof (cases v)
    case (JObject kvs)
    have "each (\<lambda>(name, schema). walk schema (pointer_for (pointer_for pointer keyword) name)) kvs =
        each (\<lambda>(name, schema). walk' schema (pointer_for (pointer_for pointer keyword) name)) kvs"
      by (rule each_cong) (use assms(4) Some JObject in auto)
    then show ?thesis using assms(1-3) Some JObject by (simp add: walk_schema_map_def)
  qed (use assms Some in \<open>simp_all add: walk_schema_map_def\<close>)
qed (use assms in \<open>simp add: walk_schema_map_def\<close>)

lemma walk_schema_value_cong [fundef_cong]:
  assumes "value = value'" and "pointer = pointer'" and "keyword = keyword'"
    and "\<And>v p. value' = Some v \<Longrightarrow> walk v p = walk' v p"
  shows "walk_schema_value walk value pointer keyword = walk_schema_value walk' value' pointer' keyword'"
  using assms by (simp add: walk_schema_value_def split: option.split)

lemma walk_schema_array_cong [fundef_cong]:
  assumes "value = value'" and "pointer = pointer'" and "keyword = keyword'"
    and "\<And>v p. (\<exists>xs. value' = Some (JArray xs) \<and> v \<in> set xs) \<Longrightarrow> walk v p = walk' v p"
  shows "walk_schema_array walk value pointer keyword = walk_schema_array walk' value' pointer' keyword'"
proof (cases value')
  case (Some v)
  show ?thesis
  proof (cases v)
    case (JArray xs)
    have "each (\<lambda>(i, schema). walk schema (pointer_for (pointer_for pointer keyword) (nat_str i)))
          (enumerate 0 xs) =
        each (\<lambda>(i, schema). walk' schema (pointer_for (pointer_for pointer keyword) (nat_str i)))
          (enumerate 0 xs)"
      by (rule each_cong) (use assms(4) Some JArray in \<open>auto simp: in_set_enumerate_eq\<close>)
    then show ?thesis using assms(1-3) Some JArray by (simp add: walk_schema_array_def)
  qed (use assms Some in \<open>simp_all add: walk_schema_array_def\<close>)
qed (use assms in \<open>simp add: walk_schema_array_def\<close>)

definition map_keywords :: "string list" where
  "map_keywords = [''properties'', ''$defs'', ''definitions'', ''dependentSchemas'']"

definition value_keywords :: "string list" where
  "value_keywords = [''items'', ''additionalProperties'', ''not'', ''if'', ''then'', ''else'',
     ''contains'', ''propertyNames'']"

definition array_keywords :: "string list" where
  "array_keywords = [''anyOf'', ''allOf'', ''oneOf'', ''prefixItems'']"

lemma as_object_Some: "as_object j = Some kvs \<longleftrightarrow> j = JObject kvs"
  by (cases j) auto

function walk_schema :: "ProtocolSuite \<Rightarrow> json \<Rightarrow> string \<Rightarrow> StructuredOutputError + unit" where
  "walk_schema target schema pointer =
     (case as_object schema of
        None \<Rightarrow> Inl (SchemaMustBeObject (display_pointer pointer))
      | Some object \<Rightarrow>
          (case List.find (is_known_unsupported_keyword target) (keys_of object) of
             Some keyword \<Rightarrow> Inl (UnsupportedKeyword target (pointer_for pointer keyword) keyword)
           | None \<Rightarrow>
               bind_rust (each (\<lambda>k. walk_schema_map (\<lambda>v p. walk_schema target v p)
                   (map_of object k) pointer k) map_keywords) (\<lambda>_.
               bind_rust (each (\<lambda>k. walk_schema_value (\<lambda>v p. walk_schema target v p)
                   (map_of object k) pointer k) value_keywords) (\<lambda>_.
               each (\<lambda>k. walk_schema_array (\<lambda>v p. walk_schema target v p)
                   (map_of object k) pointer k) array_keywords))))"
  by pat_completeness auto

termination
proof (relation "measure (\<lambda>(target, schema, pointer). size schema)", goal_cases)
  case 1
  show ?case by simp
next
  case (2 target schema pointer object k v p)
  then obtain kvs k' where "map_of object k = Some (JObject kvs)" "(k', v) \<in> set kvs" by blast
  then have "size v < size (JObject object)" using size_in_JObject size_map_of less_trans by blast
  then show ?case using 2 by (simp add: as_object_Some)
next
  case (3 target schema pointer object u k v p)
  then show ?case using size_map_of [of object k v] by (simp add: as_object_Some)
next
  case (4 target schema pointer object u u' k v p)
  then obtain xs where "map_of object k = Some (JArray xs)" "v \<in> set xs" by blast
  then have "size v < size (JObject object)" using size_in_JArray size_map_of less_trans by blast
  then show ?case using 4 by (simp add: as_object_Some)
qed

declare walk_schema.simps [simp del]

definition validate_schema_for_target :: "json \<Rightarrow> ProtocolEndpoint \<Rightarrow> StructuredOutputError + unit" where
  "validate_schema_for_target schema target = walk_schema (pe_suite target) schema []"

definition validate_response_format_for_target ::
    "ResponseFormat option \<Rightarrow> ProtocolEndpoint \<Rightarrow> StructuredOutputError + unit" where
  "validate_response_format_for_target format target =
     (case format of
        Some (JsonSchema name schema strict) \<Rightarrow> validate_schema_for_target schema target
      | _ \<Rightarrow> Inr ())"

text \<open>
  The display text of an error.  The keyword is printed in quotes; it is one of the keywords of the
  table, so nothing in it is escaped.
\<close>

fun structured_error_display :: "StructuredOutputError \<Rightarrow> string" where
  "structured_error_display (SchemaMustBeObject p) = ''JSON Schema at '' @ p @ '' must be an object''"
| "structured_error_display (UnsupportedKeyword t p k) =
     ''JSON Schema keyword \"'' @ k @ ''\" at '' @ p @ '' is not supported by '' @ suite_label t"
| "structured_error_display (InvalidSchemaContainer p e) =
     ''JSON Schema value at '' @ p @ '' must be '' @ e"

subsection \<open>What is rejected\<close>

text \<open>A schema the target cannot express, somewhere among its subschemas.\<close>

inductive faulty :: "ProtocolSuite \<Rightarrow> json \<Rightarrow> bool" for t where
  not_object: "as_object s = None \<Longrightarrow> faulty t s"
| keyword: "k \<in> set (keys_of kvs) \<Longrightarrow> is_known_unsupported_keyword t k \<Longrightarrow> faulty t (JObject kvs)"
| map_container: "k \<in> set map_keywords \<Longrightarrow> map_of kvs k = Some v \<Longrightarrow> as_object v = None \<Longrightarrow>
    faulty t (JObject kvs)"
| map_member: "k \<in> set map_keywords \<Longrightarrow> map_of kvs k = Some (JObject m) \<Longrightarrow> (n, v) \<in> set m \<Longrightarrow>
    faulty t v \<Longrightarrow> faulty t (JObject kvs)"
| value_member: "k \<in> set value_keywords \<Longrightarrow> map_of kvs k = Some v \<Longrightarrow>
    \<not> (is_boolean v \<and> k = ''additionalProperties'') \<Longrightarrow> faulty t v \<Longrightarrow> faulty t (JObject kvs)"
| array_container: "k \<in> set array_keywords \<Longrightarrow> map_of kvs k = Some v \<Longrightarrow> as_array v = None \<Longrightarrow>
    faulty t (JObject kvs)"
| array_member: "k \<in> set array_keywords \<Longrightarrow> map_of kvs k = Some (JArray xs) \<Longrightarrow> v \<in> set xs \<Longrightarrow>
    faulty t v \<Longrightarrow> faulty t (JObject kvs)"

lemma as_array_Some: "as_array j = Some xs \<longleftrightarrow> j = JArray xs"
  by (cases j) auto

lemma walk_schema_map_ok:
  "walk_schema_map walk value pointer k = Inr () \<longleftrightarrow>
     (\<forall>v. value = Some v \<longrightarrow> (\<exists>m. v = JObject m \<and>
        (\<forall>(n, s)\<in>set m. walk s (pointer_for (pointer_for pointer k) n) = Inr ())))"
  by (auto simp: walk_schema_map_def each_ok as_object_Some split: option.splits)

lemma walk_schema_value_ok:
  "walk_schema_value walk value pointer k = Inr () \<longleftrightarrow>
     (\<forall>v. value = Some v \<longrightarrow> \<not> (is_boolean v \<and> k = ''additionalProperties'') \<longrightarrow>
        walk v (pointer_for pointer k) = Inr ())"
  by (auto simp: walk_schema_value_def split: option.splits)

lemma ball_enumerate: "(\<forall>x\<in>set (enumerate 0 xs). P x) \<longleftrightarrow> (\<forall>i < length xs. P (i, xs ! i))"
  by (auto simp: in_set_enumerate_eq)

lemma walk_schema_array_ok:
  "walk_schema_array walk value pointer k = Inr () \<longleftrightarrow>
     (\<forall>v. value = Some v \<longrightarrow> (\<exists>xs. v = JArray xs \<and>
        (\<forall>i < length xs. walk (xs ! i) (pointer_for (pointer_for pointer k) (nat_str i)) = Inr ())))"
  by (auto simp: walk_schema_array_def each_ok as_array_Some ball_enumerate split: option.splits)

lemma bind_unit_ok: "bind_rust (m :: 'e + unit) f = Inr () \<longleftrightarrow> m = Inr () \<and> f () = Inr ()"
  by (cases m) auto

lemma walk_schema_ok:
  "walk_schema t (JObject kvs) pointer = Inr () \<longleftrightarrow>
     (\<forall>k\<in>set (keys_of kvs). \<not> is_known_unsupported_keyword t k) \<and>
     (\<forall>k\<in>set map_keywords. walk_schema_map (walk_schema t) (map_of kvs k) pointer k = Inr ()) \<and>
     (\<forall>k\<in>set value_keywords. walk_schema_value (walk_schema t) (map_of kvs k) pointer k = Inr ()) \<and>
     (\<forall>k\<in>set array_keywords. walk_schema_array (walk_schema t) (map_of kvs k) pointer k = Inr ())"
proof -
  have "(case List.find (is_known_unsupported_keyword t) (keys_of kvs) of Some k \<Rightarrow> False | None \<Rightarrow> True)
      \<longleftrightarrow> (\<forall>k\<in>set (keys_of kvs). \<not> is_known_unsupported_keyword t k)"
    using find_None_iff [of "is_known_unsupported_keyword t" "keys_of kvs"]
    by (cases "List.find (is_known_unsupported_keyword t) (keys_of kvs)") auto
  then show ?thesis
    by (subst walk_schema.simps) (auto simp: bind_unit_ok each_ok split: option.splits)
qed

lemma faulty_rejected: "faulty t s \<Longrightarrow> walk_schema t s pointer \<noteq> Inr ()"
proof (induction arbitrary: pointer rule: faulty.induct)
  case (not_object s)
  then show ?case by (simp add: walk_schema.simps)
next
  case (map_member k kvs m n v)
  then show ?case by (fastforce simp: walk_schema_ok walk_schema_map_ok)
next
  case (array_member k kvs xs v)
  then obtain i where "i < length xs" "v = xs ! i" by (metis in_set_conv_nth)
  with array_member show ?case unfolding walk_schema_ok walk_schema_array_ok by blast
next
  case (map_container k kvs v)
  then have "walk_schema_map (walk_schema t) (map_of kvs k) pointer k \<noteq> Inr ()"
    by (simp add: walk_schema_map_def)
  with map_container(1) show ?case unfolding walk_schema_ok by blast
next
  case (array_container k kvs v)
  then have "walk_schema_array (walk_schema t) (map_of kvs k) pointer k \<noteq> Inr ()"
    by (simp add: walk_schema_array_def)
  with array_container(1) show ?case unfolding walk_schema_ok by blast
next
  case (keyword k kvs)
  then show ?case unfolding walk_schema_ok by blast
next
  case (value_member k kvs v)
  then show ?case unfolding walk_schema_ok walk_schema_value_ok by blast
qed

lemma rejected_faulty: "walk_schema t s pointer \<noteq> Inr () \<Longrightarrow> faulty t s"
proof (induction "size s" arbitrary: s pointer rule: less_induct)
  case less
  show ?case
  proof (cases "as_object s")
    case (Some kvs)
    then have s: "s = JObject kvs" by (simp add: as_object_Some)
    have map_case: "faulty t s" if "k \<in> set map_keywords"
      "walk_schema_map (walk_schema t) (map_of kvs k) pointer k \<noteq> Inr ()" for k
    proof -
      from that(2) obtain v where v: "map_of kvs k = Some v" by (auto simp: walk_schema_map_ok)
      show ?thesis
      proof (cases "as_object v")
        case None
        then show ?thesis unfolding s by (rule faulty.map_container [OF that(1) v])
      next
        case (Some m)
        then have vm: "v = JObject m" by (simp add: as_object_Some)
        with that(2) v obtain n w where w: "(n, w) \<in> set m"
          "walk_schema t w (pointer_for (pointer_for pointer k) n) \<noteq> Inr ()"
          by (auto simp: walk_schema_map_ok)
        have "size w < size s" using size_in_JObject [OF w(1)] size_map_of [OF v] vm s by simp
        from less.hyps [OF this w(2)] show ?thesis
          unfolding s using faulty.map_member [OF that(1) _ w(1)] v vm by blast
      qed
    qed
    have value_case: "faulty t s" if "k \<in> set value_keywords"
      "walk_schema_value (walk_schema t) (map_of kvs k) pointer k \<noteq> Inr ()" for k
    proof -
      from that(2) obtain v where v: "map_of kvs k = Some v" "\<not> (is_boolean v \<and> k = ''additionalProperties'')"
        "walk_schema t v (pointer_for pointer k) \<noteq> Inr ()" by (auto simp: walk_schema_value_ok)
      have "size v < size s" using size_map_of [OF v(1)] s by simp
      from less.hyps [OF this v(3)] show ?thesis
        unfolding s by (rule faulty.value_member [OF that(1) v(1,2)])
    qed
    have array_case: "faulty t s" if "k \<in> set array_keywords"
      "walk_schema_array (walk_schema t) (map_of kvs k) pointer k \<noteq> Inr ()" for k
    proof -
      from that(2) obtain v where v: "map_of kvs k = Some v" by (auto simp: walk_schema_array_ok)
      show ?thesis
      proof (cases "as_array v")
        case None
        then show ?thesis unfolding s by (rule faulty.array_container [OF that(1) v])
      next
        case (Some xs)
        then have vx: "v = JArray xs" by (simp add: as_array_Some)
        with that(2) v obtain i where i: "i < length xs"
          "walk_schema t (xs ! i) (pointer_for (pointer_for pointer k) (nat_str i)) \<noteq> Inr ()"
          by (auto simp: walk_schema_array_ok)
        have "size (xs ! i) < size s"
          using size_in_JArray [OF nth_mem [OF i(1)]] size_map_of [OF v] vx s by simp
        from less.hyps [OF this i(2)] show ?thesis
          unfolding s using faulty.array_member [OF that(1) _ nth_mem [OF i(1)]] v vx by blast
      qed
    qed
    from less.prems s map_case value_case array_case show ?thesis
      unfolding s walk_schema_ok using faulty.keyword [of _ kvs t] by blast
  qed (rule faulty.not_object)
qed

text \<open>
  C36.  The schema check is complete and exact: a schema is accepted for a target if and only if none of
  its subschemas, reached through any of the schema-bearing keywords, is malformed or uses a
  keyword the target does not support.
\<close>

theorem schema_check_exact:
  "validate_schema_for_target schema target = Inr () \<longleftrightarrow> \<not> faulty (pe_suite target) schema"
  using faulty_rejected rejected_faulty unfolding validate_schema_for_target_def by blast


subsection \<open>The reported position\<close>

text \<open>JSON Pointer: the text of a list of tokens, and what it selects in a value.\<close>

definition pointer_text :: "string list \<Rightarrow> string" where
  "pointer_text tokens = concat (map (\<lambda>t. ''/'' @ escape t) tokens)"

fun select1 :: "json \<Rightarrow> string \<Rightarrow> json option" where
  "select1 (JObject kvs) t = map_of kvs t"
| "select1 (JArray xs) t =
     (case digits_val 10 0 t of Some i \<Rightarrow> if i < length xs then Some (xs ! i) else None | None \<Rightarrow> None)"
| "select1 _ t = None"

fun select :: "json \<Rightarrow> string list \<Rightarrow> json option" where
  "select j [] = Some j"
| "select j (t # ts) = Option.bind (select1 j t) (\<lambda>v. select v ts)"

lemma select_append: "select j (xs @ ys) = Option.bind (select j xs) (\<lambda>v. select v ys)"
  by (induction xs arbitrary: j) (auto split: bind_splits)

lemma pointer_for_text: "pointer_for (pointer_text ts) t = pointer_text (ts @ [t])"
  by (simp add: pointer_for_def pointer_text_def)

lemma wf_entry: "wf_json (JObject kvs) \<Longrightarrow> (k, v) \<in> set kvs \<Longrightarrow> map_of kvs k = Some v \<and> wf_json v"
  by (auto simp: list_all_iff strict_sorted_iff intro!: map_of_is_SomeI)

lemma wf_map_of: "wf_json (JObject kvs) \<Longrightarrow> map_of kvs k = Some v \<Longrightarrow> wf_json v"
  using wf_entry [of kvs k v] map_of_SomeD by fast

lemma wf_elem: "wf_json (JArray xs) \<Longrightarrow> i < length xs \<Longrightarrow> wf_json (xs ! i)"
  by (simp add: list_all_length)

lemma select_elem: "i < length xs \<Longrightarrow> select1 (JArray xs) (nat_str i) = Some (xs ! i)"
  by (simp add: digits_val_nat_str)

text \<open>Where an error of a walk comes from: this object, or a member of it.\<close>

lemma walk_schema_map_error:
  assumes "walk_schema_map walk value p k = Inl e"
  shows "(\<exists>q x. e = InvalidSchemaContainer q x) \<or> (\<exists>m n v. value = Some (JObject m) \<and> (n, v) \<in> set m \<and>
    walk v (pointer_for (pointer_for p k) n) = Inl e)"
  using assms by (auto simp: walk_schema_map_def as_object_Some split: option.splits dest!: each_error)

lemma walk_schema_value_error:
  "walk_schema_value walk value p k = Inl e \<Longrightarrow> \<exists>v. value = Some v \<and> walk v (pointer_for p k) = Inl e"
  by (auto simp: walk_schema_value_def split: option.splits if_splits)

lemma walk_schema_array_error:
  assumes "walk_schema_array walk value p k = Inl e"
  shows "(\<exists>q x. e = InvalidSchemaContainer q x) \<or> (\<exists>xs i. value = Some (JArray xs) \<and> i < length xs \<and>
    walk (xs ! i) (pointer_for (pointer_for p k) (nat_str i)) = Inl e)"
  using assms by (auto simp: walk_schema_array_def as_array_Some in_set_enumerate_eq
      split: option.splits dest!: each_error)

lemma bind_unit_error: "bind_rust (m :: 'e + unit) f = Inl e \<Longrightarrow> m = Inl e \<or> f () = Inl e"
  by (cases m) auto

lemma walk_schema_error:
  assumes "walk_schema t (JObject kvs) p = Inl e"
  shows "(\<exists>k\<in>set (keys_of kvs). is_known_unsupported_keyword t k \<and>
       e = UnsupportedKeyword t (pointer_for p k) k) \<or>
    (\<exists>k. walk_schema_map (walk_schema t) (map_of kvs k) p k = Inl e) \<or>
    (\<exists>k. walk_schema_value (walk_schema t) (map_of kvs k) p k = Inl e) \<or>
    (\<exists>k. walk_schema_array (walk_schema t) (map_of kvs k) p k = Inl e)"
proof (cases "List.find (is_known_unsupported_keyword t) (keys_of kvs)")
  case None
  with assms have "bind_rust (each (\<lambda>k. walk_schema_map (walk_schema t) (map_of kvs k) p k) map_keywords) (\<lambda>_.
     bind_rust (each (\<lambda>k. walk_schema_value (walk_schema t) (map_of kvs k) p k) value_keywords) (\<lambda>_.
     each (\<lambda>k. walk_schema_array (walk_schema t) (map_of kvs k) p k) array_keywords)) = Inl e"
    by (simp add: walk_schema.simps [of t "JObject kvs"])
  then show ?thesis by (auto dest!: bind_unit_error each_error)
next
  case (Some k)
  with assms have e: "e = UnsupportedKeyword t (pointer_for p k) k"
    by (simp add: walk_schema.simps [of t "JObject kvs"])
  from Some obtain i where "i < length (keys_of kvs)" "is_known_unsupported_keyword t (keys_of kvs ! i)"
    "k = keys_of kvs ! i" by (auto simp: find_Some_iff)
  then show ?thesis using e nth_mem by blast
qed

lemma unsupported_position:
  "walk_schema t s (pointer_text ts) = Inl (UnsupportedKeyword u q k) \<Longrightarrow> wf_json s \<Longrightarrow>
    u = t \<and> is_known_unsupported_keyword t k \<and>
    (\<exists>us. q = pointer_text (ts @ us @ [k]) \<and> select s (us @ [k]) \<noteq> None)"
proof (induction "size s" arbitrary: s ts rule: less_induct)
  case less
  let ?e = "UnsupportedKeyword u q k"
  obtain kvs where s: "s = JObject kvs"
    using less.prems(1) by (cases "as_object s") (auto simp: walk_schema.simps as_object_Some)
  have sub: ?case
    if "select s us' = Some v" "size v < size s" "wf_json v"
      "walk_schema t v (pointer_text (ts @ us')) = Inl ?e" for v us'
  proof -
    from less.hyps [OF that(2,4,3)] obtain us where "u = t" "is_known_unsupported_keyword t k"
      "q = pointer_text ((ts @ us') @ us @ [k])" "select v (us @ [k]) \<noteq> None" by auto
    then show ?thesis using that(1)
      by (intro conjI exI [of _ "us' @ us"]) (simp_all add: select_append)
  qed
  from walk_schema_error [OF less.prems(1) [unfolded s]]
  consider (here) "k \<in> set (keys_of kvs)" "is_known_unsupported_keyword t k" "u = t"
      "q = pointer_for (pointer_text ts) k"
    | (in_map) c m n v where "map_of kvs c = Some (JObject m)" "(n, v) \<in> set m"
      "walk_schema t v (pointer_text (ts @ [c, n])) = Inl ?e"
    | (in_value) c v where "map_of kvs c = Some v" "walk_schema t v (pointer_text (ts @ [c])) = Inl ?e"
    | (in_array) c xs i where "map_of kvs c = Some (JArray xs)" "i < length xs"
      "walk_schema t (xs ! i) (pointer_text (ts @ [c, nat_str i])) = Inl ?e"
    by (fastforce dest: walk_schema_map_error walk_schema_value_error walk_schema_array_error
        simp: pointer_for_text)
  then show ?case
  proof cases
    case here
    have "map_of kvs k \<noteq> None" using here(1) by (simp add: map_of_eq_None_iff)
    with here s show ?thesis by (auto simp: pointer_for_text intro!: exI [of _ "[]"])
  next
    case in_map
    have wf: "wf_json (JObject m)" using wf_map_of less.prems(2) s in_map(1) by blast
    show ?thesis
    proof (rule sub [of "[c, n]" v])
      show "size v < size s" using size_in_JObject [OF in_map(2)] size_map_of [OF in_map(1)] s by simp
    qed (use in_map wf_entry [OF wf in_map(2)] s in simp_all)
  next
    case in_value
    show ?thesis
      by (rule sub [of "[c]" v]) (use in_value s less.prems(2) wf_map_of size_map_of [OF in_value(1)] in auto)
  next
    case in_array
    have wf: "wf_json (JArray xs)" using wf_map_of less.prems(2) s in_array(1) by blast
    show ?thesis
    proof (rule sub [of "[c, nat_str i]" "xs ! i"])
      show "size (xs ! i) < size s"
        using size_in_JArray [OF nth_mem [OF in_array(2)]] size_map_of [OF in_array(1)] s by simp
    qed (use in_array wf_elem [OF wf in_array(2)] s select_elem in simp_all)
  qed
qed

text \<open>
  The reported position is right: the pointer in the error for an unsupported keyword is the
  JSON Pointer of an occurrence of that keyword in the schema the client sent.
\<close>

theorem unsupported_keyword_located:
  assumes "validate_schema_for_target schema target = Inl (UnsupportedKeyword u q k)"
    and "wf_json schema"
  shows "u = pe_suite target \<and> is_known_unsupported_keyword u k \<and>
    (\<exists>path. q = pointer_text (path @ [k]) \<and> select schema (path @ [k]) \<noteq> None)"
  using unsupported_position [of "pe_suite target" schema "[]" u q k] assms
  by (auto simp: validate_schema_for_target_def pointer_text_def)

text \<open>A property with a numeric bound, for a target that has none.\<close>

definition bounded_schema :: json where
  "bounded_schema = JObject [(''properties'', JObject [(''score'', JObject [(''minimum'',
     JNumber (PosInt 0)), (''type'', JString ''number'')])]), (''type'', JString ''object'')]"

theorem unsupported_keyword_located_witness:
  "validate_schema_for_target bounded_schema (default_endpoint AnthropicMessages) =
     Inl (UnsupportedKeyword AnthropicMessages ''/properties/score/minimum'' ''minimum'') \<and>
   (\<exists>path. ''/properties/score/minimum'' = pointer_text (path @ [''minimum'']) \<and>
      select bounded_schema (path @ [''minimum'']) \<noteq> None)"
proof -
  have run: "validate_schema_for_target bounded_schema (default_endpoint AnthropicMessages) =
     Inl (UnsupportedKeyword AnthropicMessages ''/properties/score/minimum'' ''minimum'')"
    by code_simp
  moreover have "wf_json bounded_schema" by code_simp
  ultimately show ?thesis using unsupported_keyword_located by blast
qed

end
