(* ===== verification/Lossy.thy ===== *)
theory Lossy
  imports Structured_Output
begin

section \<open>Lossy conversions\<close>

text \<open>
  The model of \<^verbatim>\<open>crates/core/src/protocol/lossy.rs\<close>: the check that rejects a request whose conversion
  to the egress protocol would drop something.  One definition per test of the source, then
  \<open>check_lossy_conversion\<close> with the tests in the order of the code.
\<close>

datatype LossyDimension = ToolCalling | ParallelToolCalls | ToolChoiceRequired | ToolChoiceSpecific
  | MediaSourceUnsupported | StructuredOutput | HostedTools | CustomTools | ProgrammaticToolCalling
  | Verbosity_dim | PromptCacheBreakpoint_dim | ExtendedReasoning | MultiAgent

fun dimension_label :: "LossyDimension \<Rightarrow> string" where
  "dimension_label ToolCalling = ''tool_calling''"
| "dimension_label ParallelToolCalls = ''parallel_tool_calls''"
| "dimension_label ToolChoiceRequired = ''tool_choice=required''"
| "dimension_label ToolChoiceSpecific = ''tool_choice=specific_function''"
| "dimension_label MediaSourceUnsupported = ''media_source''"
| "dimension_label StructuredOutput = ''response_format (structured output)''"
| "dimension_label HostedTools = ''hosted_tools''"
| "dimension_label CustomTools = ''custom_tools''"
| "dimension_label ProgrammaticToolCalling = ''programmatic_tool_calling''"
| "dimension_label Verbosity_dim = ''verbosity''"
| "dimension_label PromptCacheBreakpoint_dim = ''prompt_cache_breakpoint''"
| "dimension_label ExtendedReasoning = ''extended_reasoning''"
| "dimension_label MultiAgent = ''multi_agent''"

definition lossy_error :: "LossyDimension \<Rightarrow> ProtocolEndpoint \<Rightarrow> string \<Rightarrow> Error" where
  "lossy_error d egress hint = LossyRejection (dimension_label d @
     '' not supported by target protocol '' @ suite_label (pe_suite egress) @ '' (egress='' @
     pe_name egress @ ''/'' @ pe_version egress @ '', hint: '' @ hint @ '')'')"

fun media_kind :: "MediaSource \<Rightarrow> string" where
  "media_kind (Inline _) = ''inline''"
| "media_kind (Url _) = ''url''"
| "media_kind (FileId _) = ''file_id''"

definition media_source_dimension :: "MediaSource \<Rightarrow> ProtocolEndpoint \<Rightarrow> EndpointCapabilities \<Rightarrow>
    LossyDimension option" where
  "media_source_dimension src egress caps =
     (if \<not> multimodal caps then Some MediaSourceUnsupported
      else case src of
        Inline _ \<Rightarrow> None
      | Url _ \<Rightarrow> if pe_suite egress = AnthropicMessages then Some MediaSourceUnsupported else None
      | FileId _ \<Rightarrow> if pe_suite egress = OpenAiResponses then None else Some MediaSourceUnsupported)"

definition all_content :: "IrRequest \<Rightarrow> Content list" where
  "all_content req = concat (map msg_content (ir_messages req))"

definition has_required_choice :: "IrRequest \<Rightarrow> bool" where
  "has_required_choice req \<longleftrightarrow> Option.bind (ir_extensions req ''tool_choice'') as_str = Some ''required''"

definition has_specific_choice :: "IrRequest \<Rightarrow> bool" where
  "has_specific_choice req \<longleftrightarrow>
     Option.bind (Option.bind (ir_extensions req ''tool_choice'') (\<lambda>v. get v ''type'')) as_str
       = Some ''function''"

fun first_media_loss :: "ProtocolEndpoint \<Rightarrow> EndpointCapabilities \<Rightarrow> Content list \<Rightarrow>
    (LossyDimension \<times> Error) option" where
  "first_media_loss egress caps [] = None"
| "first_media_loss egress caps (Media src mime meta bp # rest) =
     (case media_source_dimension src egress caps of
        Some d \<Rightarrow> Some (d, lossy_error d egress
          (''media part with kind \"'' @ media_kind src @ ''\"''))
      | None \<Rightarrow> first_media_loss egress caps rest)"
| "first_media_loss egress caps (_ # rest) = first_media_loss egress caps rest"

definition constrained_format :: "IrRequest \<Rightarrow> bool" where
  "constrained_format req \<longleftrightarrow>
     ir_response_format req \<noteq> None \<and> ir_response_format req \<noteq> Some Text_format"

definition openai_egress :: "ProtocolEndpoint \<Rightarrow> bool" where
  "openai_egress egress \<longleftrightarrow> pe_suite egress = OpenAiCompatible \<or> pe_suite egress = OpenAiResponses"

fun programmatic_content :: "Content \<Rightarrow> bool" where
  "programmatic_content (Program _ _ _ _) = True"
| "programmatic_content (ProgramOutput _ _ _ _) = True"
| "programmatic_content (ToolCall _ _ _ _ (Some _) _) = True"
| "programmatic_content (ToolResult _ _ _ _ (Some _) _) = True"
| "programmatic_content _ = False"

definition programmatic_tool :: "Tool \<Rightarrow> bool" where
  "programmatic_tool t \<longleftrightarrow> is_function t \<and>
     Option.bind (tool_config t) (\<lambda>c. get c ''allowed_callers'') \<noteq> None"

fun breakpoint_content :: "Content \<Rightarrow> bool" where
  "breakpoint_content (Text _ _ (Some _)) = True"
| "breakpoint_content (Media _ _ _ (Some _)) = True"
| "breakpoint_content _ = False"

fun reasoning_content :: "Content \<Rightarrow> bool" where
  "reasoning_content (Reasoning _ _ _ _) = True"
| "reasoning_content _ = False"

definition responses_reasoning_controls :: "IrRequest \<Rightarrow> bool" where
  "responses_reasoning_controls req \<longleftrightarrow> (case thinking (ir_params req) of
     Some tc \<Rightarrow> tc_mode tc \<noteq> None \<or> tc_context tc \<noteq> None | None \<Rightarrow> False)"

definition multi_agent_config :: "IrRequest \<Rightarrow> bool" where
  "multi_agent_config req \<longleftrightarrow>
     Option.bind (ir_extensions req ''responses_extra'') (\<lambda>v. get v ''multi_agent'') \<noteq> None"

definition multi_agent_items :: "IrRequest \<Rightarrow> bool" where
  "multi_agent_items req \<longleftrightarrow>
     (case Option.bind (ir_extensions req ''multi_agent_items'') as_array of
        Some items \<Rightarrow> items \<noteq> [] | None \<Rightarrow> False)"

definition check_lossy_conversion :: "IrRequest \<Rightarrow> ProtocolEndpoint \<Rightarrow> EndpointCapabilities \<Rightarrow>
    (LossyDimension \<times> Error) + unit" where
  "check_lossy_conversion req egress caps =
     (let reject = (\<lambda>d hint. Inl (d, lossy_error d egress hint)) in
      if ir_tools req \<noteq> [] \<and> \<not> function_calling caps then reject ToolCalling ''tools''
      else if list_ex tool_required (ir_tools req) \<and> \<not> parallel_tool_calls caps
        then reject ParallelToolCalls ''tools marked required (parallel_tool_calls)''
      else if has_required_choice req \<and> \<not> tool_choice_required caps
        then reject ToolChoiceRequired ''tool_choice=required''
      else if has_specific_choice req \<and> \<not> tool_choice_required caps
        then reject ToolChoiceSpecific ''tool_choice={type:function,name:...}''
      else case first_media_loss egress caps (all_content req) of
        Some loss \<Rightarrow> Inl loss
      | None \<Rightarrow>
      if constrained_format req \<and> \<not> structured_output caps
        then reject StructuredOutput ''response_format (json_schema/json_object)''
      else case validate_response_format_for_target (ir_response_format req) egress of
        Inl e \<Rightarrow> reject StructuredOutput (structured_error_display e)
      | Inr _ \<Rightarrow>
      if list_ex is_hosted (ir_tools req) \<and> \<not> hosted_tools caps
        then reject HostedTools ''non-function hosted tool definition''
      else if list_ex is_custom (ir_tools req) \<and> \<not> openai_egress egress
        then reject CustomTools ''custom tool definition (OpenAI-only)''
      else if (list_ex programmatic_content (all_content req) \<or>
               list_ex programmatic_tool (ir_tools req)) \<and> \<not> programmatic_tool_calling caps
        then reject ProgrammaticToolCalling ''program/program_output/caller relationship''
      else if verbosity (ir_params req) \<noteq> None \<and> \<not> openai_egress egress
        then reject Verbosity_dim ''text verbosity''
      else if list_ex breakpoint_content (all_content req) \<and> \<not> openai_egress egress
        then reject PromptCacheBreakpoint_dim ''explicit content-block cache breakpoint''
      else if list_ex reasoning_content (all_content req) \<and> \<not> extended_reasoning caps
        then reject ExtendedReasoning ''reasoning content''
      else if responses_reasoning_controls req \<and> pe_suite egress \<noteq> OpenAiResponses
        then reject ExtendedReasoning ''Responses-only reasoning.mode or reasoning.context''
      else if (multi_agent_config req \<or> multi_agent_items req) \<and> pe_suite egress \<noteq> OpenAiResponses
        then reject MultiAgent ''multi_agent config or multi_agent_call items (Responses-only)''
      else Inr ())"

subsection \<open>What a conversion loses\<close>

fun media_lost :: "ProtocolEndpoint \<Rightarrow> EndpointCapabilities \<Rightarrow> Content \<Rightarrow> bool" where
  "media_lost egress caps (Media src _ _ _) \<longleftrightarrow>
     \<not> multimodal caps \<or>
     pe_suite egress = AnthropicMessages \<and> media_kind src = ''url'' \<or>
     pe_suite egress \<noteq> OpenAiResponses \<and> media_kind src = ''file_id''"
| "media_lost egress caps _ \<longleftrightarrow> False"

fun schema_unfit :: "ProtocolSuite \<Rightarrow> ResponseFormat option \<Rightarrow> bool" where
  "schema_unfit suite (Some (JsonSchema _ schema _)) \<longleftrightarrow> faulty suite schema"
| "schema_unfit suite _ \<longleftrightarrow> False"

text \<open>What the request says that the egress protocol has no place for, dimension by dimension.\<close>

fun loses :: "IrRequest \<Rightarrow> ProtocolEndpoint \<Rightarrow> EndpointCapabilities \<Rightarrow> LossyDimension \<Rightarrow> bool" where
  "loses req egress caps ToolCalling \<longleftrightarrow> ir_tools req \<noteq> [] \<and> \<not> function_calling caps"
| "loses req egress caps ParallelToolCalls \<longleftrightarrow>
     (\<exists>t\<in>set (ir_tools req). tool_required t) \<and> \<not> parallel_tool_calls caps"
| "loses req egress caps ToolChoiceRequired \<longleftrightarrow> has_required_choice req \<and> \<not> tool_choice_required caps"
| "loses req egress caps ToolChoiceSpecific \<longleftrightarrow> has_specific_choice req \<and> \<not> tool_choice_required caps"
| "loses req egress caps MediaSourceUnsupported \<longleftrightarrow>
     (\<exists>c\<in>set (all_content req). media_lost egress caps c)"
| "loses req egress caps StructuredOutput \<longleftrightarrow>
     constrained_format req \<and> \<not> structured_output caps \<or>
     schema_unfit (pe_suite egress) (ir_response_format req)"
| "loses req egress caps HostedTools \<longleftrightarrow> (\<exists>t\<in>set (ir_tools req). is_hosted t) \<and> \<not> hosted_tools caps"
| "loses req egress caps CustomTools \<longleftrightarrow> (\<exists>t\<in>set (ir_tools req). is_custom t) \<and> \<not> openai_egress egress"
| "loses req egress caps ProgrammaticToolCalling \<longleftrightarrow>
     ((\<exists>c\<in>set (all_content req). programmatic_content c) \<or>
      (\<exists>t\<in>set (ir_tools req). programmatic_tool t)) \<and> \<not> programmatic_tool_calling caps"
| "loses req egress caps Verbosity_dim \<longleftrightarrow> verbosity (ir_params req) \<noteq> None \<and> \<not> openai_egress egress"
| "loses req egress caps PromptCacheBreakpoint_dim \<longleftrightarrow>
     (\<exists>c\<in>set (all_content req). breakpoint_content c) \<and> \<not> openai_egress egress"
| "loses req egress caps ExtendedReasoning \<longleftrightarrow>
     (\<exists>c\<in>set (all_content req). reasoning_content c) \<and> \<not> extended_reasoning caps \<or>
     responses_reasoning_controls req \<and> pe_suite egress \<noteq> OpenAiResponses"
| "loses req egress caps MultiAgent \<longleftrightarrow>
     (multi_agent_config req \<or> multi_agent_items req) \<and> pe_suite egress \<noteq> OpenAiResponses"

lemma media_dimension: "media_source_dimension src egress caps = Some d \<Longrightarrow> d = MediaSourceUnsupported"
  by (auto simp: media_source_dimension_def split: MediaSource.splits if_splits)

lemma media_dimension_iff:
  "media_source_dimension src egress caps = None \<longleftrightarrow> \<not> media_lost egress caps (Media src mime meta bp)"
  by (cases src) (auto simp: media_source_dimension_def)

lemma first_media_loss_None:
  "first_media_loss egress caps cs = None \<longleftrightarrow> \<not> list_ex (media_lost egress caps) cs"
proof (induction cs)
  case (Cons c cs)
  then show ?case by (cases c) (auto simp flip: media_dimension_iff split: option.split simp del: media_lost.simps(1))
qed simp

lemma first_media_loss_Some:
  "first_media_loss egress caps cs = Some (d, e) \<Longrightarrow> d = MediaSourceUnsupported \<and>
     (\<exists>hint. e = lossy_error d egress hint)"
proof (induction cs)
  case (Cons c cs)
  then show ?case by (cases c) (auto split: option.splits dest: media_dimension)
qed simp

lemma format_valid:
  "validate_response_format_for_target f egress = Inr () \<longleftrightarrow> \<not> schema_unfit (pe_suite egress) f"
proof (cases "\<exists>n schema st. f = Some (JsonSchema n schema st)")
  case True
  then obtain n schema st where f: "f = Some (JsonSchema n schema st)" by blast
  have "walk_schema (pe_suite egress) schema [] = Inr () \<longleftrightarrow> \<not> faulty (pe_suite egress) schema"
    using faulty_rejected rejected_faulty by blast
  then show ?thesis
    by (simp add: f validate_response_format_for_target_def validate_schema_for_target_def)
next
  case False
  then show ?thesis
    by (auto simp: validate_response_format_for_target_def split: option.splits ResponseFormat.splits)
qed

text \<open>The dimensions in the order in which the source tests them.\<close>

definition lossy_order :: "LossyDimension list" where
  "lossy_order = [ToolCalling, ParallelToolCalls, ToolChoiceRequired, ToolChoiceSpecific,
     MediaSourceUnsupported, StructuredOutput, HostedTools, CustomTools, ProgrammaticToolCalling,
     Verbosity_dim, PromptCacheBreakpoint_dim, ExtendedReasoning, MultiAgent]"

lemma lossy_order_complete: "set lossy_order = UNIV"
proof -
  have "d \<in> set lossy_order" for d by (cases d) (simp_all add: lossy_order_def)
  then show ?thesis by blast
qed

subsection \<open>The check and the dimensions\<close>

text \<open>The result of a chain of tests that goes through the dimensions \<open>ds\<close>, and how one test extends it.\<close>

definition settles :: "(LossyDimension \<Rightarrow> bool) \<Rightarrow> ProtocolEndpoint \<Rightarrow> LossyDimension list \<Rightarrow>
    (LossyDimension \<times> Error) + unit \<Rightarrow> bool" where
  "settles L egress ds r \<longleftrightarrow> (case r of
     Inr _ \<Rightarrow> List.find L ds = None
   | Inl (d, e) \<Rightarrow> List.find L ds = Some d \<and> (\<exists>hint. e = lossy_error d egress hint))"

lemma settles_hit: "L d \<Longrightarrow> settles L egress (d # ds) (Inl (d, lossy_error d egress hint))"
  by (auto simp: settles_def)

lemma settles_miss: "\<not> L d \<Longrightarrow> settles L egress (d # ds) r \<longleftrightarrow> settles L egress ds r"
  by (auto simp: settles_def split: sum.split)

lemma settles_done: "settles L egress [] (Inr ())"
  by (simp add: settles_def)

lemma settles_test:
  assumes "c \<longleftrightarrow> L d" "\<not> L d \<Longrightarrow> settles L egress ds r"
  shows "settles L egress (d # ds) (if c then Inl (d, lossy_error d egress hint) else r)"
  using assms by (cases "L d") (auto simp: settles_hit settles_miss)

lemma settles_tests:
  assumes "c \<or> c' \<longleftrightarrow> L d" "\<not> L d \<Longrightarrow> settles L egress ds r"
  shows "settles L egress (d # ds) (if c then Inl (d, lossy_error d egress hint)
    else if c' then Inl (d, lossy_error d egress hint') else r)"
  using assms by (cases "L d") (auto simp: settles_hit settles_miss)

lemma settles_media:
  assumes "\<not> loses req egress caps MediaSourceUnsupported \<Longrightarrow> settles (loses req egress caps) egress ds r"
  shows "settles (loses req egress caps) egress (MediaSourceUnsupported # ds)
    (case first_media_loss egress caps (all_content req) of Some loss \<Rightarrow> Inl loss | None \<Rightarrow> r)"
proof (cases "first_media_loss egress caps (all_content req)")
  case None
  then have "\<not> loses req egress caps MediaSourceUnsupported"
    by (simp add: first_media_loss_None list_ex_iff)
  then show ?thesis using assms None by (simp add: settles_miss)
next
  case (Some l)
  then have "loses req egress caps MediaSourceUnsupported"
    using first_media_loss_None [of egress caps "all_content req"] by (simp add: list_ex_iff)
  moreover obtain hint where "l = (MediaSourceUnsupported, lossy_error MediaSourceUnsupported egress hint)"
    using Some first_media_loss_Some by (cases l) blast
  ultimately show ?thesis using Some by (simp add: settles_hit del: loses.simps)
qed

lemma settles_format:
  assumes "\<not> loses req egress caps StructuredOutput \<Longrightarrow> settles (loses req egress caps) egress ds r"
  shows "settles (loses req egress caps) egress (StructuredOutput # ds)
    (if constrained_format req \<and> \<not> structured_output caps
      then Inl (StructuredOutput, lossy_error StructuredOutput egress hint)
      else case validate_response_format_for_target (ir_response_format req) egress of
        Inl e \<Rightarrow> Inl (StructuredOutput, lossy_error StructuredOutput egress (f e))
      | Inr _ \<Rightarrow> r)"
proof (cases "loses req egress caps StructuredOutput")
  case True
  then show ?thesis using format_valid [of "ir_response_format req" egress]
    by (cases "validate_response_format_for_target (ir_response_format req) egress")
      (auto intro!: settles_hit)
next
  case False
  then show ?thesis using assms format_valid [of "ir_response_format req" egress]
    by (auto simp: settles_miss)
qed

lemma check_settles:
  "settles (loses req egress caps) egress lossy_order (check_lossy_conversion req egress caps)"
  unfolding check_lossy_conversion_def lossy_order_def Let_def
  by (intro settles_tests settles_media settles_format settles_test settles_done)
    (simp_all add: list_ex_iff)


end
