(* ===== verification/Providers.thy ===== *)
theory Providers
  imports Routing
begin

section \<open>Providers\<close>

text \<open>
  The model of \<^verbatim>\<open>crates/providers/src\<close> and \<^verbatim>\<open>crates/core/src/provider/mod.rs\<close>: the built-in providers, what protocol
  they speak for a model, where their API is, how a request to them is authenticated, and the upstream URLs that
  \<^verbatim>\<open>server/src/ingress/executors.rs\<close> builds.  \<open>sha256_hex\<close> is the digest of the \<^verbatim>\<open>sha2\<close> package in hexadecimal digits.
\<close>

subsection \<open>Strings\<close>

definition trim_end_matches :: "char \<Rightarrow> string \<Rightarrow> string" where
  "trim_end_matches c s = rev (dropWhile (\<lambda>x. x = c) (rev s))"

definition strip_suffix :: "string \<Rightarrow> string \<Rightarrow> string option" where
  "strip_suffix p s = map_option rev (strip_prefix (rev p) (rev s))"

definition eq_ignore_ascii_case :: "string \<Rightarrow> string \<Rightarrow> bool" where
  "eq_ignore_ascii_case a b \<longleftrightarrow> to_lowercase a = to_lowercase b"

abbreviation slash :: char where
  "slash \<equiv> CHR ''/''"

lemma trim_end_snoc [simp]: "trim_end_matches c (s @ [c]) = trim_end_matches c s"
  by (simp add: trim_end_matches_def)

lemma trim_end_replicate [simp]: "trim_end_matches c (s @ replicate n c) = trim_end_matches c s"
proof (induction n)
  case (Suc n)
  have "s @ replicate (Suc n) c = (s @ replicate n c) @ [c]" by (simp add: replicate_append_same)
  with Suc show ?case by (simp del: append_assoc replicate.simps)
qed simp

lemma trim_end_other: "s = [] \<or> last s \<noteq> c \<Longrightarrow> trim_end_matches c s = s"
  by (cases s rule: rev_cases) (auto simp: trim_end_matches_def)

lemma strip_suffix_append [simp]: "strip_suffix p (s @ p) = Some s"
  by (simp add: strip_suffix_def strip_prefix_def)

lemma strip_suffix_None: "\<not> suffix p s \<Longrightarrow> strip_suffix p s = None"
  by (simp add: strip_suffix_def strip_prefix_def suffix_to_prefix)

subsection \<open>The provider trait\<close>

text \<open>
  A provider is the record of its methods; \<open>auth_applier\<close> says which applier its \<^verbatim>\<open>auth\<close> returns.  The defaults of the
  trait are \<open>default_egress_protocol\<close> and the unchanged base.
\<close>

datatype auth_applier = BearerAuthApplier | HeaderApiKeyAuthApplier string | BedrockAuthApplier

record Provider_impl =
  prov_id :: string
  base_url :: string
  supported_protocols :: "ProtocolEndpoint list"
  prov_auth :: auth_applier
  egress_protocol_for_model :: "string \<Rightarrow> ProtocolEndpoint"
  egress_api_base :: "string \<Rightarrow> ProtocolEndpoint \<Rightarrow> string"
  extra_headers :: "string \<Rightarrow> (string \<times> string) list"

definition default_egress_protocol :: "ProtocolEndpoint list \<Rightarrow> string \<Rightarrow> ProtocolEndpoint" where
  "default_egress_protocol protocols _ = (case protocols of
     p # _ \<Rightarrow> p | [] \<Rightarrow> default_endpoint OpenAiCompatible)"

definition simple_provider :: "string \<Rightarrow> string \<Rightarrow> ProtocolEndpoint list \<Rightarrow> auth_applier \<Rightarrow>
    (string \<Rightarrow> ProtocolEndpoint) \<Rightarrow> Provider_impl" where
  "simple_provider i url protocols auth egress =
     \<lparr>prov_id = i, base_url = url, supported_protocols = protocols, prov_auth = auth,
      egress_protocol_for_model = egress, egress_api_base = (\<lambda>raw_base _. raw_base), extra_headers = (\<lambda>_. [])\<rparr>"

text \<open>\<^verbatim>\<open>maker/model:provider\<close>: the model without its maker and provider, in lower case.\<close>

definition normalized_model_id :: "string \<Rightarrow> string" where
  "normalized_model_id m = to_lowercase (last (split_on slash (hd (split_on (CHR '':'') m))))"

definition is_image_model :: "string \<Rightarrow> bool" where
  "is_image_model m \<longleftrightarrow> contains (normalized_model_id m) ''image'' \<or> contains (normalized_model_id m) ''dall-e''"

definition chat_endpoint :: ProtocolEndpoint where
  "chat_endpoint = ProtocolEndpoint_new OpenAiCompatible ''chat-completions'' ''v1''"

definition images_endpoint :: ProtocolEndpoint where
  "images_endpoint = ProtocolEndpoint_new OpenAiCompatible ''images-generations'' ''v1''"

definition images_edits_endpoint :: ProtocolEndpoint where
  "images_edits_endpoint = ProtocolEndpoint_new OpenAiCompatible ''images-edits'' ''v1''"

subsection \<open>The built-in providers\<close>

definition AnthropicProvider :: Provider_impl where
  "AnthropicProvider =
     (let protocols = [ProtocolEndpoint_new AnthropicMessages ''messages'' ''2023-06-01'']
      in simple_provider ''anthropic'' ''https://api.anthropic.com/v1'' protocols (HeaderApiKeyAuthApplier ''x-api-key'')
           (default_egress_protocol protocols))"

definition OpenAiProvider :: Provider_impl where
  "OpenAiProvider = simple_provider ''openai'' ''https://api.openai.com/v1''
     [default_endpoint OpenAiResponses, images_endpoint, images_edits_endpoint] BearerAuthApplier
     (\<lambda>m. if is_image_model m then images_endpoint else default_endpoint OpenAiResponses)"

definition deepseek_responses_endpoint :: ProtocolEndpoint where
  "deepseek_responses_endpoint = ProtocolEndpoint_new OpenAiResponses ''deepseek-responses'' ''v1''"

definition uses_chat_completions :: "string \<Rightarrow> bool" where
  "uses_chat_completions m \<longleftrightarrow> normalized_model_id m \<in> {''deepseek-chat'', ''deepseek-reasoner''}"

definition deepseek_api_base :: "string \<Rightarrow> ProtocolSuite \<Rightarrow> string" where
  "deepseek_api_base raw_base suite =
     (let base = trim_end_matches slash raw_base;
          base = trim_end_matches slash (unwrap_or (strip_suffix ''/v1'' base) base)
      in case suite of
           OpenAiResponses \<Rightarrow> base
         | OpenAiCompatible \<Rightarrow> base @ ''/v1''
         | _ \<Rightarrow> trim_end_matches slash raw_base)"

definition DeepSeekProvider :: Provider_impl where
  "DeepSeekProvider = (simple_provider ''deepseek'' ''https://api.deepseek.com''
      [deepseek_responses_endpoint, chat_endpoint] BearerAuthApplier
      (\<lambda>m. if uses_chat_completions m then default_endpoint OpenAiCompatible else deepseek_responses_endpoint))
      \<lparr>egress_api_base := \<lambda>raw_base endpoint. deepseek_api_base raw_base (pe_suite endpoint)\<rparr>"

definition GeminiProvider :: Provider_impl where
  "GeminiProvider = simple_provider ''gemini'' ''https://generativelanguage.googleapis.com/v1beta''
     [ProtocolEndpoint_new GoogleGemini ''generateContent'' ''v1beta''] (HeaderApiKeyAuthApplier ''x-goog-api-key'')
     (\<lambda>_. ProtocolEndpoint_new GoogleGemini ''generateContent'' ''v1beta'')"

definition chat_provider :: "string \<Rightarrow> string \<Rightarrow> Provider_impl" where
  "chat_provider i url = simple_provider i url [chat_endpoint] BearerAuthApplier
     (\<lambda>_. default_endpoint OpenAiCompatible)"

definition MoonshotProvider :: Provider_impl where
  "MoonshotProvider = chat_provider ''moonshot'' ''https://api.moonshot.cn/v1''"

definition OllamaProvider :: Provider_impl where
  "OllamaProvider = chat_provider ''ollama'' ''http://localhost:11434/v1''"

definition XaiProvider :: Provider_impl where
  "XaiProvider = chat_provider ''xai'' ''https://api.x.ai/v1''"

definition ZhipuProvider :: Provider_impl where
  "ZhipuProvider = chat_provider ''zhipu'' ''https://open.bigmodel.cn/api/paas/v4''"

definition OpenRouterProvider :: Provider_impl where
  "OpenRouterProvider =
     (let protocols = [default_endpoint OpenAiResponses]
      in simple_provider ''openrouter'' ''https://openrouter.ai/api/v1'' protocols BearerAuthApplier
           (default_egress_protocol protocols))"

text \<open>\<open>env_base\<close> is the environment variable \<^verbatim>\<open>OPENAI_COMPATIBLE_BASE_URL\<close>.\<close>

definition OpenAiCompatibleProvider :: "string option \<Rightarrow> Provider_impl" where
  "OpenAiCompatibleProvider env_base =
     simple_provider ''openai-compatible'' (unwrap_or env_base ''http://localhost:8080/v1'')
       [chat_endpoint, images_endpoint, images_edits_endpoint] BearerAuthApplier
       (\<lambda>m. if is_image_model m then images_endpoint else default_endpoint OpenAiCompatible)"

definition four_suites :: "ProtocolEndpoint list" where
  "four_suites = [chat_endpoint, ProtocolEndpoint_new OpenAiResponses ''responses'' ''v1'',
     ProtocolEndpoint_new AnthropicMessages ''messages'' ''v1'', ProtocolEndpoint_new GoogleGemini ''generateContent'' ''v1beta'']"

definition opencode_suite_for_model :: "string \<Rightarrow> ProtocolSuite" where
  "opencode_suite_for_model m =
     (let body = normalized_model_id m in
      if is_image_model m then OpenAiCompatible
      else if contains body ''gpt'' then OpenAiResponses
      else if contains body ''claude'' \<or> contains body ''minimax'' \<or> contains body ''qwen'' then AnthropicMessages
      else if contains body ''gemini'' then GoogleGemini
      else OpenAiCompatible)"

definition opencode_egress_protocol_for_model :: "string \<Rightarrow> ProtocolEndpoint" where
  "opencode_egress_protocol_for_model m =
     (if is_image_model m then images_endpoint else default_endpoint (opencode_suite_for_model m))"

definition opencode_provider :: "(string \<Rightarrow> string) \<Rightarrow> string \<Rightarrow> string \<Rightarrow> Provider_impl" where
  "opencode_provider sha256_hex i url = (simple_provider i url four_suites BearerAuthApplier opencode_egress_protocol_for_model)
     \<lparr>extra_headers := \<lambda>caller_key_id. [(''x-opencode-session'', sha256_hex caller_key_id)]\<rparr>"

definition OpenCodeZenProvider :: "(string \<Rightarrow> string) \<Rightarrow> Provider_impl" where
  "OpenCodeZenProvider sha256_hex = opencode_provider sha256_hex ''opencode-zen'' ''https://opencode.ai/zen/v1''"

definition OpenCodeGoProvider :: "(string \<Rightarrow> string) \<Rightarrow> Provider_impl" where
  "OpenCodeGoProvider sha256_hex = opencode_provider sha256_hex ''opencode-go'' ''https://opencode.ai/zen/go/v1''"

definition zenmux_suite_for_model :: "string \<Rightarrow> ProtocolSuite" where
  "zenmux_suite_for_model m =
     (let body = normalized_model_id m in
      if is_image_model m then OpenAiCompatible
      else if contains body ''gpt'' then OpenAiResponses
      else if contains body ''claude'' \<or> contains body ''minimax'' then AnthropicMessages
      else if contains body ''gemini'' then GoogleGemini
      else OpenAiResponses)"

definition api_base_for_suite :: "string \<Rightarrow> ProtocolSuite \<Rightarrow> string" where
  "api_base_for_suite raw_base suite =
     (let base = trim_end_matches slash raw_base;
          base = (case strip_suffix ''/anthropic/v1'' base of
             Some s \<Rightarrow> trim_end_matches slash s
           | None \<Rightarrow> (case strip_suffix ''/v1'' base of
               Some s \<Rightarrow> trim_end_matches slash s
             | None \<Rightarrow> (case strip_suffix ''/v1beta'' base of
                 Some s \<Rightarrow> trim_end_matches slash s | None \<Rightarrow> base)))
      in case suite of
           AnthropicMessages \<Rightarrow> base @ ''/anthropic/v1''
         | GoogleGemini \<Rightarrow> base @ ''/vertex-ai''
         | _ \<Rightarrow> base @ ''/v1'')"

definition ZenMuxProvider :: Provider_impl where
  "ZenMuxProvider = (simple_provider ''zenmux'' ''https://zenmux.ai/api'' four_suites BearerAuthApplier
      (\<lambda>m. if is_image_model m then images_endpoint else default_endpoint (zenmux_suite_for_model m)))
      \<lparr>egress_api_base := \<lambda>raw_base endpoint. api_base_for_suite raw_base (pe_suite endpoint)\<rparr>"

definition BedrockProvider :: Provider_impl where
  "BedrockProvider =
     (let protocols = [ProtocolEndpoint_new AnthropicMessages ''messages'' ''2023-06-01'']
      in simple_provider ''bedrock'' ''https://bedrock-runtime.us-east-1.amazonaws.com'' protocols BedrockAuthApplier
           (default_egress_protocol protocols))"

text \<open>
  The registry.  The Bedrock provider is part of the build only with its feature; the order of the registrations
  is that of the linker and does not matter, because the ids differ.
\<close>

record registry =
  sha256_hex :: "string \<Rightarrow> string"
  compatible_base :: "string option"
  with_bedrock :: bool

definition all_providers :: "registry \<Rightarrow> Provider_impl list" where
  "all_providers reg = [AnthropicProvider, DeepSeekProvider, GeminiProvider, MoonshotProvider, OllamaProvider,
     OpenAiProvider, OpenAiCompatibleProvider (compatible_base reg), OpenCodeZenProvider (sha256_hex reg),
     OpenCodeGoProvider (sha256_hex reg), OpenRouterProvider, XaiProvider, ZenMuxProvider, ZhipuProvider] @
     (if with_bedrock reg then [BedrockProvider] else [])"

definition find_provider :: "registry \<Rightarrow> string \<Rightarrow> Provider_impl option" where
  "find_provider reg i = find (\<lambda>p. prov_id p = i) (all_providers reg)"

subsection \<open>Upstream URLs\<close>

definition upstream_url_for_suite :: "RoutingTarget \<Rightarrow> ProtocolSuite \<Rightarrow> string option" where
  "upstream_url_for_suite target suite = map_option (\<lambda>suffix. trim_end_matches slash (effective_api_base target) @ suffix)
     (upstream_path_suffix suite)"

definition gemini_aware_upstream_url :: "RoutingTarget \<Rightarrow> ProtocolSuite \<Rightarrow> string option" where
  "gemini_aware_upstream_url target suite = (case suite of
     GoogleGemini \<Rightarrow> Some (trim_end_matches slash (effective_api_base target) @ ''/v1beta/models/'' @ model_id target @
       '':generateContent'')
   | _ \<Rightarrow> upstream_url_for_suite target suite)"

definition upstream_stream_url_for_suite :: "RoutingTarget \<Rightarrow> ProtocolSuite \<Rightarrow> string option" where
  "upstream_stream_url_for_suite target suite = (case suite of
     GoogleGemini \<Rightarrow> Some (trim_end_matches slash (effective_api_base target) @ ''/v1beta/models/'' @ model_id target @
       '':streamGenerateContent?alt=sse'')
   | _ \<Rightarrow> upstream_url_for_suite target suite)"

subsection \<open>The registry is a map\<close>

lemma distinct_ids: "distinct (map prov_id (all_providers reg))"
  by (simp add: all_providers_def AnthropicProvider_def DeepSeekProvider_def GeminiProvider_def MoonshotProvider_def
      OllamaProvider_def OpenAiProvider_def OpenAiCompatibleProvider_def OpenCodeZenProvider_def OpenCodeGoProvider_def
      OpenRouterProvider_def XaiProvider_def ZenMuxProvider_def ZhipuProvider_def BedrockProvider_def chat_provider_def
      opencode_provider_def simple_provider_def Let_def)

lemma find_provider_iff: "find_provider reg i = Some p \<longleftrightarrow> p \<in> set (all_providers reg) \<and> prov_id p = i"
proof -
  have "distinct (map prov_id ps) \<Longrightarrow> find (\<lambda>p. prov_id p = i) ps = Some p \<longleftrightarrow> p \<in> set ps \<and> prov_id p = i" for ps
    by (induction ps) auto
  with distinct_ids show ?thesis by (simp add: find_provider_def)
qed

subsection \<open>Base addresses\<close>

lemma trim_suffix [simp]: "p \<noteq> [] \<Longrightarrow> last p \<noteq> slash \<Longrightarrow> trim_end_matches slash (s @ p) = s @ p"
  by (rule trim_end_other) simp

text \<open>An address without a version segment and a slash at its end.\<close>

definition bare_base :: "string \<Rightarrow> bool" where
  "bare_base b \<longleftrightarrow> (b = [] \<or> last b \<noteq> slash) \<and> \<not> suffix ''/v1'' b \<and> \<not> suffix ''/v1beta'' b \<and> \<not> suffix ''/anthropic'' b"

lemma trim_spelling:
  assumes "bare_base b" and "v = [] \<or> last v \<noteq> slash"
  shows "trim_end_matches slash (b @ v @ replicate n slash) = b @ v"
proof -
  have "trim_end_matches slash ((b @ v) @ replicate n slash) = trim_end_matches slash (b @ v)" by (rule trim_end_replicate)
  moreover have "trim_end_matches slash (b @ v) = b @ v"
    using assms by (intro trim_end_other) (cases "v = []"; auto simp: bare_base_def)
  ultimately show ?thesis by simp
qed

lemma strip_bare:
  assumes "bare_base b"
  shows "strip_suffix ''/v1'' b = None" "strip_suffix ''/v1beta'' b = None" "strip_suffix ''/anthropic/v1'' b = None"
    "strip_suffix ''/anthropic/v1'' (b @ ''/v1'') = None" "strip_suffix ''/v1'' (b @ ''/v1beta'') = None"
    "strip_suffix ''/anthropic/v1'' (b @ ''/v1beta'') = None" "trim_end_matches slash b = b"
proof -
  have "suffix ''/anthropic/v1'' b \<Longrightarrow> suffix ''/v1'' b" by (auto simp: suffix_def)
  moreover have "suffix ''/anthropic/v1'' (b @ ''/v1'') \<Longrightarrow> suffix ''/anthropic'' b" by (auto simp: suffix_def)
  moreover have "\<not> suffix ''/v1'' (b @ ''/v1beta'')" "\<not> suffix ''/anthropic/v1'' (b @ ''/v1beta'')" by (auto simp: suffix_def)
  ultimately show "strip_suffix ''/v1'' b = None" "strip_suffix ''/v1beta'' b = None" "strip_suffix ''/anthropic/v1'' b = None"
    "strip_suffix ''/anthropic/v1'' (b @ ''/v1'') = None" "strip_suffix ''/v1'' (b @ ''/v1beta'') = None"
    "strip_suffix ''/anthropic/v1'' (b @ ''/v1beta'') = None"
    using assms by (auto simp: bare_base_def intro!: strip_suffix_None)
  show "trim_end_matches slash b = b" using assms by (intro trim_end_other) (simp add: bare_base_def)
qed

text \<open>
  The base address that an operator enters for DeepSeek or ZenMux may or may not end in a version
  segment and in slashes: the requests go to the same address.
\<close>

theorem base_spelling_irrelevant:
  assumes "bare_base b"
  shows "(\<forall>v\<in>{[], ''/v1''}. deepseek_api_base (b @ v @ replicate n slash) OpenAiResponses = b \<and>
      deepseek_api_base (b @ v @ replicate n slash) OpenAiCompatible = b @ ''/v1'') \<and>
    (\<forall>v\<in>{[], ''/v1'', ''/v1beta'', ''/anthropic/v1''}. api_base_for_suite (b @ v @ replicate n slash) suite = b @
      (case suite of AnthropicMessages \<Rightarrow> ''/anthropic/v1'' | GoogleGemini \<Rightarrow> ''/vertex-ai'' | _ \<Rightarrow> ''/v1''))"
proof (intro conjI ballI)
  note facts = strip_bare [OF assms] strip_suffix_append
  fix v :: string
  have t: "trim_end_matches slash (b @ v @ replicate n slash) = b @ v"
    if "v \<in> {[], ''/v1'', ''/v1beta'', ''/anthropic/v1''}" for v
    using that by (intro trim_spelling [OF assms]) auto
  show "deepseek_api_base (b @ v @ replicate n slash) OpenAiResponses = b"
    and "deepseek_api_base (b @ v @ replicate n slash) OpenAiCompatible = b @ ''/v1''" if "v \<in> {[], ''/v1''}"
    using that t [of v] facts by (auto simp: deepseek_api_base_def)
  show "api_base_for_suite (b @ v @ replicate n slash) suite = b @
      (case suite of AnthropicMessages \<Rightarrow> ''/anthropic/v1'' | GoogleGemini \<Rightarrow> ''/vertex-ai'' | _ \<Rightarrow> ''/v1'')"
    if "v \<in> {[], ''/v1'', ''/v1beta'', ''/anthropic/v1''}"
    using that t [of v] facts by (cases suite) (auto simp: api_base_for_suite_def)
qed

theorem base_spelling_irrelevant_witness:
  "api_base_for_suite ''https://zenmux.ai/api/v1/'' AnthropicMessages = ''https://zenmux.ai/api/anthropic/v1''"
proof -
  have "bare_base ''https://zenmux.ai/api''" by (simp add: bare_base_def suffix_def)
  from base_spelling_irrelevant [OF this, of 1 AnthropicMessages] show ?thesis by auto
qed

text \<open>
  The Gemini provider describes its base address with the version segment, and the address of a request
  adds the segment again: a target with the described base is called at an address that has it twice.
\<close>

theorem gemini_version_doubled:
  assumes "effective_api_base target = base_url GeminiProvider"
  shows "gemini_aware_upstream_url target (pe_suite (egress_protocol_for_model GeminiProvider m)) =
    Some (''https://generativelanguage.googleapis.com/v1beta/v1beta/models/'' @ model_id target @ '':generateContent'')"
  using assms by (simp add: gemini_aware_upstream_url_def GeminiProvider_def simple_provider_def ProtocolEndpoint_new_def
      trim_end_matches_def)

theorem gemini_version_doubled_witness:
  "gemini_aware_upstream_url ((demo_target ''g'' 1)\<lparr>api_base := base_url GeminiProvider\<rparr>) GoogleGemini =
    Some ''https://generativelanguage.googleapis.com/v1beta/v1beta/models/m:generateContent''"
  using gemini_version_doubled [of "(demo_target ''g'' 1)\<lparr>api_base := base_url GeminiProvider\<rparr>"]
  by (simp add: effective_api_base_def demo_target_def GeminiProvider_def simple_provider_def ProtocolEndpoint_new_def)

end
