(* ===== verification/Header_Forward.thy ===== *)
theory Header_Forward
  imports Prelude
begin

section \<open>Header forwarding\<close>

text \<open>
  The model of \<^verbatim>\<open>crates/core/src/header_forward.rs\<close>: which request headers reach the upstream and
  which response headers reach the client.  Header names are ASCII, so slicing a name at a found
  position is always on a character boundary.
\<close>

definition star :: char where
  "star = CHR ''*''"

definition DEFAULT_REQUEST_DENY :: "string list" where
  "DEFAULT_REQUEST_DENY = [''authorization'', ''proxy-authorization'', ''x-api-key'',
     ''x-goog-api-key'', ''anthropic-version'', ''cookie'', ''host'', ''content-length'',
     ''content-type'', ''content-encoding'', ''accept-encoding'', ''connection'', ''keep-alive'',
     ''proxy-connection'', ''te'', ''trailer'', ''transfer-encoding'', ''upgrade'',
     ''sec-websocket-*'', ''traceparent'', ''tracestate'', ''expect'']"

definition DEFAULT_RESPONSE_DENY :: "string list" where
  "DEFAULT_RESPONSE_DENY = [''connection'', ''keep-alive'', ''proxy-connection'', ''te'',
     ''trailer'', ''transfer-encoding'', ''upgrade'', ''sec-websocket-*'', ''content-length'',
     ''content-encoding'', ''content-type'', ''date'', ''*request-id'', ''*requestid'',
     ''server'', ''via'', ''nel'', ''cf-*'', ''eo-*'', ''report-to'', ''access-control-*'',
     ''strict-transport-security'', ''*trace*'', ''vary'']"

record HeaderForwardPolicy =
  request_deny_exact :: "string set"
  request_deny_globs :: "string list"
  response_deny_exact :: "string set"
  response_deny_globs :: "string list"

text \<open>
  The loop of \<^verbatim>\<open>glob_match\<close>: segment number \<open>i\<close> is searched from position \<open>pos\<close>; \<^const>\<open>None\<close> is the
  early \<^verbatim>\<open>return false\<close>.
\<close>

fun glob_walk :: "nat \<Rightarrow> string list \<Rightarrow> string \<Rightarrow> nat \<Rightarrow> nat option" where
  "glob_walk i [] value pos = Some pos"
| "glob_walk i (part # parts) value pos =
     (if part = [] then glob_walk (Suc i) parts value pos
      else (case str_find part (drop pos value) of
              None \<Rightarrow> None
            | Some found \<Rightarrow>
                if i = 0 \<and> found \<noteq> 0 then None
                else glob_walk (Suc i) parts value (pos + found + length part)))"

definition glob_match :: "string \<Rightarrow> string \<Rightarrow> bool" where
  "glob_match pattern value =
     (let parts = split_on star pattern in
      if length parts = 1 then pattern = value
      else (case glob_walk 0 parts value 0 of
              None \<Rightarrow> False
            | Some pos \<Rightarrow>
                if \<not> (pattern \<noteq> [] \<and> last pattern = star) then pos = length value else True))"

fun add_deny :: "string list \<Rightarrow> string set \<times> string list \<Rightarrow> string set \<times> string list" where
  "add_deny [] acc = acc"
| "add_deny (key # keys) (exact, globs) =
     add_deny keys (if star \<in> set key then (exact, globs @ [key]) else (insert key exact, globs))"

definition partition_entries :: "string list \<Rightarrow> string set \<times> string list" where
  "partition_entries entries = add_deny (map to_lowercase entries) ({}, [])"

definition with_defaults :: HeaderForwardPolicy where
  "with_defaults =
     (let (req_exact, req_globs) = partition_entries DEFAULT_REQUEST_DENY;
          (resp_exact, resp_globs) = partition_entries DEFAULT_RESPONSE_DENY
      in \<lparr>request_deny_exact = req_exact, request_deny_globs = req_globs,
          response_deny_exact = resp_exact, response_deny_globs = resp_globs\<rparr>)"

definition empty_policy :: HeaderForwardPolicy where
  "empty_policy = \<lparr>request_deny_exact = {}, request_deny_globs = [],
     response_deny_exact = {}, response_deny_globs = []\<rparr>"

definition extra_keys :: "string list \<Rightarrow> string list" where
  "extra_keys names = filter (\<lambda>k. k \<noteq> []) (map (\<lambda>n. to_lowercase (trim n)) names)"

definition with_request_deny_extra :: "HeaderForwardPolicy \<Rightarrow> string list \<Rightarrow> HeaderForwardPolicy" where
  "with_request_deny_extra p names =
     (let (exact, globs) = add_deny (extra_keys names) (request_deny_exact p, request_deny_globs p)
      in p\<lparr>request_deny_exact := exact, request_deny_globs := globs\<rparr>)"

definition with_response_deny_extra :: "HeaderForwardPolicy \<Rightarrow> string list \<Rightarrow> HeaderForwardPolicy" where
  "with_response_deny_extra p names =
     (let (exact, globs) = add_deny (extra_keys names) (response_deny_exact p, response_deny_globs p)
      in p\<lparr>response_deny_exact := exact, response_deny_globs := globs\<rparr>)"

definition should_forward_request :: "HeaderForwardPolicy \<Rightarrow> string \<Rightarrow> bool" where
  "should_forward_request p name =
     (let lower = to_lowercase name in
      if lower \<in> request_deny_exact p then False
      else if list_ex (\<lambda>g. glob_match g lower) (request_deny_globs p) then False
      else True)"

definition should_forward_response :: "HeaderForwardPolicy \<Rightarrow> string \<Rightarrow> bool" where
  "should_forward_response p name =
     (let lower = to_lowercase name in
      if lower \<in> response_deny_exact p then False
      else if list_ex (\<lambda>g. glob_match g lower) (response_deny_globs p) then False
      else True)"

subsection \<open>What a glob pattern means\<close>

fun wild :: "string \<Rightarrow> string \<Rightarrow> bool" where
  "wild [] v = (v = [])"
| "wild (c # p) v =
     (if c = star then wild p v \<or> (case v of [] \<Rightarrow> False | _ # v' \<Rightarrow> wild (c # p) v')
      else (case v of [] \<Rightarrow> False | d # v' \<Rightarrow> c = d \<and> wild p v'))"

declare wild.simps(2) [simp del]

lemma wild_star: "wild (star # p) v \<longleftrightarrow> (\<exists>x r. v = x @ r \<and> wild p r)"
proof (induction v)
  case (Cons d v)
  have "(\<exists>x r. d # v = x @ r \<and> wild p r) \<longleftrightarrow> wild p (d # v) \<or> (\<exists>x r. v = x @ r \<and> wild p r)"
    by (metis append_Cons append_Nil append_eq_Cons_conv)
  then show ?case using Cons.IH by (simp add: wild.simps(2) [of star p "d # v"])
qed (simp add: wild.simps)

lemma wild_char: "c \<noteq> star \<Longrightarrow> wild (c # p) v \<longleftrightarrow> (\<exists>v'. v = c # v' \<and> wild p v')"
  by (cases v) (auto simp: wild.simps(2))

text \<open>The segments after the first star: each one occurs after the one before, the last at the end.\<close>

fun tail_match :: "string list \<Rightarrow> string \<Rightarrow> bool" where
  "tail_match [] v \<longleftrightarrow> v = []"
| "tail_match (p # ps) v \<longleftrightarrow> (\<exists>x r. v = x @ p @ r \<and> tail_match ps r)"

lemma wild_parts:
  "wild pattern v \<longleftrightarrow> (\<exists>r. v = hd (split_on star pattern) @ r \<and> tail_match (tl (split_on star pattern)) r)"
proof (induction pattern arbitrary: v)
  case (Cons c p)
  obtain q qs where parts: "split_on star p = q # qs" by (cases "split_on star p") simp_all
  show ?case
  proof (cases "c = star")
    case True
    then show ?thesis using Cons.IH parts by (auto simp: wild_star) 
  next
    case False
    then show ?thesis using Cons.IH parts by (auto simp: wild_char)
  qed
qed simp

text \<open>The search of the segments, without positions: the unconsumed rest.\<close>

fun greedy :: "string list \<Rightarrow> string \<Rightarrow> string option" where
  "greedy [] v = Some v"
| "greedy (p # ps) v =
     (case str_find p v of None \<Rightarrow> None | Some i \<Rightarrow> greedy ps (drop (i + length p) v))"

lemma str_find_Nil [simp]: "str_find [] v = Some 0"
  by (simp add: str_find.simps)

lemma glob_walk_greedy:
  "pos \<le> length v \<Longrightarrow> glob_walk (Suc i) ps v pos =
     map_option (\<lambda>r. length v - length r) (greedy ps (drop pos v))"
proof (induction ps arbitrary: i pos)
  case (Cons p ps)
  show ?case
  proof (cases "str_find p (drop pos v)")
    case None
    then show ?thesis by (cases "p = []") auto
  next
    case (Some k)
    have "pos + k + length p \<le> length v" using str_find_Some [OF Some] Cons.prems by auto
    from Cons.IH [OF this, of "Suc i"] Cons.IH [OF Cons.prems, of "Suc i"] Some show ?thesis
      by (cases "p = []") (auto simp: add.commute add.left_commute)
  qed
qed simp

lemma greedy_sound: "greedy ps v = Some r \<Longrightarrow> \<exists>u. v = u @ r \<and> tail_match ps u"
proof (induction ps arbitrary: v)
  case (Cons p ps)
  then obtain i where i: "str_find p v = Some i" and "greedy ps (drop (i + length p) v) = Some r"
    by (auto split: option.splits)
  with Cons.IH obtain u where "drop (i + length p) v = u @ r" "tail_match ps u" by blast
  then show ?case using str_find_drop [OF i]
    by (intro exI [of _ "take i v @ p @ u"]) auto
qed simp

lemma tail_match_absorb:
  "ps \<noteq> [] \<Longrightarrow> last ps = [] \<Longrightarrow> tail_match ps u \<Longrightarrow> tail_match ps (u @ r)"
proof (induction ps arbitrary: u)
  case (Cons p ps)
  show ?case
  proof (cases "ps = []")
    case True
    with Cons.prems show ?thesis by auto
  next
    case False
    from Cons.prems obtain x w where u: "u = x @ p @ w" and w: "tail_match ps w" by auto
    from Cons.IH [OF False _ w] False Cons.prems(2) have "tail_match ps (w @ r)" by simp
    with u show ?thesis by auto
  qed
qed simp

lemma str_find_first: "str_find p (a @ p @ b) = Some i \<Longrightarrow> i \<le> length a"
proof (induction a arbitrary: i)
  case Nil
  then show ?case by (simp add: str_find.simps prefix_def)
next
  case (Cons c a)
  then show ?case
    by (auto simp: str_find.simps [of p "c # a @ p @ b"] split: if_splits)
qed

text \<open>Segments occurring in order, with anything after the last one.\<close>

fun in_order :: "string list \<Rightarrow> string \<Rightarrow> bool" where
  "in_order [] v \<longleftrightarrow> True"
| "in_order (p # ps) v \<longleftrightarrow> (\<exists>x r. v = x @ p @ r \<and> in_order ps r)"

lemma tail_match_in_order: "tail_match ps v \<Longrightarrow> in_order ps v"
  by (induction ps arbitrary: v) auto

lemma in_order_suffix: "in_order ps v \<Longrightarrow> in_order ps (u @ v)"
  by (cases ps) (auto, metis append.assoc)

lemma greedy_complete: "in_order ps v \<Longrightarrow> greedy ps v \<noteq> None"
proof (induction ps arbitrary: v)
  case (Cons p ps)
  then obtain a b where v: "v = a @ p @ b" and b: "in_order ps b" by auto
  have "str_find p v \<noteq> None" using v str_find_None [of p v] by blast
  then obtain i where i: "str_find p v = Some i" by auto
  have "i \<le> length a" using str_find_first i v by blast
  then have "\<exists>u. drop (i + length p) v = u @ b"
    using v by (intro exI [of _ "drop (i + length p) (a @ p)"]) simp
  with b have "in_order ps (drop (i + length p) v)" using in_order_suffix by auto
  with Cons.IH i show ?case by simp
qed simp

lemma split_on_single: "length (split_on sep p) = 1 \<Longrightarrow> split_on sep p = [p]"
proof (induction p)
  case (Cons c p)
  obtain q qs where "split_on sep p = q # qs" by (cases "split_on sep p") simp_all
  with Cons show ?case by (cases "c = sep") auto
qed simp

lemma last_split_on: "last (split_on sep p) = [] \<longleftrightarrow> p = [] \<or> last p = sep"
proof (induction p)
  case (Cons c p)
  obtain q qs where parts: "split_on sep p = q # qs" by (cases "split_on sep p") simp_all
  show ?case
  proof (cases "qs = []")
    case True
    with parts split_on_single [of sep p] have "q = p" by simp
    with True parts Cons.IH show ?thesis by auto
  next
    case False
    moreover from this parts have "p \<noteq> []" by auto
    ultimately show ?thesis using parts Cons.IH by auto
  qed
qed simp

text \<open>The search, said with the segments of the pattern.\<close>

lemma glob_match_parts:
  assumes parts: "split_on star p = q # ps" and "ps \<noteq> []"
  shows "glob_match p v \<longleftrightarrow> (\<exists>r. v = q @ r \<and>
    (case greedy ps r of None \<Rightarrow> False | Some rest \<Rightarrow> last ps = [] \<or> rest = []))"
proof -
  have last: "(p \<noteq> [] \<and> last p = star) \<longleftrightarrow> last ps = []"
    using last_split_on [of star p] assms by (cases p) auto
  have len: "length (split_on star p) \<noteq> 1" using assms by simp
  have first: "glob_walk 0 (q # ps) v 0 =
      (if prefix q v then glob_walk (Suc 0) ps v (length q) else None)"
  proof (cases "q = []")
    case False
    have "str_find q v = Some 0 \<longleftrightarrow> prefix q v"
      by (auto simp: str_find.simps [of q v] split: list.splits)
    with False show ?thesis by (auto split: option.split)
  qed simp
  show ?thesis
  proof (cases "prefix q v")
    case True
    then obtain r where v: "v = q @ r" by (auto simp: prefix_def)
    have walk: "glob_walk 0 (q # ps) v 0 = map_option (\<lambda>x. length v - length x) (greedy ps r)"
      using glob_walk_greedy [of "length q" v 0 ps] first True v by simp
    have "length v - length x = length v \<longleftrightarrow> x = []" if "greedy ps r = Some x" for x
      using greedy_sound [OF that] v by auto
    then show ?thesis using walk last len parts v
      by (auto simp: glob_match_def Let_def split: option.split)
  next
    case False
    then show ?thesis using first parts len
      by (auto simp: glob_match_def Let_def prefix_def)
  qed
qed

text \<open>
  A header is only ever matched by a deny pattern if the pattern really describes it:
  \<^verbatim>\<open>glob_match\<close> accepts no name outside the language of its pattern.
\<close>

lemma glob_match_wild: "glob_match p v \<Longrightarrow> wild p v"
proof -
  assume match: "glob_match p v"
  obtain q ps where parts: "split_on star p = q # ps" by (cases "split_on star p") simp_all
  show ?thesis
  proof (cases "ps = []")
    case True
    with parts split_on_single [of star p] match show ?thesis
      by (simp add: glob_match_def wild_parts)
  next
    case False
    from match obtain r rest where v: "v = q @ r" and g: "greedy ps r = Some rest"
      and fin: "last ps = [] \<or> rest = []"
      unfolding glob_match_parts [OF parts False] by (auto split: option.splits)
    obtain u where u: "r = u @ rest" "tail_match ps u" using greedy_sound [OF g] by blast
    have "tail_match ps r" using fin u tail_match_absorb [OF False] by auto
    with v parts show ?thesis by (simp add: wild_parts)
  qed
qed

text \<open>
  Patterns that end in a star (prefix patterns such as \<^verbatim>\<open>cf-*\<close> and containment patterns such
  as \<^verbatim>\<open>*trace*\<close>) are matched exactly.
\<close>

theorem glob_match_exact:
  assumes "p \<noteq> []" and "last p = star"
  shows "glob_match p v \<longleftrightarrow> wild p v"
proof
  assume "wild p v"
  obtain q ps where parts: "split_on star p = q # ps" by (cases "split_on star p") simp_all
  have last: "last (q # ps) = []" using last_split_on [of star p] assms parts by simp
  have "ps \<noteq> []"
  proof
    assume "ps = []"
    then have "split_on star p = [p]" using parts split_on_single [of star p] by simp
    with last parts assms show False by simp
  qed
  moreover obtain r where "v = q @ r" "tail_match ps r"
    using \<open>wild p v\<close> parts by (auto simp: wild_parts)
  moreover obtain rest where "greedy ps r = Some rest"
    using greedy_complete tail_match_in_order calculation(3) by blast
  ultimately show "glob_match p v"
    unfolding glob_match_parts [OF parts \<open>ps \<noteq> []\<close>] using last by auto
qed (rule glob_match_wild)

theorem glob_match_exact_witness:
  "glob_match ''*trace*'' ''x-b3-traceid'' \<and> wild ''*trace*'' ''x-b3-traceid''"
proof -
  have "glob_match ''*trace*'' ''x-b3-traceid''" by code_simp
  moreover have "glob_match ''*trace*'' ''x-b3-traceid'' \<longleftrightarrow> wild ''*trace*'' ''x-b3-traceid''"
    by (rule glob_match_exact) (simp_all add: star_def)
  ultimately show ?thesis by simp
qed

subsection \<open>What the policy blocks\<close>

lemma add_deny_exact: "fst (add_deny keys acc) = fst acc \<union> {k \<in> set keys. star \<notin> set k}"
  by (induction keys acc rule: add_deny.induct) auto

lemma add_deny_globs: "set (snd (add_deny keys acc)) = set (snd acc) \<union> {k \<in> set keys. star \<in> set k}"
  by (induction keys acc rule: add_deny.induct) auto

text \<open>A name is blocked by an entry: literally, or by the glob.\<close>

definition entry_blocks :: "string \<Rightarrow> string \<Rightarrow> bool" where
  "entry_blocks key lower = (if star \<in> set key then glob_match key lower else key = lower)"

lemma entries_block:
  "lower \<notin> {k \<in> K. star \<notin> set k} \<and> (\<forall>g\<in>{k \<in> K. star \<in> set k}. \<not> glob_match g lower) \<longleftrightarrow>
     \<not> (\<exists>k\<in>K. entry_blocks k lower)"
  by (auto simp: entry_blocks_def)

lemma should_forward_request_iff:
  "should_forward_request p name \<longleftrightarrow> to_lowercase name \<notin> request_deny_exact p \<and>
     (\<forall>g\<in>set (request_deny_globs p). \<not> glob_match g (to_lowercase name))"
  by (auto simp: should_forward_request_def Let_def list_ex_iff)

lemma should_forward_response_iff:
  "should_forward_response p name \<longleftrightarrow> to_lowercase name \<notin> response_deny_exact p \<and>
     (\<forall>g\<in>set (response_deny_globs p). \<not> glob_match g (to_lowercase name))"
  by (auto simp: should_forward_response_def Let_def list_ex_iff)

lemma request_policy_entries:
  "should_forward_request (with_request_deny_extra with_defaults extras) name \<longleftrightarrow>
     \<not> (\<exists>key\<in>set (map to_lowercase DEFAULT_REQUEST_DENY @ extra_keys extras).
          entry_blocks key (to_lowercase name))"
proof -
  obtain e g where acc: "partition_entries DEFAULT_REQUEST_DENY = (e, g)" by fastforce
  have e: "e = {k \<in> set (map to_lowercase DEFAULT_REQUEST_DENY). star \<notin> set k}"
    and g: "set g = {k \<in> set (map to_lowercase DEFAULT_REQUEST_DENY). star \<in> set k}"
    using add_deny_exact [of "map to_lowercase DEFAULT_REQUEST_DENY" "({}, [])"]
      add_deny_globs [of "map to_lowercase DEFAULT_REQUEST_DENY" "({}, [])"] acc
    by (simp_all add: partition_entries_def)
  let ?K = "set (map to_lowercase DEFAULT_REQUEST_DENY @ extra_keys extras)"
  have "request_deny_exact (with_request_deny_extra with_defaults extras)
      = e \<union> {k \<in> set (extra_keys extras). star \<notin> set k}"
    and "set (request_deny_globs (with_request_deny_extra with_defaults extras))
      = set g \<union> {k \<in> set (extra_keys extras). star \<in> set k}"
    using add_deny_exact [of "extra_keys extras" "(e, g)"] add_deny_globs [of "extra_keys extras" "(e, g)"]
    by (simp_all add: with_request_deny_extra_def with_defaults_def acc split_beta Let_def)
  then have "request_deny_exact (with_request_deny_extra with_defaults extras) = {k \<in> ?K. star \<notin> set k}"
    and "set (request_deny_globs (with_request_deny_extra with_defaults extras)) = {k \<in> ?K. star \<in> set k}"
    unfolding e g by auto
  then show ?thesis unfolding should_forward_request_iff by (simp only: entries_block)
qed

text \<open>
  The policy is exactly its entries: with any operator-supplied extras on top of the defaults,
  a request header is forwarded if and only if no default entry and no extra (trimmed, lower-cased,
  not blank) blocks its lower-cased name.  In particular extras never unblock a header.
\<close>

theorem request_policy_exact:
  "should_forward_request (with_request_deny_extra with_defaults extras) name \<longleftrightarrow>
     \<not> (\<exists>key\<in>set (map to_lowercase DEFAULT_REQUEST_DENY @ extra_keys extras).
          entry_blocks key (to_lowercase name))"
  by (rule request_policy_entries)

lemma credential_blocked:
  assumes "to_lowercase name \<in> {''authorization'', ''proxy-authorization'', ''x-api-key'',
    ''x-goog-api-key'', ''cookie''}"
  shows "\<not> should_forward_request (with_request_deny_extra with_defaults extras) name"
proof -
  let ?cred = "[''authorization'', ''proxy-authorization'', ''x-api-key'', ''x-goog-api-key'', ''cookie'']"
  have lit: "list_all (\<lambda>k. k \<in> set (map to_lowercase DEFAULT_REQUEST_DENY) \<and> star \<notin> set k) ?cred"
    by code_simp
  have "to_lowercase name \<in> set ?cred" using assms by simp
  with lit have key: "to_lowercase name \<in> set (map to_lowercase DEFAULT_REQUEST_DENY)"
    and "star \<notin> set (to_lowercase name)"
    unfolding list_all_iff by blast+
  then have "entry_blocks (to_lowercase name) (to_lowercase name)" by (simp add: entry_blocks_def)
  with key show ?thesis unfolding request_policy_entries set_append by blast
qed

text \<open>
  Credentials stay in the gateway: no capitalisation of a header that carries the client's
  gateway credentials is forwarded upstream, whatever the operator adds to the deny list.
\<close>

theorem credentials_never_forwarded:
  assumes "to_lowercase name \<in> {''authorization'', ''proxy-authorization'', ''x-api-key'',
    ''x-goog-api-key'', ''cookie''}"
  shows "\<not> should_forward_request (with_request_deny_extra with_defaults extras) name"
  using assms by (rule credential_blocked)

theorem credentials_never_forwarded_witness:
  "\<not> should_forward_request (with_request_deny_extra with_defaults [''x-internal-*'']) ''AuthoriZation''"
proof (rule credentials_never_forwarded)
  show "to_lowercase ''AuthoriZation'' \<in> {''authorization'', ''proxy-authorization'', ''x-api-key'',
    ''x-goog-api-key'', ''cookie''}" by code_simp
qed

text \<open>
  A pattern that does not end in a star can miss a name it describes, because every segment is
  searched for at its leftmost place: a header name that ends in \<^verbatim>\<open>request-id\<close> but contains it
  earlier as well is not matched by \<^verbatim>\<open>*request-id\<close>, and the default policy forwards it.
\<close>

theorem glob_match_misses_suffix:
  "wild ''*request-id'' ''x-request-id-request-id'' \<and>
   \<not> glob_match ''*request-id'' ''x-request-id-request-id'' \<and>
   should_forward_response with_defaults ''x-request-id-request-id''"
proof (intro conjI)
  show "wild ''*request-id'' ''x-request-id-request-id''" by code_simp
  show "\<not> glob_match ''*request-id'' ''x-request-id-request-id''" by code_simp
  show "should_forward_response with_defaults ''x-request-id-request-id''" by code_simp
qed

end
