(* ===== verification/Egress_Headers.thy ===== *)
theory Egress_Headers
  imports Providers Header_Forward App_Error
begin

section \<open>Headers of upstream requests and client responses\<close>

text \<open>
  The model of \<^verbatim>\<open>crates/server/src/ingress/headers.rs\<close> (forwarding of headers, identity headers, the request id), of the
  credential appliers in \<^verbatim>\<open>crates/auth/src\<close> and \<^verbatim>\<open>apply_provider_auth\<close> in \<^verbatim>\<open>server/src/ingress/mod.rs\<close>, of the headers that the
  Codex and Anthropic OAuth profiles add (\<^verbatim>\<open>server/src/openai_codex_oauth.rs\<close>, \<^verbatim>\<open>anthropic_oauth.rs\<close>), and of their
  composition in \<^verbatim>\<open>execute_upstream\<close> of \<^verbatim>\<open>server/src/ingress/executors.rs\<close>.

  A \<^verbatim>\<open>HeaderMap\<close> gives every lower-case name its list of values.  The headers of the client come as the list over which
  the code iterates.  \<open>http_env\<close> holds the tests of the \<^verbatim>\<open>http\<close> package: \<open>name_ok\<close> is \<^verbatim>\<open>HeaderName::from_bytes\<close> (which
  lower-cases), \<open>value_ok\<close> is \<^verbatim>\<open>HeaderValue::from_str\<close>, \<open>readable\<close> is whether \<^verbatim>\<open>to_str\<close> succeeds, and the texts are those of its
  errors.
\<close>

subsection \<open>Header maps\<close>

type_synonym HeaderMap = "string \<Rightarrow> string list"

record http_env =
  name_ok :: "string \<Rightarrow> string option"
  value_ok :: "string \<Rightarrow> bool"
  readable :: "string \<Rightarrow> bool"
  invalid_name_text :: string
  invalid_value_text :: string
  unreadable_text :: string

definition no_headers :: HeaderMap where
  "no_headers = (\<lambda>_. [])"

definition contains_key :: "string \<Rightarrow> HeaderMap \<Rightarrow> bool" where
  "contains_key n h \<longleftrightarrow> h n \<noteq> []"

definition header_value :: "string \<Rightarrow> HeaderMap \<Rightarrow> string option" where
  "header_value n h = (case h n of [] \<Rightarrow> None | v # _ \<Rightarrow> Some v)"

definition header_insert :: "string \<Rightarrow> string \<Rightarrow> HeaderMap \<Rightarrow> HeaderMap" where
  "header_insert n v h = h(n := [v])"

definition header_remove :: "string \<Rightarrow> HeaderMap \<Rightarrow> HeaderMap" where
  "header_remove n h = h(n := [])"

definition entry_or_insert :: "string \<Rightarrow> string \<Rightarrow> HeaderMap \<Rightarrow> HeaderMap" where
  "entry_or_insert n v h = (if contains_key n h then h else header_insert n v h)"

lemmas header_ops = contains_key_def header_insert_def header_remove_def entry_or_insert_def header_value_def

subsection \<open>Client headers\<close>

definition merge_client_header :: "HeaderForwardPolicy \<Rightarrow> string \<times> string \<Rightarrow> HeaderMap \<Rightarrow> HeaderMap" where
  "merge_client_header policy = (\<lambda>(n, v) up.
     if \<not> should_forward_request policy n then up
     else if contains_key n up then up
     else header_insert n v up)"

definition merge_client_headers :: "(string \<times> string) list \<Rightarrow> HeaderMap \<Rightarrow> HeaderForwardPolicy \<Rightarrow> HeaderMap" where
  "merge_client_headers client up policy = fold (merge_client_header policy) client up"

definition GATEWAY_IDENTITY_HEADERS :: "(string \<times> string) list" where
  "GATEWAY_IDENTITY_HEADERS = [(''x-title'', ''TiyGate''), (''http-referer'', ''https://tiy.ai/gateway'')]"

definition apply_identity_header :: "(string \<times> string) list \<Rightarrow> HeaderForwardPolicy \<Rightarrow> OAuthTargetConfig option \<Rightarrow>
    string \<times> string \<Rightarrow> HeaderMap \<Rightarrow> HeaderMap" where
  "apply_identity_header client policy config = (\<lambda>(n, default) up.
     (let native = (case config of Some c \<Rightarrow> (if egress_profile c = Standard then None else Some c) | None \<Rightarrow> None)
      in if \<not> should_forward_request policy n then header_remove n up
         else case native of
           Some c \<Rightarrow> (if list_ex (\<lambda>(extra, _). eq_ignore_ascii_case extra n) (oauth_extra_headers c) then up else header_remove n up)
         | None \<Rightarrow> (case map_of client n of
             Some v \<Rightarrow> header_insert n v up
           | None \<Rightarrow> (if \<not> contains_key n up then header_insert n default up else up))))"

definition apply_gateway_identity_headers :: "(string \<times> string) list \<Rightarrow> HeaderMap \<Rightarrow> HeaderForwardPolicy \<Rightarrow>
    OAuthTargetConfig option \<Rightarrow> HeaderMap" where
  "apply_gateway_identity_headers client up policy config =
     fold (apply_identity_header client policy config) GATEWAY_IDENTITY_HEADERS up"

subsection \<open>Client responses\<close>

definition GATEWAY_REQUEST_ID_HEADER :: string where
  "GATEWAY_REQUEST_ID_HEADER = ''x-request-id''"

definition set_gateway_request_id_header :: "http_env \<Rightarrow> string \<Rightarrow> HeaderMap \<Rightarrow> HeaderMap" where
  "set_gateway_request_id_header E rid resp =
     (if value_ok E rid then header_insert GATEWAY_REQUEST_ID_HEADER rid resp else resp)"

definition forward_resp_header :: "http_env \<Rightarrow> HeaderForwardPolicy \<Rightarrow> string \<times> string \<Rightarrow> HeaderMap \<Rightarrow> HeaderMap" where
  "forward_resp_header E policy = (\<lambda>(n, v) resp.
     if \<not> should_forward_response policy n then resp
     else case name_ok E n of
       Some hn \<Rightarrow> (if value_ok E v then header_insert hn v resp else resp)
     | None \<Rightarrow> resp)"

definition forward_upstream_resp_headers :: "http_env \<Rightarrow> HeaderMap \<Rightarrow> (string \<times> string) list \<Rightarrow> HeaderForwardPolicy \<Rightarrow>
    string \<Rightarrow> HeaderMap" where
  "forward_upstream_resp_headers E resp upstream policy rid =
     set_gateway_request_id_header E rid (fold (forward_resp_header E policy) upstream resp)"

definition forwarded_resp_headers_for_capture :: "(string \<times> string) list \<Rightarrow> HeaderForwardPolicy \<Rightarrow> string \<Rightarrow> (string \<times> string) list" where
  "forwarded_resp_headers_for_capture upstream policy rid =
     filter (\<lambda>(n, _). \<not> eq_ignore_ascii_case n GATEWAY_REQUEST_ID_HEADER)
       (filter (\<lambda>(n, _). should_forward_response policy n) upstream) @
     [(''content-type'', ''text/event-stream''), (''cache-control'', ''no-cache''), (''x-accel-buffering'', ''no''),
      (GATEWAY_REQUEST_ID_HEADER, rid)]"

definition get_readable :: "http_env \<Rightarrow> string \<Rightarrow> HeaderMap \<Rightarrow> string option" where
  "get_readable E n h = (case header_value n h of Some v \<Rightarrow> (if readable E v then Some v else None) | None \<Rightarrow> None)"

definition extract_retry_after :: "http_env \<Rightarrow> HeaderMap \<Rightarrow> string option" where
  "extract_retry_after E h = get_readable E ''retry-after'' h"

definition rate_limit_names :: "string list" where
  "rate_limit_names = [''x-ratelimit-limit'', ''x-ratelimit-remaining'', ''x-ratelimit-reset'',
     ''x-ratelimit-limit-requests'', ''x-ratelimit-limit-tokens'', ''x-ratelimit-remaining-requests'',
     ''x-ratelimit-remaining-tokens'', ''x-ratelimit-reset-tokens'']"

definition extract_rate_limit_headers :: "http_env \<Rightarrow> HeaderMap \<Rightarrow> (string \<times> string) list" where
  "extract_rate_limit_headers E h = List.map_filter (\<lambda>n. map_option (\<lambda>v. (n, v)) (get_readable E n h)) rate_limit_names"

subsection \<open>Credentials\<close>

definition auth_error :: "string \<Rightarrow> string \<Rightarrow> string" where
  "auth_error what reason = ''auth error: '' @ what @ reason"

fun apply_auth :: "http_env \<Rightarrow> auth_applier \<Rightarrow> RoutingTarget \<Rightarrow> HeaderMap \<Rightarrow> string + HeaderMap" where
  "apply_auth E BearerAuthApplier target h =
     (let v = ''Bearer '' @ effective_api_key target
      in if value_ok E v then Inr (header_insert ''authorization'' v h)
         else Inl (auth_error ''Invalid header value: '' (invalid_value_text E)))"
| "apply_auth E (HeaderApiKeyAuthApplier name) target h = (case name_ok E name of
     None \<Rightarrow> Inl (auth_error ''Invalid header name: '' (invalid_name_text E))
   | Some hn \<Rightarrow> (if value_ok E (effective_api_key target) then Inr (header_insert hn (effective_api_key target) h)
       else Inl (auth_error ''Invalid header value: '' (invalid_value_text E))))"
| "apply_auth E BedrockAuthApplier target h = Inr (entry_or_insert ''authorization'' ''AWS4-HMAC-SHA256 placeholder'' h)"

definition checked_insert :: "http_env \<Rightarrow> string \<Rightarrow> string \<Rightarrow> string \<times> string \<Rightarrow> HeaderMap \<Rightarrow> string + HeaderMap" where
  "checked_insert E bad_value bad_name = (\<lambda>(n, v) h.
     if \<not> value_ok E v then Inl (bad_value @ invalid_value_text E)
     else case name_ok E n of
       None \<Rightarrow> Inl (bad_name @ invalid_name_text E)
     | Some hn \<Rightarrow> Inr (header_insert hn v h))"

definition quoted :: "string \<Rightarrow> string" where
  "quoted s = [CHR 0x27] @ s @ [CHR 0x27]"

fun insert_extras :: "http_env \<Rightarrow> (string \<times> string) list \<Rightarrow> HeaderMap \<Rightarrow> string + HeaderMap" where
  "insert_extras E [] h = Inr h"
| "insert_extras E ((n, v) # rest) h =
     bind_rust (checked_insert E (''invalid header value for '' @ quoted n @ '': '') (''invalid header name '' @ quoted n @ '': '') (n, v) h)
       (insert_extras E rest)"

definition inject_token :: "http_env \<Rightarrow> HeaderMap \<Rightarrow> string \<Rightarrow> string option \<Rightarrow> OAuthTargetConfig \<Rightarrow> string + HeaderMap" where
  "inject_token E h access_token account c =
     bind_rust (checked_insert E ''invalid header value for OAuth token: '' ''invalid header name for OAuth token: ''
       (header_name c, bearer_prefix c @ access_token) h) (\<lambda>h.
     (let scoped = list_ex (\<lambda>(n, _). eq_ignore_ascii_case n ''chatgpt-account-id'') (oauth_extra_headers c)
      in bind_rust (insert_extras E (oauth_extra_headers c) h) (\<lambda>h.
         if \<not> scoped then Inr h
         else case account of
           Some a \<Rightarrow> (if a = [] then Inr h
             else if value_ok E a then Inr (header_insert ''chatgpt-account-id'' a h)
             else Inl (''invalid ChatGPT account header value: '' @ invalid_value_text E))
         | None \<Rightarrow> Inr h)))"

definition effective_caller :: "string \<Rightarrow> string" where
  "effective_caller caller = (if caller = [] \<or> caller = ''anonymous'' then ''tiygate-anonymous'' else caller)"

definition extra_header :: "http_env \<Rightarrow> string \<times> string \<Rightarrow> HeaderMap \<Rightarrow> HeaderMap" where
  "extra_header E = (\<lambda>(n, v) h. case name_ok E n of
     Some hn \<Rightarrow> (if value_ok E v then entry_or_insert hn v h else h) | None \<Rightarrow> h)"

definition inject_provider_extra_headers :: "http_env \<Rightarrow> Provider_impl \<Rightarrow> string \<Rightarrow> HeaderMap \<Rightarrow> HeaderMap" where
  "inject_provider_extra_headers E p caller h =
     fold (extra_header E) (extra_headers p (effective_caller caller)) h"

text \<open>\<open>mgr\<close> is \<^verbatim>\<open>oauth_manager.apply\<close> for the target: the headers with the token, or that the target is not in OAuth mode.\<close>

definition lookup_key :: "RoutingTarget \<Rightarrow> string" where
  "lookup_key target = unwrap_or (vendor target) (provider_id target)"

definition auth_failed :: "string \<Rightarrow> AppError" where
  "auth_failed e = AppError_new 500 (''Provider auth applier failed: '' @ e)"

definition apply_provider_auth :: "http_env \<Rightarrow> registry \<Rightarrow> (HeaderMap \<Rightarrow> string + bool \<times> HeaderMap) \<Rightarrow> RoutingTarget \<Rightarrow>
    string \<Rightarrow> HeaderMap \<Rightarrow> AppError + HeaderMap" where
  "apply_provider_auth E reg mgr target caller h = (case mgr h of
     Inl e \<Rightarrow> Inl (AppError_new 500 (''OAuth token error: '' @ e))
   | Inr (True, h) \<Rightarrow> Inr (case find_provider reg (lookup_key target) of
       Some p \<Rightarrow> inject_provider_extra_headers E p caller h | None \<Rightarrow> h)
   | Inr (False, h) \<Rightarrow> (case find_provider reg (lookup_key target) of
       Some p \<Rightarrow> map_sum auth_failed (inject_provider_extra_headers E p caller) (apply_auth E (prov_auth p) target h)
     | None \<Rightarrow> (case pe_suite (api_protocol target) of
         AnthropicMessages \<Rightarrow> map_sum auth_failed (header_insert ''anthropic-version'' ''2023-06-01'')
           (apply_auth E (HeaderApiKeyAuthApplier ''x-api-key'') target h)
       | GoogleGemini \<Rightarrow> map_sum auth_failed (\<lambda>h. h) (apply_auth E (HeaderApiKeyAuthApplier ''x-goog-api-key'') target h)
       | _ \<Rightarrow> map_sum auth_failed (\<lambda>h. h) (apply_auth E BearerAuthApplier target h))))"

subsection \<open>The Codex profile\<close>

definition codex_is_enabled :: "RoutingTarget \<Rightarrow> ProtocolSuite \<Rightarrow> bool" where
  "codex_is_enabled target suite \<longleftrightarrow> suite = OpenAiResponses \<and>
     (case oauth target of Some c \<Rightarrow> egress_profile c = OpenAiCodex | None \<Rightarrow> False)"

definition uses_websocket :: "RoutingTarget \<Rightarrow> bool" where
  "uses_websocket target \<longleftrightarrow> map_option upstream_transport (oauth target) = Some CodexResponsesWebSocket"

definition set_header :: "http_env \<Rightarrow> string \<Rightarrow> string \<Rightarrow> HeaderMap \<Rightarrow> HeaderMap" where
  "set_header E n v h = (if value_ok E v then header_insert n v h else h)"

definition insert_header_if_missing :: "http_env \<Rightarrow> string \<Rightarrow> string \<Rightarrow> HeaderMap \<Rightarrow> HeaderMap" where
  "insert_header_if_missing E n v h = (if contains_key n h then h else set_header E n v h)"

text \<open>\<open>uuid\<close> is the fresh id of \<^verbatim>\<open>Uuid::now_v7\<close>.\<close>

definition codex_session_key :: "http_env \<Rightarrow> string \<Rightarrow> string option \<Rightarrow> HeaderMap \<Rightarrow> string option" where
  "codex_session_key E uuid session_key h =
     (case session_key of
        Some (c # k) \<Rightarrow> Some (c # k)
      | _ \<Rightarrow> (let has_session = contains_key ''session_id'' h \<or> contains_key ''session-id'' h;
                 desktop = (case get_readable E ''user-agent'' h of Some v \<Rightarrow> contains v ''Mac OS'' | None \<Rightarrow> False)
             in if \<not> has_session \<and> desktop then Some uuid else None))"

definition apply_request_headers :: "http_env \<Rightarrow> string \<Rightarrow> bool \<Rightarrow> bool \<Rightarrow> string \<Rightarrow> string option \<Rightarrow> string option \<Rightarrow> HeaderMap \<Rightarrow> HeaderMap" where
  "apply_request_headers E uuid is_stream websocket rid session_key account h0 =
     (let h1 = (if websocket then h0
                else set_header E ''accept'' (if is_stream then ''text/event-stream'' else ''application/json'') h0);
          h2 = (if rid = [] then h1 else insert_header_if_missing E ''x-client-request-id'' rid h1);
          h3 = (case codex_session_key E uuid session_key h2 of
                  None \<Rightarrow> h2
                | Some k \<Rightarrow> (if websocket then set_header E ''conversation_id'' k h2
                    else set_header E ''session-id'' k (header_remove ''session-id'' (header_remove ''session_id'' h2))));
          h4 = (case account of
                  Some a \<Rightarrow> (if a = [] then h3 else insert_header_if_missing E ''chatgpt-account-id'' a h3) | None \<Rightarrow> h3)
      in insert_header_if_missing E ''user-agent'' ''Codex Desktop''
           (insert_header_if_missing E ''originator'' ''Codex Desktop'' h4))"

subsection \<open>The Anthropic OAuth profile\<close>

definition ANTHROPIC_OAUTH_BETAS :: "string list" where
  "ANTHROPIC_OAUTH_BETAS = [''claude-code-20250219'', ''oauth-2025-04-20'', ''interleaved-thinking-2025-05-14'']"

definition anthropic_is_enabled :: "RoutingTarget \<Rightarrow> ProtocolSuite \<Rightarrow> bool" where
  "anthropic_is_enabled target suite \<longleftrightarrow> suite = AnthropicMessages \<and>
     (case oauth target of Some c \<Rightarrow> egress_profile c = AnthropicOAuth | None \<Rightarrow> False)"

definition push_unseen :: "string \<Rightarrow> string list \<Rightarrow> string list" where
  "push_unseen b betas = (if b \<in> set betas then betas else betas @ [b])"

definition beta_flags :: "string \<Rightarrow> string list" where
  "beta_flags v = filter (\<lambda>b. b \<noteq> []) (map trim (split_on (CHR '','') v))"

fun join_with :: "string \<Rightarrow> string list \<Rightarrow> string" where
  "join_with sep [] = []"
| "join_with sep [x] = x"
| "join_with sep (x # y # zs) = x @ sep @ join_with sep (y # zs)"

fun collect_betas :: "http_env \<Rightarrow> string list \<Rightarrow> string list \<Rightarrow> string list option" where
  "collect_betas E [] betas = Some betas"
| "collect_betas E (v # vs) betas =
     (if readable E v then collect_betas E vs (fold push_unseen (beta_flags v) betas) else None)"

definition merge_required_betas :: "http_env \<Rightarrow> HeaderMap \<Rightarrow> string + HeaderMap" where
  "merge_required_betas E h = (case collect_betas E (h ''anthropic-beta'') [] of
     None \<Rightarrow> Inl (''invalid Anthropic beta header: '' @ unreadable_text E)
   | Some betas \<Rightarrow>
       (let v = join_with '','' (fold push_unseen ANTHROPIC_OAUTH_BETAS betas)
        in if value_ok E v then Inr (header_insert ''anthropic-beta'' v h)
           else Inl (''invalid merged Anthropic beta header: '' @ invalid_value_text E)))"

text \<open>
  The session id: the first sixteen bytes of the digest with the version and the variant of a UUID set, in its usual
  notation.  The bytes are taken from the hexadecimal digits of the digest: the high digit of byte 6 becomes 5, that of byte 8
  keeps its two low bits.
\<close>

definition uuid_text :: "string \<Rightarrow> string" where
  "uuid_text ds = take 8 ds @ ''-'' @ take 4 (drop 8 ds) @ ''-'' @ take 4 (drop 12 ds) @ ''-'' @ take 4 (drop 16 ds) @ ''-'' @
     take 12 (drop 20 ds)"

definition stable_session_id :: "registry \<Rightarrow> string \<Rightarrow> string" where
  "stable_session_id reg pid =
     (let ds = sha256_hex reg (''tiygate/anthropic-oauth-session/'' @ pid);
          variant = hex_char (unwrap_or (hex_val (ds ! 16)) 0 mod 4 + 8)
      in uuid_text ((ds[12 := CHR ''5''])[16 := variant]))"

definition anthropic_fixed_headers :: "bool \<Rightarrow> (string \<times> string) list" where
  "anthropic_fixed_headers is_stream =
     [(''accept'', if is_stream then ''text/event-stream'' else ''application/json''), (''accept-encoding'', ''identity'')]"

definition anthropic_apply_headers :: "http_env \<Rightarrow> registry \<Rightarrow> RoutingTarget \<Rightarrow> bool \<Rightarrow> string \<Rightarrow> HeaderMap \<Rightarrow> string + HeaderMap" where
  "anthropic_apply_headers E reg target is_stream rid h0 =
     bind_rust (merge_required_betas E h0) (\<lambda>h.
     (let h = fold (\<lambda>(n, v). header_insert n v)
            [(''anthropic-version'', ''2023-06-01''), (''x-app'', ''cli''), (''x-stainless-retry-count'', ''0''),
             (''x-stainless-runtime'', ''node''), (''x-stainless-lang'', ''js''), (''x-stainless-timeout'', ''600'')] h;
          session = stable_session_id reg (provider_id target)
      in if \<not> value_ok E session then Inl (''invalid Anthropic OAuth session header: '' @ invalid_value_text E)
         else if \<not> value_ok E rid then Inl (''invalid Anthropic OAuth request id: '' @ invalid_value_text E)
         else Inr (fold (\<lambda>(n, v). header_insert n v)
            ([(''x-claude-code-session-id'', session), (''x-client-request-id'', rid)] @ anthropic_fixed_headers is_stream) h)))"

subsection \<open>The headers of a request\<close>

text \<open>
  The header steps of \<^verbatim>\<open>execute_upstream\<close>, from the headers \<open>base\<close> that the codec has set.  \<open>session_key\<close> is the cache key of the
  Codex profile.
\<close>

record egress_request =
  eg_client :: "(string \<times> string) list"
  eg_policy :: HeaderForwardPolicy
  eg_stream :: bool
  eg_request_id :: string
  eg_caller :: string
  eg_session_key :: "string option"
  eg_uuid :: string

definition codex_stage :: "http_env \<Rightarrow> RoutingTarget \<Rightarrow> egress_request \<Rightarrow> HeaderMap \<Rightarrow> HeaderMap" where
  "codex_stage E target q h =
     (if codex_is_enabled target (pe_suite (api_protocol target))
      then apply_request_headers E (eg_uuid q) (eg_stream q) (uses_websocket target) (eg_request_id q) (eg_session_key q)
             (Option.bind (oauth target) account_id) h
      else h)"

definition anthropic_stage :: "http_env \<Rightarrow> registry \<Rightarrow> RoutingTarget \<Rightarrow> egress_request \<Rightarrow> HeaderMap \<Rightarrow> AppError + HeaderMap" where
  "anthropic_stage E reg target q h =
     (if anthropic_is_enabled target (pe_suite (api_protocol target))
      then map_sum (\<lambda>e. AppError_new 500 (''Anthropic OAuth egress profile error: '' @ e)) (\<lambda>h. h)
             (anthropic_apply_headers E reg target (eg_stream q) (eg_request_id q) h)
      else Inr h)"

definition upstream_request_headers :: "http_env \<Rightarrow> registry \<Rightarrow> (HeaderMap \<Rightarrow> string + bool \<times> HeaderMap) \<Rightarrow> RoutingTarget \<Rightarrow>
    egress_request \<Rightarrow> HeaderMap \<Rightarrow> AppError + HeaderMap" where
  "upstream_request_headers E reg mgr target q base =
     bind_rust (apply_provider_auth E reg mgr target (eg_caller q) (merge_client_headers (eg_client q) base (eg_policy q))) (\<lambda>h.
     bind_rust (anthropic_stage E reg target q (codex_stage E target q h)) (\<lambda>h.
     Inr (apply_gateway_identity_headers (eg_client q) h (eg_policy q) (oauth target))))"

subsection \<open>What the stages leave alone\<close>

lemma merge_client_headers_at:
  "merge_client_headers client up policy n =
     (if up n \<noteq> [] \<or> \<not> should_forward_request policy n then up n
      else case map_of client n of Some v \<Rightarrow> [v] | None \<Rightarrow> [])"
proof (induction client arbitrary: up)
  case (Cons nv client)
  obtain m v where nv: "nv = (m, v)" by fastforce
  have "merge_client_headers (nv # client) up policy = merge_client_headers client (merge_client_header policy nv up) policy"
    by (simp add: merge_client_headers_def)
  then show ?case using Cons.IH by (auto simp: nv merge_client_header_def header_ops)
qed (simp add: merge_client_headers_def)

definition credential_names :: "string set" where
  "credential_names = {''authorization'', ''proxy-authorization'', ''x-api-key'', ''x-goog-api-key'', ''cookie''}"

lemma credential_not_merged:
  assumes "n \<in> credential_names"
  shows "merge_client_headers client up (with_request_deny_extra with_defaults extras) n = up n"
proof -
  have "list_all (\<lambda>n. to_lowercase n = n) [''authorization'', ''proxy-authorization'', ''x-api-key'', ''x-goog-api-key'', ''cookie'']"
    by code_simp
  then have "to_lowercase n = n" using assms by (auto simp: credential_names_def)
  then have "\<not> should_forward_request (with_request_deny_extra with_defaults extras) n"
    using assms credential_blocked [of n extras] by (simp add: credential_names_def)
  then show ?thesis by (simp add: merge_client_headers_at)
qed

lemma identity_headers_other:
  "n \<notin> {''x-title'', ''http-referer''} \<Longrightarrow> apply_gateway_identity_headers client up policy c n = up n"
  by (auto simp: apply_gateway_identity_headers_def GATEWAY_IDENTITY_HEADERS_def apply_identity_header_def header_ops Let_def
      split: option.splits)

lemma set_header_other: "n \<noteq> m \<Longrightarrow> set_header E m v h n = h n"
  by (simp add: set_header_def header_insert_def)

lemma insert_if_missing_other: "n \<noteq> m \<Longrightarrow> insert_header_if_missing E m v h n = h n"
  by (simp add: insert_header_if_missing_def set_header_other)

lemma header_remove_other: "n \<noteq> m \<Longrightarrow> header_remove m h n = h n"
  by (simp add: header_remove_def)

lemma codex_headers_other:
  "n \<notin> {''accept'', ''x-client-request-id'', ''conversation_id'', ''session-id'', ''session_id'', ''chatgpt-account-id'',
      ''originator'', ''user-agent''} \<Longrightarrow> apply_request_headers E uuid stream ws rid key account h n = h n"
  unfolding apply_request_headers_def Let_def
  by (cases account; cases "codex_session_key E uuid key (if rid = [] then (if ws then h else set_header E ''accept''
        (if stream then ''text/event-stream'' else ''application/json'') h) else insert_header_if_missing E ''x-client-request-id'' rid
        (if ws then h else set_header E ''accept'' (if stream then ''text/event-stream'' else ''application/json'') h))")
    (simp_all add: set_header_other insert_if_missing_other header_remove_other)

lemma anthropic_headers_Inr:
  assumes "anthropic_apply_headers E reg target stream rid h = Inr h'"
  obtains h1 where "merge_required_betas E h = Inr h1"
    and "\<And>n. n \<notin> {''anthropic-version'', ''x-app'', ''x-stainless-retry-count'', ''x-stainless-runtime'',
      ''x-stainless-lang'', ''x-stainless-timeout'', ''x-claude-code-session-id'', ''x-client-request-id'', ''accept'', ''accept-encoding''} \<Longrightarrow>
      h' n = h1 n"
proof -
  from assms obtain h1 where m: "merge_required_betas E h = Inr h1"
    and h': "h' = fold (\<lambda>(n, v). header_insert n v)
      ([(''x-claude-code-session-id'', stable_session_id reg (provider_id target)), (''x-client-request-id'', rid)] @ anthropic_fixed_headers stream)
      (fold (\<lambda>(n, v). header_insert n v)
        [(''anthropic-version'', ''2023-06-01''), (''x-app'', ''cli''), (''x-stainless-retry-count'', ''0''),
         (''x-stainless-runtime'', ''node''), (''x-stainless-lang'', ''js''), (''x-stainless-timeout'', ''600'')] h1)"
    unfolding anthropic_apply_headers_def Let_def bind_rust_eq_Inr by (force split: if_splits simp del: fold_simps)
  show ?thesis
    by (rule that [OF m]) (simp add: h' header_insert_def anthropic_fixed_headers_def)
qed

lemma anthropic_headers_other:
  assumes "anthropic_apply_headers E reg target stream rid h = Inr h'"
    and "n \<notin> {''anthropic-beta'', ''anthropic-version'', ''x-app'', ''x-stainless-retry-count'', ''x-stainless-runtime'',
      ''x-stainless-lang'', ''x-stainless-timeout'', ''x-claude-code-session-id'', ''x-client-request-id'', ''accept'', ''accept-encoding''}"
  shows "h' n = h n"
proof -
  obtain h1 where m: "merge_required_betas E h = Inr h1" and "h' n = h1 n"
    using anthropic_headers_Inr [OF assms(1)] assms(2) by auto
  moreover from m have "h1 n = h n"
    using assms(2) by (auto simp: merge_required_betas_def header_insert_def Let_def split: option.splits if_splits)
  ultimately show ?thesis by simp
qed

text \<open>The name tests of the package lower-case; a built-in provider adds one header of its own at most.\<close>

definition http_lawful :: "http_env \<Rightarrow> bool" where
  "http_lawful E \<longleftrightarrow> (\<forall>n m. name_ok E n = Some m \<longrightarrow> m = to_lowercase n)"

lemma extra_headers_simple [simp]: "extra_headers (simple_provider i url ps a e) = (\<lambda>_. [])"
  by (simp add: simple_provider_def)

definition single_extra :: "Provider_impl \<Rightarrow> bool" where
  "single_extra p \<longleftrightarrow> (\<forall>caller. \<forall>(n, v)\<in>set (extra_headers p caller). n = ''x-opencode-session'')"

lemma builtin_single_extra:
  "single_extra AnthropicProvider" "single_extra DeepSeekProvider" "single_extra GeminiProvider" "single_extra MoonshotProvider" "single_extra OllamaProvider"
  "single_extra OpenAiProvider" "single_extra (OpenAiCompatibleProvider b)" "single_extra (OpenCodeZenProvider f)" "single_extra (OpenCodeGoProvider f)"
  "single_extra OpenRouterProvider" "single_extra XaiProvider" "single_extra ZenMuxProvider" "single_extra ZhipuProvider" "single_extra BedrockProvider"
  by (simp_all add: single_extra_def AnthropicProvider_def DeepSeekProvider_def GeminiProvider_def MoonshotProvider_def
      OllamaProvider_def OpenAiProvider_def OpenAiCompatibleProvider_def OpenCodeZenProvider_def OpenCodeGoProvider_def
      OpenRouterProvider_def XaiProvider_def ZenMuxProvider_def ZhipuProvider_def BedrockProvider_def chat_provider_def
      opencode_provider_def Let_def)

lemma builtin_extra_headers:
  assumes "find_provider reg i = Some p" and "(n, v) \<in> set (extra_headers p caller)"
  shows "n = ''x-opencode-session''"
proof -
  have "list_all single_extra (all_providers reg)" by (simp add: all_providers_def builtin_single_extra)
  then have "single_extra p" using assms(1) by (simp add: find_provider_iff list_all_iff)
  with assms(2) show ?thesis unfolding single_extra_def by blast
qed

lemma extra_header_other:
  assumes "http_lawful E" and "\<forall>(m, v)\<in>set xs. to_lowercase m \<noteq> n"
  shows "fold (extra_header E) xs h n = h n"
  using assms(2)
proof (induction xs arbitrary: h)
  case (Cons x xs)
  obtain m v where x: "x = (m, v)" by fastforce
  have "extra_header E x h n = h n"
    using Cons.prems assms(1) by (cases "name_ok E m") (auto simp: x extra_header_def header_ops http_lawful_def)
  then show ?case using Cons by simp
qed simp

lemma extra_headers_other:
  assumes "http_lawful E" and "find_provider reg i = Some p" and "n \<noteq> ''x-opencode-session''"
  shows "inject_provider_extra_headers E p caller h n = h n"
proof -
  have lower: "to_lowercase ''x-opencode-session'' = ''x-opencode-session''" by code_simp
  have "to_lowercase m \<noteq> n" if "(m, v) \<in> set (extra_headers p (effective_caller caller))" for m v
    using assms(3) unfolding builtin_extra_headers [OF assms(2) that] lower by blast
  then have "\<forall>(m, v)\<in>set (extra_headers p (effective_caller caller)). to_lowercase m \<noteq> n" by blast
  from extra_header_other [OF assms(1) this] show ?thesis by (simp add: inject_provider_extra_headers_def)
qed

subsection \<open>Whose credentials are sent\<close>

text \<open>
  What the token manager does to the headers of a call: nothing, the injection of a token, or a failure; which of them does
  not depend on the headers.
\<close>

datatype oauth_outcome = Not_OAuth | Token_Error string | Inject string "string option" OAuthTargetConfig

fun outcome_apply :: "http_env \<Rightarrow> oauth_outcome \<Rightarrow> HeaderMap \<Rightarrow> string + bool \<times> HeaderMap" where
  "outcome_apply E Not_OAuth h = Inr (False, h)"
| "outcome_apply E (Token_Error e) h = Inl e"
| "outcome_apply E (Inject tok account c) h = map_sum (\<lambda>e. e) (Pair True) (inject_token E h tok account c)"

definition agree :: "string set \<Rightarrow> HeaderMap \<Rightarrow> HeaderMap \<Rightarrow> bool" where
  "agree N h h' \<longleftrightarrow> (\<forall>n\<in>N. h n = h' n)"

lemma agree_insert: "agree N h h' \<Longrightarrow> agree N (header_insert n v h) (header_insert n v h')"
  by (simp add: agree_def header_insert_def)

lemma agree_entry: "agree N h h' \<Longrightarrow> agree N (entry_or_insert n v h) (entry_or_insert n v h')"
  by (auto simp: agree_def entry_or_insert_def header_insert_def contains_key_def)

definition agree_result :: "string set \<Rightarrow> 'e + HeaderMap \<Rightarrow> 'e + HeaderMap \<Rightarrow> bool" where
  "agree_result N r r' \<longleftrightarrow> (case (r, r') of (Inr h, Inr h') \<Rightarrow> agree N h h' | (Inl e, Inl e') \<Rightarrow> e = e' | _ \<Rightarrow> False)"

lemma agree_result_Inr [simp]: "agree_result N (Inr h) (Inr h') \<longleftrightarrow> agree N h h'"
  by (simp add: agree_result_def)

lemma agree_result_Inl [simp]: "agree_result N (Inl e) (Inl e)"
  by (simp add: agree_result_def)

lemma agree_checked_insert:
  "agree N h h' \<Longrightarrow> agree_result N (checked_insert E bv bn (n, v) h) (checked_insert E bv bn (n, v) h')"
  by (auto simp: checked_insert_def intro: agree_insert split: option.split)

lemma agree_bind:
  assumes "agree_result N r r'" and "\<And>h h'. agree N h h' \<Longrightarrow> agree_result N (f h) (f h')"
  shows "agree_result N (bind_rust r f) (bind_rust r' f)"
  using assms by (cases r; cases r') (auto simp: agree_result_def)

lemma agree_insert_extras: "agree N h h' \<Longrightarrow> agree_result N (insert_extras E xs h) (insert_extras E xs h')"
  by (induction xs arbitrary: h h') (auto intro!: agree_bind agree_checked_insert)

lemma agree_inject_token: "agree N h h' \<Longrightarrow> agree_result N (inject_token E h tok account c) (inject_token E h' tok account c)"
  unfolding inject_token_def Let_def
  by (intro agree_bind agree_checked_insert agree_insert_extras) (auto intro: agree_insert split: option.split)

lemma agree_apply_auth: "agree N h h' \<Longrightarrow> agree_result N (apply_auth E a target h) (apply_auth E a target h')"
  by (cases a) (auto simp: Let_def intro: agree_insert agree_entry split: option.split)

lemma agree_extra_headers: "agree N h h' \<Longrightarrow> agree N (inject_provider_extra_headers E p caller h) (inject_provider_extra_headers E p caller h')"
proof -
  have "agree N h h' \<Longrightarrow> agree N (fold (extra_header E) xs h) (fold (extra_header E) xs h')" for xs
  proof (induction xs arbitrary: h h')
    case (Cons x xs)
    have "agree N (extra_header E x h) (extra_header E x h')"
      using Cons.prems by (auto simp: extra_header_def intro: agree_entry split: option.split prod.split)
    with Cons.IH show ?case by simp
  qed simp
  then show "agree N h h' \<Longrightarrow> ?thesis" by (simp add: inject_provider_extra_headers_def)
qed

lemma agree_map_sum:
  assumes "agree_result N r r'" and "\<And>h h'. agree N h h' \<Longrightarrow> agree N (f h) (f h')"
  shows "agree_result N (map_sum g f r) (map_sum g f r')"
  using assms by (cases r; cases r') (auto simp: agree_result_def)

lemma agree_apply_provider_auth:
  assumes "agree N h h'"
  shows "agree_result N (apply_provider_auth E reg (outcome_apply E out) target caller h)
    (apply_provider_auth E reg (outcome_apply E out) target caller h')"
proof (cases out)
  case (Inject tok account c)
  show ?thesis using agree_inject_token [OF assms, of E tok account c]
    by (cases "inject_token E h tok account c"; cases "inject_token E h' tok account c")
      (auto simp: apply_provider_auth_def Inject agree_result_def intro: agree_extra_headers split: option.split)
next
  case Not_OAuth
  show ?thesis using assms
    by (auto simp: apply_provider_auth_def Not_OAuth simp del: apply_auth.simps
        intro!: agree_map_sum agree_apply_auth agree_extra_headers agree_insert split: option.split ProtocolSuite.split)
qed (simp add: apply_provider_auth_def)

lemma credential_stages:
  assumes "n \<in> credential_names"
  shows "codex_stage E target q h n = h n"
    and "anthropic_stage E reg target q h = Inr h' \<Longrightarrow> h' n = h n"
    and "apply_gateway_identity_headers client h policy c n = h n"
proof -
  show "codex_stage E target q h n = h n"
    using assms codex_headers_other [of n] by (auto simp: codex_stage_def credential_names_def)
  show "apply_gateway_identity_headers client h policy c n = h n"
    using assms identity_headers_other [of n] by (auto simp: credential_names_def)
  assume "anthropic_stage E reg target q h = Inr h'"
  then have "anthropic_apply_headers E reg target (eg_stream q) (eg_request_id q) h = Inr h' \<or> h' = h"
    by (cases "anthropic_apply_headers E reg target (eg_stream q) (eg_request_id q) h")
      (simp_all add: anthropic_stage_def split: if_splits)
  then show "h' n = h n"
    using assms anthropic_headers_other [of E reg target "eg_stream q" "eg_request_id q" h h' n] by (auto simp: credential_names_def)
qed

lemma upstream_request_headers_Inr:
  assumes "upstream_request_headers E reg mgr target q base = Inr h"
  obtains h0 where
    "apply_provider_auth E reg mgr target (eg_caller q) (merge_client_headers (eg_client q) base (eg_policy q)) = Inr h0"
    and "\<forall>n\<in>credential_names. h n = h0 n"
  using assms that by (auto simp: upstream_request_headers_def credential_stages)

lemma credentials_from_outcome:
  assumes "upstream_request_headers E reg (outcome_apply E out) target q base = Inr h"
    and "upstream_request_headers E reg (outcome_apply E out) target q' base = Inr h'"
    and "eg_policy q = with_request_deny_extra with_defaults extras" and "eg_policy q' = with_request_deny_extra with_defaults extras'"
    and "eg_caller q = eg_caller q'" and "n \<in> credential_names"
  shows "h n = h' n"
proof -
  let ?m = "\<lambda>q. merge_client_headers (eg_client q) base (eg_policy q)"
  have "agree credential_names (?m q) (?m q')" by (simp add: agree_def assms(3,4) credential_not_merged)
  from agree_apply_provider_auth [OF this, of E reg out target "eg_caller q"] assms(5) show ?thesis
    using upstream_request_headers_Inr [OF assms(1)] upstream_request_headers_Inr [OF assms(2)] assms(6)
    by (metis agree_def agree_result_Inr)
qed

text \<open>
  The interface of the token manager, as the executor relies on it: what it does is decided before it sees the headers of the call.  Then
  the credentials that an upstream receives do not depend on what the client sends.
\<close>

locale token_service =
  fixes E :: http_env
    and give :: "HeaderMap \<Rightarrow> string + bool \<times> HeaderMap"
  assumes decided_first: "\<exists>out. \<forall>h. give h = outcome_apply E out h"
begin

lemma credentials_fixed:
  assumes "upstream_request_headers E reg give target q base = Inr h" and "upstream_request_headers E reg give target q' base = Inr h'"
    and "eg_policy q = with_request_deny_extra with_defaults extras" and "eg_policy q' = with_request_deny_extra with_defaults extras'"
    and "eg_caller q = eg_caller q'" and "n \<in> credential_names"
  shows "h n = h' n"
proof -
  obtain out where "give = outcome_apply E out" using decided_first by blast
  with assms show ?thesis using credentials_from_outcome by blast
qed

end

text \<open>The applier of a target that is not in OAuth mode, and the header it sets.\<close>

definition static_applier :: "registry \<Rightarrow> RoutingTarget \<Rightarrow> auth_applier" where
  "static_applier reg target = (case find_provider reg (lookup_key target) of
     Some p \<Rightarrow> prov_auth p
   | None \<Rightarrow> (case pe_suite (api_protocol target) of
       AnthropicMessages \<Rightarrow> HeaderApiKeyAuthApplier ''x-api-key''
     | GoogleGemini \<Rightarrow> HeaderApiKeyAuthApplier ''x-goog-api-key''
     | _ \<Rightarrow> BearerAuthApplier))"

fun credential_of :: "auth_applier \<Rightarrow> string \<Rightarrow> string \<Rightarrow> string list" where
  "credential_of BearerAuthApplier key n = (if n = ''authorization'' then [''Bearer '' @ key] else [])"
| "credential_of (HeaderApiKeyAuthApplier name) key n = (if n = to_lowercase name then [key] else [])"
| "credential_of BedrockAuthApplier key n = (if n = ''authorization'' then [''AWS4-HMAC-SHA256 placeholder''] else [])"

lemma apply_auth_credential:
  assumes "http_lawful E" and "apply_auth E a target h = Inr h'" and "\<forall>n\<in>credential_names. h n = []" and "n \<in> credential_names"
  shows "h' n = credential_of a (effective_api_key target) n"
proof -
  have "h n = []" "h ''authorization'' = []" using assms(3,4) by (auto simp: credential_names_def)
  then show ?thesis using assms(1,2)
    by (cases a) (auto simp: Let_def header_ops http_lawful_def split: if_splits option.splits)
qed


subsection \<open>Beta flags\<close>

lemma trim_trim [simp]: "trim (trim s) = trim s"
proof -
  define a where "a = dropWhile is_whitespace s"
  define b where "b = rev (dropWhile is_whitespace (rev a))"
  have t: "trim s = b" by (simp add: trim_def a_def b_def)
  have rear: "dropWhile is_whitespace (rev b) = rev b" by (simp add: b_def)
  have front: "dropWhile is_whitespace b = b"
  proof (cases b)
    case (Cons c cs)
    have "prefix b a" unfolding b_def by (metis suffix_dropWhile suffix_to_prefix rev_rev_ident)
    with Cons have "hd a = c" "a \<noteq> []" by (auto simp: prefix_def)
    then have "\<not> is_whitespace c" unfolding a_def using hd_dropWhile by blast
    with Cons show ?thesis by simp
  qed simp
  show ?thesis unfolding t by (simp add: trim_def front rear)
qed

lemma set_trim: "set (trim s) \<subseteq> set s"
  unfolding trim_def by (auto dest!: set_dropWhileD)

lemma split_on_plain: "sep \<notin> set a \<Longrightarrow> split_on sep a = [a]"
  by (induction a) auto

lemma split_on_sep: "sep \<notin> set a \<Longrightarrow> split_on sep (a @ sep # b) = a # split_on sep b"
  by (induction a) auto

lemma split_on_parts: "a \<in> set (split_on sep s) \<Longrightarrow> sep \<notin> set a"
proof (induction s arbitrary: a)
  case (Cons c s)
  obtain q qs where "split_on sep s = q # qs" by (cases "split_on sep s") simp_all
  with Cons show ?case by (auto split: if_splits)
qed simp

lemma split_join: "xs \<noteq> [] \<Longrightarrow> \<forall>x\<in>set xs. sep \<notin> set x \<Longrightarrow> split_on sep (join_with [sep] xs) = xs"
  by (induction "[sep]" xs rule: join_with.induct) (simp_all add: split_on_plain split_on_sep)

definition plain_flag :: "string \<Rightarrow> bool" where
  "plain_flag b \<longleftrightarrow> b \<noteq> [] \<and> trim b = b \<and> CHR '','' \<notin> set b"

lemma beta_flags_flag: "b \<in> set (beta_flags v) \<Longrightarrow> plain_flag b"
  using set_trim split_on_parts by (fastforce simp: beta_flags_def plain_flag_def)

lemma beta_flags_join:
  assumes "xs \<noteq> []" and "\<forall>x\<in>set xs. plain_flag x"
  shows "beta_flags (join_with '','' xs) = xs"
proof -
  have "split_on (CHR '','') (join_with '','' xs) = xs" using split_join [of xs "CHR '',''"] assms by (simp add: plain_flag_def)
  moreover have "map trim xs = xs" "filter (\<lambda>b. b \<noteq> []) xs = xs"
    using assms(2) by (auto simp: plain_flag_def map_idI filter_id_conv)
  ultimately show ?thesis by (simp add: beta_flags_def)
qed

lemma push_unseen_fold:
  "set (fold push_unseen bs betas) = set bs \<union> set betas" "distinct betas \<Longrightarrow> distinct (fold push_unseen bs betas)"
  by (induction bs arbitrary: betas) (auto simp: push_unseen_def)

lemma collect_betas_Some:
  "collect_betas E vs betas = Some r \<Longrightarrow> set r = set betas \<union> (\<Union>v\<in>set vs. set (beta_flags v)) \<and> (distinct betas \<longrightarrow> distinct r)"
  by (induction vs arbitrary: betas) (auto simp: push_unseen_fold split: if_splits)

text \<open>
  A request under the Anthropic OAuth profile carries one beta header; read back, it has every flag that the client asked for and every
  flag that the profile requires, each of them once.
\<close>

theorem required_betas_merged:
  assumes "anthropic_apply_headers E reg target stream rid h = Inr h'"
  shows "\<exists>v. h' ''anthropic-beta'' = [v] \<and> distinct (beta_flags v) \<and>
    set (beta_flags v) = set ANTHROPIC_OAUTH_BETAS \<union> (\<Union>w\<in>set (h ''anthropic-beta''). set (beta_flags w))"
proof -
  obtain h1 where m: "merge_required_betas E h = Inr h1" and h1: "h' ''anthropic-beta'' = h1 ''anthropic-beta''"
    by (rule anthropic_headers_Inr [OF assms]) simp
  from m obtain r where r: "collect_betas E (h ''anthropic-beta'') [] = Some r"
    and v: "h1 ''anthropic-beta'' = [join_with '','' (fold push_unseen ANTHROPIC_OAUTH_BETAS r)]"
    by (auto simp: merge_required_betas_def header_insert_def Let_def split: option.splits if_splits)
  let ?bs = "fold push_unseen ANTHROPIC_OAUTH_BETAS r"
  note c = collect_betas_Some [OF r]
  have s: "set ?bs = set ANTHROPIC_OAUTH_BETAS \<union> (\<Union>w\<in>set (h ''anthropic-beta''). set (beta_flags w))"
    using c by (simp add: push_unseen_fold)
  have "list_all plain_flag ANTHROPIC_OAUTH_BETAS" by code_simp
  then have "\<forall>x\<in>set ?bs. plain_flag x" unfolding s list_all_iff using beta_flags_flag by blast
  moreover have "set ANTHROPIC_OAUTH_BETAS \<noteq> {}" by (simp add: ANTHROPIC_OAUTH_BETAS_def)
  then have "?bs \<noteq> []" using s by (metis set_empty Un_empty)
  ultimately have "beta_flags (join_with '','' ?bs) = ?bs" by (intro beta_flags_join)
  with s c v h1 show ?thesis by (simp add: push_unseen_fold)
qed

subsection \<open>What the client receives\<close>

definition forwarded :: "http_env \<Rightarrow> HeaderForwardPolicy \<Rightarrow> (string \<times> string) list \<Rightarrow> (string \<times> string) list" where
  "forwarded E policy upstream = List.map_filter (\<lambda>(n, v).
     if should_forward_response policy n \<and> value_ok E v then map_option (\<lambda>hn. (hn, v)) (name_ok E n) else None) upstream"

lemma forward_fold:
  "fold (forward_resp_header E policy) upstream resp n =
     (case map_of (rev (forwarded E policy upstream)) n of Some v \<Rightarrow> [v] | None \<Rightarrow> resp n)"
proof (induction upstream rule: rev_induct)
  case (snoc x xs)
  obtain m v where x: "x = (m, v)" by fastforce
  have "forwarded E policy (xs @ [x]) = forwarded E policy xs @ forwarded E policy [x]"
    by (simp add: forwarded_def map_filter_def)
  with snoc show ?case
    by (auto simp: x forward_resp_header_def forwarded_def List.map_filter_simps header_insert_def map_add_def split: option.splits)
qed (simp add: forwarded_def List.map_filter_simps)

text \<open>
  A response carries the id of the request in this gateway, never one of the upstream; every other header is the last one of
  that name that the upstream sent and the policy lets through, or else what the gateway has set itself.
\<close>

theorem response_headers_exact:
  assumes "value_ok E rid"
  shows "forward_upstream_resp_headers E resp upstream policy rid n =
    (if n = ''x-request-id'' then [rid]
     else case map_of (rev (forwarded E policy upstream)) n of Some v \<Rightarrow> [v] | None \<Rightarrow> resp n)"
  using assms
  by (simp add: forward_upstream_resp_headers_def set_gateway_request_id_header_def forward_fold header_insert_def GATEWAY_REQUEST_ID_HEADER_def)

text \<open>
  Of a header that the upstream repeats, such as \<^verbatim>\<open>set-cookie\<close>, the client receives the last value only, while the log of the
  response, which is meant to match what the client receives, has them all.
\<close>

theorem repeated_header_lost:
  assumes "should_forward_response policy n" and "name_ok E n = Some n" and "value_ok E a" and "value_ok E b" and "value_ok E rid"
    and "to_lowercase n \<noteq> ''x-request-id''"
  shows "forward_upstream_resp_headers E resp [(n, a), (n, b)] policy rid n = [b] \<and>
    {(n, a), (n, b)} \<subseteq> set (forwarded_resp_headers_for_capture [(n, a), (n, b)] policy rid)"
proof -
  have x: "to_lowercase ''x-request-id'' = ''x-request-id''" by code_simp
  with assms(6) have "n \<noteq> ''x-request-id''" by metis
  with assms x show ?thesis
    by (simp add: forward_upstream_resp_headers_def forward_resp_header_def set_gateway_request_id_header_def header_insert_def
        GATEWAY_REQUEST_ID_HEADER_def forwarded_resp_headers_for_capture_def eq_ignore_ascii_case_def)
qed

subsection \<open>Witnesses\<close>

definition demo_http :: http_env where
  "demo_http = \<lparr>name_ok = (\<lambda>n. if n = [] then None else Some (to_lowercase n)), value_ok = (\<lambda>_. True), readable = (\<lambda>_. True),
     invalid_name_text = ''invalid HTTP header name'', invalid_value_text = ''failed to parse header value'',
     unreadable_text = ''failed to convert header to a str''\<rparr>"

definition egress_registry :: registry where
  "egress_registry = \<lparr>sha256_hex = (\<lambda>_. replicate 64 CHR ''a''), compatible_base = None, with_bedrock = False\<rparr>"

definition key_target :: RoutingTarget where
  "key_target = \<lparr>provider_id = ''p1'', vendor = Some ''acme'', model_id = ''m'', api_base = ''https://api.acme.test/v1'', api_key = ''sk-up'',
     api_protocol = default_endpoint AnthropicMessages, account_label = None, api_key_override = None,
     api_base_override = None, weight = 1, oauth = None\<rparr>"

definition egress_demo :: "(string \<times> string) list \<Rightarrow> egress_request" where
  "egress_demo client = \<lparr>eg_client = client, eg_policy = with_request_deny_extra with_defaults [], eg_stream = True,
     eg_request_id = ''r1'', eg_caller = ''k1'', eg_session_key = None, eg_uuid = ''u1''\<rparr>"

lemma demo_no_provider: "find_provider egress_registry ''acme'' = None"
  by (simp add: find_provider_def all_providers_def egress_registry_def AnthropicProvider_def DeepSeekProvider_def GeminiProvider_def
      MoonshotProvider_def OllamaProvider_def OpenAiProvider_def OpenAiCompatibleProvider_def OpenCodeZenProvider_def
      OpenCodeGoProvider_def OpenRouterProvider_def XaiProvider_def ZenMuxProvider_def ZhipuProvider_def chat_provider_def
      opencode_provider_def simple_provider_def Let_def)

lemma demo_sent:
  "\<exists>h. upstream_request_headers demo_http egress_registry (outcome_apply demo_http Not_OAuth) key_target (egress_demo client) no_headers = Inr h"
  using demo_no_provider
  by (simp add: upstream_request_headers_def apply_provider_auth_def anthropic_stage_def anthropic_is_enabled_def demo_http_def lookup_key_def
      key_target_def default_endpoint_def ProtocolEndpoint_new_def)


theorem required_betas_merged_witness:
  "\<exists>h' v. anthropic_apply_headers demo_http egress_registry key_target True ''r1'' (no_headers(''anthropic-beta'' := [''mine, oauth-2025-04-20''])) = Inr h' \<and>
     h' ''anthropic-beta'' = [v] \<and> ''mine'' \<in> set (beta_flags v)"
proof -
  obtain h' where h': "anthropic_apply_headers demo_http egress_registry key_target True ''r1''
      (no_headers(''anthropic-beta'' := [''mine, oauth-2025-04-20''])) = Inr h'"
    by (simp add: anthropic_apply_headers_def merge_required_betas_def demo_http_def Let_def)
  have "''mine'' \<in> set (beta_flags ''mine, oauth-2025-04-20'')" by code_simp
  with required_betas_merged [OF h'] h' show ?thesis by (auto simp: no_headers_def)
qed

theorem response_headers_exact_witness:
  "forward_upstream_resp_headers demo_http no_headers [(''X-Request-Id'', ''theirs'')] empty_policy ''ours'' ''x-request-id'' = [''ours'']"
  using response_headers_exact [of demo_http "''ours''"] by (simp add: demo_http_def)

theorem repeated_header_lost_witness:
  "forward_upstream_resp_headers demo_http no_headers [(''set-cookie'', ''a=1''), (''set-cookie'', ''b=2'')] with_defaults ''r1'' ''set-cookie'' = [''b=2'']"
proof -
  have "to_lowercase ''set-cookie'' = ''set-cookie''" "should_forward_response with_defaults ''set-cookie''" by code_simp+
  then show ?thesis using repeated_header_lost [of with_defaults "''set-cookie''" demo_http "''a=1''" "''b=2''" "''r1''"]
    by (simp add: demo_http_def)
qed

end
