(* ===== verification/Snapshot.thy ===== *)
theory Snapshot
  imports Providers
begin

section \<open>From the configuration to the routing table\<close>

text \<open>
  The model of the rows of \<^verbatim>\<open>crates/store/src/models.rs\<close> and of the pure half of \<^verbatim>\<open>crates/store/src/config_store.rs\<close>: how a
  snapshot of the providers and routes becomes the routing table of the data plane.  Timestamps are numbers, the
  metadata of a model card is the JSON value that is stored for it, and \<open>parse_json\<close> is \<^verbatim>\<open>serde_json::from_str\<close>.
  A hash map is a map, because the loop over it fills another one under the same keys.
\<close>

subsection \<open>Rows\<close>

datatype AuthMode = ApiKeyMode | OAuthMode | IamMode | NoAuthMode

fun auth_mode_as_str :: "AuthMode \<Rightarrow> string" where
  "auth_mode_as_str ApiKeyMode = ''api_key''"
| "auth_mode_as_str OAuthMode = ''oauth''"
| "auth_mode_as_str IamMode = ''iam''"
| "auth_mode_as_str NoAuthMode = ''none''"

definition auth_mode_parse :: "string \<Rightarrow> AuthMode option" where
  "auth_mode_parse s =
     (if s = ''api_key'' then Some ApiKeyMode
      else if s = ''oauth'' then Some OAuthMode
      else if s = ''iam'' then Some IamMode
      else if s = ''none'' then Some NoAuthMode
      else None)"

interpretation auth_mode: canonical_enum auth_mode_as_str auth_mode_parse
proof
  fix x show "auth_mode_parse (auth_mode_as_str x) = Some x" by (cases x) (simp_all add: auth_mode_parse_def)
next
  fix s x assume "auth_mode_parse s = Some x"
  then show "auth_mode_as_str x = s" by (auto simp: auth_mode_parse_def split: if_splits)
qed

datatype OAuthCredentialStatus = Healthy_credential | Invalid_credential | Error_credential

fun credential_status_as_str :: "OAuthCredentialStatus \<Rightarrow> string" where
  "credential_status_as_str Healthy_credential = ''healthy''"
| "credential_status_as_str Invalid_credential = ''invalid''"
| "credential_status_as_str Error_credential = ''error''"

record Provider =
  pr_id :: string
  pr_name :: string
  pr_vendor :: string
  pr_api_base :: string
  models_endpoint :: string
  encrypted_api_key :: string
  encrypted_usage_management_key :: string
  auth_mode :: AuthMode
  encrypted_oauth_meta :: string
  metadata_json :: json
  pr_enabled :: bool
  pr_created_at :: nat
  pr_updated_at :: nat
  api_key_cleartext :: "string option"
  usage_management_key_cleartext :: "string option"
  oauth_meta_cleartext :: "string option"

record RouteTarget =
  rt_provider_id :: string
  rt_model_id :: string
  rt_weight :: rat
  rt_enabled :: bool
  rt_account_label :: "string option"
  rt_api_key_override :: "string option"
  rt_api_base_override :: "string option"

record Route =
  route_id :: string
  virtual_model :: string
  route_targets :: "RouteTarget list"
  routing_strategy :: "RoutingStrategyName option"
  model_metadata :: "json option"
  route_enabled :: bool
  route_created_at :: nat
  route_updated_at :: nat

record ConfigSnapshot =
  snap_epoch :: int
  snap_providers :: "string \<rightharpoonup> Provider"
  snap_routes :: "string \<rightharpoonup> Route"

subsection \<open>OAuth configuration\<close>

definition XAI_API_KEY_ONLY_ERROR :: string where
  "XAI_API_KEY_ONLY_ERROR = ''xAI OAuth is temporarily disabled; configure xAI with auth_mode '' @
     [CHR 0x27] @ ''api_key'' @ [CHR 0x27]"

definition validate_provider_auth_mode :: "string \<Rightarrow> AuthMode \<Rightarrow> string + unit" where
  "validate_provider_auth_mode vend mode =
     (if eq_ignore_ascii_case vend ''xai'' \<and> mode \<noteq> ApiKeyMode then Inl XAI_API_KEY_ONLY_ERROR else Inr ())"

definition OPENAI_PLATFORM_BASE_URL :: string where
  "OPENAI_PLATFORM_BASE_URL = ''https://api.openai.com/v1''"

definition OPENAI_CODEX_BASE_URL :: string where
  "OPENAI_CODEX_BASE_URL = ''https://chatgpt.com/backend-api/codex''"

definition OPENAI_CODEX_DESKTOP_ORIGINATOR :: string where
  "OPENAI_CODEX_DESKTOP_ORIGINATOR = ''Codex Desktop''"

definition OPENAI_CODEX_DESKTOP_USER_AGENT :: string where
  "OPENAI_CODEX_DESKTOP_USER_AGENT =
     ''Codex Desktop/0.144.0-alpha.4 (Mac OS 26.5.2; arm64) unknown (Codex Desktop; 26.707.51957)''"

text \<open>The derived deserialiser of the transport: a string, or an object whose only entry has a null value.\<close>

definition transport_of_name :: "string \<Rightarrow> UpstreamTransport option" where
  "transport_of_name s =
     (if s = ''http'' then Some Http
      else if s = ''codex_responses_websocket'' then Some CodexResponsesWebSocket
      else None)"

fun transport_from_value :: "json \<Rightarrow> UpstreamTransport option" where
  "transport_from_value (JString s) = transport_of_name s"
| "transport_from_value (JObject [(k, JNull)]) = transport_of_name k"
| "transport_from_value _ = None"

definition str_member :: "json \<Rightarrow> string \<Rightarrow> string option" where
  "str_member j k = Option.bind (get j k) as_str"

definition header_pair :: "json \<Rightarrow> (string \<times> string) option" where
  "header_pair entry = (case (str_member entry ''name'', str_member entry ''value'') of
     (Some n, Some v) \<Rightarrow> Some (n, v) | _ \<Rightarrow> None)"

definition vendor_egress_profile :: "string \<Rightarrow> OAuthEgressProfile" where
  "vendor_egress_profile vend =
     (if vend = ''openai'' then OpenAiCodex
      else if vend = ''anthropic'' then AnthropicOAuth
      else Standard)"

definition oauth_request_style :: "string \<Rightarrow> json \<Rightarrow> TokenRequestStyle" where
  "oauth_request_style vend oauth_meta =
     (let default = (if vend = ''anthropic'' then Json_body else Form)
      in case str_member oauth_meta ''token_request_style'' of
           Some style \<Rightarrow> (if style = ''form'' then Form else if style = ''json'' then Json_body else default)
         | None \<Rightarrow> default)"

text \<open>A header is added unless the list already names it.\<close>

definition push_header :: "(string \<Rightarrow> bool) \<Rightarrow> string \<times> string \<Rightarrow> (string \<times> string) list \<Rightarrow> (string \<times> string) list" where
  "push_header same h hs = (if \<exists>(n, _)\<in>set hs. same n then hs else hs @ [h])"

definition oauth_headers :: "string \<Rightarrow> string option \<Rightarrow> json \<Rightarrow> (string \<times> string) list" where
  "oauth_headers vend account oauth_meta =
     (let configured = (case Option.bind (get oauth_meta ''extra_headers'') as_array of
            Some entries \<Rightarrow> List.map_filter header_pair entries | None \<Rightarrow> []);
          hs = (if vend = ''anthropic''
                then push_header (\<lambda>n. n = ''anthropic-beta'') (''anthropic-beta'', ''oauth-2025-04-20'') configured
                else configured)
      in if vend = ''openai''
         then push_header (\<lambda>n. eq_ignore_ascii_case n ''user-agent'') (''user-agent'', OPENAI_CODEX_DESKTOP_USER_AGENT)
                (push_header (\<lambda>n. eq_ignore_ascii_case n ''originator'') (''originator'', OPENAI_CODEX_DESKTOP_ORIGINATOR)
                  (case account of
                     Some a \<Rightarrow> push_header (\<lambda>n. eq_ignore_ascii_case n ''chatgpt-account-id'') (''chatgpt-account-id'', a) hs
                   | None \<Rightarrow> hs))
         else hs)"

definition oauth_meta_field :: "(string \<Rightarrow> json option) \<Rightarrow> Provider \<Rightarrow> string \<Rightarrow> string option" where
  "oauth_meta_field parse_json p k =
     Option.bind (oauth_meta_cleartext p) (\<lambda>s. Option.bind (parse_json s) (\<lambda>m. str_member m k))"

definition build_oauth_target_config :: "(string \<Rightarrow> json option) \<Rightarrow> Provider \<Rightarrow> OAuthTargetConfig option" where
  "build_oauth_target_config parse_json p =
     (case validate_provider_auth_mode (pr_vendor p) (auth_mode p) of Inl _ \<Rightarrow> None | Inr _ \<Rightarrow>
      (case get (metadata_json p) ''oauth'' of None \<Rightarrow> None | Some oauth_meta \<Rightarrow>
       (let url = unwrap_or (str_member oauth_meta ''token_url'') [];
            client = unwrap_or (str_member oauth_meta ''client_id'') [];
            account = (case oauth_meta_field parse_json p ''account_id'' of
              Some a \<Rightarrow> (if a = [] then None else Some a) | None \<Rightarrow> None)
        in if url = [] \<or> client = [] then None
           else Some \<lparr>upstream_transport = unwrap_or (Option.bind (get (metadata_json p) ''upstream_transport'') transport_from_value) Http,
             egress_profile = vendor_egress_profile (pr_vendor p),
             token_url = url, client_id = client, client_secret = None,
             refresh_token = unwrap_or (oauth_meta_field parse_json p ''refresh_token'') [],
             scopes = (case Option.bind (get oauth_meta ''scopes'') as_array of
               Some xs \<Rightarrow> List.map_filter as_str xs | None \<Rightarrow> []),
             token_request_style = oauth_request_style (pr_vendor p) oauth_meta,
             authorization_header = str_member oauth_meta ''authorization_header'',
             authorization_prefix = str_member oauth_meta ''authorization_prefix'',
             oauth_extra_headers = oauth_headers (pr_vendor p) account oauth_meta,
             account_id = account\<rparr>)))"

subsection \<open>The routing table\<close>

definition provider_egress_for_target :: "registry \<Rightarrow> Provider \<Rightarrow> string \<Rightarrow> string \<Rightarrow> ProtocolEndpoint \<times> string" where
  "provider_egress_for_target reg p model raw_base = (case find_provider reg (pr_vendor p) of
     Some upstream \<Rightarrow> (let endpoint = egress_protocol_for_model upstream model in (endpoint, egress_api_base upstream raw_base endpoint))
   | None \<Rightarrow> (default_endpoint OpenAiCompatible, raw_base))"

definition target_api_key :: "Provider \<Rightarrow> string" where
  "target_api_key p = (case auth_mode p of
     ApiKeyMode \<Rightarrow> (if encrypted_api_key p = [] then []
       else case api_key_cleartext p of
              Some k \<Rightarrow> k
            | None \<Rightarrow> unwrap_or (str_member (metadata_json p) ''__decrypted_api_key'') [])
   | _ \<Rightarrow> [])"

definition target_raw_base :: "Provider \<Rightarrow> RouteTarget \<Rightarrow> string" where
  "target_raw_base p t =
     (let raw_base = unwrap_or (rt_api_base_override t) (pr_api_base p)
      in if pr_vendor p = ''openai'' \<and> auth_mode p = OAuthMode \<and>
            (trim raw_base = [] \<or> trim_end_matches slash raw_base = OPENAI_PLATFORM_BASE_URL)
         then OPENAI_CODEX_BASE_URL else raw_base)"

definition routing_target :: "registry \<Rightarrow> (string \<Rightarrow> json option) \<Rightarrow> Provider \<Rightarrow> RouteTarget \<Rightarrow> RoutingTarget" where
  "routing_target reg parse_json p t =
     (let (protocol, base) = provider_egress_for_target reg p (rt_model_id t) (target_raw_base p t)
      in \<lparr>provider_id = pr_id p, vendor = Some (pr_vendor p), model_id = rt_model_id t, api_base = base,
          api_key = target_api_key p, api_protocol = protocol, account_label = rt_account_label t,
          api_key_override = rt_api_key_override t, api_base_override = map_option (\<lambda>_. base) (rt_api_base_override t),
          weight = rt_weight t,
          oauth = (if auth_mode p = OAuthMode then build_oauth_target_config parse_json p else None)\<rparr>)"

definition usable_provider :: "ConfigSnapshot \<Rightarrow> RouteTarget \<Rightarrow> Provider option" where
  "usable_provider snap t = (if \<not> rt_enabled t then None
     else case snap_providers snap (rt_provider_id t) of
            Some p \<Rightarrow> (if pr_enabled p then Some p else None) | None \<Rightarrow> None)"

definition route_routing_targets :: "registry \<Rightarrow> (string \<Rightarrow> json option) \<Rightarrow> ConfigSnapshot \<Rightarrow> Route \<Rightarrow> RoutingTarget list" where
  "route_routing_targets reg parse_json snap route =
     List.map_filter (\<lambda>t. map_option (\<lambda>p. routing_target reg parse_json p t) (usable_provider snap t)) (route_targets route)"

definition snapshot_to_routing_table :: "registry \<Rightarrow> (string \<Rightarrow> json option) \<Rightarrow> ConfigSnapshot \<Rightarrow> RoutingTable" where
  "snapshot_to_routing_table reg parse_json snap = (\<lambda>vm. case snap_routes snap vm of
     None \<Rightarrow> None
   | Some route \<Rightarrow> (if \<not> route_enabled route then None
       else let ts = route_routing_targets reg parse_json snap route
            in if ts = [] then None else Some \<lparr>re_targets = ts, re_strategy = routing_strategy route\<rparr>))"

subsection \<open>What the table holds\<close>

text \<open>The target of a route that its row can be served by, and what the table says of it.\<close>

definition live :: "ConfigSnapshot \<Rightarrow> RouteTarget \<Rightarrow> bool" where
  "live snap t \<longleftrightarrow> rt_enabled t \<and> (\<exists>p. snap_providers snap (rt_provider_id t) = Some p \<and> pr_enabled p)"

definition serves :: "ConfigSnapshot \<Rightarrow> RouteTarget \<Rightarrow> RoutingTarget \<Rightarrow> bool" where
  "serves snap t r \<longleftrightarrow> (\<exists>p. snap_providers snap (rt_provider_id t) = Some p \<and> pr_enabled p \<and>
     provider_id r = pr_id p \<and> vendor r = Some (pr_vendor p) \<and> model_id r = rt_model_id t \<and> weight r = rt_weight t \<and>
     effective_api_base r = api_base r \<and>
     effective_api_key r = unwrap_or (rt_api_key_override t) (if auth_mode p = ApiKeyMode then target_api_key p else []) \<and>
     (oauth r \<noteq> None \<longrightarrow> auth_mode p = OAuthMode \<and> to_lowercase (pr_vendor p) \<noteq> ''xai'' \<and>
       egress_profile (the (oauth r)) = vendor_egress_profile (pr_vendor p) \<and>
       token_url (the (oauth r)) \<noteq> [] \<and> client_id (the (oauth r)) \<noteq> []))"

lemma map_filter_live:
  assumes "\<And>t. P t \<longleftrightarrow> f t \<noteq> None" and "\<And>t r. f t = Some r \<Longrightarrow> Q t r"
  shows "list_all2 Q (filter P ts) (List.map_filter f ts)"
  using assms by (induction ts) (auto simp: List.map_filter_simps split: option.splits)

lemma usable_provider_Some:
  "usable_provider snap t = Some p \<longleftrightarrow> rt_enabled t \<and> snap_providers snap (rt_provider_id t) = Some p \<and> pr_enabled p"
  by (auto simp: usable_provider_def split: option.splits)

lemma usable_provider_live: "live snap t \<longleftrightarrow> usable_provider snap t \<noteq> None"
  using usable_provider_Some by (auto simp: live_def)

lemma build_oauth_target_config_Some:
  assumes "build_oauth_target_config pj p = Some c" and "auth_mode p = OAuthMode"
  shows "to_lowercase (pr_vendor p) \<noteq> ''xai'' \<and> egress_profile c = vendor_egress_profile (pr_vendor p) \<and>
    token_url c \<noteq> [] \<and> client_id c \<noteq> []"
proof -
  have x: "to_lowercase ''xai'' = ''xai''" by code_simp
  show ?thesis using assms
    by (auto simp: build_oauth_target_config_def validate_provider_auth_mode_def eq_ignore_ascii_case_def x Let_def
        split: option.splits if_splits sum.splits)
qed

lemma routing_target_serves: "usable_provider snap t = Some p \<Longrightarrow> serves snap t (routing_target reg pj p t)"
  using build_oauth_target_config_Some [of pj p]
  by (auto simp: serves_def usable_provider_Some routing_target_def effective_api_base_def effective_api_key_def
      target_api_key_def unwrap_or_def split: prod.splits option.splits AuthMode.splits)

lemma route_routing_targets_live:
  "list_all2 (serves snap) (filter (live snap) (route_targets route)) (route_routing_targets reg pj snap route)"
  unfolding route_routing_targets_def
  by (rule map_filter_live) (auto simp: usable_provider_live routing_target_serves)


text \<open>A configuration with one provider and two targets, one of which is disabled.\<close>

definition demo_provider :: Provider where
  "demo_provider = \<lparr>pr_id = ''p1'', pr_name = ''P'', pr_vendor = ''openai'', pr_api_base = ''https://api.openai.com/v1'',
     models_endpoint = [], encrypted_api_key = ''blob'', encrypted_usage_management_key = [], auth_mode = ApiKeyMode,
     encrypted_oauth_meta = [], metadata_json = JObject [], pr_enabled = True, pr_created_at = 0, pr_updated_at = 0,
     api_key_cleartext = Some ''sk-1'', usage_management_key_cleartext = None, oauth_meta_cleartext = None\<rparr>"

definition demo_row_target :: "string \<Rightarrow> bool \<Rightarrow> RouteTarget" where
  "demo_row_target m on = \<lparr>rt_provider_id = ''p1'', rt_model_id = m, rt_weight = 1, rt_enabled = on, rt_account_label = None,
     rt_api_key_override = None, rt_api_base_override = None\<rparr>"

definition demo_route :: Route where
  "demo_route = \<lparr>route_id = ''r1'', virtual_model = ''vm'',
     route_targets = [demo_row_target ''a'' False, demo_row_target ''gpt-5'' True],
     routing_strategy = None, model_metadata = None, route_enabled = True, route_created_at = 0, route_updated_at = 0\<rparr>"

definition demo_snapshot :: ConfigSnapshot where
  "demo_snapshot = \<lparr>snap_epoch = 1, snap_providers = [''p1'' \<mapsto> demo_provider], snap_routes = [''vm'' \<mapsto> demo_route]\<rparr>"


end
