(* ===== verification/Oauth_Tokens.thy ===== *)
theory Oauth_Tokens
  imports Egress_Headers Snapshot
begin

section \<open>OAuth tokens: requests, responses and the cache\<close>

text \<open>
  The model of \<^verbatim>\<open>crates/auth/src/provider_oauth.rs\<close>: the built-in OAuth clients, the address of a login, the requests to a token
  endpoint and its responses, the identity in an id token, the classification of failures, and the process-wide cache of tokens.

  \<open>oauth_text\<close> holds the packages: the URL-safe base64 code without padding, the SHA-256 digest, the encoding of a query and the
  JSON parser.  A request to the token endpoint is a value; what the HTTP client makes of it is an argument: an answer with a status
  line and a body, or the text of a failure to send it.  Times are nanoseconds.
\<close>

record oauth_text =
  b64url :: "string \<Rightarrow> string"
  b64url_decode :: "string \<Rightarrow> string option"
  digest :: "string \<Rightarrow> string"
  query_encode :: "(string \<times> string) list \<Rightarrow> string"
  from_json :: "string \<Rightarrow> json option"
  json_error_text :: string

subsection \<open>Failures\<close>

datatype OAuthRefreshFailureKind = CredentialInvalid | TransientFailure

fun status_reason :: "OAuthRefreshFailureKind \<Rightarrow> string" where
  "status_reason CredentialInvalid = ''credential_rejected''"
| "status_reason TransientFailure = ''refresh_failed''"

definition rejection_markers :: "string list" where
  "rejection_markers = [''401 unauthorized'', ''403 forbidden'', ''invalid_grant'', ''invalid refresh token'', ''refresh_token_reused'',
     ''refresh token has expired'', ''refresh token is expired'', ''token revoked'']"

definition classify_refresh_failure :: "string \<Rightarrow> OAuthRefreshFailureKind" where
  "classify_refresh_failure e =
     (if list_ex (contains (to_lowercase e)) rejection_markers then CredentialInvalid else TransientFailure)"

subsection \<open>Logins\<close>

definition pkce_challenge :: "oauth_text \<Rightarrow> string \<Rightarrow> string" where
  "pkce_challenge X verifier = b64url X (digest X verifier)"

text \<open>\<open>bytes\<close> are the 96 random bytes.\<close>

definition generate_pkce :: "oauth_text \<Rightarrow> string \<Rightarrow> string \<times> string" where
  "generate_pkce X bytes = (let verifier = b64url X bytes in (verifier, pkce_challenge X verifier))"

record OAuthProviderPreset =
  ps_vendor :: string
  auth_url :: string
  ps_token_url :: string
  ps_client_id :: string
  redirect_url :: string
  ps_scopes :: "string list"
  exchange_request_style :: TokenRequestStyle
  refresh_request_style :: TokenRequestStyle
  send_scopes_in_exchange_request :: bool
  send_state_in_exchange_request :: bool
  refresh_scopes :: "string list"
  extra_authorize_params :: "(string \<times> string) list"

definition codex_preset :: OAuthProviderPreset where
  "codex_preset = \<lparr>ps_vendor = ''openai'', auth_url = ''https://auth.openai.com/oauth/authorize'',
     ps_token_url = ''https://auth.openai.com/oauth/token'', ps_client_id = ''app_EMoamEEZ73f0CkXaXp7hrann'',
     redirect_url = ''http://localhost:1455/auth/callback'', ps_scopes = [''openid'', ''email'', ''profile'', ''offline_access''],
     exchange_request_style = Form, refresh_request_style = Form, send_scopes_in_exchange_request = False,
     send_state_in_exchange_request = False, refresh_scopes = [''openid'', ''profile'', ''email''],
     extra_authorize_params = [(''prompt'', ''login''), (''id_token_add_organizations'', ''true''), (''codex_cli_simplified_flow'', ''true'')]\<rparr>"

definition claude_preset :: OAuthProviderPreset where
  "claude_preset =
     (let scopes = [''user:profile'', ''user:inference'', ''user:sessions:claude_code'', ''user:mcp_servers'', ''user:file_upload'']
      in \<lparr>ps_vendor = ''anthropic'', auth_url = ''https://claude.ai/oauth/authorize'',
        ps_token_url = ''https://api.anthropic.com/v1/oauth/token'', ps_client_id = ''9d1c250a-e61b-44d9-88ed-5944d1962f5e'',
        redirect_url = ''http://localhost:54545/callback'', ps_scopes = scopes,
        exchange_request_style = Json_body, refresh_request_style = Json_body, send_scopes_in_exchange_request = True,
        send_state_in_exchange_request = True, refresh_scopes = scopes, extra_authorize_params = [(''code'', ''true'')]\<rparr>)"

definition preset_for_vendor :: "string \<Rightarrow> OAuthProviderPreset option" where
  "preset_for_vendor v = (if v = ''openai'' then Some codex_preset else if v = ''anthropic'' then Some claude_preset else None)"

definition authorize_params :: "OAuthProviderPreset \<Rightarrow> string \<Rightarrow> string \<Rightarrow> (string \<times> string) list" where
  "authorize_params ps state challenge =
     [(''response_type'', ''code''), (''client_id'', ps_client_id ps), (''redirect_uri'', redirect_url ps),
      (''scope'', join_with '' '' (ps_scopes ps)), (''state'', state), (''code_challenge'', challenge),
      (''code_challenge_method'', ''S256'')] @ extra_authorize_params ps"

definition build_authorize_url :: "oauth_text \<Rightarrow> OAuthProviderPreset \<Rightarrow> string \<Rightarrow> string \<Rightarrow> string" where
  "build_authorize_url X ps state challenge = auth_url ps @ ''?'' @ query_encode X (authorize_params ps state challenge)"

subsection \<open>Requests to the token endpoint\<close>

datatype token_body = Form_body "(string \<times> string) list" | Json_object json

record token_request =
  rq_url :: string
  rq_headers :: "(string \<times> string) list"
  rq_body :: token_body

definition json_request_headers :: "(string \<times> string) list" where
  "json_request_headers = [(''Content-Type'', ''application/json''), (''Accept'', ''application/json'')]"

definition exchange_request :: "OAuthProviderPreset \<Rightarrow> string \<Rightarrow> string \<Rightarrow> string option \<Rightarrow> token_request" where
  "exchange_request ps code verifier csrf_state =
     (let scope = join_with '' '' (ps_scopes ps);
          base = [(''grant_type'', ''authorization_code''), (''code'', code), (''client_id'', ps_client_id ps),
                  (''redirect_uri'', redirect_url ps), (''code_verifier'', verifier)];
          scoped = (if send_scopes_in_exchange_request ps then base @ [(''scope'', scope)] else base)
      in case exchange_request_style ps of
           Form \<Rightarrow> \<lparr>rq_url = ps_token_url ps, rq_headers = [], rq_body = Form_body scoped\<rparr>
         | Json_body \<Rightarrow>
             (let stated = (case csrf_state of
                    Some s \<Rightarrow> (if send_state_in_exchange_request ps \<and> s \<noteq> [] then scoped @ [(''state'', s)] else scoped)
                  | None \<Rightarrow> scoped)
              in \<lparr>rq_url = ps_token_url ps, rq_headers = json_request_headers,
                  rq_body = Json_object (object_of (map (\<lambda>(k, v). (k, JString v)) stated))\<rparr>))"

definition refresh_request :: "string \<Rightarrow> string \<Rightarrow> string \<Rightarrow> string list \<Rightarrow> TokenRequestStyle \<Rightarrow> token_request" where
  "refresh_request url client refresh_tok scps style =
     (let scope = join_with '' '' scps;
          base = [(''grant_type'', ''refresh_token''), (''refresh_token'', refresh_tok), (''client_id'', client)];
          params = (if scope = [] then base else base @ [(''scope'', scope)])
      in case style of
           Form \<Rightarrow> \<lparr>rq_url = url, rq_headers = [], rq_body = Form_body params\<rparr>
         | Json_body \<Rightarrow> \<lparr>rq_url = url, rq_headers = json_request_headers,
             rq_body = Json_object (object_of (map (\<lambda>(k, v). (k, JString v)) params))\<rparr>)"

subsection \<open>Its responses\<close>

record TokenResult =
  tr_access_token :: string
  tr_refresh_token :: "string option"
  tr_expires_in :: "duration option"
  tr_account_id :: "string option"
  tr_account_email :: "string option"
  tr_organization_id :: "string option"
  tr_organization_name :: "string option"

text \<open>
  The derived deserialisers: a struct is an object, in which unknown entries are ignored, or an array of all its fields; an optional field may be
  missing or null, and a value of another type is an error.
\<close>

definition struct_fields :: "string list \<Rightarrow> json \<Rightarrow> (string \<Rightarrow> json option) option" where
  "struct_fields names j = (case j of
     JObject kvs \<Rightarrow> Some (map_of kvs)
   | JArray xs \<Rightarrow> (if length xs = length names then Some (map_of (zip names xs)) else None)
   | _ \<Rightarrow> None)"

definition opt_field :: "(json \<Rightarrow> 'a option) \<Rightarrow> (string \<Rightarrow> json option) \<Rightarrow> string \<Rightarrow> 'a option option" where
  "opt_field read f k = (case f k of
     None \<Rightarrow> Some None
   | Some JNull \<Rightarrow> Some None
   | Some j \<Rightarrow> map_option Some (read j))"

definition pair_struct :: "string \<Rightarrow> string \<Rightarrow> json \<Rightarrow> (string option \<times> string option) option" where
  "pair_struct a b j = Option.bind (struct_fields [a, b] j) (\<lambda>f.
     Option.bind (opt_field as_str f a) (\<lambda>x. map_option (Pair x) (opt_field as_str f b)))"

record TokenResponseRaw =
  raw_access_token :: string
  raw_refresh_token :: "string option"
  raw_expires_in :: "nat option"
  raw_id_token :: "string option"
  raw_account_id :: "string option"
  raw_email :: "string option"
  raw_account_email :: "string option"
  raw_account :: "(string option \<times> string option) option"
  raw_organization :: "(string option \<times> string option) option"

definition raw_names :: "string list" where
  "raw_names = [''access_token'', ''refresh_token'', ''expires_in'', ''id_token'', ''account_id'', ''email'', ''account_email'',
     ''account'', ''organization'']"

definition raw_response :: "json \<Rightarrow> TokenResponseRaw option" where
  "raw_response j = Option.bind (struct_fields raw_names j) (\<lambda>f.
     Option.bind (Option.bind (f ''access_token'') as_str) (\<lambda>access.
     Option.bind (opt_field as_str f ''refresh_token'') (\<lambda>refresh.
     Option.bind (opt_field as_u64 f ''expires_in'') (\<lambda>expires.
     Option.bind (opt_field as_str f ''id_token'') (\<lambda>id_token.
     Option.bind (opt_field as_str f ''account_id'') (\<lambda>account_id.
     Option.bind (opt_field as_str f ''email'') (\<lambda>email.
     Option.bind (opt_field as_str f ''account_email'') (\<lambda>account_email.
     Option.bind (opt_field (pair_struct ''uuid'' ''email_address'') f ''account'') (\<lambda>account.
     map_option (\<lambda>organization.
       \<lparr>raw_access_token = access, raw_refresh_token = refresh, raw_expires_in = expires, raw_id_token = id_token,
        raw_account_id = account_id, raw_email = email, raw_account_email = account_email, raw_account = account,
        raw_organization = organization\<rparr>)
       (opt_field (pair_struct ''uuid'' ''name'') f ''organization''))))))))))"

definition filter_empty :: "string option \<Rightarrow> string option" where
  "filter_empty s = (case s of Some [] \<Rightarrow> None | _ \<Rightarrow> s)"

definition or_else :: "'a option \<Rightarrow> 'a option \<Rightarrow> 'a option" where
  "or_else a b = (case a of Some _ \<Rightarrow> a | None \<Rightarrow> b)"

definition jwt_claims :: "oauth_text \<Rightarrow> string \<Rightarrow> json option" where
  "jwt_claims X id_token = (case split_on (CHR ''.'') id_token of
     _ # payload # _ \<Rightarrow> Option.bind (b64url_decode X payload) (from_json X)
   | _ \<Rightarrow> None)"

definition chatgpt_account_id :: "oauth_text \<Rightarrow> string \<Rightarrow> string option" where
  "chatgpt_account_id X id_token = Option.bind (jwt_claims X id_token) (\<lambda>claims.
     filter_empty (Option.bind (or_else (Option.bind (get claims ''https://api.openai.com/auth'') (\<lambda>a. get a ''chatgpt_account_id''))
       (get claims ''chatgpt_account_id'')) as_str))"

definition chatgpt_account_email :: "oauth_text \<Rightarrow> string \<Rightarrow> string option" where
  "chatgpt_account_email X id_token = Option.bind (jwt_claims X id_token) (\<lambda>claims.
     filter_empty (Option.bind (or_else (or_else (get claims ''email'')
         (Option.bind (get claims ''https://api.openai.com/profile'') (\<lambda>a. get a ''email'')))
       (Option.bind (get claims ''https://api.openai.com/auth'') (\<lambda>a. get a ''email''))) as_str))"

definition token_result :: "oauth_text \<Rightarrow> TokenResponseRaw \<Rightarrow> TokenResult" where
  "token_result X raw =
     \<lparr>tr_access_token = raw_access_token raw, tr_refresh_token = raw_refresh_token raw,
      tr_expires_in = map_option from_secs (raw_expires_in raw),
      tr_account_id = or_else (or_else (filter_empty (raw_account_id raw)) (filter_empty (Option.bind (raw_account raw) fst)))
        (Option.bind (raw_id_token raw) (chatgpt_account_id X)),
      tr_account_email = or_else (or_else (filter_empty (or_else (raw_account_email raw) (raw_email raw)))
          (filter_empty (Option.bind (raw_account raw) snd)))
        (Option.bind (raw_id_token raw) (chatgpt_account_email X)),
      tr_organization_id = filter_empty (Option.bind (raw_organization raw) fst),
      tr_organization_name = filter_empty (Option.bind (raw_organization raw) snd)\<rparr>"

text \<open>An answer of the HTTP client: the status with its text, and the body.\<close>

datatype endpoint_answer = Send_Failed string | Answered nat string string

definition parse_token_response :: "oauth_text \<Rightarrow> nat \<Rightarrow> string \<Rightarrow> string \<Rightarrow> string + TokenResult" where
  "parse_token_response X status status_text body =
     (if \<not> (200 \<le> status \<and> status < 300) then Inl (''token endpoint returned '' @ status_text @ '': '' @ body)
      else case Option.bind (from_json X body) raw_response of
        None \<Rightarrow> Inl (''failed to parse token response: '' @ json_error_text X)
      | Some raw \<Rightarrow> Inr (token_result X raw))"

definition exchange_code :: "oauth_text \<Rightarrow> (token_request \<Rightarrow> endpoint_answer) \<Rightarrow> OAuthProviderPreset \<Rightarrow> string \<Rightarrow> string \<Rightarrow> string option \<Rightarrow>
    string + TokenResult" where
  "exchange_code X client ps code verifier csrf_state = (case client (exchange_request ps code verifier csrf_state) of
     Send_Failed e \<Rightarrow> Inl (''token exchange request failed: '' @ e)
   | Answered status text_of body \<Rightarrow> parse_token_response X status text_of body)"

definition do_refresh_token :: "oauth_text \<Rightarrow> (token_request \<Rightarrow> endpoint_answer) \<Rightarrow> string \<Rightarrow> string \<Rightarrow> string \<Rightarrow> string list \<Rightarrow>
    TokenRequestStyle \<Rightarrow> string + TokenResult" where
  "do_refresh_token X client url cid refresh_tok scps style = (case client (refresh_request url cid refresh_tok scps style) of
     Send_Failed e \<Rightarrow> Inl (''token refresh request failed: '' @ e)
   | Answered status text_of body \<Rightarrow> parse_token_response X status text_of body)"

subsection \<open>The cache\<close>

definition REFRESH_LEEWAY :: duration where
  "REFRESH_LEEWAY = from_secs 60"

record CachedToken =
  ct_access_token :: string
  ct_refresh_token :: string
  ct_expires_at :: "instant option"
  ct_account_id :: "string option"
  ct_account_email :: "string option"

type_synonym token_cache = "string \<rightharpoonup> CachedToken"

definition is_expiring :: "instant \<Rightarrow> CachedToken \<Rightarrow> bool" where
  "is_expiring now c = (case ct_expires_at c of Some t \<Rightarrow> duration_since t now \<le> REFRESH_LEEWAY | None \<Rightarrow> False)"

definition cache_key :: "string \<Rightarrow> string \<Rightarrow> string" where
  "cache_key pid label = pid @ '':'' @ label"

definition invalidate_provider :: "string \<Rightarrow> token_cache \<Rightarrow> token_cache" where
  "invalidate_provider pid c = (\<lambda>k. if prefix (pid @ '':'') k then None else c k)"

definition cache_seed :: "string \<Rightarrow> string \<Rightarrow> string \<Rightarrow> token_cache \<Rightarrow> token_cache" where
  "cache_seed pid label refresh_tok c =
     (let k = cache_key pid label;
          entry = (case c k of Some e \<Rightarrow> e | None \<Rightarrow>
            \<lparr>ct_access_token = [], ct_refresh_token = refresh_tok, ct_expires_at = None, ct_account_id = None, ct_account_email = None\<rparr>)
      in c(k \<mapsto> if ct_refresh_token entry = [] then entry\<lparr>ct_refresh_token := refresh_tok\<rparr> else entry))"

text \<open>\<^verbatim>\<open>Instant::now() + duration\<close> can overflow.\<close>

definition expiry :: "instant \<Rightarrow> duration option \<Rightarrow> instant option rust" where
  "expiry now expires_in = (case expires_in of None \<Rightarrow> Inr None | Some d \<Rightarrow> map_sum (\<lambda>p. p) Some (instant_add now d))"

definition seed_tokens_with_identity :: "instant \<Rightarrow> string \<Rightarrow> string \<Rightarrow> string \<Rightarrow> string \<Rightarrow> duration option \<Rightarrow> string option \<Rightarrow> string option \<Rightarrow>
    token_cache \<Rightarrow> token_cache rust" where
  "seed_tokens_with_identity now pid label access_tok refresh_tok expires_in account email c =
     bind_rust (expiry now expires_in) (\<lambda>e. Inr (c(cache_key pid label \<mapsto>
       \<lparr>ct_access_token = access_tok, ct_refresh_token = refresh_tok, ct_expires_at = e, ct_account_id = account, ct_account_email = email\<rparr>)))"

text \<open>The token that may be used at a time: cached, not about to expire, not cleared.\<close>

definition usable_token :: "instant \<Rightarrow> string \<Rightarrow> token_cache \<Rightarrow> CachedToken option" where
  "usable_token now k c = (case c k of
     Some e \<Rightarrow> (if \<not> is_expiring now e \<and> ct_access_token e \<noteq> [] then Some e else None) | None \<Rightarrow> None)"

definition inject_cached :: "http_env \<Rightarrow> HeaderMap \<Rightarrow> CachedToken \<Rightarrow> OAuthTargetConfig \<Rightarrow> string + HeaderMap" where
  "inject_cached E h e c = inject_token E h (ct_access_token e) (or_else (ct_account_id e) (account_id c)) c"

definition apply_cached :: "http_env \<Rightarrow> instant \<Rightarrow> HeaderMap \<Rightarrow> string \<Rightarrow> string \<Rightarrow> OAuthTargetConfig \<Rightarrow> token_cache \<Rightarrow> string + bool \<times> HeaderMap" where
  "apply_cached E now h pid label c cache = (case usable_token now (cache_key pid label) cache of
     None \<Rightarrow> Inr (False, h)
   | Some e \<Rightarrow> map_sum (\<lambda>x. x) (Pair True) (inject_cached E h e c))"

definition get_refresh_token :: "string \<Rightarrow> string \<Rightarrow> token_cache \<Rightarrow> string option" where
  "get_refresh_token pid label c = map_option ct_refresh_token (c (cache_key pid label))"

definition get_account_email :: "string \<Rightarrow> string \<Rightarrow> token_cache \<Rightarrow> string option" where
  "get_account_email pid label c = Option.bind (c (cache_key pid label)) ct_account_email"

definition get_account_id :: "string \<Rightarrow> string \<Rightarrow> token_cache \<Rightarrow> string option" where
  "get_account_id pid label c = Option.bind (c (cache_key pid label)) ct_account_id"

definition get_access_token :: "string \<Rightarrow> string \<Rightarrow> token_cache \<Rightarrow> string option" where
  "get_access_token pid label c = filter_empty (map_option ct_access_token (c (cache_key pid label)))"

definition invalidate_access_token_if_matches :: "string \<Rightarrow> string \<Rightarrow> string \<Rightarrow> token_cache \<Rightarrow> token_cache" where
  "invalidate_access_token_if_matches pid label rejected c =
     (let k = cache_key pid label in case c k of
        Some e \<Rightarrow> (if ct_access_token e = rejected then c(k \<mapsto> e\<lparr>ct_access_token := [], ct_expires_at := None\<rparr>) else c)
      | None \<Rightarrow> c)"

text \<open>
  \<^verbatim>\<open>apply\<close> for deployments without a database.  \<open>others\<close> is what other tasks do to the cache while the task waits for the lock of the key
  (0) and for the endpoint (1); \<open>clock\<close> gives the readings of the clock.  The last component is the refresh token that was sent.
\<close>

datatype cache_error = Cache_Message string | Cache_Panic panic

definition cache_refresh :: "http_env \<Rightarrow> (string \<Rightarrow> string + TokenResult) \<Rightarrow> (token_cache \<Rightarrow> token_cache) \<Rightarrow> instant \<Rightarrow> HeaderMap \<Rightarrow> string \<Rightarrow> string \<Rightarrow>
    OAuthTargetConfig \<Rightarrow> token_cache \<Rightarrow> token_cache \<times> (cache_error + HeaderMap) \<times> string option" where
  "cache_refresh E endpoint others now h pid label c cache =
     (let k = cache_key pid label;
          rt = unwrap_or (map_option ct_refresh_token (cache k)) (refresh_token c)
      in if rt = [] then (cache, Inl (Cache_Message (''no refresh_token available for OAuth key '' @ k @
             ''; run the admin OAuth flow first'')), None)
         else case endpoint rt of
           Inl e \<Rightarrow> (others cache, Inl (Cache_Message e), Some rt)
         | Inr r \<Rightarrow>
             (let cache = others cache;
                  account = or_else (or_else (tr_account_id r) (get_account_id pid label cache)) (account_id c)
              in case expiry now (tr_expires_in r) of
                   Inl p \<Rightarrow> (cache, Inl (Cache_Panic p), Some rt)
                 | Inr e \<Rightarrow> (cache(k \<mapsto> \<lparr>ct_access_token = tr_access_token r, ct_refresh_token = unwrap_or (tr_refresh_token r) rt,
                       ct_expires_at = e, ct_account_id = account,
                       ct_account_email = or_else (tr_account_email r) (get_account_email pid label cache)\<rparr>),
                     map_sum Cache_Message (\<lambda>h. h) (inject_token E h (tr_access_token r) account c), Some rt)))"

definition cache_apply :: "http_env \<Rightarrow> (string \<Rightarrow> string + TokenResult) \<Rightarrow> (nat \<Rightarrow> token_cache \<Rightarrow> token_cache) \<Rightarrow> (nat \<Rightarrow> instant) \<Rightarrow> HeaderMap \<Rightarrow>
    string \<Rightarrow> string \<Rightarrow> OAuthTargetConfig \<Rightarrow> token_cache \<Rightarrow> token_cache \<times> (cache_error + HeaderMap) \<times> string option" where
  "cache_apply E endpoint others clock h pid label c cache =
     (let k = cache_key pid label; inject = (\<lambda>e. map_sum Cache_Message (\<lambda>h. h) (inject_cached E h e c))
      in case usable_token (clock 0) k cache of
           Some e \<Rightarrow> (cache, inject e, None)
         | None \<Rightarrow>
             (let cache = others 0 cache in case usable_token (clock 1) k cache of
                Some e \<Rightarrow> (cache, inject e, None)
              | None \<Rightarrow> cache_refresh E endpoint (others 1) (clock 2) h pid label c cache))"

end
