(* ===== verification/Encryption.thy ===== *)
theory Encryption
  imports Utf8
begin

section \<open>Encryption at rest\<close>

text \<open>
  The model of \<^verbatim>\<open>crates/store/src/encryption.rs\<close> and \<^verbatim>\<open>crates/store/src/keys.rs\<close>.  The functions of the packages it
  calls are the fields of \<open>crypto\<close>: HKDF with SHA-256 (32 bytes out, which it always can give), AES-256-GCM, and the
  base64 and hexadecimal codes.  \<open>lawful\<close> is what they document.  The random nonce is an argument.
\<close>

record crypto =
  hkdf_expand :: "string \<Rightarrow> string \<Rightarrow> string"
  gcm_encrypt :: "string \<Rightarrow> string \<Rightarrow> string \<Rightarrow> string option"
  gcm_decrypt :: "string \<Rightarrow> string \<Rightarrow> string \<Rightarrow> string option"
  base64_encode :: "string \<Rightarrow> string"
  base64_decode :: "string \<Rightarrow> string option"
  hex_decode :: "string \<Rightarrow> string option"

datatype EncryptionError = BadKeyLength nat | BadKeyEncoding | CiphertextTooShort | Decrypt_failed string | Encrypt_failed

record KeyEncryption =
  master :: string

definition NONCE_LEN :: nat where
  "NONCE_LEN = 12"

definition KEY_LEN :: nat where
  "KEY_LEN = 32"

definition HKDF_INFO_PREFIX :: string where
  "HKDF_INFO_PREFIX = ''tiygate/v1/''"

definition is_ascii :: "string \<Rightarrow> bool" where
  "is_ascii s \<longleftrightarrow> list_all (\<lambda>c. byte c < 128) s"

definition from_bytes :: "string \<Rightarrow> KeyEncryption" where
  "from_bytes b = \<lparr>master = b\<rparr>"

definition from_secret :: "crypto \<Rightarrow> string \<Rightarrow> EncryptionError + KeyEncryption" where
  "from_secret C secret =
     (let trimmed = trim secret
      in case (if length trimmed = KEY_LEN * 2 \<and> is_ascii trimmed then hex_decode C trimmed else base64_decode C trimmed) of
           None \<Rightarrow> Inl BadKeyEncoding
         | Some decoded \<Rightarrow> (if length decoded \<noteq> KEY_LEN then Inl (BadKeyLength (length decoded)) else Inr (from_bytes decoded)))"

text \<open>\<open>env_key\<close> is the environment variable \<^verbatim>\<open>TIYGATE_MASTER_KEY\<close>.\<close>

definition from_env :: "crypto \<Rightarrow> string option \<Rightarrow> (EncryptionError + KeyEncryption) option" where
  "from_env C env_key = (case env_key of
     None \<Rightarrow> None
   | Some raw \<Rightarrow> (if trim raw = [] then None else Some (from_secret C (trim raw))))"

definition cipher_for :: "crypto \<Rightarrow> KeyEncryption \<Rightarrow> string \<Rightarrow> string" where
  "cipher_for C k purpose = hkdf_expand C (master k) (HKDF_INFO_PREFIX @ purpose)"

definition encrypt :: "crypto \<Rightarrow> KeyEncryption \<Rightarrow> string \<Rightarrow> string \<Rightarrow> string \<Rightarrow> EncryptionError + string" where
  "encrypt C k purpose nonce plaintext = (case gcm_encrypt C (cipher_for C k purpose) nonce plaintext of
     None \<Rightarrow> Inl Encrypt_failed
   | Some ct \<Rightarrow> Inr (base64_encode C (nonce @ ct)))"

definition decrypt :: "crypto \<Rightarrow> KeyEncryption \<Rightarrow> string \<Rightarrow> string \<Rightarrow> EncryptionError + string" where
  "decrypt C k purpose blob = (case base64_decode C (trim blob) of
     None \<Rightarrow> Inl (Decrypt_failed ''base64'')
   | Some raw \<Rightarrow>
       if length raw \<le> NONCE_LEN then Inl CiphertextTooShort
       else case gcm_decrypt C (cipher_for C k purpose) (take NONCE_LEN raw) (drop NONCE_LEN raw) of
              None \<Rightarrow> Inl (Decrypt_failed ''aead'')
            | Some pt \<Rightarrow> (case from_utf8 pt of None \<Rightarrow> Inl (Decrypt_failed ''utf8'') | Some s \<Rightarrow> Inr s))"

definition PURPOSE_PROVIDER_API_KEY :: string where
  "PURPOSE_PROVIDER_API_KEY = ''provider-api-key''"

definition PURPOSE_USAGE_MANAGEMENT_KEY :: string where
  "PURPOSE_USAGE_MANAGEMENT_KEY = ''usage-management-key''"

definition PURPOSE_OAUTH_REFRESH_TOKEN :: string where
  "PURPOSE_OAUTH_REFRESH_TOKEN = ''oauth-refresh-token''"

definition PURPOSE_OAUTH_ACCESS_TOKEN :: string where
  "PURPOSE_OAUTH_ACCESS_TOKEN = ''oauth-access-token''"

definition PURPOSE_SETTINGS :: string where
  "PURPOSE_SETTINGS = ''settings''"

lemmas purposes = PURPOSE_PROVIDER_API_KEY_def PURPOSE_USAGE_MANAGEMENT_KEY_def PURPOSE_OAUTH_REFRESH_TOKEN_def
  PURPOSE_OAUTH_ACCESS_TOKEN_def PURPOSE_SETTINGS_def

subsection \<open>The contract of the packages\<close>

text \<open>
  Base64 is read back, its text has no blanks at its ends and is empty only for no bytes; AES-GCM seals every text
  below its limit, and what it seals is not empty and is opened under the same key and nonce.
\<close>

definition gcm_max :: nat where
  "gcm_max = 2 ^ 36 - 32"

definition lawful :: "crypto \<Rightarrow> bool" where
  "lawful C \<longleftrightarrow>
     (\<forall>b. base64_decode C (base64_encode C b) = Some b \<and> trim (base64_encode C b) = base64_encode C b \<and>
       (base64_encode C b = [] \<longrightarrow> b = [])) \<and>
     (\<forall>k n p. length n = NONCE_LEN \<longrightarrow>
       (length p \<le> gcm_max \<longrightarrow> gcm_encrypt C k n p \<noteq> None) \<and>
       (\<forall>c. gcm_encrypt C k n p = Some c \<longrightarrow> c \<noteq> [] \<and> gcm_decrypt C k n c = Some p))"

lemma decrypt_encrypt:
  assumes "lawful C" and "length nonce = NONCE_LEN" and "from_utf8_lossy s = s" and "encrypt C k purpose nonce s = Inr blob"
  shows "blob \<noteq> [] \<and> decrypt C k purpose blob = Inr s"
proof -
  let ?key = "cipher_for C k purpose"
  from assms(4) obtain c where c: "gcm_encrypt C ?key nonce s = Some c" and blob: "blob = base64_encode C (nonce @ c)"
    by (auto simp: encrypt_def split: option.splits)
  with assms(1,2) have open_c: "c \<noteq> []" "gcm_decrypt C ?key nonce c = Some s" by (auto simp: lawful_def)
  have l: "length nonce = 12" using assms(2) by (simp add: NONCE_LEN_def)
  have "base64_decode C (trim blob) = Some (nonce @ c)" "blob \<noteq> []"
    using assms(1) open_c(1) by (auto simp: lawful_def blob)
  then show ?thesis using open_c l assms(3) by (simp add: decrypt_def from_utf8_def NONCE_LEN_def)
qed

text \<open>
  C40.  What is encrypted for a purpose is read back by the same master key for the same purpose, and an encrypted
  secret is never the empty string, which the store keeps for no secret.
\<close>

theorem secret_roundtrip:
  assumes "lawful C" and "length nonce = NONCE_LEN" and "from_utf8_lossy s = s" and "length s \<le> gcm_max"
  shows "\<exists>blob. encrypt C k purpose nonce s = Inr blob \<and> blob \<noteq> [] \<and> decrypt C k purpose blob = Inr s"
proof -
  from assms(1,2,4) obtain blob where "encrypt C k purpose nonce s = Inr blob"
    by (fastforce simp: lawful_def encrypt_def split: option.splits)
  with decrypt_encrypt [OF assms(1-3)] show ?thesis by blast
qed

text \<open>Packages that satisfy the contract: a hexadecimal code for base64, and a cipher that appends its key.\<close>

fun hex_pairs :: "string \<Rightarrow> string" where
  "hex_pairs [] = []"
| "hex_pairs (c # s) = hex_char (byte c div 16) # hex_char (byte c mod 16) # hex_pairs s"

fun unhex_pairs :: "string \<Rightarrow> string option" where
  "unhex_pairs [] = Some []"
| "unhex_pairs (a # b # s) = (case (hex_val a, hex_val b, unhex_pairs s) of
     (Some x, Some y, Some r) \<Rightarrow> Some (char_of (16 * x + y) # r) | _ \<Rightarrow> None)"
| "unhex_pairs _ = None"

definition demo_crypto :: crypto where
  "demo_crypto = \<lparr>hkdf_expand = (\<lambda>m i. m @ i), gcm_encrypt = (\<lambda>k n p. Some (CHR ''!'' # k @ p)),
     gcm_decrypt = (\<lambda>k n c. strip_prefix (CHR ''!'' # k) c), base64_encode = hex_pairs, base64_decode = unhex_pairs,
     hex_decode = unhex_pairs\<rparr>"

lemma unhex_hex_pairs: "unhex_pairs (hex_pairs s) = Some s"
proof (induction s)
  case (Cons c s)
  have "char_of (byte c) = c" by (simp add: byte_def)
  moreover have "byte c div 16 < 16" using byte_less [of c] by simp
  ultimately show ?case using Cons by simp
qed simp

lemma hex_char_not_blank: "n < 16 \<Longrightarrow> \<not> is_whitespace (hex_char n)"
  by (auto simp: is_whitespace_def byte_hex_char)

lemma hex_pairs_chars: "c \<in> set (hex_pairs s) \<Longrightarrow> \<not> is_whitespace c"
  using byte_less by (induction s) (auto simp: hex_char_not_blank div_less_iff_less_mult)

lemma trim_nonblank: "\<forall>c\<in>set s. \<not> is_whitespace c \<Longrightarrow> trim s = s"
proof -
  assume "\<forall>c\<in>set s. \<not> is_whitespace c"
  moreover have d: "(\<forall>c\<in>set t. \<not> is_whitespace c) \<Longrightarrow> dropWhile is_whitespace t = t" for t by (cases t) auto
  ultimately show ?thesis using d [of "rev s"] by (simp add: trim_def)
qed

lemma demo_lawful: "lawful demo_crypto"
proof -
  have "hex_pairs b = [] \<longrightarrow> b = []" for b by (cases b) auto
  then show ?thesis
    by (auto simp: lawful_def demo_crypto_def unhex_hex_pairs strip_prefix_def intro!: trim_nonblank dest: hex_pairs_chars)
qed

theorem secret_roundtrip_witness:
  "\<exists>blob. encrypt demo_crypto \<lparr>master = ''k''\<rparr> PURPOSE_SETTINGS (replicate 12 CHR ''n'') ''secret'' = Inr blob \<and> blob \<noteq> [] \<and>
    decrypt demo_crypto \<lparr>master = ''k''\<rparr> PURPOSE_SETTINGS blob = Inr ''secret''"
proof (rule secret_roundtrip)
  show "from_utf8_lossy ''secret'' = ''secret''" by (rule ascii_lossy) (simp add: byte_def)
qed (simp_all add: demo_lawful NONCE_LEN_def gcm_max_def)

end
