(* ===== verification/Config_Store.thy ===== *)
theory Config_Store
  imports Snapshot Encryption Client_Auth
begin

section \<open>The configuration store\<close>

text \<open>
  The model of \<^verbatim>\<open>DbConfigStore\<close> in \<^verbatim>\<open>crates/store/src/config_store.rs\<close>, of the token rows of \<^verbatim>\<open>crates/store/src/oauth_token.rs\<close>
  and of the poll task in \<^verbatim>\<open>crates/store/src/retention.rs\<close>.

  The database is a record of tables and a table is the list of its rows, in the order a query without
  \<^verbatim>\<open>ORDER BY\<close> returns them.  Each query is the list function that its SQL text says, every query succeeds unless it
  breaks a uniqueness constraint of the schema, and a transaction that is not committed leaves the tables as they
  were.  Columns hold the values that \<^verbatim>\<open>row_to_provider\<close> and its siblings read from them.  The clock (\<open>now\<close>), the nonces of
  the encryption and fresh ids are arguments; \<open>store_env\<close> holds what does not change: the provider registry, the
  JSON parser and printer, the cryptographic packages and the master key.
\<close>

subsection \<open>Tables\<close>

datatype StoreError = Db string | Decrypt EncryptionError | Serde | NotFound string | Invalid string

record key_row = ApiKey +
  key_created_at :: nat
  key_updated_at :: nat

record token_row =
  tk_provider_id :: string
  encrypted_access_token :: string
  access_expires_at :: "nat option"
  credential_version :: int
  last_refresh_at :: "nat option"
  next_keepalive_at :: "nat option"
  next_retry_at :: "nat option"
  failure_count :: int
  tk_updated_at :: nat

record database =
  providers_t :: "Provider list"
  routes_t :: "Route list"
  api_keys_t :: "key_row list"
  settings_t :: "(string \<times> string) list"
  tokens_t :: "token_row list"
  epoch_t :: "int option"

record ConfigStore =
  routing_table :: RoutingTable
  cs_snapshot :: "ConfigSnapshot option"

record DbConfigStore =
  db :: database
  inner :: ConfigStore

record store_env =
  se_registry :: registry
  parse_json :: "string \<Rightarrow> json option"
  print_json :: "json \<Rightarrow> string"
  se_crypto :: crypto
  encryption :: "KeyEncryption option"

type_synonym 'a store_result = "DbConfigStore \<times> (StoreError + 'a)"

text \<open>The queries: one row by its key, an insertion that updates on conflict, an update, a deletion.\<close>

definition select_by :: "('r \<Rightarrow> string) \<Rightarrow> string \<Rightarrow> 'r list \<Rightarrow> 'r option" where
  "select_by key k rows = find (\<lambda>r. key r = k) rows"

fun upsert_row :: "('r \<Rightarrow> string) \<Rightarrow> ('r \<Rightarrow> 'r \<Rightarrow> 'r) \<Rightarrow> 'r \<Rightarrow> 'r list \<Rightarrow> 'r list" where
  "upsert_row key merge r [] = [r]"
| "upsert_row key merge r (x # xs) = (if key x = key r then merge x r # xs else x # upsert_row key merge r xs)"

definition update_where :: "('r \<Rightarrow> bool) \<Rightarrow> ('r \<Rightarrow> 'r) \<Rightarrow> 'r list \<Rightarrow> 'r list" where
  "update_where P f rows = map (\<lambda>r. if P r then f r else r) rows"

definition delete_where :: "('r \<Rightarrow> bool) \<Rightarrow> 'r list \<Rightarrow> 'r list" where
  "delete_where P rows = filter (\<lambda>r. \<not> P r) rows"

definition rows_affected :: "('r \<Rightarrow> bool) \<Rightarrow> 'r list \<Rightarrow> nat" where
  "rows_affected P rows = length (filter P rows)"

subsection \<open>Secrets\<close>

definition encrypt_column :: "store_env \<Rightarrow> string \<Rightarrow> string \<Rightarrow> string \<Rightarrow> StoreError + string" where
  "encrypt_column env purpose nonce plain = (case encryption env of
     None \<Rightarrow> Inr plain
   | Some k \<Rightarrow> map_sum Decrypt (\<lambda>x. x) (encrypt (se_crypto env) k purpose nonce plain))"

definition decrypt_column :: "store_env \<Rightarrow> string \<Rightarrow> string \<Rightarrow> StoreError + string" where
  "decrypt_column env purpose blob = (case encryption env of
     None \<Rightarrow> Inr blob
   | Some k \<Rightarrow> map_sum Decrypt (\<lambda>x. x) (decrypt (se_crypto env) k purpose blob))"

text \<open>The cleartext of a column: empty for an empty column, none if it cannot be decrypted.\<close>

definition cleartext :: "store_env \<Rightarrow> string \<Rightarrow> string \<Rightarrow> string option" where
  "cleartext env purpose blob =
     (if blob = [] then Some []
      else case decrypt_column env purpose blob of Inr plain \<Rightarrow> Some plain | Inl _ \<Rightarrow> None)"

definition row_to_provider :: "Provider \<Rightarrow> Provider" where
  "row_to_provider p = p\<lparr>api_key_cleartext := None, usage_management_key_cleartext := None, oauth_meta_cleartext := None\<rparr>"

definition populate_provider_oauth_cleartext :: "store_env \<Rightarrow> Provider \<Rightarrow> Provider" where
  "populate_provider_oauth_cleartext env p =
     (if auth_mode p \<noteq> OAuthMode then p
      else p\<lparr>oauth_meta_cleartext := cleartext env PURPOSE_OAUTH_REFRESH_TOKEN (encrypted_oauth_meta p)\<rparr>)"

definition populate_provider_usage_management_key_cleartext :: "store_env \<Rightarrow> Provider \<Rightarrow> Provider" where
  "populate_provider_usage_management_key_cleartext env p =
     p\<lparr>usage_management_key_cleartext := cleartext env PURPOSE_USAGE_MANAGEMENT_KEY (encrypted_usage_management_key p)\<rparr>"

subsection \<open>Refreshing the snapshot\<close>

definition ConfigStore_new :: ConfigStore where
  "ConfigStore_new = \<lparr>routing_table = RoutingTable_new, cs_snapshot = None\<rparr>"

definition from_snapshot :: "store_env \<Rightarrow> ConfigSnapshot \<Rightarrow> ConfigStore" where
  "from_snapshot env snap =
     \<lparr>routing_table = snapshot_to_routing_table (se_registry env) (parse_json env) snap, cs_snapshot = Some snap\<rparr>"

definition load_providers :: "database \<Rightarrow> Provider list" where
  "load_providers d = map row_to_provider (providers_t d)"

definition load_routes :: "database \<Rightarrow> Route list" where
  "load_routes d = routes_t d"

definition bump_epoch :: "database \<Rightarrow> database" where
  "bump_epoch d = d\<lparr>epoch_t := Some (case epoch_t d of None \<Rightarrow> 1 | Some e \<Rightarrow> e + 1)\<rparr>"

definition current_epoch :: "database \<Rightarrow> int" where
  "current_epoch d = unwrap_or (epoch_t d) 0"

text \<open>\<^verbatim>\<open>collect\<close> into a hash map: the last of the rows with a key.\<close>

definition collect_map :: "('r \<Rightarrow> string) \<Rightarrow> 'r list \<Rightarrow> string \<rightharpoonup> 'r" where
  "collect_map key rows = map_of (rev (map (\<lambda>r. (key r, r)) rows))"

definition refreshed_provider :: "store_env \<Rightarrow> Provider \<Rightarrow> Provider" where
  "refreshed_provider env p = populate_provider_oauth_cleartext env
     (p\<lparr>api_key_cleartext := cleartext env PURPOSE_PROVIDER_API_KEY (encrypted_api_key p)\<rparr>)"

definition load_snapshot :: "store_env \<Rightarrow> database \<Rightarrow> int \<Rightarrow> ConfigSnapshot" where
  "load_snapshot env d e =
     \<lparr>snap_epoch = e, snap_providers = collect_map pr_id (map (refreshed_provider env) (load_providers d)),
      snap_routes = collect_map virtual_model (load_routes d)\<rparr>"

definition refresh :: "store_env \<Rightarrow> DbConfigStore \<Rightarrow> DbConfigStore" where
  "refresh env st =
     (let d = bump_epoch (db st)
      in \<lparr>db = d, inner = from_snapshot env (load_snapshot env (db st) (current_epoch d))\<rparr>)"

definition open_store :: "store_env \<Rightarrow> database \<Rightarrow> DbConfigStore" where
  "open_store env d = refresh env \<lparr>db = d, inner = ConfigStore_new\<rparr>"

text \<open>One round of the poll task with the epoch it has seen last.\<close>

definition epoch_poll :: "store_env \<Rightarrow> int option \<times> DbConfigStore \<Rightarrow> int option \<times> DbConfigStore" where
  "epoch_poll env = (\<lambda>(last_seen, st). let cur = current_epoch (db st) in
     if Some cur = last_seen then (last_seen, st) else (Some cur, refresh env st))"

subsection \<open>Providers\<close>

definition get_provider :: "store_env \<Rightarrow> string \<Rightarrow> DbConfigStore \<Rightarrow> Provider option" where
  "get_provider env i st = map_option (populate_provider_usage_management_key_cleartext env \<circ>
     populate_provider_oauth_cleartext env \<circ> row_to_provider) (select_by pr_id i (providers_t (db st)))"

definition list_providers :: "store_env \<Rightarrow> DbConfigStore \<Rightarrow> Provider list" where
  "list_providers env st = map (populate_provider_oauth_cleartext env) (load_providers (db st))"

record provider_input =
  in_id :: string
  in_name :: string
  in_vendor :: string
  in_api_base :: string
  in_models_endpoint :: string
  in_api_key :: "string option"
  in_auth_mode :: AuthMode
  in_oauth_meta :: "string option"
  in_metadata :: json
  in_enabled :: bool
  in_usage_management_key :: "string option"

definition new_secret :: "store_env \<Rightarrow> string \<Rightarrow> string \<Rightarrow> string option \<Rightarrow> string \<Rightarrow> StoreError + string" where
  "new_secret env purpose nonce plain kept = (case plain of None \<Rightarrow> Inr kept | Some s \<Rightarrow> encrypt_column env purpose nonce s)"

definition new_usage_key :: "store_env \<Rightarrow> string \<Rightarrow> string option \<Rightarrow> string \<Rightarrow> StoreError + string" where
  "new_usage_key env nonce plain kept = (case plain of
     None \<Rightarrow> Inr kept
   | Some s \<Rightarrow> (if trim s = [] then Inr [] else encrypt_column env PURPOSE_USAGE_MANAGEMENT_KEY nonce (trim s)))"

definition put_provider :: "Provider \<Rightarrow> database \<Rightarrow> database" where
  "put_provider p d = d\<lparr>providers_t := upsert_row pr_id (\<lambda>old new. new\<lparr>pr_created_at := pr_created_at old\<rparr>) p (providers_t d)\<rparr>"

definition upsert_provider_with_usage_management_key ::
    "store_env \<Rightarrow> nat \<Rightarrow> (nat \<Rightarrow> string) \<Rightarrow> provider_input \<Rightarrow> DbConfigStore \<Rightarrow> Provider store_result" where
  "upsert_provider_with_usage_management_key env now nonces inp st =
     (case validate_provider_auth_mode (in_vendor inp) (in_auth_mode inp) of Inl message \<Rightarrow> (st, Inl (Invalid message)) | Inr _ \<Rightarrow>
      (let existing = get_provider env (in_id inp) st;
           kept = (\<lambda>f. case existing of Some p \<Rightarrow> f p | None \<Rightarrow> [])
       in case new_secret env PURPOSE_PROVIDER_API_KEY (nonces 0) (in_api_key inp) (kept encrypted_api_key) of
            Inl e \<Rightarrow> (st, Inl e) | Inr api_key_blob \<Rightarrow>
          (case new_secret env PURPOSE_OAUTH_REFRESH_TOKEN (nonces 1) (in_oauth_meta inp) (kept encrypted_oauth_meta) of
            Inl e \<Rightarrow> (st, Inl e) | Inr oauth_blob \<Rightarrow>
          (case new_usage_key env (nonces 2) (in_usage_management_key inp) (kept encrypted_usage_management_key) of
            Inl e \<Rightarrow> (st, Inl e) | Inr usage_blob \<Rightarrow>
          (let row = \<lparr>pr_id = in_id inp, pr_name = in_name inp, pr_vendor = in_vendor inp, pr_api_base = in_api_base inp,
                 models_endpoint = in_models_endpoint inp, encrypted_api_key = api_key_blob,
                 encrypted_usage_management_key = usage_blob, auth_mode = in_auth_mode inp, encrypted_oauth_meta = oauth_blob,
                 metadata_json = in_metadata inp, pr_enabled = in_enabled inp,
                 pr_created_at = (case existing of Some p \<Rightarrow> pr_created_at p | None \<Rightarrow> now), pr_updated_at = now,
                 api_key_cleartext = None, usage_management_key_cleartext = None, oauth_meta_cleartext = None\<rparr>;
               st' = refresh env (st\<lparr>db := put_provider row (db st)\<rparr>)
           in (st', case get_provider env (in_id inp) st' of
                Some p \<Rightarrow> Inr p
              | None \<Rightarrow> Inl (NotFound (''provider '' @ in_id inp @ '' disappeared post-upsert''))))))))"

definition upsert_provider :: "store_env \<Rightarrow> nat \<Rightarrow> (nat \<Rightarrow> string) \<Rightarrow> provider_input \<Rightarrow> DbConfigStore \<Rightarrow> Provider store_result" where
  "upsert_provider env now nonces inp st =
     upsert_provider_with_usage_management_key env now nonces (inp\<lparr>in_usage_management_key := None\<rparr>) st"

subsection \<open>Deleting a provider\<close>

record ProviderRouteImpactRoute =
  imp_id :: string
  imp_virtual_model :: string
  imp_target_count :: nat
  remaining_target_count :: nat
  will_delete_route :: bool

record ProviderRouteImpact =
  imp_provider_id :: string
  route_count :: nat
  imp_targets :: nat
  delete_route_count :: nat
  imp_routes :: "ProviderRouteImpactRoute list"

definition refers :: "string \<Rightarrow> RouteTarget \<Rightarrow> bool" where
  "refers pid t \<longleftrightarrow> rt_provider_id t = pid"

definition add_impact :: "string \<Rightarrow> Route \<Rightarrow> ProviderRouteImpact \<Rightarrow> ProviderRouteImpact" where
  "add_impact pid route imp =
     (let matched = length (filter (refers pid) (route_targets route));
          remaining = length (route_targets route) - matched
      in if matched = 0 then imp
         else imp\<lparr>route_count := route_count imp + 1, imp_targets := imp_targets imp + matched,
           delete_route_count := delete_route_count imp + (if remaining = 0 then 1 else 0),
           imp_routes := imp_routes imp @ [\<lparr>imp_id = route_id route, imp_virtual_model = virtual_model route,
             imp_target_count = matched, remaining_target_count = remaining, will_delete_route = (remaining = 0)\<rparr>]\<rparr>)"

definition for_routes :: "string \<Rightarrow> Route list \<Rightarrow> ProviderRouteImpact" where
  "for_routes pid routes = fold (add_impact pid) routes
     \<lparr>imp_provider_id = pid, route_count = 0, imp_targets = 0, delete_route_count = 0, imp_routes = []\<rparr>"

record ProviderRouteCleanup =
  cl_before :: Route
  cl_after :: "Route option"

record ProviderDeleteOutcome =
  del_impact :: ProviderRouteImpact
  route_cleanups :: "ProviderRouteCleanup list"

definition provider_route_impact :: "store_env \<Rightarrow> string \<Rightarrow> DbConfigStore \<Rightarrow> StoreError + ProviderRouteImpact" where
  "provider_route_impact env pid st =
     (if get_provider env pid st = None then Inl (NotFound (''provider '' @ pid))
      else Inr (for_routes pid (load_routes (db st))))"

definition remaining_route :: "string \<Rightarrow> nat \<Rightarrow> Route \<Rightarrow> Route" where
  "remaining_route pid now route =
     route\<lparr>route_targets := filter (\<lambda>t. \<not> refers pid t) (route_targets route), route_updated_at := now\<rparr>"

text \<open>One round of the loop over the routes: the table and the report so far.\<close>

definition clean_route :: "string \<Rightarrow> nat \<Rightarrow> Route \<Rightarrow> Route list \<times> ProviderRouteCleanup list \<Rightarrow>
    Route list \<times> ProviderRouteCleanup list" where
  "clean_route pid now route = (\<lambda>(rows, cleanups).
     if \<not> list_ex (refers pid) (route_targets route) then (rows, cleanups)
     else let after = remaining_route pid now route in
       if route_targets after = []
       then (delete_where (\<lambda>r. route_id r = route_id route) rows, cleanups @ [\<lparr>cl_before = route, cl_after = None\<rparr>])
       else (update_where (\<lambda>r. route_id r = route_id route)
               (\<lambda>r. r\<lparr>route_targets := route_targets after, route_updated_at := now\<rparr>) rows,
             cleanups @ [\<lparr>cl_before = route, cl_after = Some after\<rparr>]))"

definition delete_provider_cascade_route_targets :: "store_env \<Rightarrow> nat \<Rightarrow> string \<Rightarrow> DbConfigStore \<Rightarrow>
    ProviderDeleteOutcome store_result" where
  "delete_provider_cascade_route_targets env now pid st =
     (let d = db st in
      if select_by pr_id pid (providers_t d) = None then (st, Inl (NotFound (''provider '' @ pid)))
      else let (rows, cleanups) = fold (clean_route pid now) (routes_t d) (routes_t d, []);
               d' = d\<lparr>routes_t := rows, tokens_t := delete_where (\<lambda>k. tk_provider_id k = pid) (tokens_t d),
                      providers_t := delete_where (\<lambda>p. pr_id p = pid) (providers_t d)\<rparr>
           in (refresh env (st\<lparr>db := d'\<rparr>), Inr \<lparr>del_impact = for_routes pid (routes_t d), route_cleanups = cleanups\<rparr>))"

definition delete_provider :: "store_env \<Rightarrow> nat \<Rightarrow> string \<Rightarrow> DbConfigStore \<Rightarrow> unit store_result" where
  "delete_provider env now pid st = apsnd (map_sum (\<lambda>e. e) (\<lambda>_. ())) (delete_provider_cascade_route_targets env now pid st)"
subsection \<open>OAuth metadata\<close>

definition write_oauth_meta :: "string \<Rightarrow> nat \<Rightarrow> Provider \<Rightarrow> Provider" where
  "write_oauth_meta blob now p = p\<lparr>encrypted_oauth_meta := blob, pr_updated_at := now\<rparr>"

definition set_provider_oauth_meta :: "store_env \<Rightarrow> nat \<Rightarrow> string \<Rightarrow> string \<Rightarrow> string \<Rightarrow> DbConfigStore \<Rightarrow> unit store_result" where
  "set_provider_oauth_meta env now nonce i meta st =
     (case encrypt_column env PURPOSE_OAUTH_REFRESH_TOKEN nonce meta of Inl e \<Rightarrow> (st, Inl e) | Inr blob \<Rightarrow>
      (let d = db st; here = (\<lambda>p. pr_id p = i);
           d' = d\<lparr>providers_t := update_where here (write_oauth_meta blob now) (providers_t d)\<rparr>
       in if rows_affected here (providers_t d) = 0 then (st, Inl (NotFound (''provider '' @ i)))
          else (refresh env (st\<lparr>db := d'\<rparr>), Inr ())))"

text \<open>The compare-and-set: the row is written only if its column still holds what the caller has read.\<close>

definition set_provider_oauth_meta_if_unchanged :: "store_env \<Rightarrow> nat \<Rightarrow> string \<Rightarrow> string \<Rightarrow> string \<Rightarrow> string \<Rightarrow> DbConfigStore \<Rightarrow>
    bool store_result" where
  "set_provider_oauth_meta_if_unchanged env now nonce i expected meta st =
     (case encrypt_column env PURPOSE_OAUTH_REFRESH_TOKEN nonce meta of Inl e \<Rightarrow> (st, Inl e) | Inr blob \<Rightarrow>
      (let d = db st; here = (\<lambda>p. pr_id p = i \<and> encrypted_oauth_meta p = expected)
       in (st\<lparr>db := d\<lparr>providers_t := update_where here (write_oauth_meta blob now) (providers_t d)\<rparr>\<rparr>,
           Inr (rows_affected here (providers_t d) = 1))))"

definition obj_remove :: "string \<Rightarrow> json_object \<Rightarrow> json_object" where
  "obj_remove k kvs = filter (\<lambda>kv. fst kv \<noteq> k) kvs"

definition oauth_status_metadata :: "store_env \<Rightarrow> string \<Rightarrow> Provider \<Rightarrow> OAuthCredentialStatus \<Rightarrow> string option \<Rightarrow> StoreError + string" where
  "oauth_status_metadata env checked_at p status reason = (case oauth_meta_cleartext p of
     None \<Rightarrow> Inl (Invalid ''provider has no OAuth metadata'')
   | Some raw \<Rightarrow> (if trim raw = [] then Inl (Invalid ''provider has no OAuth metadata'')
       else case parse_json env raw of
         None \<Rightarrow> Inl Serde
       | Some (JObject kvs) \<Rightarrow>
           (let kvs = obj_insert ''status_checked_at'' (JString checked_at)
                  (obj_insert ''status'' (JString (credential_status_as_str status)) kvs);
                kvs = (case reason of
                  Some r \<Rightarrow> (if r = [] then obj_remove ''status_reason'' kvs else obj_insert ''status_reason'' (JString r) kvs)
                | None \<Rightarrow> obj_remove ''status_reason'' kvs)
            in Inr (print_json env (JObject kvs)))
       | Some _ \<Rightarrow> Inl (Invalid ''provider OAuth metadata must be a JSON object'')))"

definition set_provider_oauth_status_if_unchanged :: "store_env \<Rightarrow> nat \<Rightarrow> string \<Rightarrow> string \<Rightarrow> Provider \<Rightarrow> OAuthCredentialStatus \<Rightarrow>
    string option \<Rightarrow> DbConfigStore \<Rightarrow> bool store_result" where
  "set_provider_oauth_status_if_unchanged env now checked_at nonce p status reason st =
     (case oauth_status_metadata env checked_at p status reason of Inl e \<Rightarrow> (st, Inl e) | Inr serialized \<Rightarrow>
      (case set_provider_oauth_meta_if_unchanged env now nonce (pr_id p) (encrypted_oauth_meta p) serialized st of
         (st', Inl e) \<Rightarrow> (st', Inl e)
       | (st', Inr updated) \<Rightarrow> (if updated then refresh env st' else st', Inr updated)))"

text \<open>
  \<open>others k\<close> is what other writers (another instance, the refresh of a token) do to the tables between the read and
  the write of an attempt with \<open>k\<close> attempts left.
\<close>

fun status_attempts :: "store_env \<Rightarrow> (nat \<Rightarrow> database \<Rightarrow> database) \<Rightarrow> nat \<Rightarrow> string \<Rightarrow> (nat \<Rightarrow> string) \<Rightarrow> string \<Rightarrow>
    OAuthCredentialStatus \<Rightarrow> string option \<Rightarrow> nat \<Rightarrow> DbConfigStore \<Rightarrow> unit store_result" where
  "status_attempts env others now checked_at nonces i status reason 0 st =
     (st, Inl (Invalid (''provider '' @ i @ '' OAuth metadata changed repeatedly while updating status'')))"
| "status_attempts env others now checked_at nonces i status reason (Suc k) st =
     (case get_provider env i st of None \<Rightarrow> (st, Inl (NotFound (''provider '' @ i))) | Some p \<Rightarrow>
      (case oauth_status_metadata env checked_at p status reason of Inl e \<Rightarrow> (st, Inl e) | Inr serialized \<Rightarrow>
       (case set_provider_oauth_meta_if_unchanged env now (nonces k) i (encrypted_oauth_meta p) serialized
               (st\<lparr>db := others k (db st)\<rparr>) of
          (st', Inl e) \<Rightarrow> (st', Inl e)
        | (st', Inr True) \<Rightarrow> (refresh env st', Inr ())
        | (st', Inr False) \<Rightarrow> status_attempts env others now checked_at nonces i status reason k st')))"

definition MAX_CAS_ATTEMPTS :: nat where
  "MAX_CAS_ATTEMPTS = 4"

definition set_provider_oauth_status :: "store_env \<Rightarrow> (nat \<Rightarrow> database \<Rightarrow> database) \<Rightarrow> nat \<Rightarrow> string \<Rightarrow> (nat \<Rightarrow> string) \<Rightarrow> string \<Rightarrow>
    OAuthCredentialStatus \<Rightarrow> string option \<Rightarrow> DbConfigStore \<Rightarrow> unit store_result" where
  "set_provider_oauth_status env others now checked_at nonces i status reason st =
     status_attempts env others now checked_at nonces i status reason MAX_CAS_ATTEMPTS st"

subsection \<open>Access tokens\<close>

record OAuthTokenCommit =
  oc_provider_id :: string
  oc_access_token :: string
  oc_expires_at :: "nat option"
  oc_meta :: string
  oc_keepalive_at :: nat

definition commit_success :: "store_env \<Rightarrow> nat \<Rightarrow> (nat \<Rightarrow> string) \<Rightarrow> OAuthTokenCommit \<Rightarrow> database \<Rightarrow> database \<times> (StoreError + int)" where
  "commit_success env now nonces c d =
     (case encrypt_column env PURPOSE_OAUTH_ACCESS_TOKEN (nonces 0) (oc_access_token c) of Inl e \<Rightarrow> (d, Inl e) | Inr access \<Rightarrow>
      (case encrypt_column env PURPOSE_OAUTH_REFRESH_TOKEN (nonces 1) (oc_meta c) of Inl e \<Rightarrow> (d, Inl e) | Inr meta \<Rightarrow>
       (let here = (\<lambda>p. pr_id p = oc_provider_id c);
            row = \<lparr>tk_provider_id = oc_provider_id c, encrypted_access_token = access, access_expires_at = oc_expires_at c,
              credential_version = 1, last_refresh_at = Some now, next_keepalive_at = Some (oc_keepalive_at c),
              next_retry_at = None, failure_count = 0, tk_updated_at = now\<rparr>;
            d' = d\<lparr>providers_t := update_where here (write_oauth_meta meta now) (providers_t d),
                   tokens_t := upsert_row tk_provider_id
                     (\<lambda>old new. new\<lparr>credential_version := credential_version old + 1\<rparr>) row (tokens_t d)\<rparr>
        in if rows_affected here (providers_t d) = 0 then (d, Inl (NotFound (''provider '' @ oc_provider_id c)))
           else (d', case select_by tk_provider_id (oc_provider_id c) (tokens_t d') of
             Some r \<Rightarrow> Inr (credential_version r) | None \<Rightarrow> Inl (Db ''no rows'')))))"

definition reset_tokens :: "store_env \<Rightarrow> nat \<Rightarrow> string \<Rightarrow> string \<Rightarrow> string option \<Rightarrow> database \<Rightarrow> database \<times> (StoreError + unit)" where
  "reset_tokens env now nonce i meta d =
     (let forget = (\<lambda>d. d\<lparr>tokens_t := delete_where (\<lambda>k. tk_provider_id k = i) (tokens_t d)\<rparr>); here = (\<lambda>p. pr_id p = i)
      in case meta of
           None \<Rightarrow> (forget d, Inr ())
         | Some m \<Rightarrow> (case encrypt_column env PURPOSE_OAUTH_REFRESH_TOKEN nonce m of
             Inl e \<Rightarrow> (d, Inl e)
           | Inr blob \<Rightarrow> (if rows_affected here (providers_t d) = 0 then (d, Inl (NotFound (''provider '' @ i)))
               else (forget (d\<lparr>providers_t := update_where here (write_oauth_meta blob now) (providers_t d)\<rparr>), Inr ()))))"

definition record_refresh_failure :: "nat \<Rightarrow> string \<Rightarrow> nat \<Rightarrow> database \<Rightarrow> database" where
  "record_refresh_failure now i retry_at d =
     d\<lparr>tokens_t := upsert_row tk_provider_id
        (\<lambda>old new. old\<lparr>next_retry_at := next_retry_at new, failure_count := failure_count old + 1, tk_updated_at := tk_updated_at new\<rparr>)
        \<lparr>tk_provider_id = i, encrypted_access_token = [], access_expires_at = None, credential_version = 0,
         last_refresh_at = None, next_keepalive_at = None, next_retry_at = Some retry_at, failure_count = 1,
         tk_updated_at = now\<rparr> (tokens_t d)\<rparr>"

subsection \<open>Routes\<close>

definition get_route :: "string \<Rightarrow> DbConfigStore \<Rightarrow> Route option" where
  "get_route i st = select_by route_id i (routes_t (db st))"

definition put_route :: "Route \<Rightarrow> database \<Rightarrow> database" where
  "put_route r d = d\<lparr>routes_t := upsert_row route_id (\<lambda>old new. new\<lparr>route_created_at := route_created_at old\<rparr>) r (routes_t d)\<rparr>"

definition upsert_route :: "store_env \<Rightarrow> nat \<Rightarrow> string \<Rightarrow> string \<Rightarrow> RouteTarget list \<Rightarrow> RoutingStrategyName option \<Rightarrow> json option \<Rightarrow>
    bool \<Rightarrow> DbConfigStore \<Rightarrow> Route store_result" where
  "upsert_route env now i vm targets strat metadata on st =
     (if targets = [] then (st, Inl (Invalid ''route must have at least one target''))
      else let existing = get_route i st;
               row = \<lparr>route_id = i, virtual_model = vm, route_targets = targets, routing_strategy = strat,
                 model_metadata = metadata, route_enabled = on,
                 route_created_at = (case existing of Some r \<Rightarrow> route_created_at r | None \<Rightarrow> now), route_updated_at = now\<rparr>;
               st' = refresh env (st\<lparr>db := put_route row (db st)\<rparr>)
           in (st', case get_route i st' of
                Some r \<Rightarrow> Inr r | None \<Rightarrow> Inl (NotFound (''route '' @ i @ '' disappeared post-upsert''))))"

definition delete_route :: "store_env \<Rightarrow> string \<Rightarrow> DbConfigStore \<Rightarrow> unit store_result" where
  "delete_route env i st =
     (let d = db st; here = (\<lambda>r. route_id r = i)
      in if rows_affected here (routes_t d) = 0 then (st, Inl (NotFound (''route '' @ i)))
         else (refresh env (st\<lparr>db := d\<lparr>routes_t := delete_where here (routes_t d)\<rparr>\<rparr>), Inr ()))"

subsection \<open>API keys\<close>

definition hash_api_key :: "store_env \<Rightarrow> string \<Rightarrow> string" where
  "hash_api_key env secret = sha256_hex (se_registry env) secret"

fun normalize_names :: "string list \<Rightarrow> StoreError + string list" where
  "normalize_names [] = Inr []"
| "normalize_names (m # ms) =
     (if trim m = [] then Inl (Invalid ''allowed model names must not be empty'')
      else bind_rust (normalize_names ms) (\<lambda>ns. Inr (trim m # ns)))"

text \<open>The names go through a \<^verbatim>\<open>BTreeSet\<close>: sorted and without repetitions.\<close>

definition normalize_allowed_models :: "string list option \<Rightarrow> StoreError + string list option" where
  "normalize_allowed_models models = (case models of
     None \<Rightarrow> Inr None
   | Some ms \<Rightarrow> bind_rust (normalize_names ms) (\<lambda>ns. Inr (Some (sort (remdups ns)))))"

definition get_api_key :: "string \<Rightarrow> DbConfigStore \<Rightarrow> key_row option" where
  "get_api_key i st = select_by key_row_id i (api_keys_t (db st))"

definition find_api_key_by_secret :: "store_env \<Rightarrow> string \<Rightarrow> DbConfigStore \<Rightarrow> key_row option" where
  "find_api_key_by_secret env secret st = select_by key_hash (hash_api_key env secret) (api_keys_t (db st))"

definition create_api_key :: "store_env \<Rightarrow> nat \<Rightarrow> string \<Rightarrow> string \<Rightarrow> string \<Rightarrow> json \<Rightarrow> string list option \<Rightarrow> DbConfigStore \<Rightarrow>
    (key_row \<times> string) store_result" where
  "create_api_key env now uuid name secret quota models st =
     (case normalize_allowed_models models of Inl e \<Rightarrow> (st, Inl e) | Inr allowed \<Rightarrow>
      (let row = \<lparr>key_row_id = uuid, key_name = name, key_hash = hash_api_key env secret, quota_json = quota,
             row_allowed_models = allowed, key_status = Active, key_created_at = now, key_updated_at = now\<rparr>;
           rows = api_keys_t (db st);
           st' = st\<lparr>db := (db st)\<lparr>api_keys_t := rows @ [row]\<rparr>\<rparr>
       in if list_ex (\<lambda>r. key_row_id r = uuid \<or> key_hash r = key_hash row) rows then (st, Inl (Db ''unique constraint''))
          else (st', case get_api_key uuid st' of
            Some r \<Rightarrow> Inr (r, secret) | None \<Rightarrow> Inl (NotFound ''just-created api key''))))"

text \<open>The three updates of a key change one column and the time of the update.\<close>

definition update_api_key :: "string \<Rightarrow> (key_row \<Rightarrow> key_row) \<Rightarrow> DbConfigStore \<Rightarrow> unit store_result" where
  "update_api_key i f st =
     (let d = db st; here = (\<lambda>r. key_row_id r = i)
      in if rows_affected here (api_keys_t d) = 0 then (st, Inl (NotFound (''api key '' @ i)))
         else (st\<lparr>db := d\<lparr>api_keys_t := update_where here f (api_keys_t d)\<rparr>\<rparr>, Inr ()))"

definition reread_key :: "string \<Rightarrow> unit store_result \<Rightarrow> key_row store_result" where
  "reread_key i = (\<lambda>(st, r). (st, bind_rust r (\<lambda>_. case get_api_key i st of
     Some row \<Rightarrow> Inr row | None \<Rightarrow> Inl (NotFound (''api key '' @ i)))))"

definition update_api_key_quota :: "nat \<Rightarrow> string \<Rightarrow> json \<Rightarrow> DbConfigStore \<Rightarrow> key_row store_result" where
  "update_api_key_quota now i quota st = reread_key i (update_api_key i (\<lambda>r. r\<lparr>quota_json := quota, key_updated_at := now\<rparr>) st)"

definition update_api_key_model_access :: "nat \<Rightarrow> string \<Rightarrow> string list option \<Rightarrow> DbConfigStore \<Rightarrow> key_row store_result" where
  "update_api_key_model_access now i models st = (case normalize_allowed_models models of
     Inl e \<Rightarrow> (st, Inl e)
   | Inr allowed \<Rightarrow> reread_key i (update_api_key i (\<lambda>r. r\<lparr>row_allowed_models := allowed, key_updated_at := now\<rparr>) st))"

definition disable_api_key :: "nat \<Rightarrow> string \<Rightarrow> DbConfigStore \<Rightarrow> unit store_result" where
  "disable_api_key now i st = update_api_key i (\<lambda>r. r\<lparr>key_status := Disabled, key_updated_at := now\<rparr>) st"

definition delete_api_key :: "string \<Rightarrow> DbConfigStore \<Rightarrow> unit store_result" where
  "delete_api_key i st =
     (let d = db st; here = (\<lambda>r. key_row_id r = i)
      in if rows_affected here (api_keys_t d) = 0 then (st, Inl (NotFound (''api key '' @ i)))
         else (st\<lparr>db := d\<lparr>api_keys_t := delete_where here (api_keys_t d)\<rparr>\<rparr>, Inr ()))"

subsection \<open>Settings\<close>

definition get_setting :: "string \<Rightarrow> DbConfigStore \<Rightarrow> string option" where
  "get_setting k st = map_of (settings_t (db st)) k"

definition put_setting :: "string \<Rightarrow> string \<Rightarrow> database \<Rightarrow> database" where
  "put_setting k v d = d\<lparr>settings_t := upsert_row fst (\<lambda>_ new. new) (k, v) (settings_t d)\<rparr>"

definition set_setting :: "string \<Rightarrow> string \<Rightarrow> DbConfigStore \<Rightarrow> unit store_result" where
  "set_setting k v st = (st\<lparr>db := bump_epoch (put_setting k v (db st))\<rparr>, Inr ())"

definition get_setting_encrypted :: "store_env \<Rightarrow> string \<Rightarrow> DbConfigStore \<Rightarrow> StoreError + string option" where
  "get_setting_encrypted env k st = (case get_setting k st of
     None \<Rightarrow> Inr None
   | Some blob \<Rightarrow> map_sum (\<lambda>e. e) Some (decrypt_column env PURPOSE_SETTINGS blob))"

definition set_setting_encrypted :: "store_env \<Rightarrow> string \<Rightarrow> string \<Rightarrow> string \<Rightarrow> DbConfigStore \<Rightarrow> unit store_result" where
  "set_setting_encrypted env nonce k v st = (case encrypt_column env PURPOSE_SETTINGS nonce v of
     Inl e \<Rightarrow> (st, Inl e) | Inr blob \<Rightarrow> set_setting k blob st)"

end
