(* ===== verification/Config_Coherence.thy ===== *)
theory Config_Coherence
  imports Config_Store Json_Text
begin

section \<open>The store and the data plane agree\<close>

text \<open>
  What the operations of the configuration store keep: the tables satisfy the constraints of the schema, and the routing table
  that the data plane reads is the one of the tables, after every operation of the instance.
\<close>

subsection \<open>Tables\<close>

lemma select_by_Some: "select_by key k rows = Some r \<Longrightarrow> r \<in> set rows \<and> key r = k"
  by (auto simp: select_by_def find_Some_iff)

lemma select_by_None: "select_by key k rows = None \<longleftrightarrow> k \<notin> key ` set rows"
  by (auto simp: select_by_def find_None_iff)

lemma select_by_distinct:
  "distinct (map key rows) \<Longrightarrow> select_by key k rows = Some r \<longleftrightarrow> r \<in> set rows \<and> key r = k"
  by (induction rows) (auto simp: select_by_def)

lemma keys_upsert:
  assumes "\<And>x. key x = key r \<Longrightarrow> key (merge x r) = key r"
  shows "map key (upsert_row key merge r rows) = (if key r \<in> key ` set rows then map key rows else map key rows @ [key r])"
  using assms by (induction rows) auto

lemma select_upsert:
  assumes "\<And>x. key x = key r \<Longrightarrow> key (merge x r) = key r"
  shows "select_by key k (upsert_row key merge r rows) =
    (if k = key r then Some (case select_by key k rows of Some x \<Rightarrow> merge x r | None \<Rightarrow> r) else select_by key k rows)"
  using assms by (induction rows) (auto simp: select_by_def)

lemma set_upsert: "set (upsert_row key merge r rows) \<subseteq> {r} \<union> (\<lambda>x. merge x r) ` set rows \<union> set rows"
  by (induction rows) auto

lemma keys_update: "(\<And>r. key (f r) = key r) \<Longrightarrow> map key (update_where P f rows) = map key rows"
  by (induction rows) (auto simp: update_where_def)

lemma select_update:
  assumes "\<And>r. key (f r) = key r"
  shows "select_by key k (update_where P f rows) = map_option (\<lambda>r. if P r then f r else r) (select_by key k rows)"
  using assms by (induction rows) (auto simp: select_by_def update_where_def)

lemma distinct_delete: "distinct (map key rows) \<Longrightarrow> distinct (map key (delete_where P rows))"
  by (simp add: delete_where_def distinct_map_filter)

lemma rows_affected_0: "rows_affected P rows = 0 \<longleftrightarrow> (\<forall>r\<in>set rows. \<not> P r)"
  by (simp add: rows_affected_def filter_empty_conv)

text \<open>The constraints: the primary keys, the unique hash of a key, and no route without a target.\<close>

definition wf_db :: "database \<Rightarrow> bool" where
  "wf_db d \<longleftrightarrow> distinct (map pr_id (providers_t d)) \<and> distinct (map route_id (routes_t d)) \<and>
     distinct (map key_row_id (api_keys_t d)) \<and> distinct (map key_hash (api_keys_t d)) \<and>
     distinct (map fst (settings_t d)) \<and> distinct (map tk_provider_id (tokens_t d)) \<and>
     (\<forall>r\<in>set (routes_t d). route_targets r \<noteq> [])"

subsection \<open>The published table\<close>

definition published :: "store_env \<Rightarrow> DbConfigStore \<Rightarrow> bool" where
  "published env st \<longleftrightarrow> (\<exists>e. inner st = from_snapshot env (load_snapshot env (db st) e))"

lemma load_snapshot_cong:
  "providers_t d = providers_t d' \<Longrightarrow> routes_t d = routes_t d' \<Longrightarrow> load_snapshot env d e = load_snapshot env d' e"
  by (simp add: load_snapshot_def load_providers_def load_routes_def)

lemma published_refresh [simp]: "published env (refresh env st)"
proof -
  have "load_snapshot env (bump_epoch (db st)) e = load_snapshot env (db st) e" for e
    by (rule load_snapshot_cong) (simp_all add: bump_epoch_def)
  then show ?thesis by (auto simp: published_def refresh_def Let_def)
qed

lemma published_cong:
  assumes "published env st" and "inner st' = inner st" and "providers_t (db st') = providers_t (db st)"
    and "routes_t (db st') = routes_t (db st)"
  shows "published env st'"
  using assms load_snapshot_cong [OF assms(3,4)] by (simp add: published_def)

lemma wf_bump [simp]: "wf_db (bump_epoch d) \<longleftrightarrow> wf_db d"
  by (simp add: wf_db_def bump_epoch_def)

lemma wf_refresh [simp]: "wf_db (db (refresh env st)) \<longleftrightarrow> wf_db (db st)"
  by (simp add: refresh_def Let_def)

lemma wf_put_provider: "wf_db d \<Longrightarrow> wf_db (put_provider p d)"
  by (simp add: wf_db_def put_provider_def keys_upsert)

lemma wf_put_route: "wf_db d \<Longrightarrow> route_targets r \<noteq> [] \<Longrightarrow> wf_db (put_route r d)"
  using set_upsert [of route_id "\<lambda>old new. new\<lparr>route_created_at := route_created_at old\<rparr>" r "routes_t d"]
  by (fastforce simp: wf_db_def put_route_def keys_upsert)

lemma wf_delete_route: "wf_db d \<Longrightarrow> wf_db (d\<lparr>routes_t := delete_where P (routes_t d)\<rparr>)"
  by (auto simp: wf_db_def distinct_delete) (simp add: delete_where_def)

lemma wf_delete_key: "wf_db d \<Longrightarrow> wf_db (d\<lparr>api_keys_t := delete_where P (api_keys_t d)\<rparr>)"
  by (simp add: wf_db_def distinct_delete)

lemma wf_put_setting: "wf_db d \<Longrightarrow> wf_db (put_setting k v d)"
  by (simp add: wf_db_def put_setting_def keys_upsert)

lemma wf_update_providers:
  "wf_db d \<Longrightarrow> wf_db (d\<lparr>providers_t := update_where P (write_oauth_meta blob now) (providers_t d)\<rparr>)"
  by (simp add: wf_db_def keys_update write_oauth_meta_def)

lemma wf_tokens: "wf_db d \<Longrightarrow> distinct (map tk_provider_id rows) \<Longrightarrow> wf_db (d\<lparr>tokens_t := rows\<rparr>)"
  by (simp add: wf_db_def)

subsection \<open>The cascade of a deletion\<close>

definition clean_row :: "string \<Rightarrow> nat \<Rightarrow> Route \<Rightarrow> Route option" where
  "clean_row pid now r = (if \<not> list_ex (refers pid) (route_targets r) then Some r
     else if route_targets (remaining_route pid now r) = [] then None else Some (remaining_route pid now r))"

lemma update_only:
  assumes "key r \<notin> key ` set before" and "key r \<notin> key ` set after"
  shows "update_where (\<lambda>x. key x = key r) f (before @ r # after) = before @ f r # after"
    and "delete_where (\<lambda>x. key x = key r) (before @ r # after) = before @ after"
proof -
  have "map (\<lambda>x. if key x = key r then f x else x) xs = xs" "filter (\<lambda>x. key x \<noteq> key r) xs = xs"
    if "key r \<notin> key ` set xs" for xs
    using that by (induction xs) auto
  with assms show "update_where (\<lambda>x. key x = key r) f (before @ r # after) = before @ f r # after"
    and "delete_where (\<lambda>x. key x = key r) (before @ r # after) = before @ after"
    by (simp_all add: update_where_def delete_where_def)
qed

lemma clean_route_step:
  assumes "route_id r \<notin> route_id ` set before" and "route_id r \<notin> route_id ` set after"
  shows "fst (clean_route pid now r (before @ r # after, cl)) = before @ (case clean_row pid now r of None \<Rightarrow> [] | Some r' \<Rightarrow> [r']) @ after"
  using update_only [of route_id r before after, OF assms]
  by (simp add: clean_route_def clean_row_def Let_def remaining_route_def)

lemma clean_row_id: "clean_row pid now r = Some r' \<Longrightarrow> route_id r' = route_id r \<and> virtual_model r' = virtual_model r \<and>
    route_enabled r' = route_enabled r \<and> routing_strategy r' = routing_strategy r \<and>
    route_targets r' = filter (\<lambda>t. \<not> refers pid t) (route_targets r) \<and> (route_targets r \<noteq> [] \<longrightarrow> route_targets r' \<noteq> [])"
proof -
  have "filter (\<lambda>t. \<not> P t) ts = ts" if "\<not> list_ex P ts" for P and ts :: "RouteTarget list"
    using that by (induction ts) auto
  then show "clean_row pid now r = Some r' \<Longrightarrow> ?thesis"
    by (auto simp: clean_row_def remaining_route_def split: if_splits)
qed

lemma clean_fold:
  "distinct (map route_id (before @ rows)) \<Longrightarrow>
   fst (fold (clean_route pid now) rows (before @ rows, cl)) = before @ List.map_filter (clean_row pid now) rows"
proof (induction rows arbitrary: before cl)
  case (Cons r rows)
  let ?kept = "case clean_row pid now r of None \<Rightarrow> [] | Some r' \<Rightarrow> [r']"
  from Cons.prems have step: "fst (clean_route pid now r (before @ r # rows, cl)) = (before @ ?kept) @ rows"
    by (subst clean_route_step) (auto simp: image_iff)
  obtain cl' where c: "clean_route pid now r (before @ r # rows, cl) = ((before @ ?kept) @ rows, cl')"
    using step by (metis prod.collapse)
  have "distinct (map route_id ((before @ ?kept) @ rows))"
  proof (cases "clean_row pid now r")
    case (Some r')
    then have "route_id r' = route_id r" using clean_row_id by blast
    with Cons.prems Some show ?thesis by simp
  qed (use Cons.prems in simp)
  from Cons.IH [OF this, of cl'] have "fst (fold (clean_route pid now) (r # rows) (before @ r # rows, cl)) =
      (before @ ?kept) @ List.map_filter (clean_row pid now) rows"
    by (simp only: fold.simps o_apply c)
  then show ?case by (cases "clean_row pid now r") (simp_all add: List.map_filter_simps)
qed (simp add: List.map_filter_simps)

lemma in_map_filter: "y \<in> set (List.map_filter f xs) \<longleftrightarrow> (\<exists>x\<in>set xs. f x = Some y)"
  by (force simp: List.map_filter_def)

lemma map_filter_keys:
  assumes "\<And>x y. f x = Some y \<Longrightarrow> key y = key x"
  shows "set (map key (List.map_filter f xs)) \<subseteq> set (map key xs)" and
    "distinct (map key xs) \<Longrightarrow> distinct (map key (List.map_filter f xs))"
proof -
  show sub: "set (map key (List.map_filter f xs)) \<subseteq> set (map key xs)" for xs
    using assms by (induction xs) (auto simp: List.map_filter_simps split: option.splits)
  show "distinct (map key xs) \<Longrightarrow> distinct (map key (List.map_filter f xs))"
  proof (induction xs)
    case (Cons x xs)
    with sub [of xs] assms [of x] show ?case by (auto simp: List.map_filter_simps split: option.splits)
  qed (simp add: List.map_filter_simps)
qed

lemma delete_provider_tables:
  assumes "wf_db (db st)" and "select_by pr_id pid (providers_t (db st)) \<noteq> None"
  shows "fst (delete_provider_cascade_route_targets env now pid st) = refresh env (st\<lparr>db := (db st)
    \<lparr>routes_t := List.map_filter (clean_row pid now) (routes_t (db st)),
     tokens_t := delete_where (\<lambda>k. tk_provider_id k = pid) (tokens_t (db st)),
     providers_t := delete_where (\<lambda>p. pr_id p = pid) (providers_t (db st))\<rparr>\<rparr>)"
  using assms clean_fold [of "[]" "routes_t (db st)" pid now "[]"]
  by (auto simp: delete_provider_cascade_route_targets_def wf_db_def Let_def split: prod.splits)

lemma wf_delete_provider:
  assumes "wf_db (db st)"
  shows "wf_db (db (fst (delete_provider_cascade_route_targets env now pid st)))"
proof (cases "select_by pr_id pid (providers_t (db st)) = None")
  case True
  with assms show ?thesis by (simp add: delete_provider_cascade_route_targets_def)
next
  case False
  have "route_targets r' \<noteq> []" if "r' \<in> set (List.map_filter (clean_row pid now) (routes_t (db st)))" for r'
  proof -
    from that obtain r where "r \<in> set (routes_t (db st))" "clean_row pid now r = Some r'"
      by (auto simp: in_map_filter)
    then show ?thesis using assms clean_row_id [of pid now r r'] by (auto simp: wf_db_def)
  qed
  moreover have "distinct (map route_id (List.map_filter (clean_row pid now) (routes_t (db st))))"
    by (rule map_filter_keys(2)) (use assms clean_row_id in \<open>auto simp: wf_db_def\<close>)
  ultimately show ?thesis using assms
    unfolding delete_provider_tables [OF assms False] wf_refresh by (simp add: wf_db_def distinct_delete)
qed

subsection \<open>Every operation keeps the store coherent\<close>

definition coherent :: "store_env \<Rightarrow> DbConfigStore \<Rightarrow> bool" where
  "coherent env st \<longleftrightarrow> published env st \<and> wf_db (db st)"

named_theorems coherence

lemma coherent_refresh: "wf_db (db st) \<Longrightarrow> coherent env (refresh env st)"
  by (simp add: coherent_def)

text \<open>Tables that the snapshot does not read.\<close>

lemma coherent_other:
  assumes "coherent env st" and "wf_db d" and "providers_t d = providers_t (db st)" and "routes_t d = routes_t (db st)"
  shows "coherent env (st\<lparr>db := d\<rparr>)"
  using assms published_cong [of env st "st\<lparr>db := d\<rparr>"] by (simp add: coherent_def)

lemma coherent_upsert_provider [coherence]:
  "coherent env st \<Longrightarrow> coherent env (fst (upsert_provider_with_usage_management_key env now nonces inp st))"
  by (auto simp: upsert_provider_with_usage_management_key_def Let_def coherent_def wf_put_provider
      split: sum.splits)

lemma coherent_delete_provider [coherence]: "coherent env st \<Longrightarrow> coherent env (fst (delete_provider env now pid st))"
  using wf_delete_provider [of st env now pid] delete_provider_tables [of st pid env now]
  by (cases "select_by pr_id pid (providers_t (db st)) = None")
     (auto simp: coherent_def delete_provider_def delete_provider_cascade_route_targets_def [of env now pid st])

lemma coherent_set_oauth_meta [coherence]: "coherent env st \<Longrightarrow> coherent env (fst (set_provider_oauth_meta env now nonce i meta st))"
  by (auto simp: set_provider_oauth_meta_def Let_def coherent_def wf_update_providers split: sum.splits)

lemma update_where_none: "\<forall>r\<in>set rows. \<not> P r \<Longrightarrow> update_where P f rows = rows"
  by (simp add: update_where_def map_idI)

lemma rows_affected_key:
  assumes "distinct (map key rows)" and "\<And>r. P r \<Longrightarrow> key r = k"
  shows "rows_affected P rows \<le> 1"
  using assms
proof (induction rows)
  case (Cons r rows)
  have "rows_affected P rows = 0" if "P r"
    unfolding rows_affected_0
  proof (intro ballI notI)
    fix x assume "x \<in> set rows" "P x"
    then have "key x = key r" using Cons.prems(2) \<open>P r\<close> by simp
    with \<open>x \<in> set rows\<close> Cons.prems(1) show False by (force simp: image_iff)
  qed
  with Cons show ?case by (auto simp: rows_affected_def)
qed (simp add: rows_affected_def)

text \<open>The compare-and-set changes nothing, or one row.\<close>

lemma cas_unchanged:
  assumes "wf_db (db st)" and "set_provider_oauth_meta_if_unchanged env now nonce i old meta st = (st', Inr False)"
  shows "st' = st"
proof -
  let ?here = "\<lambda>p. pr_id p = i \<and> encrypted_oauth_meta p = old"
  have "rows_affected ?here (providers_t (db st)) \<le> 1"
    by (rule rows_affected_key [of pr_id]) (use assms(1) in \<open>auto simp: wf_db_def\<close>)
  with assms(2) have "rows_affected ?here (providers_t (db st)) = 0"
    by (auto simp: set_provider_oauth_meta_if_unchanged_def Let_def split: sum.splits)
  then have u: "update_where ?here f (providers_t (db st)) = providers_t (db st)" for f
    by (intro update_where_none) (simp add: rows_affected_0)
  show ?thesis using assms(2) by (auto simp: set_provider_oauth_meta_if_unchanged_def Let_def u split: sum.splits)
qed

lemma cas_failed:
  "set_provider_oauth_meta_if_unchanged env now nonce i old meta st = (st', Inl e) \<Longrightarrow> st' = st"
  by (auto simp: set_provider_oauth_meta_if_unchanged_def Let_def split: sum.splits)

lemma cas_wf:
  "wf_db (db st) \<Longrightarrow> set_provider_oauth_meta_if_unchanged env now nonce i old meta st = (st', r) \<Longrightarrow> wf_db (db st')"
  by (auto simp: set_provider_oauth_meta_if_unchanged_def Let_def wf_update_providers split: sum.splits)

lemma cas_coherent:
  assumes "coherent env st" and "set_provider_oauth_meta_if_unchanged env now nonce i old meta st = (st', r)"
  shows "coherent env (if r = Inr True then refresh env st' else st')"
proof (cases "r = Inr True")
  case True
  with cas_wf [OF _ assms(2)] assms(1) show ?thesis by (simp add: coherent_def)
next
  case False
  then consider e where "r = Inl e" | "r = Inr False" by (cases r) auto
  then have "st' = st"
  proof cases
    case 1
    with assms(2) cas_failed show ?thesis by blast
  next
    case 2
    with assms cas_unchanged show ?thesis by (auto simp: coherent_def)
  qed
  with assms(1) False show ?thesis by simp
qed

lemma coherent_status_if_unchanged [coherence]:
  assumes "coherent env st"
  shows "coherent env (fst (set_provider_oauth_status_if_unchanged env now ts nonce p status reason st))"
proof (cases "oauth_status_metadata env ts p status reason")
  case (Inr meta)
  obtain st' r where r: "set_provider_oauth_meta_if_unchanged env now nonce (pr_id p) (encrypted_oauth_meta p) meta st = (st', r)"
    by fastforce
  show ?thesis using cas_coherent [OF assms r] Inr r
    by (cases r) (auto simp: set_provider_oauth_status_if_unchanged_def)
qed (use assms in \<open>simp add: set_provider_oauth_status_if_unchanged_def\<close>)

lemma coherent_status_attempts [coherence]:
  "coherent env st \<Longrightarrow> coherent env (fst (status_attempts env (\<lambda>_ d. d) now ts nonces i status reason k st))"
proof (induction k arbitrary: st)
  case (Suc k)
  show ?case
  proof (cases "get_provider env i st")
    case (Some p)
    show ?thesis
    proof (cases "oauth_status_metadata env ts p status reason")
      case (Inr meta)
      obtain st' r where r: "set_provider_oauth_meta_if_unchanged env now (nonces k) i (encrypted_oauth_meta p) meta st = (st', r)"
        by fastforce
      show ?thesis using cas_coherent [OF Suc.prems r] Suc.IH [of st'] Some Inr r
        by (cases r) (auto split: bool.splits)
    qed (use Some Suc.prems in simp)
  qed (use Suc.prems in simp)
qed simp

lemma coherent_commit [coherence]:
  "coherent env st \<Longrightarrow> coherent env (refresh env (st\<lparr>db := fst (commit_success env now nonces c (db st))\<rparr>))"
  by (intro coherent_refresh)
     (auto simp: coherent_def commit_success_def Let_def wf_db_def keys_update keys_upsert write_oauth_meta_def split: sum.splits)

lemma coherent_reset_tokens [coherence]:
  "coherent env st \<Longrightarrow> coherent env (refresh env (st\<lparr>db := fst (reset_tokens env now nonce i meta (db st))\<rparr>))"
  by (intro coherent_refresh)
     (auto simp: coherent_def reset_tokens_def Let_def wf_db_def keys_update distinct_delete write_oauth_meta_def
       split: sum.splits option.splits)

lemma coherent_refresh_failure [coherence]:
  "coherent env st \<Longrightarrow> coherent env (st\<lparr>db := record_refresh_failure now i retry_at (db st)\<rparr>)"
  by (rule coherent_other) (auto simp: coherent_def record_refresh_failure_def wf_db_def keys_upsert)

lemma coherent_upsert_route [coherence]:
  "coherent env st \<Longrightarrow> coherent env (fst (upsert_route env now i vm targets strat metadata on st))"
  by (auto simp: upsert_route_def Let_def coherent_def wf_put_route)

lemma coherent_delete_route [coherence]: "coherent env st \<Longrightarrow> coherent env (fst (delete_route env i st))"
  by (auto simp: delete_route_def Let_def coherent_def wf_delete_route)

lemma coherent_create_api_key [coherence]:
  "coherent env st \<Longrightarrow> coherent env (fst (create_api_key env now uuid name secret quota models st))"
  by (auto simp: create_api_key_def Let_def coherent_def wf_db_def list_ex_iff intro!: published_cong [of env st] split: sum.splits)

lemma coherent_update_api_key:
  assumes "coherent env st" and "\<And>r. key_row_id (f r) = key_row_id r" and "\<And>r. key_hash (f r) = key_hash r"
  shows "coherent env (fst (update_api_key i f st))"
  using assms by (auto simp: update_api_key_def Let_def coherent_def wf_db_def keys_update intro!: published_cong [of env st])

lemma coherent_key_updates [coherence]:
  assumes "coherent env st"
  shows "coherent env (fst (update_api_key_quota now i quota st))"
    and "coherent env (fst (update_api_key_model_access now i models st))"
    and "coherent env (fst (disable_api_key now i st))"
    and "coherent env (fst (delete_api_key i st))"
proof -
  show "coherent env (fst (delete_api_key i st))"
    using assms by (auto simp: delete_api_key_def Let_def wf_delete_key coherent_def intro!: published_cong [of env st])
qed (use assms in \<open>auto simp: update_api_key_quota_def update_api_key_model_access_def disable_api_key_def reread_key_def
      case_prod_beta coherent_update_api_key split: sum.splits\<close>)

lemma coherent_set_setting [coherence]: "coherent env st \<Longrightarrow> coherent env (fst (set_setting k v st))"
  by (auto simp: set_setting_def coherent_def wf_put_setting intro!: published_cong [of env st])
     (simp_all add: bump_epoch_def put_setting_def)

lemma coherent_set_setting_encrypted [coherence]:
  "coherent env st \<Longrightarrow> coherent env (fst (set_setting_encrypted env nonce k v st))"
  by (auto simp: set_setting_encrypted_def coherent_set_setting split: sum.splits)

lemma coherent_poll [coherence]: "coherent env st \<Longrightarrow> coherent env (snd (epoch_poll env (seen, st)))"
  by (simp add: epoch_poll_def Let_def coherent_def)

subsection \<open>Reachable stores\<close>

text \<open>
  The instance opens a database that satisfies the constraints, then works through any sequence of operations.  The
  writers of tokens refresh the store after their transaction, as their callers do.
\<close>

inductive reachable :: "store_env \<Rightarrow> DbConfigStore \<Rightarrow> bool" for env where
  opened: "wf_db d \<Longrightarrow> reachable env (open_store env d)"
| provider_upserted: "reachable env st \<Longrightarrow> reachable env (fst (upsert_provider_with_usage_management_key env now nonces inp st))"
| provider_deleted: "reachable env st \<Longrightarrow> reachable env (fst (delete_provider env now pid st))"
| oauth_meta_set: "reachable env st \<Longrightarrow> reachable env (fst (set_provider_oauth_meta env now nonce i meta st))"
| oauth_status_compared: "reachable env st \<Longrightarrow>
    reachable env (fst (set_provider_oauth_status_if_unchanged env now ts nonce p status reason st))"
| oauth_status_set: "reachable env st \<Longrightarrow>
    reachable env (fst (set_provider_oauth_status env (\<lambda>_ d. d) now ts nonces i status reason st))"
| token_committed: "reachable env st \<Longrightarrow> reachable env (refresh env (st\<lparr>db := fst (commit_success env now nonces c (db st))\<rparr>))"
| token_reset: "reachable env st \<Longrightarrow> reachable env (refresh env (st\<lparr>db := fst (reset_tokens env now nonce i m (db st))\<rparr>))"
| refresh_failed: "reachable env st \<Longrightarrow> reachable env (st\<lparr>db := record_refresh_failure now i retry_at (db st)\<rparr>)"
| route_upserted: "reachable env st \<Longrightarrow> reachable env (fst (upsert_route env now i vm targets strat metadata on st))"
| route_deleted: "reachable env st \<Longrightarrow> reachable env (fst (delete_route env i st))"
| key_created: "reachable env st \<Longrightarrow> reachable env (fst (create_api_key env now uuid name secret quota models st))"
| key_quota_set: "reachable env st \<Longrightarrow> reachable env (fst (update_api_key_quota now i quota st))"
| key_access_set: "reachable env st \<Longrightarrow> reachable env (fst (update_api_key_model_access now i models st))"
| key_disabled: "reachable env st \<Longrightarrow> reachable env (fst (disable_api_key now i st))"
| key_deleted: "reachable env st \<Longrightarrow> reachable env (fst (delete_api_key i st))"
| setting_set: "reachable env st \<Longrightarrow> reachable env (fst (set_setting k v st))"
| secret_setting_set: "reachable env st \<Longrightarrow> reachable env (fst (set_setting_encrypted env nonce k v st))"
| polled: "reachable env st \<Longrightarrow> reachable env (snd (epoch_poll env (seen, st)))"

lemma reachable_coherent: "reachable env st \<Longrightarrow> coherent env st"
  by (induction rule: reachable.induct)
     (auto simp: open_store_def set_provider_oauth_status_def intro: coherence coherent_refresh)

lemma routing_ignores_epoch:
  "snapshot_to_routing_table reg pj (load_snapshot env d e) = snapshot_to_routing_table reg pj (load_snapshot env d e')"
  unfolding snapshot_to_routing_table_def route_routing_targets_def usable_provider_def load_snapshot_def
    ConfigSnapshot.select_convs by (rule HOL.refl)

lemma published_routing:
  "published env st \<Longrightarrow> routing_table (inner st) =
    snapshot_to_routing_table (se_registry env) (parse_json env) (load_snapshot env (db st) e)"
  using routing_ignores_epoch by (auto simp: published_def from_snapshot_def)


subsection \<open>The poll task\<close>

text \<open>
  C39.  The poll task is meant to refresh when the epoch has advanced.  Each refresh advances the epoch itself, and
  the task remembers the epoch from before it: it refreshes in every round, and never comes to rest.
\<close>

theorem poll_never_rests:
  "current_epoch (db (snd ((epoch_poll env ^^ n) (None, st)))) = current_epoch (db st) + int n \<and>
   snd ((epoch_poll env ^^ Suc n) (None, st)) = refresh env (snd ((epoch_poll env ^^ n) (None, st)))"
proof -
  have e: "current_epoch (db (refresh env st)) = current_epoch (db st) + 1" for st
    by (auto simp: refresh_def Let_def bump_epoch_def current_epoch_def split: option.splits)
  define behind where "behind x \<longleftrightarrow> (\<forall>e. fst x = Some e \<longrightarrow> e < current_epoch (db (snd x)))" for x :: "int option \<times> DbConfigStore"
  have step: "snd (epoch_poll env x) = refresh env (snd x) \<and> behind (epoch_poll env x)" if "behind x" for x
    using that e by (cases x) (auto simp: epoch_poll_def Let_def behind_def)
  have b: "behind ((epoch_poll env ^^ n) (None, st))" for n
    by (induction n) (auto simp: step, simp add: behind_def)
  have "current_epoch (db (snd ((epoch_poll env ^^ n) (None, st)))) = current_epoch (db st) + int n" for n
    by (induction n) (simp_all add: step [OF b] e)
  then show ?thesis using step [OF b] by simp
qed

subsection \<open>Deleting a provider\<close>

lemma collect_map_distinct: "distinct (map key rows) \<Longrightarrow> collect_map key rows k = select_by key k rows"
proof -
  assume d: "distinct (map key rows)"
  then have "distinct (map fst (rev (map (\<lambda>r. (key r, r)) rows)))" by (auto simp: comp_def distinct_map inj_on_def)
  then have "collect_map key rows k = Some r \<longleftrightarrow> select_by key k rows = Some r" for r
    using d by (auto simp: collect_map_def map_of_eq_Some_iff select_by_distinct)
  then show ?thesis by (metis not_None_eq)
qed

lemma select_map: "(\<And>r. key (f r) = key r) \<Longrightarrow> select_by key k (map f rows) = map_option f (select_by key k rows)"
  by (induction rows) (auto simp: select_by_def)

lemma select_delete: "select_by key k (delete_where (\<lambda>r. key r = k') rows) = (if k = k' then None else select_by key k rows)"
  by (induction rows) (auto simp: select_by_def delete_where_def)

lemma select_map_filter:
  assumes "distinct (map key rows)" and "\<And>x y. f x = Some y \<Longrightarrow> key y = key x"
  shows "select_by key k (List.map_filter f rows) = Option.bind (select_by key k rows) f"
proof -
  have "select_by key k (List.map_filter f rows) = Some y \<longleftrightarrow> Option.bind (select_by key k rows) f = Some y" for y
    using assms map_filter_keys(2) [OF assms(2) assms(1), of f]
    by (auto simp: select_by_distinct in_map_filter bind_eq_Some_conv)
  then show ?thesis by (metis not_None_eq)
qed

lemma refreshed_id [simp]: "pr_id (refreshed_provider env (row_to_provider p)) = pr_id p"
  by (simp add: refreshed_provider_def populate_provider_oauth_cleartext_def row_to_provider_def)

lemma snap_providers_loaded:
  assumes "wf_db d"
  shows "snap_providers (load_snapshot env d e) k =
    map_option (refreshed_provider env \<circ> row_to_provider) (select_by pr_id k (providers_t d))"
  using assms select_map [of pr_id "refreshed_provider env \<circ> row_to_provider"]
  by (simp add: load_snapshot_def load_providers_def wf_db_def collect_map_distinct comp_def)

lemma snap_routes_loaded:
  "distinct (map virtual_model (routes_t d)) \<Longrightarrow> snap_routes (load_snapshot env d e) vm = select_by virtual_model vm (routes_t d)"
  by (simp add: load_snapshot_def load_routes_def collect_map_distinct)

lemma targets_without:
  assumes "\<And>k p. snap_providers snap k = Some p \<Longrightarrow> pr_id p = k"
    and "snap_providers snap' = (snap_providers snap)(pid := None)"
    and "route_targets route' = filter (\<lambda>t. \<not> refers pid t) (route_targets route)"
  shows "route_routing_targets reg pj snap' route' = filter (\<lambda>r. provider_id r \<noteq> pid) (route_routing_targets reg pj snap route)"
proof -
  have same: "usable_provider snap' t = usable_provider snap t" if "\<not> refers pid t" for t
    using that assms(2) by (simp add: usable_provider_def refers_def)
  have p: "provider_id (routing_target reg pj p t) = rt_provider_id t" if "usable_provider snap t = Some p" for t p
    using that assms(1) by (auto simp: usable_provider_Some routing_target_def split: prod.splits)
  have "List.map_filter (\<lambda>t. map_option (\<lambda>p. routing_target reg pj p t) (usable_provider snap' t)) (filter (\<lambda>t. \<not> refers pid t) ts) =
      filter (\<lambda>r. provider_id r \<noteq> pid) (List.map_filter (\<lambda>t. map_option (\<lambda>p. routing_target reg pj p t) (usable_provider snap t)) ts)" for ts
    by (induction ts) (auto simp: List.map_filter_simps same p, auto simp: refers_def p split: option.splits)
  then show ?thesis by (simp add: route_routing_targets_def assms(3))
qed

definition without_provider :: "string \<Rightarrow> RoutingTable \<Rightarrow> RoutingTable" where
  "without_provider pid table = (\<lambda>vm. Option.bind (table vm) (\<lambda>e.
     let ts = filter (\<lambda>t. provider_id t \<noteq> pid) (re_targets e) in if ts = [] then None else Some (e\<lparr>re_targets := ts\<rparr>)))"

lemma without_provider_route:
  assumes "snap_routes snap' vm = Option.bind (snap_routes snap vm) (clean_row pid now)"
    and "\<And>k p. snap_providers snap k = Some p \<Longrightarrow> pr_id p = k"
    and "snap_providers snap' = (snap_providers snap)(pid := None)"
  shows "snapshot_to_routing_table reg pj snap' vm = without_provider pid (snapshot_to_routing_table reg pj snap) vm"
proof (cases "snap_routes snap vm")
  case None
  with assms(1) show ?thesis by (simp add: snapshot_to_routing_table_def without_provider_def)
next
  case (Some route)
  have without: "route_routing_targets reg pj snap' r' = filter (\<lambda>r. provider_id r \<noteq> pid) (route_routing_targets reg pj snap r)"
    if "route_targets r' = filter (\<lambda>t. \<not> refers pid t) (route_targets r)" for r r' reg pj
    by (rule targets_without) (fact assms(2) assms(3) that)+
  show ?thesis
  proof (cases "clean_row pid now route")
    case None
    then have "filter (\<lambda>t. \<not> refers pid t) (route_targets route) = []"
      by (auto simp: clean_row_def remaining_route_def split: if_splits)
    then have "filter (\<lambda>r. provider_id r \<noteq> pid) (route_routing_targets reg pj snap route) = []"
      using without [of "remaining_route pid now route" route]
      by (simp add: remaining_route_def route_routing_targets_def List.map_filter_simps)
    with Some None assms(1) show ?thesis by (simp add: snapshot_to_routing_table_def without_provider_def Let_def)
  next
    case r': (Some route')
    with clean_row_id have "route_targets route' = filter (\<lambda>t. \<not> refers pid t) (route_targets route)"
      and same: "route_enabled route' = route_enabled route" "routing_strategy route' = routing_strategy route" by blast+
    from without [OF this(1)] Some r' assms(1) same show ?thesis
      by (auto simp: snapshot_to_routing_table_def without_provider_def Let_def)
  qed
qed

text \<open>The tables after the deletion of a provider, and the snapshot they load to.\<close>

definition deleted_tables :: "string \<Rightarrow> nat \<Rightarrow> database \<Rightarrow> database" where
  "deleted_tables pid now d = d\<lparr>routes_t := List.map_filter (clean_row pid now) (routes_t d),
     tokens_t := delete_where (\<lambda>k. tk_provider_id k = pid) (tokens_t d),
     providers_t := delete_where (\<lambda>p. pr_id p = pid) (providers_t d)\<rparr>"

lemma deleted_tables_facts:
  "routes_t (deleted_tables pid now d) = List.map_filter (clean_row pid now) (routes_t d)"
  "tokens_t (deleted_tables pid now d) = delete_where (\<lambda>k. tk_provider_id k = pid) (tokens_t d)"
  "providers_t (deleted_tables pid now d) = delete_where (\<lambda>p. pr_id p = pid) (providers_t d)"
  by (simp_all add: deleted_tables_def)

lemma delete_provider_Inr:
  assumes "wf_db (db st)" and "delete_provider env now pid st = (st', Inr ())"
  shows "st' = refresh env (st\<lparr>db := deleted_tables pid now (db st)\<rparr>)" and "wf_db (deleted_tables pid now (db st))"
proof -
  have here: "select_by pr_id pid (providers_t (db st)) \<noteq> None"
    by (rule notI) (use assms(2) in \<open>simp add: delete_provider_def delete_provider_cascade_route_targets_def\<close>)
  have st': "st' = fst (delete_provider_cascade_route_targets env now pid st)"
    using assms(2) by (cases "delete_provider_cascade_route_targets env now pid st") (simp add: delete_provider_def)
  show eq: "st' = refresh env (st\<lparr>db := deleted_tables pid now (db st)\<rparr>)"
    using delete_provider_tables [OF assms(1) here] st' by (simp add: deleted_tables_def)
  have "wf_db (db (refresh env (st\<lparr>db := deleted_tables pid now (db st)\<rparr>)))"
    using wf_delete_provider [OF assms(1), of env now pid] unfolding st' [symmetric] eq .
  then show "wf_db (deleted_tables pid now (db st))" by simp
qed

lemma deleted_routing:
  assumes "wf_db d" and "wf_db (deleted_tables pid now d)" and "distinct (map virtual_model (routes_t d))"
  shows "snapshot_to_routing_table reg pj (load_snapshot env (deleted_tables pid now d) e) =
    without_provider pid (snapshot_to_routing_table reg pj (load_snapshot env d e))"
proof (rule ext, rule without_provider_route)
  let ?d = "deleted_tables pid now d"
  have "distinct (map virtual_model (routes_t ?d))"
    unfolding deleted_tables_facts by (rule map_filter_keys(2)) (use assms(3) clean_row_id in auto)
  then show "snap_routes (load_snapshot env ?d e) vm = Option.bind (snap_routes (load_snapshot env d e) vm) (clean_row pid now)" for vm
    using select_map_filter [OF assms(3), of "clean_row pid now" vm] clean_row_id
    by (simp add: snap_routes_loaded assms(3) deleted_tables_facts)
  show "snap_providers (load_snapshot env ?d e) = (snap_providers (load_snapshot env d e))(pid := None)"
    by (intro ext) (simp add: snap_providers_loaded assms(1,2) deleted_tables_facts select_delete)
  show "pr_id p = k" if "snap_providers (load_snapshot env d e) k = Some p" for k p
    using that by (auto simp: snap_providers_loaded [OF assms(1)] dest: select_by_Some)
qed


text \<open>A store with the provider and the route of the example, without a master key.\<close>

definition demo_env :: store_env where
  "demo_env = \<lparr>se_registry = \<lparr>sha256_hex = (\<lambda>s. s), compatible_base = None, with_bedrock = False\<rparr>, parse_json = (\<lambda>_. None),
     print_json = (\<lambda>_. []), se_crypto = demo_crypto, encryption = None\<rparr>"

definition demo_db :: database where
  "demo_db = \<lparr>providers_t = [demo_provider], routes_t = [demo_route], api_keys_t = [], settings_t = [], tokens_t = [], epoch_t = None\<rparr>"

lemma demo_db_wf: "wf_db demo_db"
  by (simp add: wf_db_def demo_db_def demo_route_def)

lemma demo_opened: "reachable demo_env (open_store demo_env demo_db)"
  by (rule opened [OF demo_db_wf])

lemma demo_tables:
  "providers_t (db (open_store demo_env demo_db)) = [demo_provider]" "routes_t (db (open_store demo_env demo_db)) = [demo_route]"
  by (simp_all add: open_store_def refresh_def bump_epoch_def demo_db_def Let_def)

lemma demo_loaded:
  "snap_routes (load_snapshot demo_env (db (open_store demo_env demo_db)) e) = [''vm'' \<mapsto> demo_route]"
  "snap_providers (load_snapshot demo_env (db (open_store demo_env demo_db)) e) =
     [''p1'' \<mapsto> demo_provider\<lparr>api_key_cleartext := Some ''blob''\<rparr>]"
proof -
  have "virtual_model demo_route = ''vm''" by (simp add: demo_route_def)
  then show "snap_routes (load_snapshot demo_env (db (open_store demo_env demo_db)) e) = [''vm'' \<mapsto> demo_route]"
    by (simp add: load_snapshot_def load_routes_def demo_tables collect_map_def)
  have "refreshed_provider demo_env (row_to_provider demo_provider) = demo_provider\<lparr>api_key_cleartext := Some ''blob''\<rparr>"
    "pr_id demo_provider = ''p1''"
    by (simp_all add: refreshed_provider_def row_to_provider_def populate_provider_oauth_cleartext_def cleartext_def
        decrypt_column_def demo_env_def demo_provider_def)
  then show "snap_providers (load_snapshot demo_env (db (open_store demo_env demo_db)) e) =
     [''p1'' \<mapsto> demo_provider\<lparr>api_key_cleartext := Some ''blob''\<rparr>]"
    by (simp add: load_snapshot_def load_providers_def demo_tables collect_map_def)
qed

lemma demo_targets:
  "route_routing_targets reg pj (load_snapshot demo_env (db (open_store demo_env demo_db)) e) demo_route =
     [routing_target reg pj (demo_provider\<lparr>api_key_cleartext := Some ''blob''\<rparr>) (demo_row_target ''gpt-5'' True)]"
  by (simp add: route_routing_targets_def usable_provider_def demo_loaded demo_route_def demo_row_target_def demo_provider_def
      List.map_filter_simps)



end
