(* ===== verification/Config_Credentials.thy ===== *)
theory Config_Credentials
  imports Config_Coherence
begin

section \<open>Credentials in the store\<close>

text \<open>
  What the store promises about credentials: the keys of clients are found by their secret until they are disabled or
  deleted, and a note on the health of an OAuth credential never overwrites what another writer has stored.
\<close>

subsection \<open>Keys of clients\<close>

lemma select_by_snoc: "select_by key k (rows @ [r]) = (case select_by key k rows of Some x \<Rightarrow> Some x | None \<Rightarrow> if key r = k then Some r else None)"
  by (induction rows) (auto simp: select_by_def)

lemma create_api_key_Inr:
  assumes "create_api_key env now uuid name secret quota models st = (st', Inr (row, s))"
  shows "s = secret \<and> db st' = (db st)\<lparr>api_keys_t := api_keys_t (db st) @ [row]\<rparr> \<and> key_row_id row = uuid \<and>
    key_hash row = hash_api_key env secret \<and> key_status row = Active \<and> quota_json row = quota \<and>
    normalize_allowed_models models = Inr (row_allowed_models row) \<and>
    uuid \<notin> key_row_id ` set (api_keys_t (db st)) \<and> hash_api_key env secret \<notin> key_hash ` set (api_keys_t (db st))"
  using assms
  by (auto simp: create_api_key_def get_api_key_def Let_def select_by_snoc select_by_None list_ex_iff
      split: sum.splits if_splits option.splits dest: select_by_Some)

text \<open>
  C38.  A created key is found by its secret, is active and has the stated allow-list; disabling it leaves it found and
  disabled, deleting it makes it unknown, and none of this changes what other secrets find.
\<close>

theorem api_key_lifecycle:
  assumes "reachable env st" and "create_api_key env now uuid name secret quota models st = (st', Inr (row, s))"
  shows "find_api_key_by_secret env secret st' = Some row \<and> key_status row = Active \<and>
    normalize_allowed_models models = Inr (row_allowed_models row) \<and>
    map_option key_status (find_api_key_by_secret env secret (fst (disable_api_key later uuid st'))) = Some Disabled \<and>
    find_api_key_by_secret env secret (fst (delete_api_key uuid st')) = None \<and>
    (\<forall>other. hash_api_key env other \<noteq> hash_api_key env secret \<longrightarrow>
       find_api_key_by_secret env other st' = find_api_key_by_secret env other st \<and>
       find_api_key_by_secret env other (fst (disable_api_key later uuid st')) = find_api_key_by_secret env other st \<and>
       find_api_key_by_secret env other (fst (delete_api_key uuid st')) = find_api_key_by_secret env other st)"
proof -
  note c = create_api_key_Inr [OF assms(2)]
  let ?rows = "api_keys_t (db st)" and ?here = "\<lambda>r. key_row_id r = uuid" and ?f = "\<lambda>r. r\<lparr>key_status := Disabled, key_updated_at := later\<rparr>"
  have rows': "api_keys_t (db st') = ?rows @ [row]" using c by simp
  have none: "\<forall>r\<in>set ?rows. \<not> ?here r" using c by (auto simp: image_iff)
  have a: "rows_affected ?here (?rows @ [row]) \<noteq> 0" using c by (simp add: rows_affected_0)
  have u: "update_where ?here ?f (?rows @ [row]) = ?rows @ [?f row]"
    using update_where_none [OF none, of ?f] c by (simp add: update_where_def)
  have d: "delete_where ?here (?rows @ [row]) = ?rows"
    using none c by (simp add: delete_where_def filter_id_conv)
  have after: "api_keys_t (db (fst (disable_api_key later uuid st'))) = ?rows @ [?f row]"
    "api_keys_t (db (fst (delete_api_key uuid st'))) = ?rows"
    using a u d by (simp_all add: disable_api_key_def update_api_key_def delete_api_key_def rows' Let_def)
  have "select_by key_hash (hash_api_key env secret) ?rows = None" using c by (simp add: select_by_None)
  then show ?thesis using c rows' after by (auto simp: find_api_key_by_secret_def select_by_snoc split: option.splits)
qed

theorem api_key_lifecycle_witness:
  "\<exists>st' row. create_api_key demo_env 1 ''k1'' ''ci'' ''s3cret'' (JObject []) (Some ['' gpt '']) (open_store demo_env demo_db) = (st', Inr (row, ''s3cret'')) \<and>
    row_allowed_models row = Some [''gpt''] \<and>
    map_option key_status (find_api_key_by_secret demo_env ''s3cret'' (fst (disable_api_key 2 ''k1'' st'))) = Some Disabled"
proof -
  let ?st = "open_store demo_env demo_db"
  have n: "normalize_allowed_models (Some ['' gpt '']) = Inr (Some [''gpt''])"
    by (simp add: normalize_allowed_models_def trim_def is_whitespace_def byte_def)
  have "api_keys_t (db ?st) = []" by (simp add: open_store_def refresh_def bump_epoch_def demo_db_def Let_def)
  then obtain st' row where c: "create_api_key demo_env 1 ''k1'' ''ci'' ''s3cret'' (JObject []) (Some ['' gpt '']) ?st = (st', Inr (row, ''s3cret''))"
    by (simp add: create_api_key_def n Let_def get_api_key_def select_by_def)
  from api_key_lifecycle [OF demo_opened c, of 2] n c show ?thesis by auto
qed

subsection \<open>The health of an OAuth credential\<close>

text \<open>What a provider row says, and the fields that a note on the health of the credential may change.\<close>

definition stored_meta :: "store_env \<Rightarrow> database \<Rightarrow> string \<Rightarrow> json option" where
  "stored_meta env d i = Option.bind (select_by pr_id i (providers_t d)) (\<lambda>p.
     Option.bind (cleartext env PURPOSE_OAUTH_REFRESH_TOKEN (encrypted_oauth_meta p)) (parse_json env))"

definition meta_field :: "store_env \<Rightarrow> database \<Rightarrow> string \<Rightarrow> string \<Rightarrow> json option" where
  "meta_field env d i k = Option.bind (stored_meta env d i) (\<lambda>m. get m k)"

definition status_keys :: "string set" where
  "status_keys = {''status'', ''status_checked_at'', ''status_reason''}"

definition store_lawful :: "store_env \<Rightarrow> bool" where
  "store_lawful env \<longleftrightarrow> lawful (se_crypto env) \<and> json_text (parse_json env) (print_json env) \<and>
     (\<forall>j. from_utf8_lossy (print_json env j) = print_json env j)"

lemma cleartext_encrypt:
  assumes "lawful (se_crypto env)" and "length nonce = NONCE_LEN" and "s \<noteq> []" and "from_utf8_lossy s = s"
    and "encrypt_column env purpose nonce s = Inr blob"
  shows "cleartext env purpose blob = Some s"
proof (cases "encryption env")
  case (Some k)
  with assms(5) have "encrypt (se_crypto env) k purpose nonce s = Inr blob"
    by (cases "encrypt (se_crypto env) k purpose nonce s") (simp_all add: encrypt_column_def)
  from decrypt_encrypt [OF assms(1,2,4) this] Some show ?thesis by (simp add: cleartext_def decrypt_column_def)
qed (use assms in \<open>simp add: encrypt_column_def cleartext_def decrypt_column_def\<close>)

lemma map_of_obj_remove: "map_of (obj_remove k kvs) = (map_of kvs)(k := None)"
  by (induction kvs) (auto simp: obj_remove_def)

lemma wf_obj_remove: "wf_json (JObject kvs) \<Longrightarrow> wf_json (JObject (obj_remove k kvs))"
  by (induction kvs) (auto simp: obj_remove_def list_all_iff)

lemma status_metadata:
  assumes "store_lawful env" and "oauth_status_metadata env ts p status reason = Inr meta"
  obtains raw kvs kvs' where "oauth_meta_cleartext p = Some raw" and "parse_json env raw = Some (JObject kvs)"
    and "meta = print_json env (JObject kvs')" and "wf_json (JObject kvs')"
    and "\<forall>k. k \<notin> status_keys \<longrightarrow> map_of kvs' k = map_of kvs k"
    and "map_of kvs' ''status'' = Some (JString (credential_status_as_str status))"
proof -
  from assms(2) obtain raw where raw: "oauth_meta_cleartext p = Some raw" "trim raw \<noteq> []"
    by (auto simp: oauth_status_metadata_def split: option.splits if_splits)
  with assms(2) obtain kvs where kvs: "parse_json env raw = Some (JObject kvs)"
    by (auto simp: oauth_status_metadata_def split: option.splits json.splits)
  have wf: "wf_json (JObject kvs)" using assms(1) kvs unfolding store_lawful_def json_text_def by blast
  define kvs1 where "kvs1 = obj_insert ''status_checked_at'' (JString ts)
    (obj_insert ''status'' (JString (credential_status_as_str status)) kvs)"
  define kvs' where "kvs' = (case reason of
      Some r \<Rightarrow> (if r = [] then obj_remove ''status_reason'' kvs1 else obj_insert ''status_reason'' (JString r) kvs1)
    | None \<Rightarrow> obj_remove ''status_reason'' kvs1)"
  have "wf_json (JObject kvs1)" using wf unfolding kvs1_def by (intro wf_obj_insert) simp_all
  then have "wf_json (JObject kvs')"
    unfolding kvs'_def by (cases reason) (auto intro!: wf_obj_insert wf_obj_remove simp del: wf_json.simps(2))
  moreover have "map_of kvs' k = map_of kvs k" if "k \<notin> status_keys" for k
    using that by (cases reason) (simp_all add: kvs'_def kvs1_def status_keys_def map_of_obj_insert map_of_obj_remove)
  moreover have "map_of kvs' ''status'' = Some (JString (credential_status_as_str status))"
    by (cases reason) (simp_all add: kvs'_def kvs1_def map_of_obj_insert map_of_obj_remove)
  moreover have "meta = print_json env (JObject kvs')"
    using assms(2) raw kvs unfolding kvs'_def kvs1_def by (auto simp: oauth_status_metadata_def Let_def)
  ultimately show ?thesis by (intro that [OF raw(1) kvs]) simp_all
qed

lemma get_provider_meta:
  assumes "get_provider env i st = Some p" and "oauth_meta_cleartext p = Some raw"
  shows "cleartext env PURPOSE_OAUTH_REFRESH_TOKEN (encrypted_oauth_meta p) = Some raw"
proof -
  from assms(1) obtain q where q: "p = populate_provider_usage_management_key_cleartext env (populate_provider_oauth_cleartext env (row_to_provider q))"
    by (auto simp: get_provider_def)
  note defs = populate_provider_oauth_cleartext_def populate_provider_usage_management_key_cleartext_def row_to_provider_def
  show ?thesis
  proof (cases "auth_mode q = OAuthMode")
    case True
    with q assms(2) show ?thesis by (simp add: defs)
  next
    case False
    then have "oauth_meta_cleartext p = None" unfolding q by (simp add: defs)
    with assms(2) show ?thesis by simp
  qed
qed

text \<open>A successful compare-and-set has found what the caller had read, and changes the status fields only.\<close>

lemma cas_keeps_fields:
  assumes law: "store_lawful env" and n: "length nonce = NONCE_LEN" and wf: "wf_db (db st)"
    and read: "get_provider env i st0 = Some p" and meta: "oauth_status_metadata env ts p status reason = Inr meta"
    and cas: "set_provider_oauth_meta_if_unchanged env now nonce i (encrypted_oauth_meta p) meta st = (st', Inr True)"
  shows "(j \<noteq> i \<or> k \<notin> status_keys \<longrightarrow> meta_field env (db st') j k = meta_field env (db st) j k) \<and>
    meta_field env (db st') i ''status'' = Some (JString (credential_status_as_str status))"
proof -
  from status_metadata [OF law meta] obtain raw kvs kvs' where raw: "oauth_meta_cleartext p = Some raw"
    "parse_json env raw = Some (JObject kvs)" and new: "meta = print_json env (JObject kvs')" "wf_json (JObject kvs')"
    and same: "\<forall>k. k \<notin> status_keys \<longrightarrow> map_of kvs' k = map_of kvs k"
    and status: "map_of kvs' ''status'' = Some (JString (credential_status_as_str status))" by blast
  let ?here = "\<lambda>q. pr_id q = i \<and> encrypted_oauth_meta q = encrypted_oauth_meta p"
  from cas obtain blob where blob: "encrypt_column env PURPOSE_OAUTH_REFRESH_TOKEN nonce meta = Inr blob"
    and affected: "rows_affected ?here (providers_t (db st)) = 1"
    and rows': "providers_t (db st') = update_where ?here (write_oauth_meta blob now) (providers_t (db st))"
    by (auto simp: set_provider_oauth_meta_if_unchanged_def Let_def split: sum.splits)
  from affected obtain q where "q \<in> set (providers_t (db st))" "?here q" using rows_affected_0 [of ?here] by force
  then have q: "select_by pr_id i (providers_t (db st)) = Some q" "encrypted_oauth_meta q = encrypted_oauth_meta p" "pr_id q = i"
    using wf by (auto simp: wf_db_def select_by_distinct)
  have sel: "select_by pr_id j (providers_t (db st')) =
      map_option (\<lambda>r. if ?here r then write_oauth_meta blob now r else r) (select_by pr_id j (providers_t (db st)))" for j
    unfolding rows' by (rule select_update) (simp add: write_oauth_meta_def)
  have printed: "from_utf8_lossy meta = meta" "parse_json env meta = Some (JObject kvs')" "meta \<noteq> []"
    using law new unfolding store_lawful_def json_text_def by auto
  have "cleartext env PURPOSE_OAUTH_REFRESH_TOKEN blob = Some meta"
    by (rule cleartext_encrypt [OF _ n printed(3,1) blob]) (use law in \<open>simp add: store_lawful_def\<close>)
  then have after: "stored_meta env (db st') i = Some (JObject kvs')"
    using sel [of i] q printed by (simp add: stored_meta_def write_oauth_meta_def)
  have before: "stored_meta env (db st) i = Some (JObject kvs)"
    using q get_provider_meta [OF read raw(1)] raw(2) by (simp add: stored_meta_def)
  have other: "stored_meta env (db st') j = stored_meta env (db st) j" if "j \<noteq> i"
  proof -
    have "select_by pr_id j (providers_t (db st')) = select_by pr_id j (providers_t (db st))"
      using sel [of j] that by (cases "select_by pr_id j (providers_t (db st))") (auto dest: select_by_Some)
    then show ?thesis by (simp add: stored_meta_def)
  qed
  show ?thesis using after before other same status by (cases "j = i") (auto simp: meta_field_def)
qed

text \<open>
  What other writers stored is kept by a run with \<open>m\<close> attempts that ends with \<open>n\<close> left: all fields but those of the status,
  which is the noted one after success.
\<close>

definition note_kept :: "store_env \<Rightarrow> (nat \<Rightarrow> database \<Rightarrow> database) \<Rightarrow> string \<Rightarrow> OAuthCredentialStatus \<Rightarrow> StoreError + unit \<Rightarrow> nat \<Rightarrow> nat \<Rightarrow>
    DbConfigStore \<Rightarrow> DbConfigStore \<Rightarrow> bool" where
  "note_kept env others i status r n m st st' \<longleftrightarrow> n \<le> m \<and>
     (\<forall>j k. j \<noteq> i \<or> k \<notin> status_keys \<longrightarrow>
       meta_field env (db st') j k = meta_field env (fold others (rev [n..<m]) (db st)) j k) \<and>
     (r = Inr () \<longrightarrow> meta_field env (db st') i ''status'' = Some (JString (credential_status_as_str status)))"

lemma note_kept_unchanged: "r \<noteq> Inr () \<Longrightarrow> note_kept env others i status r m m st st"
  by (simp add: note_kept_def)

lemma note_kept_once:
  assumes "\<And>j k. j \<noteq> i \<or> k \<notin> status_keys \<longrightarrow> meta_field env (db st') j k = meta_field env (others m (db st)) j k"
    and "r = Inr () \<longrightarrow> meta_field env (db st') i ''status'' = Some (JString (credential_status_as_str status))"
  shows "note_kept env others i status r m (Suc m) st st'"
  using assms by (auto simp: note_kept_def)

lemma note_kept_later:
  "note_kept env others i status r n m (st\<lparr>db := others m (db st)\<rparr>) st' \<Longrightarrow> note_kept env others i status r n (Suc m) st st'"
  by (auto simp: note_kept_def)

lemma meta_field_refresh: "meta_field env (db (refresh env' st)) j k = meta_field env (db st) j k"
  by (simp add: meta_field_def stored_meta_def refresh_def bump_epoch_def Let_def)

lemma attempts_keep:
  assumes law: "store_lawful env" and nonce: "\<And>n. length (nonces n) = NONCE_LEN" and others: "\<And>n d. wf_db d \<Longrightarrow> wf_db (others n d)"
  shows "wf_db (db st) \<Longrightarrow> status_attempts env others now ts nonces i status reason m st = (st', r) \<Longrightarrow>
    \<exists>n. note_kept env others i status r n m st st'"
proof (induction m arbitrary: st)
  case 0
  then show ?case using note_kept_unchanged by fastforce
next
  case (Suc m)
  let ?st1 = "st\<lparr>db := others m (db st)\<rparr>"
  have wf1: "wf_db (db ?st1)" using Suc.prems(1) others by simp
  consider "st' = st" "r \<noteq> Inr ()"
    | p meta where "get_provider env i st = Some p" "oauth_status_metadata env ts p status reason = Inr meta"
    using Suc.prems(2) by (auto split: option.splits sum.splits)
  then show ?case
  proof cases
    case 1
    then show ?thesis using note_kept_unchanged by blast
  next
    case (2 p meta)
    obtain st2 r2 where cas: "set_provider_oauth_meta_if_unchanged env now (nonces m) i (encrypted_oauth_meta p) meta ?st1 = (st2, r2)"
      by fastforce
    consider e where "r2 = Inl e" | "r2 = Inr True" | "r2 = Inr False" by (cases r2) auto
    then show ?thesis
    proof cases
      case (1 e)
      with cas cas_failed have "st2 = ?st1" by blast
      with 1 2 cas Suc.prems have "st' = ?st1" "r \<noteq> Inr ()" by auto
      then show ?thesis by (intro exI [of _ m] note_kept_once) auto
    next
      case r2: 2
      with 2 cas Suc.prems have "st' = refresh env st2" by auto
      with cas_keeps_fields [OF law nonce wf1 2 cas [unfolded r2]] show ?thesis
        by (intro exI [of _ m] note_kept_once) (auto simp: meta_field_refresh)
    next
      case 3
      with cas cas_unchanged wf1 have "st2 = ?st1" by blast
      with 3 2 cas Suc.prems(2) have "status_attempts env others now ts nonces i status reason m ?st1 = (st', r)" by auto
      from Suc.IH [OF wf1 this] show ?thesis using note_kept_later by blast
    qed
  qed
qed


text \<open>A provider whose refresh token another writer rotates between the first read and the first write.\<close>

definition oauth_demo :: "string \<Rightarrow> Provider" where
  "oauth_demo token = demo_provider\<lparr>auth_mode := OAuthMode,
     encrypted_oauth_meta := number_display (JObject [(''refresh_token'', JString token)])\<rparr>"

definition oauth_demo_env :: store_env where
  "oauth_demo_env = demo_env\<lparr>parse_json := number_value, print_json := number_display\<rparr>"

definition rotate_token :: "database \<Rightarrow> database" where
  "rotate_token d = d\<lparr>providers_t := [oauth_demo ''new'']\<rparr>"

lemma number_utf8: "from_utf8_lossy (number_display j) = number_display j"
proof (rule ascii_lossy, rule ballI)
  fix c assume "c \<in> set (number_display j)"
  with digits_val_digits [OF digits_val_nat_str] have "hex_val c \<noteq> None" by (auto simp: number_display_def)
  then show "byte c < 128" by (auto simp: hex_val_def split: if_splits)
qed

lemma oauth_demo_field:
  "meta_field oauth_demo_env (demo_db\<lparr>providers_t := [oauth_demo token]\<rparr>) ''p1'' ''refresh_token'' = Some (JString token)"
proof -
  let ?j = "JObject [(''refresh_token'', JString token)]"
  have "wf_json ?j" by simp
  then have "number_value (number_display ?j) = Some ?j" "number_display ?j \<noteq> []"
    using numbers_json_text unfolding json_text_def by blast+
  then show ?thesis
    by (simp add: meta_field_def stored_meta_def select_by_def oauth_demo_def demo_provider_def cleartext_def decrypt_column_def
        oauth_demo_env_def demo_env_def)
qed


end
