(* ===== verification/Oauth_Manager.thy ===== *)
theory Oauth_Manager
  imports Oauth_Tokens Config_Credentials
begin

section \<open>The OAuth token manager\<close>

text \<open>
  The model of \<^verbatim>\<open>crates/server/src/oauth_manager.rs\<close> and \<^verbatim>\<open>oauth_refresh_worker.rs\<close>, over the configuration store (\<^verbatim>\<open>Config_Store\<close>) and the
  token cache (\<^verbatim>\<open>Oauth_Tokens\<close>).

  The state is the store, the cache, the token that the current request has used, and \<open>ms_requests\<close>, the refresh requests that the token
  endpoints have received: the provider, the refresh token that was sent and what came back.  An operation is a function of the state
  that returns the new state with its result; a panic is an error that nothing catches.  The environment of one call, \<open>call_env\<close>, gives what the
  code does not decide: the readings of the two clocks in the order of their places in the code, the answer of the endpoint (none if the
  time runs out), whether a try for the advisory lock of PostgreSQL succeeds and how many tries fit before the deadline, the nonces, and what
  other tasks and instances do to the state at the places where the call waits: for the database (0), for the lock of the provider (1), for the
  endpoint (2), for the advisory lock of an installation (3), between two tries for the advisory lock of a refresh (10 and up).
\<close>

subsection \<open>State and environment\<close>

datatype DbKind = Sqlite | Postgres

datatype OAuthRefreshMode = IfNeeded | Force | Keepalive

datatype OAuthRefreshOutcome = Refreshed | ReusedShared | Skipped

datatype mgr_error = Message string | Panicked panic

record mgr_state =
  ms_store :: DbConfigStore
  ms_cache :: token_cache
  ms_applied :: "string option"
  ms_requests :: "(string \<times> string \<times> (string + TokenResult)) list"

record mgr_env =
  me_store :: store_env
  me_http :: http_env
  me_text :: oauth_text
  me_kind :: DbKind
  persistent :: bool
  store_text :: "StoreError \<Rightarrow> string"
  utc_max :: nat

record call_env =
  utc :: "nat \<Rightarrow> nat"
  mono :: "nat \<Rightarrow> instant"
  endpoint :: "token_request \<Rightarrow> endpoint_answer option"
  legacy_endpoint :: "token_request \<Rightarrow> endpoint_answer"
  others :: "nat \<Rightarrow> mgr_state \<Rightarrow> mgr_state"
  nonces :: "nat \<Rightarrow> string"
  stamp :: string
  lock_free :: "nat \<Rightarrow> bool"
  polls :: nat

type_synonym 'a mgr = "mgr_state \<Rightarrow> mgr_state \<times> (mgr_error + 'a)"

definition mret :: "'a \<Rightarrow> 'a mgr" where
  "mret x st = (st, Inr x)"

definition mfail :: "string \<Rightarrow> 'a mgr" where
  "mfail e st = (st, Inl (Message e))"

definition mbind :: "'a mgr \<Rightarrow> ('a \<Rightarrow> 'b mgr) \<Rightarrow> 'b mgr" where
  "mbind m f st = (case m st of (st', Inr x) \<Rightarrow> f x st' | (st', Inl e) \<Rightarrow> (st', Inl e))"

definition mread :: "(mgr_state \<Rightarrow> 'a) \<Rightarrow> 'a mgr" where
  "mread f st = (st, Inr (f st))"

definition mmodify :: "(mgr_state \<Rightarrow> mgr_state) \<Rightarrow> unit mgr" where
  "mmodify f st = (f st, Inr ())"

definition mrust :: "'a rust \<Rightarrow> 'a mgr" where
  "mrust r st = (st, map_sum Panicked (\<lambda>x. x) r)"

definition mstore :: "mgr_env \<Rightarrow> (StoreError + 'a) \<Rightarrow> 'a mgr" where
  "mstore M r st = (st, map_sum (Message \<circ> store_text M) (\<lambda>x. x) r)"

definition mtext :: "(string + 'a) \<Rightarrow> 'a mgr" where
  "mtext r st = (st, map_sum Message (\<lambda>x. x) r)"

definition with_db :: "(database \<Rightarrow> database) \<Rightarrow> mgr_state \<Rightarrow> mgr_state" where
  "with_db f st = st\<lparr>ms_store := (ms_store st)\<lparr>db := f (db (ms_store st))\<rparr>\<rparr>"

subsection \<open>Constants and tests\<close>

definition ACCESS_TOKEN_LEEWAY :: duration where
  "ACCESS_TOKEN_LEEWAY = from_secs 60"

definition DEFAULT_KEEPALIVE_SECS :: nat where
  "DEFAULT_KEEPALIVE_SECS = 7 * 24 * 60 * 60"

definition TOKEN_REQUEST_TIMEOUT_SECS :: nat where
  "TOKEN_REQUEST_TIMEOUT_SECS = 30"

record OAuthAccessTokenState =
  ts_access_token :: string
  ts_expires_at :: "nat option"
  ts_next_keepalive_at :: "nat option"
  ts_next_retry_at :: "nat option"
  ts_failure_count :: int

definition load_token_state :: "store_env \<Rightarrow> string \<Rightarrow> database \<Rightarrow> StoreError + OAuthAccessTokenState option" where
  "load_token_state env i d = (case select_by tk_provider_id i (tokens_t d) of
     None \<Rightarrow> Inr None
   | Some r \<Rightarrow> bind_rust (if encrypted_access_token r = [] then Inr []
         else decrypt_column env PURPOSE_OAUTH_ACCESS_TOKEN (encrypted_access_token r)) (\<lambda>a.
       Inr (Some \<lparr>ts_access_token = a, ts_expires_at = access_expires_at r, ts_next_keepalive_at = next_keepalive_at r,
         ts_next_retry_at = next_retry_at r, ts_failure_count = failure_count r\<rparr>)))"

definition shared_token_is_usable :: "nat \<Rightarrow> OAuthAccessTokenState \<Rightarrow> string option \<Rightarrow> bool" where
  "shared_token_is_usable now s rejected \<longleftrightarrow> ts_access_token s \<noteq> [] \<and> rejected \<noteq> Some (ts_access_token s) \<and>
     (case ts_expires_at s of None \<Rightarrow> True | Some e \<Rightarrow> e > now + ACCESS_TOKEN_LEEWAY)"

definition refresh_backoff_is_active :: "nat \<Rightarrow> OAuthAccessTokenState \<Rightarrow> bool" where
  "refresh_backoff_is_active now s \<longleftrightarrow> (case ts_next_retry_at s of Some t \<Rightarrow> t > now | None \<Rightarrow> False)"

definition refresh_backoff_error :: string where
  "refresh_backoff_error = ''OAuth credential refresh is temporarily backed off; reconnect the credential or use the manual refresh action''"

definition provider_has_usable_oauth_credentials :: "mgr_env \<Rightarrow> Provider \<Rightarrow> bool" where
  "provider_has_usable_oauth_credentials M p \<longleftrightarrow> (case build_oauth_target_config (parse_json (me_store M)) p of
     Some c \<Rightarrow> trim (refresh_token c) \<noteq> [] | None \<Rightarrow> False)"

text \<open>
  Times that are not representable: an addition panics, and a standard duration above the range of the time package is refused.
\<close>

definition utc_add :: "mgr_env \<Rightarrow> nat \<Rightarrow> duration \<Rightarrow> nat rust" where
  "utc_add M t d = (if t + d \<le> utc_max M then Inr (t + d) else Inl Overflow_Adding_Duration)"

definition chrono_from_std :: "duration \<Rightarrow> duration option" where
  "chrono_from_std d = (if d \<le> (2 ^ 63 - 1) * nanos_per_milli then Some d else None)"

text \<open>
  The backoff doubles from five minutes.  The shift is that of the release profile, which takes the count modulo 64; for a negative count it can
  leave the range of the time package.
\<close>

definition backoff_minutes :: "int \<Rightarrow> nat rust" where
  "backoff_minutes failures =
     (let n = nat (min failures 6 mod 64)
      in if n = 63 then Inl Overflow_Scaling_Duration else Inr (min (5 * 2 ^ n) 360))"

definition retry_time :: "mgr_env \<Rightarrow> nat \<Rightarrow> OAuthRefreshFailureKind \<Rightarrow> int \<Rightarrow> nat rust" where
  "retry_time M now k failures = (case k of
     CredentialInvalid \<Rightarrow> utc_add M now (from_secs (3650 * 24 * 60 * 60))
   | TransientFailure \<Rightarrow> bind_rust (backoff_minutes failures) (\<lambda>m. utc_add M now (from_secs (m * 60))))"

definition OAUTH_KEEPALIVE_INTERVAL_SECS :: string where
  "OAUTH_KEEPALIVE_INTERVAL_SECS = ''gateway.oauth.keepalive.interval_secs''"

definition OAUTH_KEEPALIVE_ENABLED :: string where
  "OAUTH_KEEPALIVE_ENABLED = ''gateway.oauth.keepalive.enabled''"

definition OAUTH_KEEPALIVE_CONCURRENCY :: string where
  "OAUTH_KEEPALIVE_CONCURRENCY = ''gateway.oauth.keepalive.concurrency''"

definition setting_u64 :: "string \<Rightarrow> nat \<Rightarrow> DbConfigStore \<Rightarrow> nat" where
  "setting_u64 k dflt st = (case get_setting k st of Some v \<Rightarrow> unwrap_or (parse_u64 v) dflt | None \<Rightarrow> dflt)"

definition setting_bool :: "string \<Rightarrow> bool \<Rightarrow> DbConfigStore \<Rightarrow> bool" where
  "setting_bool k dflt st = (case get_setting k st of Some v \<Rightarrow> eq_ignore_ascii_case v ''true'' | None \<Rightarrow> dflt)"

definition keepalive_interval :: "DbConfigStore \<Rightarrow> duration" where
  "keepalive_interval st = from_secs (max (setting_u64 OAUTH_KEEPALIVE_INTERVAL_SECS DEFAULT_KEEPALIVE_SECS st) 60)"

subsection \<open>Reading the credential\<close>

definition load_oauth_provider :: "mgr_env \<Rightarrow> string \<Rightarrow> (Provider \<times> OAuthTargetConfig) mgr" where
  "load_oauth_provider M i = mbind (mread (\<lambda>st. get_provider (me_store M) i (ms_store st))) (\<lambda>p. case p of
     None \<Rightarrow> mfail (''provider '' @ i @ '' not found'')
   | Some p \<Rightarrow> (case build_oauth_target_config (parse_json (me_store M)) p of
       None \<Rightarrow> mfail (''provider '' @ i @ '' has no usable OAuth configuration'')
     | Some c \<Rightarrow> mret (p, c)))"

definition load_oauth_config :: "mgr_env \<Rightarrow> string \<Rightarrow> OAuthTargetConfig mgr" where
  "load_oauth_config M i = mbind (load_oauth_provider M i) (\<lambda>(p, c). mret c)"

definition load_state :: "mgr_env \<Rightarrow> string \<Rightarrow> OAuthAccessTokenState option mgr" where
  "load_state M i = mbind (mread (\<lambda>st. load_token_state (me_store M) i (db (ms_store st)))) (mstore M)"

definition seed_cache :: "instant \<Rightarrow> string \<Rightarrow> string \<Rightarrow> string \<Rightarrow> string \<Rightarrow> duration option \<Rightarrow> string option \<Rightarrow> string option \<Rightarrow> unit mgr" where
  "seed_cache now i label access_tok refresh_tok expires_in account email =
     mbind (mread ms_cache) (\<lambda>cache.
     mbind (mrust (seed_tokens_with_identity now i label access_tok refresh_tok expires_in account email cache)) (\<lambda>cache.
     mmodify (\<lambda>st. st\<lparr>ms_cache := cache\<rparr>)))"

definition seed_shared :: "nat \<Rightarrow> instant \<Rightarrow> string \<Rightarrow> OAuthTargetConfig \<Rightarrow> OAuthAccessTokenState \<Rightarrow> unit mgr" where
  "seed_shared now inst i c s =
     seed_cache inst i (cache_label c) (ts_access_token s) (refresh_token c)
       (case ts_expires_at s of Some e \<Rightarrow> (if now \<le> e then Some (e - now) else None) | None \<Rightarrow> None) (account_id c) None"

definition reuse_shared_token :: "mgr_env \<Rightarrow> nat \<Rightarrow> nat \<Rightarrow> instant \<Rightarrow> string \<Rightarrow> OAuthTargetConfig \<Rightarrow> string option \<Rightarrow> bool mgr" where
  "reuse_shared_token M now later inst i c rejected = mbind (load_state M i) (\<lambda>s. case s of
     None \<Rightarrow> mret False
   | Some s \<Rightarrow> (if \<not> shared_token_is_usable now s rejected then mret False
       else mbind (seed_shared later inst i c s) (\<lambda>_. mret True)))"

subsection \<open>Refreshing\<close>

definition timed_refresh :: "mgr_env \<Rightarrow> call_env \<Rightarrow> OAuthTargetConfig \<Rightarrow> string + TokenResult" where
  "timed_refresh M C c =
     (case endpoint C (refresh_request (token_url c) (client_id c) (refresh_token c) (scopes c) (token_request_style c)) of
        None \<Rightarrow> Inl (''OAuth token refresh timed out after '' @ nat_str TOKEN_REQUEST_TIMEOUT_SECS @ '' seconds'')
      | Some a \<Rightarrow> do_refresh_token (me_text M) (\<lambda>_. a) (token_url c) (client_id c) (refresh_token c) (scopes c) (token_request_style c))"

definition send_refresh :: "mgr_env \<Rightarrow> call_env \<Rightarrow> string \<Rightarrow> OAuthTargetConfig \<Rightarrow> (string + TokenResult) mgr" where
  "send_refresh M C i c st =
     (let res = timed_refresh M C c
      in (others C 2 (st\<lparr>ms_requests := ms_requests st @ [(i, refresh_token c, res)]\<rparr>), Inr res))"

text \<open>Storing the time of the next try and the status are best effort: their errors are logged.\<close>

definition note_backoff :: "mgr_env \<Rightarrow> call_env \<Rightarrow> string \<Rightarrow> OAuthRefreshFailureKind \<Rightarrow> unit mgr" where
  "note_backoff M C i k = mbind (mread (\<lambda>st. load_token_state (me_store M) i (db (ms_store st)))) (\<lambda>r. case r of
     Inl _ \<Rightarrow> mret ()
   | Inr s \<Rightarrow> mbind (mrust (retry_time M (utc C 9) k (case s of Some s \<Rightarrow> ts_failure_count s | None \<Rightarrow> 0))) (\<lambda>t.
       mmodify (with_db (record_refresh_failure (utc C 10) i t))))"

definition note_status :: "mgr_env \<Rightarrow> call_env \<Rightarrow> Provider \<Rightarrow> OAuthRefreshFailureKind \<Rightarrow> unit mgr" where
  "note_status M C p k = mmodify (\<lambda>st. st\<lparr>ms_store := fst (set_provider_oauth_status_if_unchanged (me_store M) (utc C 11) (stamp C) (nonces C 2) p
     (case k of CredentialInvalid \<Rightarrow> Invalid_credential | TransientFailure \<Rightarrow> Error_credential) (Some (status_reason k)) (ms_store st))\<rparr>)"

definition note_refresh_failure :: "mgr_env \<Rightarrow> call_env \<Rightarrow> Provider \<Rightarrow> OAuthRefreshFailureKind \<Rightarrow> unit mgr" where
  "note_refresh_failure M C p k = mbind (note_backoff M C (pr_id p) k) (\<lambda>_. note_status M C p k)"

definition insert_opt :: "string \<Rightarrow> string option \<Rightarrow> json_object \<Rightarrow> json_object" where
  "insert_opt k v kvs = (case v of Some s \<Rightarrow> obj_insert k (JString s) kvs | None \<Rightarrow> kvs)"

definition new_oauth_meta :: "string \<Rightarrow> OAuthTargetConfig \<Rightarrow> TokenResult \<Rightarrow> json_object \<Rightarrow> json_object" where
  "new_oauth_meta checked_at c r kvs =
     obj_remove ''status_reason''
       (obj_insert ''status_checked_at'' (JString checked_at)
       (obj_insert ''status'' (JString (credential_status_as_str Healthy_credential))
       (obj_insert ''expires_in_s'' (case tr_expires_in r of Some d \<Rightarrow> JNumber (PosInt (as_secs d)) | None \<Rightarrow> JNull)
       (insert_opt ''organization_name'' (tr_organization_name r)
       (insert_opt ''organization_id'' (tr_organization_id r)
       (insert_opt ''account_email'' (tr_account_email r)
       (insert_opt ''account_id'' (or_else (tr_account_id r) (account_id c))
       (obj_insert ''refresh_token'' (JString (unwrap_or (tr_refresh_token r) (refresh_token c))) kvs))))))))"

definition stored_meta_object :: "mgr_env \<Rightarrow> Provider \<Rightarrow> json_object mgr" where
  "stored_meta_object M p =
     (case unwrap_or (Option.bind (oauth_meta_cleartext p) (parse_json (me_store M))) (JObject []) of
        JObject kvs \<Rightarrow> mret kvs
      | _ \<Rightarrow> mfail ''stored OAuth metadata is not an object'')"

definition expires_at_of :: "mgr_env \<Rightarrow> nat \<Rightarrow> duration option \<Rightarrow> nat option rust" where
  "expires_at_of M now expires_in = (case Option.bind expires_in chrono_from_std of
     None \<Rightarrow> Inr None
   | Some d \<Rightarrow> map_sum (\<lambda>p. p) Some (utc_add M now d))"

definition commit_token :: "mgr_env \<Rightarrow> call_env \<Rightarrow> OAuthTokenCommit \<Rightarrow> unit mgr" where
  "commit_token M C cm st =
     (let (d, r) = commit_success (me_store M) (utc C 8) (nonces C) cm (db (ms_store st))
      in (with_db (\<lambda>_. d) st, map_sum (Message \<circ> store_text M) (\<lambda>_. ()) r))"

definition persist_token_result :: "mgr_env \<Rightarrow> call_env \<Rightarrow> string \<Rightarrow> Provider \<Rightarrow> OAuthTargetConfig \<Rightarrow> TokenResult \<Rightarrow> duration \<Rightarrow>
    (OAuthTargetConfig \<times> OAuthRefreshOutcome) mgr" where
  "persist_token_result M C i p c r interval =
     mbind (stored_meta_object M p) (\<lambda>kvs.
     mbind (mrust (expires_at_of M (utc C 6) (tr_expires_in r))) (\<lambda>expires.
     mbind (mrust (utc_add M (utc C 7) (unwrap_or (chrono_from_std interval) (from_secs DEFAULT_KEEPALIVE_SECS)))) (\<lambda>keepalive.
     mbind (commit_token M C \<lparr>oc_provider_id = i, oc_access_token = tr_access_token r, oc_expires_at = expires,
        oc_meta = print_json (me_store M) (JObject (new_oauth_meta (stamp C) c r kvs)), oc_keepalive_at = keepalive\<rparr>) (\<lambda>_.
     mbind (mmodify (\<lambda>st. st\<lparr>ms_store := refresh (me_store M) (ms_store st)\<rparr>)) (\<lambda>_.
     mbind (load_oauth_config M i) (\<lambda>new_config.
     mbind (seed_cache (mono C 3) i (cache_label new_config) (tr_access_token r) (unwrap_or (tr_refresh_token r) (refresh_token c))
        (tr_expires_in r) (or_else (tr_account_id r) (account_id c)) (tr_account_email r)) (\<lambda>_.
     mret (new_config, Refreshed))))))))"

definition perform_refresh :: "mgr_env \<Rightarrow> call_env \<Rightarrow> string \<Rightarrow> Provider \<Rightarrow> OAuthTargetConfig \<Rightarrow> duration \<Rightarrow>
    (OAuthTargetConfig \<times> OAuthRefreshOutcome) mgr" where
  "perform_refresh M C i p c interval =
     (if refresh_token c = [] then mfail (''provider '' @ i @ '' has no refresh token'')
      else mbind (send_refresh M C i c) (\<lambda>res. case res of
        Inl e \<Rightarrow> (let k = classify_refresh_failure e in
          mbind (note_refresh_failure M C p k) (\<lambda>_. mfail (''OAuth credential refresh failed: '' @ status_reason k)))
      | Inr r \<Rightarrow> persist_token_result M C i p c r interval))"

text \<open>What every mode checks under the lock before it refreshes.\<close>

definition refresh_when_due :: "mgr_env \<Rightarrow> call_env \<Rightarrow> string \<Rightarrow> OAuthRefreshMode \<Rightarrow> Provider \<Rightarrow> OAuthTargetConfig \<Rightarrow> duration \<Rightarrow>
    OAuthAccessTokenState option \<Rightarrow> (OAuthTargetConfig \<times> OAuthRefreshOutcome) mgr" where
  "refresh_when_due M C i mode p c interval s =
     (if mode \<noteq> Force \<and> (case s of Some s \<Rightarrow> refresh_backoff_is_active (utc C 4) s | None \<Rightarrow> False)
      then (if mode = Keepalive then mret (c, Skipped) else mfail refresh_backoff_error)
      else if mode = Keepalive \<and> (case Option.bind s ts_next_keepalive_at of Some next \<Rightarrow> next > utc C 5 | None \<Rightarrow> False)
      then mret (c, Skipped)
      else perform_refresh M C i p c interval)"

text \<open>The part of a PostgreSQL refresh that holds the advisory lock reads the row again.\<close>

definition refresh_locked :: "mgr_env \<Rightarrow> call_env \<Rightarrow> string \<Rightarrow> OAuthRefreshMode \<Rightarrow> string option \<Rightarrow> duration \<Rightarrow>
    (OAuthTargetConfig \<times> OAuthRefreshOutcome) mgr" where
  "refresh_locked M C i mode rejected interval =
     mbind (load_oauth_provider M i) (\<lambda>(p, c).
     mbind (load_state M i) (\<lambda>s.
     (if mode = IfNeeded \<and> (case s of Some s \<Rightarrow> shared_token_is_usable (utc C 13) s rejected | None \<Rightarrow> False)
      then mbind (seed_shared (utc C 14) (mono C 5) i c (the s)) (\<lambda>_. mret (c, ReusedShared))
      else refresh_when_due M C i mode p c interval s)))"

fun postgres_attempts :: "mgr_env \<Rightarrow> call_env \<Rightarrow> string \<Rightarrow> OAuthRefreshMode \<Rightarrow> string option \<Rightarrow> bool \<Rightarrow> OAuthTargetConfig \<Rightarrow> duration \<Rightarrow> nat \<Rightarrow> nat \<Rightarrow>
    (OAuthTargetConfig \<times> OAuthRefreshOutcome) mgr" where
  "postgres_attempts M C i mode rejected wait c interval k left =
     (if lock_free C k then refresh_locked M C i mode rejected interval
      else if \<not> wait then mret (c, Skipped)
      else mbind (reuse_shared_token M (utc C (20 + 2 * k)) (utc C (21 + 2 * k)) (mono C (20 + k)) i c rejected) (\<lambda>reused.
        if reused then mret (c, ReusedShared)
        else case left of
          0 \<Rightarrow> mfail (''timed out waiting for OAuth refresh coordination for provider '' @ i)
        | Suc rest \<Rightarrow> mbind (mmodify (others C (10 + k))) (\<lambda>_.
            postgres_attempts M C i mode rejected wait c interval (Suc k) rest)))"

declare postgres_attempts.simps [simp del]

definition refresh_coordinated :: "mgr_env \<Rightarrow> call_env \<Rightarrow> string \<Rightarrow> OAuthRefreshMode \<Rightarrow> string option \<Rightarrow> bool \<Rightarrow>
    (OAuthTargetConfig \<times> OAuthRefreshOutcome) mgr" where
  "refresh_coordinated M C i mode rejected wait =
     mbind (mmodify (others C 1)) (\<lambda>_.
     mbind (load_oauth_provider M i) (\<lambda>(p, c).
     mbind (if mode = IfNeeded then reuse_shared_token M (utc C 2) (utc C 3) (mono C 2) i c rejected else mret False) (\<lambda>reused.
     if reused then mret (c, ReusedShared)
     else mbind (mread (\<lambda>st. keepalive_interval (ms_store st))) (\<lambda>interval.
       case me_kind M of
         Sqlite \<Rightarrow> mbind (load_state M i) (refresh_when_due M C i mode p c interval)
       | Postgres \<Rightarrow> postgres_attempts M C i mode rejected wait c interval 0 (polls C)))))"

definition ensure_provider_token :: "mgr_env \<Rightarrow> call_env \<Rightarrow> string \<Rightarrow> OAuthRefreshMode \<Rightarrow> string option \<Rightarrow> OAuthTargetConfig mgr" where
  "ensure_provider_token M C i mode rejected =
     mbind (mmodify (others C 0)) (\<lambda>_.
     mbind (load_oauth_config M i) (\<lambda>c.
     mbind (if mode = IfNeeded then reuse_shared_token M (utc C 0) (utc C 1) (mono C 1) i c rejected else mret False) (\<lambda>reused.
     if reused then mret c
     else mbind (refresh_coordinated M C i mode rejected True) (\<lambda>(c, _). mret c))))"

subsection \<open>The operations of the data plane\<close>

definition cached_apply :: "mgr_env \<Rightarrow> instant \<Rightarrow> string \<Rightarrow> OAuthTargetConfig \<Rightarrow> HeaderMap \<Rightarrow> (bool \<times> HeaderMap) mgr" where
  "cached_apply M inst i c h = mbind (mread ms_cache) (\<lambda>cache. mtext (apply_cached (me_http M) inst h i (cache_label c) c cache))"

definition remember_applied_access_token :: "mgr_env \<Rightarrow> HeaderMap \<Rightarrow> OAuthTargetConfig \<Rightarrow> unit mgr" where
  "remember_applied_access_token M h c =
     (case Option.bind (name_ok (me_http M) (header_name c)) (\<lambda>n. get_readable (me_http M) n h) of
        None \<Rightarrow> mret ()
      | Some v \<Rightarrow> (case strip_prefix (bearer_prefix c) v of
          Some tok \<Rightarrow> mmodify (\<lambda>st. st\<lparr>ms_applied := Some tok\<rparr>) | None \<Rightarrow> mret ()))"

definition legacy_refresh :: "mgr_env \<Rightarrow> call_env \<Rightarrow> OAuthTargetConfig \<Rightarrow> string \<Rightarrow> string + TokenResult" where
  "legacy_refresh M C c rt =
     do_refresh_token (me_text M) (legacy_endpoint C) (token_url c) (client_id c) rt (scopes c) (token_request_style c)"

definition legacy_apply :: "mgr_env \<Rightarrow> call_env \<Rightarrow> string \<Rightarrow> OAuthTargetConfig \<Rightarrow> HeaderMap \<Rightarrow> HeaderMap mgr" where
  "legacy_apply M C i c h st =
     (let label = cache_label c;
          (cache, r, sent) = cache_apply (me_http M) (legacy_refresh M C c)
            (\<lambda>k cache. ms_cache (others C k (st\<lparr>ms_cache := cache\<rparr>))) (\<lambda>k. mono C (6 + k)) h i label c
            (cache_seed i label (refresh_token c) (ms_cache st))
      in (st\<lparr>ms_cache := cache, ms_requests := ms_requests st @ (case sent of
              Some rt \<Rightarrow> [(i, rt, legacy_refresh M C c rt)] | None \<Rightarrow> [])\<rparr>,
          map_sum (\<lambda>e. case e of Cache_Message m \<Rightarrow> Message m | Cache_Panic p \<Rightarrow> Panicked p) (\<lambda>h. h) r))"

definition mgr_apply :: "mgr_env \<Rightarrow> call_env \<Rightarrow> RoutingTarget \<Rightarrow> HeaderMap \<Rightarrow> (bool \<times> HeaderMap) mgr" where
  "mgr_apply M C target h = (case oauth target of
     None \<Rightarrow> mret (False, h)
   | Some c \<Rightarrow>
       mbind (cached_apply M (mono C 0) (provider_id target) c h) (\<lambda>(hit, h1).
       if hit then mbind (remember_applied_access_token M h1 c) (\<lambda>_. mret (True, h1))
       else if \<not> persistent M
       then mbind (legacy_apply M C (provider_id target) c h) (\<lambda>h2. mbind (remember_applied_access_token M h2 c) (\<lambda>_. mret (True, h2)))
       else mbind (ensure_provider_token M C (provider_id target) IfNeeded None) (\<lambda>config.
         mbind (cached_apply M (mono C 4) (provider_id target) config h) (\<lambda>(hit, h2).
         if \<not> hit then mfail ''OAuth refresh completed without a usable access token''
         else mbind (remember_applied_access_token M h2 config) (\<lambda>_. mret (True, h2))))))"

definition retry_rejected :: "mgr_env \<Rightarrow> call_env \<Rightarrow> RoutingTarget \<Rightarrow> OAuthTargetConfig \<Rightarrow> string \<Rightarrow> bool mgr" where
  "retry_rejected M C target c rejected =
     mbind (mmodify (\<lambda>st. st\<lparr>ms_cache := invalidate_access_token_if_matches (provider_id target) (cache_label c) rejected (ms_cache st)\<rparr>)) (\<lambda>_.
     if \<not> persistent M then mbind (mgr_apply M C target no_headers) (\<lambda>(done, _). mret done)
     else mbind (ensure_provider_token M C (provider_id target) IfNeeded (Some rejected)) (\<lambda>_. mret True))"

definition refresh_after_unauthorized :: "mgr_env \<Rightarrow> call_env \<Rightarrow> RoutingTarget \<Rightarrow> string \<Rightarrow> bool mgr" where
  "refresh_after_unauthorized M C target rejected = (case oauth target of
     None \<Rightarrow> mret False
   | Some c \<Rightarrow> mbind (mread (\<lambda>st. get_access_token (provider_id target) (cache_label c) (ms_cache st))) (\<lambda>current.
       if current \<noteq> None \<and> current \<noteq> Some rejected then mret True else retry_rejected M C target c rejected))"

subsection \<open>The operations of the control plane\<close>

definition no_store :: string where
  "no_store = ''OAuth token store is unavailable''"

definition refresh_summary :: "mgr_env \<Rightarrow> call_env \<Rightarrow> string \<Rightarrow> duration option mgr" where
  "refresh_summary M C i = (if \<not> persistent M then mfail no_store
     else mbind (load_state M i) (\<lambda>s. mret (case Option.bind s ts_expires_at of
       Some e \<Rightarrow> (if utc C 12 \<le> e then Some (e - utc C 12) else None) | None \<Rightarrow> None)))"

definition force_refresh :: "mgr_env \<Rightarrow> call_env \<Rightarrow> string \<Rightarrow> duration option mgr" where
  "force_refresh M C i = (if \<not> persistent M then mfail ''OAuth config store is unavailable''
     else mbind (ensure_provider_token M C i Force None) (\<lambda>_. refresh_summary M C i))"

text \<open>The advisory lock of an installation or an edit: the number of failed tries is known in advance.\<close>

definition gets_lock :: "call_env \<Rightarrow> bool" where
  "gets_lock C \<longleftrightarrow> list_ex (lock_free C) [0..<Suc (polls C)]"

definition install_tokens :: "mgr_env \<Rightarrow> call_env \<Rightarrow> string \<Rightarrow> TokenResult \<Rightarrow> duration option mgr" where
  "install_tokens M C i r = (if \<not> persistent M then mfail no_store
     else mbind (mmodify (others C 1)) (\<lambda>_.
       mbind (load_oauth_provider M i) (\<lambda>(p, c).
       mbind (mread (\<lambda>st. keepalive_interval (ms_store st))) (\<lambda>interval.
       mbind (mmodify (if me_kind M = Postgres then others C 3 else (\<lambda>st. st))) (\<lambda>_.
       if me_kind M = Postgres \<and> \<not> gets_lock C
       then mfail (''timed out coordinating OAuth token installation for provider '' @ i)
       else mbind (persist_token_result M C i p c r interval) (\<lambda>_. mret (tr_expires_in r)))))))"

definition apply_provider_by_id :: "mgr_env \<Rightarrow> call_env \<Rightarrow> string \<Rightarrow> HeaderMap \<Rightarrow> HeaderMap mgr" where
  "apply_provider_by_id M C i h = (if \<not> persistent M then mfail ''OAuth config store is unavailable''
     else mbind (ensure_provider_token M C i IfNeeded None) (\<lambda>c.
       mbind (cached_apply M (mono C 4) i c h) (\<lambda>(hit, h).
       if \<not> hit then mfail ''OAuth access token is unavailable after refresh''
       else mbind (remember_applied_access_token M h c) (\<lambda>_. mret h))))"

text \<open>
  \<open>mutation\<close> is the edit that the admin handler makes to the provider.  Its own error is returned after the tokens of the old credential are gone.
\<close>

definition mutate_credentials_locked :: "mgr_env \<Rightarrow> call_env \<Rightarrow> string \<Rightarrow> (DbConfigStore \<Rightarrow> DbConfigStore \<times> (string + unit)) \<Rightarrow> unit mgr" where
  "mutate_credentials_locked M C i mutation = (if \<not> persistent M then mfail no_store
     else mbind (mmodify (others C 1)) (\<lambda>_.
       if me_kind M = Postgres \<and> \<not> gets_lock C
       then mfail (''timed out coordinating OAuth credential update for provider '' @ i)
       else (let edit = (\<lambda>st. case mutation (ms_store st) of (store', r) \<Rightarrow> (st\<lparr>ms_store := store'\<rparr>, Inr r));
                 reset = mmodify (with_db (\<lambda>d. fst (reset_tokens (me_store M) (utc C 8) [] i None d)))
             in mbind (case me_kind M of
                  Sqlite \<Rightarrow> mbind edit (\<lambda>r. mbind reset (\<lambda>_. mret r))
                | Postgres \<Rightarrow> mbind reset (\<lambda>_. edit)) (\<lambda>r.
              mbind (mmodify (\<lambda>st. st\<lparr>ms_cache := invalidate_provider i (ms_cache st),
                ms_store := refresh (me_store M) (ms_store st)\<rparr>)) (\<lambda>_. mtext r)))))"

subsection \<open>Keepalive\<close>

definition preflight_backoff :: "mgr_env \<Rightarrow> call_env \<Rightarrow> string \<Rightarrow> unit mgr" where
  "preflight_backoff M C i =
     mbind (mmodify (others C 1)) (\<lambda>_.
     if me_kind M = Postgres \<and> \<not> lock_free C 1 then mret ()
     else mbind (mread (\<lambda>st. get_provider (me_store M) i (ms_store st))) (\<lambda>p. case p of
       None \<Rightarrow> mret ()
     | Some p \<Rightarrow> (if provider_has_usable_oauth_credentials M p then mret ()
         else mbind (load_state M i) (\<lambda>s.
           if (case s of Some s \<Rightarrow> refresh_backoff_is_active (utc C 15) s | None \<Rightarrow> False) then mret ()
           else mbind (mrust (retry_time M (utc C 16) TransientFailure (case s of Some s \<Rightarrow> ts_failure_count s | None \<Rightarrow> 0))) (\<lambda>t.
             mmodify (with_db (record_refresh_failure (utc C 17) i t)))))))"

definition try_keepalive_provider :: "mgr_env \<Rightarrow> call_env \<Rightarrow> string \<Rightarrow> OAuthRefreshOutcome mgr" where
  "try_keepalive_provider M C i st =
     (if \<not> persistent M then (st, Inr Skipped)
      else case refresh_coordinated M C i Keepalive None False st of
        (st', Inr (_, outcome)) \<Rightarrow> (st', Inr outcome)
      | (st', Inl (Panicked p)) \<Rightarrow> (st', Inl (Panicked p))
      | (st', Inl (Message e)) \<Rightarrow> (case preflight_backoff M C i st' of
          (st'', Inl (Panicked p)) \<Rightarrow> (st'', Inl (Panicked p))
        | (st'', _) \<Rightarrow> (st'', Inl (Message e))))"

definition keepalive_due :: "nat \<Rightarrow> database \<Rightarrow> Provider \<Rightarrow> bool" where
  "keepalive_due now d p \<longleftrightarrow> pr_enabled p \<and> auth_mode p = OAuthMode \<and> to_lowercase (pr_vendor p) \<noteq> ''xai'' \<and>
     (case select_by tk_provider_id (pr_id p) (tokens_t d) of
        None \<Rightarrow> True
      | Some r \<Rightarrow> (case next_keepalive_at r of None \<Rightarrow> True | Some t \<Rightarrow> t \<le> now) \<and>
          (case next_retry_at r of None \<Rightarrow> True | Some t \<Rightarrow> t \<le> now))"

definition list_due_provider_ids :: "nat \<Rightarrow> nat \<Rightarrow> database \<Rightarrow> string list" where
  "list_due_provider_ids now limit d =
     (let age = (\<lambda>p. unwrap_or (Option.bind (select_by tk_provider_id (pr_id p) (tokens_t d)) next_keepalive_at) (pr_updated_at p))
      in take (max limit 1) (map pr_id (sort_key age (filter (keepalive_due now d) (providers_t d)))))"

text \<open>
  One round of the worker.  \<open>envs\<close> gives the environment of each keepalive; what runs at the same time, other keepalives of the round
  included, is what the others of that environment do.
\<close>

definition keepalive_round :: "mgr_env \<Rightarrow> nat \<Rightarrow> (nat \<Rightarrow> call_env) \<Rightarrow> mgr_state \<Rightarrow> mgr_state" where
  "keepalive_round M now envs st =
     (let concurrency = max 1 (min 32 (setting_u64 OAUTH_KEEPALIVE_CONCURRENCY 4 (ms_store st)))
      in if \<not> setting_bool OAUTH_KEEPALIVE_ENABLED True (ms_store st) \<or> \<not> persistent M then st
         else fold (\<lambda>(n, i) st. fst (try_keepalive_provider M (envs n) i st))
                (enumerate 0 (list_due_provider_ids now (concurrency * 4) (db (ms_store st)))) st)"

end
