(* ===== verification/Oauth_Steps.thy ===== *)
theory Oauth_Steps
  imports Oauth_Manager
begin

section \<open>Invariants of the token manager\<close>

text \<open>
  Rules to show that the operations of the manager keep a property of its state.  An operation is a sequence of steps, so most of the work
  is done once and for all: \<open>steady\<close> collects what a property must survive (a write to the cache, what others do, a refresh
  that is due), and a property that is steady for the provider of an operation is kept by that operation.
\<close>

subsection \<open>Reasoning about operations\<close>

text \<open>\<open>valid P m Q R\<close>: from a state with \<open>P\<close>, a result of \<open>m\<close> satisfies \<open>Q\<close> and an error leaves a state with \<open>R\<close>, unless the process is gone.\<close>

definition valid :: "(mgr_state \<Rightarrow> bool) \<Rightarrow> 'a mgr \<Rightarrow> ('a \<Rightarrow> mgr_state \<Rightarrow> bool) \<Rightarrow> (mgr_state \<Rightarrow> bool) \<Rightarrow> bool" where
  "valid P m Q R \<longleftrightarrow> (\<forall>st. P st \<longrightarrow> (case m st of
     (st', Inr x) \<Rightarrow> Q x st' | (st', Inl (Message _)) \<Rightarrow> R st' | (_, Inl (Panicked _)) \<Rightarrow> True))"

named_theorems valids

lemma valid_ret [valids]: "(\<And>st. P st \<Longrightarrow> Q x st) \<Longrightarrow> valid P (mret x) Q R"
  by (simp add: valid_def mret_def)

lemma valid_fail [valids]: "(\<And>st. P st \<Longrightarrow> R st) \<Longrightarrow> valid P (mfail e) Q R"
  by (simp add: valid_def mfail_def)

lemma valid_bind:
  assumes "valid P m Q R" and "\<And>x. valid (Q x) (f x) Q' R"
  shows "valid P (mbind m f) Q' R"
proof -
  have "case mbind m f st of (st', Inr x) \<Rightarrow> Q' x st' | (st', Inl (Message _)) \<Rightarrow> R st' | (_, Inl (Panicked _)) \<Rightarrow> True" if P: "P st" for st
  proof -
    obtain st1 r where m: "m st = (st1, r)" by fastforce
    note first = assms(1) [unfolded valid_def, rule_format, OF P, unfolded m]
    show ?thesis
    proof (cases r)
      case (Inl e)
      with first show ?thesis by (cases e) (simp_all add: mbind_def m)
    next
      case (Inr x)
      with first have "Q x st1" by simp
      from assms(2) [unfolded valid_def, rule_format, OF this] show ?thesis by (simp add: mbind_def m Inr)
    qed
  qed
  then show ?thesis by (simp add: valid_def)
qed

lemma bind_ret: "mbind (mret x) f = f x"
  by (rule ext) (simp add: mbind_def mret_def)

lemma valid_weaken:
  assumes "valid P' m Q' R'" and "\<And>st. P st \<Longrightarrow> P' st" and "\<And>x st. Q' x st \<Longrightarrow> Q x st" and "\<And>st. R' st \<Longrightarrow> R st"
  shows "valid P m Q R"
proof -
  have "case m st of (st', Inr x) \<Rightarrow> Q x st' | (st', Inl (Message _)) \<Rightarrow> R st' | (_, Inl (Panicked _)) \<Rightarrow> True" if "P st" for st
    using assms(1) [unfolded valid_def, rule_format, OF assms(2) [OF that]] assms(3,4)
    by (cases "m st"; cases "snd (m st)") (auto split: mgr_error.splits)
  then show ?thesis by (simp add: valid_def)
qed

lemma valid_read: "(\<And>st. P st \<Longrightarrow> Q (f st) st) \<Longrightarrow> valid P (mread f) Q R"
  by (simp add: valid_def mread_def)

lemma valid_modify: "(\<And>st. P st \<Longrightarrow> Q () (f st)) \<Longrightarrow> valid P (mmodify f) Q R"
  by (simp add: valid_def mmodify_def)

lemma valid_rust: "(\<And>st x. P st \<Longrightarrow> Q x st) \<Longrightarrow> valid P (mrust r) Q R"
  by (cases r) (simp_all add: valid_def mrust_def)

lemma valid_text: "(\<And>st x. P st \<Longrightarrow> Q x st) \<Longrightarrow> (\<And>st. P st \<Longrightarrow> R st) \<Longrightarrow> valid P (mtext r) Q R"
  by (cases r) (simp_all add: valid_def mtext_def)

lemma valid_store: "(\<And>st x. P st \<Longrightarrow> Q x st) \<Longrightarrow> (\<And>st. P st \<Longrightarrow> R st) \<Longrightarrow> valid P (mstore M r) Q R"
  by (cases r) (simp_all add: valid_def mstore_def)

lemma valid_if: "(b \<Longrightarrow> valid P m Q R) \<Longrightarrow> (\<not> b \<Longrightarrow> valid P n Q R) \<Longrightarrow> valid P (if b then m else n) Q R"
  by simp

text \<open>Operations that keep a property of the state.\<close>

lemma keeps_by_state: "(\<And>st. I st \<Longrightarrow> I (fst (m st))) \<Longrightarrow> valid I m (\<lambda>_. I) I"
proof -
  assume step: "\<And>st. I st \<Longrightarrow> I (fst (m st))"
  have "case m st of (st', Inr x) \<Rightarrow> I st' | (st', Inl (Message _)) \<Rightarrow> I st' | (_, Inl (Panicked _)) \<Rightarrow> True" if "I st" for st
    using step [OF that] by (cases "m st"; cases "snd (m st)") (auto split: mgr_error.splits)
  then show ?thesis by (simp add: valid_def)
qed

abbreviation keeps :: "(mgr_state \<Rightarrow> bool) \<Rightarrow> 'a mgr \<Rightarrow> bool" where
  "keeps I m \<equiv> valid I m (\<lambda>_. I) I"

lemma keeps_bind [valids]: "keeps I m \<Longrightarrow> (\<And>x. keeps I (f x)) \<Longrightarrow> keeps I (mbind m f)"
  by (rule valid_bind)

lemma keeps_basic [valids]: "keeps I (mread f)" "keeps I (mrust r)" "keeps I (mtext t)" "keeps I (mstore M s)"
  by (auto intro: valid_read valid_rust valid_text valid_store)

lemma keeps_modify [valids]: "(\<And>st. I st \<Longrightarrow> I (f st)) \<Longrightarrow> keeps I (mmodify f)"
  by (rule valid_modify)

lemma keeps_if [valids]: "keeps I m \<Longrightarrow> keeps I n \<Longrightarrow> keeps I (if b then m else n)"
  by simp

subsection \<open>The steps of an operation\<close>

lemma keeps_option [valids]: "keeps I n \<Longrightarrow> (\<And>x. keeps I (f x)) \<Longrightarrow> keeps I (case opt of None \<Rightarrow> n | Some x \<Rightarrow> f x)"
  by (cases opt) simp_all

lemma keeps_pair [valids]: "(\<And>a b. keeps I (g a b)) \<Longrightarrow> keeps I (case p of (a, b) \<Rightarrow> g a b)"
  by (cases p) simp

lemma keeps_sum [valids]: "(\<And>e. keeps I (l e)) \<Longrightarrow> (\<And>x. keeps I (f x)) \<Longrightarrow> keeps I (case r of Inl e \<Rightarrow> l e | Inr x \<Rightarrow> f x)"
  by (cases r) simp_all

lemma valid_load_provider:
  "valid I (load_oauth_provider M j) (\<lambda>(p, c) st. I st \<and> get_provider (me_store M) j (ms_store st) = Some p \<and>
     build_oauth_target_config (parse_json (me_store M)) p = Some c) I"
  by (auto simp: valid_def load_oauth_provider_def mbind_def mread_def mret_def mfail_def split: option.splits)

lemma keeps_load [valids]: "keeps I (load_oauth_provider M j)" "keeps I (load_oauth_config M j)" "keeps I (load_state M j)"
proof -
  show "keeps I (load_oauth_provider M j)" by (rule valid_weaken [OF valid_load_provider]) auto
  then show "keeps I (load_oauth_config M j)" unfolding load_oauth_config_def by (intro valids)
  show "keeps I (load_state M j)" unfolding load_state_def by (intro valids)
qed

lemma keeps_seed:
  assumes cache: "\<And>st c. I st \<Longrightarrow> I (st\<lparr>ms_cache := c\<rparr>)"
  shows "keeps I (seed_cache inst j label a t e ac em)" and "keeps I (seed_shared now inst j c s)"
    and "keeps I (reuse_shared_token M' now later inst j c rejected)"
proof -
  show seed: "keeps I (seed_cache inst j label a t e ac em)" for inst j label a t e ac em
    unfolding seed_cache_def by (intro valids cache)
  then show shared: "keeps I (seed_shared now inst j c s)" for now inst j c s
    unfolding seed_shared_def by blast
  show "keeps I (reuse_shared_token M' now later inst j c rejected)"
    unfolding reuse_shared_token_def by (intro valids shared)
qed

definition config_of :: "mgr_env \<Rightarrow> string \<Rightarrow> Provider \<Rightarrow> OAuthTargetConfig \<Rightarrow> mgr_state \<Rightarrow> bool" where
  "config_of M j p c st \<longleftrightarrow> get_provider (me_store M) j (ms_store st) = Some p \<and>
     build_oauth_target_config (parse_json (me_store M)) p = Some c"

lemma keeps_error: "keeps I m \<Longrightarrow> (\<And>st. I st \<Longrightarrow> R st) \<Longrightarrow> valid I m (\<lambda>_. I) R"
  by (erule valid_weaken) auto

lemma keeps_with_config:
  assumes "\<And>p c. valid (\<lambda>st. I st \<and> config_of M j p c st) (f p c) (\<lambda>_. I) I"
  shows "keeps I (mbind (load_oauth_provider M j) (\<lambda>(p, c). f p c))"
proof (rule valid_bind [OF valid_load_provider])
  fix x
  show "valid ((\<lambda>(p, c) st. I st \<and> get_provider (me_store M) j (ms_store st) = Some p \<and>
      build_oauth_target_config (parse_json (me_store M)) p = Some c) x) (case x of (p, c) \<Rightarrow> f p c) (\<lambda>_. I) I"
    using assms by (cases x) (simp add: config_of_def)
qed

subsection \<open>Properties that survive every step\<close>

definition steady :: "mgr_env \<Rightarrow> call_env \<Rightarrow> string \<Rightarrow> OAuthRefreshMode \<Rightarrow> (mgr_state \<Rightarrow> bool) \<Rightarrow> bool" where
  "steady M C j mode I \<longleftrightarrow>
     (\<forall>st c. I st \<longrightarrow> I (st\<lparr>ms_cache := c\<rparr>)) \<and> (\<forall>st a. I st \<longrightarrow> I (st\<lparr>ms_applied := a\<rparr>)) \<and>
     (\<forall>k st. k \<noteq> 2 \<longrightarrow> I st \<longrightarrow> I (others C k st)) \<and>
     (\<forall>p c interval s. valid (\<lambda>st. I st \<and> config_of M j p c st \<and> load_token_state (me_store M) j (db (ms_store st)) = Inr s)
       (refresh_when_due M C j mode p c interval s) (\<lambda>_. I) I) \<and>
     keeps I (preflight_backoff M C j)"

lemma valid_load_state:
  "valid (\<lambda>st. I st \<and> J st) (load_state M j) (\<lambda>s st. I st \<and> J st \<and> load_token_state (me_store M) j (db (ms_store st)) = Inr s) I"
  by (auto simp: valid_def load_state_def mbind_def mread_def mstore_def map_sum_def split: sum.splits)

lemma keeps_cached_apply [valids]: "keeps I (cached_apply M inst j c h)"
  unfolding cached_apply_def by (intro valids)

lemma steady_parts:
  assumes "steady M C j mode I"
  shows steady_others: "k \<noteq> 2 \<Longrightarrow> I st \<Longrightarrow> I (others C k st)"
    and steady_cache: "I st \<Longrightarrow> I (st\<lparr>ms_cache := cache\<rparr>)"
    and steady_seed: "keeps I (seed_shared now inst i c row)" "keeps I (reuse_shared_token M' now later inst i c rejected)"
    and steady_remember: "keeps I (remember_applied_access_token M' h c)"
    and steady_due: "valid (\<lambda>st. I st \<and> config_of M j p c st \<and> load_token_state (me_store M) j (db (ms_store st)) = Inr s)
       (refresh_when_due M C j mode p c interval s) (\<lambda>_. I) I"
    and steady_preflight: "keeps I (preflight_backoff M C j)"
proof -
  show c: "I st \<Longrightarrow> I (st\<lparr>ms_cache := cache\<rparr>)" for st cache using assms unfolding steady_def by blast
  show "k \<noteq> 2 \<Longrightarrow> I st \<Longrightarrow> I (others C k st)" using assms unfolding steady_def by blast
  show "keeps I (seed_shared now inst i c row)" "keeps I (reuse_shared_token M' now later inst i c rejected)" by (intro keeps_seed c; assumption)+
  show "keeps I (remember_applied_access_token M' h c)"
    unfolding remember_applied_access_token_def by (intro keeps_option keeps_modify valid_ret) (use assms in \<open>simp_all add: steady_def\<close>)
  show "valid (\<lambda>st. I st \<and> config_of M j p c st \<and> load_token_state (me_store M) j (db (ms_store st)) = Inr s)
       (refresh_when_due M C j mode p c interval s) (\<lambda>_. I) I" "keeps I (preflight_backoff M C j)"
    using assms unfolding steady_def by blast+
qed

lemma keeps_locked:
  assumes "steady M C j mode I"
  shows "keeps I (refresh_locked M C j mode rejected interval)"
  unfolding refresh_locked_def
proof (rule keeps_with_config, rule valid_bind [OF valid_load_state])
  fix p c s
  have "keeps I (mbind (seed_shared (utc C 14) (mono C 5) j c (the s)) (\<lambda>_. mret (c, ReusedShared)))"
    by (intro keeps_bind steady_seed [OF assms] valid_ret)
  then show "valid (\<lambda>st. I st \<and> config_of M j p c st \<and> load_token_state (me_store M) j (db (ms_store st)) = Inr s)
      (if mode = IfNeeded \<and> (case s of Some s \<Rightarrow> shared_token_is_usable (utc C 13) s rejected | None \<Rightarrow> False)
       then mbind (seed_shared (utc C 14) (mono C 5) j c (the s)) (\<lambda>_. mret (c, ReusedShared))
       else refresh_when_due M C j mode p c interval s) (\<lambda>_. I) I"
    by (intro valid_if steady_due [OF assms]) (erule valid_weaken, auto)
qed

lemma keeps_attempts:
  assumes "steady M C j mode I"
  shows "keeps I (postgres_attempts M C j mode rejected wait c interval k left)"
proof (induction left arbitrary: k)
  case 0
  show ?case unfolding postgres_attempts.simps [of _ _ _ _ _ _ _ _ _ 0] nat.case
    by (intro keeps_if keeps_locked [OF assms] keeps_bind steady_seed [OF assms] valid_ret valid_fail)
next
  case (Suc rest)
  show ?case unfolding postgres_attempts.simps [of _ _ _ _ _ _ _ _ _ "Suc rest"] nat.case
    by (intro keeps_if keeps_locked [OF assms] keeps_bind steady_seed [OF assms] valid_ret keeps_modify Suc.IH steady_others [OF assms]) simp_all
qed

lemma keeps_coordinated:
  assumes "steady M C j mode I"
  shows "keeps I (refresh_coordinated M C j mode rejected wait)"
proof -
  let ?I = "\<lambda>p c st. I st \<and> config_of M j p c st"
  have cache: "?I p c st \<Longrightarrow> ?I p c (st\<lparr>ms_cache := cache\<rparr>)" for p c st cache
    using steady_cache [OF assms] by (simp add: config_of_def)
  have reuse: "keeps (?I p c) (if mode = IfNeeded then reuse_shared_token M (utc C 2) (utc C 3) (mono C 2) j c rejected else mret False)" for p c
    by (intro keeps_if keeps_seed valid_ret) (rule cache | assumption)+
  have sqlite: "valid (?I p c) (mbind (load_state M j) (refresh_when_due M C j mode p c interval)) (\<lambda>_. I) I" for p c interval
    by (rule valid_bind [OF valid_load_state steady_due [OF assms]])
  have postgres: "valid (?I p c) (postgres_attempts M C j mode rejected wait c interval 0 (polls C)) (\<lambda>_. I) I" for p c interval
    by (rule valid_weaken [OF keeps_attempts [OF assms]]) auto
  have interval: "valid (?I p c) (mread (\<lambda>st. keepalive_interval (ms_store st))) (\<lambda>_. ?I p c) I" for p c
    by (rule valid_read) simp
  have rest: "valid (?I p c) (if reused then mret (c, ReusedShared) else mbind (mread (\<lambda>st. keepalive_interval (ms_store st))) (\<lambda>interval.
      case me_kind M of
        Sqlite \<Rightarrow> mbind (load_state M j) (refresh_when_due M C j mode p c interval)
      | Postgres \<Rightarrow> postgres_attempts M C j mode rejected wait c interval 0 (polls C))) (\<lambda>_. I) I" for p c reused
    by (intro valid_if valid_ret valid_bind [OF interval]) (auto simp: sqlite postgres split: DbKind.split)
  show ?thesis unfolding refresh_coordinated_def
    by (intro keeps_bind keeps_modify keeps_with_config valid_bind [OF keeps_error [OF reuse] rest])
      (use steady_others [OF assms, of 1] in auto)
qed

lemma keeps_ensure:
  assumes "steady M C j mode I"
  shows "keeps I (ensure_provider_token M C j mode rejected)"
  unfolding ensure_provider_token_def
  by (intro keeps_bind keeps_modify keeps_load keeps_if keeps_pair valid_ret keeps_coordinated [OF assms] steady_seed [OF assms] steady_others [OF assms]) simp

lemma keeps_keepalive:
  assumes "steady M C j Keepalive I"
  shows "keeps I (try_keepalive_provider M C j)"
proof -
  have "case try_keepalive_provider M C j st of (st', Inr x) \<Rightarrow> I st'
      | (st', Inl (Message _)) \<Rightarrow> I st' | (_, Inl (Panicked _)) \<Rightarrow> True" if R: "I st" for st
  proof (cases "persistent M")
    case True
    obtain st1 r where run: "refresh_coordinated M C j Keepalive None False st = (st1, r)" by fastforce
    note R1 = keeps_coordinated [OF assms, of None False, unfolded valid_def, rule_format, OF R, unfolded run]
    show ?thesis
    proof (cases r)
      case (Inl e)
      show ?thesis
      proof (cases e)
        case (Message m)
        obtain st2 r2 where pre: "preflight_backoff M C j st1 = (st2, r2)" by fastforce
        have "I st1" using R1 by (simp add: Inl Message)
        from steady_preflight [OF assms, unfolded valid_def, rule_format, OF this, unfolded pre] show ?thesis
          by (cases r2) (auto simp: try_keepalive_provider_def True run Inl Message pre split: mgr_error.splits)
      qed (simp add: try_keepalive_provider_def True run Inl)
    next
      case (Inr x)
      with R1 show ?thesis by (cases x) (simp add: try_keepalive_provider_def True run)
    qed
  qed (simp add: try_keepalive_provider_def R)
  then show ?thesis by (simp add: valid_def)
qed

subsection \<open>Operations\<close>

text \<open>The operations of the data plane, the control plane and the worker that can refresh a credential.\<close>

datatype mgr_op = Apply RoutingTarget HeaderMap | Retry_Rejected RoutingTarget string | Force_Refresh string
  | Apply_By_Id string HeaderMap | Keepalive_Op string

fun op_provider :: "mgr_op \<Rightarrow> string" where
  "op_provider (Apply t h) = provider_id t"
| "op_provider (Retry_Rejected t tok) = provider_id t"
| "op_provider (Force_Refresh j) = j"
| "op_provider (Apply_By_Id j h) = j"
| "op_provider (Keepalive_Op j) = j"

fun run_op :: "mgr_env \<Rightarrow> mgr_op \<Rightarrow> call_env \<Rightarrow> unit mgr" where
  "run_op M (Apply t h) C = mbind (mgr_apply M C t h) (\<lambda>_. mret ())"
| "run_op M (Retry_Rejected t tok) C = mbind (refresh_after_unauthorized M C t tok) (\<lambda>_. mret ())"
| "run_op M (Force_Refresh j) C = mbind (force_refresh M C j) (\<lambda>_. mret ())"
| "run_op M (Apply_By_Id j h) C = mbind (apply_provider_by_id M C j h) (\<lambda>_. mret ())"
| "run_op M (Keepalive_Op j) C = mbind (try_keepalive_provider M C j) (\<lambda>_. mret ())"

fun op_mode :: "mgr_op \<Rightarrow> OAuthRefreshMode" where
  "op_mode (Force_Refresh j) = Force"
| "op_mode (Keepalive_Op j) = Keepalive"
| "op_mode _ = IfNeeded"

lemma keeps_run_op:
  assumes steady: "steady M C (op_provider op) (op_mode op) I" and "persistent M"
  shows "keeps I (run_op M op C)"
proof (cases op)
  case (Apply t h)
  have durable: "(if \<not> persistent M then a else b) = b" for a b :: "(bool \<times> HeaderMap) mgr" using assms(2) by simp
  note s = steady [unfolded Apply op_provider.simps op_mode.simps]
  have "keeps I (mgr_apply M C t h)"
    unfolding mgr_apply_def durable
    by (intro keeps_option keeps_bind keeps_cached_apply keeps_pair keeps_if steady_remember [OF s] keeps_ensure [OF s] valid_ret valid_fail)
  then show ?thesis unfolding Apply run_op.simps by (intro keeps_bind valid_ret)
next
  case (Retry_Rejected t tok)
  have durable: "(if \<not> persistent M then a else b) = b" for a b :: "bool mgr" using assms(2) by simp
  note s = steady [unfolded Retry_Rejected op_provider.simps op_mode.simps]
  have "keeps I (refresh_after_unauthorized M C t tok)"
    unfolding refresh_after_unauthorized_def retry_rejected_def durable
    by (intro keeps_option keeps_bind keeps_basic keeps_modify keeps_if steady_cache [OF s] keeps_ensure [OF s] valid_ret)
  then show ?thesis unfolding Retry_Rejected run_op.simps by (intro keeps_bind valid_ret)
next
  case (Force_Refresh j)
  note s = steady [unfolded Force_Refresh op_provider.simps op_mode.simps]
  have "keeps I (force_refresh M C j)"
    unfolding force_refresh_def refresh_summary_def by (intro keeps_if keeps_bind keeps_load keeps_ensure [OF s] valid_ret valid_fail)
  then show ?thesis unfolding Force_Refresh run_op.simps by (intro keeps_bind valid_ret)
next
  case (Apply_By_Id j h)
  note s = steady [unfolded Apply_By_Id op_provider.simps op_mode.simps]
  have "keeps I (apply_provider_by_id M C j h)"
    unfolding apply_provider_by_id_def
    by (intro keeps_if keeps_bind keeps_cached_apply keeps_pair steady_remember [OF s] keeps_ensure [OF s] valid_ret valid_fail)
  then show ?thesis unfolding Apply_By_Id run_op.simps by (intro keeps_bind valid_ret)
next
  case (Keepalive_Op j)
  note s = steady [unfolded Keepalive_Op op_provider.simps op_mode.simps]
  show ?thesis unfolding Keepalive_Op run_op.simps by (intro keeps_bind keeps_keepalive [OF s] valid_ret)
qed

end
