(* ===== verification/Oauth_Rotation.thy ===== *)
theory Oauth_Rotation
  imports Oauth_Steps
begin

section \<open>Refresh tokens are used in order\<close>

text \<open>
  A token endpoint may replace the refresh token with every use, and may revoke the whole credential if an old one comes back.
  This theory shows that the manager never loses its place: whatever operations run, on whatever providers, each refresh request carries the
  token that the last successful one left behind, and that token is the one in the database.
\<close>

subsection \<open>The chain of refresh tokens\<close>

type_synonym exchange = "string \<times> (string + TokenResult)"

text \<open>The exchanges of a provider with its endpoint, and the token that is current after them if each carried the current one.\<close>

definition exchanges :: "string \<Rightarrow> mgr_state \<Rightarrow> exchange list" where
  "exchanges i st = map snd (filter (\<lambda>(j, _). j = i) (ms_requests st))"

definition next_token :: "string \<Rightarrow> string + TokenResult \<Rightarrow> string" where
  "next_token cur res = (case res of Inr r \<Rightarrow> unwrap_or (tr_refresh_token r) cur | Inl _ \<Rightarrow> cur)"

fun chain :: "string \<Rightarrow> exchange list \<Rightarrow> string option" where
  "chain cur [] = Some cur"
| "chain cur ((tok, res) # rest) = (if tok = cur then chain (next_token cur res) rest else None)"

lemma chain_append: "chain cur (xs @ ys) = Option.bind (chain cur xs) (\<lambda>c. chain c ys)"
  by (induction cur xs rule: chain.induct) auto

definition stored_token :: "mgr_env \<Rightarrow> mgr_state \<Rightarrow> string \<Rightarrow> json option" where
  "stored_token M st i = meta_field (me_store M) (db (ms_store st)) i ''refresh_token''"

definition rotation :: "mgr_env \<Rightarrow> string \<Rightarrow> string \<Rightarrow> mgr_state \<Rightarrow> bool" where
  "rotation M i start st \<longleftrightarrow> wf_db (db (ms_store st)) \<and>
     (\<exists>cur. chain start (exchanges i st) = Some cur \<and> stored_token M st i = Some (JString cur))"

text \<open>Only the tables and the exchanges matter.\<close>

lemma rotation_cong:
  assumes "rotation M i start st" and "db (ms_store st') = db (ms_store st)" and "ms_requests st' = ms_requests st"
  shows "rotation M i start st'"
  using assms by (simp add: rotation_def exchanges_def stored_token_def)

lemma rotation_refresh: "rotation M i start (st\<lparr>ms_store := refresh env (ms_store st)\<rparr>) \<longleftrightarrow> rotation M i start st"
  by (simp add: rotation_def exchanges_def stored_token_def meta_field_refresh)

lemma rotation_cache [simp]: "rotation M i start (st\<lparr>ms_cache := c\<rparr>) \<longleftrightarrow> rotation M i start st"
  by (simp add: rotation_def exchanges_def stored_token_def)

lemma rotation_applied [simp]: "rotation M i start (st\<lparr>ms_applied := c\<rparr>) \<longleftrightarrow> rotation M i start st"
  by (simp add: rotation_def exchanges_def stored_token_def)

text \<open>
  What a call on provider \<open>j\<close> may rely on: the others keep the chain of \<open>i\<close> going, and while the call waits for the endpoint of \<open>i\<close> itself,
  with the lock of \<open>i\<close> held, they leave the credential and the exchanges of \<open>i\<close> alone.
\<close>

definition untouched :: "mgr_env \<Rightarrow> string \<Rightarrow> mgr_state \<Rightarrow> mgr_state \<Rightarrow> bool" where
  "untouched M i st st' \<longleftrightarrow> (wf_db (db (ms_store st)) \<longrightarrow> wf_db (db (ms_store st'))) \<and>
     stored_token M st' i = stored_token M st i \<and> exchanges i st' = exchanges i st"

definition fair :: "mgr_env \<Rightarrow> string \<Rightarrow> string \<Rightarrow> string \<Rightarrow> call_env \<Rightarrow> bool" where
  "fair M i start j C \<longleftrightarrow> (\<forall>n. length (nonces C n) = NONCE_LEN) \<and>
     (\<forall>k st. k = 2 \<and> j = i \<longrightarrow> untouched M i st (others C k st)) \<and>
     (\<forall>k st. \<not> (k = 2 \<and> j = i) \<longrightarrow> rotation M i start st \<longrightarrow> rotation M i start (others C k st))"

subsection \<open>What a commit stores\<close>

text \<open>No value is too long for the cipher.\<close>

definition sealable :: "store_env \<Rightarrow> bool" where
  "sealable env \<longleftrightarrow> (\<forall>purpose nonce s. length nonce = NONCE_LEN \<longrightarrow> (\<exists>blob. encrypt_column env purpose nonce s = Inr blob))"

lemma commit_wf: "wf_db d \<Longrightarrow> wf_db (fst (commit_success env now ns c d))"
  by (auto simp: commit_success_def Let_def wf_db_def keys_update keys_upsert write_oauth_meta_def split: sum.splits)

lemma select_commit:
  assumes "commit_success env now ns c d = (d', r)"
  shows "select_by pr_id j (providers_t d') = select_by pr_id j (providers_t d) \<or> (j = oc_provider_id c \<and>
    (\<exists>blob. encrypt_column env PURPOSE_OAUTH_REFRESH_TOKEN (ns 1) (oc_meta c) = Inr blob \<and>
      select_by pr_id j (providers_t d') = map_option (write_oauth_meta blob now) (select_by pr_id j (providers_t d))))"
proof -
  have u: "select_by pr_id j (update_where (\<lambda>p. pr_id p = oc_provider_id c) (write_oauth_meta blob now) (providers_t d)) =
      (if j = oc_provider_id c then map_option (write_oauth_meta blob now) (select_by pr_id j (providers_t d))
       else select_by pr_id j (providers_t d))" for blob
    by (subst select_update) (auto simp: write_oauth_meta_def map_option_case split: option.split dest: select_by_Some)
  then show ?thesis using assms by (auto simp: commit_success_def Let_def split: sum.splits if_splits)
qed

lemma commit_elsewhere:
  assumes "commit_success env now ns c d = (d', r)" and "j \<noteq> oc_provider_id c"
  shows "meta_field env d' j k = meta_field env d j k"
  using select_commit [OF assms(1), of j] assms(2) by (simp add: meta_field_def stored_meta_def)

lemma commit_stores:
  assumes law: "store_lawful env" and seal: "sealable env" and n: "\<And>k. length (ns k) = NONCE_LEN"
    and row: "select_by pr_id (oc_provider_id c) (providers_t d) \<noteq> None"
    and meta: "oc_meta c = print_json env (JObject kvs)" "wf_json (JObject kvs)"
  obtains d' v where "commit_success env now ns c d = (d', Inr v)" and "meta_field env d' (oc_provider_id c) k = map_of kvs k"
proof -
  let ?i = "oc_provider_id c" and ?rt = PURPOSE_OAUTH_REFRESH_TOKEN
  from seal n obtain a b where a: "encrypt_column env PURPOSE_OAUTH_ACCESS_TOKEN (ns 0) (oc_access_token c) = Inr a"
    and b: "encrypt_column env ?rt (ns 1) (oc_meta c) = Inr b" unfolding sealable_def by meson
  note ab = a b b [unfolded One_nat_def]
  from row obtain q where q: "select_by pr_id ?i (providers_t d) = Some q" by auto
  have "rows_affected (\<lambda>p. pr_id p = ?i) (providers_t d) \<noteq> 0" using select_by_Some [OF q] by (auto simp: rows_affected_0)
  then obtain d' v where d': "commit_success env now ns c d = (d', Inr v)"
    by (cases "commit_success env now ns c d") (simp add: commit_success_def ab Let_def select_upsert)
  have printed: "from_utf8_lossy (oc_meta c) = oc_meta c" "parse_json env (oc_meta c) = Some (JObject kvs)" "oc_meta c \<noteq> []"
    using law meta unfolding store_lawful_def json_text_def by auto
  have "cleartext env ?rt b = Some (oc_meta c)"
    by (rule cleartext_encrypt [OF _ n printed(3,1) b]) (use law in \<open>simp add: store_lawful_def\<close>)
  moreover have "providers_t d' = update_where (\<lambda>p. pr_id p = ?i) (write_oauth_meta b now) (providers_t d)"
    using d' by (auto simp: commit_success_def ab Let_def split: if_splits option.splits)
  then have "select_by pr_id ?i (providers_t d') = Some (write_oauth_meta b now q)"
    using q select_by_Some [OF q] by (simp add: select_update write_oauth_meta_def)
  ultimately have "meta_field env d' ?i k = map_of kvs k"
    by (simp add: meta_field_def stored_meta_def write_oauth_meta_def printed)
  with d' that show ?thesis by blast
qed

lemma new_meta_token: "map_of (new_oauth_meta ts c r kvs) ''refresh_token'' = Some (JString (unwrap_or (tr_refresh_token r) (refresh_token c)))"
  by (simp add: new_oauth_meta_def insert_opt_def map_of_obj_insert map_of_obj_remove split: option.splits)

lemma new_meta_wf: "wf_json (JObject kvs) \<Longrightarrow> wf_json (JObject (new_oauth_meta ts c r kvs))"
proof -
  have opt: "wf_json (JObject kvs) \<Longrightarrow> wf_json (JObject (insert_opt k v kvs))" for k v kvs
    by (cases v) (auto simp: insert_opt_def intro!: wf_obj_insert simp del: wf_json.simps(2))
  assume "wf_json (JObject kvs)"
  then show ?thesis unfolding new_oauth_meta_def
    by (intro wf_obj_remove wf_obj_insert opt) (simp_all split: option.splits)
qed

subsection \<open>What a configuration says\<close>

lemma get_provider_id: "get_provider env i st = Some p \<Longrightarrow> pr_id p = i"
  by (auto simp: get_provider_def populate_provider_oauth_cleartext_def populate_provider_usage_management_key_cleartext_def
      row_to_provider_def dest: select_by_Some)

lemma get_provider_column:
  assumes "get_provider env i st = Some p"
  obtains q where "select_by pr_id i (providers_t (db st)) = Some q" and "encrypted_oauth_meta q = encrypted_oauth_meta p"
proof -
  from assms obtain q where "select_by pr_id i (providers_t (db st)) = Some q"
    "p = populate_provider_usage_management_key_cleartext env (populate_provider_oauth_cleartext env (row_to_provider q))"
    by (auto simp: get_provider_def)
  then show ?thesis
    using that by (simp add: populate_provider_oauth_cleartext_def populate_provider_usage_management_key_cleartext_def row_to_provider_def)
qed

lemma config_token:
  assumes "get_provider env i st = Some p" and "build_oauth_target_config (parse_json env) p = Some c" and "refresh_token c \<noteq> []"
  obtains kvs where "Option.bind (oauth_meta_cleartext p) (parse_json env) = Some (JObject kvs)"
    and "meta_field env (db st) i ''refresh_token'' = Some (JString (refresh_token c))"
proof -
  have "refresh_token c = unwrap_or (oauth_meta_field (parse_json env) p ''refresh_token'') []"
    using assms(2) by (auto simp: build_oauth_target_config_def Let_def split: option.splits sum.splits if_splits)
  with assms(3) obtain raw m where raw: "oauth_meta_cleartext p = Some raw" and m: "parse_json env raw = Some m"
    and "str_member m ''refresh_token'' = Some (refresh_token c)"
    by (cases "oauth_meta_field (parse_json env) p ''refresh_token''") (auto simp: oauth_meta_field_def bind_eq_Some_conv)
  then have tok: "get m ''refresh_token'' = Some (JString (refresh_token c))"
    by (auto simp: str_member_def bind_eq_Some_conv elim: as_str.elims)
  then obtain kvs where kvs: "m = JObject kvs" by (cases m) auto
  obtain q where "select_by pr_id i (providers_t (db st)) = Some q" "encrypted_oauth_meta q = encrypted_oauth_meta p"
    using get_provider_column [OF assms(1)] .
  with get_provider_meta [OF assms(1) raw] m tok have "meta_field env (db st) i ''refresh_token'' = Some (JString (refresh_token c))"
    by (simp add: meta_field_def stored_meta_def)
  with raw m kvs that show ?thesis by simp
qed

subsection \<open>The steps of an operation\<close>

lemma keeps_rotation_seed [valids]:
  "keeps (rotation M i start) (seed_cache inst j label a t e ac em)" "keeps (rotation M i start) (seed_shared now inst j c s)"
  "keeps (rotation M i start) (reuse_shared_token M' now later inst j c rejected)"
  by (intro keeps_seed; simp)+

lemma rotation_backoff: "rotation M i start st \<Longrightarrow> rotation M i start (with_db (record_refresh_failure now j t) st)"
  by (auto simp: rotation_def exchanges_def stored_token_def with_db_def record_refresh_failure_def meta_field_def stored_meta_def wf_db_def
      keys_upsert)

lemma rotation_status:
  assumes law: "store_lawful (me_store M)" and n: "length nonce = NONCE_LEN" and p: "get_provider (me_store M) (pr_id p) st0 = Some p"
    and R: "rotation M i start st"
  shows "rotation M i start (st\<lparr>ms_store := fst (set_provider_oauth_status_if_unchanged (me_store M) now ts nonce p status reason (ms_store st))\<rparr>)"
proof -
  let ?env = "me_store M" and ?st = "ms_store st"
  have key: "''refresh_token'' \<notin> status_keys" by (simp add: status_keys_def)
  have wf: "wf_db (db ?st)" using R by (simp add: rotation_def)
  let ?st2 = "fst (set_provider_oauth_status_if_unchanged ?env now ts nonce p status reason ?st)"
  have "wf_db (db ?st2) \<and> meta_field ?env (db ?st2) i ''refresh_token'' = meta_field ?env (db ?st) i ''refresh_token''"
  proof (cases "oauth_status_metadata ?env ts p status reason")
    case (Inr meta)
    obtain st1 r where cas: "set_provider_oauth_meta_if_unchanged ?env now nonce (pr_id p) (encrypted_oauth_meta p) meta ?st = (st1, r)"
      by fastforce
    have st2: "?st2 = (if r = Inr True then refresh ?env st1 else st1)"
      by (cases r) (simp_all add: set_provider_oauth_status_if_unchanged_def Inr cas)
    consider "r = Inr True" | "st1 = ?st" using cas_unchanged [OF wf] cas_failed cas by (cases r) (metis (full_types))+
    then show ?thesis
    proof cases
      case 1
      with cas_keeps_fields [OF law n wf p Inr cas [unfolded 1], of i "''refresh_token''"] key cas_wf [OF wf cas] show ?thesis
        by (simp add: st2 meta_field_refresh)
    next
      case 2
      then show ?thesis using wf by (simp add: st2 meta_field_refresh)
    qed
  qed (simp add: set_provider_oauth_status_if_unchanged_def wf)
  with R show ?thesis by (simp add: rotation_def exchanges_def stored_token_def)
qed

lemma fair_nonces: "fair M i start j C \<Longrightarrow> length (nonces C n) = NONCE_LEN"
  by (simp only: fair_def)

lemma keeps_note_failure:
  assumes "store_lawful (me_store M)" and "fair M i start j C" and "get_provider (me_store M) (pr_id p) st0 = Some p"
  shows "keeps (rotation M i start) (note_refresh_failure M C p k)"
proof -
  note n = fair_nonces [OF assms(2), of 2]
  have "keeps (rotation M i start) (note_status M C p k)"
    unfolding note_status_def by (rule keeps_modify) (rule rotation_status [OF assms(1) n assms(3)])
  moreover have "keeps (rotation M i start) (note_backoff M C (pr_id p) k)"
    unfolding note_backoff_def by (intro keeps_bind keeps_basic keeps_sum keeps_modify rotation_backoff valid_ret)
  ultimately show ?thesis unfolding note_refresh_failure_def by (intro keeps_bind)
qed

text \<open>A commit for another provider, and the commit of an answer for this one.\<close>

lemma keeps_commit_other:
  assumes "oc_provider_id cm \<noteq> i"
  shows "keeps (rotation M i start) (commit_token M C cm)"
proof -
  have "rotation M i start (fst (commit_token M C cm st))" if R: "rotation M i start st" for st
  proof -
    obtain d r where d: "commit_success (me_store M) (utc C 8) (nonces C) cm (db (ms_store st)) = (d, r)" by fastforce
    have "wf_db d" using commit_wf [of "db (ms_store st)" "me_store M" "utc C 8" "nonces C" cm] d R by (simp add: rotation_def)
    with R commit_elsewhere [OF d] assms show ?thesis
      by (simp add: commit_token_def d with_db_def rotation_def exchanges_def stored_token_def)
  qed
  then show ?thesis by (rule keeps_by_state)
qed

lemma keeps_persist_other: "j \<noteq> i \<Longrightarrow> keeps (rotation M i start) (persist_token_result M C j p c r interval)"
  unfolding persist_token_result_def stored_meta_object_def
  by (intro valids keeps_commit_other; (simp add: rotation_refresh)?) (auto intro!: valids split: json.splits)

definition awaiting :: "mgr_env \<Rightarrow> string \<Rightarrow> string \<Rightarrow> string \<Rightarrow> mgr_state \<Rightarrow> bool" where
  "awaiting M i start tok st \<longleftrightarrow> wf_db (db (ms_store st)) \<and> chain start (exchanges i st) = Some tok \<and> stored_token M st i \<noteq> None"

lemma stored_token_row: "stored_token M st i \<noteq> None \<Longrightarrow> select_by pr_id i (providers_t (db (ms_store st))) \<noteq> None"
  by (cases "select_by pr_id i (providers_t (db (ms_store st)))") (auto simp: stored_token_def meta_field_def stored_meta_def)

lemma valid_commit:
  assumes law: "store_lawful (me_store M)" and seal: "sealable (me_store M)" and n: "\<And>k. length (nonces C k) = NONCE_LEN"
    and cm: "oc_provider_id cm = i" "oc_meta cm = print_json (me_store M) (JObject kvs)" "wf_json (JObject kvs)"
    and tok: "map_of kvs ''refresh_token'' = Some (JString tok)"
  shows "valid (awaiting M i start tok) (commit_token M C cm) (\<lambda>_. rotation M i start) (rotation M i start)"
proof -
  have "\<exists>d' v. commit_success (me_store M) (utc C 8) (nonces C) cm (db (ms_store st)) = (d', Inr v) \<and> wf_db d' \<and>
      meta_field (me_store M) d' i ''refresh_token'' = Some (JString tok)" if "awaiting M i start tok st" for st
  proof -
    have row: "select_by pr_id (oc_provider_id cm) (providers_t (db (ms_store st))) \<noteq> None"
      using stored_token_row that unfolding cm(1) awaiting_def by blast
    obtain d' v where d': "commit_success (me_store M) (utc C 8) (nonces C) cm (db (ms_store st)) = (d', Inr v)"
      "meta_field (me_store M) d' i ''refresh_token'' = map_of kvs ''refresh_token''"
      by (rule commit_stores [OF law seal n row cm(2,3), unfolded cm(1)])
    moreover have "wf_db d'" using commit_wf [of "db (ms_store st)" "me_store M" "utc C 8" "nonces C" cm] d'(1) that
      by (simp add: awaiting_def)
    ultimately show ?thesis using tok by simp
  qed
  then show ?thesis
    unfolding valid_def commit_token_def
    by (fastforce simp: with_db_def rotation_def awaiting_def exchanges_def stored_token_def)
qed

lemma valid_persist:
  assumes "store_lawful (me_store M)" and "sealable (me_store M)" and "\<And>k. length (nonces C k) = NONCE_LEN"
    and meta: "Option.bind (oauth_meta_cleartext p) (parse_json (me_store M)) = Some (JObject kvs)"
  shows "valid (awaiting M i start (unwrap_or (tr_refresh_token r) (refresh_token c))) (persist_token_result M C i p c r interval)
    (\<lambda>_. rotation M i start) (rotation M i start)"
proof -
  let ?A = "awaiting M i start (unwrap_or (tr_refresh_token r) (refresh_token c))" and ?R = "rotation M i start"
  obtain raw where "parse_json (me_store M) raw = Some (JObject kvs)" using meta by (auto simp: bind_eq_Some_conv)
  then have wf: "wf_json (JObject kvs)" using assms(1) unfolding store_lawful_def json_text_def by blast
  have rest: "keeps ?R (mbind (mmodify (\<lambda>st. st\<lparr>ms_store := refresh (me_store M) (ms_store st)\<rparr>)) (\<lambda>_.
     mbind (load_oauth_config M i) (\<lambda>new_config.
     mbind (seed_cache (mono C 3) i (cache_label new_config) (tr_access_token r) (unwrap_or (tr_refresh_token r) (refresh_token c))
        (tr_expires_in r) (or_else (tr_account_id r) (account_id c)) (tr_account_email r)) (\<lambda>_. mret (new_config, Refreshed)))))"
    by (intro valids) (simp_all add: rotation_refresh)
  have meta': "stored_meta_object M p = mret kvs" by (simp add: stored_meta_object_def meta)
  show ?thesis unfolding persist_token_result_def meta' bind_ret
    by (intro valid_bind [OF valid_rust [where Q = "\<lambda>_. ?A"]] valid_bind [OF valid_commit [OF assms(1-3), where kvs = "new_oauth_meta (stamp C) c r kvs"] rest])
      (use wf in \<open>simp_all add: new_meta_token new_meta_wf del: wf_json.simps\<close>)
qed

subsection \<open>A refresh\<close>

lemma valid_pointwise: "(\<And>st. P st \<Longrightarrow> valid (\<lambda>s. s = st) m Q R) \<Longrightarrow> valid P m Q R"
  by (simp add: valid_def)

lemma exchanges_snoc [simp]:
  "exchanges i (st\<lparr>ms_requests := ms_requests st @ [(j, x)]\<rparr>) = exchanges i st @ (if j = i then [x] else [])"
  by (simp add: exchanges_def)

lemma valid_send:
  assumes fair: "fair M i start i C" and R: "rotation M i start st" and tok: "stored_token M st i = Some (JString (refresh_token c))"
  shows "valid (\<lambda>s. s = st) (send_refresh M C i c) (\<lambda>res st'. case res of
      Inl _ \<Rightarrow> rotation M i start st'
    | Inr r \<Rightarrow> awaiting M i start (unwrap_or (tr_refresh_token r) (refresh_token c)) st') (rotation M i start)"
proof -
  let ?res = "timed_refresh M C c"
  let ?st1 = "st\<lparr>ms_requests := ms_requests st @ [(i, refresh_token c, ?res)]\<rparr>"
  let ?st2 = "others C 2 ?st1"
  have u: "untouched M i ?st1 ?st2" using fair by (simp add: fair_def)
  have "chain start (exchanges i ?st1) = Some (next_token (refresh_token c) ?res)"
    using R tok by (auto simp: rotation_def chain_append)
  then have "chain start (exchanges i ?st2) = Some (next_token (refresh_token c) ?res)"
    "stored_token M ?st2 i = Some (JString (refresh_token c))" "wf_db (db (ms_store ?st2))"
    using u tok R by (auto simp: untouched_def rotation_def stored_token_def)
  then show ?thesis
    by (auto simp: valid_def send_refresh_def Let_def rotation_def awaiting_def next_token_def split: sum.splits)
qed

lemma keeps_send_other:
  assumes "fair M i start j C" and "j \<noteq> i"
  shows "keeps (rotation M i start) (send_refresh M C j c)"
proof (rule keeps_by_state)
  fix st assume R: "rotation M i start st"
  let ?st1 = "st\<lparr>ms_requests := ms_requests st @ [(j, refresh_token c, timed_refresh M C c)]\<rparr>"
  have "rotation M i start ?st1" using R assms(2) by (simp add: rotation_def stored_token_def)
  then have "rotation M i start (others C 2 ?st1)" using assms unfolding fair_def by simp
  then show "rotation M i start (fst (send_refresh M C j c st))" by (simp add: send_refresh_def Let_def)
qed

lemma valid_perform:
  assumes law: "store_lawful (me_store M)" and seal: "sealable (me_store M)" and fair: "fair M i start j C"
  shows "valid (\<lambda>st. rotation M i start st \<and> config_of M j p c st) (perform_refresh M C j p c interval)
    (\<lambda>_. rotation M i start) (rotation M i start)"
proof (cases "refresh_token c = []")
  case True
  then show ?thesis by (simp add: perform_refresh_def valid_def mfail_def)
next
  case tok: False
  show ?thesis
  proof (rule valid_pointwise)
    fix st assume pre: "rotation M i start st \<and> config_of M j p c st"
    then have p: "get_provider (me_store M) j (ms_store st) = Some p" and c: "build_oauth_target_config (parse_json (me_store M)) p = Some c"
      by (simp_all add: config_of_def)
    have id: "get_provider (me_store M) (pr_id p) (ms_store st) = Some p" using p get_provider_id [OF p] by simp
    have failed: "keeps (rotation M i start) (let k = classify_refresh_failure e in
        mbind (note_refresh_failure M C p k) (\<lambda>_. mfail (''OAuth credential refresh failed: '' @ status_reason k)))" for e
      unfolding Let_def by (intro keeps_bind keeps_note_failure [OF law fair id] valid_fail)
    show "valid (\<lambda>s. s = st) (perform_refresh M C j p c interval) (\<lambda>_. rotation M i start) (rotation M i start)"
    proof (cases "j = i")
      case True
      from config_token [OF p c tok] obtain kvs where kvs: "Option.bind (oauth_meta_cleartext p) (parse_json (me_store M)) = Some (JObject kvs)"
        and st: "stored_token M st i = Some (JString (refresh_token c))" by (auto simp: stored_token_def True)
      show ?thesis unfolding perform_refresh_def True using tok
        by (simp, intro valid_bind [OF valid_send [OF fair [unfolded True] _ st]])
          (use pre failed valid_persist [OF law seal fair_nonces [OF fair] kvs] in \<open>auto simp: True split: sum.splits\<close>)
    next
      case False
      have "keeps (rotation M i start) (perform_refresh M C j p c interval)"
        unfolding perform_refresh_def
        by (intro keeps_if keeps_bind keeps_send_other [OF fair False] keeps_sum failed keeps_persist_other [OF False] valid_fail)
      then show ?thesis by (rule valid_weaken) (use pre in auto)
    qed
  qed
qed

lemma valid_when_due:
  assumes "store_lawful (me_store M)" and "sealable (me_store M)" and "fair M i start j C"
  shows "valid (\<lambda>st. rotation M i start st \<and> config_of M j p c st) (refresh_when_due M C j mode p c interval s)
    (\<lambda>_. rotation M i start) (rotation M i start)"
  unfolding refresh_when_due_def by (intro valid_if valid_ret valid_fail valid_perform [OF assms]) auto

subsection \<open>Histories\<close>

lemma keeps_preflight:
  assumes "fair M i start j C"
  shows "keeps (rotation M i start) (preflight_backoff M C j)"
proof -
  have "rotation M i start st \<Longrightarrow> rotation M i start (others C 1 st)" for st using assms by (simp add: fair_def)
  then show ?thesis unfolding preflight_backoff_def
    by (intro keeps_bind keeps_modify keeps_basic keeps_if keeps_option keeps_load rotation_backoff valid_ret)
qed

lemma rotation_steady:
  assumes "store_lawful (me_store M)" and "sealable (me_store M)" and "fair M i start j C"
  shows "steady M C j mode (rotation M i start)"
proof -
  have "valid (\<lambda>st. rotation M i start st \<and> config_of M j p c st \<and> load_token_state (me_store M) j (db (ms_store st)) = Inr s)
      (refresh_when_due M C j mode p c interval s) (\<lambda>_. rotation M i start) (rotation M i start)" for p c interval s
    by (rule valid_weaken [OF valid_when_due [OF assms]]) auto
  moreover have "\<forall>k st. k \<noteq> 2 \<longrightarrow> rotation M i start st \<longrightarrow> rotation M i start (others C k st)"
    using assms(3) unfolding fair_def by blast
  ultimately show ?thesis unfolding steady_def by (simp add: keeps_preflight [OF assms(3)])
qed

inductive history :: "mgr_env \<Rightarrow> string \<Rightarrow> string \<Rightarrow> mgr_state \<Rightarrow> mgr_state \<Rightarrow> bool" for M i start st0 where
  begin_history: "history M i start st0 st0"
| step_history: "history M i start st0 st \<Longrightarrow> fair M i start (op_provider op) C \<Longrightarrow> run_op M op C st = (st', r) \<Longrightarrow>
    (\<forall>p. r \<noteq> Inl (Panicked p)) \<Longrightarrow> history M i start st0 st'"

lemma history_rotation:
  assumes "store_lawful (me_store M)" and "sealable (me_store M)" and "persistent M" and "rotation M i start st0"
  shows "history M i start st0 st \<Longrightarrow> rotation M i start st"
proof (induction rule: history.induct)
  case (step_history st op C st' r)
  from keeps_run_op [OF rotation_steady [OF assms(1,2) step_history.hyps(2)] assms(3), unfolded valid_def, rule_format, OF step_history.IH, unfolded step_history.hyps(3)]
  show ?case using step_history.hyps(4) by (cases r) (auto split: mgr_error.splits)
qed (rule assms(4))

subsection \<open>No token is used twice\<close>

definition issued :: "exchange list \<Rightarrow> string list" where
  "issued xs = List.map_filter (\<lambda>(_, res). case res of Inr r \<Rightarrow> tr_refresh_token r | Inl _ \<Rightarrow> None) xs"

lemma issued_append [simp]: "issued (xs @ ys) = issued xs @ issued ys"
  by (simp add: issued_def List.map_filter_def)

lemma issued_simps [simp]: "issued [] = []"
  "issued ((t, res) # xs) = (case res of Inr r \<Rightarrow> (case tr_refresh_token r of Some n \<Rightarrow> [n] | None \<Rightarrow> []) | Inl _ \<Rightarrow> []) @ issued xs"
  by (auto simp: issued_def List.map_filter_simps split: sum.splits option.splits)

lemma next_token_issued: "next_token cur res \<in> set (cur # issued [(t, res)])"
  by (auto simp: next_token_def unwrap_or_def split: sum.splits option.splits)

lemma chain_tokens: "chain cur xs = Some c \<Longrightarrow> c \<in> set (cur # issued xs) \<and> fst ` set xs \<subseteq> set (cur # issued xs)"
proof (induction cur xs rule: chain.induct)
  case (2 cur tok res rest)
  then have "tok = cur" and c: "chain (next_token cur res) rest = Some c" by (auto split: if_splits)
  with 2(1) [OF \<open>tok = cur\<close> c] next_token_issued [of cur res tok] show ?case by auto
qed simp

lemma rotated_not_reused:
  assumes "chain start (xs @ (t, Inr r) # ys) = Some cur" and "tr_refresh_token r = Some fresh"
    and "distinct (start # issued (xs @ (t, Inr r) # ys))"
  shows "t \<notin> fst ` set ys"
proof -
  from assms(1) have "chain start xs = Some t" and ys: "chain fresh ys = Some cur"
    using assms(2) by (auto simp: chain_append next_token_def bind_eq_Some_conv split: if_splits)
  then have "t \<in> set (start # issued xs)" "fst ` set ys \<subseteq> set (fresh # issued ys)" using chain_tokens by blast+
  with assms(2,3) show ?thesis by auto
qed


subsection \<open>A refresh that rotates the token\<close>

definition rot_provider :: Provider where
  "rot_provider = (oauth_demo ''old'')\<lparr>metadata_json := JObject [(''oauth'', JObject [(''client_id'', JString ''cid''), (''token_url'', JString ''https://t'')])]\<rparr>"

definition rot_answer :: TokenResult where
  "rot_answer = \<lparr>tr_access_token = ''at'', tr_refresh_token = Some ''new'', tr_expires_in = None, tr_account_id = None, tr_account_email = None,
     tr_organization_id = None, tr_organization_name = None\<rparr>"

definition rot_text :: oauth_text where
  "rot_text = \<lparr>b64url = (\<lambda>s. s), b64url_decode = (\<lambda>s. None), digest = (\<lambda>s. s), query_encode = (\<lambda>_. []),
     from_json = (\<lambda>_. Some (JObject [(''access_token'', JString ''at''), (''refresh_token'', JString ''new'')])), json_error_text = []\<rparr>"

definition rot_env :: mgr_env where
  "rot_env = \<lparr>me_store = oauth_demo_env, me_http = demo_http, me_text = rot_text, me_kind = Sqlite, persistent = True, store_text = (\<lambda>_. []),
     utc_max = 2 ^ 90\<rparr>"

definition rot_call :: call_env where
  "rot_call = \<lparr>utc = (\<lambda>_. 0), mono = (\<lambda>_. 0), endpoint = (\<lambda>_. Some (Answered 200 [] [])), legacy_endpoint = (\<lambda>_. Send_Failed []),
     others = (\<lambda>_ st. st), nonces = (\<lambda>_. replicate 12 CHR ''n''), stamp = [], lock_free = (\<lambda>_. True), polls = 0\<rparr>"

definition rot_state :: mgr_state where
  "rot_state = \<lparr>ms_store = \<lparr>db = demo_db\<lparr>providers_t := [rot_provider]\<rparr>, inner = ConfigStore_new\<rparr>, ms_cache = Map.empty, ms_applied = None,
     ms_requests = []\<rparr>"

lemma rot_answered: "token_url c = u \<Longrightarrow> timed_refresh rot_env rot_call c = Inr rot_answer"
  by (simp add: timed_refresh_def rot_env_def rot_call_def do_refresh_token_def parse_token_response_def rot_text_def raw_response_def
      struct_fields_def opt_field_def token_result_def rot_answer_def filter_empty_def or_else_def)

lemma rot_meta: "cleartext oauth_demo_env PURPOSE_OAUTH_REFRESH_TOKEN (encrypted_oauth_meta rot_provider) =
    Some (number_display (JObject [(''refresh_token'', JString ''old'')]))"
  "parse_json oauth_demo_env (number_display (JObject [(''refresh_token'', JString ''old'')])) = Some (JObject [(''refresh_token'', JString ''old'')])"
proof -
  let ?j = "JObject [(''refresh_token'', JString ''old'')]"
  have "wf_json ?j" by simp
  then have "number_value (number_display ?j) = Some ?j" "number_display ?j \<noteq> []"
    using numbers_json_text unfolding json_text_def by blast+
  then show "cleartext oauth_demo_env PURPOSE_OAUTH_REFRESH_TOKEN (encrypted_oauth_meta rot_provider) =
    Some (number_display (JObject [(''refresh_token'', JString ''old'')]))"
  "parse_json oauth_demo_env (number_display (JObject [(''refresh_token'', JString ''old'')])) = Some (JObject [(''refresh_token'', JString ''old'')])"
    by (simp_all add: rot_provider_def oauth_demo_def cleartext_def decrypt_column_def oauth_demo_env_def demo_env_def)
qed

lemma rot_loaded:
  obtains p c where "load_oauth_provider rot_env ''p1'' rot_state = (rot_state, Inr (p, c))" and "refresh_token c = ''old''"
    and "Option.bind (oauth_meta_cleartext p) (parse_json oauth_demo_env) = Some (JObject [(''refresh_token'', JString ''old'')])" and "pr_id p = ''p1''"
proof -
  have v: "to_lowercase ''openai'' = ''openai''" "to_lowercase ''xai'' = ''xai''" by code_simp+
  have p: "get_provider oauth_demo_env ''p1'' (ms_store rot_state) =
      Some (populate_provider_usage_management_key_cleartext oauth_demo_env (populate_provider_oauth_cleartext oauth_demo_env (row_to_provider rot_provider)))"
    by (simp add: get_provider_def select_by_def rot_state_def) (simp add: rot_provider_def oauth_demo_def demo_provider_def)
  let ?p = "populate_provider_usage_management_key_cleartext oauth_demo_env (populate_provider_oauth_cleartext oauth_demo_env (row_to_provider rot_provider))"
  have f: "oauth_meta_cleartext ?p = Some (number_display (JObject [(''refresh_token'', JString ''old'')]))" "pr_id ?p = ''p1''"
    "pr_vendor ?p = ''openai''" "metadata_json ?p = JObject [(''oauth'', JObject [(''client_id'', JString ''cid''), (''token_url'', JString ''https://t'')])]"
    using rot_meta(1) by (simp_all add: populate_provider_usage_management_key_cleartext_def populate_provider_oauth_cleartext_def row_to_provider_def)
      (simp_all add: rot_provider_def oauth_demo_def demo_provider_def)
  obtain c where c: "build_oauth_target_config (parse_json oauth_demo_env) ?p = Some c" "refresh_token c = ''old''"
    by (simp add: build_oauth_target_config_def f validate_provider_auth_mode_def eq_ignore_ascii_case_def v Let_def str_member_def
        oauth_meta_field_def rot_meta(2) split: AuthMode.splits)
  show ?thesis
    by (rule that [of ?p c]) (simp_all add: load_oauth_provider_def mbind_def mread_def rot_env_def p c mret_def f rot_meta(2))
qed


definition no_panic :: "'a mgr \<Rightarrow> bool" where
  "no_panic m \<longleftrightarrow> (\<forall>st p. snd (m st) \<noteq> Inl (Panicked p))"

lemma no_panic_bind: "no_panic m \<Longrightarrow> (\<And>x. no_panic (f x)) \<Longrightarrow> no_panic (mbind m f)"
  unfolding no_panic_def mbind_def by (auto split: prod.splits sum.splits) (metis snd_conv)+

lemma no_panic_basic: "no_panic (mret x)" "no_panic (mfail e)" "no_panic (mread f)" "no_panic (mmodify g)" "no_panic (mrust (Inr y))"
  "no_panic (mstore M s)" "no_panic (commit_token M C cm)"
  by (auto simp: no_panic_def mret_def mfail_def mread_def mmodify_def mrust_def mstore_def commit_token_def map_sum_def split: sum.splits prod.splits)

lemma no_panic_load: "no_panic (load_oauth_provider M i)" "no_panic (load_oauth_config M i)" "no_panic (load_state M i)"
  unfolding load_oauth_config_def load_oauth_provider_def load_state_def
  by (intro no_panic_bind no_panic_basic; simp add: no_panic_basic split: option.split prod.split)+

lemma rot_persist:
  assumes "Option.bind (oauth_meta_cleartext p) (parse_json oauth_demo_env) = Some (JObject kvs)"
  shows "no_panic (persist_token_result rot_env rot_call i p c rot_answer (from_secs DEFAULT_KEEPALIVE_SECS))"
proof -
  have meta: "stored_meta_object rot_env p = mret kvs" by (simp add: stored_meta_object_def rot_env_def assms)
  have times: "expires_at_of rot_env t (tr_expires_in rot_answer) = Inr None"
    "utc_add rot_env (utc rot_call 7) (unwrap_or (chrono_from_std (from_secs DEFAULT_KEEPALIVE_SECS)) (from_secs DEFAULT_KEEPALIVE_SECS)) =
      Inr (from_secs DEFAULT_KEEPALIVE_SECS)" for t
    by (simp_all add: expires_at_of_def rot_answer_def utc_add_def rot_env_def rot_call_def chrono_from_std_def from_secs_def DEFAULT_KEEPALIVE_SECS_def
        nanos_per_sec_def nanos_per_milli_def)
  have seed: "no_panic (seed_cache inst i label a t (tr_expires_in rot_answer) ac em)" for inst label a t ac em
    unfolding seed_cache_def
    by (intro no_panic_bind no_panic_basic) (simp add: seed_tokens_with_identity_def expiry_def rot_answer_def no_panic_basic)
  show ?thesis unfolding persist_token_result_def meta bind_ret times
    by (intro no_panic_bind no_panic_basic no_panic_load seed)
qed

lemma persist_requests: "keeps (\<lambda>st. ms_requests st = rs) (persist_token_result M C i p c r interval)"
proof -
  have "keeps (\<lambda>st. ms_requests st = rs) (commit_token M C cm)" for cm
    by (rule keeps_by_state) (simp add: commit_token_def with_db_def split_beta)
  then show ?thesis unfolding persist_token_result_def stored_meta_object_def
    by (intro keeps_bind keeps_basic keeps_modify keeps_load keeps_seed valid_ret; (simp split: json.split)?) (auto intro: valid_ret valid_fail)
qed

lemma rot_fair: "fair rot_env i start j rot_call"
  by (simp add: fair_def rot_call_def untouched_def NONCE_LEN_def)

lemma rot_run:
  obtains st r where "run_op rot_env (Force_Refresh ''p1'') rot_call rot_state = (st, r)" and "\<forall>p. r \<noteq> Inl (Panicked p)"
    and "exchanges ''p1'' st = [(''old'', Inr rot_answer)]"
proof -
  obtain p c where load: "load_oauth_provider rot_env ''p1'' rot_state = (rot_state, Inr (p, c))" and tok: "refresh_token c = ''old''"
    and meta: "Option.bind (oauth_meta_cleartext p) (parse_json oauth_demo_env) = Some (JObject [(''refresh_token'', JString ''old'')])"
    by (rule rot_loaded)
  define st1 where "st1 = rot_state\<lparr>ms_requests := [(''p1'', ''old'', Inr rot_answer)]\<rparr>"
  obtain st2 r2 where run: "persist_token_result rot_env rot_call ''p1'' p c rot_answer (from_secs DEFAULT_KEEPALIVE_SECS) st1 = (st2, r2)" by fastforce
  have calm: "r2 \<noteq> Inl (Panicked q)" for q
    using rot_persist [OF meta, of "''p1''" c, unfolded no_panic_def, rule_format, of st1 q] run by simp
  have reqs: "ms_requests st2 = [(''p1'', ''old'', Inr rot_answer)]"
    using persist_requests [of "[(''p1'', ''old'', Inr rot_answer)]" rot_env rot_call "''p1''" p c rot_answer "from_secs DEFAULT_KEEPALIVE_SECS",
        unfolded valid_def, rule_format, of st1, unfolded run] calm
    by (cases r2) (auto simp: st1_def split: mgr_error.splits)
  have interval: "keepalive_interval (ms_store rot_state) = from_secs DEFAULT_KEEPALIVE_SECS"
    by (simp add: keepalive_interval_def setting_u64_def get_setting_def rot_state_def demo_db_def DEFAULT_KEEPALIVE_SECS_def)
  have state: "load_state rot_env ''p1'' rot_state = (rot_state, Inr None)"
    by (simp add: load_state_def mbind_def mread_def load_token_state_def select_by_def rot_state_def demo_db_def mstore_def)
  have quiet_others: "others rot_call k st = st" for k st by (simp add: rot_call_def)
  have fresh: "ms_requests rot_state = []" by (simp add: rot_state_def)
  have kind: "me_kind rot_env = Sqlite" "persistent rot_env" by (simp_all add: rot_env_def)
  have perform: "perform_refresh rot_env rot_call ''p1'' p c (from_secs DEFAULT_KEEPALIVE_SECS) rot_state = (st2, r2)"
    using rot_answered [of c] run by (simp add: perform_refresh_def tok mbind_def send_refresh_def quiet_others fresh st1_def Let_def)
  then have "refresh_coordinated rot_env rot_call ''p1'' Force None True rot_state = (st2, r2)"
    by (simp add: refresh_coordinated_def mbind_def mmodify_def quiet_others load mret_def mread_def interval state refresh_when_due_def kind)
  then have "ensure_provider_token rot_env rot_call ''p1'' Force None rot_state = (st2, map_sum (\<lambda>e. e) fst r2)"
    by (simp add: ensure_provider_token_def mbind_def mmodify_def quiet_others load_oauth_config_def load mret_def split_beta map_sum_def split: sum.split)
  moreover have "no_panic (refresh_summary rot_env rot_call ''p1'')"
    by (simp add: refresh_summary_def kind no_panic_bind no_panic_load no_panic_basic)
  moreover have "ms_requests (fst (refresh_summary rot_env rot_call ''p1'' st)) = ms_requests st" for st
    by (simp add: refresh_summary_def mbind_def load_state_def mread_def mstore_def mret_def mfail_def split: prod.splits sum.splits)
  ultimately have "ms_requests (fst (run_op rot_env (Force_Refresh ''p1'') rot_call rot_state)) = ms_requests st2 \<and>
      (\<forall>p. snd (run_op rot_env (Force_Refresh ''p1'') rot_call rot_state) \<noteq> Inl (Panicked p))"
    using calm by (cases r2) (auto simp: force_refresh_def kind mbind_def mret_def no_panic_def split: prod.splits sum.splits, (metis fst_conv snd_conv)+)
  then show ?thesis using that reqs by (cases "run_op rot_env (Force_Refresh ''p1'') rot_call rot_state") (auto simp: exchanges_def)
qed


end
