(* ===== verification/Oauth_Behaviour.thy ===== *)
theory Oauth_Behaviour
  imports Oauth_Rotation
begin

section \<open>What the token manager promises its callers\<close>

text \<open>
  The manager as the executor sees it: it decides about the token of a call without looking at the headers, so the credentials that are sent do not
  depend on the client; it leaves a failed credential alone until the time of the next try.  Further theorems show answers of a token
  endpoint that it cannot cope with, and two providers that share a cache entry.
\<close>

subsection \<open>The manager and the headers\<close>

text \<open>What the executor gets from the manager.  A panic ends the request.\<close>

definition seen :: "mgr_error + 'a \<Rightarrow> string + 'a" where
  "seen r = (case r of Inr x \<Rightarrow> Inr x | Inl (Message e) \<Rightarrow> Inl e | Inl (Panicked _) \<Rightarrow> Inl ''the task panicked'')"

definition manager_headers :: "mgr_env \<Rightarrow> call_env \<Rightarrow> RoutingTarget \<Rightarrow> mgr_state \<Rightarrow> HeaderMap \<Rightarrow> string + bool \<times> HeaderMap" where
  "manager_headers M C target st h = seen (snd (mgr_apply M C target h st))"

lemma remembered: "snd (mbind (remember_applied_access_token M h c) (\<lambda>_. mret x) st) = Inr x"
  by (simp add: remember_applied_access_token_def mbind_def mmodify_def mret_def split: option.splits)

lemma cached_apply_result:
  "cached_apply M inst i c h st = (st, case usable_token inst (cache_key i (cache_label c)) (ms_cache st) of
     None \<Rightarrow> Inr (False, h)
   | Some e \<Rightarrow> map_sum Message (Pair True) (inject_cached (me_http M) h e c))"
  by (simp add: cached_apply_def mbind_def mread_def mtext_def apply_cached_def sum.map_comp comp_def split: option.split)

text \<open>The path without a database decides before it injects, too.\<close>

definition decided :: "http_env \<Rightarrow> OAuthTargetConfig \<Rightarrow> (HeaderMap \<Rightarrow> 's \<times> (cache_error + HeaderMap) \<times> 'r) \<Rightarrow> bool" where
  "decided E c f \<longleftrightarrow> (\<exists>s r. (\<exists>e. \<forall>h. f h = (s, Inl e, r)) \<or>
     (\<exists>tok ac. \<forall>h. f h = (s, map_sum Cache_Message (\<lambda>h. h) (inject_token E h tok ac c), r)))"

lemma decided_basic:
  "decided E c (\<lambda>h. (s, Inl e, r))" "decided E c (\<lambda>h. (s, map_sum Cache_Message (\<lambda>h. h) (inject_token E h tok ac c), r))"
  unfolding decided_def by blast+

lemma decidedE:
  assumes "decided E c f"
  obtains (fails) s r e where "\<And>h. f h = (s, Inl e, r)"
    | (injects) s r tok ac where "\<And>h. f h = (s, map_sum Cache_Message (\<lambda>h. h) (inject_token E h tok ac c), r)"
  using assms unfolding decided_def by blast

lemma cache_refresh_decided: "decided E c (\<lambda>h. cache_refresh E ep os now h i label c cache)"
proof -
  let ?rt = "unwrap_or (map_option ct_refresh_token (cache (cache_key i label))) (refresh_token c)"
  show ?thesis
  proof (cases "?rt = []")
    case False
    show ?thesis
    proof (cases "ep ?rt")
      case (Inr r)
      show ?thesis using False
        by (cases "expiry now (tr_expires_in r)") (simp_all add: cache_refresh_def Let_def Inr decided_basic)
    qed (use False in \<open>simp add: cache_refresh_def Let_def decided_basic\<close>)
  qed (simp add: cache_refresh_def Let_def decided_basic)
qed

lemma cache_apply_decided: "decided E c (\<lambda>h. cache_apply E ep os clock h i label c cache)"
proof (cases "usable_token (clock 0) (cache_key i label) cache")
  case None
  then show ?thesis
    by (cases "usable_token (clock 1) (cache_key i label) (os 0 cache)")
      (simp_all add: cache_apply_def Let_def inject_cached_def decided_basic cache_refresh_decided)
qed (simp add: cache_apply_def Let_def inject_cached_def decided_basic)

text \<open>What an injection gives the caller, once the token is remembered.\<close>

lemma injected_cached:
  assumes "usable_token inst (cache_key i (cache_label c)) (ms_cache st) = Some e"
  shows "seen (snd (mbind (cached_apply M inst i c h) (\<lambda>(hit, h1). if hit then mbind (remember_applied_access_token M h1 c) (\<lambda>_. mret (True, h1)) else m h1) st)) =
    outcome_apply (me_http M) (Inject (ct_access_token e) (or_else (ct_account_id e) (account_id c)) c) h"
  by (cases "inject_cached (me_http M) h e c")
    (simp_all add: mbind_def [of "cached_apply _ _ _ _ _"] cached_apply_result assms seen_def inject_cached_def remembered)

lemma legacy_decided:
  "\<exists>out. \<forall>h. seen (snd (mbind (legacy_apply M C i c h) (\<lambda>h2. mbind (remember_applied_access_token M h2 c) (\<lambda>_. mret (True, h2))) st)) =
     outcome_apply (me_http M) out h"
proof -
  let ?E = "me_http M" and ?m = "\<lambda>h. mbind (legacy_apply M C i c h) (\<lambda>h2. mbind (remember_applied_access_token M h2 c) (\<lambda>_. mret (True, h2)))"
  let ?run = "\<lambda>h. cache_apply ?E (legacy_refresh M C c) (\<lambda>k cache. ms_cache (others C k (st\<lparr>ms_cache := cache\<rparr>))) (\<lambda>k. mono C (6 + k)) h i
    (cache_label c) c (cache_seed i (cache_label c) (refresh_token c) (ms_cache st))"
  have "decided ?E c ?run" by (rule cache_apply_decided)
  then show ?thesis
  proof (cases rule: decidedE)
    case (fails s r e)
    have "seen (snd (?m h st)) = outcome_apply ?E (Token_Error (case e of Cache_Message m \<Rightarrow> m | _ \<Rightarrow> ''the task panicked'')) h" for h
      by (simp add: mbind_def legacy_apply_def fails seen_def Let_def split: cache_error.split)
    then show ?thesis by blast
  next
    case (injects s r tok ac)
    have "seen (snd (?m h st)) = outcome_apply ?E (Inject tok ac c) h" for h
      by (cases "inject_token ?E h tok ac c")
        (simp_all add: mbind_def [of "legacy_apply _ _ _ _ _"] legacy_apply_def injects seen_def remembered Let_def)
    then show ?thesis by blast
  qed
qed

lemma durable_decided:
  "\<exists>out. \<forall>h. seen (snd (mbind m (\<lambda>config. mbind (cached_apply M inst i config h) (\<lambda>(hit, h2).
       if hit then mbind (remember_applied_access_token M h2 config) (\<lambda>_. mret (True, h2)) else mfail text)) st)) = outcome_apply (me_http M) out h"
proof -
  let ?E = "me_http M" and ?m = "\<lambda>h. mbind m (\<lambda>config. mbind (cached_apply M inst i config h) (\<lambda>(hit, h2).
       if hit then mbind (remember_applied_access_token M h2 config) (\<lambda>_. mret (True, h2)) else mfail text))"
  obtain st1 r where run: "m st = (st1, r)" by fastforce
  show ?thesis
  proof (cases r)
    case (Inl e)
    have "\<forall>h. seen (snd (?m h st)) = outcome_apply ?E (Token_Error (case e of Message m \<Rightarrow> m | _ \<Rightarrow> ''the task panicked'')) h"
      by (simp add: mbind_def run Inl seen_def split: mgr_error.split)
    then show ?thesis by blast
  next
    case (Inr config)
    have bound: "mbind m f st = f config st1" for f by (simp add: mbind_def run Inr)
    show ?thesis
    proof (cases "usable_token inst (cache_key i (cache_label config)) (ms_cache st1)")
      case (Some e)
      show ?thesis unfolding bound by (intro exI allI) (rule injected_cached [OF Some])
    next
      case None
      have "\<forall>h. seen (snd (?m h st)) = outcome_apply ?E (Token_Error text) h"
        unfolding bound by (simp add: mbind_def cached_apply_result None mfail_def seen_def)
      then show ?thesis by blast
    qed
  qed
qed

lemma headers_decided_first: "\<exists>out. \<forall>h. manager_headers M C target st h = outcome_apply (me_http M) out h"
proof (cases "oauth target")
  case None
  then have "\<forall>h. manager_headers M C target st h = outcome_apply (me_http M) Not_OAuth h"
    by (simp add: manager_headers_def mgr_apply_def mret_def seen_def)
  then show ?thesis by blast
next
  case target: (Some c)
  let ?i = "provider_id target"
  show ?thesis
  proof (cases "usable_token (mono C 0) (cache_key ?i (cache_label c)) (ms_cache st)")
    case (Some e)
    show ?thesis unfolding manager_headers_def mgr_apply_def target option.case
      by (intro exI allI) (rule injected_cached [OF Some])
  next
    case None
    have missed: "mbind (cached_apply M (mono C 0) ?i c h) f st = f (False, h) st" for h and f :: "bool \<times> HeaderMap \<Rightarrow> (bool \<times> HeaderMap) mgr"
      by (simp add: mbind_def cached_apply_result None)
    have swap: "(if \<not> b then x else y) = (if b then y else x)" for b and x y :: "(bool \<times> HeaderMap) mgr" by simp
    show ?thesis
      unfolding manager_headers_def mgr_apply_def target option.case missed prod.case swap
      using legacy_decided [of M C ?i c st] by (cases "persistent M") (simp_all add: durable_decided)
  qed
qed

interpretation manager: token_service "me_http M" "manager_headers M C target st" for M C target st
  by unfold_locales (rule headers_decided_first)


text \<open>A target in OAuth mode whose token is cached.\<close>

definition warm_config :: OAuthTargetConfig where
  "warm_config = \<lparr>upstream_transport = Http, egress_profile = Standard, token_url = ''https://t'', client_id = ''cid'', client_secret = None,
     refresh_token = ''old'', scopes = [], token_request_style = Form, authorization_header = None, authorization_prefix = None,
     oauth_extra_headers = [], account_id = None\<rparr>"

definition warm_target :: RoutingTarget where
  "warm_target = key_target\<lparr>oauth := Some warm_config\<rparr>"

definition warm_state :: mgr_state where
  "warm_state = rot_state\<lparr>ms_cache := [cache_key ''p1'' ''__provider__'' \<mapsto> \<lparr>ct_access_token = ''at'', ct_refresh_token = ''old'', ct_expires_at = None,
     ct_account_id = None, ct_account_email = None\<rparr>]\<rparr>"

lemma warm_injects: "manager_headers rot_env rot_call warm_target warm_state h = Inr (True, header_insert ''authorization'' ''Bearer at'' h)"
proof -
  let ?e = "\<lparr>ct_access_token = ''at'', ct_refresh_token = ''old'', ct_expires_at = None, ct_account_id = None, ct_account_email = None\<rparr>"
  have name: "to_lowercase ''authorization'' = ''authorization''" by code_simp
  have warm: "usable_token (mono rot_call 0) (cache_key (provider_id warm_target) (cache_label warm_config)) (ms_cache warm_state) = Some ?e"
    by (simp add: usable_token_def warm_state_def warm_target_def key_target_def cache_label_def warm_config_def is_expiring_def)
  have target: "oauth warm_target = Some warm_config" by (simp add: warm_target_def)
  have "manager_headers rot_env rot_call warm_target warm_state h =
      outcome_apply (me_http rot_env) (Inject (ct_access_token ?e) (or_else (ct_account_id ?e) (account_id warm_config)) warm_config) h"
    unfolding manager_headers_def mgr_apply_def target option.case by (rule injected_cached [OF warm])
  then show ?thesis
    by (simp add: rot_env_def inject_token_def checked_insert_def demo_http_def warm_config_def header_name_def bearer_prefix_def name)
qed

lemma warm_profile: "egress_profile warm_config = Standard"
  by (simp add: warm_config_def)

lemma warm_sent:
  "\<exists>h. upstream_request_headers demo_http egress_registry (manager_headers rot_env rot_call warm_target warm_state) warm_target (egress_demo client)
     no_headers = Inr h"
  using demo_no_provider warm_injects
  by (simp add: warm_profile upstream_request_headers_def apply_provider_auth_def anthropic_stage_def anthropic_is_enabled_def lookup_key_def
      key_target_def default_endpoint_def ProtocolEndpoint_new_def warm_target_def)


subsection \<open>A credential that failed is left alone\<close>

text \<open>The provider's row says not to try before \<open>t\<close>, and the exchanges with the endpoint so far are \<open>xs\<close>.\<close>

definition resting :: "string \<Rightarrow> nat \<Rightarrow> exchange list \<Rightarrow> mgr_state \<Rightarrow> bool" where
  "resting i t xs st \<longleftrightarrow> exchanges i st = xs \<and>
     (\<exists>row. select_by tk_provider_id i (tokens_t (db (ms_store st))) = Some row \<and> next_retry_at row = Some t)"

lemma resting_cong:
  assumes "resting i t xs st" and "tokens_t (db (ms_store st')) = tokens_t (db (ms_store st))" and "ms_requests st' = ms_requests st"
  shows "resting i t xs st'"
  using assms by (simp add: resting_def exchanges_def)

lemma resting_state:
  assumes "resting i t xs st" and "load_token_state env i (db (ms_store st)) = Inr s"
  shows "\<exists>row. s = Some row \<and> ts_next_retry_at row = Some t"
  using assms by (auto simp: resting_def load_token_state_def Let_def split: sum.splits if_splits)

lemma resting_backoff: "j \<noteq> i \<Longrightarrow> resting i t xs st \<Longrightarrow> resting i t xs (with_db (record_refresh_failure now j u) st)"
  by (simp add: resting_def with_db_def record_refresh_failure_def select_upsert exchanges_def)

lemma resting_refresh: "resting i t xs st \<Longrightarrow> resting i t xs (st\<lparr>ms_store := refresh env (ms_store st)\<rparr>)"
  by (erule resting_cong) (simp_all add: refresh_def Let_def bump_epoch_def)

lemma status_tokens: "tokens_t (db (fst (set_provider_oauth_status_if_unchanged env now ts nonce p status reason st))) = tokens_t (db st)"
  by (simp add: set_provider_oauth_status_if_unchanged_def set_provider_oauth_meta_if_unchanged_def refresh_def Let_def bump_epoch_def
      split: sum.splits prod.splits)

text \<open>What is asked of a call: its clock stays before \<open>t\<close>, and others leave the rest of the credential alone.\<close>

definition calm :: "string \<Rightarrow> nat \<Rightarrow> exchange list \<Rightarrow> call_env \<Rightarrow> bool" where
  "calm i t xs C \<longleftrightarrow> (\<forall>k. utc C k < t) \<and> (\<forall>k st. resting i t xs st \<longrightarrow> resting i t xs (others C k st))"

lemma resting_send:
  assumes "calm i t xs C" and "j \<noteq> i"
  shows "keeps (resting i t xs) (send_refresh M C j c)"
  by (rule keeps_by_state) (use assms in \<open>simp add: send_refresh_def Let_def calm_def resting_def\<close>)

lemma resting_commit:
  assumes "oc_provider_id cm \<noteq> i"
  shows "keeps (resting i t xs) (commit_token M C cm)"
  by (rule keeps_by_state)
    (use assms in \<open>auto simp: commit_token_def with_db_def resting_def exchanges_def commit_success_def Let_def select_upsert split: sum.splits\<close>)

lemma resting_persist:
  assumes "j \<noteq> i"
  shows "keeps (resting i t xs) (persist_token_result M C j p c r interval)"
proof -
  have cache: "resting i t xs st \<Longrightarrow> resting i t xs (st\<lparr>ms_cache := cache\<rparr>)" for st cache by (simp add: resting_def exchanges_def)
  have meta: "keeps (resting i t xs) (stored_meta_object M p)"
    unfolding stored_meta_object_def by (auto intro!: valids split: json.split)
  have commit: "keeps (resting i t xs) (commit_token M C \<lparr>oc_provider_id = j, oc_access_token = a, oc_expires_at = e, oc_meta = m, oc_keepalive_at = k\<rparr>)"
    for a e m k by (rule resting_commit) (simp add: assms)
  show ?thesis unfolding persist_token_result_def
    by (intro keeps_bind meta keeps_basic commit keeps_modify resting_refresh keeps_load keeps_seed cache valid_ret; assumption)
qed

lemma resting_note:
  assumes "j \<noteq> i" and "pr_id p = j"
  shows "keeps (resting i t xs) (note_refresh_failure M C p k)"
proof -
  have "resting i t xs st \<Longrightarrow> resting i t xs (st\<lparr>ms_store := fst (set_provider_oauth_status_if_unchanged env now ts nonce p status reason (ms_store st))\<rparr>)"
    for st env now ts nonce status reason by (erule resting_cong) (simp_all add: status_tokens)
  then show ?thesis unfolding note_refresh_failure_def note_backoff_def note_status_def assms(2)
    by (intro keeps_bind keeps_basic keeps_sum keeps_modify resting_backoff [OF assms(1)] valid_ret)
qed

lemma resting_due_other:
  assumes "calm i t xs C" and "j \<noteq> i" and "pr_id p = j"
  shows "keeps (resting i t xs) (refresh_when_due M C j mode p c interval s)"
  unfolding refresh_when_due_def perform_refresh_def Let_def
  by (intro keeps_if keeps_bind keeps_sum resting_send [OF assms(1,2)] resting_note [OF assms(2,3)] resting_persist [OF assms(2)] valid_ret valid_fail)

lemma resting_active:
  "calm i t xs C \<Longrightarrow> ts_next_retry_at row = Some t \<Longrightarrow> refresh_backoff_is_active (utc C n) row"
  by (simp add: calm_def refresh_backoff_is_active_def)

lemma resting_due:
  assumes calm: "calm i t xs C" and mode: "j = i \<Longrightarrow> mode \<noteq> Force"
  shows "valid (\<lambda>st. resting i t xs st \<and> config_of M j p c st \<and> load_token_state (me_store M) j (db (ms_store st)) = Inr s)
      (refresh_when_due M C j mode p c interval s) (\<lambda>_. resting i t xs) (resting i t xs)"
proof (rule valid_pointwise)
  fix st assume st: "resting i t xs st \<and> config_of M j p c st \<and> load_token_state (me_store M) j (db (ms_store st)) = Inr s"
  show "valid (\<lambda>s. s = st) (refresh_when_due M C j mode p c interval s) (\<lambda>_. resting i t xs) (resting i t xs)"
  proof (cases "j = i")
    case True
    then obtain row where "s = Some row" "ts_next_retry_at row = Some t" using resting_state st by blast
    with resting_active [OF calm] mode [OF True] st show ?thesis by (auto simp: refresh_when_due_def valid_def mret_def mfail_def)
  next
    case False
    have id: "pr_id p = j" using st get_provider_id by (auto simp: config_of_def)
    show ?thesis by (rule valid_weaken [OF resting_due_other [OF calm False id]]) (use st in auto)
  qed
qed

lemma resting_preflight:
  assumes calm: "calm i t xs C"
  shows "keeps (resting i t xs) (preflight_backoff M C j)"
proof -
  have before: "resting i t xs st \<Longrightarrow> resting i t xs (others C 1 st)" for st using calm by (simp add: calm_def)
  let ?note = "\<lambda>s. if (case s of Some s \<Rightarrow> refresh_backoff_is_active (utc C 15) s | None \<Rightarrow> False) then mret ()
     else mbind (mrust (retry_time M (utc C 16) TransientFailure (case s of Some s \<Rightarrow> ts_failure_count s | None \<Rightarrow> 0))) (\<lambda>t.
           mmodify (with_db (record_refresh_failure (utc C 17) j t)))"
  have noted: "valid (\<lambda>st. resting i t xs st \<and> True \<and> load_token_state (me_store M) j (db (ms_store st)) = Inr s) (?note s)
      (\<lambda>_. resting i t xs) (resting i t xs)" for s
  proof (cases "j = i")
    case True
    show ?thesis
      by (rule valid_pointwise) (use True resting_active [OF calm] resting_state in \<open>fastforce simp: valid_def mret_def\<close>)
  next
    case False
    have "keeps (resting i t xs) (?note s)"
      by (intro keeps_if keeps_bind keeps_basic keeps_modify resting_backoff [OF False] valid_ret)
    then show ?thesis by (rule valid_weaken) auto
  qed
  have "keeps (resting i t xs) (mbind (load_state M j) ?note)"
    using valid_bind [OF valid_load_state [of "resting i t xs" "\<lambda>_. True"] noted] by simp
  then show ?thesis unfolding preflight_backoff_def
    by (intro keeps_bind [of _ "mmodify _"] keeps_bind [of _ "mread _"] keeps_modify before keeps_if keeps_basic keeps_option valid_ret)
qed

lemma resting_steady:
  assumes "calm i t xs C" and "j = i \<Longrightarrow> mode \<noteq> Force"
  shows "steady M C j mode (resting i t xs)"
  using assms(1) resting_due [OF assms] resting_preflight [OF assms(1)]
  unfolding steady_def by (auto simp: calm_def resting_def exchanges_def)


definition rest_row :: token_row where
  "rest_row = \<lparr>tk_provider_id = ''p1'', encrypted_access_token = [], access_expires_at = None, credential_version = 0, last_refresh_at = None,
     next_keepalive_at = None, next_retry_at = Some 10, failure_count = 1, tk_updated_at = 0\<rparr>"

definition rest_state :: mgr_state where
  "rest_state = with_db (tokens_t_update (\<lambda>_. [rest_row])) rot_state"

lemma load_same_tables:
  assumes "providers_t (db (ms_store st')) = providers_t (db (ms_store st))" and "load_oauth_provider M i st = (st, Inr x)"
  shows "load_oauth_provider M i st' = (st', Inr x)"
  using assms by (auto simp: load_oauth_provider_def mbind_def mread_def get_provider_def mret_def mfail_def split: option.splits)

lemma rest_skipped: "run_op rot_env (Keepalive_Op ''p1'') rot_call rest_state = (rest_state, Inr ())"
proof -
  obtain p c where "load_oauth_provider rot_env ''p1'' rot_state = (rot_state, Inr (p, c))" by (rule rot_loaded)
  then have load: "load_oauth_provider rot_env ''p1'' rest_state = (rest_state, Inr (p, c))"
    by (rule load_same_tables [rotated]) (simp add: rest_state_def with_db_def)
  have row: "select_by tk_provider_id ''p1'' (tokens_t (db (ms_store rest_state))) = Some rest_row"
    by (simp add: rest_state_def with_db_def select_by_def rest_row_def)
  have state: "load_state rot_env ''p1'' rest_state = (rest_state, Inr (Some \<lparr>ts_access_token = [], ts_expires_at = None, ts_next_keepalive_at = None,
      ts_next_retry_at = Some 10, ts_failure_count = 1\<rparr>))"
    by (simp add: load_state_def mbind_def mread_def load_token_state_def row mstore_def) (simp add: rest_row_def)
  have env: "me_kind rot_env = Sqlite" "persistent rot_env" "others rot_call k st = st" "utc rot_call k = 0" for k st
    by (simp_all add: rot_env_def rot_call_def)
  have "refresh_coordinated rot_env rot_call ''p1'' Keepalive None False rest_state = (rest_state, Inr (c, Skipped))"
    by (simp add: refresh_coordinated_def mbind_def mmodify_def env load mret_def mread_def state refresh_when_due_def refresh_backoff_is_active_def)
  then show ?thesis by (simp add: mbind_def try_keepalive_provider_def env mret_def)
qed


subsection \<open>Providers that share a cache entry\<close>

text \<open>
  Ids without a colon never share an entry.  Ids are free text, though: with a colon in an id two providers can, and then each sees, replaces and
  invalidates the other's tokens.
\<close>

lemma cache_keys_distinct:
  assumes "CHR '':'' \<notin> set i" and "CHR '':'' \<notin> set j" and "cache_key i a = cache_key j b"
  shows "i = j \<and> a = b"
proof -
  have "takeWhile (\<lambda>x. x \<noteq> CHR '':'') (cache_key k c) = k" if "CHR '':'' \<notin> set k" for k c
    using that by (auto simp: cache_key_def takeWhile_append)
  with assms have "i = j" by metis
  with assms(3) show ?thesis by (simp add: cache_key_def)
qed

theorem cache_entries_shared:
  "\<exists>i j a b. i \<noteq> j \<and> (\<forall>inst h M c cache. apply_cached M inst h i a c cache = apply_cached M inst h j b c cache)"
proof -
  have "cache_key ''a'' ''b:c'' = cache_key ''a:b'' ''c''" by (simp add: cache_key_def)
  then have "apply_cached M inst h ''a'' ''b:c'' c cache = apply_cached M inst h ''a:b'' ''c'' c cache" for inst h M c cache
    by (simp only: apply_cached_def)
  then show ?thesis by (intro exI [of _ "''a''"] exI [of _ "''a:b''"] exI [of _ "''b:c''"] exI [of _ "''c''"]) simp
qed

subsection \<open>Lifetimes the manager cannot cope with\<close>

text \<open>The entry that a refresh has left for this configuration is not used.\<close>

definition stale :: "call_env \<Rightarrow> string \<Rightarrow> OAuthTargetConfig \<Rightarrow> mgr_state \<Rightarrow> bool" where
  "stale C i c st \<longleftrightarrow> usable_token (mono C 4) (cache_key i (cache_label c)) (ms_cache st) = None"

lemma short_seed:
  assumes "mono C 3 \<le> mono C 4" and "d \<le> from_secs 60"
  shows "valid P (seed_cache (mono C 3) i (cache_label c) a t (Some d) ac em) (\<lambda>_. stale C i c) (\<lambda>_. True)"
  using assms
  by (auto simp: valid_def seed_cache_def mbind_def mread_def mrust_def mmodify_def seed_tokens_with_identity_def expiry_def instant_add_def map_sum_def
      stale_def usable_token_def is_expiring_def duration_since_def REFRESH_LEEWAY_def split: sum.splits if_splits)

lemma short_persist:
  assumes "mono C 3 \<le> mono C 4" and "tr_expires_in r = Some d" and "d \<le> from_secs 60"
  shows "valid (\<lambda>_. True) (persist_token_result M C i p c r interval) (\<lambda>(c, _). stale C i c) (\<lambda>_. True)"
proof -
  have any: "valid (\<lambda>_. True) m (\<lambda>_ _. True) (\<lambda>_. True)" for m :: "'a mgr"
    by (simp add: valid_def split: prod.split sum.split mgr_error.split)
  show ?thesis unfolding persist_token_result_def assms(2)
    by (intro valid_bind [OF any] valid_bind [OF short_seed [OF assms(1,3)]] valid_ret) simp
qed

text \<open>A token endpoint whose tokens live for at most a minute.\<close>

definition short_lived :: "mgr_env \<Rightarrow> call_env \<Rightarrow> bool" where
  "short_lived M C \<longleftrightarrow> mono C 3 \<le> mono C 4 \<and> (\<forall>k st. ms_requests (others C k st) = ms_requests st) \<and>
     (\<forall>c r. timed_refresh M C c = Inr r \<longrightarrow> (\<exists>d. tr_expires_in r = Some d \<and> d \<le> from_secs 60))"

abbreviation unsent :: "(string \<times> exchange) list \<Rightarrow> mgr_state \<Rightarrow> bool" where
  "unsent rs st \<equiv> ms_requests st = rs"

definition unsent_or_stale :: "call_env \<Rightarrow> string \<Rightarrow> (string \<times> exchange) list \<Rightarrow> OAuthTargetConfig \<Rightarrow> mgr_state \<Rightarrow> bool" where
  "unsent_or_stale C i rs c st \<longleftrightarrow> unsent rs st \<or> stale C i c st"

lemma short_perform:
  assumes "short_lived M C"
  shows "valid (\<lambda>_. True) (perform_refresh M C i p c interval) (\<lambda>(c, _). stale C i c) (\<lambda>_. True)"
proof -
  have order: "mono C 3 \<le> mono C 4" using assms by (simp add: short_lived_def)
  have sent: "valid (\<lambda>_. True) (send_refresh M C i c) (\<lambda>res _. res = timed_refresh M C c) (\<lambda>_. True)"
    by (simp add: valid_def send_refresh_def Let_def)
  have persist: "valid (\<lambda>_. Inr r = timed_refresh M C c) (persist_token_result M C i p c r interval) (\<lambda>(c, _). stale C i c) (\<lambda>_. True)" for r
  proof (cases "timed_refresh M C c = Inr r")
    case True
    then obtain d where "tr_expires_in r = Some d" "d \<le> from_secs 60" using assms unfolding short_lived_def by blast
    from valid_weaken [OF short_persist [OF order this]] show ?thesis by simp
  qed (simp add: valid_def)
  have fails: "valid P (let k = classify_refresh_failure e in mbind (note_refresh_failure M C p k) (\<lambda>_. mfail (msg k)))
      (\<lambda>(c, _). stale C i c) (\<lambda>_. True)" for e P msg
    by (simp add: valid_def Let_def mbind_def mfail_def split: prod.split sum.split mgr_error.split)
  show ?thesis unfolding perform_refresh_def
    by (intro valid_if valid_fail valid_bind [OF sent]) (auto simp: persist fails split: sum.split)
qed

lemma short_due:
  assumes "short_lived M C"
  shows "valid (unsent rs) (refresh_when_due M C i mode p c interval s) (\<lambda>(c, _). unsent_or_stale C i rs c) (\<lambda>_. True)"
  unfolding refresh_when_due_def
  by (intro valid_if valid_ret valid_fail valid_weaken [OF short_perform [OF assms]]) (auto simp: unsent_or_stale_def)

lemma unsent_seed: "keeps (unsent rs) (seed_shared now inst i c s)" "keeps (unsent rs) (reuse_shared_token M now later inst i c rejected)"
  by (intro keeps_seed; simp)+

lemma unsent_ret: "valid (unsent rs) (mret (c, out)) (\<lambda>(c, _). unsent_or_stale C i rs c) R"
  by (rule valid_ret) (simp add: unsent_or_stale_def)

lemma valid_after:
  assumes "keeps I m" and "\<And>x. valid I (f x) Q (\<lambda>_. True)"
  shows "valid I (mbind m f) Q (\<lambda>_. True)"
  by (rule valid_bind [OF valid_weaken [OF assms(1)] assms(2)]) auto

lemma valid_after_pair: "(\<And>a b. valid I (f a b) Q R) \<Longrightarrow> valid I (case x of (a, b) \<Rightarrow> f a b) Q R"
  by (cases x) simp

lemma short_locked:
  assumes "short_lived M C"
  shows "valid (unsent rs) (refresh_locked M C i mode rejected interval) (\<lambda>(c, _). unsent_or_stale C i rs c) (\<lambda>_. True)"
  unfolding refresh_locked_def
  by (intro valid_after valid_after_pair keeps_load valid_if unsent_seed unsent_ret short_due [OF assms])

lemma short_attempts:
  assumes "short_lived M C"
  shows "valid (unsent rs) (postgres_attempts M C i mode rejected wait c interval k left) (\<lambda>(c, _). unsent_or_stale C i rs c) (\<lambda>_. True)"
proof (induction left arbitrary: k)
  case 0
  show ?case unfolding postgres_attempts.simps [of _ _ _ _ _ _ _ _ _ 0] nat.case
    by (intro valid_if short_locked [OF assms] valid_after unsent_seed unsent_ret valid_fail) simp_all
next
  case (Suc rest)
  have "keeps (unsent rs) (mmodify (others C (10 + k)))" by (rule keeps_modify) (use assms in \<open>simp add: short_lived_def\<close>)
  then show ?case unfolding postgres_attempts.simps [of _ _ _ _ _ _ _ _ _ "Suc rest"] nat.case
    by (intro valid_if short_locked [OF assms] valid_after unsent_seed unsent_ret Suc.IH)
qed

lemma short_ensure:
  assumes "short_lived M C"
  shows "valid (unsent rs) (ensure_provider_token M C i mode rejected) (unsent_or_stale C i rs) (\<lambda>_. True)"
proof -
  have others: "keeps (unsent rs) (mmodify (others C k))" for k by (rule keeps_modify) (use assms in \<open>simp add: short_lived_def\<close>)
  have kinds: "valid (unsent rs) (case me_kind M of
       Sqlite \<Rightarrow> mbind (load_state M i) (refresh_when_due M C i mode p c interval)
     | Postgres \<Rightarrow> postgres_attempts M C i mode rejected True c interval 0 (polls C)) (\<lambda>(c, _). unsent_or_stale C i rs c) (\<lambda>_. True)" for p c interval
    by (cases "me_kind M") (simp_all add: short_attempts [OF assms] valid_after [OF keeps_load(3) short_due [OF assms]])
  have coordinated: "valid (unsent rs) (refresh_coordinated M C i mode rejected True) (\<lambda>(c, _). unsent_or_stale C i rs c) (\<lambda>_. True)"
    unfolding refresh_coordinated_def
    by (intro valid_after others valid_after_pair keeps_load keeps_if keeps_basic unsent_seed valid_if unsent_ret valid_ret kinds)
  show ?thesis unfolding ensure_provider_token_def
    by (intro valid_after others keeps_load keeps_if unsent_seed valid_ret valid_if valid_bind [OF coordinated])
      (auto simp: unsent_or_stale_def intro: valid_ret split: prod.split)
qed

text \<open>
  A token that lives for a minute or less is never used: the manager asks the endpoint for it, stores it, then takes it for expired and
  fails the request.  So every request to such a provider is answered with an error after a refresh of its own.
\<close>

theorem short_lived_tokens_rejected:
  assumes "persistent M" and "short_lived M C" and "mgr_apply M C target h st = (st', Inr x)"
  shows "ms_requests st' = ms_requests st"
proof -
  let ?rs = "ms_requests st" and ?i = "provider_id target"
  have durable: "(if \<not> persistent M then a else b) = b" for a b :: "(bool \<times> HeaderMap) mgr" using assms(1) by simp
  have remember: "keeps (unsent ?rs) (remember_applied_access_token M h c)" for h c
    unfolding remember_applied_access_token_def by (intro keeps_option keeps_modify valid_ret) simp_all
  have last: "valid (unsent_or_stale C ?i ?rs c) (mbind (cached_apply M (mono C 4) ?i c h) (\<lambda>(hit, h2).
      if \<not> hit then mfail ''OAuth refresh completed without a usable access token''
      else mbind (remember_applied_access_token M h2 c) (\<lambda>_. mret (True, h2)))) (\<lambda>_. unsent ?rs) (\<lambda>_. True)" for c
  proof (rule valid_bind)
    show "valid (unsent_or_stale C ?i ?rs c) (cached_apply M (mono C 4) ?i c h) (\<lambda>(hit, _) st. hit \<longrightarrow> unsent ?rs st) (\<lambda>_. True)"
      by (auto simp: valid_def cached_apply_result unsent_or_stale_def stale_def map_sum_def split: option.splits sum.splits)
    show "valid ((\<lambda>(hit, _) st. hit \<longrightarrow> unsent ?rs st) x) (case x of (hit, h2) \<Rightarrow>
      if \<not> hit then mfail ''OAuth refresh completed without a usable access token''
      else mbind (remember_applied_access_token M h2 c) (\<lambda>_. mret (True, h2))) (\<lambda>_. unsent ?rs) (\<lambda>_. True)" for x :: "bool \<times> HeaderMap"
      by (cases x) (auto intro!: valid_fail valid_after remember valid_ret)
  qed
  have "valid (unsent ?rs) (mgr_apply M C target h) (\<lambda>_. unsent ?rs) (\<lambda>_. True)"
    unfolding mgr_apply_def durable
    by (cases "oauth target")
      (auto intro!: valid_ret valid_after keeps_cached_apply remember valid_bind [OF short_ensure [OF assms(2)] last])
  then show ?thesis using assms(3) by (auto simp: valid_def)
qed

text \<open>
  A lifetime that leads beyond the last representable time panics after the endpoint has answered and before anything is stored: with the
  answer, the new refresh token is lost, while the database keeps the one that the endpoint has replaced.
\<close>

theorem huge_lifetime_loses_token:
  assumes "refresh_token c \<noteq> []" and "Option.bind (oauth_meta_cleartext p) (parse_json (me_store M)) = Some (JObject kvs)"
    and "timed_refresh M C c = Inr r" and "tr_expires_in r = Some d" and "d \<le> (2 ^ 63 - 1) * nanos_per_milli" and "utc C 6 + d > utc_max M"
    and "\<And>st. others C 2 st = st"
  shows "\<exists>st'. perform_refresh M C i p c interval st = (st', Inl (Panicked Overflow_Adding_Duration)) \<and>
    ms_requests st' = ms_requests st @ [(i, refresh_token c, Inr r)] \<and> db (ms_store st') = db (ms_store st)"
  using assms
  by (simp add: perform_refresh_def mbind_def send_refresh_def Let_def persist_token_result_def stored_meta_object_def mret_def expires_at_of_def
      chrono_from_std_def utc_add_def mrust_def)

end
