(* ===== verification/Spec2Isabelle.thy ===== *)
theory Spec2Isabelle
  imports Ingress Transcode Brute_Force Lossy Oauth_Behaviour
begin

text \<open>
  \<^bold>\<open>tiygate: a verification of the gateway's core.\<close>

  tiygate is an LLM gateway.  A client speaks one of four protocol suites (OpenAI chat completions, OpenAI
  responses, Anthropic messages, Gemini); the gateway resolves the virtual model of the request to a route,
  a list of upstream targets, and executes the request on them, converting between suites where needed.
  An admin interface changes its configuration.

  \<^bold>\<open>The parts and the theories that model them.\<close>  Paths are relative to \<^verbatim>\<open>src/crates\<close>.

  \<^item> \<^verbatim>\<open>Prelude\<close>: what the code uses of the Rust standard library (machine integers, instants and durations,
    string operations, panics as values) and the interface of enums with a string form.
    \<^verbatim>\<open>Json\<close>, \<^verbatim>\<open>Json_Text\<close>: \<^verbatim>\<open>serde_json::Value\<close> and its text.  \<^verbatim>\<open>Utf8\<close>: the decoding of byte strings.
  \<^item> \<^verbatim>\<open>Protocol\<close>, \<^verbatim>\<open>Ir_Types\<close>: the data of \<^verbatim>\<open>core/src/protocol/mod.rs\<close> and \<^verbatim>\<open>core/src/ir/mod.rs\<close>: suites,
    endpoints, capability tables, the intermediate representation of requests and responses, reasoning
    budgets, data URLs and the usage accumulator of a stream.
  \<^item> \<^verbatim>\<open>Structured_Output\<close>, \<^verbatim>\<open>Lossy\<close>: \<^verbatim>\<open>core/src/protocol/structured_output.rs\<close> and \<^verbatim>\<open>lossy.rs\<close>, the checks
    that reject a conversion that would lose something.
  \<^item> \<^verbatim>\<open>Error_Class\<close>, \<^verbatim>\<open>App_Error\<close>: the error classes and their classification (\<^verbatim>\<open>core/src/pipeline\<close>,
    \<^verbatim>\<open>core/src/telemetry\<close>, \<^verbatim>\<open>protocols/src/error_body.rs\<close>) and \<^verbatim>\<open>AppError\<close> with its rendering in the client's
    protocol (\<^verbatim>\<open>server/src/ingress/mod.rs\<close>).
  \<^item> \<^verbatim>\<open>Health\<close>, \<^verbatim>\<open>Routing\<close>: \<^verbatim>\<open>core/src/routing/mod.rs\<close>, the health registry (circuit breaker, cooling, latency
    average), targets, routes, the routing table, the four ordering strategies and the retry and fallback
    policies.
  \<^item> \<^verbatim>\<open>Fallback\<close>: \<^verbatim>\<open>server/src/ingress/fallback.rs\<close>, the loop that executes a request on the targets of its route.
  \<^item> \<^verbatim>\<open>Quota\<close>: the in-memory counter of \<^verbatim>\<open>core/src/quota.rs\<close> and the check of a request in
    \<^verbatim>\<open>server/src/ingress/observability.rs\<close>.
  \<^item> \<^verbatim>\<open>Client_Auth\<close>, \<^verbatim>\<open>Envelope\<close>, \<^verbatim>\<open>Request_Scope\<close>: \<^verbatim>\<open>server/src/ingress/observability.rs\<close>, the key of a request and
    what it allows, the redacted envelope that is logged, and the scope that writes the row of a request.
  \<^item> \<^verbatim>\<open>Ingress\<close>: \<^verbatim>\<open>server/src/ingress/handlers.rs\<close>, the handlers of the four chat protocols from the permit to
    the response, composed of the scope, the checks, a codec and the fallback loop.
  \<^item> \<^verbatim>\<open>Response_Model\<close>, \<^verbatim>\<open>Streaming\<close>: \<^verbatim>\<open>server/src/ingress/response_model.rs\<close> and \<^verbatim>\<open>streaming.rs\<close>, the model name
    in responses, the driver of an upstream stream and the keepalive wrapper.
  \<^item> \<^verbatim>\<open>Stream_Codec\<close>: what the stream codecs of \<^verbatim>\<open>protocols/src\<close> share, with the interface of a codec as a locale.
    \<^verbatim>\<open>Chat_Stream\<close>, \<^verbatim>\<open>Messages_Stream\<close>, \<^verbatim>\<open>Gemini_Stream\<close>, \<^verbatim>\<open>Responses_Stream\<close>: the stream encoders and decoders of
    \<^verbatim>\<open>chat_completions.rs\<close>, \<^verbatim>\<open>messages.rs\<close>, \<^verbatim>\<open>gemini.rs\<close> and \<^verbatim>\<open>responses.rs\<close>, each of which interprets the locale (the
    last one in \<^verbatim>\<open>Responses_Roundtrip\<close>).  \<^verbatim>\<open>Transcode\<close>: the stream driver composed with a decoder of one protocol
    and the encoder of another.
  \<^item> \<^verbatim>\<open>Header_Forward\<close>, \<^verbatim>\<open>Redaction\<close>, \<^verbatim>\<open>Trace_Context\<close>: which headers pass between client and upstream, what
    is hidden in logs, and the W3C trace context.  \<^verbatim>\<open>Egress_Headers\<close>: the headers of an upstream call, from
    \<^verbatim>\<open>server/src/ingress/headers.rs\<close>, \<^verbatim>\<open>auth/src/bearer.rs\<close>, \<^verbatim>\<open>openai_codex_oauth.rs\<close> and \<^verbatim>\<open>anthropic_oauth.rs\<close>, in the
    order in which \<^verbatim>\<open>executors.rs\<close> builds them; its interface to the token manager is a locale.
  \<^item> \<^verbatim>\<open>Oauth_Tokens\<close>: \<^verbatim>\<open>auth/src/provider_oauth.rs\<close>, the built-in OAuth clients, the requests to a token endpoint, its answers and the
    cache of tokens.  \<^verbatim>\<open>Oauth_Manager\<close>: \<^verbatim>\<open>server/src/oauth_manager.rs\<close> and \<^verbatim>\<open>oauth_refresh_worker.rs\<close>, every operation of the token
    manager over the store and the cache.  \<^verbatim>\<open>Oauth_Steps\<close>: rules for invariants of its operations, on which
    \<^verbatim>\<open>Oauth_Rotation\<close> and \<^verbatim>\<open>Oauth_Behaviour\<close> rest.
  \<^item> \<^verbatim>\<open>Providers\<close>: \<^verbatim>\<open>providers/src\<close> and \<^verbatim>\<open>core/src/provider\<close>, the built-in providers with their protocol suites and URL
    builders, and the registry.
  \<^item> \<^verbatim>\<open>Encryption\<close>: \<^verbatim>\<open>store/src/encryption.rs\<close>, secrets at rest, over a record of the ciphers.
  \<^item> \<^verbatim>\<open>Snapshot\<close>, \<^verbatim>\<open>Config_Store\<close>: \<^verbatim>\<open>store/src/config_store.rs\<close>, the configuration snapshot and the routing table that is
    built from it, and \<^verbatim>\<open>DbConfigStore\<close>, each table of its database as a list of rows and each operation as the
    statements it executes, up to the refresh that publishes a snapshot.  \<^verbatim>\<open>Config_Coherence\<close>: the invariants of
    the database and the histories of the operations as an inductive relation.  \<^verbatim>\<open>Config_Credentials\<close>: API keys and
    the OAuth credentials of a provider, with the writers that run between two statements.
  \<^item> \<^verbatim>\<open>Brute_Force\<close>: the admin middleware of \<^verbatim>\<open>admin/src/auth.rs\<close> with the in-memory limiter of
    \<^verbatim>\<open>admin/src/brute_force.rs\<close>.

  \<^bold>\<open>How state and effects are modelled.\<close>  Structs are records, enums datatypes, a mutable object is a state
  that each operation takes and returns.  Panics are the left values of the type \<open>rust\<close>; arithmetic of the
  release profile wraps where the code writes \<open>+\<close> and saturates where it says so.  An \<^verbatim>\<open>Instant\<close> counts
  nanoseconds and its addition fails where the platform's 64-bit seconds overflow.  Floating point (weights,
  latency averages, jitter) is exact rational arithmetic.  Strings are byte strings with ASCII case folding.
  JSON objects are lists of entries in the order in which the code iterates over them.

  The fallback loop runs against an environment record: the clocks, the random draws, the answer of every
  upstream call and OAuth refresh, and what other requests do to the shared health registry at every point
  where the task awaits; each is a function of a step counter, so one environment is one interleaving and a
  theorem for all environments holds for all of them.  The loop terminates because no decision stays at the
  same target; no fuel is used anywhere.  The handlers add the point at which the client goes away, and the
  stream driver is a machine over the events its loop selects from.  Code outside the repository (the HTTP client, the token endpoint,
  the random generator, the validity tests of header names and values) is an argument of the definitions
  that use it.

  \<^bold>\<open>What the theorems show.\<close>

  \<^item> \<^verbatim>\<open>Fallback\<close>: the loop returns, makes at most twenty calls and only to targets of the route, never calls a
    target whose circuit is open, reports exactly what the calls said, and numbers its hops without gaps.
  \<^item> \<^verbatim>\<open>Ingress\<close>, \<^verbatim>\<open>Client_Auth\<close>, \<^verbatim>\<open>Envelope\<close>: every request leaves exactly one log row, wherever the client goes
    away; no upstream is called for a request that has not passed every check; who may use a model; no
    credential is logged.
  \<^item> \<^verbatim>\<open>Streaming\<close>, \<^verbatim>\<open>Response_Model\<close>: a stream leaves exactly one record; what the client receives does not depend
    on how the network cuts the stream; a forwarded stream is unchanged but for the model name, and the
    upstream's name never shows; keepalives are transparent and come in time.
  \<^item> \<^verbatim>\<open>Chat_Stream\<close>, \<^verbatim>\<open>Messages_Stream\<close>, \<^verbatim>\<open>Gemini_Stream\<close>, \<^verbatim>\<open>Responses_Roundtrip\<close>: what an encoder writes its decoder
    reads back, for the streams that the protocol has room for; \<^verbatim>\<open>Responses_Stream\<close>: the events are numbered
    without gaps, the end is sent once, every output item is opened and closed once.
  \<^item> \<^verbatim>\<open>Transcode\<close>: a client of each protocol reads from the bytes of the driver what the upstream said, whatever
    the protocol of the upstream and however its stream is cut.
  \<^item> \<^verbatim>\<open>Health\<close>, \<^verbatim>\<open>Routing\<close>: the circuit breaker is the threshold-and-tier rule; cooling is honoured; every
    reachable registry satisfies its invariant; the latency average stays between its samples; the strategies
    permute the targets and order them as they promise.
  \<^item> \<^verbatim>\<open>Quota\<close>: the counter refines an abstract counter, keeps its limits, and its retry delay is sound.
  \<^item> \<^verbatim>\<open>Lossy\<close>, \<^verbatim>\<open>Structured_Output\<close>: both checks are exact against a declarative account of what is lost.
  \<^item> \<^verbatim>\<open>Brute_Force\<close>: the guard lets through exactly the authenticated requests; a lockout cannot be bypassed;
    the lockout cycle with its escalation.
  \<^item> \<^verbatim>\<open>Config_Coherence\<close>, \<^verbatim>\<open>Snapshot\<close>: after every history of operations the published routing table is the one of
    the rows of the database, which holds exactly the enabled routes to enabled providers; deleting a provider
    removes what belongs to it and nothing else.  \<^verbatim>\<open>Config_Credentials\<close>: the life of an API key; a note on the state
    of a credential never changes it, whoever writes in between.  \<^verbatim>\<open>Encryption\<close>: what is encrypted for a
    purpose is read back by the same master key for that purpose.
  \<^item> \<^verbatim>\<open>Oauth_Rotation\<close>: whatever operations run and whatever the endpoint answers, each refresh request carries the refresh token that the last
    successful one left behind, so a replaced token is never sent again.  \<^verbatim>\<open>Oauth_Behaviour\<close>: a credential that failed is left alone
    until its time, and with the manager in any state the client has no influence on the credentials that are sent.
    \<^verbatim>\<open>Egress_Headers\<close>: which credential a target with a key is sent, and what else each stage adds.
  \<^item> \<^verbatim>\<open>Providers\<close>: the URL of a call does not depend on how its base is spelled.
  \<^item> \<^verbatim>\<open>Redaction\<close>, \<^verbatim>\<open>Header_Forward\<close>, \<^verbatim>\<open>Trace_Context\<close>, \<^verbatim>\<open>App_Error\<close>: redaction hides exactly the secret values,
    the header policy is its deny list, credentials never pass, trace contexts survive a round trip, errors
    are rendered in the client's protocol.
  \<^item> Some theorems state where the code does less than it means to: a route that mixes positive and zero
    weights panics, a huge \<^verbatim>\<open>Retry-After\<close> panics, the quota comparison wraps, a forged \<^verbatim>\<open>X-Forwarded-For\<close> evades
    the lockout, a structured error class does not reach the fallback decision, the queue limit counts running
    requests, token quotas count requests, a cut character is destroyed, failing streams never open the
    circuit, a huge tool-call index panics, interleaved calls are mixed up for a messages client, streamed
    arguments are lost for a Gemini client, a running Gemini usage ends the stream early, a responses stream
    without a finish leaves its text item open, the poll for a changed configuration refreshes in every
    round and never comes to rest, a Gemini base that names a version gets it twice, repeated response headers are
    lost, access tokens that live for a minute are never used, a huge lifetime loses the refresh token, providers with a
    colon in their id can share a cache entry.

  \<^bold>\<open>What is not modelled.\<close>  The Redis variants of the quota counter and the limiter (scripts that run on a
  server), requests and whole responses of the codecs of \<^verbatim>\<open>protocols/\<close>, the executors, the handlers of embeddings and
  images, the admin side of an OAuth login, the export and import of a configuration, the SQL of the request log, the admin handlers, process start-up and the desktop shell.
\<close>

end
